(* ===== verification/Js_Prelude.thy ===== *)
theory Js_Prelude imports Main "HOL-Library.AList" "HOL-Library.List_Lexorder" begin

text \<open>
  What every component of the development shares: JavaScript strings as lists of UTF-16 code
  units, the JavaScript values a JSON message is made of, thrown exceptions as the left side of
  a sum, property reads, strict equality, truthiness, \<^verbatim>\<open>Object.keys\<close>, \<^verbatim>\<open>Map\<close> and \<^verbatim>\<open>Set\<close> in
  insertion order, and the unsigned 64-bit counters that travel as decimal strings.

  Conventions. A string literal of the source is \<open>U ''...''\<close>. A JavaScript \<^verbatim>\<open>Map\<close> whose keys are
  strings is an association list that keeps insertion order: \<^verbatim>\<open>set\<close> is \<open>AList.update\<close> (a key
  that is present keeps its place), \<^verbatim>\<open>delete\<close> is \<open>AList.delete\<close>, \<^verbatim>\<open>get\<close> is \<open>map_of\<close>. An object is
  an association list with distinct keys. Objects and arrays of distinct messages never share
  references, so \<^verbatim>\<open>===\<close> on them is false.
\<close>

section \<open>Strings\<close>

type_synonym ustr = "nat list"

definition U :: "string \<Rightarrow> ustr" where
  "U s = map of_char s"

lemma U_inject [simp]: "U a = U b \<longleftrightarrow> a = b"
proof -
  have "inj (map (of_char :: char \<Rightarrow> nat))"
    by (simp add: inj_of_char)
  then show ?thesis
    by (auto simp: U_def inj_def)
qed

lemma U_Nil [simp]: "U [] = []" and U_eq_Nil [simp]: "U s = [] \<longleftrightarrow> s = []"
  and Nil_eq_U [simp]: "[] = U s \<longleftrightarrow> s = []"
  by (auto simp: U_def)

lemma U_append: "U (a @ b) = U a @ U b"
  by (simp add: U_def)

section \<open>Exceptions\<close>

text \<open>
  The classes the modelled files throw, with the code or message they carry, and the
  \<^verbatim>\<open>TypeError\<close> of a property read on \<^verbatim>\<open>undefined\<close> or \<^verbatim>\<open>null\<close>.
\<close>

datatype exn =
    WireInputError string
  | TranscriptError string int
  | ClientBoundaryError string
  | QualificationBlocked string
  | InputInventoryBlocked string
  | AssertionError string
  | RangeError string
  | PlainError string
  | TypeError
  | OutOfFuel

type_synonym 'a res = "exn + 'a"

definition bindE :: "'a res \<Rightarrow> ('a \<Rightarrow> 'b res) \<Rightarrow> 'b res" where
  "bindE m f = (case m of Inl e \<Rightarrow> Inl e | Inr x \<Rightarrow> f x)"

definition ensure :: "bool \<Rightarrow> exn \<Rightarrow> unit res" where
  "ensure b e = (if b then Inr () else Inl e)"

fun mapE :: "('a \<Rightarrow> 'b res) \<Rightarrow> 'a list \<Rightarrow> 'b list res" where
  "mapE f [] = Inr []"
| "mapE f (x # xs) = bindE (f x) (\<lambda>y. bindE (mapE f xs) (\<lambda>ys. Inr (y # ys)))"

fun foldE :: "('s \<Rightarrow> 'a \<Rightarrow> 's res) \<Rightarrow> 's \<Rightarrow> 'a list \<Rightarrow> 's res" where
  "foldE f s [] = Inr s"
| "foldE f s (x # xs) = bindE (f s x) (\<lambda>s'. foldE f s' xs)"

definition tryE :: "'a res \<Rightarrow> 'a \<Rightarrow> 'a" where
  "tryE m d = (case m of Inl _ \<Rightarrow> d | Inr x \<Rightarrow> x)"

abbreviation thenE :: "'a res \<Rightarrow> 'b res \<Rightarrow> 'b res" where
  "thenE m k \<equiv> bindE m (\<lambda>_. k)"

text \<open>Short-circuit operators over conditions that can throw.\<close>

definition andE :: "bool res \<Rightarrow> bool res \<Rightarrow> bool res" where
  "andE a b = bindE a (\<lambda>x. if x then b else Inr False)"

definition orE :: "bool res \<Rightarrow> bool res \<Rightarrow> bool res" where
  "orE a b = bindE a (\<lambda>x. if x then Inr True else b)"

definition rejectIf :: "bool res \<Rightarrow> exn \<Rightarrow> unit res" where
  "rejectIf c e = bindE c (\<lambda>b. ensure (\<not> b) e)"

fun someE :: "('a \<Rightarrow> bool res) \<Rightarrow> 'a list \<Rightarrow> bool res" where
  "someE p [] = Inr False"
| "someE p (x # xs) = orE (p x) (someE p xs)"

named_theorems res_simps "how a sum-valued computation ends"

lemma bindE_simps [simp]: "bindE (Inr x) f = f x" "bindE (Inl e) f = Inl e"
  by (simp_all add: bindE_def)

lemma bindE_Inr [res_simps]: "bindE m f = Inr y \<longleftrightarrow> (\<exists>x. m = Inr x \<and> f x = Inr y)"
  by (cases m) auto

lemma bindE_Inl [res_simps]:
  "bindE m f = Inl e \<longleftrightarrow> m = Inl e \<or> (\<exists>x. m = Inr x \<and> f x = Inl e)"
  by (cases m) auto

lemma bindE_assoc: "bindE (bindE m f) g = bindE m (\<lambda>x. bindE (f x) g)"
  by (cases m) auto

lemma bindE_cong [fundef_cong]:
  "m = m' \<Longrightarrow> (\<And>x. m' = Inr x \<Longrightarrow> f x = f' x) \<Longrightarrow> bindE m f = bindE m' f'"
  by (cases m') auto

lemma ensure_simps [simp]: "ensure True e = Inr ()" "ensure False e = Inl e"
  by (simp_all add: ensure_def)

lemma ensure_Inr [res_simps]: "ensure b e = Inr x \<longleftrightarrow> b"
  by (simp add: ensure_def)

lemma ensure_Inl [res_simps]: "ensure b e = Inl e' \<longleftrightarrow> \<not> b \<and> e' = e"
  by (auto simp: ensure_def)

lemma rejectIf_simps [simp]: "rejectIf (Inr b) e = ensure (\<not> b) e" "rejectIf (Inl x) e = Inl x"
  by (simp_all add: rejectIf_def)

lemma rejectIf_Inr [res_simps]: "rejectIf c e = Inr x \<longleftrightarrow> c = Inr False"
  by (cases c) (auto simp: res_simps)

lemma andE_simps [simp]: "andE (Inr True) b = b" "andE (Inr False) b = Inr False" "andE (Inl e) b = Inl e"
  by (simp_all add: andE_def)

lemma orE_simps [simp]: "orE (Inr False) b = b" "orE (Inr True) b = Inr True" "orE (Inl e) b = Inl e"
  by (simp_all add: orE_def)

lemma orE_False [res_simps]: "orE a b = Inr False \<longleftrightarrow> a = Inr False \<and> b = Inr False"
  by (auto simp: orE_def res_simps split: if_splits)

lemma orE_True [res_simps]: "orE a b = Inr True \<longleftrightarrow> a = Inr True \<or> a = Inr False \<and> b = Inr True"
  by (auto simp: orE_def res_simps split: if_splits)

lemma andE_True [res_simps]: "andE a b = Inr True \<longleftrightarrow> a = Inr True \<and> b = Inr True"
  by (auto simp: andE_def res_simps split: if_splits)

lemma andE_False [res_simps]: "andE a b = Inr False \<longleftrightarrow> a = Inr False \<or> a = Inr True \<and> b = Inr False"
  by (auto simp: andE_def res_simps split: if_splits)

lemma tryE_simps [simp]: "tryE (Inr x) d = x" "tryE (Inl e) d = d"
  by (simp_all add: tryE_def)

lemma mapE_cong [fundef_cong]:
  "xs = ys \<Longrightarrow> (\<And>x. x \<in> set ys \<Longrightarrow> f x = g x) \<Longrightarrow> mapE f xs = mapE g ys"
proof (induction xs arbitrary: ys)
  case (Cons x xs)
  then show ?case by (cases ys) auto
qed simp

lemma mapE_Inr: "mapE f xs = Inr ys \<longleftrightarrow> list_all2 (\<lambda>x y. f x = Inr y) xs ys"
proof (induction xs arbitrary: ys)
  case (Cons x xs)
  then show ?case by (cases ys) (auto simp: res_simps)
qed auto

lemma mapE_map: "mapE f (map g xs) = mapE (\<lambda>x. f (g x)) xs"
  by (induction xs) auto

lemma mapE_total: "(\<And>x. x \<in> set xs \<Longrightarrow> f x = Inr (g x)) \<Longrightarrow> mapE f xs = Inr (map g xs)"
  by (induction xs) auto

lemma mapE_Inl: "mapE f xs = Inl e \<Longrightarrow> \<exists>x\<in>set xs. f x = Inl e"
  by (induction xs) (auto simp: res_simps)

lemma foldE_append: "foldE f s (xs @ ys) = bindE (foldE f s xs) (\<lambda>s'. foldE f s' ys)"
  by (induction xs arbitrary: s) (auto simp: bindE_assoc)

lemma foldE_cong [fundef_cong]:
  "s = t \<Longrightarrow> xs = ys \<Longrightarrow> (\<And>s x. x \<in> set ys \<Longrightarrow> f s x = g s x) \<Longrightarrow> foldE f s xs = foldE g t ys"
proof (induction xs arbitrary: s t ys)
  case (Cons x xs)
  then show ?case by (cases ys) (auto intro!: arg_cong [where f = "bindE (g t x)"])
qed simp

text \<open>A loop keeps what each of its turns keeps.\<close>

lemma foldE_invariant:
  assumes "foldE f s xs = Inr t" and "P s"
    and "\<And>s x t. x \<in> set xs \<Longrightarrow> P s \<Longrightarrow> f s x = Inr t \<Longrightarrow> P t"
  shows "P t"
  using assms
proof (induction xs arbitrary: s)
  case (Cons x xs)
  then obtain s' where s': "f s x = Inr s'" "foldE f s' xs = Inr t"
    by (auto simp: res_simps)
  show ?case
  proof (rule Cons.IH [OF s'(2)])
    show "P s'" using Cons.prems(2) Cons.prems(3) [of x s s'] s'(1) by simp
  next
    fix s x t
    assume "x \<in> set xs" "P s" "f s x = Inr t"
    then show "P t" using Cons.prems(3) [of x s t] by simp
  qed
qed simp

section \<open>Digits and counters\<close>

definition digit :: "nat \<Rightarrow> bool" where
  "digit c \<longleftrightarrow> 48 \<le> c \<and> c \<le> 57"

definition digits_value :: "ustr \<Rightarrow> int" where
  "digits_value ds = fold (\<lambda>d n. 10 * n + (int d - 48)) ds 0"

fun nat_string :: "nat \<Rightarrow> ustr" where
  "nat_string n = (if n < 10 then [48 + n] else nat_string (n div 10) @ [48 + n mod 10])"

declare nat_string.simps [simp del]

text \<open>The pattern \<^verbatim>\<open>/^(0|[1-9][0-9]{0,19})$/\<close> of a decimal counter.\<close>

definition counter_syntax :: "ustr \<Rightarrow> bool" where
  "counter_syntax s \<longleftrightarrow> s = [48] \<or>
     (s \<noteq> [] \<and> length s \<le> 20 \<and> list_all digit s \<and> hd s \<noteq> 48)"

definition U64_MAX :: int where
  "U64_MAX = 18446744073709551615"

lemma digits_value_snoc: "digits_value (ds @ [d]) = 10 * digits_value ds + (int d - 48)"
  by (simp add: digits_value_def)

lemma nat_string_digits: "list_all digit (nat_string n)"
proof (induction n rule: nat_string.induct)
  case (1 n)
  show ?case
  proof (cases "n < 10")
    case True
    then show ?thesis by (subst nat_string.simps) (simp add: digit_def)
  next
    case False
    with 1 have "list_all digit (nat_string (n div 10))" by simp
    moreover have "digit (48 + n mod 10)" by (simp add: digit_def)
    ultimately show ?thesis using False by (subst nat_string.simps) simp
  qed
qed

lemma digits_value_nat_string [simp]: "digits_value (nat_string n) = int n"
proof (induction n rule: nat_string.induct)
  case (1 n)
  show ?case
  proof (cases "n < 10")
    case True
    then show ?thesis by (subst nat_string.simps) (simp add: digits_value_def)
  next
    case False
    have "10 * int (n div 10) + int (n mod 10) = int n"
      by (metis div_mult_mod_eq mult.commute of_nat_add of_nat_mult of_nat_numeral)
    with False 1 show ?thesis by (subst nat_string.simps) (simp add: digits_value_snoc)
  qed
qed

lemma nat_string_inject [simp]: "nat_string a = nat_string b \<longleftrightarrow> a = b"
  by (metis digits_value_nat_string nat_int)

lemma nat_string_not_Nil [simp]: "nat_string n \<noteq> []"
  by (subst nat_string.simps) simp

lemma nat_string_hd: "hd (nat_string n) = 48 \<longleftrightarrow> n = 0"
proof (induction n rule: nat_string.induct)
  case (1 n)
  show ?case
  proof (cases "n < 10")
    case True
    then show ?thesis by (subst nat_string.simps) auto
  next
    case False
    with 1 show ?thesis by (subst nat_string.simps) (auto simp: hd_append)
  qed
qed

section \<open>Values\<close>

text \<open>
  A JavaScript value as the modelled code can meet it in a message. \<open>JInt\<close> is a number with an
  integral value, \<open>JReal\<close> any other ordinary number (told apart by an index), the two
  remaining numbers have constructors of their own.
\<close>

datatype jv =
    JUndef
  | JNull
  | JBool bool
  | JInt int
  | JNegZero
  | JNaN
  | JReal nat
  | JStr ustr
  | JArr "jv list"
  | JObj "(ustr \<times> jv) list"

abbreviation S :: "string \<Rightarrow> jv" where
  "S s \<equiv> JStr (U s)"

definition MAX_SAFE :: int where
  "MAX_SAFE = 2 ^ 53 - 1"

fun safe_integer :: "jv \<Rightarrow> bool" where
  "safe_integer (JInt i) = (\<bar>i\<bar> \<le> MAX_SAFE)"
| "safe_integer JNegZero = True"
| "safe_integer _ = False"

fun is_object :: "jv \<Rightarrow> bool" where
  "is_object (JObj _) = True"
| "is_object _ = False"

fun is_array :: "jv \<Rightarrow> bool" where
  "is_array (JArr _) = True"
| "is_array _ = False"

fun is_string :: "jv \<Rightarrow> bool" where
  "is_string (JStr _) = True"
| "is_string _ = False"

fun truthy :: "jv \<Rightarrow> bool" where
  "truthy JUndef = False"
| "truthy JNull = False"
| "truthy (JBool b) = b"
| "truthy (JInt i) = (i \<noteq> 0)"
| "truthy JNegZero = False"
| "truthy JNaN = False"
| "truthy (JReal _) = True"
| "truthy (JStr s) = (s \<noteq> [])"
| "truthy (JArr _) = True"
| "truthy (JObj _) = True"

fun strict_eq :: "jv \<Rightarrow> jv \<Rightarrow> bool" where
  "strict_eq JUndef y = (y = JUndef)"
| "strict_eq JNull y = (y = JNull)"
| "strict_eq (JBool b) y = (y = JBool b)"
| "strict_eq (JInt i) y = (y = JInt i \<or> i = 0 \<and> y = JNegZero)"
| "strict_eq JNegZero y = (y = JNegZero \<or> y = JInt 0)"
| "strict_eq JNaN y = False"
| "strict_eq (JReal n) y = (y = JReal n)"
| "strict_eq (JStr s) y = (y = JStr s)"
| "strict_eq (JArr _) y = False"
| "strict_eq (JObj _) y = False"

definition nullish :: "jv \<Rightarrow> bool" where
  "nullish v \<longleftrightarrow> v = JUndef \<or> v = JNull"

text \<open>The \<^verbatim>\<open>a ?? b\<close> operator.\<close>

definition coalesce :: "jv \<Rightarrow> jv \<Rightarrow> jv" where
  "coalesce a b = (if nullish a then b else a)"

definition obj_lookup :: "(ustr \<times> jv) list \<Rightarrow> ustr \<Rightarrow> jv" where
  "obj_lookup kvs k = (case map_of kvs k of None \<Rightarrow> JUndef | Some v \<Rightarrow> v)"

text \<open>
  Property reads. \<open>fld\<close> is a read whose receiver is known to be neither \<^verbatim>\<open>undefined\<close> nor \<^verbatim>\<open>null\<close>
  (data that passed a schema), or an optional chain \<^verbatim>\<open>v?.k\<close>; \<open>getp\<close> throws on those two.
\<close>

fun fld :: "jv \<Rightarrow> string \<Rightarrow> jv" where
  "fld (JObj kvs) k = obj_lookup kvs (U k)"
| "fld (JArr xs) k = (if k = ''length'' then JInt (int (length xs)) else JUndef)"
| "fld (JStr s) k = (if k = ''length'' then JInt (int (length s)) else JUndef)"
| "fld _ k = JUndef"

definition getp :: "jv \<Rightarrow> string \<Rightarrow> jv res" where
  "getp v k = (if nullish v then Inl TypeError else Inr (fld v k))"

fun path :: "jv \<Rightarrow> string list \<Rightarrow> jv" where
  "path v [] = v"
| "path v (k # ks) = path (fld v k) ks"

fun getps :: "jv \<Rightarrow> string list \<Rightarrow> jv res" where
  "getps v [] = Inr v"
| "getps v (k # ks) = bindE (getp v k) (\<lambda>w. getps w ks)"

fun own :: "jv \<Rightarrow> string \<Rightarrow> bool" where
  "own (JObj kvs) k = (U k \<in> fst ` set kvs)"
| "own _ k = False"

fun obj_entries :: "jv \<Rightarrow> (ustr \<times> jv) list" where
  "obj_entries (JObj kvs) = kvs"
| "obj_entries _ = []"

fun arr_items :: "jv \<Rightarrow> jv list" where
  "arr_items (JArr xs) = xs"
| "arr_items _ = []"

text \<open>
  \<open>obj_put\<close> is the object spread with one property overridden, \<^verbatim>\<open>{ ...value, key: v }\<close>, and
  \<open>obj_del\<close> the copy without a property.
\<close>

definition obj_put :: "jv \<Rightarrow> string \<Rightarrow> jv \<Rightarrow> jv" where
  "obj_put o' k v = JObj (AList.update (U k) v (obj_entries o'))"

definition obj_del :: "jv \<Rightarrow> string \<Rightarrow> jv" where
  "obj_del o' k = JObj (AList.delete (U k) (obj_entries o'))"

text \<open>
  The own enumerable properties that an object spread copies (none of a number, of \<^verbatim>\<open>null\<close> or of
  \<^verbatim>\<open>undefined\<close>), and what \<^verbatim>\<open>for ... of\<close> and an array spread go over: the items of an array, the code
  points of a string; anything else throws.
\<close>

definition indexed :: "jv list \<Rightarrow> (ustr \<times> jv) list" where
  "indexed xs = zip (map nat_string [0..<length xs]) xs"

fun code_points :: "ustr \<Rightarrow> ustr list" where
  "code_points [] = []"
| "code_points [c] = [[c]]"
| "code_points (c # d # cs) =
     (if 0xD800 \<le> c \<and> c \<le> 0xDBFF \<and> 0xDC00 \<le> d \<and> d \<le> 0xDFFF then [c, d] # code_points cs
      else [c] # code_points (d # cs))"

fun spread :: "jv \<Rightarrow> (ustr \<times> jv) list" where
  "spread (JObj kvs) = kvs"
| "spread (JArr xs) = indexed xs"
| "spread (JStr s) = indexed (map (\<lambda>c. JStr [c]) s)"
| "spread _ = []"

fun iterate :: "jv \<Rightarrow> jv list res" where
  "iterate (JArr xs) = Inr xs"
| "iterate (JStr s) = Inr (map JStr (code_points s))"
| "iterate _ = Inl TypeError"

definition str_of :: "jv \<Rightarrow> ustr" where
  "str_of v = (case v of JStr s \<Rightarrow> s | _ \<Rightarrow> [])"

text \<open>\<^verbatim>\<open>[...].includes(v)\<close> over string literals, and equality with a string literal.\<close>

definition one_of :: "jv \<Rightarrow> string list \<Rightarrow> bool" where
  "one_of v ss \<longleftrightarrow> (\<exists>s \<in> set ss. v = S s)"

definition isS :: "jv \<Rightarrow> string \<Rightarrow> bool" where
  "isS v s \<longleftrightarrow> v = S s"

lemma isS_S [simp]: "isS (S a) b \<longleftrightarrow> a = b"
  by (simp add: isS_def)

lemma one_of_code [simp]: "one_of v [] = False" "one_of v (s # ss) = (v = S s \<or> one_of v ss)"
  by (auto simp: one_of_def)

lemma strict_eq_S [simp]: "strict_eq v (S s) \<longleftrightarrow> v = S s"
  by (cases v) auto

lemma strict_eq_strings [simp]: "strict_eq (JStr a) (JStr b) \<longleftrightarrow> a = b"
  by auto

lemma getp_Inr [res_simps]: "getp v k = Inr w \<longleftrightarrow> \<not> nullish v \<and> w = fld v k"
  by (auto simp: getp_def)

lemma getp_JObj [simp]: "getp (JObj kvs) k = Inr (obj_lookup kvs (U k))"
  by (simp add: getp_def nullish_def)

lemma obj_lookup_simps [simp]:
  "obj_lookup [] k = JUndef"
  "obj_lookup ((k', v) # kvs) k = (if k' = k then v else obj_lookup kvs k)"
  by (simp_all add: obj_lookup_def)

lemma nullish_simps [simp]:
  "nullish JUndef" "nullish JNull" "\<not> nullish (JBool b)" "\<not> nullish (JInt i)" "\<not> nullish JNegZero"
  "\<not> nullish JNaN" "\<not> nullish (JReal n)" "\<not> nullish (JStr s)" "\<not> nullish (JArr xs)" "\<not> nullish (JObj kvs)"
  by (simp_all add: nullish_def)

lemma fld_obj_put [simp]:
  "fld (obj_put v k w) k' = (if k' = k then w else if is_object v then fld v k' else JUndef)"
  by (cases v) (auto simp: obj_put_def obj_lookup_def update_conv)

lemma is_object_obj_put [simp]: "is_object (obj_put v k w)"
  by (simp add: obj_put_def)

lemma nullish_obj_put [simp]: "\<not> nullish (obj_put v k w)"
  by (simp add: obj_put_def)

text \<open>The pairs of an object are smaller than the object: what every recursion over values uses.\<close>

lemma size_member [termination_simp]:
  "x \<in> set kvs \<Longrightarrow> size (snd x) < Suc (size_list (\<lambda>x. Suc (size (snd x))) kvs)"
  "(k, v) \<in> set kvs \<Longrightarrow> size v < Suc (size_list (\<lambda>x. Suc (size (snd x))) kvs)"
  by (induction kvs) auto

lemma size_item [termination_simp]: "v \<in> set vs \<Longrightarrow> size v < Suc (size_list size vs)"
  by (induction vs) auto

section \<open>Sets in insertion order\<close>

definition set_add :: "'a \<Rightarrow> 'a list \<Rightarrow> 'a list" where
  "set_add x xs = (if x \<in> set xs then xs else xs @ [x])"

lemma set_set_add [simp]: "set (set_add x xs) = insert x (set xs)"
  by (auto simp: set_add_def)

lemma distinct_set_add [simp]: "distinct (set_add x xs) = distinct xs"
  by (auto simp: set_add_def)

lemma length_set_add: "length (set_add x xs) \<le> Suc (length xs)"
  by (simp add: set_add_def)

section \<open>Maps in insertion order\<close>

lemma map_of_update [simp]: "map_of (AList.update k v m) = (map_of m)(k \<mapsto> v)"
  by (rule update_conv')

lemma keys_update: "fst ` set (AList.update k v m) = insert k (fst ` set m)"
  by (metis dom_map_of_conv_image_fst fun_upd_def dom_fun_upd map_of_update option.simps(3))

lemma distinct_keys_update [simp]: "distinct (map fst m) \<Longrightarrow> distinct (map fst (AList.update k v m))"
  by (rule distinct_update)

lemma length_update: "length (AList.update k v m) = (if k \<in> fst ` set m then length m else Suc (length m))"
  by (induction m) auto

lemma length_update_le: "length m \<le> length (AList.update k v m)"
  by (simp add: length_update)

lemma map_of_values: "distinct (map fst m) \<Longrightarrow> v \<in> snd ` set m \<longleftrightarrow> (\<exists>k. map_of m k = Some v)"
  by (force simp: map_of_eq_Some_iff image_iff)

end
