(* ===== verification/Unicode.thy ===== *)
theory Unicode imports Js_Prelude "HOL-Library.Word" begin

text \<open>
  UTF-16 and UTF-8, as \<^verbatim>\<open>contracts/codec/strict-json.mjs\<close> relies on them: \<open>validUnicode\<close> is the
  file's own scan for unpaired surrogates; \<open>utf8_encode\<close> is what the standard
  \<^verbatim>\<open>TextEncoder\<close> computes on a string without unpaired surrogates, and \<open>utf8_decode\<close> what
  \<^verbatim>\<open>TextDecoder('utf-8', { fatal: true, ignoreBOM: true })\<close> computes, \<open>None\<close> for its
  \<^verbatim>\<open>TypeError\<close>. The two library functions are inverse to each other, which is what makes a
  text frame and the byte frame that encodes it interchangeable for the codec.
\<close>

definition high_surrogate :: "nat \<Rightarrow> bool" where
  "high_surrogate c \<longleftrightarrow> 0xD800 \<le> c \<and> c \<le> 0xDBFF"

definition low_surrogate :: "nat \<Rightarrow> bool" where
  "low_surrogate c \<longleftrightarrow> 0xDC00 \<le> c \<and> c \<le> 0xDFFF"

fun validUnicode :: "ustr \<Rightarrow> bool" where
  "validUnicode [] = True"
| "validUnicode (c # cs) =
     (if high_surrogate c then
        (case cs of [] \<Rightarrow> False | d # ds \<Rightarrow> low_surrogate d \<and> validUnicode ds)
      else if low_surrogate c then False
      else validUnicode cs)"

text \<open>Code units are 16-bit.\<close>

definition units :: "ustr \<Rightarrow> bool" where
  "units s \<longleftrightarrow> (\<forall>c \<in> set s. c < 0x10000)"

fun utf8_encode :: "ustr \<Rightarrow> nat list" where
  "utf8_encode [] = []"
| "utf8_encode (c # cs) =
     (if c < 0x80 then c # utf8_encode cs
      else if c < 0x800 then [0xC0 + c div 64, 0x80 + c mod 64] @ utf8_encode cs
      else if high_surrogate c then
        (case cs of [] \<Rightarrow> []
         | d # ds \<Rightarrow>
             let p = 0x10000 + (c - 0xD800) * 0x400 + (d - 0xDC00)
             in [0xF0 + p div 262144, 0x80 + p div 4096 mod 64, 0x80 + p div 64 mod 64, 0x80 + p mod 64]
                @ utf8_encode ds)
      else [0xE0 + c div 4096, 0x80 + c div 64 mod 64, 0x80 + c mod 64] @ utf8_encode cs)"

definition continuation :: "nat \<Rightarrow> bool" where
  "continuation b \<longleftrightarrow> 0x80 \<le> b \<and> b \<le> 0xBF"

text \<open>
  The decoder: shortest forms only, no surrogates, nothing above U+10FFFF. The bounds on the
  second byte are those of the standard's decoder.
\<close>

fun utf8_decode :: "nat list \<Rightarrow> ustr option" where
  "utf8_decode [] = Some []"
| "utf8_decode (a # bs) =
     (if a < 0x80 then map_option ((#) a) (utf8_decode bs)
      else if 0xC2 \<le> a \<and> a \<le> 0xDF then
        (case bs of b # r \<Rightarrow>
           if continuation b then map_option ((#) ((a - 0xC0) * 64 + (b - 0x80))) (utf8_decode r) else None
         | _ \<Rightarrow> None)
      else if 0xE0 \<le> a \<and> a \<le> 0xEF then
        (case bs of b # c # r \<Rightarrow>
           if continuation b \<and> continuation c \<and> (a = 0xE0 \<longrightarrow> 0xA0 \<le> b) \<and> (a = 0xED \<longrightarrow> b \<le> 0x9F)
           then map_option ((#) ((a - 0xE0) * 4096 + (b - 0x80) * 64 + (c - 0x80))) (utf8_decode r) else None
         | _ \<Rightarrow> None)
      else if 0xF0 \<le> a \<and> a \<le> 0xF4 then
        (case bs of b # c # d # r \<Rightarrow>
           if continuation b \<and> continuation c \<and> continuation d
              \<and> (a = 0xF0 \<longrightarrow> 0x90 \<le> b) \<and> (a = 0xF4 \<longrightarrow> b \<le> 0x8F)
           then (let q = (a - 0xF0) * 262144 + (b - 0x80) * 4096 + (c - 0x80) * 64 + (d - 0x80) - 0x10000
                 in map_option (\<lambda>s. (0xD800 + q div 0x400) # (0xDC00 + q mod 0x400) # s) (utf8_decode r))
           else None
         | _ \<Rightarrow> None)
      else None)"

declare validUnicode.simps(2) [simp del] utf8_encode.simps(2) [simp del] utf8_decode.simps(2) [simp del]

lemmas surrogate_defs = high_surrogate_def low_surrogate_def

lemma units_simps [simp]: "units []" "units (c # cs) \<longleftrightarrow> c < 0x10000 \<and> units cs"
  "units (a @ b) \<longleftrightarrow> units a \<and> units b"
  by (auto simp: units_def)

lemma units_U [simp]: "units (U s)"
proof -
  have "(of_char c :: nat) < 0x10000" for c :: char
  proof -
    have "(of_char c :: nat) < 256"
      by (rule nat_of_char_less_256)
    then show ?thesis by (rule less_trans) simp
  qed
  then show ?thesis by (simp add: units_def U_def)
qed

text \<open>Base 64 digits put together again.\<close>

lemma base64_two: "c div 4096 * 4096 + c div 64 mod 64 * 64 + c mod 64 = (c::nat)"
proof -
  have "c div 4096 = c div 64 div 64" by (simp add: div_mult2_eq [symmetric])
  then show ?thesis
    using div_mult_mod_eq [of "c div 64" 64] div_mult_mod_eq [of c 64] by linarith
qed

lemma base64_three:
  "p div 262144 * 262144 + p div 4096 mod 64 * 4096 + p div 64 mod 64 * 64 + p mod 64 = (p::nat)"
proof -
  have "p div 262144 = p div 4096 div 64" by (simp add: div_mult2_eq [symmetric])
  then show ?thesis
    using div_mult_mod_eq [of "p div 4096" 64] base64_two [of p] by linarith
qed

text \<open>One step of either function on each shape of its argument.\<close>

lemma valid_bmp: "\<not> high_surrogate c \<Longrightarrow> \<not> low_surrogate c \<Longrightarrow> validUnicode (c # cs) = validUnicode cs"
  by (simp add: validUnicode.simps(2))

lemma valid_pair: "high_surrogate c \<Longrightarrow> low_surrogate d \<Longrightarrow> validUnicode (c # d # ds) = validUnicode ds"
  by (simp add: validUnicode.simps(2))

lemma valid_induct [consumes 1, case_names Nil bmp pair]:
  assumes "validUnicode s"
    and "P []"
    and "\<And>c cs. \<not> high_surrogate c \<Longrightarrow> \<not> low_surrogate c \<Longrightarrow> validUnicode cs \<Longrightarrow> P cs \<Longrightarrow> P (c # cs)"
    and "\<And>c d ds. high_surrogate c \<Longrightarrow> low_surrogate d \<Longrightarrow> validUnicode ds \<Longrightarrow> P ds \<Longrightarrow> P (c # d # ds)"
  shows "P s"
  using assms(1)
proof (induction s rule: validUnicode.induct)
  case 1
  show ?case by (rule assms(2))
next
  case (2 c cs)
  then show ?case
    using assms(3,4) by (auto simp: validUnicode.simps(2) split: if_splits list.splits)
qed

lemma valid_append: "validUnicode a \<Longrightarrow> validUnicode (a @ b) = validUnicode b"
  by (induction a rule: valid_induct) (auto simp: valid_bmp valid_pair)

lemma decode_one: "a < 0x80 \<Longrightarrow> utf8_decode (a # r) = map_option ((#) a) (utf8_decode r)"
  by (simp add: utf8_decode.simps(2))

lemma decode_two:
  assumes "0x80 \<le> c" "c < 0x800"
  shows "utf8_decode ((0xC0 + c div 64) # (0x80 + c mod 64) # r) = map_option ((#) c) (utf8_decode r)"
proof -
  have "2 \<le> c div 64" "c div 64 < 32" "c mod 64 \<le> 63" using assms by auto
  then show ?thesis
    by (simp add: utf8_decode.simps(2) continuation_def)
qed

lemma decode_three:
  assumes "0x800 \<le> c" "c < 0x10000" "\<not> high_surrogate c" "\<not> low_surrogate c"
  shows "utf8_decode ((0xE0 + c div 4096) # (0x80 + c div 64 mod 64) # (0x80 + c mod 64) # r)
    = map_option ((#) c) (utf8_decode r)"
proof -
  have b: "c div 4096 < 16" "c mod 64 \<le> 63" "c div 64 mod 64 \<le> 63" using assms(2) by auto
  have val: "c div 4096 * 4096 + c div 64 mod 64 * 64 + c mod 64 = c"
    by (rule base64_two)
  have lo: "c div 4096 = 0 \<longrightarrow> 32 \<le> c div 64 mod 64"
    using assms(1) val b by linarith
  have hi: "c div 4096 = 13 \<longrightarrow> c div 64 mod 64 \<le> 31"
    using assms(3,4) val b unfolding surrogate_defs by linarith
  show ?thesis using b val lo hi
    by (simp add: utf8_decode.simps(2) continuation_def)
qed

lemma decode_four:
  assumes "high_surrogate c" "low_surrogate d" and p: "p = 0x10000 + (c - 0xD800) * 0x400 + (d - 0xDC00)"
  shows "utf8_decode ((0xF0 + p div 262144) # (0x80 + p div 4096 mod 64) # (0x80 + p div 64 mod 64)
      # (0x80 + p mod 64) # r) = map_option (\<lambda>s. c # d # s) (utf8_decode r)"
proof -
  have r: "0x10000 \<le> p" "p < 0x110000" using assms unfolding surrogate_defs by auto
  have b: "p div 262144 \<le> 4" "p div 4096 mod 64 \<le> 63" "p div 64 mod 64 \<le> 63" "p mod 64 \<le> 63"
    using r by auto
  have val: "p div 262144 * 262144 + p div 4096 mod 64 * 4096 + p div 64 mod 64 * 64 + p mod 64 = p"
    by (rule base64_three)
  have lo: "p div 262144 = 0 \<longrightarrow> 16 \<le> p div 4096 mod 64"
    and hi: "p div 262144 = 4 \<longrightarrow> p div 4096 mod 64 \<le> 15"
    using r val b by linarith+
  have "p - 0x10000 = (c - 0xD800) * 0x400 + (d - 0xDC00)" "d - 0xDC00 < 0x400"
    using assms unfolding surrogate_defs by auto
  then have "(p - 0x10000) div 0x400 = c - 0xD800" "(p - 0x10000) mod 0x400 = d - 0xDC00"
    by simp_all
  then have "0xD800 + (p - 0x10000) div 0x400 = c" "0xDC00 + (p - 0x10000) mod 0x400 = d"
    using assms(1,2) unfolding surrogate_defs by auto
  then show ?thesis using b val lo hi
    by (simp add: utf8_decode.simps(2) continuation_def Let_def)
qed

lemma utf8_decode_encode [simp]:
  "validUnicode s \<Longrightarrow> units s \<Longrightarrow> utf8_decode (utf8_encode s) = Some s"
proof (induction s rule: valid_induct)
  case (bmp c cs)
  then show ?case
    by (simp add: utf8_encode.simps(2) decode_one decode_two decode_three)
next
  case (pair c d ds)
  then have "\<not> c < 0x800" by (simp add: surrogate_defs)
  with pair show ?case
    by (simp add: utf8_encode.simps(2) Let_def decode_four [OF pair(1,2) refl])
qed simp

lemma utf8_length: "validUnicode s \<Longrightarrow> length s \<le> length (utf8_encode s)"
proof (induction s rule: valid_induct)
  case (pair c d ds)
  then have "\<not> c < 0x800" by (simp add: surrogate_defs)
  with pair show ?case by (simp add: utf8_encode.simps(2) Let_def)
qed (auto simp: utf8_encode.simps(2))

lemma utf8_length_le: "validUnicode s \<Longrightarrow> length (utf8_encode s) \<le> 3 * length s"
proof (induction s rule: valid_induct)
  case (pair c d ds)
  then have "\<not> c < 0x800" by (simp add: surrogate_defs)
  with pair show ?case by (simp add: utf8_encode.simps(2) Let_def)
qed (auto simp: utf8_encode.simps(2))

lemma utf8_bytes: "units s \<Longrightarrow> validUnicode s \<Longrightarrow> b \<in> set (utf8_encode s) \<Longrightarrow> b < 256"
proof (rotate_tac 1, induction s arbitrary: b rule: valid_induct)
  case (bmp c cs)
  then show ?case by (auto simp: utf8_encode.simps(2) split: if_splits)
next
  case (pair c d ds)
  then have "\<not> c < 0x800" and "0x10000 + (c - 0xD800) * 0x400 + (d - 0xDC00) < (0x110000::nat)"
    by (auto simp: surrogate_defs)
  moreover have "m mod 64 < 128" for m :: nat
    by (rule less_trans [of _ 64]) simp_all
  ultimately show ?case using pair by (auto simp: utf8_encode.simps(2) Let_def)
qed simp

text \<open>What the decoder accepts is exactly what the encoder writes.\<close>

lemma continuationE:
  assumes "continuation b"
  obtains b' where "b = 0x80 + b'" "b' < 64"
proof -
  have "b = 0x80 + (b - 0x80)" "b - 0x80 < 64" using assms by (auto simp: continuation_def)
  then show ?thesis by (rule that)
qed

lemma base64_digit: "y < 64 \<Longrightarrow> (x * 64 + y) div 64 = x" "y < 64 \<Longrightarrow> (x * 64 + y) mod 64 = (y::nat)"
  by simp_all

lemma encode_two:
  assumes "2 \<le> a" "a < 32" "b < 64"
  shows "utf8_encode ((a * 64 + b) # s) = (0xC0 + a) # (0x80 + b) # utf8_encode s
    \<and> \<not> high_surrogate (a * 64 + b) \<and> \<not> low_surrogate (a * 64 + b) \<and> a * 64 + b < 0x10000"
  using assms base64_digit [of b a] by (auto simp: utf8_encode.simps(2) surrogate_defs)

lemma encode_three:
  assumes "a < 16" "b < 64" "d < 64" "a = 0 \<longrightarrow> 32 \<le> b" "a = 13 \<longrightarrow> b \<le> 31"
    and c: "c = (a * 64 + b) * 64 + d"
  shows "utf8_encode (c # s) = (0xE0 + a) # (0x80 + b) # (0x80 + d) # utf8_encode s
    \<and> \<not> high_surrogate c \<and> \<not> low_surrogate c \<and> c < 0x10000"
proof -
  have q: "c div 64 = a * 64 + b" "c mod 64 = d" unfolding c using assms by (simp_all only: base64_digit)
  have "c div 4096 = c div 64 div 64" by (simp add: div_mult2_eq [symmetric])
  then have r: "c div 4096 = a" "c div 64 mod 64 = b" unfolding q using assms by (simp_all only: base64_digit)
  have lo: "0x800 \<le> c" using assms(4) unfolding c by (cases "a = 0") auto
  have "a = 13 \<or> a < 13 \<or> 14 \<le> a" by linarith
  then have "\<not> high_surrogate c" "\<not> low_surrogate c" "c < 0x10000"
    using assms(1-3,5) unfolding surrogate_defs c by auto
  then show ?thesis
    using lo q r by (simp add: utf8_encode.simps(2))
qed

lemma encode_four:
  assumes "a < 5" "b < 64" "c < 64" "d < 64" "a = 0 \<longrightarrow> 16 \<le> b" "a = 4 \<longrightarrow> b \<le> 15"
    and p: "p = ((a * 64 + b) * 64 + c) * 64 + d"
    and h: "h = 0xD800 + (p - 0x10000) div 0x400" and l: "l = 0xDC00 + (p - 0x10000) mod 0x400"
  shows "utf8_encode (h # l # s) = (0xF0 + a) # (0x80 + b) # (0x80 + c) # (0x80 + d) # utf8_encode s
    \<and> high_surrogate h \<and> low_surrogate l \<and> h < 0x10000 \<and> l < 0x10000"
proof -
  have p1: "p div 64 = (a * 64 + b) * 64 + c" "p mod 64 = d" unfolding p using assms by (simp_all only: base64_digit)
  have "p div 4096 = p div 64 div 64" by (simp add: div_mult2_eq [symmetric])
  then have p2: "p div 4096 = a * 64 + b" "p div 64 mod 64 = c" unfolding p1 using assms by (simp_all only: base64_digit)
  have "p div 262144 = p div 4096 div 64" by (simp add: div_mult2_eq [symmetric])
  then have p3: "p div 262144 = a" "p div 4096 mod 64 = b" unfolding p2 using assms by (simp_all only: base64_digit)
  have "0x10000 \<le> p" using assms(5) unfolding p by (cases "a = 0") auto
  moreover have "a < 4 \<or> a = 4" using assms(1) by linarith
  then have "p < 0x110000" using assms(2-4,6) unfolding p by auto
  ultimately obtain q where q: "p = 0x10000 + q" "q < 0x100000"
    using le_Suc_ex [of "0x10000" p] by auto
  have "q div 0x400 < 0x400" "q mod 0x400 < 0x400" using q(2) by (auto simp: less_mult_imp_div_less)
  then have hl: "high_surrogate h" "low_surrogate l" "h < 0x10000" "l < 0x10000"
    unfolding h l surrogate_defs q(1) by auto
  have "0x10000 + (h - 0xD800) * 0x400 + (l - 0xDC00) = p" unfolding h l q(1) by simp
  moreover have "\<not> h < 0x800" using hl by (simp add: surrogate_defs)
  ultimately show ?thesis
    using hl p1(2) p2(2) p3 by (simp add: utf8_encode.simps(2) Let_def)
qed

text \<open>The same three steps for the decoder's own arithmetic.\<close>

lemma decoded_two:
  assumes "0xC2 \<le> a" "a \<le> 0xDF" "continuation b"
  shows "utf8_encode (((a - 0xC0) * 64 + (b - 0x80)) # s) = a # b # utf8_encode s
    \<and> validUnicode (((a - 0xC0) * 64 + (b - 0x80)) # s) = validUnicode s
    \<and> (a - 0xC0) * 64 + (b - 0x80) < 0x10000"
proof -
  obtain b' where b: "b = 0x80 + b'" "b' < 64" using assms(3) by (rule continuationE)
  obtain a' where a: "a = 0xC0 + a'" using assms(1) le_Suc_ex [of "0xC0" a] by auto
  have "2 \<le> a'" "a' < 32" using assms(1,2) a by auto
  then show ?thesis
    using encode_two [of a' b' s] a b by (simp_all add: valid_bmp)
qed

lemma decoded_three:
  assumes "0xE0 \<le> a" "a \<le> 0xEF" "continuation b" "continuation d"
    and "a = 0xE0 \<longrightarrow> 0xA0 \<le> b" "a = 0xED \<longrightarrow> b \<le> 0x9F"
    and c: "c = (a - 0xE0) * 4096 + (b - 0x80) * 64 + (d - 0x80)"
  shows "utf8_encode (c # s) = a # b # d # utf8_encode s \<and> validUnicode (c # s) = validUnicode s \<and> c < 0x10000"
proof -
  obtain b' where b: "b = 0x80 + b'" "b' < 64" using assms(3) by (rule continuationE)
  obtain d' where d: "d = 0x80 + d'" "d' < 64" using assms(4) by (rule continuationE)
  obtain a' where a: "a = 0xE0 + a'" using assms(1) le_Suc_ex [of "0xE0" a] by auto
  have "c = (a' * 64 + b') * 64 + d'" using c a b d by simp
  from encode_three [OF _ b(2) d(2) _ _ this, where s = s]
  show ?thesis
    using assms(2,5,6) a b(1) d(1) by (simp_all add: valid_bmp)
qed

lemma decoded_four:
  assumes "0xF0 \<le> a" "a \<le> 0xF4" "continuation b" "continuation c" "continuation d"
    and "a = 0xF0 \<longrightarrow> 0x90 \<le> b" "a = 0xF4 \<longrightarrow> b \<le> 0x8F"
    and q: "q = (a - 0xF0) * 262144 + (b - 0x80) * 4096 + (c - 0x80) * 64 + (d - 0x80) - 0x10000"
    and h: "h = 0xD800 + q div 0x400" and l: "l = 0xDC00 + q mod 0x400"
  shows "utf8_encode (h # l # s) = a # b # c # d # utf8_encode s
    \<and> validUnicode (h # l # s) = validUnicode s \<and> h < 0x10000 \<and> l < 0x10000"
proof -
  obtain b' where b: "b = 0x80 + b'" "b' < 64" using assms(3) by (rule continuationE)
  obtain c' where c: "c = 0x80 + c'" "c' < 64" using assms(4) by (rule continuationE)
  obtain d' where d: "d = 0x80 + d'" "d' < 64" using assms(5) by (rule continuationE)
  obtain a' where a: "a = 0xF0 + a'" using assms(1) le_Suc_ex [of "0xF0" a] by auto
  have q': "q = ((a' * 64 + b') * 64 + c') * 64 + d' - 0x10000"
    unfolding q a b(1) c(1) d(1) by simp
  have e: "a' < 5" "a' = 0 \<longrightarrow> 16 \<le> b'" "a' = 4 \<longrightarrow> b' \<le> 15"
    using assms(2,6,7) unfolding a b(1) by auto
  have "utf8_encode (h # l # s) = a # b # c # d # utf8_encode s \<and> high_surrogate h \<and> low_surrogate l
      \<and> h < 0x10000 \<and> l < 0x10000"
    unfolding a b(1) c(1) d(1)
    by (rule encode_four [OF e(1) b(2) c(2) d(2) e(2,3) refl h [unfolded q'] l [unfolded q']])
  then show ?thesis by (simp add: valid_pair)
qed

lemma utf8_decode_sound:
  "utf8_decode bs = Some s \<Longrightarrow> validUnicode s \<and> units s \<and> utf8_encode s = bs"
proof (induction bs arbitrary: s rule: utf8_decode.induct)
  case (2 a bs)
  consider (one) "a < 0x80" | (two) "0xC2 \<le> a \<and> a \<le> 0xDF" | (three) "0xE0 \<le> a \<and> a \<le> 0xEF"
    | (four) "0xF0 \<le> a \<and> a \<le> 0xF4"
    using "2.prems" by (simp add: utf8_decode.simps(2) split: if_splits)
  then show ?case
  proof cases
    case one
    then show ?thesis using "2.IH"(1) "2.prems"
      by (auto simp: utf8_decode.simps(2) utf8_encode.simps(2) valid_bmp surrogate_defs)
  next
    case two
    then obtain b r t where *: "bs = b # r" "continuation b" "utf8_decode r = Some t"
      "s = ((a - 0xC0) * 64 + (b - 0x80)) # t"
      using "2.prems" by (auto simp: utf8_decode.simps(2) split: list.splits if_splits)
    with two "2.IH"(2) have "validUnicode t \<and> units t \<and> utf8_encode t = r" by auto
    with two * show ?thesis
      using decoded_two [of a b t] by auto
  next
    case three
    then obtain b c r t where *: "bs = b # c # r" "continuation b" "continuation c" "a = 0xE0 \<longrightarrow> 0xA0 \<le> b"
      "a = 0xED \<longrightarrow> b \<le> 0x9F" "utf8_decode r = Some t"
      "s = ((a - 0xE0) * 4096 + (b - 0x80) * 64 + (c - 0x80)) # t"
      using "2.prems" by (auto simp: utf8_decode.simps(2) split: list.splits if_splits)
    with three "2.IH"(3) have "validUnicode t \<and> units t \<and> utf8_encode t = r" by auto
    with three * show ?thesis
      using decoded_three [OF _ _ _ _ _ _ refl, where s = t] by auto
  next
    case four
    define q where "q b c d = (a - 0xF0) * 262144 + (b - 0x80) * 4096 + (c - 0x80) * 64 + (d - 0x80) - 0x10000" for b c d
    from four obtain b c d r t where *: "bs = b # c # d # r" "continuation b" "continuation c" "continuation d"
      "a = 0xF0 \<longrightarrow> 0x90 \<le> b" "a = 0xF4 \<longrightarrow> b \<le> 0x8F" "utf8_decode r = Some t"
      "s = (0xD800 + q b c d div 0x400) # (0xDC00 + q b c d mod 0x400) # t"
      using "2.prems" by (auto simp: utf8_decode.simps(2) Let_def q_def split: list.splits if_splits)
    with four "2.IH"(4) have "validUnicode t \<and> units t \<and> utf8_encode t = r" by auto
    with four * show ?thesis
      using decoded_four [OF _ _ *(2-6) q_def refl refl, where s = t] by auto
  qed
qed simp

text \<open>
  The bytes of a frame: a \<^verbatim>\<open>Uint8Array\<close> is a list of 8-bit words.
\<close>

definition text_encode :: "ustr \<Rightarrow> 8 word list" where
  "text_encode s = map of_nat (utf8_encode s)"

definition text_decode :: "8 word list \<Rightarrow> ustr option" where
  "text_decode bs = utf8_decode (map unat bs)"

lemma text_decode_encode:
  assumes "validUnicode s" "units s"
  shows "text_decode (text_encode s) = Some s"
proof -
  have "map unat (map (of_nat :: nat \<Rightarrow> 8 word) (utf8_encode s)) = utf8_encode s"
    using utf8_bytes [OF assms(2,1)] by (simp add: map_idI unat_of_nat)
  then show ?thesis using assms by (simp add: text_decode_def text_encode_def)
qed

lemma text_decode_sound:
  assumes "text_decode bs = Some s"
  shows "validUnicode s" "units s" "text_encode s = bs"
  using utf8_decode_sound [OF assms [unfolded text_decode_def]]
  by (auto simp: text_encode_def comp_def)

lemma length_text_encode [simp]: "length (text_encode s) = length (utf8_encode s)"
  by (simp add: text_encode_def)

end
