(* ===== verification/Machines.thy ===== *)
theory Machines imports Js_Prelude begin

text \<open>
  Runs of a machine and the interface every state of the development with a history is shown to
  have: a step keeps an invariant and only moves up in an order, so does a run.
\<close>

fun run :: "('s \<Rightarrow> 'a \<Rightarrow> 's \<Rightarrow> bool) \<Rightarrow> 's \<Rightarrow> 'a list \<Rightarrow> 's \<Rightarrow> bool" where
  "run R s [] t = (s = t)"
| "run R s (a # as) t = (\<exists>u. R s a u \<and> run R u as t)"

lemma run_append: "run R s (as @ bs) t \<longleftrightarrow> (\<exists>u. run R s as u \<and> run R u bs t)"
  by (induction as arbitrary: s) auto

lemma run_foldE: "foldE f s as = Inr t \<longleftrightarrow> run (\<lambda>s a t. f s a = Inr t) s as t"
  by (induction as arbitrary: s) (auto simp: res_simps)

lemma run_fold: "run (\<lambda>s a t. t = f a s) s as t \<longleftrightarrow> t = fold f as s"
  by (induction as arbitrary: s) auto

locale monotone_machine =
  fixes step :: "'s \<Rightarrow> 'a \<Rightarrow> 's \<Rightarrow> bool"
    and inv :: "'s \<Rightarrow> bool"
    and le :: "'s \<Rightarrow> 's \<Rightarrow> bool"
  assumes inv_step: "step s a t \<Longrightarrow> inv s \<Longrightarrow> inv t"
    and le_step: "step s a t \<Longrightarrow> inv s \<Longrightarrow> le s t"
    and le_refl: "inv s \<Longrightarrow> le s s"
    and le_trans: "le s t \<Longrightarrow> le t u \<Longrightarrow> inv s \<Longrightarrow> inv t \<Longrightarrow> inv u \<Longrightarrow> le s u"
begin

lemma run_inv: "run step s as t \<Longrightarrow> inv s \<Longrightarrow> inv t"
  by (induction as arbitrary: s) (auto intro: inv_step)

lemma run_le: "run step s as t \<Longrightarrow> inv s \<Longrightarrow> le s t"
proof (induction as arbitrary: s)
  case (Cons a as)
  then obtain u where u: "step s a u" "run step u as t" by auto
  then show ?case
    using Cons inv_step [OF u(1)] le_step [OF u(1)] run_inv [OF u(2)] le_trans [of s u t] by blast
qed (simp add: le_refl)

end

end
