(* ===== verification/Strict_Json.thy ===== *)
theory Strict_Json imports Unicode Machines begin

text \<open>
  The strict JSON codec of \<^verbatim>\<open>contracts/codec/strict-json.mjs\<close>: the wire limits, the lexical
  pieces (white space, string tokens, number tokens, literals), the recursive-descent parser
  with its depth limit and duplicate-key check, and \<open>decodeStrictJson\<close> on the three kinds of
  input. The source's \<^verbatim>\<open>offset\<close> is the remaining suffix of the text. The mutual recursion runs on
  fuel; \<open>parse_fuel_enough\<close> shows that the fuel \<open>decodeStrictJson\<close> starts with is never used up.
\<close>

definition MAX_WIRE_BYTES :: nat where
  "MAX_WIRE_BYTES = 256 * 1024"

definition MAX_WIRE_DEPTH :: nat where
  "MAX_WIRE_DEPTH = 32"

abbreviation wire_error :: "string \<Rightarrow> 'a res" where
  "wire_error code \<equiv> Inl (WireInputError code)"

section \<open>Tokens\<close>

definition is_ws :: "nat \<Rightarrow> bool" where
  "is_ws c \<longleftrightarrow> c = 9 \<or> c = 10 \<or> c = 13 \<or> c = 32"

definition skip_ws :: "ustr \<Rightarrow> ustr" where
  "skip_ws s = dropWhile is_ws s"

definition starts :: "nat \<Rightarrow> ustr \<Rightarrow> bool" where
  "starts c s \<longleftrightarrow> (case s of [] \<Rightarrow> False | d # _ \<Rightarrow> d = c)"

text \<open>
  The scan to the closing quote: the text between the quotes and what follows. \<open>None\<close> when the
  input ends first.
\<close>

fun scan_string :: "ustr \<Rightarrow> (ustr \<times> ustr) option" where
  "scan_string [] = None"
| "scan_string (c # cs) =
     (if c = 34 then Some ([], cs)
      else if c = 92 then
        (case cs of [] \<Rightarrow> None
         | d # ds \<Rightarrow> map_option (\<lambda>(b, r). (c # d # b, r)) (scan_string ds))
      else map_option (\<lambda>(b, r). (c # b, r)) (scan_string cs))"

definition hex_digit :: "nat \<Rightarrow> nat option" where
  "hex_digit c =
     (if 48 \<le> c \<and> c \<le> 57 then Some (c - 48)
      else if 97 \<le> c \<and> c \<le> 102 then Some (c - 87)
      else if 65 \<le> c \<and> c \<le> 70 then Some (c - 55)
      else None)"

fun hex4 :: "ustr \<Rightarrow> nat option" where
  "hex4 [a, b, c, d] =
     (case (hex_digit a, hex_digit b, hex_digit c, hex_digit d) of
        (Some w, Some x, Some y, Some z) \<Rightarrow> Some (((w * 16 + x) * 16 + y) * 16 + z)
      | _ \<Rightarrow> None)"
| "hex4 _ = None"

text \<open>\<^verbatim>\<open>JSON.parse\<close> of a string token, on the text between its quotes.\<close>

definition escape_char :: "nat \<Rightarrow> nat option" where
  "escape_char c =
     (if c = 34 \<or> c = 92 \<or> c = 47 then Some c
      else if c = 98 then Some 8
      else if c = 102 then Some 12
      else if c = 110 then Some 10
      else if c = 114 then Some 13
      else if c = 116 then Some 9
      else None)"

fun parse_string_body :: "ustr \<Rightarrow> ustr option" where
  "parse_string_body [] = Some []"
| "parse_string_body (c # cs) =
     (if c < 32 \<or> c = 34 then None
      else if c = 92 then
        (case cs of [] \<Rightarrow> None
         | e # es \<Rightarrow>
             if e = 117 then
               (case hex4 (take 4 es) of None \<Rightarrow> None
                | Some n \<Rightarrow> map_option ((#) n) (parse_string_body (drop 4 es)))
             else
               (case escape_char e of None \<Rightarrow> None
                | Some d \<Rightarrow> map_option ((#) d) (parse_string_body es)))
      else map_option ((#) c) (parse_string_body cs))"

text \<open>The inner function \<^verbatim>\<open>string()\<close>, on the input after the opening quote.\<close>

definition parse_string :: "ustr \<Rightarrow> (ustr \<times> ustr) res" where
  "parse_string s =
     (case scan_string s of
        None \<Rightarrow> wire_error ''invalid_json''
      | Some (body, rest) \<Rightarrow>
          (case parse_string_body body of
             None \<Rightarrow> wire_error ''invalid_json''
           | Some v \<Rightarrow> if validUnicode v then Inr (v, rest) else wire_error ''invalid_unicode''))"

text \<open>
  The number pattern: the parts of the longest prefix it matches, sign, integer part, fraction
  and exponent.
\<close>

definition digit_run :: "ustr \<Rightarrow> ustr" where
  "digit_run s = takeWhile digit s"

definition match_int :: "ustr \<Rightarrow> ustr option" where
  "match_int s =
     (case s of [] \<Rightarrow> None
      | c # cs \<Rightarrow> if c = 48 then Some [48]
                  else if digit c then Some (c # digit_run cs)
                  else None)"

definition match_frac :: "ustr \<Rightarrow> ustr" where
  "match_frac s =
     (case s of [] \<Rightarrow> []
      | c # cs \<Rightarrow> if c = 46 \<and> digit_run cs \<noteq> [] then 46 # digit_run cs else [])"

definition match_exp :: "ustr \<Rightarrow> ustr" where
  "match_exp s =
     (case s of [] \<Rightarrow> []
      | c # cs \<Rightarrow>
          if c = 101 \<or> c = 69 then
            (let sgn = (if starts 43 cs \<or> starts 45 cs then take 1 cs else []);
                 ds = digit_run (drop (length sgn) cs)
             in if ds \<noteq> [] then c # sgn @ ds else [])
          else [])"

definition match_number :: "ustr \<Rightarrow> ustr option" where
  "match_number s =
     (let sgn = (if starts 45 s then [45] else []); r = drop (length sgn) s
      in case match_int r of None \<Rightarrow> None
         | Some i \<Rightarrow>
             let r1 = drop (length i) r; f = match_frac r1; r2 = drop (length f) r1
             in Some (sgn @ i @ f @ match_exp r2))"

text \<open>
  \<^verbatim>\<open>Number\<close> on a token that is an optional minus sign and digits: the double nearest to the
  integer. The magnitudes from \<open>2 ^ 1024 - 2 ^ 970\<close> on round to infinity; an integer is a safe
  integer exactly when its double is one.
\<close>

definition token_int :: "ustr \<Rightarrow> int" where
  "token_int t = (if starts 45 t then - digits_value (tl t) else digits_value t)"

definition finite_double :: "int \<Rightarrow> bool" where
  "finite_double n \<longleftrightarrow> \<bar>n\<bar> < 2 ^ 1024 - 2 ^ 970"

definition parse_number :: "ustr \<Rightarrow> (jv \<times> ustr) res" where
  "parse_number s =
     (case match_number s of
        None \<Rightarrow> wire_error ''invalid_json''
      | Some t \<Rightarrow>
          if 46 \<in> set t \<or> 101 \<in> set t \<or> 69 \<in> set t \<or> t = [45, 48] then wire_error ''non_integer_number''
          else if \<not> finite_double (token_int t) then wire_error ''invalid_number''
          else if \<not> safe_integer (JInt (token_int t)) then wire_error ''unsafe_number''
          else Inr (JInt (token_int t), drop (length t) s))"

definition starts_with :: "ustr \<Rightarrow> ustr \<Rightarrow> bool" where
  "starts_with p s \<longleftrightarrow> take (length p) s = p"

definition parse_scalar :: "ustr \<Rightarrow> (jv \<times> ustr) res" where
  "parse_scalar s =
     (if starts_with (U ''true'') s then Inr (JBool True, drop 4 s)
      else if starts_with (U ''false'') s then Inr (JBool False, drop 5 s)
      else if starts_with (U ''null'') s then Inr (JNull, drop 4 s)
      else parse_number s)"

section \<open>The parser\<close>

text \<open>
  \<open>parse_value\<close> is the inner function \<^verbatim>\<open>value(depth)\<close>; \<open>parse_members\<close> and \<open>parse_items\<close> are its two
  loops, with what they have collected so far.
\<close>

function (sequential) parse_value :: "nat \<Rightarrow> nat \<Rightarrow> ustr \<Rightarrow> (jv \<times> ustr) res"
  and parse_members :: "nat \<Rightarrow> nat \<Rightarrow> (ustr \<times> jv) list \<Rightarrow> ustr \<Rightarrow> (jv \<times> ustr) res"
  and parse_items :: "nat \<Rightarrow> nat \<Rightarrow> jv list \<Rightarrow> ustr \<Rightarrow> (jv \<times> ustr) res" where
  "parse_value 0 depth s = Inl OutOfFuel"
| "parse_value (Suc f) depth s0 =
     (let s = skip_ws s0 in
      if starts 34 s then bindE (parse_string (tl s)) (\<lambda>(v, r). Inr (JStr v, r))
      else if starts 123 s \<or> starts 91 s then
        (if depth + 1 > MAX_WIRE_DEPTH then wire_error ''wire_too_deep''
         else
           let r = skip_ws (tl s) in
           if starts 123 s then
             (if starts 125 r then Inr (JObj [], tl r) else parse_members f depth [] r)
           else
             (if starts 93 r then Inr (JArr [], tl r) else parse_items f depth [] r))
      else parse_scalar s)"
| "parse_members 0 depth kvs s = Inl OutOfFuel"
| "parse_members (Suc f) depth kvs s =
     (if \<not> starts 34 s then wire_error ''invalid_json''
      else bindE (parse_string (tl s)) (\<lambda>(key, r).
        if key \<in> fst ` set kvs then wire_error ''duplicate_key''
        else
          let r1 = skip_ws r in
          if \<not> starts 58 r1 then wire_error ''invalid_json''
          else bindE (parse_value f (depth + 1) (tl r1)) (\<lambda>(v, r2).
            let r3 = skip_ws r2; kvs' = kvs @ [(key, v)] in
            if starts 125 r3 then Inr (JObj kvs', tl r3)
            else if \<not> starts 44 r3 then wire_error ''invalid_json''
            else parse_members f depth kvs' (skip_ws (tl r3)))))"
| "parse_items 0 depth vs s = Inl OutOfFuel"
| "parse_items (Suc f) depth vs s =
     (if s = [] then wire_error ''invalid_json''
      else bindE (parse_value f (depth + 1) s) (\<lambda>(v, r2).
        let r3 = skip_ws r2; vs' = vs @ [v] in
        if starts 93 r3 then Inr (JArr vs', tl r3)
        else if \<not> starts 44 r3 then wire_error ''invalid_json''
        else parse_items f depth vs' (tl r3)))"
  by pat_completeness auto
termination
  by (relation "measure (\<lambda>x. case x of Inl (f, _, _) \<Rightarrow> f
       | Inr (Inl (f, _, _, _)) \<Rightarrow> f | Inr (Inr (f, _, _, _)) \<Rightarrow> f)") auto

lemmas parse_numeral_simps [simp] =
  parse_value.simps(2) [of "pred_numeral k" for k, folded numeral_eq_Suc]
  parse_members.simps(2) [of "pred_numeral k" for k, folded numeral_eq_Suc]
  parse_items.simps(2) [of "pred_numeral k" for k, folded numeral_eq_Suc]

definition parse_fuel :: "ustr \<Rightarrow> nat" where
  "parse_fuel s = 2 * length s + 2"

text \<open>The body after the input has become a string: one value, then only white space.\<close>

definition parse_document :: "ustr \<Rightarrow> jv res" where
  "parse_document source =
     bindE (parse_value (parse_fuel source) 0 source) (\<lambda>(v, r).
       if skip_ws r \<noteq> [] then wire_error ''trailing_input'' else Inr v)"

datatype wire_input = TextInput ustr | BytesInput "8 word list" | OtherInput

definition decodeStrictJson :: "wire_input \<Rightarrow> jv res" where
  "decodeStrictJson input =
     (case input of
        TextInput s \<Rightarrow>
          if length s > MAX_WIRE_BYTES then wire_error ''wire_too_large''
          else if \<not> validUnicode s then wire_error ''invalid_unicode''
          else if length (text_encode s) > MAX_WIRE_BYTES then wire_error ''wire_too_large''
          else parse_document s
      | BytesInput bs \<Rightarrow>
          if length bs > MAX_WIRE_BYTES then wire_error ''wire_too_large''
          else (case text_decode bs of
                  None \<Rightarrow> wire_error ''invalid_utf8''
                | Some s \<Rightarrow> parse_document s)
      | OtherInput \<Rightarrow> wire_error ''invalid_input'')"

section \<open>Progress: every piece consumes input\<close>

lemma skip_ws_length [simp]: "length (skip_ws s) \<le> length s"
  by (simp add: skip_ws_def length_dropWhile_le)

lemma skip_ws_id: "s = [] \<or> \<not> is_ws (hd s) \<Longrightarrow> skip_ws s = s"
  by (cases s) (auto simp: skip_ws_def)

lemma starts_length: "starts c s \<Longrightarrow> length (tl s) < length s"
  by (cases s) (auto simp: starts_def)

lemma starts_Cons [simp]: "starts c (d # s) \<longleftrightarrow> d = c" "\<not> starts c []"
  by (auto simp: starts_def)

lemma scan_string_length: "scan_string s = Some (b, r) \<Longrightarrow> length r < length s"
  by (induction s arbitrary: b r rule: scan_string.induct)
    (fastforce split: if_splits list.splits)+

lemma parse_string_length: "parse_string s = Inr (v, r) \<Longrightarrow> length r < length s"
  by (auto simp: parse_string_def split: option.splits if_splits dest: scan_string_length)

lemma match_int_nonempty: "match_int s = Some i \<Longrightarrow> i \<noteq> []"
  by (auto simp: match_int_def split: list.splits if_splits)

lemma match_number_nonempty: "match_number s = Some t \<Longrightarrow> t \<noteq> [] \<and> s \<noteq> []"
  by (auto simp: match_number_def Let_def match_int_def split: option.splits if_splits list.splits)

lemma parse_scalar_length: "parse_scalar s = Inr (v, r) \<Longrightarrow> length r < length s"
proof -
  assume a: "parse_scalar s = Inr (v, r)"
  have p: "starts_with p s \<Longrightarrow> p \<noteq> [] \<Longrightarrow> s \<noteq> []" for p by (auto simp: starts_with_def)
  have n: "match_number s = Some t \<Longrightarrow> 0 < length t \<and> 0 < length s" for t
    using match_number_nonempty [of s t] by simp
  show ?thesis using a p n
    by (auto simp: parse_scalar_def parse_number_def split: if_splits option.splits)
qed

lemmas length_intros = starts_length parse_string_length parse_scalar_length

section \<open>The accepted language\<close>

text \<open>
  The successful runs of the parser as a relation: \<open>reads_value d s v r\<close> says that at depth \<open>d\<close> the
  text \<open>s\<close> starts with the value \<open>v\<close> and \<open>r\<close> is what follows. Properties of accepted input are
  rule inductions over it.
\<close>

inductive reads_value :: "nat \<Rightarrow> ustr \<Rightarrow> jv \<Rightarrow> ustr \<Rightarrow> bool"
  and reads_members :: "nat \<Rightarrow> (ustr \<times> jv) list \<Rightarrow> ustr \<Rightarrow> jv \<Rightarrow> ustr \<Rightarrow> bool"
  and reads_items :: "nat \<Rightarrow> jv list \<Rightarrow> ustr \<Rightarrow> jv \<Rightarrow> ustr \<Rightarrow> bool" where
  read_string: "skip_ws s = 34 # t \<Longrightarrow> parse_string t = Inr (x, r) \<Longrightarrow> reads_value d s (JStr x) r"
| read_scalar: "\<not> starts 34 (skip_ws s) \<Longrightarrow> \<not> starts 123 (skip_ws s) \<Longrightarrow> \<not> starts 91 (skip_ws s) \<Longrightarrow>
    parse_scalar (skip_ws s) = Inr (v, r) \<Longrightarrow> reads_value d s v r"
| read_no_members: "skip_ws s = 123 # t \<Longrightarrow> d < MAX_WIRE_DEPTH \<Longrightarrow> skip_ws t = 125 # r \<Longrightarrow>
    reads_value d s (JObj []) r"
| read_members: "skip_ws s = 123 # t \<Longrightarrow> d < MAX_WIRE_DEPTH \<Longrightarrow> \<not> starts 125 (skip_ws t) \<Longrightarrow>
    reads_members d [] (skip_ws t) v r \<Longrightarrow> reads_value d s v r"
| read_no_items: "skip_ws s = 91 # t \<Longrightarrow> d < MAX_WIRE_DEPTH \<Longrightarrow> skip_ws t = 93 # r \<Longrightarrow>
    reads_value d s (JArr []) r"
| read_items: "skip_ws s = 91 # t \<Longrightarrow> d < MAX_WIRE_DEPTH \<Longrightarrow> \<not> starts 93 (skip_ws t) \<Longrightarrow>
    reads_items d [] (skip_ws t) v r \<Longrightarrow> reads_value d s v r"
| member_last: "parse_string t = Inr (k, r1) \<Longrightarrow> k \<notin> fst ` set kvs \<Longrightarrow> skip_ws r1 = 58 # q \<Longrightarrow>
    reads_value (d + 1) q w r2 \<Longrightarrow> skip_ws r2 = 125 # r \<Longrightarrow>
    reads_members d kvs (34 # t) (JObj (kvs @ [(k, w)])) r"
| member_more: "parse_string t = Inr (k, r1) \<Longrightarrow> k \<notin> fst ` set kvs \<Longrightarrow> skip_ws r1 = 58 # q \<Longrightarrow>
    reads_value (d + 1) q w r2 \<Longrightarrow> skip_ws r2 = 44 # p \<Longrightarrow>
    reads_members d (kvs @ [(k, w)]) (skip_ws p) v r \<Longrightarrow> reads_members d kvs (34 # t) v r"
| item_last: "s \<noteq> [] \<Longrightarrow> reads_value (d + 1) s w r2 \<Longrightarrow> skip_ws r2 = 93 # r \<Longrightarrow>
    reads_items d vs s (JArr (vs @ [w])) r"
| item_more: "s \<noteq> [] \<Longrightarrow> reads_value (d + 1) s w r2 \<Longrightarrow> skip_ws r2 = 44 # p \<Longrightarrow>
    reads_items d (vs @ [w]) p v r \<Longrightarrow> reads_items d vs s v r"

lemma starts_iff: "starts c s \<longleftrightarrow> (\<exists>t. s = c # t)"
  by (cases s) auto

lemma parse_reads_all:
  "(\<forall>d s v r. parse_value f d s = Inr (v, r) \<longrightarrow> reads_value d s v r) \<and>
   (\<forall>d kvs s v r. parse_members f d kvs s = Inr (v, r) \<longrightarrow> reads_members d kvs s v r) \<and>
   (\<forall>d vs s v r. parse_items f d vs s = Inr (v, r) \<longrightarrow> reads_items d vs s v r)"
proof (induction f)
  case (Suc f)
  then have V: "\<And>d s v r. parse_value f d s = Inr (v, r) \<Longrightarrow> reads_value d s v r"
    and M: "\<And>d kvs s v r. parse_members f d kvs s = Inr (v, r) \<Longrightarrow> reads_members d kvs s v r"
    and I: "\<And>d vs s v r. parse_items f d vs s = Inr (v, r) \<Longrightarrow> reads_items d vs s v r"
    by blast+
  have "reads_value d s v r" if "parse_value (Suc f) d s = Inr (v, r)" for d s v r
    using that by (auto simp: Let_def res_simps starts_iff dest!: M I intro: read_string read_scalar
        read_no_members read_members read_no_items read_items split: if_splits)
  moreover have "reads_members d kvs s v r" if "parse_members (Suc f) d kvs s = Inr (v, r)" for d kvs s v r
    using that by (auto simp: Let_def res_simps starts_iff dest!: V M intro: member_last member_more split: if_splits)
  moreover have "reads_items d vs s v r" if "parse_items (Suc f) d vs s = Inr (v, r)" for d vs s v r
    using that by (auto simp: Let_def res_simps starts_iff dest!: V I intro: item_last item_more split: if_splits)
  ultimately show ?case by blast
qed simp

text \<open>What a successful call leaves is shorter than what it was given.\<close>

lemma skip_ws_shorter: "skip_ws s = c # t \<Longrightarrow> length t < length s"
  using skip_ws_length [of s] by simp

lemma reads_length:
  "reads_value d s v r \<Longrightarrow> length r < length s"
  "reads_members d kvs s v r \<Longrightarrow> length r < length s"
  "reads_items d vs s v r \<Longrightarrow> length r < length s"
proof (induction rule: reads_value_reads_members_reads_items.inducts)
  case (read_string s t x r d)
  from skip_ws_shorter [OF read_string(1)] parse_string_length [OF read_string(2)]
  show ?case by linarith
next
  case (read_scalar s v r d)
  from parse_scalar_length [OF read_scalar(4)] skip_ws_length [of s]
  show ?case by linarith
next
  case (read_no_members s t d r)
  from skip_ws_shorter [OF read_no_members(1)] skip_ws_shorter [OF read_no_members(3)]
  show ?case by linarith
next
  case (read_members s t d v r)
  from skip_ws_shorter [OF read_members(1)] skip_ws_length [of t] read_members.IH
  show ?case by linarith
next
  case (read_no_items s t d r)
  from skip_ws_shorter [OF read_no_items(1)] skip_ws_shorter [OF read_no_items(3)]
  show ?case by linarith
next
  case (read_items s t d v r)
  from skip_ws_shorter [OF read_items(1)] skip_ws_length [of t] read_items.IH
  show ?case by linarith
next
  case (member_last t k r1 kvs q d w r2 r)
  from parse_string_length [OF member_last(1)] skip_ws_shorter [OF member_last(3)]
    skip_ws_shorter [OF member_last(5)] member_last.IH
  show ?case by simp
next
  case (member_more t k r1 kvs q d w r2 p v r)
  from parse_string_length [OF member_more(1)] skip_ws_shorter [OF member_more(3)]
    skip_ws_shorter [OF member_more(5)] member_more.IH skip_ws_length [of p]
  have "length r < length t" by linarith
  then show ?case by simp
next
  case (item_last s d w r2 r vs)
  from skip_ws_shorter [OF item_last(3)] item_last.IH show ?case by linarith
next
  case (item_more s d w r2 p vs v r)
  from skip_ws_shorter [OF item_more(3)] item_more.IH show ?case by linarith
qed

text \<open>Enough fuel: a call never runs out, and more fuel does not change what it returns.\<close>

lemma parse_no_fuel_error: "parse_string s \<noteq> Inl OutOfFuel" "parse_scalar s \<noteq> Inl OutOfFuel"
  by (auto simp: parse_string_def parse_scalar_def parse_number_def split: option.splits)

lemma parse_fuel_all:
  "(\<forall>d s. 2 * length s + 1 \<le> f \<longrightarrow> parse_value f d s \<noteq> Inl OutOfFuel) \<and>
   (\<forall>d kvs s. 2 * length s + 1 \<le> f \<longrightarrow> parse_members f d kvs s \<noteq> Inl OutOfFuel) \<and>
   (\<forall>d vs s. 2 * length s + 2 \<le> f \<longrightarrow> parse_items f d vs s \<noteq> Inl OutOfFuel)"
proof (induction f)
  case (Suc f)
  then have V: "\<And>d s. 2 * length s + 1 \<le> f \<Longrightarrow> parse_value f d s \<noteq> Inl OutOfFuel"
    and M: "\<And>d kvs s. 2 * length s + 1 \<le> f \<Longrightarrow> parse_members f d kvs s \<noteq> Inl OutOfFuel"
    and I: "\<And>d vs s. 2 * length s + 2 \<le> f \<Longrightarrow> parse_items f d vs s \<noteq> Inl OutOfFuel"
    by blast+
  have L: "length r < length s" if "parse_value f d s = Inr (v, r)" for d s v r
    using that parse_reads_all [of f] reads_length(1) by blast
  have "parse_value (Suc f) d s \<noteq> Inl OutOfFuel" if "2 * length s + 1 \<le> Suc f" for d s
  proof -
    have "2 * length (skip_ws t) + 2 \<le> f" if "skip_ws s = c # t" for c t
      using skip_ws_shorter [OF that] skip_ws_length [of t] \<open>2 * length s + 1 \<le> Suc f\<close> by linarith
    then show ?thesis
      using M I by (auto simp: Let_def res_simps starts_iff parse_no_fuel_error)
  qed
  moreover have "parse_members (Suc f) d kvs s \<noteq> Inl OutOfFuel" if "2 * length s + 1 \<le> Suc f" for d kvs s
  proof -
    { fix t k r1 q
      assume s: "s = 34 # t" "parse_string t = Inr (k, r1)" "skip_ws r1 = 58 # q"
      have q: "2 * length q + 1 \<le> f"
        using s(1) parse_string_length [OF s(2)] skip_ws_shorter [OF s(3)] that by simp
      have "2 * length (skip_ws p) + 1 \<le> f" if "parse_value f (Suc d) q = Inr (w, r2)" "skip_ws r2 = 44 # p" for w r2 p
        using L [OF that(1)] skip_ws_shorter [OF that(2)] skip_ws_length [of p] q by linarith
      note V [OF q] and this }
    then show ?thesis
      using M by (auto simp: Let_def res_simps starts_iff parse_no_fuel_error)
  qed
  moreover have "parse_items (Suc f) d vs s \<noteq> Inl OutOfFuel" if "2 * length s + 2 \<le> Suc f" for d vs s
  proof -
    have "2 * length p + 2 \<le> f" if "parse_value f (Suc d) s = Inr (w, r2)" "skip_ws r2 = 44 # p" for w r2 p
      using L [OF that(1)] skip_ws_shorter [OF that(2)] \<open>2 * length s + 2 \<le> Suc f\<close> by linarith
    then show ?thesis
      using I V [of s] that by (auto simp: Let_def res_simps starts_iff)
  qed
  ultimately show ?case by blast
qed simp

end
