(* ===== verification/Canonical.thy ===== *)
theory Canonical imports Strict_Json "HOL-Library.Multiset" begin

text \<open>
  How values are written back to text: \<^verbatim>\<open>JSON.stringify\<close> of a string, a boolean, \<^verbatim>\<open>null\<close> or an
  integer, the order in which \<^verbatim>\<open>Object.keys\<close> lists an object, the \<open>canonical\<close> text of
  \<^verbatim>\<open>contracts/codec/transcript.mjs\<close> and \<open>encodeData\<close> of \<^verbatim>\<open>ui/src/client/wire.ts\<close>. The lemmas show that
  the text determines the value (\<open>json_text\<close> is a prefix code) and that the strict parser reads it
  back.
\<close>

section \<open>JSON.stringify\<close>

definition hex_char :: "nat \<Rightarrow> nat" where
  "hex_char n = (if n < 10 then 48 + n else 87 + n)"

definition escape_unit :: "nat \<Rightarrow> ustr" where
  "escape_unit c = [92, 117, hex_char (c div 4096), hex_char (c div 256 mod 16),
     hex_char (c div 16 mod 16), hex_char (c mod 16)]"

definition quote_unit :: "nat \<Rightarrow> ustr" where
  "quote_unit c =
     (if c = 34 \<or> c = 92 then [92, c]
      else if c = 8 then [92, 98]
      else if c = 12 then [92, 102]
      else if c = 10 then [92, 110]
      else if c = 13 then [92, 114]
      else if c = 9 then [92, 116]
      else if c < 32 then escape_unit c
      else [c])"

fun quote_units :: "ustr \<Rightarrow> ustr" where
  "quote_units [] = []"
| "quote_units (c # cs) =
     (if high_surrogate c then
        (case cs of
           [] \<Rightarrow> escape_unit c
         | d # ds \<Rightarrow> if low_surrogate d then c # d # quote_units ds
                     else escape_unit c @ quote_units cs)
      else if low_surrogate c then escape_unit c @ quote_units cs
      else quote_unit c @ quote_units cs)"

definition quote :: "ustr \<Rightarrow> ustr" where
  "quote s = 34 # quote_units s @ [34]"

definition int_text :: "int \<Rightarrow> ustr" where
  "int_text i = (if i < 0 then 45 # nat_string (nat (- i)) else nat_string (nat i))"

fun join :: "ustr list \<Rightarrow> ustr" where
  "join [] = []"
| "join [t] = t"
| "join (t # u # ts) = t @ 44 # join (u # ts)"

section \<open>Object.keys\<close>

text \<open>
  \<^verbatim>\<open>Object.keys\<close> lists the integer keys in ascending order and then the others in the order in
  which they were added.
\<close>

definition index_key :: "ustr \<Rightarrow> bool" where
  "index_key k \<longleftrightarrow> counter_syntax k \<and> digits_value k < 4294967295"

definition own_entries :: "(ustr \<times> jv) list \<Rightarrow> (ustr \<times> jv) list" where
  "own_entries kvs =
     sort_key (digits_value \<circ> fst) (filter (index_key \<circ> fst) kvs) @ filter (Not \<circ> index_key \<circ> fst) kvs"

text \<open>The same after \<^verbatim>\<open>sort\<close>, which compares code units.\<close>

definition listed_entries :: "bool \<Rightarrow> (ustr \<times> jv) list \<Rightarrow> (ustr \<times> jv) list" where
  "listed_entries sortKeys kvs = (if sortKeys then sort_key fst (own_entries kvs) else own_entries kvs)"

lemma mset_listed_entries [simp]: "mset (listed_entries b kvs) = mset kvs"
  by (auto simp: listed_entries_def own_entries_def comp_def)

lemma set_listed_entries [simp, termination_simp]: "set (listed_entries b kvs) = set kvs"
  by (metis mset_listed_entries set_mset_mset)

lemma distinct_listed_entries [simp]:
  "distinct (map fst (listed_entries b kvs)) = distinct (map fst kvs)"
  by (metis mset_listed_entries mset_map mset_eq_imp_distinct_iff)

section \<open>The two encoders\<close>

text \<open>
  \<open>canonical i depth v\<close> is \<^verbatim>\<open>canonical(v, depth)\<close> while step \<open>i\<close> is checked. Whatever it refuses, it
  refuses with the same code.
\<close>

fun canonical :: "int \<Rightarrow> nat \<Rightarrow> jv \<Rightarrow> ustr res" where
  "canonical i depth v =
     (if depth > 40 then Inl (TranscriptError ''transcript_not_normalized'' i)
      else case v of
        JNull \<Rightarrow> Inr (U ''null'')
      | JBool b \<Rightarrow> Inr (if b then U ''true'' else U ''false'')
      | JStr s \<Rightarrow> Inr (quote s)
      | JInt n \<Rightarrow> if safe_integer v then Inr (int_text n)
                  else Inl (TranscriptError ''transcript_not_normalized'' i)
      | JArr vs \<Rightarrow> bindE (mapE (canonical i (depth + 1)) vs) (\<lambda>ts. Inr (91 # join ts @ [93]))
      | JObj kvs \<Rightarrow>
          bindE (mapE (\<lambda>(k, w). bindE (canonical i (depth + 1) w) (\<lambda>t. Inr (quote k @ 58 # t)))
                   (listed_entries True kvs))
            (\<lambda>ts. Inr (123 # join ts @ [125]))
      | _ \<Rightarrow> Inl (TranscriptError ''transcript_not_normalized'' i))"

declare canonical.simps [simp del]

lemma canonical_simps [simp]:
  "canonical i d JUndef = Inl (TranscriptError ''transcript_not_normalized'' i)"
  "canonical i d JNull = (if d > 40 then Inl (TranscriptError ''transcript_not_normalized'' i) else Inr (U ''null''))"
  "canonical i d (JBool b) = (if d > 40 then Inl (TranscriptError ''transcript_not_normalized'' i)
     else Inr (if b then U ''true'' else U ''false''))"
  "canonical i d (JInt n) = (if d > 40 \<or> \<not> safe_integer (JInt n)
     then Inl (TranscriptError ''transcript_not_normalized'' i) else Inr (int_text n))"
  "canonical i d JNegZero = Inl (TranscriptError ''transcript_not_normalized'' i)"
  "canonical i d JNaN = Inl (TranscriptError ''transcript_not_normalized'' i)"
  "canonical i d (JReal k) = Inl (TranscriptError ''transcript_not_normalized'' i)"
  "canonical i d (JStr s) = (if d > 40 then Inl (TranscriptError ''transcript_not_normalized'' i) else Inr (quote s))"
  "canonical i d (JArr vs) = (if d > 40 then Inl (TranscriptError ''transcript_not_normalized'' i)
     else bindE (mapE (canonical i (d + 1)) vs) (\<lambda>ts. Inr (91 # join ts @ [93])))"
  "canonical i d (JObj kvs) = (if d > 40 then Inl (TranscriptError ''transcript_not_normalized'' i)
     else bindE (mapE (\<lambda>(k, w). bindE (canonical i (d + 1) w) (\<lambda>t. Inr (quote k @ 58 # t)))
            (listed_entries True kvs)) (\<lambda>ts. Inr (123 # join ts @ [125])))"
  by (subst canonical.simps, simp)+

text \<open>
  \<open>encodeData\<close> is applied to detached copies only, which hold neither \<^verbatim>\<open>undefined\<close> nor a number
  that is not an integer (\<open>captureData\<close>); on those it is left empty here.
\<close>

fun encodeData :: "bool \<Rightarrow> jv \<Rightarrow> ustr" where
  "encodeData sortKeys (JArr vs) = 91 # join (map (encodeData sortKeys) vs) @ [93]"
| "encodeData sortKeys (JObj kvs) =
     123 # join (map (\<lambda>(k, w). quote k @ 58 # encodeData sortKeys w) (listed_entries sortKeys kvs)) @ [125]"
| "encodeData sortKeys JNull = U ''null''"
| "encodeData sortKeys (JBool b) = (if b then U ''true'' else U ''false'')"
| "encodeData sortKeys (JStr s) = quote s"
| "encodeData sortKeys (JInt n) = int_text n"
| "encodeData sortKeys JNegZero = [48]"
| "encodeData sortKeys JNaN = U ''null''"
| "encodeData sortKeys _ = []"

section \<open>A quoted string reads back\<close>

lemma hex_digit_char [simp]: "n < 16 \<Longrightarrow> hex_digit (hex_char n) = Some n"
  by (auto simp: hex_digit_def hex_char_def)

lemma hex_char_plain: "n < 16 \<Longrightarrow> hex_char n \<noteq> 34 \<and> hex_char n \<noteq> 92"
  by (auto simp: hex_char_def)

lemma base16: "((c div 4096 * 16 + c div 256 mod 16) * 16 + c div 16 mod 16) * 16 + c mod 16 = (c::nat)"
proof -
  have "c div 256 = c div 16 div 16" "c div 4096 = c div 16 div 16 div 16"
    by (simp_all add: div_mult2_eq [symmetric])
  then show ?thesis
    using div_mult_mod_eq [of "c div 16 div 16" 16] div_mult_mod_eq [of "c div 16" 16]
      div_mult_mod_eq [of c 16] by simp
qed

lemma hex4_escape: "c < 0x10000 \<Longrightarrow>
  hex4 [hex_char (c div 4096), hex_char (c div 256 mod 16), hex_char (c div 16 mod 16), hex_char (c mod 16)] = Some c"
  using base16 [of c] by (simp add: div_less_iff_less_mult)

lemma body_escape: "c < 0x10000 \<Longrightarrow>
  parse_string_body (escape_unit c @ r) = map_option ((#) c) (parse_string_body r)"
proof -
  assume c: "c < 0x10000"
  have "parse_string_body (92 # 117 # a # b # d # e # r)
      = (case hex4 [a, b, d, e] of None \<Rightarrow> None | Some n \<Rightarrow> map_option ((#) n) (parse_string_body r))" for a b d e
  proof -
    have "drop 4 (a # b # d # e # r) = r" by (simp add: numeral_eq_Suc)
    then show ?thesis by (simp del: hex4.simps split: option.split)
  qed
  then show ?thesis
    by (simp only: escape_unit_def append.simps hex4_escape [OF c] option.case)
qed

lemma scan_escape: "c < 0x10000 \<Longrightarrow>
  scan_string (escape_unit c @ r) = map_option (\<lambda>(b, q). (escape_unit c @ b, q)) (scan_string r)"
  using hex_char_plain [of "c div 4096"] hex_char_plain [of "c div 256 mod 16"]
    hex_char_plain [of "c div 16 mod 16"] hex_char_plain [of "c mod 16"]
  by (cases "scan_string r") (auto simp: escape_unit_def div_less_iff_less_mult)

lemma body_unit: "c < 0x10000 \<Longrightarrow>
  parse_string_body (quote_unit c @ r) = map_option ((#) c) (parse_string_body r)"
  by (auto simp: quote_unit_def body_escape escape_char_def)

lemma scan_unit: "c < 0x10000 \<Longrightarrow>
  scan_string (quote_unit c @ r) = map_option (\<lambda>(b, q). (quote_unit c @ b, q)) (scan_string r)"
  by (cases "scan_string r") (auto simp: quote_unit_def scan_escape)

lemma surrogate_plain: "high_surrogate c \<or> low_surrogate c \<Longrightarrow> 32 \<le> c \<and> c \<noteq> 34 \<and> c \<noteq> 92"
  by (auto simp: surrogate_defs)

lemma body_quote: "units s \<Longrightarrow> parse_string_body (quote_units s) = Some s"
proof (induction s rule: quote_units.induct)
  case (2 c cs)
  then have "c < 0x10000" "units cs" by simp_all
  with 2 show ?case
    using surrogate_plain [of c] surrogate_plain [of "hd cs"]
      body_escape [of c "[]"] body_unit [of c "[]"]
    by (cases cs) (auto simp: body_escape body_unit)
qed simp

lemma scan_quote: "units s \<Longrightarrow> scan_string (quote_units s @ 34 # r) = Some (quote_units s, r)"
proof (induction s rule: quote_units.induct)
  case (2 c cs)
  then have "c < 0x10000" "units cs" by simp_all
  with 2 show ?case
    using surrogate_plain [of c] surrogate_plain [of "hd cs"]
    by (cases cs) (auto simp: scan_escape scan_unit)
qed simp

lemma parse_quote: "units s \<Longrightarrow> validUnicode s \<Longrightarrow> parse_string (quote_units s @ 34 # r) = Inr (s, r)"
  by (simp add: parse_string_def scan_quote body_quote)

text \<open>A quoted string is a prefix code.\<close>

lemma quote_prefix_code:
  assumes "units a" "units b" "quote a @ x = quote b @ y"
  shows "a = b \<and> x = y"
proof -
  have "quote_units a @ 34 # x = quote_units b @ 34 # y" using assms(3) by (simp add: quote_def)
  then have "Some (quote_units a, x) = Some (quote_units b, y)"
    by (metis scan_quote assms(1,2))
  then show ?thesis by (metis body_quote assms(1,2) option.inject prod.inject)
qed

section \<open>Text of a value in listed order\<close>

text \<open>
  Both encoders first choose an order for the members and then write the value down: \<open>listed\<close> is
  the choice and \<open>json_text\<close> the writing.
\<close>

fun json_text :: "jv \<Rightarrow> ustr" where
  "json_text (JArr vs) = 91 # join (map json_text vs) @ [93]"
| "json_text (JObj kvs) = 123 # join (map (\<lambda>x. quote (fst x) @ 58 # json_text (snd x)) kvs) @ [125]"
| "json_text JNull = U ''null''"
| "json_text (JBool b) = (if b then U ''true'' else U ''false'')"
| "json_text (JStr s) = quote s"
| "json_text (JInt n) = int_text n"
| "json_text JNegZero = [48]"
| "json_text JNaN = U ''null''"
| "json_text _ = []"

fun listed :: "bool \<Rightarrow> jv \<Rightarrow> jv" where
  "listed b (JArr vs) = JArr (map (listed b) vs)"
| "listed b (JObj kvs) = JObj (map (\<lambda>(k, w). (k, listed b w)) (listed_entries b kvs))"
| "listed b v = v"

text \<open>The values an accepted message is made of.\<close>

fun plain :: "jv \<Rightarrow> bool" where
  "plain (JArr vs) = (\<forall>v \<in> set vs. plain v)"
| "plain (JObj kvs) = (\<forall>x \<in> set kvs. units (fst x) \<and> plain (snd x))"
| "plain (JStr s) = units s"
| "plain JNull = True"
| "plain (JBool _) = True"
| "plain (JInt _) = True"
| "plain _ = False"

lemma encodeData_listed: "encodeData b v = json_text (listed b v)"
proof (induction b v rule: encodeData.induct)
  case (1 b vs)
  then have "map (encodeData b) vs = map json_text (map (listed b) vs)" by simp
  then show ?case by (simp only: encodeData.simps json_text.simps listed.simps)
next
  case (2 b kvs)
  then have "map (\<lambda>(k, w). quote k @ 58 # encodeData b w) (listed_entries b kvs)
      = map (\<lambda>x. quote (fst x) @ 58 # json_text (snd x)) (map (\<lambda>(k, w). (k, listed b w)) (listed_entries b kvs))"
    by (auto simp del: mset_listed_entries)
  then show ?case by (simp only: encodeData.simps json_text.simps listed.simps)
qed simp_all

lemma plain_listed [simp]: "plain (listed b v) = plain v"
  by (induction v rule: plain.induct) (auto simp: image_iff)

text \<open>What \<open>canonical\<close> returns is \<open>encodeData\<close> with sorted keys, for values it accepts.\<close>

lemma canonical_JArr_Inr: "canonical i d (JArr vs) = Inr t \<longleftrightarrow>
    \<not> d > 40 \<and> (\<exists>ts. list_all2 (\<lambda>v u. canonical i (d + 1) v = Inr u) vs ts \<and> t = 91 # join ts @ [93])"
  by (auto simp: res_simps mapE_Inr)

lemma canonical_JObj_Inr: "canonical i d (JObj kvs) = Inr t \<longleftrightarrow>
    \<not> d > 40 \<and> (\<exists>ts. list_all2 (\<lambda>x u. \<exists>t. canonical i (d + 1) (snd x) = Inr t \<and> quote (fst x) @ 58 # t = u)
       (listed_entries True kvs) ts \<and> t = 123 # join ts @ [125])"
  by (auto simp: res_simps mapE_Inr case_prod_beta)

lemma list_all2_function: "list_all2 (\<lambda>x y. x \<in> set xs \<longrightarrow> y = f x) xs ys \<Longrightarrow> ys = map f xs"
  by (auto simp: list_all2_conv_all_nth intro!: nth_equalityI)

lemma canonical_encodeData: "canonical i d v = Inr t \<Longrightarrow> t = encodeData True v"
proof (induction v arbitrary: d t)
  case (JArr vs)
  then obtain ts where ts: "list_all2 (\<lambda>v u. canonical i (d + 1) v = Inr u) vs ts" "t = 91 # join ts @ [93]"
    unfolding canonical_JArr_Inr by blast
  have "ts = map (encodeData True) vs"
    by (rule list_all2_function, rule list_all2_mono [OF ts(1)]) (use JArr.IH in blast)
  then show ?case using ts(2) by simp
next
  case (JObj kvs)
  let ?es = "listed_entries True kvs"
  from JObj.prems obtain ts where
    ts: "list_all2 (\<lambda>x u. \<exists>t. canonical i (d + 1) (snd x) = Inr t \<and> quote (fst x) @ 58 # t = u) ?es ts"
      "t = 123 # join ts @ [125]"
    unfolding canonical_JObj_Inr by blast
  have "ts = map (\<lambda>x. quote (fst x) @ 58 # encodeData True (snd x)) ?es"
  proof (rule list_all2_function, rule list_all2_mono [OF ts(1)], intro impI)
    fix x u
    assume u: "\<exists>t. canonical i (d + 1) (snd x) = Inr t \<and> quote (fst x) @ 58 # t = u" and "x \<in> set ?es"
    then have "x \<in> set kvs" "snd x \<in> Basic_BNFs.snds x" by (simp_all add: snds.simps)
    then show "u = quote (fst x) @ 58 # encodeData True (snd x)" using u JObj.IH by blast
  qed
  then show ?case using ts(2) by (simp add: case_prod_beta')
qed (auto split: if_splits)

text \<open>The values \<open>canonical\<close> accepts at a depth.\<close>

fun canonical_ok :: "nat \<Rightarrow> jv \<Rightarrow> bool" where
  "canonical_ok d (JArr vs) \<longleftrightarrow> d \<le> 40 \<and> (\<forall>v \<in> set vs. canonical_ok (d + 1) v)"
| "canonical_ok d (JObj kvs) \<longleftrightarrow> d \<le> 40 \<and> (\<forall>x \<in> set kvs. canonical_ok (d + 1) (snd x))"
| "canonical_ok d (JInt n) \<longleftrightarrow> d \<le> 40 \<and> safe_integer (JInt n)"
| "canonical_ok d (JStr s) \<longleftrightarrow> d \<le> 40"
| "canonical_ok d (JBool b) \<longleftrightarrow> d \<le> 40"
| "canonical_ok d JNull \<longleftrightarrow> d \<le> 40"
| "canonical_ok d _ = False"

lemma canonical_complete: "canonical_ok d v \<Longrightarrow> canonical i d v = Inr (encodeData True v)"
proof (induction v arbitrary: d)
  case (JArr vs)
  then have "\<not> d > 40" "\<And>v. v \<in> set vs \<Longrightarrow> canonical i (d + 1) v = Inr (encodeData True v)" by auto
  with mapE_total [of vs "canonical i (d + 1)" "encodeData True"] show ?case by simp
next
  case (JObj kvs)
  let ?f = "\<lambda>(k, w). quote k @ 58 # encodeData True w"
  have "canonical i (d + 1) (snd x) = Inr (encodeData True (snd x))" if "x \<in> set kvs" for x
    using JObj that by (simp add: snds.simps)
  then have "mapE (\<lambda>(k, w). bindE (canonical i (d + 1) w) (\<lambda>t. Inr (quote k @ 58 # t))) (listed_entries True kvs)
      = Inr (map ?f (listed_entries True kvs))"
    by (intro mapE_total) auto
  with JObj.prems show ?case by simp
qed simp_all

section \<open>The text determines the value\<close>

definition stop :: "ustr \<Rightarrow> bool" where
  "stop r \<longleftrightarrow> r = [] \<or> hd r \<in> {44, 93, 125}"

lemma stop_simps [simp]: "stop []" "stop (44 # r)" "stop (93 # r)" "stop (125 # r)"
  by (simp_all add: stop_def)

lemma stop_not_digit: "stop r \<Longrightarrow> r = [] \<or> \<not> digit (hd r)"
  by (auto simp: stop_def digit_def)

lemma digit_run_append: "list_all digit ds \<Longrightarrow> stop r \<Longrightarrow> digit_run (ds @ r) = ds"
  using stop_not_digit [of r]
  by (cases r) (auto simp: digit_run_def takeWhile_append list_all_iff)

lemma nat_string_prefix_code:
  "nat_string a @ x = nat_string b @ y \<Longrightarrow> stop x \<Longrightarrow> stop y \<Longrightarrow> a = b \<and> x = y"
  by (metis digit_run_append nat_string_digits nat_string_inject same_append_eq)

lemma nat_string_first: "digit (hd (nat_string n))"
  using nat_string_digits [of n] by (cases "nat_string n") auto

lemma int_text_prefix_code:
  assumes "int_text a @ x = int_text b @ y" "stop x" "stop y"
  shows "a = b \<and> x = y"
proof -
  have minus: "nat_string n @ p \<noteq> 45 # q" for n p q
    using nat_string_first [of n] by (cases "nat_string n") (auto simp: digit_def)
  show ?thesis
  proof (cases "a < 0")
    case True
    then have b: "b < 0" using assms(1) minus [of "nat b" y] by (auto simp: int_text_def split: if_splits dest: sym)
    then have "nat_string (nat (- a)) @ x = nat_string (nat (- b)) @ y" using assms(1) True by (simp add: int_text_def)
    from nat_string_prefix_code [OF this assms(2,3)] show ?thesis using True b by (simp add: eq_nat_nat_iff)
  next
    case False
    then have b: "\<not> b < 0" using assms(1) minus [of "nat a" x] by (auto simp: int_text_def split: if_splits)
    then have "nat_string (nat a) @ x = nat_string (nat b) @ y" using assms(1) False by (simp add: int_text_def)
    from nat_string_prefix_code [OF this assms(2,3)] show ?thesis using False b by (simp add: eq_nat_nat_iff)
  qed
qed

text \<open>The first character of a text tells which constructor it is.\<close>

definition lead :: "nat \<Rightarrow> nat" where
  "lead c = (if c = 45 \<or> digit c then 45 else c)"

fun lead_kind :: "jv \<Rightarrow> nat" where
  "lead_kind (JArr _) = 91"
| "lead_kind (JObj _) = 123"
| "lead_kind (JStr _) = 34"
| "lead_kind (JBool b) = (if b then 116 else 102)"
| "lead_kind (JInt _) = 45"
| "lead_kind _ = 110"

lemma json_text_lead: "plain v \<Longrightarrow> json_text v \<noteq> [] \<and> lead (hd (json_text v)) = lead_kind v"
proof (cases v)
  case (JInt i)
  then show ?thesis using nat_string_first by (simp add: int_text_def lead_def)
qed (auto simp: lead_def digit_def U_def quote_def)

lemma join_Cons: "join (t # ts) = t @ (if ts = [] then [] else 44 # join ts)"
  by (cases ts) auto

text \<open>A separated list of prefix-coded pieces, closed by a character no piece starts with.\<close>

lemma join_prefix_code:
  assumes code: "\<And>v w x y. v \<in> set vs \<Longrightarrow> w \<in> set ws \<Longrightarrow> f v @ x = f w @ y \<Longrightarrow> stop x \<Longrightarrow> stop y \<Longrightarrow> v = w \<and> x = y"
    and first: "\<And>v. v \<in> set vs \<union> set ws \<Longrightarrow> f v \<noteq> [] \<and> hd (f v) \<noteq> e"
    and e: "e = 93 \<or> e = 125"
    and eq: "join (map f vs) @ e # x = join (map f ws) @ e # y"
  shows "vs = ws \<and> x = y"
  using code first eq
proof (induction vs arbitrary: ws)
  case Nil
  then show ?case
  proof (cases ws)
    case (Cons w ws')
    then have "f w \<noteq> []" "hd (f w) \<noteq> e" using Nil.prems(2) by auto
    then show ?thesis using Nil.prems(3) Cons by (cases "f w") (auto simp: join_Cons)
  qed simp
next
  case (Cons v vs)
  have v: "f v \<noteq> []" "hd (f v) \<noteq> e" using Cons.prems(2) by auto
  show ?case
  proof (cases ws)
    case Nil
    then show ?thesis using Cons.prems(3) v by (cases "f v") (auto simp: join_Cons)
  next
    case w: (Cons w ws')
    let ?r = "\<lambda>us x. (if us = [] then [] else 44 # join (map f us)) @ e # x"
    have "f v @ ?r vs x = f w @ ?r ws' y" using Cons.prems(3) w by (simp add: join_Cons)
    moreover have "stop (?r vs x)" "stop (?r ws' y)" using e by auto
    ultimately have vw: "v = w" "?r vs x = ?r ws' y" using Cons.prems(1) [of v w "?r vs x" "?r ws' y"] w by simp_all
    show ?thesis
    proof (cases "vs = [] \<or> ws' = []")
      case True
      then show ?thesis using vw w e by (auto split: if_splits)
    next
      case False
      then have "join (map f vs) @ e # x = join (map f ws') @ e # y" using vw(2) by simp
      then have "vs = ws' \<and> x = y"
        by (intro Cons.IH [of ws'] Cons.prems(1,2)) (use w in auto)
      then show ?thesis using vw w by simp
    qed
  qed
qed

lemma json_text_prefix_code:
  "plain v \<Longrightarrow> plain w \<Longrightarrow> json_text v @ x = json_text w @ y \<Longrightarrow> stop x \<Longrightarrow> stop y \<Longrightarrow> v = w \<and> x = y"
proof (induction v arbitrary: w x y)
  case (JStr s)
  then have "lead_kind w = 34" using json_text_lead [of "JStr s"] json_text_lead [of w]
    by (metis hd_append2 lead_kind.simps(3))
  then obtain t where w: "w = JStr t" by (cases w) (auto split: if_splits)
  show ?case using JStr.prems quote_prefix_code [of s t x y] by (simp add: w)
next
  case (JInt i)
  then have "lead_kind w = 45" using json_text_lead [of "JInt i"] json_text_lead [of w]
    by (metis hd_append2 lead_kind.simps(5))
  then obtain j where w: "w = JInt j" by (cases w) (auto split: if_splits)
  show ?case using JInt.prems int_text_prefix_code [of i x j y] by (simp add: w)
next
  case (JBool b)
  then have "lead_kind w = lead_kind (JBool b)" using json_text_lead [of "JBool b"] json_text_lead [of w]
    by (metis hd_append2)
  then have w: "w = JBool b" by (cases w) (auto split: if_splits)
  show ?case using JBool.prems by (simp add: w)
next
  case JNull
  then have "lead_kind w = 110" using json_text_lead [of "JNull"] json_text_lead [of w]
    by (metis hd_append2 lead_kind.simps(7))
  then have w: "w = JNull" using JNull.prems(2) by (cases w) (auto split: if_splits)
  show ?case using JNull.prems by (simp add: w)
next
  case (JArr vs)
  then have "lead_kind w = 91" using json_text_lead [of "JArr vs"] json_text_lead [of w]
    by (metis hd_append2 lead_kind.simps(1))
  then obtain ws where w: "w = JArr ws" by (cases w) (auto split: if_splits)
  have "vs = ws \<and> x = y"
  proof (rule join_prefix_code [of vs ws json_text 93])
    fix v assume v: "v \<in> set vs \<union> set ws"
    then have "plain v" using JArr.prems(1,2) w by auto
    moreover have "lead 93 = 93" "lead_kind v \<noteq> 93" by (simp add: lead_def digit_def, cases v, auto)
    ultimately show "json_text v \<noteq> [] \<and> hd (json_text v) \<noteq> 93" using json_text_lead [of v] by metis
  qed (use JArr.IH JArr.prems w in auto)
  then show ?case using w by simp
next
  case (JObj kvs)
  then have "lead_kind w = 123" using json_text_lead [of "JObj kvs"] json_text_lead [of w]
    by (metis hd_append2 lead_kind.simps(2))
  then obtain lws where w: "w = JObj lws" by (cases w) (auto split: if_splits)
  have "kvs = lws \<and> x = y"
  proof (rule join_prefix_code [of kvs lws "\<lambda>x. quote (fst x) @ 58 # json_text (snd x)" 125])
    fix p q x y
    assume p: "p \<in> set kvs" "q \<in> set lws" and stop: "stop x" "stop y"
      and "(quote (fst p) @ 58 # json_text (snd p)) @ x = (quote (fst q) @ 58 # json_text (snd q)) @ y"
    then have eq: "quote (fst p) @ 58 # json_text (snd p) @ x = quote (fst q) @ 58 # json_text (snd q) @ y" by simp
    have u: "units (fst p)" "units (fst q)" "plain (snd p)" "plain (snd q)" using JObj.prems(1,2) w p by auto
    have k: "fst p = fst q" "json_text (snd p) @ x = json_text (snd q) @ y"
      using quote_prefix_code [OF u(1,2) eq] by auto
    then show "p = q \<and> x = y"
      using JObj.IH [OF p(1), of "snd p" "snd q" x y] u stop by (auto simp: snds.simps prod_eq_iff)
  qed (use JObj.prems w in \<open>auto simp: quote_def\<close>)
  then show ?case using w by simp
qed simp_all

text \<open>Two values have the same sorted text exactly when they differ in the order of members only.\<close>

lemma encodeData_eq_iff:
  "plain v \<Longrightarrow> plain w \<Longrightarrow> encodeData b v = encodeData b w \<longleftrightarrow> listed b v = listed b w"
  using json_text_prefix_code [of "listed b v" "listed b w" "[]" "[]"] by (auto simp: encodeData_listed)

lemma canonical_eq_iff:
  assumes "canonical i d v = Inr s" "canonical i d w = Inr t" "plain v" "plain w"
  shows "s = t \<longleftrightarrow> listed True v = listed True w"
  using canonical_encodeData [OF assms(1)] canonical_encodeData [OF assms(2)]
    encodeData_eq_iff [OF assms(3,4)] by simp

section \<open>The strict parser reads the text back\<close>

text \<open>The values that fit the wire below depth \<open>d\<close>.\<close>

fun wire_value :: "nat \<Rightarrow> jv \<Rightarrow> bool" where
  "wire_value d (JArr vs) \<longleftrightarrow> d < MAX_WIRE_DEPTH \<and> (\<forall>v \<in> set vs. wire_value (d + 1) v)"
| "wire_value d (JObj kvs) \<longleftrightarrow> d < MAX_WIRE_DEPTH \<and> distinct (map fst kvs) \<and>
     (\<forall>x \<in> set kvs. units (fst x) \<and> validUnicode (fst x) \<and> wire_value (d + 1) (snd x))"
| "wire_value d (JStr s) \<longleftrightarrow> units s \<and> validUnicode s"
| "wire_value d (JInt i) \<longleftrightarrow> safe_integer (JInt i)"
| "wire_value d JNull = True"
| "wire_value d (JBool _) = True"
| "wire_value d _ = False"

lemma wire_value_plain: "wire_value d v \<Longrightarrow> plain v"
  by (induction d v rule: wire_value.induct) auto

lemma wire_value_listed: "wire_value d v \<Longrightarrow> wire_value d (listed b v)"
  by (induction d v rule: wire_value.induct) (auto simp: image_iff comp_def case_prod_beta)

lemma skip_ws_stop: "stop r \<Longrightarrow> skip_ws r = r"
  by (rule skip_ws_id) (auto simp: stop_def is_ws_def)

lemma json_text_first: "plain v \<Longrightarrow> skip_ws (json_text v @ r) = json_text v @ r"
proof (rule skip_ws_id)
  assume "plain v"
  then have "json_text v \<noteq> []" "lead (hd (json_text v)) = lead_kind v" using json_text_lead by auto
  moreover have "lead_kind v \<ge> 34" by (cases v) auto
  ultimately show "json_text v @ r = [] \<or> \<not> is_ws (hd (json_text v @ r))"
    by (auto simp: lead_def is_ws_def digit_def hd_append split: if_splits)
qed

lemma match_int_nat_string: "stop r \<Longrightarrow> match_int (nat_string n @ r) = Some (nat_string n)"
proof -
  assume r: "stop r"
  obtain c cs where c: "nat_string n = c # cs" by (cases "nat_string n") auto
  have d: "digit c" "list_all digit cs" using nat_string_digits [of n] c by auto
  have "c = 48 \<longleftrightarrow> n = 0" using nat_string_hd [of n] c by simp
  then show ?thesis
    using c d digit_run_append [OF d(2) r] by (auto simp: match_int_def nat_string.simps [of 0])
qed

lemma match_frac_stop: "stop r \<Longrightarrow> match_frac r = []"
  by (cases r) (auto simp: match_frac_def stop_def)

lemma match_exp_stop: "stop r \<Longrightarrow> match_exp r = []"
  by (cases r) (auto simp: match_exp_def stop_def)

lemma match_number_int_text: "stop r \<Longrightarrow> match_number (int_text i @ r) = Some (int_text i)"
proof -
  assume r: "stop r"
  have "\<not> starts 45 (nat_string n @ r)" for n
    using nat_string_first [of n] by (cases "nat_string n") (auto simp: starts_def digit_def)
  then show ?thesis
    by (simp add: match_number_def int_text_def Let_def match_int_nat_string r match_frac_stop match_exp_stop)
qed

lemma parse_scalar_int:
  assumes "safe_integer (JInt i)" "stop r"
  shows "parse_scalar (int_text i @ r) = Inr (JInt i, r)"
proof -
  have ds: "set (int_text i) \<subseteq> {45} \<union> {c. digit c}"
    using nat_string_digits by (auto simp: int_text_def list_all_iff split: if_splits)
  obtain c cs where c: "int_text i = c # cs" by (cases "int_text i") (auto simp: int_text_def split: if_splits)
  have "c = 45 \<or> digit c" using ds c by auto
  then have lit: "\<not> starts_with (U ''true'') (int_text i @ r)" "\<not> starts_with (U ''false'') (int_text i @ r)"
    "\<not> starts_with (U ''null'') (int_text i @ r)"
    using c by (auto simp: starts_with_def U_def digit_def)
  have "\<not> starts 45 (nat_string n)" for n
    using nat_string_first [of n] by (cases "nat_string n") (auto simp: starts_def digit_def)
  then have t: "token_int (int_text i) = i" by (simp add: token_int_def int_text_def)
  have z: "int_text i \<noteq> [45, 48]" using nat_string_hd [of "nat (- i)"] nat_string_first [of "nat i"]
    by (auto simp: int_text_def digit_def split: if_splits)
  have f: "finite_double i" using assms(1) by (simp add: finite_double_def MAX_SAFE_def)
  have "46 \<notin> set (int_text i)" "101 \<notin> set (int_text i)" "69 \<notin> set (int_text i)"
    using ds by (auto simp: digit_def)
  then show ?thesis
    using lit t z f assms by (simp add: parse_scalar_def parse_number_def match_number_int_text)
qed

lemma reads_members_text:
  assumes "kvs \<noteq> []" and "distinct (map fst (acc @ kvs))"
    and "\<And>x. x \<in> set kvs \<Longrightarrow> units (fst x) \<and> validUnicode (fst x) \<and> plain (snd x)"
    and "\<And>x r. x \<in> set kvs \<Longrightarrow> stop r \<Longrightarrow> reads_value (d + 1) (json_text (snd x) @ r) (snd x) r"
  shows "reads_members d acc (join (map (\<lambda>x. quote (fst x) @ 58 # json_text (snd x)) kvs) @ 125 # r)
    (JObj (acc @ kvs)) r"
  using assms
proof (induction kvs arbitrary: acc)
  case (Cons x kvs)
  let ?f = "\<lambda>x. quote (fst x) @ 58 # json_text (snd x)"
  let ?tl = "if kvs = [] then 125 # r else 44 # join (map ?f kvs) @ 125 # r"
  have x: "units (fst x)" "validUnicode (fst x)" "plain (snd x)" using Cons.prems(3) [of x] by auto
  have q: "parse_string (quote_units (fst x) @ 34 # 58 # json_text (snd x) @ ?tl)
      = Inr (fst x, 58 # json_text (snd x) @ ?tl)"
    by (rule parse_quote [OF x(1,2)])
  have ws: "skip_ws (58 # t) = 58 # t" for t by (rule skip_ws_id) (simp add: is_ws_def)
  have fresh: "fst x \<notin> fst ` set acc" using Cons.prems(2) by auto
  have v: "reads_value (d + 1) (json_text (snd x) @ ?tl) (snd x) ?tl"
    using Cons.prems(4) [of x ?tl] by auto
  have eq: "join (map ?f (x # kvs)) @ 125 # r = 34 # quote_units (fst x) @ 34 # 58 # json_text (snd x) @ ?tl"
    by (simp add: join_Cons quote_def)
  show ?case
  proof (cases "kvs = []")
    case True
    then show ?thesis unfolding eq
      using member_last [OF q fresh ws v] x by (simp add: skip_ws_stop)
  next
    case False
    have "reads_members d (acc @ [(fst x, snd x)]) (join (map ?f kvs) @ 125 # r) (JObj ((acc @ [(fst x, snd x)]) @ kvs)) r"
      by (rule Cons.IH) (use False Cons.prems(2-4) in auto)
    moreover have "skip_ws (join (map ?f kvs) @ 125 # r) = join (map ?f kvs) @ 125 # r"
      using False by (intro skip_ws_id) (cases kvs, auto simp: join_Cons quote_def is_ws_def)
    ultimately show ?thesis unfolding eq
      using member_more [OF q fresh ws v, of "join (map ?f kvs) @ 125 # r"] False by (simp add: skip_ws_stop)
  qed
qed simp

lemma reads_items_text:
  assumes "vs \<noteq> []" and "\<And>v. v \<in> set vs \<Longrightarrow> plain v"
    and "\<And>v r. v \<in> set vs \<Longrightarrow> stop r \<Longrightarrow> reads_value (d + 1) (json_text v @ r) v r"
  shows "reads_items d acc (join (map json_text vs) @ 93 # r) (JArr (acc @ vs)) r"
  using assms
proof (induction vs arbitrary: acc)
  case (Cons v vs)
  let ?tl = "if vs = [] then 93 # r else 44 # join (map json_text vs) @ 93 # r"
  have v: "reads_value (d + 1) (json_text v @ ?tl) v ?tl" "json_text v @ ?tl \<noteq> []"
    using Cons.prems(3) [of v ?tl] json_text_lead [of v] Cons.prems(2) by auto
  have eq: "join (map json_text (v # vs)) @ 93 # r = json_text v @ ?tl"
    by (simp add: join_Cons)
  show ?case
  proof (cases "vs = []")
    case True
    then show ?thesis unfolding eq
      using item_last [OF v(2,1)] by (simp add: skip_ws_stop)
  next
    case False
    have "reads_items d (acc @ [v]) (join (map json_text vs) @ 93 # r) (JArr ((acc @ [v]) @ vs)) r"
      by (rule Cons.IH) (use False Cons.prems(2,3) in auto)
    then show ?thesis unfolding eq
      using item_more [OF v(2,1), of "join (map json_text vs) @ 93 # r"] False by (simp add: skip_ws_stop)
  qed
qed simp

lemma reads_json_text: "wire_value d v \<Longrightarrow> stop r \<Longrightarrow> reads_value d (json_text v @ r) v r"
proof (induction d v arbitrary: r rule: wire_value.induct)
  case (1 d vs)
  have ws: "skip_ws (91 # t) = 91 # t" for t by (rule skip_ws_id) (simp add: is_ws_def)
  have sk: "skip_ws (join (map json_text vs) @ 93 # r) = join (map json_text vs) @ 93 # r"
    using "1.prems" wire_value_plain json_text_first
    by (cases vs) (auto simp: join_Cons skip_ws_stop)
  show ?case
  proof (cases "vs = []")
    case True
    then show ?thesis using read_no_items [OF ws] "1.prems" by (simp add: skip_ws_stop)
  next
    case False
    then obtain v vs' where v: "vs = v # vs'" by (cases vs) auto
    have "plain v" using "1.prems" v wire_value_plain by auto
    then have "json_text v \<noteq> []" "lead (hd (json_text v)) = lead_kind v" using json_text_lead by auto
    moreover have "lead_kind v \<noteq> 93" by (cases v) auto
    ultimately have "\<not> starts 93 (join (map json_text vs) @ 93 # r)"
      by (cases "json_text v") (auto simp: v join_Cons lead_def digit_def)
    moreover have "reads_items d [] (join (map json_text vs) @ 93 # r) (JArr ([] @ vs)) r"
      by (rule reads_items_text) (use False "1.prems" "1.IH" wire_value_plain in auto)
    ultimately show ?thesis using read_items [OF ws, of d "join (map json_text vs) @ 93 # r"] "1.prems" sk by simp
  qed
next
  case (2 d kvs)
  let ?f = "\<lambda>x. quote (fst x) @ 58 # json_text (snd x)"
  have ws: "skip_ws (123 # t) = 123 # t" for t by (rule skip_ws_id) (simp add: is_ws_def)
  have sk: "skip_ws (join (map ?f kvs) @ 125 # r) = join (map ?f kvs) @ 125 # r"
    by (intro skip_ws_id) (cases kvs, auto simp: join_Cons quote_def is_ws_def)
  show ?case
  proof (cases "kvs = []")
    case True
    then show ?thesis using read_no_members [OF ws] "2.prems" by (simp add: skip_ws_stop)
  next
    case False
    then have "\<not> starts 125 (join (map ?f kvs) @ 125 # r)"
      by (cases kvs) (auto simp: join_Cons quote_def)
    moreover have "reads_members d [] (join (map ?f kvs) @ 125 # r) (JObj ([] @ kvs)) r"
      by (rule reads_members_text) (use False "2.prems" "2.IH" wire_value_plain in auto)
    ultimately show ?thesis using read_members [OF ws, of d "join (map ?f kvs) @ 125 # r"] "2.prems" sk by simp
  qed
next
  case (3 d s)
  have "skip_ws (34 # t) = 34 # t" for t by (rule skip_ws_id) (simp add: is_ws_def)
  then show ?case using read_string [OF _ parse_quote, of "quote s @ r" s r d] 3
    by (simp add: quote_def)
next
  case (4 d i)
  have "json_text (JInt i) @ r = int_text i @ r" by simp
  moreover have "skip_ws (int_text i @ r) = int_text i @ r" using json_text_first [of "JInt i" r] by simp
  moreover have "lead (hd (int_text i @ r)) = 45" "int_text i \<noteq> []" using json_text_lead [of "JInt i"] by simp_all
  ultimately show ?case using read_scalar [of "int_text i @ r" "JInt i" r d] parse_scalar_int [of i r] 4
    by (cases "int_text i") (auto simp: lead_def digit_def split: if_splits)
next
  case (5 d)
  show ?case by (rule read_scalar) (simp_all add: skip_ws_def is_ws_def U_def parse_scalar_def starts_with_def)
next
  case (6 d b)
  show ?case by (rule read_scalar) (cases b; simp add: skip_ws_def is_ws_def U_def parse_scalar_def starts_with_def)+
qed simp_all

text \<open>The relation describes what the fuelled parser returns, given fuel in proportion to the text.\<close>

lemma reads_parse:
  "reads_value d s v r \<Longrightarrow> 2 * length s + 1 \<le> f \<Longrightarrow> parse_value f d s = Inr (v, r)"
  "reads_members d kvs s v r \<Longrightarrow> 2 * length s + 1 \<le> f \<Longrightarrow> parse_members f d kvs s = Inr (v, r)"
  "reads_items d vs s v r \<Longrightarrow> 2 * length s + 2 \<le> f \<Longrightarrow> parse_items f d vs s = Inr (v, r)"
proof (induction arbitrary: f and f and f rule: reads_value_reads_members_reads_items.inducts)
  case (read_string s t x r d)
  then show ?case by (cases f) auto
next
  case (read_scalar s v r d)
  then show ?case by (cases f) auto
next
  case (read_no_members s t d r)
  then show ?case by (cases f) auto
next
  case (read_members s t d v r)
  then obtain g where f: "f = Suc g" by (cases f) auto
  have "2 * length (skip_ws t) + 1 \<le> g"
    using skip_ws_shorter [OF read_members(1)] skip_ws_length [of t] read_members.prems f by linarith
  then show ?case using read_members f by simp
next
  case (read_no_items s t d r)
  then show ?case by (cases f) auto
next
  case (read_items s t d v r)
  then obtain g where f: "f = Suc g" by (cases f) auto
  have "2 * length (skip_ws t) + 2 \<le> g"
    using skip_ws_shorter [OF read_items(1)] skip_ws_length [of t] read_items.prems f by linarith
  then show ?case using read_items f by simp
next
  case (member_last t k r1 kvs q d w r2 r)
  then obtain g where f: "f = Suc g" by (cases f) auto
  have "2 * length q + 1 \<le> g"
    using parse_string_length [OF member_last(1)] skip_ws_shorter [OF member_last(3)] member_last.prems f by simp
  then show ?case using member_last f by simp
next
  case (member_more t k r1 kvs q d w r2 p v r)
  then obtain g where f: "f = Suc g" by (cases f) auto
  have q: "2 * length q + 1 \<le> g"
    using parse_string_length [OF member_more(1)] skip_ws_shorter [OF member_more(3)] member_more.prems f by simp
  have "2 * length (skip_ws p) + 1 \<le> g"
    using q reads_length(1) [OF member_more(4)] skip_ws_shorter [OF member_more(5)] skip_ws_length [of p] by linarith
  then show ?case using member_more q f by simp
next
  case (item_last s d w r2 r vs)
  then obtain g where f: "f = Suc g" by (cases f) auto
  then have "2 * length s + 1 \<le> g" using item_last.prems by simp
  then show ?case using item_last f by simp
next
  case (item_more s d w r2 p vs v r)
  then obtain g where f: "f = Suc g" by (cases f) auto
  have s: "2 * length s + 1 \<le> g" using item_more.prems f by simp
  have "2 * length p + 2 \<le> g"
    using s reads_length(1) [OF item_more(2)] skip_ws_shorter [OF item_more(3)] by linarith
  then show ?case using item_more s f by simp
qed

lemma parse_value_iff_reads:
  "2 * length s + 1 \<le> f \<Longrightarrow> parse_value f d s = Inr (v, r) \<longleftrightarrow> reads_value d s v r"
  using reads_parse(1) parse_reads_all [of f] by blast

lemma parse_document_iff:
  "parse_document s = Inr v \<longleftrightarrow> (\<exists>r. reads_value 0 s v r \<and> skip_ws r = [])"
  using parse_value_iff_reads [of s "parse_fuel s" 0]
  by (auto simp: parse_document_def parse_fuel_def res_simps split: if_splits)

lemma parse_document_json_text: "wire_value 0 v \<Longrightarrow> parse_document (json_text v) = Inr v"
  using reads_json_text [of 0 v "[]"] by (auto simp: parse_document_iff skip_ws_def)

section \<open>What an accepted document holds\<close>

lemma units_append_iff: "units (a @ b) \<longleftrightarrow> units a \<and> units b"
  by simp

lemma units_skip_ws: "units s \<Longrightarrow> units (skip_ws s)"
  by (auto simp: units_def skip_ws_def dest: set_dropWhileD)

lemma units_drop: "units s \<Longrightarrow> units (drop n s)"
  by (auto simp: units_def dest: in_set_dropD)

lemma skip_ws_units: "skip_ws s = c # t \<Longrightarrow> units s \<Longrightarrow> units t"
  using units_skip_ws [of s] by simp

lemma scan_string_units: "scan_string s = Some (b, r) \<Longrightarrow> units s \<Longrightarrow> units b \<and> units r"
  by (induction s arbitrary: b r rule: scan_string.induct)
    (fastforce split: if_splits list.splits)+

lemma hex_digit_less: "hex_digit c = Some n \<Longrightarrow> n < 16"
  by (auto simp: hex_digit_def split: if_splits)

lemma hex4_less: "hex4 s = Some n \<Longrightarrow> n < 0x10000"
  by (cases s rule: hex4.cases) (auto split: option.splits dest!: hex_digit_less)

lemma body_units: "parse_string_body s = Some v \<Longrightarrow> units s \<Longrightarrow> units v"
proof (induction s arbitrary: v rule: parse_string_body.induct)
  case (2 c cs)
  have e: "escape_char e = Some d \<Longrightarrow> d < 0x10000" for e d
    by (auto simp: escape_char_def split: if_splits)
  show ?case using 2 units_drop [of "tl cs" 4]
    by (auto split: if_splits list.splits option.splits dest: hex4_less e)
qed simp

lemma parse_string_ok:
  "parse_string s = Inr (v, r) \<Longrightarrow> units s \<Longrightarrow> units v \<and> validUnicode v \<and> units r"
  using scan_string_units [of s] body_units by (fastforce simp: parse_string_def split: option.splits if_splits)

lemma parse_scalar_ok:
  "parse_scalar s = Inr (v, r) \<Longrightarrow> units s \<Longrightarrow> wire_value d v \<and> units r"
  by (auto simp: parse_scalar_def parse_number_def units_drop split: if_splits option.splits)

definition members_ok :: "nat \<Rightarrow> (ustr \<times> jv) list \<Rightarrow> bool" where
  "members_ok d kvs \<longleftrightarrow> distinct (map fst kvs) \<and>
     (\<forall>x \<in> set kvs. units (fst x) \<and> validUnicode (fst x) \<and> wire_value (d + 1) (snd x))"

lemma members_ok_snoc:
  "members_ok d kvs \<Longrightarrow> k \<notin> fst ` set kvs \<Longrightarrow> units k \<Longrightarrow> validUnicode k \<Longrightarrow> wire_value (d + 1) w \<Longrightarrow>
   members_ok d (kvs @ [(k, w)])"
  by (auto simp: members_ok_def)

lemma wire_value_JObj: "wire_value d (JObj kvs) \<longleftrightarrow> d < MAX_WIRE_DEPTH \<and> members_ok d kvs"
  by (auto simp: members_ok_def)

lemma reads_ok:
  "reads_value d s v r \<Longrightarrow> units s \<Longrightarrow> wire_value d v \<and> units r"
  "reads_members d kvs s v r \<Longrightarrow> units s \<Longrightarrow> d < MAX_WIRE_DEPTH \<Longrightarrow> members_ok d kvs \<Longrightarrow> wire_value d v \<and> units r"
  "reads_items d vs s v r \<Longrightarrow> units s \<Longrightarrow> d < MAX_WIRE_DEPTH \<Longrightarrow> \<forall>w \<in> set vs. wire_value (d + 1) w \<Longrightarrow>
     wire_value d v \<and> units r"
proof (induction rule: reads_value_reads_members_reads_items.inducts)
  case (read_string s t x r d)
  from parse_string_ok [OF read_string(2) skip_ws_units [OF read_string(1,3)]] show ?case by simp
next
  case (read_scalar s v r d)
  from parse_scalar_ok [OF read_scalar(4) units_skip_ws [OF read_scalar(5)]] show ?case by blast
next
  case (read_no_members s t d r)
  from skip_ws_units [OF read_no_members(3) skip_ws_units [OF read_no_members(1,4)]]
  show ?case using read_no_members(2) by simp
next
  case (read_members s t d v r)
  from units_skip_ws [OF skip_ws_units [OF read_members.hyps(1) read_members.prems]]
  show ?case using read_members.IH read_members.hyps(2) by (simp add: members_ok_def)
next
  case (read_no_items s t d r)
  from skip_ws_units [OF read_no_items(3) skip_ws_units [OF read_no_items(1,4)]]
  show ?case using read_no_items(2) by simp
next
  case (read_items s t d v r)
  from units_skip_ws [OF skip_ws_units [OF read_items.hyps(1) read_items.prems]]
  show ?case using read_items.IH read_items.hyps(2) by simp
next
  case (member_last t k r1 kvs q d w r2 r)
  have k: "units k \<and> validUnicode k \<and> units r1"
    using parse_string_ok [OF member_last.hyps(1)] member_last.prems by simp
  then have w: "wire_value (d + 1) w \<and> units r2"
    using member_last.IH skip_ws_units [OF member_last.hyps(3)] by blast
  show ?case unfolding wire_value_JObj
    using members_ok_snoc [of d kvs k w] k w member_last.prems member_last.hyps(2) skip_ws_units [OF member_last.hyps(5)]
    by blast
next
  case (member_more t k r1 kvs q d w r2 p v r)
  have k: "units k \<and> validUnicode k \<and> units r1"
    using parse_string_ok [OF member_more.hyps(1)] member_more.prems by simp
  then have w: "wire_value (d + 1) w \<and> units r2"
    using member_more.IH(1) skip_ws_units [OF member_more.hyps(3)] by blast
  show ?case
    by (rule member_more.IH(2))
      (use members_ok_snoc [of d kvs k w] k w member_more.prems member_more.hyps(2)
        units_skip_ws [OF skip_ws_units [OF member_more.hyps(5)]] in blast)+
next
  case (item_last s d w r2 r vs)
  then have "wire_value (d + 1) w \<and> units r2" by blast
  then show ?case using item_last.prems skip_ws_units [OF item_last.hyps(3)] by simp
next
  case (item_more s d w r2 p vs v r)
  then have w: "wire_value (d + 1) w \<and> units r2" by blast
  show ?case
    by (rule item_more.IH(2)) (use w item_more.prems skip_ws_units [OF item_more.hyps(3)] in auto)
qed

lemma parse_document_ok: "parse_document s = Inr v \<Longrightarrow> units s \<Longrightarrow> wire_value 0 v"
  using reads_ok(1) by (auto simp: parse_document_iff)

lemma parse_document_total: "parse_document s \<noteq> Inl OutOfFuel"
  using parse_fuel_all [of "parse_fuel s"]
  by (auto simp: parse_document_def parse_fuel_def res_simps split: if_splits)

text \<open>The errors, one per check.\<close>

definition wire_codes :: "string set" where
  "wire_codes = {''wire_too_large'', ''invalid_unicode'', ''invalid_utf8'', ''invalid_input'', ''invalid_json'',
     ''wire_too_deep'', ''duplicate_key'', ''non_integer_number'', ''invalid_number'', ''unsafe_number'',
     ''trailing_input''}"

lemma parse_string_error: "parse_string s = Inl e \<Longrightarrow> \<exists>c \<in> wire_codes. e = WireInputError c"
  by (auto simp: parse_string_def wire_codes_def split: option.splits if_splits)

lemma parse_scalar_error: "parse_scalar s = Inl e \<Longrightarrow> \<exists>c \<in> wire_codes. e = WireInputError c"
  by (auto simp: parse_scalar_def parse_number_def wire_codes_def split: option.splits if_splits)

lemma parse_error_all:
  "(\<forall>d s e. parse_value f d s = Inl e \<longrightarrow> e = OutOfFuel \<or> (\<exists>c \<in> wire_codes. e = WireInputError c)) \<and>
   (\<forall>d kvs s e. parse_members f d kvs s = Inl e \<longrightarrow> e = OutOfFuel \<or> (\<exists>c \<in> wire_codes. e = WireInputError c)) \<and>
   (\<forall>d vs s e. parse_items f d vs s = Inl e \<longrightarrow> e = OutOfFuel \<or> (\<exists>c \<in> wire_codes. e = WireInputError c))"
proof (induction f)
  case (Suc f)
  have c: "''invalid_json'' \<in> wire_codes" "''wire_too_deep'' \<in> wire_codes" "''duplicate_key'' \<in> wire_codes"
    by (simp_all add: wire_codes_def)
  have V: "\<And>d s e. parse_value f d s = Inl e \<Longrightarrow> e = OutOfFuel \<or> (\<exists>c \<in> wire_codes. e = WireInputError c)"
    and M: "\<And>d kvs s e. parse_members f d kvs s = Inl e \<Longrightarrow> e = OutOfFuel \<or> (\<exists>c \<in> wire_codes. e = WireInputError c)"
    and I: "\<And>d vs s e. parse_items f d vs s = Inl e \<Longrightarrow> e = OutOfFuel \<or> (\<exists>c \<in> wire_codes. e = WireInputError c)"
    using Suc by blast+
  have "e = OutOfFuel \<or> (\<exists>c \<in> wire_codes. e = WireInputError c)" if "parse_value (Suc f) d s = Inl e" for d s e
    using that c by (auto simp: Let_def res_simps split: if_splits dest: M I parse_string_error parse_scalar_error)
  moreover have "e = OutOfFuel \<or> (\<exists>c \<in> wire_codes. e = WireInputError c)"
    if "parse_members (Suc f) d kvs s = Inl e" for d kvs s e
    using that c by (auto simp: Let_def res_simps split: if_splits dest: M V parse_string_error)
  moreover have "e = OutOfFuel \<or> (\<exists>c \<in> wire_codes. e = WireInputError c)"
    if "parse_items (Suc f) d vs s = Inl e" for d vs s e
    using that c by (auto simp: Let_def res_simps split: if_splits dest: V I)
  ultimately show ?case by blast
qed simp

lemma parse_document_error: "parse_document s = Inl e \<Longrightarrow> \<exists>c \<in> wire_codes. e = WireInputError c"
proof -
  assume e: "parse_document s = Inl e"
  then have "e \<noteq> OutOfFuel" using parse_document_total by auto
  moreover have "''trailing_input'' \<in> wire_codes" by (simp add: wire_codes_def)
  ultimately show ?thesis using e parse_error_all [of "parse_fuel s"]
    by (auto simp: parse_document_def res_simps split: if_splits)
qed

text \<open>A wire value writes as scalar Unicode text.\<close>

lemma valid_ascii: "c < 128 \<Longrightarrow> validUnicode (c # s) = validUnicode s"
  by (simp add: validUnicode.simps(2) surrogate_defs)

lemma valid_units_quote: "validUnicode s \<Longrightarrow> units s \<Longrightarrow> validUnicode (quote_units s) \<and> units (quote_units s)"
proof (induction s rule: valid_induct)
  case (bmp c cs)
  have h: "n < 16 \<Longrightarrow> hex_char n < 128" for n by (auto simp: hex_char_def)
  have "validUnicode (quote_unit c @ t) = validUnicode t" "units (quote_unit c)" for t
    using bmp h by (auto simp: quote_unit_def escape_unit_def valid_ascii valid_bmp less_trans [OF h])
  with bmp show ?case by simp
next
  case (pair c d ds)
  then show ?case by (simp add: valid_pair)
qed simp

lemma valid_units_join: "\<forall>t \<in> set ts. validUnicode t \<and> units t \<Longrightarrow> validUnicode (join ts) \<and> units (join ts)"
  by (induction ts rule: join.induct) (auto simp: valid_append valid_ascii)

lemma digits_ascii: "list_all digit s \<Longrightarrow> validUnicode s \<and> units s"
  by (induction s) (auto simp: valid_ascii digit_def simp del: validUnicode.simps(2))

lemma valid_units_text: "wire_value d v \<Longrightarrow> validUnicode (json_text v) \<and> units (json_text v)"
proof (induction d v rule: wire_value.induct)
  case (1 d vs)
  then have "\<forall>t \<in> set (map json_text vs). validUnicode t \<and> units t" by auto
  from valid_units_join [OF this] show ?case by (simp add: valid_ascii valid_append del: validUnicode.simps(2))
next
  case (2 d kvs)
  then have "\<forall>t \<in> set (map (\<lambda>x. quote (fst x) @ 58 # json_text (snd x)) kvs). validUnicode t \<and> units t"
    using valid_units_quote by (auto simp: quote_def valid_ascii valid_append simp del: validUnicode.simps(2))
  from valid_units_join [OF this] show ?case by (simp add: valid_ascii valid_append del: validUnicode.simps(2))
next
  case (3 d s)
  then show ?case using valid_units_quote [of s]
    by (auto simp: quote_def valid_ascii valid_append simp del: validUnicode.simps(2))
next
  case (4 d i)
  then show ?case using digits_ascii [OF nat_string_digits]
    by (auto simp: int_text_def valid_ascii simp del: validUnicode.simps(2))
qed (auto simp: U_def valid_ascii)

lemma decode_text_iff: "units s \<Longrightarrow> decodeStrictJson (TextInput s) = Inr v \<longleftrightarrow>
    validUnicode s \<and> length (text_encode s) \<le> MAX_WIRE_BYTES \<and> parse_document s = Inr v"
  using utf8_length [of s] by (auto simp: decodeStrictJson_def)

lemma decode_bytes_iff: "decodeStrictJson (BytesInput bs) = Inr v \<longleftrightarrow>
    length bs \<le> MAX_WIRE_BYTES \<and> (\<exists>s. text_decode bs = Some s \<and> parse_document s = Inr v)"
  by (auto simp: decodeStrictJson_def split: option.splits)

section \<open>The codec\<close>

lemmas codec_eval = decodeStrictJson_def parse_document_def parse_fuel_def skip_ws_def is_ws_def
  MAX_WIRE_BYTES_def MAX_WIRE_DEPTH_def text_encode_def utf8_encode.simps validUnicode.simps surrogate_defs
  parse_string_def parse_scalar_def parse_number_def match_number_def match_int_def match_frac_def match_exp_def
  digit_run_def digit_def token_int_def finite_double_def digits_value_def starts_with_def MAX_SAFE_def
  escape_char_def hex_digit_def U_def Let_def

text \<open>
  C1: Whatever text or bytes the strict decoder accepts, the value it returns is a wire value: objects
  and arrays nest at most 32 deep, no object has a repeated key, every string and key is scalar
  Unicode and every number is a safe integer.
\<close>

theorem decode_accepts_wire_values:
  assumes "decodeStrictJson input = Inr v" and "\<And>s. input = TextInput s \<Longrightarrow> units s"
  shows "wire_value 0 v"
proof (cases input)
  case (TextInput s)
  then show ?thesis using assms(1) assms(2) [OF TextInput] parse_document_ok [of s v] by (simp add: decode_text_iff)
next
  case (BytesInput bs)
  then show ?thesis using assms(1) text_decode_sound(2) parse_document_ok by (auto simp: decode_bytes_iff)
qed (use assms(1) in \<open>simp add: decodeStrictJson_def\<close>)

theorem decode_accepts_wire_values_witness:
  "wire_value 0 (JObj [(U ''a'', JArr [JInt 1, JInt (- 2), JBool True, JNull, S ''x''])])"
proof (rule decode_accepts_wire_values [of "TextInput (U ''{\"a\":[1,-2,true,null,\"x\"]} '')"])
  show "decodeStrictJson (TextInput (U ''{\"a\":[1,-2,true,null,\"x\"]} ''))
      = Inr (JObj [(U ''a'', JArr [JInt 1, JInt (- 2), JBool True, JNull, S ''x''])])"
    by (simp add: codec_eval)
qed auto

text \<open>
  C2: Every wire value whose text fits in 256 KiB of UTF-8 survives the wire: the decoder accepts what
  either encoder writes for it and returns the same value, with its members in the order written.
\<close>

theorem decode_encode:
  assumes "wire_value 0 v" and "length (text_encode (encodeData b v)) \<le> MAX_WIRE_BYTES"
  shows "decodeStrictJson (TextInput (encodeData b v)) = Inr (listed b v)"
proof -
  have "wire_value 0 (listed b v)" by (rule wire_value_listed [OF assms(1)])
  from valid_units_text [OF this] parse_document_json_text [OF this] show ?thesis
    using assms(2) by (simp add: decode_text_iff encodeData_listed)
qed

theorem decode_encode_witness:
  "decodeStrictJson (TextInput (encodeData True (JObj [(U ''b'', JInt 10), (U ''a'', S ''q'')])))
    = Inr (JObj [(U ''a'', S ''q''), (U ''b'', JInt 10)])"
proof -
  have "nat_string 10 = [49, 48]" by (simp add: nat_string.simps)
  then have "encodeData True (JObj [(U ''b'', JInt 10), (U ''a'', S ''q'')]) = U ''{\"a\":\"q\",\"b\":10}''"
    by (simp add: listed_entries_def own_entries_def index_key_def counter_syntax_def digit_def U_def
        quote_def quote_unit_def surrogate_defs int_text_def)
  moreover have "listed True (JObj [(U ''b'', JInt 10), (U ''a'', S ''q'')]) = JObj [(U ''a'', S ''q''), (U ''b'', JInt 10)]"
    by (simp add: listed_entries_def own_entries_def index_key_def counter_syntax_def digit_def U_def)
  ultimately show ?thesis
    using decode_encode [of "JObj [(U ''b'', JInt 10), (U ''a'', S ''q'')]" True]
    by (simp add: codec_eval)
qed

text \<open>
  Bytes are accepted exactly when they are the UTF-8 encoding of a text that is accepted, with the
  same value: the two entry points of the decoder agree, and ill-formed UTF-8 is never repaired.
\<close>

theorem decode_bytes_as_text:
  "decodeStrictJson (BytesInput bs) = Inr v \<longleftrightarrow>
   (\<exists>s. units s \<and> text_encode s = bs \<and> decodeStrictJson (TextInput s) = Inr v)"
proof
  assume "decodeStrictJson (BytesInput bs) = Inr v"
  then obtain s where s: "length bs \<le> MAX_WIRE_BYTES" "text_decode bs = Some s" "parse_document s = Inr v"
    by (auto simp: decode_bytes_iff)
  show "\<exists>s. units s \<and> text_encode s = bs \<and> decodeStrictJson (TextInput s) = Inr v"
    using s text_decode_sound [OF s(2)] by (intro exI [of _ s]) (auto simp: decode_text_iff)
next
  assume "\<exists>s. units s \<and> text_encode s = bs \<and> decodeStrictJson (TextInput s) = Inr v"
  then show "decodeStrictJson (BytesInput bs) = Inr v"
    using text_decode_encode by (auto simp: decode_text_iff decode_bytes_iff)
qed

text \<open>
  C3: The decoder always ends, and when it refuses an input it does so with one of its eleven codes:
  the recursion never needs more turns than twice the length of the text and two.
\<close>

theorem decode_total:
  "case decodeStrictJson input of
     Inr v \<Rightarrow> True
   | Inl e \<Rightarrow> \<exists>c \<in> wire_codes. e = WireInputError c"
  using parse_document_error
  by (auto simp: decodeStrictJson_def wire_codes_def split: sum.splits wire_input.splits option.splits if_splits)

end
