(* ===== verification/Transcript.thy ===== *)
theory Transcript imports Canonical begin

text \<open>
  The transcript checker of \<^verbatim>\<open>contracts/codec/transcript.mjs\<close>: the state its inner functions share,
  the comparison of captured semantics, the observation of operations, the matching of a
  preparation with its plan, the close dispositions, and the three kinds of step (boundary,
  exchange, event).

  The closure variables are the fields of \<open>checker\<close>; \<^verbatim>\<open>index\<close> is the argument \<open>i\<close>. A \<^verbatim>\<open>Map\<close> or
  \<^verbatim>\<open>Set\<close> is an insertion-ordered association list or list. Its keys are compared by value: the
  source requires schema-checked messages, where every such key is a string. A read on
  \<^verbatim>\<open>undefined\<close> or \<^verbatim>\<open>null\<close> is a \<open>TypeError\<close>, as in the source.
\<close>

section \<open>State\<close>

definition MAX_TRANSCRIPT_STEPS :: nat where
  "MAX_TRANSCRIPT_STEPS = 4096"

record admission =
  a_input :: ustr
  a_operationId :: jv

record summary =
  boundaryCount :: nat
  exchangeCount :: nat
  eventCount :: nat
  operationCount :: nat
  lostReplyCount :: nat

record checker =
  cursor :: jv
  epochs :: "jv list"
  streamSequences :: "(ustr \<times> int) list"
  plans :: "(jv \<times> jv) list"
  consumedPlans :: "jv list"
  closingEpochs :: "jv list"
  operations :: "(jv \<times> jv) list"
  admissions :: "(jv \<times> admission) list"
  summ :: summary

definition initial_checker :: checker where
  "initial_checker = \<lparr>cursor = JUndef, epochs = [], streamSequences = [], plans = [], consumedPlans = [],
     closingEpochs = [], operations = [], admissions = [],
     summ = \<lparr>boundaryCount = 0, exchangeCount = 0, eventCount = 0, operationCount = 0, lostReplyCount = 0\<rparr>\<rparr>"

section \<open>Checks on one value\<close>

definition reject :: "int \<Rightarrow> string \<Rightarrow> 'a res" where
  "reject i code = Inl (TranscriptError code i)"

text \<open>\<^verbatim>\<open>if (condition) reject(code)\<close>, for a condition that may itself throw.\<close>

definition rejectWhen :: "int \<Rightarrow> bool res \<Rightarrow> string \<Rightarrow> unit res" where
  "rejectWhen i c code = rejectIf c (TranscriptError code i)"

definition exact :: "int \<Rightarrow> jv \<Rightarrow> string list \<Rightarrow> string list \<Rightarrow> unit res" where
  "exact i value required optional =
     rejectWhen i (Inr (\<not> is_object value \<or> (\<exists>key \<in> set required. \<not> own value key)
        \<or> (\<exists>key \<in> fst ` set (obj_entries value). key \<notin> U ` set required \<and> key \<notin> U ` set optional)))
      ''transcript_step_shape''"

definition counter :: "int \<Rightarrow> jv \<Rightarrow> int res" where
  "counter i value =
     (case value of
        JStr s \<Rightarrow> if counter_syntax s \<and> digits_value s \<le> U64_MAX then Inr (digits_value s)
                  else reject i ''transcript_counter''
      | _ \<Rightarrow> reject i ''transcript_counter'')"

definition equal :: "int \<Rightarrow> jv \<Rightarrow> jv \<Rightarrow> bool res" where
  "equal i left right =
     bindE (canonical i 0 left) (\<lambda>l. bindE (canonical i 0 right) (\<lambda>r. Inr (l = r)))"

definition cursorShape :: "int \<Rightarrow> jv \<Rightarrow> unit res" where
  "cursorShape i value =
     thenE (exact i value [''hostEpoch'', ''streamId'', ''sequence''] [])
    (thenE (rejectWhen i (Inr (\<not> is_string (fld value ''hostEpoch'') \<or> \<not> truthy (fld value ''hostEpoch'')
              \<or> \<not> is_string (fld value ''streamId'') \<or> \<not> truthy (fld value ''streamId''))) ''transcript_cursor'')
    (thenE (counter i (fld value ''sequence'')) (Inr ())))"

definition streamKey :: "int \<Rightarrow> jv \<Rightarrow> ustr res" where
  "streamKey i value =
     bindE (getp value ''hostEpoch'') (\<lambda>h. bindE (getp value ''streamId'') (\<lambda>s. canonical i 0 (JArr [h, s])))"

text \<open>\<^verbatim>\<open>v.k === literal\<close> and \<^verbatim>\<open>a === b\<close> on values read from objects that may be absent.\<close>

definition hasS :: "jv \<Rightarrow> string \<Rightarrow> string \<Rightarrow> bool res" where
  "hasS v k s = bindE (getp v k) (\<lambda>x. Inr (x = S s))"

definition notS :: "jv \<Rightarrow> string \<Rightarrow> string \<Rightarrow> bool res" where
  "notS v k s = bindE (getp v k) (\<lambda>x. Inr (x \<noteq> S s))"

definition differ :: "jv res \<Rightarrow> jv res \<Rightarrow> bool res" where
  "differ a b = bindE a (\<lambda>x. bindE b (\<lambda>y. Inr (\<not> strict_eq x y)))"

definition notE :: "bool res \<Rightarrow> bool res" where
  "notE a = bindE a (\<lambda>x. Inr (\<not> x))"

section \<open>Captured semantics\<close>

text \<open>The text by which \<^verbatim>\<open>sort\<close> without a comparison function orders, and by which a value is a key.\<close>

fun to_text :: "jv \<Rightarrow> ustr" where
  "to_text (JStr s) = s"
| "to_text (JInt n) = int_text n"
| "to_text (JBool b) = (if b then U ''true'' else U ''false'')"
| "to_text JNull = U ''null''"
| "to_text JUndef = U ''undefined''"
| "to_text JNegZero = [48]"
| "to_text JNaN = U ''NaN''"
| "to_text (JReal _) = []"
| "to_text (JArr vs) = join (map (\<lambda>v. if nullish v then [] else to_text v) vs)"
| "to_text (JObj _) = U ''[object Object]''"

definition semanticsNormalized :: "jv \<Rightarrow> jv res" where
  "semanticsNormalized semantics =
     bindE (getp semantics ''effects'') (\<lambda>effects. bindE (iterate effects) (\<lambda>items.
     let normalized = JObj (AList.update (U ''effects'') (JArr (sort_key to_text items)) (spread semantics)) in
     bindE (getps semantics [''capture'', ''kind'']) (\<lambda>kind.
     if kind = S ''restore_configuration'' then
       bindE (getps semantics [''capture'', ''input'', ''backup'']) (\<lambda>b.
       bindE (getp semantics ''capture'') (\<lambda>capture. bindE (getp capture ''input'') (\<lambda>inp.
       let backup = JObj (AList.delete (U ''createdAt'') (spread b));
           input' = JObj (AList.update (U ''backup'') backup (spread inp));
           capture' = JObj (AList.update (U ''input'') input' (spread capture))
       in Inr (obj_put normalized ''capture'' capture'))))
     else Inr normalized)))"

definition semanticsEqual :: "int \<Rightarrow> jv \<Rightarrow> jv \<Rightarrow> bool res" where
  "semanticsEqual i left right =
     bindE (semanticsNormalized left) (\<lambda>l. bindE (semanticsNormalized right) (\<lambda>r. equal i l r))"

definition withNormalizedSemantics :: "jv \<Rightarrow> jv res" where
  "withNormalizedSemantics value =
     bindE (getp value ''semantics'') (\<lambda>semantics. bindE (semanticsNormalized semantics) (\<lambda>n.
     Inr (JObj (AList.update (U ''semantics'') n (spread value)))))"

definition equalNormalized :: "int \<Rightarrow> jv \<Rightarrow> jv \<Rightarrow> bool res" where
  "equalNormalized i left right =
     bindE (withNormalizedSemantics left) (\<lambda>l. bindE (withNormalizedSemantics right) (\<lambda>r. equal i l r))"

section \<open>Operations\<close>

definition observeOperation :: "int \<Rightarrow> jv \<Rightarrow> checker \<Rightarrow> checker res" where
  "observeOperation i operation st =
     thenE (rejectWhen i (Inr (\<not> is_object operation \<or> \<not> is_string (fld operation ''operationId'')
              \<or> \<not> is_object (fld operation ''semantics'') \<or> \<not> is_object (fld operation ''state''))) ''transcript_operation'')
    (bindE (counter i (fld operation ''operationRevision'')) (\<lambda>revision.
     thenE
       (case map_of (operations st) (fld operation ''operationId'') of
          None \<Rightarrow> Inr ()
        | Some previous \<Rightarrow>
            thenE (rejectWhen i (notE (semanticsEqual i (fld previous ''semantics'') (fld operation ''semantics'')))
                    ''transcript_capture_changed'')
           (bindE (counter i (fld previous ''operationRevision'')) (\<lambda>priorRevision.
            thenE (rejectWhen i (Inr (revision < priorRevision)) ''transcript_revision_regressed'')
           (thenE (rejectWhen i (andE (Inr (revision = priorRevision)) (notE (equalNormalized i previous operation)))
                    ''transcript_revision_reused'')
            (rejectWhen i (andE (Inr (path previous [''state'', ''status''] = S ''completed''))
                (notE (equal i (fld previous ''state'') (fld operation ''state''))))
              ''transcript_terminal_changed'')))))
       (Inr (st\<lparr>operations := AList.update (fld operation ''operationId'') operation (operations st)\<rparr>))))"

section \<open>Preparations\<close>

definition matchInstallation :: "int \<Rightarrow> jv \<Rightarrow> jv \<Rightarrow> unit res" where
  "matchInstallation i selector binding =
     rejectWhen i (andE (hasS selector ''kind'' ''registered'')
        (orE (notS binding ''kind'' ''registered'')
        (orE (differ (getp selector ''id'') (getp binding ''registrationId''))
             (andE (Inr (own selector ''revisionAssertion''))
                   (differ (getp selector ''revisionAssertion'') (getp binding ''registrationRevision''))))))
      ''transcript_prepare_target''"

definition matchTarget :: "int \<Rightarrow> jv \<Rightarrow> jv \<Rightarrow> unit res" where
  "matchTarget i selector binding =
     bindE (getp selector ''installation'') (\<lambda>si. bindE (getp binding ''installation'') (\<lambda>bi.
     thenE (matchInstallation i si bi)
    (bindE (getp selector ''profile'') (\<lambda>requested. bindE (getp binding ''profile'') (\<lambda>captured.
     thenE (rejectWhen i (differ (getp requested ''kind'') (getp captured ''kind'')) ''transcript_prepare_target'')
    (thenE (rejectWhen i (andE (hasS requested ''kind'' ''isolated'')
              (orE (differ (getp requested ''id'') (getp captured ''id''))
                   (andE (Inr (own requested ''revisionAssertion''))
                         (differ (getp requested ''revisionAssertion'') (getp captured ''revision'')))))
            ''transcript_prepare_target'')
     (rejectWhen i (andE (hasS requested ''kind'' ''ordinary'')
              (andE (Inr (own requested ''catalogIdAssertion''))
                    (differ (getp requested ''catalogIdAssertion'') (getp captured ''ordinaryId''))))
            ''transcript_prepare_target'')))))))"

definition matchPreparation :: "int \<Rightarrow> jv \<Rightarrow> jv \<Rightarrow> unit res" where
  "matchPreparation i intent semantics =
     bindE (getp intent ''input'') (\<lambda>inp. bindE (getp semantics ''capture'') (\<lambda>capture.
     bindE (getp intent ''kind'') (\<lambda>kind.
     thenE (rejectWhen i (orE (differ (getp semantics ''action'') (Inr kind)) (differ (getp capture ''kind'') (Inr kind)))
             ''transcript_prepare_action'')
    (if one_of kind [''launch_ordinary'', ''launch_isolated''] then
       bindE (getp inp ''target'') (\<lambda>it. bindE (getp capture ''target'') (\<lambda>ct.
       thenE (matchTarget i it ct)
      (thenE (rejectWhen i (differ
                (bindE (getp inp ''unrecognizedRuntimeChoice'') (\<lambda>x. Inr (coalesce x (S ''reject''))))
                (bindE (getp capture ''unrecognizedRuntimeChoice'') (\<lambda>x. Inr (coalesce x (S ''reject'')))))
              ''transcript_prepare_choice'')
      (thenE (rejectWhen i (andE (bindE (getps capture [''runtime'', ''kind'']) (\<lambda>k. Inr (k = S ''unrecognized'')))
                (differ (getps capture [''runtime'', ''choice''])
                        (bindE (getp inp ''unrecognizedRuntimeChoice'') (\<lambda>x. Inr (coalesce x (S ''reject''))))))
              ''transcript_prepare_choice'')
       (rejectWhen i (andE (Inr (kind = S ''launch_isolated'')) (differ (getp inp ''storeMode'') (getp capture ''storeMode'')))
              ''transcript_prepare_store_mode'')))))
     else if kind = S ''focus_session'' then
       bindE (getp inp ''session'') (\<lambda>x. bindE (getp capture ''session'') (\<lambda>y.
       rejectWhen i (notE (equal i x y)) ''transcript_prepare_session''))
     else if kind = S ''create_profile'' then
       bindE (getp capture ''input'') (\<lambda>captured.
       thenE (rejectWhen i (orE (differ (getp inp ''name'') (getp captured ''name''))
                (orE (bindE (getp inp ''setup'') (\<lambda>x. bindE (getp captured ''setup'') (\<lambda>y. notE (equal i x y))))
                     (differ (getp inp ''expectedCatalogRevision'') (getp captured ''catalogRevision''))))
              ''transcript_prepare_input'')
      (bindE (getp inp ''preferredInstallation'') (\<lambda>x. bindE (getp captured ''preferredInstallation'') (\<lambda>y.
       matchInstallation i x y))))
     else if kind = S ''register_installation'' then
       rejectWhen i (orE (differ (getp inp ''name'') (getps capture [''input'', ''name'']))
           (differ (getp inp ''expectedCatalogRevision'') (getps capture [''input'', ''catalogRevision''])))
         ''transcript_prepare_input''
     else if kind = S ''save_configuration'' then
       bindE (getp inp ''draft'') (\<lambda>x. bindE (getps capture [''input'', ''draft'', ''draft'']) (\<lambda>y.
       rejectWhen i (notE (equal i x y)) ''transcript_prepare_input''))
     else
       bindE (getp capture ''input'') (\<lambda>y. rejectWhen i (notE (equal i inp y)) ''transcript_prepare_input'')))))"

section \<open>Closing the host\<close>

definition status_of :: "jv \<Rightarrow> jv" where
  "status_of operation = path operation [''state'', ''status'']"

definition pending :: "checker \<Rightarrow> jv list" where
  "pending st = filter (\<lambda>operation. status_of operation \<noteq> S ''completed'') (map snd (operations st))"

text \<open>One turn of the loop over the obligations, with the operations and the sessions covered so far.\<close>

definition closeObligation :: "int \<Rightarrow> checker \<Rightarrow> jv list \<times> ustr list \<Rightarrow> jv \<Rightarrow> (jv list \<times> ustr list) res" where
  "closeObligation i st = (\<lambda>(covered, custody) obligation.
     bindE (getp obligation ''kind'') (\<lambda>kind.
     if kind = S ''operation'' then
       let oid = fld obligation ''operationId'' in
       thenE (rejectWhen i (Inr (oid \<in> set covered)) ''transcript_close_obligations'')
      (thenE (rejectWhen i (Inr (case map_of (operations st) oid of None \<Rightarrow> False | Some operation \<Rightarrow>
                 status_of operation = S ''completed''
                 \<or> \<not> strict_eq (fld operation ''operationRevision'') (fld obligation ''operationRevision'')))
               ''transcript_close_obligations'')
       (Inr (set_add oid covered, custody)))
     else if kind = S ''session_custody'' then
       bindE (canonical i 0 (fld obligation ''session'')) (\<lambda>identity.
       thenE (rejectWhen i (Inr (identity \<in> set custody)) ''transcript_close_obligations'')
       (Inr (covered, set_add identity custody)))
     else reject i ''transcript_close_obligations''))"

definition closeRecovery :: "int \<Rightarrow> checker \<Rightarrow> jv list \<Rightarrow> jv \<Rightarrow> jv list res" where
  "closeRecovery i st covered recovery =
     bindE (getp recovery ''operationId'') (\<lambda>oid.
     thenE (rejectWhen i (Inr (oid \<in> set covered)) ''transcript_close_recovery'')
    (thenE (case map_of (operations st) oid of None \<Rightarrow> Inr () | Some operation \<Rightarrow>
              rejectWhen i (orE (Inr (status_of operation \<noteq> S ''recovery_required''))
                 (notE (equal i (path operation [''state'', ''recovery'']) recovery))) ''transcript_close_recovery'')
     (Inr (set_add oid covered))))"

definition checkClose :: "int \<Rightarrow> checker \<Rightarrow> jv \<Rightarrow> unit res" where
  "checkClose i st disposition =
     thenE (rejectWhen i (Inr (\<not> is_object disposition)) ''transcript_close'')
    (if fld disposition ''kind'' = S ''ready'' then
       rejectWhen i (Inr (pending st \<noteq> [])) ''transcript_close_obligations''
     else if fld disposition ''kind'' = S ''deferred'' then
       (case fld disposition ''obligations'' of
          JArr obligations \<Rightarrow>
            thenE (rejectWhen i (Inr (obligations = [])) ''transcript_close_obligations'')
           (bindE (foldE (closeObligation i st) ([], []) obligations) (\<lambda>(covered, custody).
            rejectWhen i (Inr (\<exists>operation \<in> set (pending st). fld operation ''operationId'' \<notin> set covered))
              ''transcript_close_obligations''))
        | _ \<Rightarrow> reject i ''transcript_close_obligations'')
     else if fld disposition ''kind'' = S ''recovery_required'' then
       (case fld disposition ''recoveries'' of
          JArr recoveries \<Rightarrow>
            thenE (rejectWhen i (Inr (recoveries = [])) ''transcript_close_recovery'')
           (bindE (foldE (closeRecovery i st) [] recoveries) (\<lambda>covered.
            rejectWhen i (Inr (\<exists>operation \<in> set (pending st). status_of operation \<noteq> S ''recovery_required''
                 \<or> fld operation ''operationId'' \<notin> set covered)) ''transcript_close_recovery''))
        | _ \<Rightarrow> reject i ''transcript_close_recovery'')
     else reject i ''transcript_close'')"

section \<open>Boundaries\<close>

definition anchor :: "int \<Rightarrow> jv \<Rightarrow> checker \<Rightarrow> checker res" where
  "anchor i next st =
     bindE (streamKey i next) (\<lambda>key. bindE (counter i (fld next ''sequence'')) (\<lambda>sequence.
     Inr (st\<lparr>cursor := next, streamSequences := AList.update key sequence (streamSequences st)\<rparr>)))"

definition boundary :: "int \<Rightarrow> jv \<Rightarrow> checker \<Rightarrow> checker res" where
  "boundary i step st =
     thenE (exact i step [''type'', ''reason'', ''cursor''] [])
    (thenE (cursorShape i (fld step ''cursor''))
    (let next = fld step ''cursor''; reason = fld step ''reason''; host = fld next ''hostEpoch'' in
     bindE
       (if \<not> truthy (cursor st) then
          thenE (rejectWhen i (Inr (reason \<noteq> S ''initial'' \<or> i \<noteq> 0)) ''transcript_boundary'')
          (Inr (st\<lparr>epochs := set_add host (epochs st)\<rparr>))
        else if reason = S ''restart'' then
          thenE (rejectWhen i (Inr (host \<in> set (epochs st) \<or> strict_eq (fld next ''streamId'') (fld (cursor st) ''streamId'')))
                  ''transcript_restart'')
          (Inr (st\<lparr>epochs := set_add host (epochs st)\<rparr>))
        else if one_of reason [''reconnect'', ''resnapshot'', ''retention_gap''] then
          thenE (rejectWhen i (Inr (\<not> strict_eq host (fld (cursor st) ''hostEpoch''))) ''transcript_epoch'')
         (bindE (streamKey i next) (\<lambda>key.
          thenE (case map_of (streamSequences st) key of
                   None \<Rightarrow> Inr ()
                 | Some prior \<Rightarrow> bindE (counter i (fld next ''sequence'')) (\<lambda>sequence.
                     rejectWhen i (Inr (sequence < prior)) ''transcript_sequence_regressed''))
         (thenE (rejectWhen i (Inr (reason = S ''reconnect'' \<and>
                    (\<not> strict_eq (fld next ''streamId'') (fld (cursor st) ''streamId'')
                     \<or> \<not> strict_eq (fld next ''sequence'') (fld (cursor st) ''sequence'')))) ''transcript_reconnect'')
          (Inr st))))
        else reject i ''transcript_boundary'')
     (\<lambda>st1. bindE (anchor i next st1) (\<lambda>st2.
       Inr (st2\<lparr>summ := (summ st2)\<lparr>boundaryCount := boundaryCount (summ st2) + 1\<rparr>\<rparr>)))))"

section \<open>Events\<close>

definition event :: "int \<Rightarrow> jv \<Rightarrow> checker \<Rightarrow> checker res" where
  "event i step st =
     thenE (exact i step [''type'', ''event''] [])
    (let message = fld step ''event''; body = fld message ''body''; next = fld message ''cursor'' in
     thenE (rejectWhen i (Inr (\<not> is_object message \<or> \<not> is_object body)) ''transcript_event'')
    (thenE (cursorShape i next)
    (thenE (rejectWhen i (differ (Inr (fld next ''hostEpoch'')) (getp (cursor st) ''hostEpoch'')) ''transcript_epoch'')
    (thenE (rejectWhen i (differ (Inr (fld next ''streamId'')) (getp (cursor st) ''streamId'')) ''transcript_stream'')
    (bindE (counter i (fld next ''sequence'')) (\<lambda>new. bindE (counter i (fld (cursor st) ''sequence'')) (\<lambda>old.
     thenE (rejectWhen i (Inr (new \<noteq> old + 1)) ''transcript_sequence'')
    (bindE (anchor i next st) (\<lambda>st1.
     bindE
       (if fld body ''type'' = S ''operation_changed'' then observeOperation i (fld body ''operation'') st1
        else if fld body ''type'' = S ''host_close_deferred'' then
          thenE (checkClose i st1 (JObj [(U ''kind'', S ''deferred''), (U ''obligations'', fld body ''obligations'')])) (Inr st1)
        else thenE (rejectWhen i (Inr (\<not> one_of (fld body ''type'') [''snapshot_invalidated'', ''draft_changed''])) ''transcript_event'')
          (Inr st1))
     (\<lambda>st2. Inr (st2\<lparr>summ := (summ st2)\<lparr>eventCount := eventCount (summ st2) + 1\<rparr>\<rparr>)))))))))))"

section \<open>Exchanges\<close>

text \<open>
  What \<^verbatim>\<open>exchange\<close> establishes before it looks at the call: the family, the invocation, whether the
  reply is a refusal and with which code, and the output of a result.
\<close>

record call =
  family :: jv
  invocation :: jv
  rejected :: bool
  errorCode :: jv
  reply_output :: jv

definition open_exchange :: "int \<Rightarrow> jv \<Rightarrow> call res" where
  "open_exchange i step =
     thenE (exact i step [''type'', ''request'', ''reply''] [''delivery''])
    (thenE (rejectWhen i (Inr (own step ''delivery'' \<and> \<not> one_of (fld step ''delivery'') [''received'', ''lost'']))
             ''transcript_delivery'')
    (let request = fld step ''request''; reply = fld step ''reply''; rq = fld request ''body''; rp = fld reply ''body'' in
     thenE (rejectWhen i (Inr (\<not> is_object request \<or> \<not> is_object reply \<or> \<not> is_object rq \<or> \<not> is_object rp))
             ''transcript_exchange'')
    (thenE (rejectWhen i (Inr (\<not> strict_eq (fld request ''requestId'') (fld reply ''requestId'')
              \<or> \<not> strict_eq (fld request ''protocolVersion'') (fld reply ''protocolVersion''))) ''transcript_reply_binding'')
    (let fam = fld rq ''type''; name = (if fam = S ''query'' then ''query'' else ''command''); inv = fld rq name in
     thenE (rejectWhen i (Inr (\<not> one_of fam [''query'', ''command''] \<or> \<not> is_object inv \<or> \<not> is_object (fld inv ''input'')))
             ''transcript_exchange'')
    (let refused = (fld rp ''type'' = S ''rejected'') in
     if refused then
       Inr \<lparr>family = fam, invocation = inv, rejected = True, errorCode = fld (fld rp ''error'') ''code'', reply_output = JUndef\<rparr>
     else
       let result = fld rp ''result'' in
       thenE (rejectWhen i (Inr (fld rp ''type'' \<noteq> S ''result'' \<or> \<not> is_object result
                \<or> \<not> strict_eq (fld result ''type'') fam
                \<or> \<not> strict_eq (fld (fld result name) ''name'') (fld inv ''name''))) ''transcript_result_variant'')
      (bindE (getp (fld result name) ''output'') (\<lambda>out.
       thenE (rejectWhen i (Inr (\<not> is_object out \<and> \<not> is_array out)) ''transcript_exchange'')
       (Inr \<lparr>family = fam, invocation = inv, rejected = False, errorCode = JUndef, reply_output = out\<rparr>))))))))"

definition commit_exchange :: "int \<Rightarrow> call \<Rightarrow> checker \<Rightarrow> checker res" where
  "commit_exchange i c st =
     (let inp = fld (invocation c) ''input''; plan_ref = fld inp ''planRef''; plan_id = fld plan_ref ''planId'';
          key = fld inp ''idempotencyKey''; refused = rejected c; code = errorCode c; out = reply_output c in
     thenE (rejectWhen i (Inr (\<not> is_object plan_ref \<or> \<not> is_string key)) ''transcript_commit'')
    (bindE (canonical i 0 inp) (\<lambda>identity.
     case map_of (admissions st) key of
       Some admitted \<Rightarrow>
         if identity \<noteq> a_input admitted then
           thenE (rejectWhen i (Inr (\<not> refused \<or> code \<noteq> S ''idempotency_conflict'')) ''transcript_idempotency_conflict'') (Inr st)
         else if refused then
           thenE (rejectWhen i (Inr (code \<noteq> S ''persistence_failed'')) ''transcript_replay_operation'') (Inr st)
         else
           thenE (rejectWhen i (Inr (\<not> strict_eq (fld out ''operationId'') (a_operationId admitted))) ''transcript_replay_operation'')
           (observeOperation i out st)
     | None \<Rightarrow>
         if refused \<and> code = S ''persistence_failed'' then Inr st
         else if fld (cursor st) ''hostEpoch'' \<in> set (closingEpochs st) then
           thenE (rejectWhen i (Inr (\<not> refused \<or> code \<noteq> S ''operation_busy'')) ''transcript_closed_host_commit'') (Inr st)
         else if \<not> strict_eq (fld plan_ref ''hostEpoch'') (fld (cursor st) ''hostEpoch'') then
           thenE (rejectWhen i (Inr (\<not> refused \<or> code \<noteq> S ''plan_host_mismatch'')) ''transcript_old_host_plan'') (Inr st)
         else if plan_id \<in> set (consumedPlans st) then
           thenE (rejectWhen i (Inr (\<not> refused \<or> code \<noteq> S ''plan_expired'')) ''transcript_consumed_plan'') (Inr st)
         else if \<not> refused then
           (case map_of (plans st) plan_id of
              None \<Rightarrow> reject i ''transcript_unobserved_plan''
            | Some plan \<Rightarrow>
                thenE (rejectWhen i (notE (equal i (fld plan ''planRef'') plan_ref)) ''transcript_unobserved_plan'')
               (thenE (rejectWhen i (notE (semanticsEqual i (fld plan ''semantics'') (fld out ''semantics''))) ''transcript_capture_changed'')
               (bindE (observeOperation i out st) (\<lambda>st1.
                Inr (st1\<lparr>admissions := AList.update key \<lparr>a_input = identity, a_operationId = fld out ''operationId''\<rparr> (admissions st1),
                         consumedPlans := set_add plan_id (consumedPlans st1)\<rparr>)))))
         else if code = S ''idempotency_conflict'' then reject i ''transcript_unobserved_admission''
         else Inr st)))"

definition prepare_exchange :: "int \<Rightarrow> call \<Rightarrow> checker \<Rightarrow> checker res" where
  "prepare_exchange i c st =
     (let out = reply_output c; plan_ref = fld out ''planRef'' in
     thenE (rejectWhen i (Inr (\<not> is_object plan_ref \<or> \<not> is_object (fld out ''semantics'')
              \<or> \<not> strict_eq (fld plan_ref ''hostEpoch'') (fld (cursor st) ''hostEpoch''))) ''transcript_plan_binding'')
    (thenE (matchPreparation i (path (invocation c) [''input'', ''intent'']) (fld out ''semantics''))
    (thenE (case map_of (plans st) (fld plan_ref ''planId'') of
              None \<Rightarrow> Inr ()
            | Some prior \<Rightarrow> rejectWhen i (notE (equalNormalized i prior out)) ''transcript_plan_changed'')
     (Inr (st\<lparr>plans := AList.update (fld plan_ref ''planId'') out (plans st)\<rparr>)))))"

definition get_operation_exchange :: "int \<Rightarrow> call \<Rightarrow> checker \<Rightarrow> checker res" where
  "get_operation_exchange i c st =
     (let observation = fld (reply_output c) ''operation''; wanted = path (invocation c) [''input'', ''operationId''] in
     thenE (rejectWhen i (Inr (\<not> is_object observation)) ''transcript_operation'')
    (if fld observation ''status'' = S ''observed'' then
       thenE (rejectWhen i (Inr (\<not> strict_eq (path observation [''value'', ''operationId'']) wanted)) ''transcript_operation_binding'')
       (observeOperation i (fld observation ''value'') st)
     else
       thenE (rejectWhen i (Inr (fld observation ''status'' = S ''missing''
                \<and> (\<exists>a \<in> snd ` set (admissions st). strict_eq (a_operationId a) wanted))) ''transcript_admitted_operation_missing'')
       (Inr st)))"

definition get_draft_exchange :: "int \<Rightarrow> call \<Rightarrow> checker \<Rightarrow> checker res" where
  "get_draft_exchange i c st =
     (let out = reply_output c; inp = fld (invocation c) ''input''; at = fld out ''cursor''; draft = fld out ''draft'' in
     thenE (cursorShape i at)
    (thenE (rejectWhen i (Inr (\<not> strict_eq (fld at ''hostEpoch'') (fld inp ''hostEpoch'')
              \<or> \<not> strict_eq (fld at ''hostEpoch'') (fld (cursor st) ''hostEpoch'')
              \<or> \<not> strict_eq (fld at ''streamId'') (fld (cursor st) ''streamId'') \<or> \<not> is_object draft)) ''transcript_draft_binding'')
    (thenE (rejectWhen i (Inr (fld draft ''status'' = S ''observed'' \<and>
              (\<not> strict_eq (path draft [''value'', ''draft'', ''draftId'']) (fld inp ''draftId'')
               \<or> \<not> strict_eq (path draft [''value'', ''draft'', ''hostEpoch'']) (fld inp ''hostEpoch'')))) ''transcript_draft_binding'')
     (Inr st))))"

definition snapshot_exchange :: "int \<Rightarrow> call \<Rightarrow> checker \<Rightarrow> checker res" where
  "snapshot_exchange i c st =
     (let out = reply_output c in
     thenE (rejectWhen i (notE (equal i (fld out ''cursor'') (cursor st))) ''transcript_snapshot_cursor'')
    (bindE (getp (fld out ''operations'') ''completeness'') (\<lambda>completeness. bindE (getp (fld out ''operations'') ''items'') (\<lambda>items.
     thenE
       (if completeness = S ''complete'' then
          (case items of
             JArr ops \<Rightarrow>
               bindE (mapE (\<lambda>operation. getp operation ''operationId'') ops) (\<lambda>included.
               rejectWhen i (Inr (\<exists>known \<in> set (pending st). fld known ''operationId'' \<notin> set included))
                 ''transcript_snapshot_operation_missing'')
           | _ \<Rightarrow> Inl TypeError)
        else Inr ())
     (bindE (iterate items) (\<lambda>ops. foldE (\<lambda>st operation. observeOperation i operation st) st ops))))))"

definition length_number :: "jv \<Rightarrow> int res" where
  "length_number v = (case v of JInt n \<Rightarrow> Inr n | _ \<Rightarrow> Inl TypeError)"

definition resume_events_exchange :: "int \<Rightarrow> call \<Rightarrow> checker \<Rightarrow> checker res" where
  "resume_events_exchange i c st =
     (let out = reply_output c; inp = fld (invocation c) ''input'' in
     thenE (rejectWhen i (orE (notE (equal i (fld inp ''after'') (cursor st))) (notE (equal i (fld out ''after'') (cursor st))))
             ''transcript_resume_cursor'')
    (bindE (getp (fld out ''events'') ''length'') (\<lambda>l. bindE (length_number l) (\<lambda>n. bindE (counter i (fld inp ''maximumEvents'')) (\<lambda>maximum.
     thenE (rejectWhen i (Inr (n > maximum)) ''transcript_resume_limit'')
    (bindE (iterate (fld out ''events'')) (\<lambda>events.
     bindE (foldE (\<lambda>st message. event i (JObj [(U ''type'', S ''event''), (U ''event'', message)]) st) st events) (\<lambda>st1.
     thenE (rejectWhen i (notE (equal i (fld out ''next'') (cursor st1))) ''transcript_resume_cursor'')
     (Inr st1)))))))))"

definition cancel_disposition :: "jv \<Rightarrow> jv \<Rightarrow> jv \<Rightarrow> bool" where
  "cancel_disposition kind status outcome =
     (let k = to_text kind in
      if k = U ''requested'' then status = S ''cancellation_requested''
      else if k = U ''cancelled_before_commit'' then status = S ''completed'' \<and> outcome = S ''cancelled_before_commit''
      else if k = U ''too_late'' then status = S ''running'' \<or> status = S ''completed'' \<and> one_of outcome [''changed'', ''no_change'']
      else if k = U ''already_terminal'' then status = S ''completed''
      else if k = U ''recovery_required'' then status = S ''recovery_required''
      else k \<in> U ` {''constructor'', ''hasOwnProperty'', ''isPrototypeOf'', ''propertyIsEnumerable'', ''toLocaleString'',
        ''toString'', ''valueOf'', ''__proto__'', ''__defineGetter__'', ''__defineSetter__'', ''__lookupGetter__'',
        ''__lookupSetter__''})"

definition cancel_exchange :: "int \<Rightarrow> call \<Rightarrow> checker \<Rightarrow> checker res" where
  "cancel_exchange i c st =
     (let out = reply_output c; inp = fld (invocation c) ''input''; operation = fld out ''operation''; expected = fld inp ''expectedOperationRevision'' in
     thenE (rejectWhen i (Inr (\<not> strict_eq (fld operation ''operationId'') (fld inp ''operationId''))) ''transcript_operation_binding'')
    (thenE (rejectWhen i (Inr (case map_of (operations st) (fld inp ''operationId'') of None \<Rightarrow> False
              | Some prior \<Rightarrow> \<not> strict_eq (fld prior ''operationRevision'') expected)) ''transcript_cancel_revision'')
    (bindE (getp operation ''operationRevision'') (\<lambda>r. bindE (counter i r) (\<lambda>revision. bindE (counter i expected) (\<lambda>floor.
     thenE (rejectWhen i (Inr (revision < floor)) ''transcript_cancel_revision'')
    (bindE (getps operation [''state'', ''status'']) (\<lambda>status. bindE (getps operation [''state'', ''outcome'']) (\<lambda>outcome.
     thenE (rejectWhen i (Inr (\<not> cancel_disposition (fld out ''kind'') status (fld outcome ''kind''))) ''transcript_cancel_disposition'')
     (observeOperation i operation st))))))))))"

definition close_exchange :: "int \<Rightarrow> call \<Rightarrow> checker \<Rightarrow> checker res" where
  "close_exchange i c st =
     thenE (rejectWhen i (notE (equal i (path (invocation c) [''input'', ''expectedCursor'']) (cursor st))) ''transcript_close_cursor'')
    (thenE (checkClose i st (reply_output c))
     (Inr (st\<lparr>closingEpochs := set_add (fld (cursor st) ''hostEpoch'') (closingEpochs st)\<rparr>)))"

definition echo_exchange :: "int \<Rightarrow> string \<Rightarrow> call \<Rightarrow> checker \<Rightarrow> checker res" where
  "echo_exchange i code c st =
     thenE (rejectWhen i (notE (equal i (fld (invocation c) ''input'') (fld (reply_output c) ''binding''))) code) (Inr st)"

text \<open>The chain of cases over the family and the name of the call.\<close>

definition dispatch :: "int \<Rightarrow> call \<Rightarrow> checker \<Rightarrow> checker res" where
  "dispatch i c st =
     (let command = (family c = S ''command''); query = (family c = S ''query''); ok = (\<not> rejected c); name = fld (invocation c) ''name'' in
      if command \<and> name = S ''commit'' then commit_exchange i c st
      else if ok \<and> command \<and> name = S ''prepare'' then prepare_exchange i c st
      else if ok \<and> query \<and> name = S ''hello'' then
        thenE (rejectWhen i (Inr (\<not> strict_eq (fld (reply_output c) ''hostEpoch'') (fld (cursor st) ''hostEpoch''))) ''transcript_epoch'') (Inr st)
      else if ok \<and> query \<and> name = S ''get_operation'' then get_operation_exchange i c st
      else if ok \<and> query \<and> name = S ''get_draft'' then get_draft_exchange i c st
      else if ok \<and> query \<and> name = S ''snapshot'' then snapshot_exchange i c st
      else if ok \<and> query \<and> name = S ''resume_events'' then resume_events_exchange i c st
      else if ok \<and> command \<and> name = S ''request_sensitive_input'' then echo_exchange i ''transcript_sensitive_input_binding'' c st
      else if ok \<and> command \<and> name = S ''request_export_destination'' then echo_exchange i ''transcript_export_destination_binding'' c st
      else if ok \<and> command \<and> name = S ''cancel_operation'' then cancel_exchange i c st
      else if ok \<and> command \<and> name = S ''request_host_close'' then close_exchange i c st
      else Inr st)"

definition exchange :: "int \<Rightarrow> jv \<Rightarrow> checker \<Rightarrow> checker res" where
  "exchange i step st =
     bindE (open_exchange i step) (\<lambda>c. bindE (dispatch i c st) (\<lambda>st1.
     let s = summ st1; lost = (fld step ''delivery'' = S ''lost'') in
     Inr (st1\<lparr>summ := s\<lparr>exchangeCount := exchangeCount s + 1,
                        lostReplyCount := lostReplyCount s + (if lost then 1 else 0)\<rparr>\<rparr>)))"

section \<open>The checker\<close>

definition check_step :: "checker \<Rightarrow> nat \<times> jv \<Rightarrow> checker res" where
  "check_step st = (\<lambda>(position, step). let i = int position in
     thenE (rejectWhen i (Inr (\<not> is_object step)) ''transcript_step_shape'')
    (thenE (canonical i 0 step)
    (if fld step ''type'' = S ''boundary'' then boundary i step st
     else
       thenE (rejectWhen i (Inr (\<not> truthy (cursor st))) ''transcript_boundary'')
      (if fld step ''type'' = S ''exchange'' then exchange i step st
       else if fld step ''type'' = S ''event'' then event i step st
       else reject i ''transcript_step_type''))))"

definition run_steps :: "checker \<Rightarrow> (nat \<times> jv) list \<Rightarrow> checker res" where
  "run_steps = foldE check_step"

definition checkTranscript :: "jv \<Rightarrow> summary res" where
  "checkTranscript steps =
     (case steps of
        JArr xs \<Rightarrow>
          thenE (rejectWhen (- 1) (Inr (xs = [] \<or> length xs > MAX_TRANSCRIPT_STEPS)) ''transcript_steps'')
         (bindE (run_steps initial_checker (enumerate 0 xs)) (\<lambda>st.
          Inr ((summ st)\<lparr>operationCount := length (operations st)\<rparr>)))
      | _ \<Rightarrow> reject (- 1) ''transcript_steps'')"

end
