(* ===== verification/Transcript_Moves.thy ===== *)
theory Transcript_Moves imports Transcript begin

text \<open>
  The abstract machine behind the transcript checker. A \<open>move\<close> is one guarded change of the
  checker's state (an observation of an operation, an event, a boundary, a plan, an admission, a
  close, a count). Every accepted step of the checker is a sequence of moves
  (\<open>check_step_moves\<close>), so a safety property of transcripts is an invariant of single moves.
\<close>

section \<open>Successful checks\<close>

lemma rejectWhen_Inr [res_simps]: "rejectWhen i c code = Inr x \<longleftrightarrow> c = Inr False"
  by (simp add: rejectWhen_def res_simps)

lemma reject_Inr [simp]: "reject i code \<noteq> Inr x"
  by (simp add: reject_def)

lemma notE_False [res_simps]: "notE a = Inr False \<longleftrightarrow> a = Inr True"
  by (auto simp: notE_def res_simps)

lemma differ_False [res_simps]:
  "differ a b = Inr False \<longleftrightarrow> (\<exists>x y. a = Inr x \<and> b = Inr y \<and> strict_eq x y)"
  by (auto simp: differ_def res_simps)

lemma canonical_index: "canonical i d v = Inr t \<Longrightarrow> canonical j d v = Inr t"
proof (induction v arbitrary: d t)
  case (JArr vs)
  then obtain ts where ts: "\<not> d > 40" "list_all2 (\<lambda>v u. canonical i (d + 1) v = Inr u) vs ts" "t = 91 # join ts @ [93]"
    unfolding canonical_JArr_Inr by blast
  have "list_all2 (\<lambda>v u. canonical j (d + 1) v = Inr u) vs ts"
    using list_all2_mono [OF ts(2)] JArr.IH ts(2) by (auto simp: list_all2_conv_all_nth)
  then show ?case unfolding canonical_JArr_Inr using ts by blast
next
  case (JObj kvs)
  let ?es = "listed_entries True kvs"
  from JObj.prems obtain ts where
    ts: "\<not> d > 40" "list_all2 (\<lambda>x u. \<exists>t. canonical i (d + 1) (snd x) = Inr t \<and> quote (fst x) @ 58 # t = u) ?es ts"
      "t = 123 # join ts @ [125]"
    unfolding canonical_JObj_Inr by blast
  have "canonical j (d + 1) (snd x) = Inr u" if "x \<in> set ?es" "canonical i (d + 1) (snd x) = Inr u" for x u
    using that JObj.IH [of x "snd x" "d + 1" u] by (simp add: snds.simps)
  then have "list_all2 (\<lambda>x u. \<exists>t. canonical j (d + 1) (snd x) = Inr t \<and> quote (fst x) @ 58 # t = u) ?es ts"
    using ts(2) nth_mem [of _ ?es] unfolding list_all2_conv_all_nth by metis
  then show ?case unfolding canonical_JObj_Inr using ts by blast
qed (auto split: if_splits)

text \<open>
  A data value: what a JSON message is made of, with distinct keys. On data values the comparison
  text determines the value up to the order of members.
\<close>

fun data_value :: "jv \<Rightarrow> bool" where
  "data_value (JArr vs) = (\<forall>v \<in> set vs. data_value v)"
| "data_value (JObj kvs) = (distinct (map fst kvs) \<and> (\<forall>x \<in> set kvs. units (fst x) \<and> data_value (snd x)))"
| "data_value (JStr s) = units s"
| "data_value JNull = True"
| "data_value (JBool _) = True"
| "data_value (JInt _) = True"
| "data_value _ = False"

lemma data_value_plain: "data_value v \<Longrightarrow> plain v"
  by (induction v rule: data_value.induct) auto

lemma data_value_fld: "data_value v \<Longrightarrow> fld v k \<noteq> JUndef \<Longrightarrow> data_value (fld v k)"
  by (cases v) (auto simp: obj_lookup_def dest!: map_of_SomeD split: option.splits if_splits)

lemma data_value_object: "data_value v \<Longrightarrow> is_object (fld v k) \<Longrightarrow> data_value (fld v k)"
  by (rule data_value_fld) auto

lemma listed_JStr: "listed b v = JStr s \<longleftrightarrow> v = JStr s"
  by (cases v) auto

lemma listed_JUndef: "listed b v = JUndef \<longleftrightarrow> v = JUndef"
  by (cases v) auto

lemma map_of_listed: "distinct (map fst kvs) \<Longrightarrow> map_of (listed_entries b kvs) = map_of kvs"
  by (rule map_of_inject_set [THEN iffD2]) auto

lemma fld_listed: "data_value v \<Longrightarrow> is_object v \<Longrightarrow> fld (listed b v) k = listed b (fld v k)"
  by (cases v) (auto simp: obj_lookup_def map_of_map [of "listed b"] map_of_listed split: option.splits)

lemma is_object_listed [simp]: "is_object (listed b v) = is_object v"
  by (cases v) auto

text \<open>Equal texts have equal string fields.\<close>

lemma encodeData_field:
  assumes "encodeData True v = encodeData True w" "data_value v" "data_value w" "is_object v" "is_object w"
  shows "fld v k = JStr s \<longleftrightarrow> fld w k = JStr s"
proof -
  have "listed True v = listed True w"
    using assms encodeData_eq_iff data_value_plain by blast
  then have "listed True (fld v k) = listed True (fld w k)"
    using assms fld_listed by metis
  then show ?thesis by (metis listed_JStr)
qed

lemma equal_True: "equal i v w = Inr True \<Longrightarrow> encodeData True v = encodeData True w"
  by (auto simp: equal_def res_simps dest!: canonical_encodeData)

lemma counter_Inr: "counter i v = Inr n \<longleftrightarrow>
    (\<exists>s. v = JStr s \<and> counter_syntax s \<and> digits_value s \<le> U64_MAX \<and> n = digits_value s)"
  by (cases v) (auto simp: counter_def reject_def)

section \<open>What the checker remembers of an operation\<close>

definition rev_of :: "jv \<Rightarrow> int" where
  "rev_of op = digits_value (str_of (fld op ''operationRevision''))"

definition sem_text :: "jv \<Rightarrow> ustr option" where
  "sem_text op = (case semanticsNormalized (fld op ''semantics'') of Inl _ \<Rightarrow> None | Inr n \<Rightarrow> Some (encodeData True n))"

definition whole_text :: "jv \<Rightarrow> ustr option" where
  "whole_text op = (case withNormalizedSemantics op of Inl _ \<Rightarrow> None | Inr n \<Rightarrow> Some (encodeData True n))"

definition state_text :: "jv \<Rightarrow> ustr" where
  "state_text op = encodeData True (fld op ''state'')"

definition completed :: "jv \<Rightarrow> bool" where
  "completed op \<longleftrightarrow> status_of op = S ''completed''"

definition op_ok :: "jv \<Rightarrow> bool" where
  "op_ok op \<longleftrightarrow> data_value op \<and> is_object op \<and> is_string (fld op ''operationId'') \<and> is_object (fld op ''semantics'')
     \<and> is_object (fld op ''state'') \<and> (\<exists>n. counter 0 (fld op ''operationRevision'') = Inr n)"

text \<open>How a later observation of one operation relates to an earlier one.\<close>

definition op_le :: "jv \<Rightarrow> jv \<Rightarrow> bool" where
  "op_le p q \<longleftrightarrow> sem_text p = sem_text q \<and> rev_of p \<le> rev_of q
     \<and> (rev_of p = rev_of q \<longrightarrow> whole_text p = whole_text q)
     \<and> (completed p \<longrightarrow> state_text p = state_text q)"

lemma op_le_refl [simp]: "op_le p p"
  by (simp add: op_le_def)

lemma completed_state_text:
  assumes "op_ok p" "op_ok q" "state_text p = state_text q"
  shows "completed p \<longleftrightarrow> completed q"
proof -
  have "data_value (fld p ''state'')" "data_value (fld q ''state'')"
    using assms(1,2) data_value_object by (simp_all add: op_ok_def)
  then have "fld (fld p ''state'') ''status'' = JStr (U ''completed'') \<longleftrightarrow> fld (fld q ''state'') ''status'' = JStr (U ''completed'')"
    using assms by (intro encodeData_field) (simp_all add: op_ok_def state_text_def)
  then show ?thesis by (simp add: completed_def status_of_def)
qed

lemma op_le_trans:
  assumes "op_le p q" "op_le q r" "op_ok p" "op_ok q"
  shows "op_le p r"
proof -
  have "completed p \<Longrightarrow> state_text p = state_text r"
    using assms completed_state_text [of p q] by (simp add: op_le_def)
  moreover have "rev_of p = rev_of r \<Longrightarrow> whole_text p = whole_text r"
    using assms by (simp add: op_le_def)
  ultimately show ?thesis using assms by (simp add: op_le_def)
qed

lemma semanticsEqual_True:
  "semanticsEqual i (fld p ''semantics'') (fld q ''semantics'') = Inr True \<Longrightarrow> sem_text p = sem_text q"
  by (auto simp: semanticsEqual_def res_simps sem_text_def dest: equal_True)

lemma equalNormalized_True: "equalNormalized i p q = Inr True \<Longrightarrow> whole_text p = whole_text q"
  by (auto simp: equalNormalized_def res_simps whole_text_def dest: equal_True)

lemma counter_rev: "counter i (fld op ''operationRevision'') = Inr n \<Longrightarrow> rev_of op = n"
  by (auto simp: counter_Inr rev_of_def str_of_def)

definition opid :: "jv \<Rightarrow> jv" where
  "opid op = fld op ''operationId''"

definition observed :: "jv \<Rightarrow> checker \<Rightarrow> checker" where
  "observed op st = st\<lparr>operations := AList.update (opid op) op (operations st)\<rparr>"

lemma observe_effect:
  assumes "observeOperation i op st = Inr st'" and "data_value op"
  shows "st' = observed op st \<and> op_ok op \<and> (\<forall>p. map_of (operations st) (opid op) = Some p \<longrightarrow> op_le p op)"
proof -
  obtain n where n: "is_object op" "is_string (fld op ''operationId'')" "is_object (fld op ''semantics'')"
    "is_object (fld op ''state'')" "counter i (fld op ''operationRevision'') = Inr n"
    using assms(1) by (auto simp: observeOperation_def res_simps)
  have ok: "op_ok op" using n assms(2) by (auto simp: op_ok_def counter_Inr)
  have st': "st' = observed op st"
    using assms(1) by (auto simp: observeOperation_def observed_def opid_def res_simps)
  have "op_le p op" if p: "map_of (operations st) (opid op) = Some p" for p
  proof -
    from assms(1) n(5) p obtain m where
      e: "semanticsEqual i (fld p ''semantics'') (fld op ''semantics'') = Inr True"
        "counter i (fld p ''operationRevision'') = Inr m" "\<not> n < m"
        "andE (Inr (n = m)) (notE (equalNormalized i p op)) = Inr False"
        "andE (Inr (path p [''state'', ''status''] = S ''completed'')) (notE (equal i (fld p ''state'') (fld op ''state''))) = Inr False"
      by (auto simp: observeOperation_def opid_def res_simps simp del: path.simps)
    have r: "rev_of p = m" "rev_of op = n" using e(2) n(5) counter_rev by auto
    have "n = m \<Longrightarrow> whole_text p = whole_text op"
      using e(4) by (auto simp: res_simps dest: equalNormalized_True)
    moreover have "completed p \<Longrightarrow> state_text p = state_text op"
      using e(5) by (auto simp: completed_def status_of_def state_text_def res_simps dest: equal_True)
    ultimately show ?thesis using semanticsEqual_True [OF e(1)] e(3) r by (auto simp: op_le_def)
  qed
  with st' ok show ?thesis by blast
qed

section \<open>Moves\<close>

definition host_of :: "jv \<Rightarrow> jv" where
  "host_of c = fld c ''hostEpoch''"

definition stream_of :: "jv \<Rightarrow> jv" where
  "stream_of c = fld c ''streamId''"

definition seq_of :: "jv \<Rightarrow> int" where
  "seq_of c = digits_value (str_of (fld c ''sequence''))"

definition key_of :: "jv \<Rightarrow> ustr" where
  "key_of c = encodeData True (JArr [host_of c, stream_of c])"

definition cursor_ok :: "jv \<Rightarrow> bool" where
  "cursor_ok c \<longleftrightarrow> data_value c \<and> is_object c \<and> is_string (host_of c) \<and> is_string (stream_of c)
     \<and> (\<exists>s. fld c ''sequence'' = JStr s \<and> counter_syntax s \<and> digits_value s \<le> U64_MAX)"

definition anchored :: "jv \<Rightarrow> checker \<Rightarrow> checker" where
  "anchored c st = st\<lparr>cursor := c, streamSequences := AList.update (key_of c) (seq_of c) (streamSequences st)\<rparr>"

datatype move =
    Observe jv
  | Advance jv
  | Start jv
  | Restart jv
  | Anchor jv
  | Plan jv
  | Admit jv jv jv
  | Close
  | CountBoundary
  | CountExchange bool
  | CountEvent

inductive micro :: "checker \<Rightarrow> move \<Rightarrow> checker \<Rightarrow> bool" where
  observe: "op_ok op \<Longrightarrow> \<forall>p. map_of (operations st) (opid op) = Some p \<longrightarrow> op_le p op \<Longrightarrow>
    micro st (Observe op) (observed op st)"
| advance: "cursor_ok c \<Longrightarrow> host_of c = host_of (cursor st) \<Longrightarrow> stream_of c = stream_of (cursor st) \<Longrightarrow>
    seq_of c = seq_of (cursor st) + 1 \<Longrightarrow> micro st (Advance c) (anchored c st)"
| start: "cursor_ok c \<Longrightarrow> \<not> truthy (cursor st) \<Longrightarrow>
    micro st (Start c) (anchored c (st\<lparr>epochs := set_add (host_of c) (epochs st)\<rparr>))"
| restart: "cursor_ok c \<Longrightarrow> truthy (cursor st) \<Longrightarrow> host_of c \<notin> set (epochs st) \<Longrightarrow> stream_of c \<noteq> stream_of (cursor st) \<Longrightarrow>
    micro st (Restart c) (anchored c (st\<lparr>epochs := set_add (host_of c) (epochs st)\<rparr>))"
| anchor: "cursor_ok c \<Longrightarrow> truthy (cursor st) \<Longrightarrow> host_of c = host_of (cursor st) \<Longrightarrow>
    \<forall>prior. map_of (streamSequences st) (key_of c) = Some prior \<longrightarrow> prior \<le> seq_of c \<Longrightarrow>
    micro st (Anchor c) (anchored c st)"
| plan: "strict_eq (host_of (fld out ''planRef'')) (host_of (cursor st)) \<Longrightarrow>
    \<forall>prior. map_of (plans st) (path out [''planRef'', ''planId'']) = Some prior \<longrightarrow> whole_text prior = whole_text out \<Longrightarrow>
    micro st (Plan out) (st\<lparr>plans := AList.update (path out [''planRef'', ''planId'']) out (plans st)\<rparr>)"
| admit: "map_of (admissions st) key = None \<Longrightarrow> host_of (cursor st) \<notin> set (closingEpochs st) \<Longrightarrow>
    strict_eq (host_of ref) (host_of (cursor st)) \<Longrightarrow> fld ref ''planId'' \<notin> set (consumedPlans st) \<Longrightarrow>
    map_of (plans st) (fld ref ''planId'') = Some p \<Longrightarrow> encodeData True (fld p ''planRef'') = encodeData True ref \<Longrightarrow>
    sem_text p = sem_text out \<Longrightarrow> map_of (operations st) (opid out) = Some out \<Longrightarrow>
    micro st (Admit key ref out) (st\<lparr>
      admissions := AList.update key \<lparr>a_input = identity, a_operationId = opid out\<rparr> (admissions st),
      consumedPlans := set_add (fld ref ''planId'') (consumedPlans st)\<rparr>)"
| close: "checkClose i st disposition = Inr () \<Longrightarrow>
    micro st Close (st\<lparr>closingEpochs := set_add (host_of (cursor st)) (closingEpochs st)\<rparr>)"
| count_boundary: "micro st CountBoundary (st\<lparr>summ := (summ st)\<lparr>boundaryCount := boundaryCount (summ st) + 1\<rparr>\<rparr>)"
| count_event: "micro st CountEvent (st\<lparr>summ := (summ st)\<lparr>eventCount := eventCount (summ st) + 1\<rparr>\<rparr>)"
| count_exchange: "micro st (CountExchange lost) (st\<lparr>summ := (summ st)\<lparr>exchangeCount := exchangeCount (summ st) + 1,
    lostReplyCount := lostReplyCount (summ st) + (if lost then 1 else 0)\<rparr>\<rparr>)"

inductive moves :: "checker \<Rightarrow> move list \<Rightarrow> checker \<Rightarrow> bool" where
  no_move [intro, simp]: "moves st [] st"
| next_move [intro]: "micro st m st1 \<Longrightarrow> moves st1 ms st2 \<Longrightarrow> moves st (m # ms) st2"

inductive_cases microE: "micro st m st'"

inductive_simps moves_simps [simp]: "moves st [] st'" "moves st (m # ms) st'"

lemma moves_append: "moves st ms st1 \<Longrightarrow> moves st1 ms' st2 \<Longrightarrow> moves st (ms @ ms') st2"
  by (induction rule: moves.induct) auto

lemma moves_single: "micro st m st' \<Longrightarrow> moves st [m] st'"
  by auto

text \<open>What single moves keep, sequences of moves keep.\<close>

lemma moves_invariant:
  "moves st ms st' \<Longrightarrow> (\<And>st m st'. micro st m st' \<Longrightarrow> m \<in> set ms \<Longrightarrow> P st \<Longrightarrow> P st') \<Longrightarrow> P st \<Longrightarrow> P st'"
  by (induction rule: moves.induct) auto

text \<open>The moves an exchange can make before its count.\<close>

fun inner :: "move \<Rightarrow> bool" where
  "inner (Start _) = False"
| "inner (Restart _) = False"
| "inner (Anchor _) = False"
| "inner CountBoundary = False"
| "inner (CountExchange _) = False"
| "inner _ = True"

definition events_in :: "move list \<Rightarrow> nat" where
  "events_in ms = length (filter (\<lambda>m. case m of Advance _ \<Rightarrow> True | _ \<Rightarrow> False) ms)"

lemma events_in_simps [simp]:
  "events_in [] = 0" "events_in (ms @ ms') = events_in ms + events_in ms'"
  "events_in (m # ms) = (case m of Advance _ \<Rightarrow> 1 | _ \<Rightarrow> 0) + events_in ms"
  by (auto simp: events_in_def split: move.splits)

definition does :: "checker \<Rightarrow> checker \<Rightarrow> bool" where
  "does st st' \<longleftrightarrow> (\<exists>ms. moves st ms st' \<and> list_all inner ms \<and> events_in ms = count_list ms CountEvent)"

lemma does_refl [simp, intro]: "does st st"
  by (auto simp: does_def intro!: exI [of _ "[]"])

lemma does_trans: "does st st1 \<Longrightarrow> does st1 st2 \<Longrightarrow> does st st2"
proof -
  assume "does st st1" "does st1 st2"
  then obtain a b where "moves st a st1" "list_all inner a" "events_in a = count_list a CountEvent"
    and "moves st1 b st2" "list_all inner b" "events_in b = count_list b CountEvent"
    by (auto simp: does_def)
  then show ?thesis unfolding does_def by (intro exI [of _ "a @ b"]) (auto intro: moves_append)
qed

lemma does_micro: "micro st m st' \<Longrightarrow> inner m \<Longrightarrow> (case m of Advance _ \<Rightarrow> False | CountEvent \<Rightarrow> False | _ \<Rightarrow> True) \<Longrightarrow> does st st'"
  unfolding does_def by (intro exI [of _ "[m]"]) (auto split: move.splits)

section \<open>Every accepted step is a sequence of moves\<close>

definition sub_ok :: "jv \<Rightarrow> bool" where
  "sub_ok v \<longleftrightarrow> v = JUndef \<or> data_value v"

lemma sub_ok_fld: "sub_ok v \<Longrightarrow> sub_ok (fld v k)"
  using data_value_fld [of v k] by (auto simp: sub_ok_def)

lemma sub_ok_path: "sub_ok v \<Longrightarrow> sub_ok (path v ks)"
  by (induction ks arbitrary: v) (auto intro: sub_ok_fld)

lemma sub_ok_object: "sub_ok v \<Longrightarrow> is_object v \<Longrightarrow> data_value v"
  by (auto simp: sub_ok_def)

lemma data_sub_ok [simp]: "data_value v \<Longrightarrow> sub_ok v"
  by (simp add: sub_ok_def)

lemma code_points_units: "units s \<Longrightarrow> \<forall>t \<in> set (code_points s). units t"
  by (induction s rule: code_points.induct) auto

lemma sub_ok_iterate: "sub_ok v \<Longrightarrow> iterate v = Inr xs \<Longrightarrow> x \<in> set xs \<Longrightarrow> sub_ok x"
  using code_points_units by (cases v) (auto simp: sub_ok_def)

lemma cursorShape_ok: "cursorShape i c = Inr () \<Longrightarrow> sub_ok c \<Longrightarrow> cursor_ok c"
  by (auto simp: cursorShape_def exact_def res_simps cursor_ok_def host_of_def stream_of_def counter_Inr sub_ok_object)

lemma streamKey_ok: "streamKey i c = Inr k \<Longrightarrow> k = key_of c"
  by (auto simp: streamKey_def res_simps key_of_def host_of_def stream_of_def dest!: canonical_encodeData)

lemma counter_seq: "counter i (fld c ''sequence'') = Inr n \<Longrightarrow> seq_of c = n"
  by (auto simp: counter_Inr seq_of_def str_of_def)

lemma anchor_ok: "anchor i c st = Inr st' \<Longrightarrow> st' = anchored c st"
  by (auto simp: anchor_def res_simps anchored_def dest!: streamKey_ok counter_seq)

lemma strict_eq_string: "is_string x \<Longrightarrow> strict_eq x y \<longleftrightarrow> x = y" "is_string y \<Longrightarrow> strict_eq x y \<longleftrightarrow> x = y"
  by (cases x; cases y; auto)+

lemma observe_does:
  assumes "observeOperation i op st = Inr st'" and "sub_ok op"
  shows "does st st' \<and> st' = observed op st"
proof -
  have "is_object op" using assms(1) by (auto simp: observeOperation_def res_simps)
  from observe_effect [OF assms(1) sub_ok_object [OF assms(2) this]]
  have e: "st' = observed op st" "op_ok op" "\<forall>p. map_of (operations st) (opid op) = Some p \<longrightarrow> op_le p op" by blast+
  then show ?thesis using does_micro [OF micro.observe [OF e(2,3)]] by simp
qed

lemma observes_does:
  assumes "foldE (\<lambda>st operation. observeOperation i operation st) st ops = Inr st'"
    and "\<And>op. op \<in> set ops \<Longrightarrow> sub_ok op"
  shows "does st st'"
  by (rule foldE_invariant [OF assms(1), where P = "does st"])
    (auto dest!: observe_does simp: assms(2) intro: does_trans)

lemma event_does:
  assumes "event i step st = Inr st'" and "sub_ok (fld step ''event'')"
  shows "\<exists>ms. moves st ms st' \<and> list_all inner ms \<and> events_in ms = 1 \<and> count_list ms CountEvent = 1"
proof -
  let ?m = "fld step ''event''" let ?c = "fld ?m ''cursor''" let ?b = "fld ?m ''body''"
  from assms(1) obtain new old st1 st2 where
    shape: "cursorShape i ?c = Inr ()"
    and host: "differ (Inr (fld ?c ''hostEpoch'')) (getp (cursor st) ''hostEpoch'') = Inr False"
    and stream: "differ (Inr (fld ?c ''streamId'')) (getp (cursor st) ''streamId'') = Inr False"
    and new: "counter i (fld ?c ''sequence'') = Inr new" and old: "counter i (fld (cursor st) ''sequence'') = Inr old"
    and seq: "new = old + 1" and st1: "anchor i ?c st = Inr st1"
    and body: "(if fld ?b ''type'' = S ''operation_changed'' then observeOperation i (fld ?b ''operation'') st1
        else if fld ?b ''type'' = S ''host_close_deferred'' then
          thenE (checkClose i st1 (JObj [(U ''kind'', S ''deferred''), (U ''obligations'', fld ?b ''obligations'')])) (Inr st1)
        else thenE (rejectWhen i (Inr (\<not> one_of (fld ?b ''type'') [''snapshot_invalidated'', ''draft_changed''])) ''transcript_event'')
          (Inr st1)) = Inr st2"
    and st': "st' = st2\<lparr>summ := (summ st2)\<lparr>eventCount := eventCount (summ st2) + 1\<rparr>\<rparr>"
    unfolding event_def Let_def bindE_Inr rejectWhen_Inr by auto
  have sub: "sub_ok ?c" "sub_ok (fld ?b ''operation'')" using assms(2) sub_ok_fld by auto
  have c: "cursor_ok ?c" by (rule cursorShape_ok [OF shape sub(1)])
  have "host_of ?c = host_of (cursor st)" "stream_of ?c = stream_of (cursor st)"
    using host stream c strict_eq_string
    by (auto simp: res_simps host_of_def stream_of_def cursor_ok_def)
  moreover have "seq_of ?c = seq_of (cursor st) + 1"
    using counter_seq [OF new] counter_seq [OF old] seq by simp
  ultimately have a: "micro st (Advance ?c) st1"
    using micro.advance [OF c] anchor_ok [OF st1] by blast
  have e: "micro st2 CountEvent st'" unfolding st' by (rule micro.count_event)
  show ?thesis
  proof (cases "fld ?b ''type'' = S ''operation_changed''")
    case True
    with body have "observeOperation i (fld ?b ''operation'') st1 = Inr st2" by simp
    then have "is_object (fld ?b ''operation'')" "st2 = observed (fld ?b ''operation'') st1"
      and "op_ok (fld ?b ''operation'')" "\<forall>p. map_of (operations st1) (opid (fld ?b ''operation'')) = Some p \<longrightarrow> op_le p (fld ?b ''operation'')"
      using observe_effect [of i "fld ?b ''operation''" st1 st2] sub_ok_object [OF sub(2)]
      by (auto simp: observeOperation_def res_simps)
    then have "micro st1 (Observe (fld ?b ''operation'')) st2" using micro.observe by blast
    with a e show ?thesis by (intro exI [of _ "[Advance ?c, Observe (fld ?b ''operation''), CountEvent]"]) auto
  next
    case False
    with body have "st2 = st1" by (auto simp: res_simps split: if_splits)
    with a e show ?thesis by (intro exI [of _ "[Advance ?c, CountEvent]"]) auto
  qed
qed

lemma event_does': "event i step st = Inr st' \<Longrightarrow> sub_ok (fld step ''event'') \<Longrightarrow> does st st'"
  using event_does [of i step st st'] by (auto simp: does_def)

definition call_ok :: "call \<Rightarrow> bool" where
  "call_ok c \<longleftrightarrow> sub_ok (invocation c) \<and> sub_ok (reply_output c)"

lemma commit_does:
  assumes "commit_exchange i c st = Inr st'" and "call_ok c"
  shows "does st st'"
proof -
  let ?inp = "fld (invocation c) ''input''" let ?ref = "fld ?inp ''planRef''" let ?id = "fld ?ref ''planId''"
  let ?key = "fld ?inp ''idempotencyKey''" let ?out = "reply_output c"
  have out: "sub_ok ?out" using assms(2) by (simp add: call_ok_def)
  obtain identity where identity: "canonical i 0 ?inp = Inr identity"
    using assms(1) by (auto simp: commit_exchange_def Let_def bindE_Inr rejectWhen_Inr)
  show ?thesis
  proof (cases "map_of (admissions st) ?key")
    case (Some admitted)
    with assms(1) identity have "st' = st \<or> observeOperation i ?out st = Inr st'"
      by (auto simp: commit_exchange_def Let_def bindE_Inr rejectWhen_Inr split: if_splits)
    then show ?thesis using observe_does [OF _ out] by auto
  next
    case None
    show ?thesis
    proof (cases "st' = st")
      case False
      with assms(1) identity None obtain p st1 where
        g: "host_of (cursor st) \<notin> set (closingEpochs st)" "strict_eq (host_of ?ref) (host_of (cursor st))"
          "?id \<notin> set (consumedPlans st)" "map_of (plans st) ?id = Some p"
          "equal i (fld p ''planRef'') ?ref = Inr True"
          "semanticsEqual i (fld p ''semantics'') (fld ?out ''semantics'') = Inr True"
          "observeOperation i ?out st = Inr st1"
        and st': "st' = st1\<lparr>admissions := AList.update ?key \<lparr>a_input = identity, a_operationId = fld ?out ''operationId''\<rparr> (admissions st1),
                         consumedPlans := set_add ?id (consumedPlans st1)\<rparr>"
        by (auto simp: commit_exchange_def Let_def res_simps host_of_def
            split: if_splits option.splits)
      note o = observe_does [OF g(7) out]
      have st1: "admissions st1 = admissions st" "cursor st1 = cursor st" "closingEpochs st1 = closingEpochs st"
        "consumedPlans st1 = consumedPlans st" "plans st1 = plans st" "map_of (operations st1) (opid ?out) = Some ?out"
        using o by (simp_all add: observed_def)
      have "micro st1 (Admit ?key ?ref ?out) st'" unfolding st' opid_def [symmetric]
        by (rule micro.admit [where p = p])
          (use None st1 g in \<open>simp_all add: equal_True semanticsEqual_True\<close>)
      then have "does st1 st'" by (rule does_micro) auto
      with o show ?thesis using does_trans by blast
    qed simp
  qed
qed

lemma prepare_does:
  assumes "prepare_exchange i c st = Inr st'" shows "does st st'"
proof -
  let ?out = "reply_output c" let ?ref = "fld ?out ''planRef''"
  from assms have "strict_eq (host_of ?ref) (host_of (cursor st))"
    and "\<forall>prior. map_of (plans st) (fld ?ref ''planId'') = Some prior \<longrightarrow> equalNormalized i prior ?out = Inr True"
    and st': "st' = st\<lparr>plans := AList.update (fld ?ref ''planId'') ?out (plans st)\<rparr>"
    by (auto simp: prepare_exchange_def Let_def res_simps host_of_def)
  then have "micro st (Plan ?out) st'"
    using micro.plan [of ?out st] by (auto dest: equalNormalized_True)
  then show ?thesis by (rule does_micro) auto
qed

lemma get_operation_does:
  "get_operation_exchange i c st = Inr st' \<Longrightarrow> call_ok c \<Longrightarrow> does st st'"
  using observe_does [of i "fld (fld (reply_output c) ''operation'') ''value''" st st'] sub_ok_fld
  by (auto simp: get_operation_exchange_def Let_def res_simps call_ok_def split: if_splits)

lemma snapshot_does:
  assumes "snapshot_exchange i c st = Inr st'" and "call_ok c" shows "does st st'"
proof -
  let ?items = "fld (fld (reply_output c) ''operations'') ''items''"
  from assms(1) obtain ops where ops: "iterate ?items = Inr ops"
    "foldE (\<lambda>st operation. observeOperation i operation st) st ops = Inr st'"
    by (auto simp: snapshot_exchange_def Let_def res_simps)
  have "sub_ok ?items" using assms(2) sub_ok_fld by (auto simp: call_ok_def)
  with ops observes_does sub_ok_iterate show ?thesis by blast
qed

lemma resume_does:
  assumes "resume_events_exchange i c st = Inr st'" and "call_ok c" shows "does st st'"
proof -
  let ?events = "fld (reply_output c) ''events''"
  let ?f = "\<lambda>st message. event i (JObj [(U ''type'', S ''event''), (U ''event'', message)]) st"
  from assms(1) obtain ms where ms: "iterate ?events = Inr ms" "foldE ?f st ms = Inr st'"
    by (auto simp: resume_events_exchange_def Let_def res_simps)
  have sub: "sub_ok ?events" using assms(2) sub_ok_fld by (auto simp: call_ok_def)
  show ?thesis
  proof (rule foldE_invariant [OF ms(2), where P = "does st"])
    fix s m t assume "m \<in> set ms" "does st s" and e: "?f s m = Inr t"
    then have "sub_ok (fld (JObj [(U ''type'', S ''event''), (U ''event'', m)]) ''event'')"
      using sub_ok_iterate [OF sub ms(1)] by simp
    from event_does' [OF e this] \<open>does st s\<close> show "does st t" using does_trans by blast
  qed simp
qed

lemma cancel_does:
  "cancel_exchange i c st = Inr st' \<Longrightarrow> call_ok c \<Longrightarrow> does st st'"
  using observe_does [of i "fld (reply_output c) ''operation''" st st'] sub_ok_fld
  by (auto simp: cancel_exchange_def Let_def res_simps call_ok_def simp del: getps.simps)

lemma close_does:
  assumes "close_exchange i c st = Inr st'" shows "does st st'"
proof -
  from assms have "checkClose i st (reply_output c) = Inr ()"
    "st' = st\<lparr>closingEpochs := set_add (host_of (cursor st)) (closingEpochs st)\<rparr>"
    by (auto simp: close_exchange_def res_simps host_of_def)
  then have "micro st Close st'" using micro.close by blast
  then show ?thesis by (rule does_micro) auto
qed

lemma dispatch_does:
  assumes "dispatch i c st = Inr st'" and "call_ok c" shows "does st st'"
proof -
  have "get_draft_exchange i c st = Inr st' \<Longrightarrow> st' = st" "echo_exchange i code c st = Inr st' \<Longrightarrow> st' = st" for code
    by (auto simp: get_draft_exchange_def echo_exchange_def Let_def res_simps)
  then show ?thesis using assms
    by (auto simp: dispatch_def Let_def bindE_Inr split: if_splits
        intro: commit_does prepare_does get_operation_does snapshot_does resume_does cancel_does close_does)
qed

lemma open_exchange_ok: "open_exchange i step = Inr c \<Longrightarrow> data_value step \<Longrightarrow> call_ok c"
proof -
  assume o: "open_exchange i step = Inr c" and "data_value step"
  then have "sub_ok step" by simp
  then have sub: "sub_ok (path step ks)" for ks by (rule sub_ok_path)
  let ?n = "if path step [''request'', ''body'', ''type''] = S ''query'' then ''query'' else ''command''"
  have "invocation c = path step [''request'', ''body'', ?n]"
    using o by (auto simp: open_exchange_def Let_def res_simps split: if_splits)
  moreover have "reply_output c = JUndef \<or> reply_output c = path step [''reply'', ''body'', ''result'', ?n, ''output'']"
    using o by (auto simp: open_exchange_def Let_def res_simps split: if_splits)
  ultimately show ?thesis using sub by (metis call_ok_def sub_ok_def)
qed

lemma boundary_moves:
  assumes "boundary i step st = Inr st'" and "data_value step"
  shows "\<exists>m. moves st [m, CountBoundary] st' \<and>
    (m = Start (fld step ''cursor'') \<and> i = 0 \<or> m = Restart (fld step ''cursor'') \<and> fld step ''reason'' = S ''restart''
     \<or> m = Anchor (fld step ''cursor'') \<and> fld step ''reason'' \<noteq> S ''restart'')"
proof -
  let ?c = "fld step ''cursor''" let ?r = "fld step ''reason''"
  from assms(1) obtain st1 st2 where shape: "cursorShape i ?c = Inr ()"
    and k: "(if \<not> truthy (cursor st) then
          thenE (rejectWhen i (Inr (?r \<noteq> S ''initial'' \<or> i \<noteq> 0)) ''transcript_boundary'')
          (Inr (st\<lparr>epochs := set_add (fld ?c ''hostEpoch'') (epochs st)\<rparr>))
        else if ?r = S ''restart'' then
          thenE (rejectWhen i (Inr (fld ?c ''hostEpoch'' \<in> set (epochs st) \<or> strict_eq (fld ?c ''streamId'') (fld (cursor st) ''streamId'')))
                  ''transcript_restart'')
          (Inr (st\<lparr>epochs := set_add (fld ?c ''hostEpoch'') (epochs st)\<rparr>))
        else if one_of ?r [''reconnect'', ''resnapshot'', ''retention_gap''] then
          thenE (rejectWhen i (Inr (\<not> strict_eq (fld ?c ''hostEpoch'') (fld (cursor st) ''hostEpoch''))) ''transcript_epoch'')
         (bindE (streamKey i ?c) (\<lambda>key.
          thenE (case map_of (streamSequences st) key of
                   None \<Rightarrow> Inr ()
                 | Some prior \<Rightarrow> bindE (counter i (fld ?c ''sequence'')) (\<lambda>sequence.
                     rejectWhen i (Inr (sequence < prior)) ''transcript_sequence_regressed''))
         (thenE (rejectWhen i (Inr (?r = S ''reconnect'' \<and>
                    (\<not> strict_eq (fld ?c ''streamId'') (fld (cursor st) ''streamId'')
                     \<or> \<not> strict_eq (fld ?c ''sequence'') (fld (cursor st) ''sequence'')))) ''transcript_reconnect'')
          (Inr st))))
        else reject i ''transcript_boundary'') = Inr st1"
    and a: "anchor i ?c st1 = Inr st2"
    and st': "st' = st2\<lparr>summ := (summ st2)\<lparr>boundaryCount := boundaryCount (summ st2) + 1\<rparr>\<rparr>"
    unfolding boundary_def Let_def bindE_Inr by auto
  have c: "cursor_ok ?c" using cursorShape_ok [OF shape] assms(2) sub_ok_fld by auto
  have e: "micro st2 CountBoundary st'" unfolding st' by (rule micro.count_boundary)
  have str: "is_string (host_of ?c)" "is_string (stream_of ?c)" using c by (auto simp: cursor_ok_def)
  note st2 = anchor_ok [OF a]
  consider (start) "\<not> truthy (cursor st)" | (restart) "truthy (cursor st)" "?r = S ''restart''"
    | (other) "truthy (cursor st)" "?r \<noteq> S ''restart''" by blast
  then show ?thesis
  proof cases
    case start
    with k have "st1 = st\<lparr>epochs := set_add (host_of ?c) (epochs st)\<rparr>" "i = 0"
      by (auto simp: res_simps host_of_def)
    then have "micro st (Start ?c) st2" using micro.start [OF c start] st2 by simp
    with e \<open>i = 0\<close> show ?thesis by (intro exI [of _ "Start ?c"]) auto
  next
    case restart
    with k have "st1 = st\<lparr>epochs := set_add (host_of ?c) (epochs st)\<rparr>" "host_of ?c \<notin> set (epochs st)"
      "\<not> strict_eq (stream_of ?c) (stream_of (cursor st))"
      by (auto simp: res_simps host_of_def stream_of_def)
    then have "micro st (Restart ?c) st2"
      using micro.restart [OF c restart(1)] st2 strict_eq_string(1) [OF str(2)] by simp
    with e restart(2) show ?thesis by (intro exI [of _ "Restart ?c"]) auto
  next
    case other
    with k obtain key where st1: "st1 = st" and host: "strict_eq (host_of ?c) (host_of (cursor st))"
      and key: "streamKey i ?c = Inr key"
      and prior: "\<forall>prior. map_of (streamSequences st) key = Some prior \<longrightarrow>
        (\<exists>sequence. counter i (fld ?c ''sequence'') = Inr sequence \<and> \<not> sequence < prior)"
      by (auto simp: res_simps host_of_def split: if_splits option.splits)
    have "micro st (Anchor ?c) (anchored ?c st)"
    proof (rule micro.anchor [OF c other(1)])
      show "host_of ?c = host_of (cursor st)" using host strict_eq_string(1) [OF str(1)] by simp
      show "\<forall>prior. map_of (streamSequences st) (key_of ?c) = Some prior \<longrightarrow> prior \<le> seq_of ?c"
        using prior streamKey_ok [OF key] counter_seq by fastforce
    qed
    with e st2 st1 other(2) show ?thesis by (intro exI [of _ "Anchor ?c"]) auto
  qed
qed

text \<open>What the moves of one step are, by the kind of step.\<close>

definition step_moves :: "nat \<Rightarrow> jv \<Rightarrow> move list \<Rightarrow> bool" where
  "step_moves n step ms \<longleftrightarrow>
     (if fld step ''type'' = S ''boundary'' then
        \<exists>m. ms = [m, CountBoundary] \<and>
          (m = Start (fld step ''cursor'') \<and> n = 0 \<or> m = Restart (fld step ''cursor'') \<and> fld step ''reason'' = S ''restart''
           \<or> m = Anchor (fld step ''cursor'') \<and> fld step ''reason'' \<noteq> S ''restart'')
      else if fld step ''type'' = S ''exchange'' then
        \<exists>ms'. ms = ms' @ [CountExchange (fld step ''delivery'' = S ''lost'')] \<and> list_all inner ms'
          \<and> events_in ms' = count_list ms' CountEvent
      else list_all inner ms \<and> events_in ms = 1 \<and> count_list ms CountEvent = 1)"

lemma check_step_moves:
  assumes "check_step st (n, step) = Inr st'" and "data_value step"
  shows "\<exists>ms. moves st ms st' \<and> step_moves n step ms"
proof -
  have sub: "sub_ok (fld step ''event'')" using assms(2) by (intro sub_ok_fld) simp
  show ?thesis
  proof (cases "fld step ''type'' = S ''boundary''")
    case True
    with assms(1) have "boundary (int n) step st = Inr st'" by (auto simp: check_step_def Let_def res_simps)
    from boundary_moves [OF this assms(2)] True show ?thesis by (auto simp: step_moves_def simp del: moves_simps)
  next
    case b: False
    show ?thesis
    proof (cases "fld step ''type'' = S ''exchange''")
      case True
      with assms(1) b have "exchange (int n) step st = Inr st'" by (auto simp: check_step_def Let_def res_simps)
      then obtain c st1 where c: "open_exchange (int n) step = Inr c" "dispatch (int n) c st = Inr st1"
        and st': "st' = st1\<lparr>summ := (summ st1)\<lparr>exchangeCount := exchangeCount (summ st1) + 1,
          lostReplyCount := lostReplyCount (summ st1) + (if fld step ''delivery'' = S ''lost'' then 1 else 0)\<rparr>\<rparr>"
        by (auto simp: exchange_def Let_def bindE_Inr)
      have "micro st1 (CountExchange (fld step ''delivery'' = S ''lost'')) st'"
        unfolding st' by (rule micro.count_exchange)
      moreover from dispatch_does [OF c(2) open_exchange_ok [OF c(1) assms(2)]] obtain ms where
        "moves st ms st1" "list_all inner ms" "events_in ms = count_list ms CountEvent"
        by (auto simp: does_def)
      ultimately show ?thesis using b True
        by (intro exI [of _ "ms @ [CountExchange (fld step ''delivery'' = S ''lost'')]"])
          (auto simp: step_moves_def intro: moves_append)
    next
      case False
      with assms(1) b have "event (int n) step st = Inr st'"
        by (auto simp: check_step_def Let_def res_simps split: if_splits)
      from event_does [OF this sub] b False show ?thesis by (auto simp: step_moves_def)
    qed
  qed
qed

end
