(* ===== verification/Transcript_Props.thy ===== *)
theory Transcript_Props imports Transcript_Moves begin

text \<open>
  Safety of accepted transcripts: invariants of single moves, lifted to whole transcripts through
  the \<open>monotone_machine\<close> interface, and the properties they give of \<open>checkTranscript\<close>.
\<close>

lemma moves_run: "moves st ms st' \<longleftrightarrow> run micro st ms st'"
  by (induction ms arbitrary: st) auto

lemma anchored_simps [simp]:
  "operations (anchored c st) = operations st" "admissions (anchored c st) = admissions st"
  "plans (anchored c st) = plans st" "consumedPlans (anchored c st) = consumedPlans st"
  "closingEpochs (anchored c st) = closingEpochs st" "epochs (anchored c st) = epochs st"
  "summ (anchored c st) = summ st" "cursor (anchored c st) = c"
  "streamSequences (anchored c st) = AList.update (key_of c) (seq_of c) (streamSequences st)"
  by (simp_all add: anchored_def)

lemma observed_simps [simp]:
  "operations (observed op st) = AList.update (opid op) op (operations st)" "admissions (observed op st) = admissions st"
  "plans (observed op st) = plans st" "consumedPlans (observed op st) = consumedPlans st"
  "closingEpochs (observed op st) = closingEpochs st" "epochs (observed op st) = epochs st"
  "summ (observed op st) = summ st" "cursor (observed op st) = cursor st"
  "streamSequences (observed op st) = streamSequences st"
  by (simp_all add: observed_def)

section \<open>Operations\<close>

definition inv_ops :: "checker \<Rightarrow> bool" where
  "inv_ops st \<longleftrightarrow> distinct (map fst (operations st)) \<and>
     (\<forall>k op. map_of (operations st) k = Some op \<longrightarrow> op_ok op \<and> opid op = k)"

definition ops_le :: "checker \<Rightarrow> checker \<Rightarrow> bool" where
  "ops_le st st' \<longleftrightarrow> (\<forall>k p. map_of (operations st) k = Some p \<longrightarrow>
     (\<exists>q. map_of (operations st') k = Some q \<and> op_le p q))"

lemma ops_le_trans:
  assumes "ops_le st st1" "ops_le st1 st2" "inv_ops st" "inv_ops st1"
  shows "ops_le st st2"
  unfolding ops_le_def
proof (intro allI impI)
  fix k p assume p: "map_of (operations st) k = Some p"
  then obtain q where q: "map_of (operations st1) k = Some q" "op_le p q" using assms(1) by (auto simp: ops_le_def)
  then obtain r where r: "map_of (operations st2) k = Some r" "op_le q r" using assms(2) by (auto simp: ops_le_def)
  have "op_le p r" using op_le_trans [OF q(2) r(2)] p q(1) assms(3,4) by (auto simp: inv_ops_def)
  then show "\<exists>q. map_of (operations st2) k = Some q \<and> op_le p q" using r(1) by blast
qed

lemma inv_ops_observed: "inv_ops st \<Longrightarrow> op_ok op \<Longrightarrow> inv_ops (observed op st)"
  unfolding inv_ops_def by (simp add: fun_upd_def)

lemma ops_le_same: "operations st' = operations st \<Longrightarrow> ops_le st st'"
  by (simp add: ops_le_def)

lemma inv_ops_same: "operations st' = operations st \<Longrightarrow> inv_ops st \<Longrightarrow> inv_ops st'"
  by (simp add: inv_ops_def)

lemma micro_inv_ops: "micro st m st' \<Longrightarrow> inv_ops st \<Longrightarrow> inv_ops st'"
  by (induction rule: micro.induct) (simp add: inv_ops_observed, (rule inv_ops_same; simp)+)

lemma micro_ops_le: "micro st m st' \<Longrightarrow> ops_le st st'"
  by (induction rule: micro.induct) (simp add: ops_le_def, (rule ops_le_same; simp)+)

interpretation ops: monotone_machine micro inv_ops ops_le
proof
  show "inv_ops st \<Longrightarrow> ops_le st st" for st
    by (simp add: ops_le_def)
  show "micro st m st' \<Longrightarrow> inv_ops st \<Longrightarrow> inv_ops st'" for st m st'
    by (rule micro_inv_ops)
  show "micro st m st' \<Longrightarrow> inv_ops st \<Longrightarrow> ops_le st st'" for st m st'
    by (rule micro_ops_le)
  show "ops_le st st1 \<Longrightarrow> ops_le st1 st2 \<Longrightarrow> inv_ops st \<Longrightarrow> inv_ops st1 \<Longrightarrow> inv_ops st2 \<Longrightarrow> ops_le st st2" for st st1 st2
    by (rule ops_le_trans)
qed

section \<open>Streams and epochs\<close>

definition data_key :: "jv \<Rightarrow> jv \<Rightarrow> ustr" where
  "data_key h s = encodeData True (JArr [h, s])"

lemma data_key_inject:
  assumes "is_string h" "is_string s" "is_string h'" "is_string s'" "data_value h" "data_value s" "data_value h'" "data_value s'"
  shows "data_key h s = data_key h' s' \<longleftrightarrow> h = h' \<and> s = s'"
proof -
  have "listed True v = v" if "is_string v" for v using that by (cases v) auto
  moreover have "data_key h s = data_key h' s' \<longleftrightarrow> listed True (JArr [h, s]) = listed True (JArr [h', s'])"
    unfolding data_key_def using assms data_value_plain by (intro encodeData_eq_iff) auto
  ultimately show ?thesis using assms by simp
qed

definition key_in :: "jv list \<Rightarrow> ustr \<Rightarrow> bool" where
  "key_in hs k \<longleftrightarrow> (\<exists>h s. is_string h \<and> is_string s \<and> data_value h \<and> data_value s \<and> h \<in> set hs \<and> k = data_key h s)"

definition inv_seq :: "checker \<Rightarrow> bool" where
  "inv_seq st \<longleftrightarrow> distinct (epochs st) \<and> (\<forall>k n. map_of (streamSequences st) k = Some n \<longrightarrow> key_in (epochs st) k) \<and>
     (if truthy (cursor st) then cursor_ok (cursor st) \<and> host_of (cursor st) \<in> set (epochs st)
        \<and> map_of (streamSequences st) (key_of (cursor st)) = Some (seq_of (cursor st))
      else epochs st = [] \<and> cursor st = JUndef)"

definition seq_le :: "checker \<Rightarrow> checker \<Rightarrow> bool" where
  "seq_le st st' \<longleftrightarrow> (\<exists>es. epochs st' = epochs st @ es) \<and>
     (\<forall>k n. map_of (streamSequences st) k = Some n \<longrightarrow> (\<exists>n'. map_of (streamSequences st') k = Some n' \<and> n \<le> n'))"

lemma cursor_ok_parts:
  assumes "cursor_ok c"
  shows "truthy c" "data_value (host_of c)" "data_value (stream_of c)" "is_string (host_of c)" "is_string (stream_of c)"
    "key_of c = data_key (host_of c) (stream_of c)"
proof -
  show "truthy c" using assms by (cases c) (auto simp: cursor_ok_def)
  show s: "is_string (host_of c)" "is_string (stream_of c)" using assms by (auto simp: cursor_ok_def)
  then have "host_of c \<noteq> JUndef" "stream_of c \<noteq> JUndef" by auto
  then show "data_value (host_of c)" "data_value (stream_of c)"
    using assms data_value_fld [of c] by (auto simp: cursor_ok_def host_of_def stream_of_def)
  show "key_of c = data_key (host_of c) (stream_of c)" by (simp add: key_of_def data_key_def)
qed

lemma cursor_key_in: "cursor_ok c \<Longrightarrow> host_of c \<in> set hs \<Longrightarrow> key_in hs (key_of c)"
  unfolding key_in_def using cursor_ok_parts by blast

lemma key_in_mono: "key_in hs k \<Longrightarrow> set hs \<subseteq> set hs' \<Longrightarrow> key_in hs' k"
  by (auto simp: key_in_def)

lemma key_in_add: "key_in hs k \<Longrightarrow> key_in (set_add h hs) k"
  by (rule key_in_mono) auto

lemma key_in_fresh: "cursor_ok c \<Longrightarrow> host_of c \<notin> set hs \<Longrightarrow> \<not> key_in hs (key_of c)"
  unfolding key_in_def using cursor_ok_parts data_key_inject by metis

lemma same_stream: "host_of c = host_of d \<Longrightarrow> stream_of c = stream_of d \<Longrightarrow> key_of c = key_of d"
  by (simp add: key_of_def)

lemma inv_seq_anchored:
  assumes "cursor_ok c" "host_of c \<in> set (epochs st)" "distinct (epochs st)"
    and "\<And>k n. map_of (streamSequences st) k = Some n \<Longrightarrow> key_in (epochs st) k"
  shows "inv_seq (anchored c st)"
  using assms cursor_ok_parts(1) [OF assms(1)] cursor_key_in [OF assms(1,2)]
  by (auto simp: inv_seq_def)

lemma micro_inv_seq: "micro st m st' \<Longrightarrow> inv_seq st \<Longrightarrow> inv_seq st'"
proof (induction rule: micro.induct)
  case (advance c st)
  then have t: "truthy (cursor st)"
    using cursor_ok_parts(4) [OF advance(1)] by (auto simp: inv_seq_def host_of_def split: if_splits)
  then show ?case using advance
    by (intro inv_seq_anchored) (auto simp: inv_seq_def)
next
  case (start c st)
  then have "inv_seq (anchored c (st\<lparr>epochs := [host_of c]\<rparr>))"
    by (intro inv_seq_anchored) (auto simp: inv_seq_def key_in_def)
  moreover have "epochs st = []" using start by (simp add: inv_seq_def)
  ultimately show ?case by (simp add: set_add_def)
next
  case (restart c st)
  then show ?case
    by (intro inv_seq_anchored) (auto simp: inv_seq_def intro!: key_in_add)
next
  case (anchor c st)
  then show ?case
    by (intro inv_seq_anchored) (auto simp: inv_seq_def)
qed (auto simp: inv_seq_def)

lemma micro_seq_le: "micro st m st' \<Longrightarrow> inv_seq st \<Longrightarrow> seq_le st st'"
proof (induction rule: micro.induct)
  case (advance c st)
  then have t: "truthy (cursor st)"
    using cursor_ok_parts(4) [OF advance(1)] by (auto simp: inv_seq_def host_of_def split: if_splits)
  with advance same_stream [OF advance(2,3)] show ?case by (auto simp: inv_seq_def seq_le_def)
next
  case (start c st)
  then show ?case by (auto simp: inv_seq_def seq_le_def key_in_def)
next
  case (restart c st)
  then show ?case
    using key_in_fresh [OF restart(1)] by (auto simp: inv_seq_def seq_le_def set_add_def)
qed (auto simp: inv_seq_def seq_le_def)

lemma seq_le_trans:
  assumes "seq_le st st1" "seq_le st1 st2"
  shows "seq_le st st2"
proof -
  have "\<exists>n2. map_of (streamSequences st2) k = Some n2 \<and> n \<le> n2" if n: "map_of (streamSequences st) k = Some n" for k n
  proof -
    obtain n1 where "map_of (streamSequences st1) k = Some n1" "n \<le> n1"
      using assms(1) n unfolding seq_le_def by blast
    moreover from this(1) obtain n2 where "map_of (streamSequences st2) k = Some n2" "n1 \<le> n2"
      using assms(2) unfolding seq_le_def by blast
    ultimately show ?thesis by force
  qed
  with assms show ?thesis by (auto simp: seq_le_def)
qed

interpretation streams: monotone_machine micro inv_seq seq_le
proof
  show "seq_le st st1 \<Longrightarrow> seq_le st1 st2 \<Longrightarrow> inv_seq st \<Longrightarrow> inv_seq st1 \<Longrightarrow> inv_seq st2 \<Longrightarrow> seq_le st st2" for st st1 st2
    by (rule seq_le_trans)
qed (auto simp: micro_inv_seq micro_seq_le, simp add: seq_le_def)

section \<open>Admissions, plans and closed epochs\<close>

definition inv_adm :: "checker \<Rightarrow> bool" where
  "inv_adm st \<longleftrightarrow> distinct (map fst (admissions st)) \<and> distinct (consumedPlans st)
     \<and> length (admissions st) = length (consumedPlans st)
     \<and> (\<forall>a \<in> snd ` set (admissions st). a_operationId a \<in> fst ` set (operations st))
     \<and> set (consumedPlans st) \<subseteq> fst ` set (plans st)"

definition adm_le :: "checker \<Rightarrow> checker \<Rightarrow> bool" where
  "adm_le st st' \<longleftrightarrow> (\<forall>k a. map_of (admissions st) k = Some a \<longrightarrow> map_of (admissions st') k = Some a)
     \<and> set (consumedPlans st) \<subseteq> set (consumedPlans st') \<and> set (closingEpochs st) \<subseteq> set (closingEpochs st')
     \<and> (\<forall>i p. map_of (plans st) i = Some p \<longrightarrow> (\<exists>q. map_of (plans st') i = Some q \<and> whole_text p = whole_text q))"

lemma update_fresh: "k \<notin> fst ` set m \<Longrightarrow> AList.update k v m = m @ [(k, v)]"
  by (induction m) auto

lemma micro_inv_adm: "micro st m st' \<Longrightarrow> inv_adm st \<Longrightarrow> inv_adm st'"
proof (induction rule: micro.induct)
  case (admit st key ref p out identity)
  then have "key \<notin> fst ` set (admissions st)" by (simp add: map_of_eq_None_iff)
  moreover have "opid out \<in> fst ` set (operations st)" "fld ref ''planId'' \<in> fst ` set (plans st)"
    using admit(5,8) by (force dest: map_of_SomeD)+
  ultimately show ?case using admit(4) admit.prems
    by (auto simp: inv_adm_def update_fresh set_add_def)
qed (auto simp: inv_adm_def keys_update)

lemma micro_adm_le: "micro st m st' \<Longrightarrow> inv_adm st \<Longrightarrow> adm_le st st'"
  by (erule micro.cases) (auto simp: adm_le_def)

lemma adm_le_trans:
  assumes "adm_le st st1" "adm_le st1 st2"
  shows "adm_le st st2"
proof -
  have "\<exists>r. map_of (plans st2) i = Some r \<and> whole_text p = whole_text r" if p: "map_of (plans st) i = Some p" for i p
  proof -
    obtain q where "map_of (plans st1) i = Some q" "whole_text p = whole_text q"
      using assms(1) p unfolding adm_le_def by blast
    moreover from this(1) obtain r where "map_of (plans st2) i = Some r" "whole_text q = whole_text r"
      using assms(2) unfolding adm_le_def by blast
    ultimately show ?thesis by simp
  qed
  with assms show ?thesis by (auto simp: adm_le_def)
qed

interpretation adms: monotone_machine micro inv_adm adm_le
proof
  show "adm_le st st1 \<Longrightarrow> adm_le st1 st2 \<Longrightarrow> inv_adm st \<Longrightarrow> inv_adm st1 \<Longrightarrow> inv_adm st2 \<Longrightarrow> adm_le st st2" for st st1 st2
    by (rule adm_le_trans)
qed (auto simp: micro_inv_adm micro_adm_le, simp add: adm_le_def)

section \<open>From steps to transcripts\<close>

definition data_steps :: "(nat \<times> jv) list \<Rightarrow> bool" where
  "data_steps xs \<longleftrightarrow> (\<forall>x \<in> set xs. data_value (snd x))"

lemma run_steps_moves: "run_steps st xs = Inr st' \<Longrightarrow> data_steps xs \<Longrightarrow> \<exists>ms. run micro st ms st'"
proof (induction xs arbitrary: st)
  case Nil
  then show ?case by (auto simp: run_steps_def intro!: exI [of _ "[]"])
next
  case (Cons x xs)
  then obtain st1 where st1: "check_step st x = Inr st1" "run_steps st1 xs = Inr st'"
    by (auto simp: run_steps_def res_simps)
  obtain n v where x: "x = (n, v)" by (cases x)
  obtain ms where "moves st ms st1"
    using check_step_moves [of st n v st1] st1(1) Cons.prems(2) x by (auto simp: data_steps_def)
  moreover obtain ms' where "run micro st1 ms' st'"
    using Cons.IH [OF st1(2)] Cons.prems(2) by (auto simp: data_steps_def)
  ultimately show ?case by (metis moves_run run_append)
qed

lemma initial_invariants: "inv_ops initial_checker" "inv_seq initial_checker" "inv_adm initial_checker"
  by (simp_all add: inv_ops_def inv_seq_def inv_adm_def initial_checker_def)

lemma reached_invariants:
  assumes "run_steps initial_checker xs = Inr st" "data_steps xs"
  shows "inv_ops st" "inv_seq st" "inv_adm st"
proof -
  obtain ms where ms: "run micro initial_checker ms st" using run_steps_moves [OF assms] by blast
  show "inv_ops st" "inv_seq st" "inv_adm st"
    using ops.run_inv [OF ms] streams.run_inv [OF ms] adms.run_inv [OF ms] initial_invariants by blast+
qed

lemma run_steps_le:
  assumes "run_steps initial_checker xs = Inr st" "run_steps st ys = Inr st'" "data_steps xs" "data_steps ys"
  shows "ops_le st st'" "seq_le st st'" "adm_le st st'"
proof -
  obtain ms where ms: "run micro st ms st'" using run_steps_moves [OF assms(2,4)] by blast
  show "ops_le st st'" "seq_le st st'" "adm_le st st'"
    using ops.run_le [OF ms] streams.run_le [OF ms] adms.run_le [OF ms]
      reached_invariants [OF assms(1,3)] by blast+
qed

end
