(* ===== verification/Transcript_Claims.thy ===== *)
theory Transcript_Claims imports Transcript_Props begin

text \<open>The properties of the transcript checker, with a small transcript on which they are applied.\<close>

section \<open>A transcript\<close>

definition ex_cursor :: "string \<Rightarrow> jv" where
  "ex_cursor n = JObj [(U ''hostEpoch'', S ''h''), (U ''streamId'', S ''s''), (U ''sequence'', S n)]"

definition ex_semantics :: jv where
  "ex_semantics = JObj [(U ''action'', S ''k''), (U ''effects'', JArr [S ''e'']),
     (U ''capture'', JObj [(U ''kind'', S ''k''), (U ''input'', JObj [])])]"

definition ex_op :: "string \<Rightarrow> string \<Rightarrow> jv" where
  "ex_op r status = JObj [(U ''operationId'', S ''o''), (U ''operationRevision'', S r),
     (U ''semantics'', ex_semantics), (U ''state'', JObj [(U ''status'', S status)])]"

definition ex_boundary :: jv where
  "ex_boundary = JObj [(U ''type'', S ''boundary''), (U ''reason'', S ''initial''), (U ''cursor'', ex_cursor ''0'')]"

definition ex_event :: "string \<Rightarrow> jv \<Rightarrow> jv" where
  "ex_event n op = JObj [(U ''type'', S ''event''), (U ''event'', JObj [(U ''cursor'', ex_cursor n),
     (U ''body'', JObj [(U ''type'', S ''operation_changed''), (U ''operation'', op)])])]"

definition ex_exchange :: "string \<Rightarrow> jv \<Rightarrow> jv \<Rightarrow> jv" where
  "ex_exchange name inp out = JObj [(U ''type'', S ''exchange''),
     (U ''request'', JObj [(U ''requestId'', S ''r''), (U ''protocolVersion'', JInt 1),
        (U ''body'', JObj [(U ''type'', S ''command''), (U ''command'', JObj [(U ''name'', S name), (U ''input'', inp)])])]),
     (U ''reply'', JObj [(U ''requestId'', S ''r''), (U ''protocolVersion'', JInt 1),
        (U ''body'', JObj [(U ''type'', S ''result''), (U ''result'', JObj [(U ''type'', S ''command''),
            (U ''command'', JObj [(U ''name'', S name), (U ''output'', out)])])])])]"

definition ex_ref :: jv where
  "ex_ref = JObj [(U ''hostEpoch'', S ''h''), (U ''planId'', S ''p'')]"

definition ex_plan :: jv where
  "ex_plan = JObj [(U ''planRef'', ex_ref), (U ''semantics'', ex_semantics)]"

definition ex_prepare :: jv where
  "ex_prepare = ex_exchange ''prepare'' (JObj [(U ''intent'', JObj [(U ''kind'', S ''k''), (U ''input'', JObj [])])]) ex_plan"

definition ex_commit_input :: jv where
  "ex_commit_input = JObj [(U ''planRef'', ex_ref), (U ''idempotencyKey'', S ''i'')]"

definition ex_commit :: jv where
  "ex_commit = ex_exchange ''commit'' ex_commit_input (ex_op ''1'' ''running'')"

definition ex_close :: jv where
  "ex_close = ex_exchange ''request_host_close'' (JObj [(U ''expectedCursor'', ex_cursor ''1'')]) (JObj [(U ''kind'', S ''ready'')])"

lemmas ex_defs = ex_cursor_def ex_op_def ex_semantics_def ex_boundary_def ex_event_def ex_exchange_def ex_ref_def
  ex_plan_def ex_prepare_def ex_commit_def ex_commit_input_def ex_close_def

lemmas tr_eval = run_steps_def check_step_def Let_def rejectWhen_def boundary_def event_def exact_def cursorShape_def
  counter_def counter_syntax_def digit_def U64_MAX_def digits_value_def anchor_def streamKey_def canonical_complete
  initial_checker_def observeOperation_def semanticsEqual_def semanticsNormalized_def equal_def equalNormalized_def
  withNormalizedSemantics_def obj_put_def notE_def hasS_def notS_def differ_def getp_def set_add_def MAX_SAFE_def
  exchange_def open_exchange_def dispatch_def commit_exchange_def prepare_exchange_def matchPreparation_def
  close_exchange_def checkClose_def pending_def status_of_def U_def

text \<open>The states after the boundary, the preparation, the commit, the last event and the close.\<close>

definition ex_key :: ustr where
  "ex_key = encodeData True (JArr [S ''h'', S ''s''])"

definition ex_st0 :: checker where
  "ex_st0 = initial_checker\<lparr>cursor := ex_cursor ''0'', epochs := [S ''h''], streamSequences := [(ex_key, 0)],
     summ := (summ initial_checker)\<lparr>boundaryCount := 1\<rparr>\<rparr>"

definition ex_st1 :: checker where
  "ex_st1 = ex_st0\<lparr>plans := [(S ''p'', ex_plan)], summ := (summ ex_st0)\<lparr>exchangeCount := 1\<rparr>\<rparr>"

definition ex_st2 :: checker where
  "ex_st2 = ex_st1\<lparr>operations := [(S ''o'', ex_op ''1'' ''running'')], consumedPlans := [S ''p''],
     admissions := [(S ''i'', \<lparr>a_input = encodeData True ex_commit_input, a_operationId = S ''o''\<rparr>)],
     summ := (summ ex_st1)\<lparr>exchangeCount := 2\<rparr>\<rparr>"

definition ex_st3 :: checker where
  "ex_st3 = ex_st2\<lparr>cursor := ex_cursor ''1'', streamSequences := [(ex_key, 1)],
     operations := [(S ''o'', ex_op ''2'' ''completed'')], summ := (summ ex_st2)\<lparr>eventCount := 1\<rparr>\<rparr>"

definition ex_st4 :: checker where
  "ex_st4 = ex_st3\<lparr>closingEpochs := [S ''h''], summ := (summ ex_st3)\<lparr>exchangeCount := 3\<rparr>\<rparr>"

lemmas ex_st = ex_key_def ex_st0_def ex_st1_def ex_st2_def ex_st3_def ex_st4_def

lemma ex_step0: "check_step initial_checker (0, ex_boundary) = Inr ex_st0"
  by (simp add: tr_eval ex_defs ex_st del: canonical_simps encodeData.simps)

lemma ex_step1: "check_step ex_st0 (1, ex_prepare) = Inr ex_st1"
  by (simp add: tr_eval ex_defs ex_st del: canonical_simps encodeData.simps)

lemma ex_step2: "check_step ex_st1 (2, ex_commit) = Inr ex_st2"
  by (simp add: tr_eval ex_defs ex_st del: canonical_simps encodeData.simps)

lemma ex_step3: "check_step ex_st2 (3, ex_event ''1'' (ex_op ''2'' ''completed'')) = Inr ex_st3"
  by (simp add: tr_eval ex_defs ex_st del: canonical_simps encodeData.simps)

lemma ex_step4: "check_step ex_st3 (4, ex_close) = Inr ex_st4"
  by (simp add: tr_eval ex_defs ex_st del: canonical_simps encodeData.simps)

lemma ex_data [simp]: "data_value ex_boundary" "data_value ex_prepare" "data_value ex_commit" "data_value ex_close"
  "data_value (ex_event ''1'' (ex_op ''2'' ''completed''))"
  by (simp_all add: ex_defs)

lemma ex_run: "run_steps initial_checker [(0, ex_boundary), (1, ex_prepare), (2, ex_commit)] = Inr ex_st2"
  "run_steps ex_st2 [(3, ex_event ''1'' (ex_op ''2'' ''completed'')), (4, ex_close)] = Inr ex_st4"
  by (simp_all add: run_steps_def ex_step0 ex_step1 [simplified] ex_step2 ex_step3 ex_step4)

lemma ex_data_steps: "data_steps [(0, ex_boundary), (1, ex_prepare), (2, ex_commit)]"
  "data_steps [(3, ex_event ''1'' (ex_op ''2'' ''completed'')), (4, ex_close)]"
  by (simp_all add: data_steps_def)

section \<open>What single handlers leave alone\<close>

definition keeps :: "checker \<Rightarrow> checker \<Rightarrow> bool" where
  "keeps st st' \<longleftrightarrow> admissions st' = admissions st \<and> consumedPlans st' = consumedPlans st"

lemma keeps_refl [simp]: "keeps st st" and keeps_trans: "keeps st st1 \<Longrightarrow> keeps st1 st2 \<Longrightarrow> keeps st st2"
  by (simp_all add: keeps_def)

lemma keeps_summ [simp]: "keeps st (st'\<lparr>summ := s\<rparr>) = keeps st st'"
  by (simp add: keeps_def)

lemma observe_keeps: "observeOperation i op st = Inr st' \<Longrightarrow> keeps st st'"
  by (auto simp: observeOperation_def res_simps keeps_def)

lemma anchor_keeps: "anchor i c st = Inr st' \<Longrightarrow> keeps st st'"
  by (auto simp: anchor_def res_simps keeps_def)

lemma event_keeps: "event i step st = Inr st' \<Longrightarrow> keeps st st'"
proof -
  assume "event i step st = Inr st'"
  then obtain st1 st2 c where "anchor i c st = Inr st1" "st2 = st1 \<or> (\<exists>op. observeOperation i op st1 = Inr st2)"
    "st' = st2\<lparr>summ := (summ st2)\<lparr>eventCount := eventCount (summ st2) + 1\<rparr>\<rparr>"
    unfolding event_def Let_def bindE_Inr rejectWhen_Inr by (auto simp: res_simps split: if_splits)
  then show ?thesis using keeps_trans [OF anchor_keeps observe_keeps] by (auto dest: anchor_keeps)
qed

lemma micro_keeps: "micro st m st' \<Longrightarrow> (\<And>k r out. m \<noteq> Admit k r out) \<Longrightarrow> keeps st st'"
  by (erule micro.cases) (auto simp: keeps_def)

lemma boundary_keeps: "boundary i step st = Inr st' \<Longrightarrow> data_value step \<Longrightarrow> keeps st st'"
  using boundary_moves [of i step st st'] keeps_trans by (auto dest!: micro_keeps)

text \<open>Only a commit admits.\<close>

lemma dispatch_keeps:
  assumes "dispatch i c st = Inr st'" and "\<not> (family c = S ''command'' \<and> fld (invocation c) ''name'' = S ''commit'')"
  shows "keeps st st'"
proof -
  have fold_event: "foldE (\<lambda>st m. event i (f m) st) st ms = Inr st' \<Longrightarrow> keeps st st'" for f ms st st'
    by (erule foldE_invariant) (auto intro: keeps_trans event_keeps)
  have fold_observe: "foldE (\<lambda>st m. observeOperation i m st) st ms = Inr st' \<Longrightarrow> keeps st st'" for ms st st'
    by (erule foldE_invariant) (auto intro: keeps_trans observe_keeps)
  have "prepare_exchange i c st = Inr st' \<Longrightarrow> keeps st st'" "get_operation_exchange i c st = Inr st' \<Longrightarrow> keeps st st'"
    "get_draft_exchange i c st = Inr st' \<Longrightarrow> keeps st st'" "snapshot_exchange i c st = Inr st' \<Longrightarrow> keeps st st'"
    "resume_events_exchange i c st = Inr st' \<Longrightarrow> keeps st st'" "cancel_exchange i c st = Inr st' \<Longrightarrow> keeps st st'"
    "close_exchange i c st = Inr st' \<Longrightarrow> keeps st st'" "echo_exchange i code c st = Inr st' \<Longrightarrow> keeps st st'" for code
    by (auto simp: prepare_exchange_def get_operation_exchange_def get_draft_exchange_def snapshot_exchange_def
        resume_events_exchange_def cancel_exchange_def close_exchange_def echo_exchange_def Let_def res_simps keeps_def [of st]
        simp del: getps.simps split: if_splits dest!: fold_event fold_observe observe_keeps)
  then show ?thesis using assms by (auto simp: dispatch_def Let_def bindE_Inr split: if_splits)
qed


lemma check_step_keeps:
  assumes "check_step st (n, step) = Inr st'" "data_value step"
    and "\<not> (fld step ''type'' = S ''exchange'' \<and> path step [''request'', ''body'', ''command'', ''name''] = S ''commit'')"
  shows "keeps st st'"
proof -
  consider "boundary (int n) step st = Inr st'" | "event (int n) step st = Inr st'"
    | (ex) "fld step ''type'' = S ''exchange''" "exchange (int n) step st = Inr st'"
    using assms(1) by (auto simp: check_step_def Let_def res_simps split: if_splits)
  then show ?thesis
  proof cases
    case ex
    then obtain c st1 where c: "open_exchange (int n) step = Inr c" "dispatch (int n) c st = Inr st1"
      and st': "st' = st1\<lparr>summ := (summ st1)\<lparr>exchangeCount := exchangeCount (summ st1) + 1,
        lostReplyCount := lostReplyCount (summ st1) + (if fld step ''delivery'' = S ''lost'' then 1 else 0)\<rparr>\<rparr>"
      by (auto simp: exchange_def Let_def bindE_Inr)
    have "family c = S ''command'' \<Longrightarrow> fld (invocation c) ''name'' = path step [''request'', ''body'', ''command'', ''name'']"
      using c(1) by (auto simp: open_exchange_def Let_def res_simps split: if_splits)
    then show ?thesis using dispatch_keeps [OF c(2)] assms(3) ex(1) st' by auto
  qed (use assms(2) boundary_keeps event_keeps in blast)+
qed

text \<open>What an accepted commit establishes.\<close>

definition commit_of :: "jv \<Rightarrow> jv" where
  "commit_of step = path step [''request'', ''body'', ''command'', ''input'']"

definition result_of :: "jv \<Rightarrow> jv" where
  "result_of step = path step [''reply'', ''body'', ''result'', ''command'', ''output'']"

definition is_commit :: "jv \<Rightarrow> bool" where
  "is_commit step \<longleftrightarrow> fld step ''type'' = S ''exchange'' \<and> path step [''request'', ''body'', ''type''] = S ''command''
     \<and> path step [''request'', ''body'', ''command'', ''name''] = S ''commit''"

definition is_result :: "jv \<Rightarrow> bool" where
  "is_result step \<longleftrightarrow> path step [''reply'', ''body'', ''type''] = S ''result''"

lemma commit_step:
  assumes "check_step st (n, step) = Inr st'" "is_commit step"
  obtains c st1 where "commit_exchange (int n) c st = Inr st1" "fld (invocation c) ''input'' = commit_of step"
    "rejected c \<longleftrightarrow> \<not> is_result step" "is_result step \<Longrightarrow> reply_output c = result_of step"
    "keeps st1 st'" "operations st' = operations st1" "closingEpochs st' = closingEpochs st1"
proof -
  have "exchange (int n) step st = Inr st'"
    using assms by (auto simp: check_step_def Let_def res_simps is_commit_def simp del: path.simps split: if_splits)
  then obtain c st1 where c: "open_exchange (int n) step = Inr c" "dispatch (int n) c st = Inr st1"
    and st': "st' = st1\<lparr>summ := (summ st1)\<lparr>exchangeCount := exchangeCount (summ st1) + 1,
      lostReplyCount := lostReplyCount (summ st1) + (if fld step ''delivery'' = S ''lost'' then 1 else 0)\<rparr>\<rparr>"
    by (auto simp: exchange_def Let_def bindE_Inr)
  have f: "family c = S ''command''" "fld (invocation c) ''name'' = S ''commit''" "fld (invocation c) ''input'' = commit_of step"
    "rejected c \<longleftrightarrow> \<not> is_result step" "is_result step \<Longrightarrow> reply_output c = result_of step"
    using c(1) assms(2)
    by (auto simp: open_exchange_def Let_def res_simps is_commit_def commit_of_def is_result_def result_of_def split: if_splits)
  then have "commit_exchange (int n) c st = Inr st1" using c(2) by (simp add: dispatch_def)
  with f st' show ?thesis by (intro that [of c st1]) auto
qed


section \<open>The properties\<close>

text \<open>
  The checker's comparison of two messages is equality up to the order of object members: when
  \<^verbatim>\<open>equal\<close> returns, it returns true exactly for values whose sorted forms are the same.
\<close>

theorem equal_is_structural:
  assumes "equal i v w = Inr b" and "data_value v" and "data_value w"
  shows "b \<longleftrightarrow> listed True v = listed True w"
  using assms canonical_eq_iff [of i 0 v _ w] data_value_plain
  by (auto simp: equal_def res_simps)

theorem equal_is_structural_witness:
  "True \<longleftrightarrow> listed True (JObj [(U ''b'', JInt 1), (U ''a'', JNull)]) = listed True (JObj [(U ''a'', JNull), (U ''b'', JInt 1)])"
proof (rule equal_is_structural [of 0])
  have o: "own_entries [(U ''b'', JInt 1), (U ''a'', JNull)] = [(U ''b'', JInt 1), (U ''a'', JNull)]"
    "own_entries [(U ''a'', JNull), (U ''b'', JInt 1)] = [(U ''a'', JNull), (U ''b'', JInt 1)]"
    by (simp_all add: own_entries_def index_key_def counter_syntax_def digit_def U_def)
  have "listed_entries True [(U ''b'', JInt 1), (U ''a'', JNull)] = [(U ''a'', JNull), (U ''b'', JInt 1)]"
    "listed_entries True [(U ''a'', JNull), (U ''b'', JInt 1)] = [(U ''a'', JNull), (U ''b'', JInt 1)]"
    by (simp_all only: listed_entries_def o if_True) (simp_all add: U_def)
  then show "equal 0 (JObj [(U ''b'', JInt 1), (U ''a'', JNull)]) (JObj [(U ''a'', JNull), (U ''b'', JInt 1)]) = Inr True"
    by (simp add: equal_def canonical_complete MAX_SAFE_def del: canonical_simps)
qed auto

text \<open>
  C4: Operation history. Once an accepted transcript has shown an operation, every later observation of
  it carries the same captured semantics and a revision at least as high; an equal revision means
  the same observation, and once it has completed its state never changes.
\<close>

theorem operations_never_regress:
  assumes "run_steps initial_checker xs = Inr st" and "run_steps st ys = Inr st'"
    and "data_steps xs" and "data_steps ys" and "map_of (operations st) k = Some p"
  shows "\<exists>q. map_of (operations st') k = Some q \<and> sem_text p = sem_text q \<and> rev_of p \<le> rev_of q
    \<and> (rev_of p = rev_of q \<longrightarrow> whole_text p = whole_text q) \<and> (completed p \<longrightarrow> state_text p = state_text q)"
  using run_steps_le(1) [OF assms(1-4)] assms(5) by (simp add: ops_le_def op_le_def)

theorem operations_never_regress_witness:
  "\<exists>q. map_of (operations ex_st4) (S ''o'') = Some q \<and> sem_text (ex_op ''1'' ''running'') = sem_text q
    \<and> rev_of (ex_op ''1'' ''running'') \<le> rev_of q"
proof -
  have "map_of (operations ex_st2) (S ''o'') = Some (ex_op ''1'' ''running'')" by (simp add: ex_st)
  from operations_never_regress [OF ex_run ex_data_steps this] show ?thesis by blast
qed

text \<open>
  C7: Idempotent replay. When an accepted commit repeats an admitted idempotency key, nothing is
  admitted and no plan is consumed; if the reply is a result, the input was the admitted one and the
  operation it names is the one first admitted.
\<close>

theorem replay_never_admits:
  assumes "check_step st (n, step) = Inr st'" and "is_commit step"
    and "map_of (admissions st) (fld (commit_of step) ''idempotencyKey'') = Some a"
  shows "admissions st' = admissions st \<and> consumedPlans st' = consumedPlans st
    \<and> (is_result step \<longrightarrow> canonical (int n) 0 (commit_of step) = Inr (a_input a)
        \<and> strict_eq (fld (result_of step) ''operationId'') (a_operationId a))"
proof -
  obtain c st1 where c: "commit_exchange (int n) c st = Inr st1" "fld (invocation c) ''input'' = commit_of step"
    "rejected c \<longleftrightarrow> \<not> is_result step" "is_result step \<Longrightarrow> reply_output c = result_of step" "keeps st1 st'"
    using commit_step [OF assms(1,2)] by metis
  have k: "keeps st st1"
    using c(1) assms(3) by (auto simp: commit_exchange_def Let_def c(2) res_simps split: if_splits dest: observe_keeps)
  have "is_result step \<Longrightarrow> canonical (int n) 0 (commit_of step) = Inr (a_input a)
        \<and> strict_eq (fld (result_of step) ''operationId'') (a_operationId a)"
    using c(1,3,4) assms(3) by (auto simp: commit_exchange_def Let_def c(2) res_simps split: if_splits)
  with keeps_trans [OF k c(5)] show ?thesis by (simp add: keeps_def)
qed

definition ex_st_replayed :: checker where
  "ex_st_replayed = ex_st2\<lparr>summ := (summ ex_st2)\<lparr>exchangeCount := 3\<rparr>\<rparr>"

lemma ex_replay: "check_step ex_st2 (3, ex_commit) = Inr ex_st_replayed"
  by (simp add: tr_eval ex_defs ex_st ex_st_replayed_def del: canonical_simps encodeData.simps)

lemma ex_admitted: "map_of (admissions ex_st2) (fld (commit_of ex_commit) ''idempotencyKey'')
    = Some \<lparr>a_input = encodeData True ex_commit_input, a_operationId = S ''o''\<rparr>"
  by (simp add: commit_of_def ex_defs ex_st)

lemma ex_is_commit: "is_commit ex_commit"
  by (simp add: is_commit_def ex_defs)

theorem replay_never_admits_witness:
  "admissions ex_st_replayed = admissions ex_st2 \<and> consumedPlans ex_st_replayed = consumedPlans ex_st2
    \<and> canonical (int 3) 0 (commit_of ex_commit) = Inr (encodeData True ex_commit_input)
    \<and> strict_eq (fld (result_of ex_commit) ''operationId'') (S ''o'')"
proof -
  have "is_result ex_commit" by (simp add: is_result_def ex_defs)
  with replay_never_admits [OF ex_replay ex_is_commit ex_admitted, unfolded admission.simps] show ?thesis by blast
qed

text \<open>
  C6: A plan is consumed at most once. In an accepted transcript there are as many admissions as consumed
  plans, with distinct keys and distinct plans, every consumed plan was prepared, and every admission
  names an operation that was observed.
\<close>

theorem admissions_match_plans:
  assumes "run_steps initial_checker xs = Inr st" and "data_steps xs"
  shows "length (admissions st) = length (consumedPlans st) \<and> distinct (map fst (admissions st))
    \<and> distinct (consumedPlans st) \<and> set (consumedPlans st) \<subseteq> fst ` set (plans st)
    \<and> (\<forall>a \<in> snd ` set (admissions st). a_operationId a \<in> fst ` set (operations st))"
  using reached_invariants(3) [OF assms] by (simp add: inv_adm_def)

theorem admissions_match_plans_witness:
  "length (admissions ex_st2) = length (consumedPlans ex_st2) \<and> distinct (map fst (admissions ex_st2))
    \<and> distinct (consumedPlans ex_st2) \<and> set (consumedPlans ex_st2) \<subseteq> fst ` set (plans ex_st2)
    \<and> S ''o'' \<in> fst ` set (operations ex_st2)"
proof -
  let ?a = "\<lparr>a_input = encodeData True ex_commit_input, a_operationId = S ''o''\<rparr>"
  note t = admissions_match_plans [OF ex_run(1) ex_data_steps(1)]
  have "?a \<in> snd ` set (admissions ex_st2)" by (simp add: ex_st)
  then have "a_operationId ?a \<in> fst ` set (operations ex_st2)" using t by blast
  with t show ?thesis by simp
qed

lemma other_steps_keep:
  assumes "check_step st (n, step) = Inr st'" "data_value step" "\<not> is_commit step"
  shows "keeps st st'"
proof (cases "fld step ''type'' = S ''exchange'' \<and> path step [''request'', ''body'', ''type''] = S ''query''")
  case True
  then have "exchange (int n) step st = Inr st'"
    using assms(1) by (auto simp: check_step_def Let_def res_simps split: if_splits)
  then obtain c st1 where "open_exchange (int n) step = Inr c" "dispatch (int n) c st = Inr st1" "keeps st st1 \<Longrightarrow> keeps st st'"
    by (auto simp: exchange_def Let_def bindE_Inr)
  moreover from this(1) True have "family c \<noteq> S ''command''"
    by (auto simp: open_exchange_def Let_def res_simps split: if_splits)
  ultimately show ?thesis using dispatch_keeps by blast
next
  case False
  have "fld step ''type'' = S ''exchange'' \<Longrightarrow> one_of (path step [''request'', ''body'', ''type'']) [''query'', ''command'']"
    using assms(1) by (auto simp: check_step_def exchange_def open_exchange_def Let_def res_simps split: if_splits)
  then show ?thesis using check_step_keeps [OF assms(1,2)] False assms(3) by (auto simp: is_commit_def)
qed

text \<open>A commit that changes the admissions passed every test and recorded its operation.\<close>

lemma admitting_exchange:
  assumes "commit_exchange (int n) c st = Inr st1" "fld (invocation c) ''input'' = w" "\<not> keeps st st1"
  obtains identity plan st0 where "host_of (cursor st) \<notin> set (closingEpochs st)" "strict_eq (host_of (fld w ''planRef'')) (host_of (cursor st))"
    "fld (fld w ''planRef'') ''planId'' \<notin> set (consumedPlans st)" "map_of (plans st) (fld (fld w ''planRef'') ''planId'') = Some plan"
    "semanticsEqual (int n) (fld plan ''semantics'') (fld (reply_output c) ''semantics'') = Inr True"
    "observeOperation (int n) (reply_output c) st = Inr st0" "\<not> rejected c"
    "st1 = st0\<lparr>admissions := AList.update (fld w ''idempotencyKey'') \<lparr>a_input = identity, a_operationId = opid (reply_output c)\<rparr> (admissions st0),
       consumedPlans := set_add (fld (fld w ''planRef'') ''planId'') (consumedPlans st0)\<rparr>"
proof -
  have none: "map_of (admissions st) (fld w ''idempotencyKey'') = None"
  proof (rule ccontr)
    assume "map_of (admissions st) (fld w ''idempotencyKey'') \<noteq> None"
    then have "keeps st st1" using assms(1)
      by (auto simp: commit_exchange_def Let_def assms(2) res_simps split: if_splits dest: observe_keeps)
    with assms(3) show False ..
  qed
  show thesis
    using assms(1,3) none that
    by (auto simp: commit_exchange_def Let_def assms(2) res_simps host_of_def opid_def split: if_splits option.splits)
qed




section \<open>Epochs, streams and counts\<close>

lemma run_moves_steps:
  assumes "run_steps st xs = Inr st'" "data_steps xs"
  shows "\<exists>mss. run micro st (concat mss) st' \<and> list_all2 (\<lambda>x ms. step_moves (fst x) (snd x) ms) xs mss"
  using assms
proof (induction xs arbitrary: st)
  case Nil
  then show ?case by (auto simp: run_steps_def)
next
  case (Cons x xs)
  then obtain st1 where st1: "check_step st x = Inr st1" "run_steps st1 xs = Inr st'"
    by (auto simp: run_steps_def res_simps)
  obtain n v where x: "x = (n, v)" by (cases x)
  obtain ms where ms: "moves st ms st1" "step_moves n v ms"
    using check_step_moves [of st n v st1] st1(1) Cons.prems(2) x by (auto simp: data_steps_def)
  obtain mss where "run micro st1 (concat mss) st'" "list_all2 (\<lambda>x ms. step_moves (fst x) (snd x) ms) xs mss"
    using Cons.IH [OF st1(2)] Cons.prems(2) by (auto simp: data_steps_def)
  with ms x show ?case
    by (intro exI [of _ "ms # mss"]) (auto simp: run_append moves_run [symmetric])
qed

text \<open>A property of single moves holds of the moves of a run.\<close>

lemma run_induct [consumes 1, case_names none move]:
  assumes "run micro st ms st'" and "P []  st"
    and "\<And>ms m st1 st2. run micro st ms st1 \<Longrightarrow> micro st1 m st2 \<Longrightarrow> P ms st1 \<Longrightarrow> P (ms @ [m]) st2"
  shows "P ms st'"
  using assms(1)
proof (induction ms arbitrary: st' rule: rev_induct)
  case (snoc m ms)
  then show ?case using assms(3) by (auto simp: run_append)
qed (use assms(2) in simp)

lemma inner_quiet: "list_all inner ms \<Longrightarrow> Start c \<notin> set ms \<and> Restart c \<notin> set ms \<and> Anchor c \<notin> set ms"
  by (induction ms) auto

lemma truthy_cursor: "cursor_ok c \<Longrightarrow> truthy c"
  by (rule cursor_ok_parts(1))

lemma run_truthy: "run micro st ms st' \<Longrightarrow> truthy (cursor st) \<Longrightarrow> truthy (cursor st')"
proof (induction rule: run_induct)
  case (move ms m st1 st2)
  from move.hyps(2) move.IH move.prems show ?case by cases (auto dest: truthy_cursor)
qed

lemma check_step_truthy: "check_step st (n, step) = Inr st' \<Longrightarrow> data_value step \<Longrightarrow> truthy (cursor st')"
proof -
  assume c: "check_step st (n, step) = Inr st'" "data_value step"
  then obtain ms where ms: "run micro st ms st'" "step_moves n step ms"
    using check_step_moves moves_run by metis
  show "truthy (cursor st')"
  proof (cases "truthy (cursor st)")
    case True
    then show ?thesis using run_truthy [OF ms(1)] by simp
  next
    case False
    then have "fld step ''type'' = S ''boundary''" using c(1)
      by (auto simp: check_step_def Let_def res_simps split: if_splits)
    with ms have "cursor_ok (fld step ''cursor'') \<and> cursor st' = fld step ''cursor''"
      by (auto simp: step_moves_def elim!: microE)
    then show ?thesis by (simp add: truthy_cursor)
  qed
qed

lemma run_steps_truthy: "run_steps st xs = Inr st' \<Longrightarrow> data_steps xs \<Longrightarrow> xs \<noteq> [] \<Longrightarrow> truthy (cursor st')"
proof (induction xs arbitrary: st rule: rev_induct)
  case (snoc x xs)
  then show ?case using check_step_truthy
    by (cases x) (auto simp: run_steps_def foldE_append res_simps data_steps_def)
qed simp

definition is_restart :: "jv \<Rightarrow> bool" where
  "is_restart step \<longleftrightarrow> fld step ''type'' = S ''boundary'' \<and> fld step ''reason'' = S ''restart''"



text \<open>
  Epochs and streams. A restart always enters a host epoch the transcript has not seen, the position
  of every stream only moves forward, and the cursor is the position of its own stream.
\<close>

theorem streams_move_forward:
  assumes "run_steps initial_checker xs = Inr st" and "run_steps st ys = Inr st'"
    and "data_steps xs" and "data_steps ys"
  shows "(\<exists>es. epochs st' = epochs st @ es) \<and> distinct (epochs st')
    \<and> (\<forall>k n. map_of (streamSequences st) k = Some n \<longrightarrow> (\<exists>n'. map_of (streamSequences st') k = Some n' \<and> n \<le> n'))
    \<and> (truthy (cursor st') \<longrightarrow> map_of (streamSequences st') (key_of (cursor st')) = Some (seq_of (cursor st')))"
proof -
  obtain ms where "run micro st ms st'" using run_steps_moves [OF assms(2,4)] by blast
  from streams.run_inv [OF this reached_invariants(2) [OF assms(1,3)]] run_steps_le(2) [OF assms]
  show ?thesis by (auto simp: seq_le_def inv_seq_def)
qed

theorem streams_move_forward_witness:
  "(\<exists>es. epochs ex_st4 = epochs ex_st2 @ es) \<and> distinct (epochs ex_st4)
    \<and> (\<exists>n'. map_of (streamSequences ex_st4) ex_key = Some n' \<and> 0 \<le> n')"
proof -
  have "map_of (streamSequences ex_st2) ex_key = Some 0" by (simp add: ex_st)
  with streams_move_forward [OF ex_run ex_data_steps] show ?thesis by blast
qed

text \<open>
  Events are contiguous. Over a part of a transcript without boundary the host epoch and the stream
  stay, and the sequence number of the cursor has advanced by exactly the number of events counted,
  whether they came alone or in a resumed batch.
\<close>

theorem events_are_contiguous:
  assumes "run_steps st ys = Inr st'" and "data_steps ys"
    and "\<forall>y \<in> set ys. fld (snd y) ''type'' \<noteq> S ''boundary''"
  shows "host_of (cursor st') = host_of (cursor st) \<and> stream_of (cursor st') = stream_of (cursor st)
    \<and> eventCount (summ st) \<le> eventCount (summ st')
    \<and> seq_of (cursor st') = seq_of (cursor st) + int (eventCount (summ st') - eventCount (summ st))"
proof -
  obtain mss where mss: "run micro st (concat mss) st'" "list_all2 (\<lambda>x ms. step_moves (fst x) (snd x) ms) ys mss"
    using run_moves_steps [OF assms(1,2)] by blast
  let ?quiet = "\<lambda>m. \<forall>c. m \<noteq> Start c \<and> m \<noteq> Restart c \<and> m \<noteq> Anchor c"
  have one: "(\<forall>m \<in> set ms. ?quiet m) \<and> events_in ms = count_list ms CountEvent"
    if "step_moves n y ms" "fld y ''type'' \<noteq> S ''boundary''" for n y ms
    using that by (auto simp: step_moves_def split: if_splits dest: inner_quiet)
  have all: "(\<forall>m \<in> set (concat mss). ?quiet m) \<and> events_in (concat mss) = count_list (concat mss) CountEvent"
    using mss(2) assms(3)
  proof (induction rule: list_all2_induct)
    case (Cons x xs ms mss)
    then show ?case using one [of "fst x" "snd x" ms] by auto
  qed simp
  have "host_of (cursor s) = host_of (cursor st) \<and> stream_of (cursor s) = stream_of (cursor st)
      \<and> seq_of (cursor s) = seq_of (cursor st) + int (events_in ms)
      \<and> eventCount (summ s) = eventCount (summ st) + count_list ms CountEvent"
    if "run micro st ms s" "\<forall>m \<in> set ms. ?quiet m" for ms s
    using that
  proof (induction rule: run_induct)
    case (move ms m st1 st2)
    from move.hyps(2) move.IH move.prems show ?case by cases auto
  qed simp
  from this [OF mss(1)] all show ?thesis by simp
qed

theorem events_are_contiguous_witness:
  "host_of (cursor ex_st4) = host_of (cursor ex_st2) \<and> stream_of (cursor ex_st4) = stream_of (cursor ex_st2)
    \<and> eventCount (summ ex_st2) \<le> eventCount (summ ex_st4)
    \<and> seq_of (cursor ex_st4) = seq_of (cursor ex_st2) + int (eventCount (summ ex_st4) - eventCount (summ ex_st2))"
  by (rule events_are_contiguous [OF ex_run(2) ex_data_steps(2)]) (simp add: ex_defs)


definition is_type :: "string \<Rightarrow> jv \<Rightarrow> bool" where
  "is_type t step \<longleftrightarrow> fld step ''type'' = S t"

definition is_lost :: "jv \<Rightarrow> bool" where
  "is_lost step \<longleftrightarrow> is_type ''exchange'' step \<and> fld step ''delivery'' = S ''lost''"

text \<open>How the counts of a state change over one step.\<close>

definition counted :: "checker \<Rightarrow> nat \<times> nat \<times> nat" where
  "counted st = (boundaryCount (summ st), exchangeCount (summ st), lostReplyCount (summ st))"

lemma inner_counted: "run micro st ms st' \<Longrightarrow> list_all inner ms \<Longrightarrow>
    counted st' = counted st \<and> eventCount (summ st') = eventCount (summ st) + count_list ms CountEvent"
proof (induction rule: run_induct)
  case (move ms m st1 st2)
  from move.hyps(2) move.IH move.prems show ?case by cases (auto simp: counted_def)
qed simp

lemma check_step_counted:
  assumes "check_step st (n, step) = Inr st'" "data_value step"
  shows "boundaryCount (summ st') = boundaryCount (summ st) + (if is_type ''boundary'' step then 1 else 0)"
    "exchangeCount (summ st') = exchangeCount (summ st) + (if is_type ''exchange'' step then 1 else 0)"
    "lostReplyCount (summ st') = lostReplyCount (summ st) + (if is_lost step then 1 else 0)"
    "eventCount (summ st) + (if is_type ''event'' step then 1 else 0) \<le> eventCount (summ st')"
    "is_type ''boundary'' step \<or> is_type ''exchange'' step \<or> is_type ''event'' step"
proof -
  obtain ms where ms: "run micro st ms st'" "step_moves n step ms"
    using check_step_moves [OF assms] moves_run by metis
  show t: "is_type ''boundary'' step \<or> is_type ''exchange'' step \<or> is_type ''event'' step"
    using assms(1) by (auto simp: check_step_def Let_def res_simps is_type_def split: if_splits)
  consider (b) "is_type ''boundary'' step" | (x) "is_type ''exchange'' step" | (e) "is_type ''event'' step"
    using t by blast
  then have "boundaryCount (summ st') = boundaryCount (summ st) + (if is_type ''boundary'' step then 1 else 0)
    \<and> exchangeCount (summ st') = exchangeCount (summ st) + (if is_type ''exchange'' step then 1 else 0)
    \<and> lostReplyCount (summ st') = lostReplyCount (summ st) + (if is_lost step then 1 else 0)
    \<and> eventCount (summ st) + (if is_type ''event'' step then 1 else 0) \<le> eventCount (summ st')"
  proof cases
    case b
    then have "counted st' = (boundaryCount (summ st) + 1, exchangeCount (summ st), lostReplyCount (summ st))"
      "eventCount (summ st') = eventCount (summ st)"
      using ms by (auto simp: step_moves_def is_type_def counted_def elim!: microE)
    with b show ?thesis by (simp add: counted_def is_type_def is_lost_def)
  next
    case x
    then obtain ms' where m: "ms = ms' @ [CountExchange (is_lost step)]" "list_all inner ms'"
      using ms(2) by (auto simp: step_moves_def is_type_def is_lost_def)
    then obtain s where s: "run micro st ms' s" "micro s (CountExchange (is_lost step)) st'"
      using ms(1) by (auto simp: run_append)
    from inner_counted [OF s(1) m(2)] s(2) x show ?thesis
      by (auto simp: counted_def is_type_def elim!: microE)
  next
    case e
    then have "list_all inner ms" "count_list ms CountEvent = 1" using ms(2) by (auto simp: step_moves_def is_type_def)
    from inner_counted [OF ms(1) this(1)] this(2) e show ?thesis
      by (auto simp: counted_def is_type_def is_lost_def)
  qed
  then show "boundaryCount (summ st') = boundaryCount (summ st) + (if is_type ''boundary'' step then 1 else 0)"
    "exchangeCount (summ st') = exchangeCount (summ st) + (if is_type ''exchange'' step then 1 else 0)"
    "lostReplyCount (summ st') = lostReplyCount (summ st) + (if is_lost step then 1 else 0)"
    "eventCount (summ st) + (if is_type ''event'' step then 1 else 0) \<le> eventCount (summ st')" by blast+
qed

definition tally :: "(jv \<Rightarrow> bool) \<Rightarrow> jv list \<Rightarrow> nat" where
  "tally p steps = length (filter p steps)"

lemma tally_simps [simp]: "tally p [] = 0" "tally p (x # xs) = (if p x then 1 else 0) + tally p xs"
  by (simp_all add: tally_def)

lemma run_counted:
  "run_steps st xs = Inr st' \<Longrightarrow> data_steps xs \<Longrightarrow>
    boundaryCount (summ st') = boundaryCount (summ st) + tally (is_type ''boundary'') (map snd xs)
    \<and> exchangeCount (summ st') = exchangeCount (summ st) + tally (is_type ''exchange'') (map snd xs)
    \<and> lostReplyCount (summ st') = lostReplyCount (summ st) + tally is_lost (map snd xs)
    \<and> eventCount (summ st) + tally (is_type ''event'') (map snd xs) \<le> eventCount (summ st')"
proof (induction xs arbitrary: st)
  case (Cons x xs)
  obtain n v where x: "x = (n, v)" by (cases x)
  obtain st1 where st1: "check_step st (n, v) = Inr st1" "run_steps st1 xs = Inr st'"
    using Cons.prems(1) x by (auto simp: run_steps_def res_simps)
  have d: "data_value v" "data_steps xs" using Cons.prems(2) x by (auto simp: data_steps_def)
  from Cons.IH [OF st1(2) d(2)] check_step_counted(1-4) [OF st1(1) d(1)] x show ?case by simp
qed (simp add: run_steps_def)

lemma data_steps_enumerate: "(\<forall>x \<in> set xs. data_value x) \<Longrightarrow> data_steps (enumerate n xs)"
  by (auto simp: data_steps_def set_zip in_set_enumerate_eq)

text \<open>
  The summary of an accepted transcript counts its steps: as many boundaries, exchanges and lost
  replies as it holds, at least its standalone events, and the operations it has seen.
\<close>

theorem summary_counts_steps:
  assumes "checkTranscript (JArr xs) = Inr s" and "\<forall>x \<in> set xs. data_value x"
  shows "boundaryCount s = tally (is_type ''boundary'') xs \<and> exchangeCount s = tally (is_type ''exchange'') xs
    \<and> lostReplyCount s = tally is_lost xs \<and> tally (is_type ''event'') xs \<le> eventCount s
    \<and> (\<exists>st. run_steps initial_checker (enumerate 0 xs) = Inr st \<and> operationCount s = card (fst ` set (operations st)))"
proof -
  obtain st where st: "run_steps initial_checker (enumerate 0 xs) = Inr st"
    "s = (summ st)\<lparr>operationCount := length (operations st)\<rparr>"
    using assms(1) by (auto simp: checkTranscript_def res_simps)
  note d = data_steps_enumerate [OF assms(2), of 0]
  have "distinct (map fst (operations st))" using reached_invariants(1) [OF st(1) d] by (simp add: inv_ops_def)
  then have "length (operations st) = card (fst ` set (operations st))"
    by (metis distinct_card length_map list.set_map)
  with run_counted [OF st(1) d] st show ?thesis by (simp add: initial_checker_def)
qed

definition ex_transcript :: "jv list" where
  "ex_transcript = [ex_boundary, ex_prepare, ex_commit, ex_event ''1'' (ex_op ''2'' ''completed''), ex_close]"

lemma ex_accepted: "checkTranscript (JArr ex_transcript) = Inr ((summ ex_st4)\<lparr>operationCount := 1\<rparr>)"
proof -
  have "run_steps initial_checker (enumerate 0 ex_transcript) = Inr ex_st4"
  proof -
    have "enumerate 0 ex_transcript = [(0, ex_boundary), (1, ex_prepare), (2, ex_commit)]
        @ [(3, ex_event ''1'' (ex_op ''2'' ''completed'')), (4, ex_close)]"
      by (simp add: ex_transcript_def numeral_eq_Suc)
    then show ?thesis by (simp only: run_steps_def foldE_append ex_run [unfolded run_steps_def] bindE_simps)
  qed
  then show ?thesis
    by (simp add: checkTranscript_def ex_transcript_def MAX_TRANSCRIPT_STEPS_def rejectWhen_def ex_st)
qed

lemma ex_transcript_data: "\<forall>x \<in> set ex_transcript. data_value x"
  by (simp add: ex_transcript_def)


theorem summary_counts_steps_witness:
  "boundaryCount ((summ ex_st4)\<lparr>operationCount := 1\<rparr>) = tally (is_type ''boundary'') ex_transcript
    \<and> exchangeCount ((summ ex_st4)\<lparr>operationCount := 1\<rparr>) = tally (is_type ''exchange'') ex_transcript
    \<and> lostReplyCount ((summ ex_st4)\<lparr>operationCount := 1\<rparr>) = tally is_lost ex_transcript
    \<and> tally (is_type ''event'') ex_transcript \<le> eventCount ((summ ex_st4)\<lparr>operationCount := 1\<rparr>)
    \<and> (\<exists>st. run_steps initial_checker (enumerate 0 ex_transcript) = Inr st
        \<and> operationCount ((summ ex_st4)\<lparr>operationCount := 1\<rparr>) = card (fst ` set (operations st)))"
  by (rule summary_counts_steps [OF ex_accepted ex_transcript_data])

lemma enumerate_append: "enumerate n (xs @ ys) = enumerate n xs @ enumerate (n + length xs) ys"
  by (induction xs arbitrary: n) auto

text \<open>
  Acceptance is closed under prefixes: every non-empty prefix of an accepted transcript is accepted,
  with counts no larger.
\<close>

theorem prefixes_are_accepted:
  assumes "checkTranscript (JArr (xs @ ys)) = Inr s" and "xs \<noteq> []" and "\<forall>x \<in> set (xs @ ys). data_value x"
  shows "\<exists>s'. checkTranscript (JArr xs) = Inr s' \<and> boundaryCount s' \<le> boundaryCount s \<and> exchangeCount s' \<le> exchangeCount s
    \<and> eventCount s' \<le> eventCount s \<and> operationCount s' \<le> operationCount s"
proof -
  obtain st' where st': "run_steps initial_checker (enumerate 0 (xs @ ys)) = Inr st'"
    "s = (summ st')\<lparr>operationCount := length (operations st')\<rparr>" "length (xs @ ys) \<le> MAX_TRANSCRIPT_STEPS"
    using assms(1) by (auto simp: checkTranscript_def res_simps)
  then obtain st where st: "run_steps initial_checker (enumerate 0 xs) = Inr st" "run_steps st (enumerate (length xs) ys) = Inr st'"
    by (auto simp: run_steps_def enumerate_append foldE_append res_simps)
  have d: "data_steps (enumerate 0 xs)" "data_steps (enumerate (length xs) ys)"
    using data_steps_enumerate assms(3) by auto
  note c = run_counted [OF st(2) d(2)]
  have "fst ` set (operations st) \<subseteq> fst ` set (operations st')"
    using run_steps_le(1) [OF st d] unfolding ops_le_def
    by (metis (no_types) dom_map_of_conv_image_fst domIff not_None_eq subsetI)
  moreover have "distinct (map fst (operations st))" "distinct (map fst (operations st'))"
    using reached_invariants(1) [OF st(1) d(1)] reached_invariants(1) [OF st'(1)] data_steps_enumerate [OF assms(3)]
    by (auto simp: inv_ops_def)
  ultimately have "length (operations st) \<le> length (operations st')"
    by (metis card_mono distinct_card length_map list.set_map List.finite_set finite_imageI)
  with c st st' assms(2) show ?thesis
    by (auto simp: checkTranscript_def rejectWhen_def)
qed

theorem prefixes_are_accepted_witness:
  "\<exists>s'. checkTranscript (JArr [ex_boundary, ex_prepare]) = Inr s'
    \<and> boundaryCount s' \<le> boundaryCount ((summ ex_st4)\<lparr>operationCount := 1\<rparr>)
    \<and> exchangeCount s' \<le> exchangeCount ((summ ex_st4)\<lparr>operationCount := 1\<rparr>)
    \<and> eventCount s' \<le> eventCount ((summ ex_st4)\<lparr>operationCount := 1\<rparr>)
    \<and> operationCount s' \<le> operationCount ((summ ex_st4)\<lparr>operationCount := 1\<rparr>)"
proof (rule prefixes_are_accepted)
  have "[ex_boundary, ex_prepare] @ [ex_commit, ex_event ''1'' (ex_op ''2'' ''completed''), ex_close] = ex_transcript"
    by (simp add: ex_transcript_def)
  with ex_accepted show "checkTranscript (JArr ([ex_boundary, ex_prepare] @ [ex_commit, ex_event ''1'' (ex_op ''2'' ''completed''), ex_close]))
    = Inr ((summ ex_st4)\<lparr>operationCount := 1\<rparr>)" by simp
qed auto

section \<open>Close and snapshot\<close>

lemma closeObligations_covered:
  "foldE (closeObligation i st) (cov, cust) obs = Inr (cov', cust') \<Longrightarrow> x \<in> set cov' \<Longrightarrow>
    x \<in> set cov \<or> (\<exists>ob \<in> set obs. fld ob ''kind'' = S ''operation'' \<and> fld ob ''operationId'' = x
      \<and> (\<forall>op. map_of (operations st) x = Some op \<longrightarrow> \<not> completed op
          \<and> strict_eq (fld op ''operationRevision'') (fld ob ''operationRevision'')))"
proof (induction obs arbitrary: cov cust)
  case (Cons ob obs)
  then obtain c d where step: "closeObligation i st (cov, cust) ob = Inr (c, d)" "foldE (closeObligation i st) (c, d) obs = Inr (cov', cust')"
    by (auto simp: res_simps)
  have "y \<in> set c \<Longrightarrow> y \<in> set cov \<or> fld ob ''kind'' = S ''operation'' \<and> fld ob ''operationId'' = y
      \<and> (\<forall>op. map_of (operations st) y = Some op \<longrightarrow> \<not> completed op
          \<and> strict_eq (fld op ''operationRevision'') (fld ob ''operationRevision''))" for y
    using step(1) by (auto simp: closeObligation_def Let_def res_simps completed_def split: if_splits option.splits)
  with Cons.IH [OF step(2) Cons.prems(2)] show ?case by auto
qed simp

lemma closeRecoveries_covered:
  "foldE (closeRecovery i st) cov recs = Inr cov' \<Longrightarrow> x \<in> set cov' \<Longrightarrow>
    x \<in> set cov \<or> (\<exists>r \<in> set recs. fld r ''operationId'' = x
      \<and> (\<forall>op. map_of (operations st) x = Some op \<longrightarrow> status_of op = S ''recovery_required''
          \<and> encodeData True (path op [''state'', ''recovery'']) = encodeData True r))"
proof (induction recs arbitrary: cov)
  case (Cons r recs)
  then obtain c where step: "closeRecovery i st cov r = Inr c" "foldE (closeRecovery i st) c recs = Inr cov'"
    by (auto simp: res_simps)
  have "y \<in> set c \<Longrightarrow> y \<in> set cov \<or> fld r ''operationId'' = y
      \<and> (\<forall>op. map_of (operations st) y = Some op \<longrightarrow> status_of op = S ''recovery_required''
          \<and> encodeData True (path op [''state'', ''recovery'']) = encodeData True r)" for y
    using step(1) by (auto simp: closeRecovery_def res_simps simp del: path.simps split: if_splits option.splits dest: equal_True)
  with Cons.IH [OF step(2) Cons.prems(2)] show ?case by auto
qed simp

lemma pending_iff: "inv_ops st \<Longrightarrow> op \<in> set (pending st) \<longleftrightarrow> (\<exists>k. map_of (operations st) k = Some op) \<and> \<not> completed op"
  by (auto simp: pending_def completed_def inv_ops_def map_of_values dest: map_of_SomeD)

text \<open>
  C9: No close loses work. When a close disposition is accepted, every operation the transcript has shown
  and that is not completed is accounted for: a ready close has none, a deferred close lists it with
  its exact revision, and a close that needs recovery carries its recovery record.
\<close>

theorem close_accounts_for_pending:
  assumes "run_steps initial_checker xs = Inr st" and "data_steps xs"
    and "checkClose i st d = Inr ()" and "map_of (operations st) k = Some op" and "\<not> completed op"
  shows "(fld d ''kind'' = S ''deferred'' \<and> (\<exists>ob \<in> set (arr_items (fld d ''obligations'')).
          fld ob ''kind'' = S ''operation'' \<and> fld ob ''operationId'' = k
          \<and> strict_eq (fld op ''operationRevision'') (fld ob ''operationRevision'')))
    \<or> (fld d ''kind'' = S ''recovery_required'' \<and> status_of op = S ''recovery_required''
        \<and> (\<exists>r \<in> set (arr_items (fld d ''recoveries'')). fld r ''operationId'' = k
          \<and> encodeData True (path op [''state'', ''recovery'']) = encodeData True r))"
proof -
  note inv = reached_invariants(1) [OF assms(1,2)]
  have p: "op \<in> set (pending st)" and id: "fld op ''operationId'' = k"
    using pending_iff [OF inv] assms(4,5) inv by (auto simp: inv_ops_def opid_def)
  then have ne: "pending st \<noteq> []" by auto
  consider (def) "fld d ''kind'' = S ''deferred''" | (rec) "fld d ''kind'' = S ''recovery_required''"
    using assms(3) ne by (auto simp: checkClose_def res_simps split: if_splits)
  then show ?thesis
  proof cases
    case def
    then obtain obs cov cust where obs: "fld d ''obligations'' = JArr obs"
      "foldE (closeObligation i st) ([], []) obs = Inr (cov, cust)" "\<forall>op \<in> set (pending st). fld op ''operationId'' \<in> set cov"
      using assms(3) by (auto simp: checkClose_def res_simps split: jv.splits)
    then have "k \<in> set cov" using p id by auto
    from closeObligations_covered [OF obs(2) this] show ?thesis using def obs(1) assms(4) by auto
  next
    case rec
    then obtain recs cov where recs: "fld d ''recoveries'' = JArr recs" "foldE (closeRecovery i st) [] recs = Inr cov"
      "\<forall>op \<in> set (pending st). fld op ''operationId'' \<in> set cov"
      using assms(3) by (auto simp: checkClose_def res_simps split: jv.splits)
    then have "k \<in> set cov" using p id by auto
    from closeRecoveries_covered [OF recs(2) this] show ?thesis using rec recs(1) assms(4) by auto
  qed
qed

definition ex_deferred :: jv where
  "ex_deferred = JObj [(U ''kind'', S ''deferred''), (U ''obligations'', JArr [JObj [(U ''kind'', S ''operation''),
     (U ''operationId'', S ''o''), (U ''operationRevision'', S ''1'')]])]"

theorem close_accounts_for_pending_witness:
  "(fld ex_deferred ''kind'' = S ''deferred'' \<and> (\<exists>ob \<in> set (arr_items (fld ex_deferred ''obligations'')).
          fld ob ''kind'' = S ''operation'' \<and> fld ob ''operationId'' = S ''o''
          \<and> strict_eq (fld (ex_op ''1'' ''running'') ''operationRevision'') (fld ob ''operationRevision'')))
    \<or> (fld ex_deferred ''kind'' = S ''recovery_required'' \<and> status_of (ex_op ''1'' ''running'') = S ''recovery_required''
        \<and> (\<exists>r \<in> set (arr_items (fld ex_deferred ''recoveries'')). fld r ''operationId'' = S ''o''
          \<and> encodeData True (path (ex_op ''1'' ''running'') [''state'', ''recovery'']) = encodeData True r))"
proof (rule close_accounts_for_pending [OF ex_run(1) ex_data_steps(1)])
  show "checkClose 3 ex_st2 ex_deferred = Inr ()"
    by (simp add: tr_eval closeObligation_def ex_deferred_def ex_defs ex_st del: canonical_simps encodeData.simps)
  show "map_of (operations ex_st2) (S ''o'') = Some (ex_op ''1'' ''running'')" by (simp add: ex_st)
  show "\<not> completed (ex_op ''1'' ''running'')" by (simp add: completed_def status_of_def ex_defs)
qed

text \<open>
  A complete snapshot is complete. When an accepted snapshot declares its inventory complete, every
  operation the transcript has shown and that is not completed is among its items, and the cursor it
  reports is the checker's.
\<close>

theorem complete_snapshot_lists_pending:
  assumes "run_steps initial_checker xs = Inr st" and "data_steps xs"
    and "snapshot_exchange i c st = Inr st'" and "path (reply_output c) [''operations'', ''completeness''] = S ''complete''"
    and "map_of (operations st) k = Some op" and "\<not> completed op"
  shows "(\<exists>item \<in> set (arr_items (path (reply_output c) [''operations'', ''items''])). fld item ''operationId'' = k)
    \<and> encodeData True (fld (reply_output c) ''cursor'') = encodeData True (cursor st)"
proof -
  note inv = reached_invariants(1) [OF assms(1,2)]
  have p: "op \<in> set (pending st)" and id: "fld op ''operationId'' = k"
    using pending_iff [OF inv] assms(5,6) inv by (auto simp: inv_ops_def opid_def)
  obtain ops included where ops: "path (reply_output c) [''operations'', ''items''] = JArr ops"
    "mapE (\<lambda>operation. getp operation ''operationId'') ops = Inr included"
    "\<forall>known \<in> set (pending st). fld known ''operationId'' \<in> set included"
    "equal i (fld (reply_output c) ''cursor'') (cursor st) = Inr True"
    using assms(3,4) by (auto simp: snapshot_exchange_def Let_def bindE_Inr rejectWhen_Inr notE_False getp_Inr split: jv.splits)
  have "k \<in> set included" using ops(3) p id by auto
  then obtain n where n: "n < length included" "included ! n = k" by (auto simp: in_set_conv_nth)
  have "length ops = length included" "getp (ops ! n) ''operationId'' = Inr (included ! n)"
    using ops(2) n(1) by (auto simp: mapE_Inr list_all2_conv_all_nth)
  then have "ops ! n \<in> set ops" "fld (ops ! n) ''operationId'' = k" using n by (auto simp: getp_Inr)
  then have "\<exists>item \<in> set ops. fld item ''operationId'' = k" by blast
  then show ?thesis using ops(1) equal_True [OF ops(4)] by simp
qed

definition ex_snapshot :: call where
  "ex_snapshot = \<lparr>family = S ''query'', invocation = JObj [], rejected = False, errorCode = JUndef,
     reply_output = JObj [(U ''cursor'', ex_cursor ''0''), (U ''operations'', JObj [(U ''completeness'', S ''complete''),
       (U ''items'', JArr [ex_op ''1'' ''running''])])]\<rparr>"

theorem complete_snapshot_lists_pending_witness:
  "(\<exists>item \<in> set (arr_items (path (reply_output ex_snapshot) [''operations'', ''items''])). fld item ''operationId'' = S ''o'')
    \<and> encodeData True (fld (reply_output ex_snapshot) ''cursor'') = encodeData True (cursor ex_st2)"
proof (rule complete_snapshot_lists_pending [OF ex_run(1) ex_data_steps(1)])
  show "snapshot_exchange 3 ex_snapshot ex_st2 = Inr ex_st2"
    by (simp add: tr_eval snapshot_exchange_def ex_snapshot_def ex_defs ex_st del: canonical_simps encodeData.simps)
  show "map_of (operations ex_st2) (S ''o'') = Some (ex_op ''1'' ''running'')" by (simp add: ex_st)
  show "\<not> completed (ex_op ''1'' ''running'')" by (simp add: completed_def status_of_def ex_defs)
qed (simp add: ex_snapshot_def)

text \<open>
  The table of cancellation dispositions is an object literal, so a disposition named like a property of
  \<^verbatim>\<open>Object.prototype\<close> passes whatever the operation's state; the schema does not let one through.
\<close>

lemma cancel_disposition_prototype: "cancel_disposition (S ''toString'') status outcome"
  by (simp add: cancel_disposition_def)


end
