(* ===== verification/Client_Wire.thy ===== *)
theory Client_Wire imports Canonical begin

text \<open>
  The browser client's boundary, \<^verbatim>\<open>ui/src/client/wire.ts\<close>: \<open>captureData\<close>, which copies a value of
  unknown origin into detached plain data, \<open>canonicalData\<close>, and the decoders of frames.

  A value of unknown origin is a value over a heap of JavaScript objects: an object has a
  prototype, own properties with descriptors and possibly symbol keys; references can be shared
  or cyclic. Proxies are not modelled. The recursion of \<open>copy\<close> ends because it refuses depth 32.
\<close>

section \<open>Foreign values\<close>

datatype fv =
    FUndef
  | FNull
  | FBool bool
  | FInt int
  | FNegZero
  | FNumber
  | FStr ustr
  | FOther
  | FRef nat

datatype prototype = ArrayPrototype | ObjectPrototype | NullPrototype | OtherPrototype

datatype descriptor = DataProperty fv bool | AccessorProperty bool

record fobject =
  is_arr :: bool
  proto :: prototype
  own_props :: "(ustr \<times> descriptor) list"
  symbol_keys :: nat

type_synonym heap = "nat \<Rightarrow> fobject"

abbreviation boundary_error :: "string \<Rightarrow> 'a res" where
  "boundary_error code \<equiv> Inl (ClientBoundaryError code)"

definition spend :: "int \<Rightarrow> nat \<Rightarrow> int res" where
  "spend budget cost = (if budget - int cost < 0 then boundary_error ''invalid_capture'' else Inr (budget - int cost))"

text \<open>A data property that is enumerable, or a refusal.\<close>

definition data_property :: "(ustr \<times> descriptor) list \<Rightarrow> ustr \<Rightarrow> fv res" where
  "data_property props key =
     (case map_of props key of
        Some (DataProperty v True) \<Rightarrow> Inr v
      | _ \<Rightarrow> boundary_error ''invalid_capture'')"

definition array_length :: "(ustr \<times> descriptor) list \<Rightarrow> nat res" where
  "array_length props =
     (case map_of props (U ''length'') of
        Some (DataProperty (FInt n) _) \<Rightarrow>
          if n < 0 \<or> n > int MAX_WIRE_BYTES \<or> int (length props) \<noteq> n + 1 then boundary_error ''invalid_capture''
          else Inr (nat n)
      | _ \<Rightarrow> boundary_error ''invalid_capture'')"

text \<open>
  \<open>copy h ancestors left v budget\<close> is \<^verbatim>\<open>copy(v, depth)\<close> at \<^verbatim>\<open>depth = 32 - left\<close>; it returns the copy and
  the budget that remains. The two loops are folds over the indices and over the keys.
\<close>

function copy :: "heap \<Rightarrow> nat list \<Rightarrow> nat \<Rightarrow> fv \<Rightarrow> int \<Rightarrow> (jv \<times> int) res" where
  "copy h ancestors left v budget =
     (case v of
        FNull \<Rightarrow> bindE (spend budget 4) (\<lambda>b. Inr (JNull, b))
      | FBool x \<Rightarrow> bindE (spend budget (if x then 4 else 5)) (\<lambda>b. Inr (JBool x, b))
      | FStr s \<Rightarrow> bindE (spend budget (length s + 2)) (\<lambda>b. Inr (JStr s, b))
      | FInt n \<Rightarrow>
          if \<not> safe_integer (JInt n) then boundary_error ''invalid_capture''
          else bindE (spend budget (length (int_text n))) (\<lambda>b. Inr (JInt n, b))
      | FRef a \<Rightarrow>
          (case left of
             0 \<Rightarrow> boundary_error ''invalid_capture''
           | Suc left' \<Rightarrow>
             if a \<in> set ancestors then boundary_error ''invalid_capture''
             else let ob = h a in
               if (if is_arr ob then proto ob \<noteq> ArrayPrototype else proto ob \<noteq> ObjectPrototype \<and> proto ob \<noteq> NullPrototype)
               then boundary_error ''invalid_capture''
               else if length (own_props ob) + symbol_keys ob > MAX_WIRE_BYTES \<or> symbol_keys ob \<noteq> 0
               then boundary_error ''invalid_capture''
               else bindE (spend budget 2) (\<lambda>b0.
                 if is_arr ob then
                   bindE (array_length (own_props ob)) (\<lambda>n.
                   bindE (foldE (\<lambda>(items, b) index.
                       bindE (data_property (own_props ob) (nat_string index)) (\<lambda>w.
                       bindE (if index = 0 then Inr b else spend b 1) (\<lambda>b1.
                       bindE (copy h (a # ancestors) left' w b1) (\<lambda>(j, b2). Inr (items @ [j], b2)))))
                     ([], b0) [0..<n])
                   (\<lambda>(items, b). Inr (JArr items, b)))
                 else
                   bindE (foldE (\<lambda>(fs, b) (index, key).
                       bindE (data_property (own_props ob) key) (\<lambda>w.
                       bindE (spend b (length key + 3 + (if index = 0 then 0 else 1))) (\<lambda>b1.
                       bindE (copy h (a # ancestors) left' w b1) (\<lambda>(j, b2). Inr (fs @ [(key, j)], b2)))))
                     ([], b0) (enumerate 0 (map fst (own_props ob))))
                   (\<lambda>(fs, b). Inr (JObj fs, b))))
      | _ \<Rightarrow> boundary_error ''invalid_capture'')"
  by pat_completeness auto
termination
  by (relation "measure (\<lambda>(h, ancestors, left, v, budget). left)") auto

declare copy.simps [simp del]

definition captureData :: "heap \<Rightarrow> fv \<Rightarrow> jv res" where
  "captureData h value =
     (case bindE (copy h [] MAX_WIRE_DEPTH value (int MAX_WIRE_BYTES)) (\<lambda>(detached, _).
             bindE (decodeStrictJson (TextInput (encodeData False detached))) (\<lambda>_. Inr detached)) of
        Inl _ \<Rightarrow> boundary_error ''invalid_capture''
      | Inr detached \<Rightarrow> Inr detached)"

section \<open>What a copy holds\<close>

text \<open>A wire value up to lone surrogates, which the final decode refuses.\<close>

fun pre_wire :: "nat \<Rightarrow> jv \<Rightarrow> bool" where
  "pre_wire d (JArr vs) \<longleftrightarrow> d < MAX_WIRE_DEPTH \<and> (\<forall>v \<in> set vs. pre_wire (d + 1) v)"
| "pre_wire d (JObj kvs) \<longleftrightarrow> d < MAX_WIRE_DEPTH \<and> distinct (map fst kvs) \<and>
     (\<forall>x \<in> set kvs. units (fst x) \<and> pre_wire (d + 1) (snd x))"
| "pre_wire d (JStr s) \<longleftrightarrow> units s"
| "pre_wire d (JInt i) \<longleftrightarrow> safe_integer (JInt i)"
| "pre_wire d JNull = True"
| "pre_wire d (JBool _) = True"
| "pre_wire d _ = False"

lemma pre_wire_plain: "pre_wire d v \<Longrightarrow> plain v"
  by (induction d v rule: pre_wire.induct) auto

lemma pre_wire_listed: "pre_wire d v \<Longrightarrow> pre_wire d (listed b v)"
  by (induction d v rule: pre_wire.induct) (auto simp: image_iff comp_def case_prod_beta)

lemma wire_value_of_listed: "wire_value d (listed b v) \<Longrightarrow> wire_value d v"
proof (induction v arbitrary: d)
  case (JObj kvs)
  have "map fst (map (\<lambda>(k, w). (k, listed b w)) (listed_entries b kvs)) = map fst (listed_entries b kvs)"
    by (simp add: case_prod_beta')
  with JObj.prems have "distinct (map fst kvs)" by (metis distinct_listed_entries listed.simps(2) wire_value.simps(2))
  moreover have "units (fst x) \<and> validUnicode (fst x) \<and> wire_value (d + 1) (snd x)" if x: "x \<in> set kvs" for x
  proof -
    have "(fst x, listed b (snd x)) \<in> set (map (\<lambda>(k, w). (k, listed b w)) (listed_entries b kvs))"
      using x by (auto simp: image_iff case_prod_beta intro!: bexI [of _ x])
    then have "units (fst x) \<and> validUnicode (fst x) \<and> wire_value (d + 1) (listed b (snd x))"
      using JObj.prems by fastforce
    then show ?thesis using JObj.IH [OF x] by (simp add: snds.simps)
  qed
  ultimately show ?case using JObj.prems by simp
qed auto

lemma parse_quote_iff:
  "units s \<Longrightarrow> parse_string (quote_units s @ 34 # r) = (if validUnicode s then Inr (s, r) else wire_error ''invalid_unicode'')"
  by (simp add: parse_string_def scan_quote body_quote)

inductive_cases reads_valueE: "reads_value d s v r"
inductive_cases reads_itemsE: "reads_items d vs s v r"
inductive_cases reads_membersE: "reads_members d kvs s v r"

text \<open>If the text of such a value is accepted, the value is a wire value and is what was read.\<close>

lemma reads_items_cases:
  "reads_items d acc s u q \<Longrightarrow> \<exists>w r2. reads_value (d + 1) s w r2 \<and>
     (skip_ws r2 = 93 # q \<or> (\<exists>p. skip_ws r2 = 44 # p \<and> reads_items d (acc @ [w]) p u q))"
  by (erule reads_itemsE) auto

lemma reads_members_cases:
  "reads_members d acc s u q \<Longrightarrow> \<exists>t k r1 p w r2. s = 34 # t \<and> parse_string t = Inr (k, r1) \<and> skip_ws r1 = 58 # p
     \<and> reads_value (d + 1) p w r2 \<and>
     (skip_ws r2 = 125 # q \<or> (\<exists>p. skip_ws r2 = 44 # p \<and> reads_members d (acc @ [(k, w)]) (skip_ws p) u q))"
  by (erule reads_membersE) auto

lemma reads_items_back:
  assumes "\<And>v u q r. v \<in> set vs \<Longrightarrow> stop r \<Longrightarrow> reads_value (d + 1) (json_text v @ r) u q \<Longrightarrow> wire_value (d + 1) v \<and> q = r"
    and "vs \<noteq> []" "reads_items d acc (join (map json_text vs) @ 93 # r) u q"
  shows "\<forall>v \<in> set vs. wire_value (d + 1) v"
  using assms
proof (induction vs arbitrary: acc)
  case (Cons v vs)
  let ?tl = "if vs = [] then 93 # r else 44 # join (map json_text vs) @ 93 # r"
  have eq: "join (map json_text (v # vs)) @ 93 # r = json_text v @ ?tl" by (simp add: join_Cons)
  have st: "stop ?tl" by simp
  from reads_items_cases [OF Cons.prems(3) [unfolded eq]] obtain w r2 where
    w: "reads_value (d + 1) (json_text v @ ?tl) w r2"
      "skip_ws r2 = 93 # q \<or> (\<exists>p. skip_ws r2 = 44 # p \<and> reads_items d (acc @ [w]) p u q)" by blast
  from Cons.prems(1) [OF _ st w(1)] have v: "wire_value (d + 1) v" "r2 = ?tl" by auto
  show ?case
  proof (cases "vs = []")
    case True
    then show ?thesis using v by simp
  next
    case False
    with w(2) v(2) have "reads_items d (acc @ [w]) (join (map json_text vs) @ 93 # r) u q" by (simp add: skip_ws_stop)
    from Cons.IH [OF Cons.prems(1) False this] v show ?thesis by simp
  qed
qed simp

lemma reads_members_back:
  assumes "\<And>x u q r. x \<in> set kvs \<Longrightarrow> stop r \<Longrightarrow> reads_value (d + 1) (json_text (snd x) @ r) u q \<Longrightarrow>
      wire_value (d + 1) (snd x) \<and> q = r"
    and "\<forall>x \<in> set kvs. units (fst x)"
    and "kvs \<noteq> []" "reads_members d acc (join (map (\<lambda>x. quote (fst x) @ 58 # json_text (snd x)) kvs) @ 125 # r) u q"
  shows "(\<forall>x \<in> set kvs. validUnicode (fst x) \<and> wire_value (d + 1) (snd x)) \<and> q = r"
  using assms
proof (induction kvs arbitrary: acc)
  case (Cons x kvs)
  let ?f = "\<lambda>x. quote (fst x) @ 58 # json_text (snd x)"
  let ?tl = "if kvs = [] then 125 # r else 44 # join (map ?f kvs) @ 125 # r"
  have eq: "join (map ?f (x # kvs)) @ 125 # r = 34 # quote_units (fst x) @ 34 # 58 # json_text (snd x) @ ?tl"
    by (simp add: join_Cons quote_def)
  have st: "stop ?tl" by simp
  have ws: "skip_ws (58 # t) = 58 # t" for t by (rule skip_ws_id) (simp add: is_ws_def)
  have u: "units (fst x)" using Cons.prems(2) by simp
  from reads_members_cases [OF Cons.prems(4) [unfolded eq]] obtain k r1 p w r2 where
    k: "parse_string (quote_units (fst x) @ 34 # 58 # json_text (snd x) @ ?tl) = Inr (k, r1)" "skip_ws r1 = 58 # p"
    and w: "reads_value (d + 1) p w r2" "skip_ws r2 = 125 # q
      \<or> (\<exists>p. skip_ws r2 = 44 # p \<and> reads_members d (acc @ [(k, w)]) (skip_ws p) u q)" by blast
  have key: "validUnicode (fst x)" "p = json_text (snd x) @ ?tl"
    using k ws parse_quote_iff [OF u, of "58 # json_text (snd x) @ ?tl"] by (auto split: if_splits)
  from Cons.prems(1) [OF _ st w(1) [unfolded key(2)]] have v: "wire_value (d + 1) (snd x)" "r2 = ?tl" by auto
  show ?case
  proof (cases "kvs = []")
    case True
    then show ?thesis using v key w(2) by (auto simp: skip_ws_stop)
  next
    case False
    have "skip_ws (join (map ?f kvs) @ 125 # r) = join (map ?f kvs) @ 125 # r"
      using False by (intro skip_ws_id) (cases kvs, auto simp: join_Cons quote_def is_ws_def)
    with False w(2) v(2) have "reads_members d (acc @ [(k, w)]) (join (map ?f kvs) @ 125 # r) u q"
      by (simp add: skip_ws_stop)
    from Cons.IH [OF Cons.prems(1) _ False this] Cons.prems(2) v key show ?thesis by simp
  qed
qed simp

lemma starts_91: "reads_value d (91 # t) u q \<Longrightarrow> d < MAX_WIRE_DEPTH \<and>
    (skip_ws t = 93 # q \<or> reads_items d [] (skip_ws t) u q)"
  by (erule reads_valueE) (auto simp: skip_ws_def is_ws_def)

lemma starts_123: "reads_value d (123 # t) u q \<Longrightarrow> d < MAX_WIRE_DEPTH \<and>
    (skip_ws t = 125 # q \<or> reads_members d [] (skip_ws t) u q)"
  by (erule reads_valueE) (auto simp: skip_ws_def is_ws_def)

lemma starts_34: "reads_value d (34 # t) u q \<Longrightarrow> \<exists>s. parse_string t = Inr (s, q)"
  by (erule reads_valueE) (auto simp: skip_ws_def is_ws_def)

lemma reads_determined: "reads_value d s u q \<Longrightarrow> reads_value d s u' q' \<Longrightarrow> u = u' \<and> q = q'"
  using reads_parse(1) [of d s u q "2 * length s + 1"] reads_parse(1) [of d s u' q' "2 * length s + 1"] by simp

lemma reads_back: "pre_wire d v \<Longrightarrow> stop r \<Longrightarrow> reads_value d (json_text v @ r) u q \<Longrightarrow> wire_value d v \<and> q = r"
proof (induction d v arbitrary: r u q rule: pre_wire.induct)
  case (1 d vs)
  have sk: "skip_ws (join (map json_text vs) @ 93 # r) = join (map json_text vs) @ 93 # r"
    using "1.prems" pre_wire_plain json_text_first by (cases vs) (auto simp: join_Cons skip_ws_stop)
  from starts_91 [of d "join (map json_text vs) @ 93 # r" u q] "1.prems"(3) sk
  have a: "d < MAX_WIRE_DEPTH" "join (map json_text vs) @ 93 # r = 93 # q \<or> reads_items d [] (join (map json_text vs) @ 93 # r) u q"
    by auto
  show ?case
  proof (cases "vs = []")
    case True
    have "wire_value d (JArr [])" using a by simp
    from reads_determined [OF reads_json_text [OF this "1.prems"(2)]] "1.prems"(3) True
    have "q = r" by auto
    then show ?thesis using a(1) True by simp
  next
    case False
    then obtain v vs' where v: "vs = v # vs'" by (cases vs) auto
    have "plain v" using "1.prems"(1) v pre_wire_plain by auto
    then have "json_text v \<noteq> []" "lead (hd (json_text v)) = lead_kind v" using json_text_lead by auto
    moreover have "lead_kind v \<noteq> 93" by (cases v) auto
    ultimately have "join (map json_text vs) @ 93 # r \<noteq> 93 # q"
      by (cases "json_text v") (auto simp: v join_Cons lead_def digit_def)
    with a have r: "reads_items d [] (join (map json_text vs) @ 93 # r) u q" by blast
    have "(\<forall>v \<in> set vs. wire_value (d + 1) v)"
      by (rule reads_items_back [OF _ False r]) (use "1.IH" "1.prems"(1) in auto)
    then have w: "wire_value d (JArr vs)" using a(1) by simp
    from reads_determined [OF reads_json_text [OF w "1.prems"(2)] "1.prems"(3)] w show ?thesis by simp
  qed
next
  case (2 d kvs)
  let ?f = "\<lambda>x. quote (fst x) @ 58 # json_text (snd x)"
  have sk: "skip_ws (join (map ?f kvs) @ 125 # r) = join (map ?f kvs) @ 125 # r"
    by (intro skip_ws_id) (cases kvs, auto simp: join_Cons quote_def is_ws_def)
  from starts_123 [of d "join (map ?f kvs) @ 125 # r" u q] "2.prems"(3) sk
  have a: "d < MAX_WIRE_DEPTH" "join (map ?f kvs) @ 125 # r = 125 # q \<or> reads_members d [] (join (map ?f kvs) @ 125 # r) u q"
    by auto
  show ?case
  proof (cases "kvs = []")
    case True
    have "wire_value d (JObj [])" using a by simp
    from reads_determined [OF reads_json_text [OF this "2.prems"(2)]] "2.prems"(3) True
    have "q = r" by auto
    then show ?thesis using a(1) True by simp
  next
    case False
    then have "join (map ?f kvs) @ 125 # r \<noteq> 125 # q" by (cases kvs) (auto simp: join_Cons quote_def)
    with a have r: "reads_members d [] (join (map ?f kvs) @ 125 # r) u q" by blast
    have "(\<forall>x \<in> set kvs. validUnicode (fst x) \<and> wire_value (d + 1) (snd x)) \<and> q = r"
      by (rule reads_members_back [OF _ _ False r]) (use "2.IH" "2.prems"(1) in auto)
    then show ?thesis using a(1) "2.prems"(1) by simp
  qed
next
  case (3 d s)
  from starts_34 [of d "quote_units s @ 34 # r" u q] "3.prems" parse_quote_iff [of s r]
  show ?case by (auto simp: quote_def split: if_splits)
next
  case (4 d i)
  then have w: "wire_value d (JInt i)" by simp
  from reads_determined [OF reads_json_text [OF w "4.prems"(2)] "4.prems"(3)] w show ?case by blast
next
  case (5 d)
  have w: "wire_value d JNull" by simp
  from reads_determined [OF reads_json_text [OF w "5.prems"(2)] "5.prems"(3)] w show ?case by blast
next
  case (6 d b)
  have w: "wire_value d (JBool b)" by simp
  from reads_determined [OF reads_json_text [OF w "6.prems"(2)] "6.prems"(3)] w show ?case by blast
qed simp_all


section \<open>Captured data is wire data\<close>

definition heap_ok :: "heap \<Rightarrow> bool" where
  "heap_ok h \<longleftrightarrow> (\<forall>a. distinct (map fst (own_props (h a))) \<and>
     (\<forall>x \<in> set (own_props (h a)). units (fst x) \<and> (\<forall>s e. snd x = DataProperty (FStr s) e \<longrightarrow> units s)))"

definition fv_ok :: "fv \<Rightarrow> bool" where
  "fv_ok v \<longleftrightarrow> (\<forall>s. v = FStr s \<longrightarrow> units s)"

lemma data_property_ok: "heap_ok h \<Longrightarrow> data_property (own_props (h a)) k = Inr w \<Longrightarrow> fv_ok w"
  by (fastforce simp: heap_ok_def data_property_def fv_ok_def split: option.splits descriptor.splits bool.splits dest: map_of_SomeD)

lemma copy_fields:
  assumes "foldE (\<lambda>(fs, b) (index, key).
      bindE (data_property props key) (\<lambda>w.
      bindE (spend b (c index key)) (\<lambda>b1. bindE (g w b1) (\<lambda>(j, b2). Inr (fs @ [(key, j)], b2)))))
    (fs, b) (enumerate n ks) = Inr (fs', b')"
  shows "map fst fs' = map fst fs @ ks \<and>
    (\<forall>x \<in> set fs'. x \<in> set fs \<or> (\<exists>w b1 b2. data_property props (fst x) = Inr w \<and> g w b1 = Inr (snd x, b2)))"
  using assms
proof (induction ks arbitrary: fs b n)
  case (Cons k ks)
  then obtain w b1 j b2 where s: "data_property props k = Inr w" "g w b1 = Inr (j, b2)"
    and rest: "foldE (\<lambda>(fs, b) (index, key).
      bindE (data_property props key) (\<lambda>w.
      bindE (spend b (c index key)) (\<lambda>b1. bindE (g w b1) (\<lambda>(j, b2). Inr (fs @ [(key, j)], b2)))))
    (fs @ [(k, j)], b2) (enumerate (Suc n) ks) = Inr (fs', b')"
    by (auto simp: res_simps)
  from Cons.IH [OF rest] s show ?case by auto
qed simp

lemma copy_pre_wire:
  "copy h A left v b = Inr (j, b') \<Longrightarrow> heap_ok h \<Longrightarrow> fv_ok v \<Longrightarrow> d + left = MAX_WIRE_DEPTH \<Longrightarrow> pre_wire d j"
proof (induction left arbitrary: A v b j b' d)
  case 0
  then show ?case by (subst (asm) copy.simps) (auto simp: res_simps fv_ok_def split: fv.splits if_splits)
next
  case (Suc left)
  have d: "d < MAX_WIRE_DEPTH" "(d + 1) + left = MAX_WIRE_DEPTH" using Suc.prems(4) by auto
  have sub: "pre_wire (d + 1) j" if "data_property (own_props (h a)) k = Inr w" "copy h B left w b1 = Inr (j, b2)" for a k w B b1 j b2
    using Suc.IH [OF that(2) Suc.prems(2) data_property_ok [OF Suc.prems(2) that(1)] d(2)] .
  show ?case
  proof (cases v)
    case (FRef a)
    let ?ps = "own_props (h a)"
    note c = Suc.prems(1) [unfolded FRef, simplified copy.simps [of h A "Suc left"], simplified]
    show ?thesis
    proof (cases "is_arr (h a)")
      case True
      with c obtain b0 n items where items: "foldE (\<lambda>(items, b) index.
           bindE (data_property ?ps (nat_string index)) (\<lambda>w.
           bindE (if index = 0 then Inr b else spend b 1) (\<lambda>b1.
           bindE (copy h (a # A) left w b1) (\<lambda>(j, b2). Inr (items @ [j], b2))))) ([], b0) [0..<n] = Inr (items, b')"
        and j: "j = JArr items"
        by (auto simp: res_simps Let_def split: if_splits)
      have "\<forall>j \<in> set (fst (items, b')). pre_wire (d + 1) j"
      proof (rule foldE_invariant [OF items])
        fix s t :: "jv list \<times> int" and x
        assume IH: "\<forall>j \<in> set (fst s). pre_wire (d + 1) j"
          and "(\<lambda>(items, b) index. bindE (data_property ?ps (nat_string index)) (\<lambda>w.
             bindE (if index = 0 then Inr b else spend b 1) (\<lambda>b1.
             bindE (copy h (a # A) left w b1) (\<lambda>(j, b2). Inr (items @ [j], b2))))) s x = Inr t"
        then obtain w b1 j b2 where "data_property ?ps (nat_string x) = Inr w" "copy h (a # A) left w b1 = Inr (j, b2)"
          "t = (fst s @ [j], b2)"
          by (cases s) (auto simp: res_simps)
        then show "\<forall>j \<in> set (fst t). pre_wire (d + 1) j" using IH sub by auto
      qed simp
      then show ?thesis using j d by simp
    next
      case False
      with c obtain b0 fs where fields: "foldE (\<lambda>(fs, b) (index, key).
           bindE (data_property ?ps key) (\<lambda>w.
           bindE (spend b (length key + 3 + (if index = 0 then 0 else 1))) (\<lambda>b1.
           bindE (copy h (a # A) left w b1) (\<lambda>(j, b2). Inr (fs @ [(key, j)], b2)))))
           ([], b0) (enumerate 0 (map fst ?ps)) = Inr (fs, b')"
        and j: "j = JObj fs"
        by (auto simp: res_simps Let_def split: if_splits)
      from copy_fields [OF fields] have f: "map fst fs = map fst ?ps"
        "\<forall>x \<in> set fs. \<exists>w b1 b2. data_property ?ps (fst x) = Inr w \<and> copy h (a # A) left w b1 = Inr (snd x, b2)"
        by auto
      have "distinct (map fst ?ps)" "\<forall>k \<in> set (map fst ?ps). units k"
        using Suc.prems(2) by (auto simp: heap_ok_def)
      with f have "distinct (map fst fs)" "\<forall>x \<in> set fs. units (fst x)"
        by (metis, metis list.set_map imageI)
      then show ?thesis using j d f(2) sub by auto
    qed
  qed (use Suc.prems in \<open>auto simp: copy.simps [of h A "Suc left"] res_simps fv_ok_def split: if_splits\<close>)
qed

lemma capture_wire_value:
  assumes "captureData h v = Inr w" "heap_ok h" "fv_ok v"
  shows "wire_value 0 w \<and> length (text_encode (encodeData False w)) \<le> MAX_WIRE_BYTES"
proof -
  obtain b u where c: "copy h [] MAX_WIRE_DEPTH v (int MAX_WIRE_BYTES) = Inr (w, b)"
    "decodeStrictJson (TextInput (encodeData False w)) = Inr u"
    using assms(1) by (auto simp: captureData_def res_simps split: sum.splits)
  have p: "pre_wire 0 (listed False w)"
    using copy_pre_wire [OF c(1) assms(2,3)] pre_wire_listed by simp
  from c(2) have d: "length (text_encode (encodeData False w)) \<le> MAX_WIRE_BYTES" "parse_document (encodeData False w) = Inr u"
    using utf8_length [of "encodeData False w"] by (auto simp: decodeStrictJson_def split: if_splits)
  then obtain q where "reads_value 0 (json_text (listed False w) @ []) u q"
    by (auto simp: parse_document_iff encodeData_listed)
  from reads_back [OF p _ this] wire_value_of_listed d(1) show ?thesis by auto
qed


end
