(* ===== verification/Client_Capture.thy ===== *)
theory Client_Capture imports Client_Wire begin

text \<open>
  What \<^verbatim>\<open>ui/src/client/wire.ts\<close> promises to the rest of the browser client: on ordinary data
  \<open>captureData\<close> is \<open>capture\<close>, which keeps what fits the wire and refuses the rest;
  \<open>canonicalData\<close> decides structural equality; frames are decoded by \<open>decode\<close>, whose generated
  validator is a parameter.
\<close>

section \<open>Capturing a plain data tree\<close>

text \<open>
  When the heap below a value is a tree of ordinary data, \<open>captureData\<close> returns that tree or
  refuses it, and it refuses exactly what does not fit the wire. The modules above the boundary
  work on such trees, with \<open>capture\<close> in the place of \<open>captureData\<close>.
\<close>

definition wire_fits :: "jv \<Rightarrow> bool" where
  "wire_fits v \<longleftrightarrow> wire_value 0 v \<and> length (text_encode (encodeData False v)) \<le> MAX_WIRE_BYTES"

definition capture :: "jv \<Rightarrow> jv res" where
  "capture v = (if wire_fits v then Inr v else boundary_error ''invalid_capture'')"

definition canonicalData :: "jv \<Rightarrow> ustr res" where
  "canonicalData v = bindE (capture v) (\<lambda>w. Inr (encodeData True w))"

inductive represents :: "heap \<Rightarrow> fv \<Rightarrow> jv \<Rightarrow> bool" for h where
  rep_null: "represents h FNull JNull"
| rep_bool: "represents h (FBool b) (JBool b)"
| rep_int: "represents h (FInt i) (JInt i)"
| rep_string: "units s \<Longrightarrow> represents h (FStr s) (JStr s)"
| rep_array: "is_arr (h a) \<Longrightarrow> proto (h a) = ArrayPrototype \<Longrightarrow> symbol_keys (h a) = 0 \<Longrightarrow>
    own_props (h a) = zip (map nat_string [0..<length vs]) (map (\<lambda>v. DataProperty v True) vs)
       @ [(U ''length'', DataProperty (FInt (int (length vs))) False)] \<Longrightarrow>
    list_all2 (represents h) vs js \<Longrightarrow> represents h (FRef a) (JArr js)"
| rep_object: "\<not> is_arr (h a) \<Longrightarrow> proto (h a) = ObjectPrototype \<or> proto (h a) = NullPrototype \<Longrightarrow> symbol_keys (h a) = 0 \<Longrightarrow>
    own_props (h a) = map (\<lambda>(k, v). (k, DataProperty v True)) kvs \<Longrightarrow> distinct (map fst kvs) \<Longrightarrow>
    \<forall>k \<in> fst ` set kvs. units k \<Longrightarrow>
    list_all2 (\<lambda>x y. fst x = fst y \<and> represents h (snd x) (snd y)) kvs fs \<Longrightarrow> represents h (FRef a) (JObj fs)"

text \<open>What the budget is charged: the length of the text without escapes.\<close>

fun cost :: "jv \<Rightarrow> nat" where
  "cost (JArr vs) = 2 + sum_list (map cost vs) + (length vs - 1)"
| "cost (JObj kvs) = 2 + sum_list (map (\<lambda>x. length (fst x) + 3 + cost (snd x)) kvs) + (length kvs - 1)"
| "cost (JStr s) = length s + 2"
| "cost (JInt i) = length (int_text i)"
| "cost (JBool b) = (if b then 4 else 5)"
| "cost _ = 4"

lemma body_length: "parse_string_body s = Some v \<Longrightarrow> length v \<le> length s"
proof (induction s arbitrary: v rule: parse_string_body.induct)
  case (2 c cs)
  then show ?case by (fastforce split: if_splits list.splits option.splits)
qed simp

lemma quote_units_longer: "units s \<Longrightarrow> length s \<le> length (quote_units s)"
  using body_length body_quote by blast

lemma length_join: "length (join ts) = sum_list (map length ts) + (length ts - 1)"
  by (induction ts rule: join.induct) auto

lemma cost_text: "plain v \<Longrightarrow> cost v \<le> length (json_text v)"
proof (induction v)
  case (JArr vs)
  then have "sum_list (map cost vs) \<le> sum_list (map length (map json_text vs))"
    by (auto simp: comp_def intro!: sum_list_mono)
  then show ?case by (simp add: length_join)
next
  case (JObj kvs)
  let ?f = "\<lambda>x. quote (fst x) @ 58 # json_text (snd x)"
  have "length (fst x) + 3 + cost (snd x) \<le> length (?f x)" if "x \<in> set kvs" for x
    using JObj.IH [OF that, of "snd x"] JObj.prems that quote_units_longer [of "fst x"]
    by (simp add: quote_def snds.simps)
  then have "sum_list (map (\<lambda>x. length (fst x) + 3 + cost (snd x)) kvs) \<le> sum_list (map length (map ?f kvs))"
    by (auto simp: comp_def intro!: sum_list_mono)
  then show ?case by (simp add: length_join)
qed (auto simp: quote_def quote_units_longer U_def)

lemma cost_listed: "cost (listed b v) = cost v"
proof (induction v)
  case (JArr vs)
  then have "map cost (map (listed b) vs) = map cost vs" by simp
  then show ?case by (simp only: listed.simps cost.simps length_map)
next
  case (JObj kvs)
  let ?g = "\<lambda>x. length (fst x) + 3 + cost (snd x)"
  have "map ?g (map (\<lambda>(k, w). (k, listed b w)) (listed_entries b kvs)) = map ?g (listed_entries b kvs)"
    using JObj.IH by (simp add: snds.simps case_prod_beta)
  moreover have "sum_list (map ?g (listed_entries b kvs)) = sum_list (map ?g kvs)"
  proof -
    have "sum_mset (mset (map ?g (listed_entries b kvs))) = sum_mset (mset (map ?g kvs))"
      unfolding mset_map mset_listed_entries ..
    then show ?thesis unfolding sum_mset_sum_list .
  qed
  moreover have "length (listed_entries b kvs) = length kvs" by (rule mset_eq_length) simp
  ultimately show ?case by (simp only: listed.simps cost.simps length_map)
qed simp_all

lemma represents_determined: "represents h v j \<Longrightarrow> represents h v j' \<Longrightarrow> j = j'"
proof (induction arbitrary: j' rule: represents.induct)
  case (rep_array a vs js)
  from rep_array.prems rep_array.hyps(1) obtain vs' js' where j': "j' = JArr js'"
    and p: "own_props (h a) = zip (map nat_string [0..<length vs']) (map (\<lambda>v. DataProperty v True) vs')
       @ [(U ''length'', DataProperty (FInt (int (length vs'))) False)]" "list_all2 (represents h) vs' js'"
    by (cases rule: represents.cases) auto
  have "map snd (own_props (h a)) = map (\<lambda>v. DataProperty v True) us @ [DataProperty (FInt (int (length us))) False]"
    if "own_props (h a) = zip (map nat_string [0..<length us]) (map (\<lambda>v. DataProperty v True) us)
       @ [(U ''length'', DataProperty (FInt (int (length us))) False)]" for us
    using that by simp
  from this [OF p(1)] this [OF rep_array.hyps(4)]
  have "map (\<lambda>v. DataProperty v True) vs' = map (\<lambda>v. DataProperty v True) vs" by simp
  then have "vs' = vs" by (rule map_injective) (auto simp: inj_def)
  with rep_array.IH p(2) have "js = js'" by (auto simp: list_all2_conv_all_nth intro!: nth_equalityI)
  with j' show ?case by simp
next
  case (rep_object a kvs fs)
  from rep_object.prems rep_object.hyps(1) obtain kvs' fs' where j': "j' = JObj fs'"
    and p: "own_props (h a) = map (\<lambda>(k, v). (k, DataProperty v True)) kvs'"
      "list_all2 (\<lambda>x y. fst x = fst y \<and> represents h (snd x) (snd y)) kvs' fs'"
    by (cases rule: represents.cases) auto
  have "map (\<lambda>(k, v). (k, DataProperty v True)) kvs' = map (\<lambda>(k, v). (k, DataProperty v True)) kvs"
    using p(1) rep_object.hyps(4) by simp
  then have "kvs' = kvs" by (rule map_injective) (auto simp: inj_def)
  with rep_object.IH p(2) have "fs = fs'" by (auto simp: list_all2_conv_all_nth prod_eq_iff intro!: nth_equalityI)
  with j' show ?case by simp
qed (erule represents.cases; simp)+

text \<open>The two loops, on items that each fit or are refused.\<close>

definition fit :: "nat \<Rightarrow> jv \<Rightarrow> bool" where
  "fit left j \<longleftrightarrow> pre_wire (MAX_WIRE_DEPTH - left) j"

definition charge :: "bool \<Rightarrow> nat \<Rightarrow> jv \<Rightarrow> int \<Rightarrow> (jv \<times> int) res" where
  "charge ok c j b = (if ok \<and> int c \<le> b then Inr (j, b - int c) else boundary_error ''invalid_capture'')"

definition item_turn :: "(nat \<Rightarrow> fv res) \<Rightarrow> (fv \<Rightarrow> int \<Rightarrow> (jv \<times> int) res) \<Rightarrow> jv list \<times> int \<Rightarrow> nat \<Rightarrow> (jv list \<times> int) res" where
  "item_turn p g = (\<lambda>(items, b) index. bindE (p index) (\<lambda>w.
       bindE (if index = 0 then Inr b else spend b 1) (\<lambda>b1.
       bindE (g w b1) (\<lambda>(j, b2). Inr (items @ [j], b2)))))"

definition field_turn :: "(ustr \<Rightarrow> fv res) \<Rightarrow> (fv \<Rightarrow> int \<Rightarrow> (jv \<times> int) res) \<Rightarrow> (ustr \<times> jv) list \<times> int \<Rightarrow> nat \<times> ustr
    \<Rightarrow> ((ustr \<times> jv) list \<times> int) res" where
  "field_turn p g = (\<lambda>(fs, b) (index, key). bindE (p key) (\<lambda>w.
       bindE (spend b (length key + 3 + (if index = 0 then 0 else 1))) (\<lambda>b1.
       bindE (g w b1) (\<lambda>(j, b2). Inr (fs @ [(key, j)], b2)))))"

lemma item_turn_charge:
  assumes "p n = Inr v" "\<And>b. b \<le> bmax \<Longrightarrow> g v b = charge ok c j b" "b \<le> bmax"
  shows "item_turn p g (items, b) n = (if ok \<and> int (c + (if n = 0 then 0 else 1)) \<le> b
     then Inr (items @ [j], b - int (c + (if n = 0 then 0 else 1))) else boundary_error ''invalid_capture'')"
proof (cases "n = 0")
  case True
  then show ?thesis using assms by (simp add: item_turn_def charge_def)
next
  case False
  then show ?thesis using assms by (auto simp: item_turn_def charge_def spend_def)
qed

lemma field_turn_charge:
  assumes "p k = Inr v" "\<And>b. b \<le> bmax \<Longrightarrow> g v b = charge ok c j b" "b \<le> bmax"
  shows "field_turn p g (fs, b) (n, k) = (if ok \<and> int (length k + 3 + c + (if n = 0 then 0 else 1)) \<le> b
     then Inr (fs @ [(k, j)], b - int (length k + 3 + c + (if n = 0 then 0 else 1))) else boundary_error ''invalid_capture'')"
  using assms by (auto simp: field_turn_def charge_def spend_def)

text \<open>A loop whose turns charge a price ends with the sum of the prices or a refusal.\<close>

lemma charged_loop:
  assumes "\<And>i items b. i < length xs \<Longrightarrow> b \<le> bmax \<Longrightarrow> body (items, b) (xs ! i) =
      (if ok i \<and> int (c i) \<le> b then Inr (items @ [y i], b - int (c i)) else Inl e)"
    and "b \<le> bmax"
  shows "foldE body (items, b) xs = (if (\<forall>i < length xs. ok i) \<and> (xs = [] \<or> int (\<Sum>i < length xs. c i) \<le> b)
      then Inr (items @ map y [0..<length xs], b - int (\<Sum>i < length xs. c i)) else Inl e)"
  using assms
proof (induction xs arbitrary: items b rule: rev_induct)
  case (snoc x xs)
  have IH: "foldE body (items, b) xs = (if (\<forall>i < length xs. ok i) \<and> (xs = [] \<or> int (\<Sum>i < length xs. c i) \<le> b)
      then Inr (items @ map y [0..<length xs], b - int (\<Sum>i < length xs. c i)) else Inl e)"
  proof (rule snoc.IH [OF _ snoc.prems(2)])
    fix i items b assume "i < length xs" "b \<le> bmax"
    then show "body (items, b) (xs ! i) = (if ok i \<and> int (c i) \<le> b then Inr (items @ [y i], b - int (c i)) else Inl e)"
      using snoc.prems(1) [of i b items] by (simp add: nth_append)
  qed
  have last: "b \<le> bmax \<Longrightarrow> body (items, b) x = (if ok (length xs) \<and> int (c (length xs)) \<le> b
      then Inr (items @ [y (length xs)], b - int (c (length xs))) else Inl e)" for items b
    using snoc.prems(1) [of "length xs"] by simp
  have le: "b - int (\<Sum>i < length xs. c i) \<le> bmax"
    using snoc.prems(2) of_nat_0_le_iff [of "\<Sum>i < length xs. c i"] by linarith
  show ?case
  proof (cases "(\<forall>i < length xs. ok i) \<and> (xs = [] \<or> int (\<Sum>i < length xs. c i) \<le> b)")
    case True
    then show ?thesis using last [OF le] IH
      by (auto simp: foldE_append less_Suc_eq)
  next
    case False
    then show ?thesis using IH by (auto simp: foldE_append less_Suc_eq)
  qed
qed simp


lemma sum_upto_list: "(\<Sum>i < length xs. f (xs ! i)) = sum_list (map f xs)"
  by (simp add: sum_list_sum_nth atLeast0LessThan)

lemma array_own_props:
  assumes "ps = zip (map nat_string [0..<length vs]) (map (\<lambda>v. DataProperty v True) vs)
       @ [(U ''length'', DataProperty (FInt (int (length vs))) False)]"
  shows "i < length vs \<Longrightarrow> data_property (ps) (nat_string i) = Inr (vs ! i)"
    "array_length (ps) = (if length vs \<le> MAX_WIRE_BYTES then Inr (length vs) else boundary_error ''invalid_capture'')"
proof -
  let ?z = "zip (map nat_string [0..<length vs]) (map (\<lambda>v. DataProperty v True) vs)"
  show "data_property (ps) (nat_string i) = Inr (vs ! i)" if "i < length vs"
  proof -
    have "map_of ?z (nat_string i) = Some (DataProperty (vs ! i) True)"
      by (rule map_of_is_SomeI) (use that in \<open>auto simp: set_zip distinct_map inj_on_def intro!: exI [of _ i]\<close>)
    then show ?thesis by (simp add: data_property_def assms map_add_def)
  qed
  have ne: "nat_string n \<noteq> U ''length''" "U ''length'' \<noteq> nat_string n" for n
    using nat_string_first [of n] by (cases "nat_string n"; auto simp: U_def digit_def)+
  have z: "map_of ?z (U ''length'') = None" by (auto simp: map_of_eq_None_iff set_zip ne)
  have l: "map_of (ps) (U ''length'') = Some (DataProperty (FInt (int (length vs))) False)"
    unfolding assms map_of_append map_add_def z by simp
  have n: "length (ps) = length vs + 1" by (simp add: assms)
  show "array_length (ps) = (if length vs \<le> MAX_WIRE_BYTES then Inr (length vs) else boundary_error ''invalid_capture'')"
    by (simp add: array_length_def l n)
qed

lemma foldE_body_cong: "(\<And>s x. x \<in> set xs \<Longrightarrow> f s x = g s x) \<Longrightarrow> foldE f s xs = foldE g s xs"
  by (rule foldE_cong) auto

lemma cost_pos: "1 \<le> cost j"
  by (cases j) (auto simp: int_text_def Suc_le_eq)

lemma sum_list_above: "(\<And>x. x \<in> set xs \<Longrightarrow> 1 \<le> f x) \<Longrightarrow> length xs \<le> sum_list (map f xs)" for f :: "'a \<Rightarrow> nat"
proof (induction xs)
  case (Cons x xs)
  then have "1 \<le> f x" "length xs \<le> sum_list (map f xs)" by simp_all
  then show ?case by simp
qed simp

lemma cost_above: "length js + 2 \<le> cost (JArr js)" "length fs + 2 \<le> cost (JObj fs)"
  using sum_list_above [of js cost] sum_list_above [of fs "\<lambda>x. length (fst x) + 3 + cost (snd x)"] cost_pos by auto

lemma first_free: "(\<Sum>i < n. if i = 0 then 0 else 1) = n - (1::nat)"
  by (induction n) auto

text \<open>The step of \<open>copy\<close> on an array and on an object of ordinary shape.\<close>

lemma copy_array:
  assumes "is_arr (h a)" "proto (h a) = ArrayPrototype" "symbol_keys (h a) = 0" "a \<notin> set A"
  shows "copy h A (Suc l) (FRef a) b =
    (if length (own_props (h a)) > MAX_WIRE_BYTES then boundary_error ''invalid_capture''
     else bindE (spend b 2) (\<lambda>b0. bindE (array_length (own_props (h a))) (\<lambda>n.
       bindE (foldE (item_turn (\<lambda>index. data_property (own_props (h a)) (nat_string index)) (copy h (a # A) l)) ([], b0) [0..<n])
         (\<lambda>(items, b). Inr (JArr items, b)))))"
  using assms by (simp add: copy.simps [of h A "Suc l"] item_turn_def Let_def)

lemma copy_object:
  assumes "\<not> is_arr (h a)" "proto (h a) = ObjectPrototype \<or> proto (h a) = NullPrototype" "symbol_keys (h a) = 0" "a \<notin> set A"
  shows "copy h A (Suc l) (FRef a) b =
    (if length (own_props (h a)) > MAX_WIRE_BYTES then boundary_error ''invalid_capture''
     else bindE (spend b 2) (\<lambda>b0.
       bindE (foldE (field_turn (data_property (own_props (h a))) (copy h (a # A) l)) ([], b0) (enumerate 0 (map fst (own_props (h a)))))
         (\<lambda>(fs, b). Inr (JObj fs, b))))"
  using assms by (auto simp add: copy.simps [of h A "Suc l"] field_turn_def Let_def)

text \<open>What both cases end with: the loop under the price of the brackets.\<close>

lemma bracket_charge:
  assumes "\<And>b. b \<le> bmax \<Longrightarrow> loop b = (if ok \<and> (z \<or> int c \<le> b) then Inr (y, b - int c) else boundary_error ''invalid_capture'')"
    and "b \<le> bmax" "z \<Longrightarrow> c = 0"
  shows "bindE (spend b 2) (\<lambda>b0. bindE (loop b0) (\<lambda>(y, b). Inr (f y, b))) = charge ok (c + 2) (f y) b"
proof -
  have "b - 2 \<le> bmax" using assms(2) by simp
  from assms(1) [OF this] show ?thesis using assms(3) by (auto simp: spend_def charge_def)
qed

lemma copy_represents:
  "represents h v j \<Longrightarrow> left \<le> MAX_WIRE_DEPTH \<Longrightarrow> b \<le> int MAX_WIRE_BYTES \<Longrightarrow>
    (\<And>a. a \<in> set A \<Longrightarrow> \<exists>ja. represents h (FRef a) ja \<and> size j < size ja) \<Longrightarrow>
    copy h A left v b = charge (fit left j) (cost j) j b"
proof (induction arbitrary: left b A rule: represents.induct)
  case (rep_array a vs js)
  have rep: "represents h (FRef a) (JArr js)"
    using rep_array by (intro represents.rep_array) (auto elim: list_all2_mono)
  show ?case
  proof (cases left)
    case 0
    then show ?thesis by (simp add: copy.simps fit_def charge_def)
  next
    case (Suc l)
    have fresh: "a \<notin> set A" using rep_array.prems(3) represents_determined [OF rep] by fastforce
    have d: "MAX_WIRE_DEPTH - left < MAX_WIRE_DEPTH" "Suc (MAX_WIRE_DEPTH - left) = MAX_WIRE_DEPTH - l"
      using Suc rep_array.prems(1) by auto
    have len: "length vs = length js" using rep_array.IH by (rule list_all2_lengthD)
    have each: "copy h (a # A) l (vs ! i) b = charge (fit l (js ! i)) (cost (js ! i)) (js ! i) b"
      if "i < length vs" "b \<le> int MAX_WIRE_BYTES" for i b
    proof -
      have small: "size (js ! i) < size (JArr js)" using that(1) len size_item [of "js ! i" js] by simp
      have "\<exists>ja. represents h (FRef a') ja \<and> size (js ! i) < size ja" if mem: "a' \<in> set (a # A)" for a'
      proof (cases "a' = a")
        case False
        then obtain ja where "represents h (FRef a') ja" "size (JArr js) < size ja"
          using mem rep_array.prems(3) by auto
        then show ?thesis using small by (meson less_trans)
      qed (use rep small in blast)
      then show ?thesis using rep_array.IH that Suc rep_array.prems(1)
        by (auto simp: list_all2_conv_all_nth)
    qed
    have loop: "foldE (item_turn (\<lambda>index. data_property (own_props (h a)) (nat_string index)) (copy h (a # A) l)) ([], b) [0..<length vs]
      = (if (\<forall>i < length [0..<length vs]. fit l (js ! i)) \<and> ([0..<length vs] = [] \<or>
            int (\<Sum>i < length [0..<length vs]. cost (js ! i) + (if i = 0 then 0 else 1)) \<le> b)
         then Inr ([] @ map (\<lambda>i. js ! i) [0..<length [0..<length vs]],
            b - int (\<Sum>i < length [0..<length vs]. cost (js ! i) + (if i = 0 then 0 else 1)))
         else boundary_error ''invalid_capture'')" if b: "b \<le> int MAX_WIRE_BYTES" for b
    proof (rule charged_loop [OF _ b])
      fix i items and b :: int assume i: "i < length [0..<length vs]" and b: "b \<le> int MAX_WIRE_BYTES"
      have ith: "[0..<length vs] ! i = i" using i by simp
      show "item_turn (\<lambda>index. data_property (own_props (h a)) (nat_string index)) (copy h (a # A) l) (items, b) ([0..<length vs] ! i)
        = (if fit l (js ! i) \<and> int (cost (js ! i) + (if i = 0 then 0 else 1)) \<le> b
           then Inr (items @ [js ! i], b - int (cost (js ! i) + (if i = 0 then 0 else 1))) else boundary_error ''invalid_capture'')"
        unfolding ith by (rule item_turn_charge [where v = "vs ! i" and bmax = "int MAX_WIRE_BYTES"])
          (use array_own_props(1) [OF rep_array.hyps(4)] each i b in auto)
    qed
    have sum: "(\<Sum>i < length vs. cost (js ! i) + (if i = 0 then 0 else 1)) = sum_list (map cost js) + (length js - 1)"
      by (simp add: sum.distrib len sum_upto_list first_free)
    have all: "(\<forall>i < length vs. fit l (js ! i)) \<longleftrightarrow> fit left (JArr js)"
      using d by (auto simp: fit_def len all_set_conv_all_nth)
    let ?loop = "\<lambda>b. foldE (item_turn (\<lambda>index. data_property (own_props (h a)) (nat_string index)) (copy h (a # A) l)) ([], b) [0..<length vs]"
    have loop': "?loop b = (if fit left (JArr js) \<and> (vs = [] \<or> int (sum_list (map cost js) + (length js - 1)) \<le> b)
       then Inr (js, b - int (sum_list (map cost js) + (length js - 1))) else boundary_error ''invalid_capture'')"
      if "b \<le> int MAX_WIRE_BYTES" for b
    proof -
      have e: "[0..<length vs] = [] \<longleftrightarrow> vs = []" "map (\<lambda>i. js ! i) [0..<length vs] = js" by (simp, simp add: len map_nth)
      show ?thesis using loop [OF that] by (simp only: length_upt diff_zero sum all append_Nil e)
    qed
    have total: "bindE (spend b 2) (\<lambda>b0. bindE (?loop b0) (\<lambda>(items, b). Inr (JArr items, b)))
       = charge (fit left (JArr js)) (sum_list (map cost js) + (length js - 1) + 2) (JArr js) b"
      by (rule bracket_charge [OF loop' rep_array.prems(2)]) (use len in auto)
    have big: "length js + 2 \<le> MAX_WIRE_BYTES" if "int (cost (JArr js)) \<le> b"
      using that cost_above(1) [of js] rep_array.prems(2) by linarith
    have al: "array_length (own_props (h a)) = (if length js \<le> MAX_WIRE_BYTES then Inr (length vs) else boundary_error ''invalid_capture'')"
      using array_own_props(2) [OF rep_array.hyps(4)] len by simp
    have keys: "length (own_props (h a)) = Suc (length js)" using rep_array.hyps(4) len by simp
    show ?thesis
    proof (cases "length js < MAX_WIRE_BYTES")
      case True
      then show ?thesis using total
        by (simp add: Suc copy_array [where h = h and a = a, OF rep_array.hyps(1-3) fresh] keys al add.commute)
    next
      case False
      then have "\<not> int (cost (JArr js)) \<le> b" using big by linarith
      then show ?thesis using False
        by (simp add: Suc copy_array [where h = h and a = a, OF rep_array.hyps(1-3) fresh] keys charge_def del: cost.simps)
    qed
  qed
next
  case (rep_object a kvs fs)
  have rep: "represents h (FRef a) (JObj fs)"
    using rep_object by (intro represents.rep_object) (auto elim: list_all2_mono)
  show ?case
  proof (cases left)
    case 0
    then show ?thesis using rep_object.prems by (simp add: copy.simps fit_def charge_def)
  next
    case (Suc l)
    have fresh: "a \<notin> set A" using rep_object.prems(3) represents_determined [OF rep] by fastforce
    have d: "MAX_WIRE_DEPTH - left < MAX_WIRE_DEPTH" "Suc (MAX_WIRE_DEPTH - left) = MAX_WIRE_DEPTH - l"
      using Suc rep_object.prems(1) by auto
    have len: "length kvs = length fs" using rep_object.IH by (rule list_all2_lengthD)
    have names: "map fst (own_props (h a)) = map fst fs" "length (own_props (h a)) = length fs"
      using rep_object.hyps(4) rep_object.IH len
      by (auto simp: list_all2_conv_all_nth comp_def case_prod_beta intro!: nth_equalityI)
    have key: "fst (kvs ! i) = fst (fs ! i)" if "i < length fs" for i
      using rep_object.IH that by (auto simp: list_all2_conv_all_nth)
    have dp: "data_property (own_props (h a)) (fst (fs ! i)) = Inr (snd (kvs ! i))" if "i < length fs" for i
    proof -
      have "map_of kvs (fst (kvs ! i)) = Some (snd (kvs ! i))"
        using rep_object.hyps(5) that len by (intro map_of_is_SomeI) auto
      then show ?thesis using key [OF that]
        by (simp add: data_property_def rep_object.hyps(4) map_of_map)
    qed
    have each: "copy h (a # A) l (snd (kvs ! i)) b = charge (fit l (snd (fs ! i))) (cost (snd (fs ! i))) (snd (fs ! i)) b"
      if "i < length fs" "b \<le> int MAX_WIRE_BYTES" for i b
    proof -
      have small: "size (snd (fs ! i)) < size (JObj fs)" 
      proof -
        have "size_prod (\<lambda>x. 0) size = (\<lambda>x :: ustr \<times> jv. Suc (size (snd x)))" by (auto simp: fun_eq_iff)
        then show ?thesis using that(1) size_member(1) [of "fs ! i" fs] by simp
      qed
      have "\<exists>ja. represents h (FRef a') ja \<and> size (snd (fs ! i)) < size ja" if mem: "a' \<in> set (a # A)" for a'
      proof (cases "a' = a")
        case False
        then obtain ja where "represents h (FRef a') ja" "size (JObj fs) < size ja"
          using mem rep_object.prems(3) by auto
        then show ?thesis using small by (meson less_trans)
      qed (use rep small in blast)
      then show ?thesis using rep_object.IH that Suc rep_object.prems(1)
        by (auto simp: list_all2_conv_all_nth)
    qed
    let ?xs = "enumerate 0 (map fst fs)"
    let ?c = "\<lambda>i. length (fst (fs ! i)) + 3 + cost (snd (fs ! i)) + (if i = 0 then 0 else 1)"
    let ?loop = "\<lambda>b. foldE (field_turn (data_property (own_props (h a))) (copy h (a # A) l)) ([], b) ?xs"
    have loop: "?loop b = (if (\<forall>i < length ?xs. fit l (snd (fs ! i))) \<and> (?xs = [] \<or> int (\<Sum>i < length ?xs. ?c i) \<le> b)
         then Inr ([] @ map (\<lambda>i. (fst (fs ! i), snd (fs ! i))) [0..<length ?xs], b - int (\<Sum>i < length ?xs. ?c i))
         else boundary_error ''invalid_capture'')" if b: "b \<le> int MAX_WIRE_BYTES" for b
    proof (rule charged_loop [OF _ b])
      fix i items and b :: int assume i: "i < length ?xs" and b: "b \<le> int MAX_WIRE_BYTES"
      have ith: "?xs ! i = (i, fst (fs ! i))" using i by (simp add: nth_enumerate_eq)
      show "field_turn (data_property (own_props (h a))) (copy h (a # A) l) (items, b) (?xs ! i)
        = (if fit l (snd (fs ! i)) \<and> int (?c i) \<le> b
           then Inr (items @ [(fst (fs ! i), snd (fs ! i))], b - int (?c i)) else boundary_error ''invalid_capture'')"
        unfolding ith by (rule field_turn_charge [where v = "snd (kvs ! i)" and bmax = "int MAX_WIRE_BYTES"])
          (use dp [of i] each [of i] i b in auto)
    qed
    let ?s = "sum_list (map (\<lambda>x. length (fst x) + 3 + cost (snd x)) fs) + (length fs - 1)"
    have sum: "(\<Sum>i < length fs. ?c i) = ?s"
    proof -
      have "(\<Sum>i < length fs. ?c i) = (\<Sum>i < length fs. length (fst (fs ! i)) + 3 + cost (snd (fs ! i))) + (\<Sum>i < length fs. if i = 0 then 0 else 1)"
        by (rule sum.distrib)
      then show ?thesis unfolding first_free sum_upto_list [of "\<lambda>x. length (fst x) + 3 + cost (snd x)" fs] .
    qed
    have all: "(\<forall>i < length fs. fit l (snd (fs ! i))) \<longleftrightarrow> fit left (JObj fs)"
    proof -
      have n: "map fst fs = map fst kvs" using key len by (auto intro: nth_equalityI)
      then have "fst ` set fs = fst ` set kvs" by (metis list.set_map)
      then have "\<forall>x \<in> set fs. units (fst x)" using rep_object.hyps(6) by blast
      moreover have "distinct (map fst fs)" using rep_object.hyps(5) n by simp
      ultimately show ?thesis using d by (auto simp: fit_def all_set_conv_all_nth)
    qed
    have loop': "?loop b = (if fit left (JObj fs) \<and> (fs = [] \<or> int ?s \<le> b)
       then Inr (fs, b - int ?s) else boundary_error ''invalid_capture'')"
      if "b \<le> int MAX_WIRE_BYTES" for b
    proof -
      have e: "?xs = [] \<longleftrightarrow> fs = []" "map (\<lambda>i. fs ! i) [0..<length fs] = fs" "length ?xs = length fs" by (simp_all add: map_nth flip: length_0_conv)
      show ?thesis using loop [OF that] by (simp only: prod.collapse e sum all append_Nil)
    qed
    have total: "bindE (spend b 2) (\<lambda>b0. bindE (?loop b0) (\<lambda>(items, b). Inr (JObj items, b)))
       = charge (fit left (JObj fs)) (?s + 2) (JObj fs) b"
      by (rule bracket_charge [OF loop' rep_object.prems(2)]) auto
    show ?thesis
    proof (cases "length fs \<le> MAX_WIRE_BYTES")
      case True
      then show ?thesis using total
        by (simp add: Suc copy_object [where h = h and a = a, OF rep_object.hyps(1-3) fresh] names add.commute)
    next
      case False
      then have "\<not> int (cost (JObj fs)) \<le> b" using cost_above(2) [of fs] rep_object.prems(2) by linarith
      then show ?thesis using False
        by (simp add: Suc copy_object [where h = h and a = a, OF rep_object.hyps(1-3) fresh] names charge_def del: cost.simps)
    qed
  qed
qed (simp_all add: copy.simps charge_def fit_def spend_def pre_wire.simps)


lemma wire_pre_wire: "wire_value d v \<Longrightarrow> pre_wire d v"
  by (induction d v rule: pre_wire.induct) auto

lemma captureData_represents:
  assumes "represents h v j" shows "captureData h v = capture j"
proof -
  have c: "copy h [] MAX_WIRE_DEPTH v (int MAX_WIRE_BYTES) = charge (pre_wire 0 j) (cost j) j (int MAX_WIRE_BYTES)"
    using copy_represents [OF assms, of MAX_WIRE_DEPTH "int MAX_WIRE_BYTES" "[]"] by (simp add: fit_def)
  have decoded: "wire_fits j" if "decodeStrictJson (TextInput (encodeData False j)) = Inr u" "pre_wire 0 j" for u
  proof -
    from that have d: "length (text_encode (encodeData False j)) \<le> MAX_WIRE_BYTES" "parse_document (encodeData False j) = Inr u"
      using utf8_length [of "encodeData False j"] by (auto simp: decodeStrictJson_def split: if_splits)
    then obtain q where "reads_value 0 (json_text (listed False j) @ []) u q"
      by (auto simp: parse_document_iff encodeData_listed)
    from reads_back [OF pre_wire_listed [OF that(2)] _ this] wire_value_of_listed d(1) show ?thesis by (auto simp: wire_fits_def)
  qed
  show ?thesis
  proof (cases "wire_fits j")
    case True
    then have w: "wire_value 0 j" "length (text_encode (encodeData False j)) \<le> MAX_WIRE_BYTES" by (auto simp: wire_fits_def)
    have "cost j \<le> length (encodeData False j)"
      using cost_text [OF wire_value_plain [OF wire_value_listed [OF w(1), of False]]] cost_listed [of False j] by (simp only: encodeData_listed)
    also have "\<dots> \<le> MAX_WIRE_BYTES" using utf8_length [of "encodeData False j"] w(2)
      valid_units_text [OF wire_value_listed [OF w(1)], of False] by (simp add: encodeData_listed)
    finally have "captureData h v = (case decodeStrictJson (TextInput (encodeData False j)) of Inl _ \<Rightarrow> boundary_error ''invalid_capture'' | Inr _ \<Rightarrow> Inr j)"
      using wire_pre_wire [OF w(1)] by (simp add: captureData_def c charge_def bindE_def split: sum.splits)
    moreover have "decodeStrictJson (TextInput (encodeData False j)) = Inr (listed False j)"
      using valid_units_text [OF wire_value_listed [OF w(1)]] parse_document_json_text [OF wire_value_listed [OF w(1)]] w(2)
      by (simp add: decode_text_iff encodeData_listed)
    ultimately show ?thesis using True by (simp add: capture_def)
  next
    case False
    then show ?thesis using decoded
      by (auto simp: captureData_def c charge_def capture_def bindE_def split: sum.splits)
  qed
qed

section \<open>Structural comparison\<close>

fun data_eq :: "jv \<Rightarrow> jv \<Rightarrow> bool" where
  "data_eq (JArr vs) w = (case w of JArr ws \<Rightarrow> list_all2 data_eq vs ws | _ \<Rightarrow> False)"
| "data_eq (JObj kvs) w = (case w of JObj kws \<Rightarrow> length kvs = length kws \<and>
     (\<forall>x \<in> set kvs. \<exists>y \<in> set kws. fst x = fst y \<and> data_eq (snd x) (snd y)) | _ \<Rightarrow> False)"
| "data_eq v w = (v = w)"

lemma sorted_entries_eq_iff:
  assumes "distinct (map fst a)" "distinct (map fst b)"
  shows "map (\<lambda>(k, w). (k, g w)) (listed_entries True a) = map (\<lambda>(k, w). (k, g w)) (listed_entries True b)
     \<longleftrightarrow> length a = length b \<and> (\<forall>x \<in> set a. \<exists>y \<in> set b. fst x = fst y \<and> g (snd x) = g (snd y))" (is "?l = ?r")
proof -
  let ?m = "\<lambda>xs. map (\<lambda>(k, w). (k, g w)) (listed_entries True xs)"
  have fsts: "map fst (?m xs) = map fst (listed_entries True xs)" for xs by (simp add: case_prod_beta)
  have sets: "set (?m xs) = (\<lambda>(k, w). (k, g w)) ` set xs" for xs by simp
  have lens: "length (?m xs) = length xs" for xs by (metis length_map mset_listed_entries size_mset)
  have srt: "sorted (map fst (?m xs))" for xs unfolding fsts by (simp add: listed_entries_def)
  have dst: "distinct (map fst (?m xs))" if "distinct (map fst xs)" for xs unfolding fsts using that by simp
  have card: "card (set (?m xs)) = length xs" if "distinct (map fst xs)" for xs
    using distinct_card [of "?m xs"] lens [of xs] dst [OF that] by (simp only: distinct_map [of fst] simp_thms)
  have "?l \<longleftrightarrow> set (?m a) = set (?m b)"
  proof
    assume e: "set (?m a) = set (?m b)"
    have "inj_on fst (set (?m a))" using dst [OF assms(1)] by (simp only: distinct_map)
    then have "inj_on fst (set (?m a) \<union> set (?m b))" unfolding e [symmetric] by (simp only: Un_absorb)
    from map_sorted_distinct_set_unique [OF this srt dst [OF assms(1)] srt dst [OF assms(2)] e] show ?l .
  qed simp
  also have "\<dots> \<longleftrightarrow> length a = length b \<and> set (?m a) \<subseteq> set (?m b)"
    using card [OF assms(1)] card [OF assms(2)] by (metis List.finite_set card_subset_eq subset_refl)
  also have "set (?m a) \<subseteq> set (?m b) \<longleftrightarrow> (\<forall>x \<in> set a. \<exists>y \<in> set b. fst x = fst y \<and> g (snd x) = g (snd y))"
    unfolding sets image_subset_iff by (simp add: image_iff case_prod_beta)
  finally show ?thesis .
qed

lemma listed_eq_iff: "wire_value d v \<Longrightarrow> wire_value d w \<Longrightarrow> listed True v = listed True w \<longleftrightarrow> data_eq v w"
proof (induction v w arbitrary: d rule: data_eq.induct)
  case (1 vs w)
  show ?case
  proof (cases w)
    case (JArr ws)
    then have "listed True a = listed True b \<longleftrightarrow> data_eq a b" if "a \<in> set vs" "b \<in> set ws" for a b
      using 1 that by auto
    then have "list_all2 data_eq vs ws \<longleftrightarrow> list_all2 (\<lambda>a b. listed True a = listed True b) vs ws"
      by (auto simp: list_all2_conv_all_nth)
    also have "\<dots> \<longleftrightarrow> map (listed True) vs = map (listed True) ws"
      by (auto simp: list_all2_conv_all_nth list_eq_iff_nth_eq)
    finally show ?thesis using JArr by simp
  qed auto
next
  case (2 kvs w)
  show ?case
  proof (cases w)
    case (JObj kws)
    have "listed True (snd x) = listed True (snd y) \<longleftrightarrow> data_eq (snd x) (snd y)" if "x \<in> set kvs" "y \<in> set kws" for x y
    proof -
      have "wire_value (d + 1) (snd x)" "wire_value (d + 1) (snd y)" using 2 JObj that by auto
      then show ?thesis using "2.IH" [OF JObj that] by blast
    qed
    moreover have "distinct (map fst kvs)" "distinct (map fst kws)" using 2 JObj by auto
    ultimately show ?thesis using JObj by (auto simp: sorted_entries_eq_iff)
  qed auto
qed (auto split: jv.splits; (rename_tac w d, case_tac w; auto))+


section \<open>Frames\<close>

definition decode :: "(jv \<Rightarrow> bool) \<Rightarrow> wire_input \<Rightarrow> jv res" where
  "decode validator frame =
     (case decodeStrictJson frame of
        Inl _ \<Rightarrow> boundary_error ''framing''
      | Inr parsed \<Rightarrow>
          if own parsed ''protocolVersion'' \<and> \<not> strict_eq (fld parsed ''protocolVersion'') (JInt 1)
          then boundary_error ''incompatible_envelope''
          else if \<not> validator parsed then boundary_error ''schema''
          else capture parsed)"

definition captureRequest :: "(jv \<Rightarrow> bool) \<Rightarrow> heap \<Rightarrow> fv \<Rightarrow> (jv \<times> ustr) res" where
  "captureRequest validateRequest h value =
     bindE (captureData h value) (\<lambda>w.
     bindE (decode validateRequest (TextInput (encodeData False w))) (\<lambda>request.
       Inr (request, encodeData False w)))"

lemma capture_Inr [res_simps]: "capture v = Inr w \<longleftrightarrow> wire_fits v \<and> w = v"
  by (auto simp: capture_def)

text \<open>Listing a listed value again changes nothing, and does not move its version.\<close>

lemma insort_key_map: "insort_key (\<lambda>x. f (fst x)) (fst a, g (snd a)) (map (\<lambda>x. (fst x, g (snd x))) xs)
    = map (\<lambda>x. (fst x, g (snd x))) (insort_key (\<lambda>x. f (fst x)) a xs)"
  by (induction xs) auto

lemma sort_key_map: "sort_key (\<lambda>x. f (fst x)) (map (\<lambda>x. (fst x, g (snd x))) xs)
    = map (\<lambda>x. (fst x, g (snd x))) (sort_key (\<lambda>x. f (fst x)) xs)"
  by (induction xs) (simp_all add: insort_key_map)

lemma own_entries_map: "own_entries (map (\<lambda>x. (fst x, g (snd x))) kvs) = map (\<lambda>x. (fst x, g (snd x))) (own_entries kvs)"
  by (simp add: own_entries_def comp_def filter_map sort_key_map)

lemma own_entries_again: "own_entries (own_entries kvs) = own_entries kvs"
proof -
  let ?a = "sort_key (digits_value \<circ> fst) (filter (index_key \<circ> fst) kvs)" and ?b = "filter (Not \<circ> index_key \<circ> fst) kvs"
  have a: "filter (index_key \<circ> fst) ?a = ?a" "filter (Not \<circ> index_key \<circ> fst) ?a = []"
    and b: "filter (index_key \<circ> fst) ?b = []" "filter (Not \<circ> index_key \<circ> fst) ?b = ?b"
    unfolding filter_id_conv filter_empty_conv by auto
  then have "filter (index_key \<circ> fst) (?a @ ?b) = ?a" "filter (Not \<circ> index_key \<circ> fst) (?a @ ?b) = ?b"
    unfolding filter_append by (simp_all only: append_Nil append_Nil2)
  then show ?thesis unfolding own_entries_def by (simp only: sort_key_id_if_sorted sorted_sort_key)
qed

lemma listed_JObj: "listed False (JObj kvs) = JObj (map (\<lambda>x. (fst x, listed False (snd x))) (own_entries kvs))"
  by (simp add: listed_entries_def case_prod_beta')

lemma set_own_entries: "set (own_entries kvs) = set kvs"
  using set_listed_entries [of False kvs] by (simp only: listed_entries_def if_False)

lemma listed_again: "listed False (listed False v) = listed False v"
proof (induction v)
  case (JObj kvs)
  let ?g = "\<lambda>x. (fst x, listed False (snd x))"
  have "map ?g (map ?g (own_entries kvs)) = map ?g (own_entries kvs)"
    using JObj.IH by (auto simp: set_own_entries snds.simps)
  then show ?case unfolding listed_JObj own_entries_map own_entries_again by simp
qed simp_all

lemma listed_version:
  assumes "wire_value d w"
  shows "own (listed False w) k = own w k" "strict_eq (fld (listed False w) k) (JInt i) = strict_eq (fld w k) (JInt i)"
proof -
  show "own (listed False w) k = own w k" by (cases w) (auto simp: image_iff case_prod_beta)
  have scalar: "strict_eq (listed False x) (JInt i) = strict_eq x (JInt i)" for x by (cases x) auto
  show "strict_eq (fld (listed False w) k) (JInt i) = strict_eq (fld w k) (JInt i)"
  proof (cases w)
    case (JObj kvs)
    have "distinct (map fst kvs)" using assms JObj by simp
    then have "map_of (listed_entries False kvs) = map_of kvs"
      by (subst map_of_inject_set) simp_all
    then show ?thesis
      using JObj scalar by (simp add: obj_lookup_def map_of_map split: option.splits)
  qed auto
qed

lemma wire_fits_listed: "wire_fits v \<Longrightarrow> wire_fits (listed False v)"
  using wire_value_listed [of 0 v False] by (simp add: wire_fits_def encodeData_listed listed_again)

lemma decode_wire: "decode valid f = Inr w \<Longrightarrow> wire_fits w \<and> valid w \<and> decodeStrictJson f = Inr w"
  by (auto simp: decode_def capture_def split: sum.splits if_splits)

lemma decode_encoded:
  assumes "wire_fits w"
  shows "decode valid (TextInput (encodeData False w)) =
    (if own w ''protocolVersion'' \<and> \<not> strict_eq (fld w ''protocolVersion'') (JInt 1) then boundary_error ''incompatible_envelope''
     else if \<not> valid (listed False w) then boundary_error ''schema'' else Inr (listed False w))"
proof -
  have w: "wire_value 0 w" "length (text_encode (encodeData False w)) \<le> MAX_WIRE_BYTES"
    using assms by (auto simp: wire_fits_def)
  have d: "decodeStrictJson (TextInput (encodeData False w)) = Inr (listed False w)"
    using valid_units_text [OF wire_value_listed [OF w(1)]] parse_document_json_text [OF wire_value_listed [OF w(1)]] w(2)
    by (simp add: decode_text_iff encodeData_listed)
  have v: "own (listed False w) k = own w k" "strict_eq (fld (listed False w) k) (JInt 1) = strict_eq (fld w k) (JInt 1)" for k
    using listed_version [OF w(1)] by auto
  show ?thesis unfolding decode_def d by (simp add: v capture_def wire_fits_listed [OF assms])
qed

lemma data_eq_listed: "data_eq v (listed b v)"
proof (induction v)
  case (JArr vs)
  then show ?case by (simp add: list_all2_conv_all_nth)
next
  case (JObj kvs)
  have "length (listed_entries b kvs) = length kvs" by (metis mset_listed_entries size_mset)
  then show ?case using JObj.IH by (auto simp: snds.simps intro!: bexI)
qed simp_all

lemma canonicalData_listed: "wire_fits w \<Longrightarrow> canonicalData (listed False w) = canonicalData w"
  using listed_eq_iff [of 0 w "listed False w"] data_eq_listed [of w False] wire_fits_listed [of w] wire_value_listed [of 0 w False]
  by (simp add: canonicalData_def capture_def encodeData_listed wire_fits_def)

section \<open>The boundary\<close>

definition example_heap :: heap where
  "example_heap = (\<lambda>_. \<lparr>is_arr = False, proto = ObjectPrototype,
     own_props = [(U ''b'', DataProperty (FInt 2) True), (U ''a'', DataProperty FNull True)], symbol_keys = 0\<rparr>)"

definition example_data :: jv where
  "example_data = JObj [(U ''b'', JInt 2), (U ''a'', JNull)]"

lemma example_text: "encodeData False example_data = U ''{\"b\":2,\"a\":null}''" "encodeData True example_data = U ''{\"a\":null,\"b\":2}''"
  by (simp_all add: example_data_def listed_entries_def own_entries_def index_key_def counter_syntax_def digit_def U_def
      quote_def quote_unit_def surrogate_defs int_text_def nat_string.simps)

lemma example_fits: "wire_fits example_data"
  unfolding wire_fits_def example_text
  by (simp add: example_data_def units_def U_def MAX_SAFE_def MAX_WIRE_DEPTH_def MAX_WIRE_BYTES_def text_encode_def codec_eval)

lemma example_represents: "represents example_heap (FRef 0) example_data"
  unfolding example_data_def
  by (rule rep_object [where kvs = "[(U ''b'', FInt 2), (U ''a'', FNull)]"])
    (auto simp: example_heap_def units_def U_def intro: rep_int rep_null)



text \<open>
  C11: On a heap that holds a tree of ordinary arrays and objects, captureData gives exactly that
  tree when it fits the wire and refuses it otherwise: the copy, its budget of one mebibyte and
  the final decode together decide nothing but the wire format.
\<close>

theorem captureData_tree:
  assumes "represents h v j"
  shows "captureData h v = (if wire_value 0 j \<and> length (text_encode (encodeData False j)) \<le> MAX_WIRE_BYTES
     then Inr j else Inl (ClientBoundaryError ''invalid_capture''))"
  using captureData_represents [OF assms] by (simp add: capture_def wire_fits_def)

theorem captureData_tree_witness: "captureData example_heap (FRef 0) = Inr example_data"
  using captureData_tree [OF example_represents] example_fits by (simp add: wire_fits_def)

text \<open>
  C12: Two values have the same canonicalData text exactly when they are the same data: arrays
  item by item, objects member by member whatever the order of the members.
\<close>

theorem canonicalData_decides:
  assumes "canonicalData v = Inr s" and "canonicalData w = Inr t"
  shows "s = t \<longleftrightarrow> data_eq v w"
proof -
  have f: "wire_value 0 v" "wire_value 0 w" "s = encodeData True v" "t = encodeData True w"
    using assms by (auto simp: canonicalData_def res_simps wire_fits_def)
  then show ?thesis using encodeData_eq_iff [of v w True] listed_eq_iff [OF f(1,2)] wire_value_plain by auto
qed

theorem canonicalData_decides_witness:
  "canonicalData example_data = Inr (U ''{\"a\":null,\"b\":2}'') \<and> data_eq example_data example_data"
proof -
  have c: "canonicalData example_data = Inr (U ''{\"a\":null,\"b\":2}'')"
    using example_fits example_text by (simp add: canonicalData_def capture_def)
  then show ?thesis using canonicalData_decides [OF c c] by simp
qed

text \<open>
  C13: A captured request is the request its text decodes to: the retained object passed the
  validator, decoding the retained text gives it again, and it is the same data as what the
  caller passed, with the same canonical text.
\<close>

theorem captureRequest_decodes:
  assumes "captureRequest valid h v = Inr (request, encoded)" and "heap_ok h" and "fv_ok v"
  shows "\<exists>w. captureData h v = Inr w \<and> encoded = encodeData False w \<and> data_eq w request \<and> valid request
    \<and> decode valid (TextInput encoded) = Inr request \<and> canonicalData request = canonicalData w"
proof -
  obtain w where w: "captureData h v = Inr w" "decode valid (TextInput (encodeData False w)) = Inr request" "encoded = encodeData False w"
    using assms(1) by (auto simp: captureRequest_def res_simps)
  have "wire_fits w" using capture_wire_value [OF w(1) assms(2,3)] by (simp add: wire_fits_def)
  with w(2) have "request = listed False w" "valid request"
    by (auto simp: decode_encoded split: if_splits)
  then show ?thesis using w \<open>wire_fits w\<close> data_eq_listed canonicalData_listed by auto
qed

theorem captureRequest_decodes_witness:
  "\<exists>w. captureData example_heap (FRef 0) = Inr w \<and> data_eq w example_data \<and> canonicalData example_data = canonicalData w"
proof -
  have l: "listed False example_data = example_data"
    by (simp add: example_data_def listed_entries_def own_entries_def index_key_def counter_syntax_def digit_def U_def)
  have "captureRequest is_object example_heap (FRef 0) = Inr (example_data, encodeData False example_data)"
    using captureData_represents [OF example_represents] example_fits
    by (simp add: captureRequest_def capture_def decode_encoded l) (simp add: example_data_def)
  moreover have "heap_ok example_heap" by (auto simp: heap_ok_def example_heap_def units_def U_def)
  ultimately show ?thesis using captureRequest_decodes [of is_object example_heap "FRef 0"] by (auto simp: fv_ok_def)
qed

end
