(* ===== verification/Js_Control.thy ===== *)
theory Js_Control imports Js_Prelude begin

text \<open>
  Array methods whose callbacks can throw (\<^verbatim>\<open>every\<close>, \<^verbatim>\<open>find\<close>, \<^verbatim>\<open>findIndex\<close>) and loops that can
  return early: \<open>loopE\<close> ends with \<open>None\<close> when its body returns from the function, \<open>untilE\<close> with what it
  returns.
\<close>

definition negE :: "bool res \<Rightarrow> bool res" where
  "negE m = bindE m (\<lambda>b. Inr (\<not> b))"

fun everyE :: "('a \<Rightarrow> bool res) \<Rightarrow> 'a list \<Rightarrow> bool res" where
  "everyE p [] = Inr True"
| "everyE p (x # xs) = andE (p x) (everyE p xs)"

fun findE :: "('a \<Rightarrow> bool res) \<Rightarrow> 'a list \<Rightarrow> 'a option res" where
  "findE p [] = Inr None"
| "findE p (x # xs) = bindE (p x) (\<lambda>b. if b then Inr (Some x) else findE p xs)"

fun findIndexE :: "('a \<Rightarrow> bool res) \<Rightarrow> 'a list \<Rightarrow> nat option res" where
  "findIndexE p [] = Inr None"
| "findIndexE p (x # xs) =
     bindE (p x) (\<lambda>b. if b then Inr (Some 0) else bindE (findIndexE p xs) (\<lambda>i. Inr (map_option Suc i)))"

fun loopE :: "('s \<Rightarrow> 'a \<Rightarrow> 's option res) \<Rightarrow> 's \<Rightarrow> 'a list \<Rightarrow> 's option res" where
  "loopE f s [] = Inr (Some s)"
| "loopE f s (x # xs) = bindE (f s x) (\<lambda>r. case r of None \<Rightarrow> Inr None | Some s' \<Rightarrow> loopE f s' xs)"

fun untilE :: "('s \<Rightarrow> 'a \<Rightarrow> ('r + 's) res) \<Rightarrow> 's \<Rightarrow> 'a list \<Rightarrow> ('r + 's) res" where
  "untilE f s [] = Inr (Inr s)"
| "untilE f s (x # xs) = bindE (f s x) (\<lambda>r. case r of Inl v \<Rightarrow> Inr (Inl v) | Inr s' \<Rightarrow> untilE f s' xs)"

lemma negE_simps [simp]: "negE (Inr b) = Inr (\<not> b)" "negE (Inl e) = Inl e"
  by (simp_all add: negE_def)

lemma negE_Inr [res_simps]: "negE m = Inr b \<longleftrightarrow> m = Inr (\<not> b)"
  by (cases m) auto

lemma everyE_True [res_simps]: "everyE p xs = Inr True \<longleftrightarrow> (\<forall>x \<in> set xs. p x = Inr True)"
  by (induction xs) (auto simp: res_simps)

lemma everyE_cong [fundef_cong]:
  "xs = ys \<Longrightarrow> (\<And>x. x \<in> set ys \<Longrightarrow> p x = q x) \<Longrightarrow> everyE p xs = everyE q ys"
proof (induction xs arbitrary: ys)
  case (Cons x xs)
  then show ?case by (cases ys) auto
qed simp

lemma findE_Some: "findE p xs = Inr (Some x) \<Longrightarrow> x \<in> set xs \<and> p x = Inr True"
  by (induction xs) (auto simp: res_simps split: if_splits)

lemma findIndexE_Some: "findIndexE p xs = Inr (Some i) \<Longrightarrow> i < length xs \<and> p (xs ! i) = Inr True"
proof (induction xs arbitrary: i)
  case (Cons x xs)
  then show ?case by (auto simp: res_simps split: if_splits)
qed simp

text \<open>What holds before a loop and is kept by each turn holds after it.\<close>

lemma loopE_invariant:
  assumes "loopE f s xs = Inr (Some t)" and "P s"
    and "\<And>s x t. x \<in> set xs \<Longrightarrow> P s \<Longrightarrow> f s x = Inr (Some t) \<Longrightarrow> P t"
  shows "P t"
  using assms
proof (induction xs arbitrary: s)
  case (Cons x xs)
  then obtain s' where s': "f s x = Inr (Some s')" "loopE f s' xs = Inr (Some t)"
    by (auto simp: res_simps split: option.splits)
  show ?case
  proof (rule Cons.IH [OF s'(2)])
    show "P s'" using Cons.prems(2) Cons.prems(3) [of x s s'] s'(1) by simp
  next
    fix s x t
    assume "x \<in> set xs" "P s" "f s x = Inr (Some t)"
    then show "P t" using Cons.prems(3) [of x s t] by simp
  qed
qed simp

lemma untilE_invariant:
  assumes "untilE f s xs = Inr (Inr t)" and "P s"
    and "\<And>s x t. x \<in> set xs \<Longrightarrow> P s \<Longrightarrow> f s x = Inr (Inr t) \<Longrightarrow> P t"
  shows "P t"
  using assms
proof (induction xs arbitrary: s)
  case (Cons x xs)
  then obtain r where r: "f s x = Inr r" "(case r of Inl v \<Rightarrow> Inr (Inl v) | Inr s' \<Rightarrow> untilE f s' xs) = Inr (Inr t)"
    by (auto simp: res_simps)
  then obtain s' where s': "f s x = Inr (Inr s')" "untilE f s' xs = Inr (Inr t)"
    by (cases r) auto
  show ?case
  proof (rule Cons.IH [OF s'(2)])
    show "P s'" using Cons.prems(2) Cons.prems(3) [of x s s'] s'(1) by simp
  next
    fix s x t
    assume "x \<in> set xs" "P s" "f s x = Inr (Inr t)"
    then show "P t" using Cons.prems(3) [of x s t] by simp
  qed
qed simp

lemma loopE_append: "loopE f s (xs @ ys) = bindE (loopE f s xs) (\<lambda>r. case r of None \<Rightarrow> Inr None | Some s' \<Rightarrow> loopE f s' ys)"
  by (induction xs arbitrary: s) (auto simp: bindE_def split: sum.splits option.splits)

end
