(* ===== verification/Wire_Size.thy ===== *)
theory Wire_Size imports Client_Capture Js_Control begin

text \<open>
  The number of bytes of a value on the wire, computed member by member. A value fits the wire when it is a wire
  value of at most \<open>MAX_WIRE_BYTES\<close> bytes, so its parts and every smaller copy fit too.
\<close>

definition bytes :: "ustr \<Rightarrow> nat" where
  "bytes s = length (utf8_encode s)"

lemma bytes_append: "validUnicode a \<Longrightarrow> bytes (a @ b) = bytes a + bytes b"
proof (induction a rule: valid_induct)
  case (bmp c cs)
  then show ?case by (simp add: bytes_def utf8_encode.simps(2))
next
  case (pair c d ds)
  then have "\<not> c < 0x800" by (simp add: surrogate_defs)
  with pair show ?case by (simp add: bytes_def utf8_encode.simps(2) Let_def)
qed (simp add: bytes_def)

lemma bytes_ascii: "c < 128 \<Longrightarrow> bytes (c # s) = Suc (bytes s)"
  by (simp add: bytes_def utf8_encode.simps(2))

lemma bytes_Nil [simp]: "bytes [] = 0"
  by (simp add: bytes_def)

fun wire_size :: "jv \<Rightarrow> nat" where
  "wire_size (JArr vs) = 2 + sum_list (map wire_size vs) + (length vs - 1)"
| "wire_size (JObj kvs) = 2 + sum_list (map (\<lambda>x. bytes (quote (fst x)) + 1 + wire_size (snd x)) kvs) + (length kvs - 1)"
| "wire_size (JStr s) = bytes (quote s)"
| "wire_size (JInt i) = length (int_text i)"
| "wire_size (JBool b) = (if b then 4 else 5)"
| "wire_size _ = 4"

lemma bytes_join: "\<forall>t \<in> set ts. validUnicode t \<Longrightarrow> bytes (join ts) = sum_list (map bytes ts) + (length ts - 1)"
  by (induction ts rule: join.induct) (auto simp: bytes_append bytes_ascii)

lemma bytes_joined:
  assumes "\<And>x. x \<in> set xs \<Longrightarrow> validUnicode (f x) \<and> units (f x) \<and> bytes (f x) = g x" and "c < 128"
  shows "bytes (join (map f xs) @ [c]) = sum_list (map g xs) + (length xs - 1) + 1"
proof -
  have v: "\<forall>t \<in> set (map f xs). validUnicode t \<and> units t" using assms(1) by auto
  have m: "map bytes (map f xs) = map g xs" using assms(1) by simp
  have "bytes (join (map f xs)) = sum_list (map bytes (map f xs)) + (length (map f xs) - 1)"
    using v by (intro bytes_join) blast
  then show ?thesis using valid_units_join [OF v] assms(2) unfolding m by (simp add: bytes_append bytes_ascii)
qed

lemma bytes_digits: "list_all digit s \<Longrightarrow> bytes (s @ t) = length s + bytes t"
  by (induction s) (auto simp: bytes_ascii digit_def)

lemma quote_valid: "validUnicode s \<Longrightarrow> units s \<Longrightarrow> validUnicode (quote s)"
  using valid_units_quote [of s] by (simp add: quote_def valid_ascii valid_append del: validUnicode.simps(2))

lemma bytes_text: "wire_value d v \<Longrightarrow> bytes (json_text v) = wire_size v"
proof (induction d v rule: wire_value.induct)
  case (1 d vs)
  then show ?case using valid_units_text bytes_joined [of vs json_text wire_size 93] by (auto simp: bytes_ascii)
next
  case (2 d kvs)
  let ?f = "\<lambda>x. quote (fst x) @ 58 # json_text (snd x)" and ?g = "\<lambda>x. bytes (quote (fst x)) + 1 + wire_size (snd x)"
  have "validUnicode (?f x) \<and> units (?f x) \<and> bytes (?f x) = ?g x" if "x \<in> set kvs" for x
  proof -
    have "wire_value (d + 1) (snd x)" "validUnicode (fst x)" "units (fst x)" using 2 that by auto
    moreover have "bytes (json_text (snd x)) = wire_size (snd x)" using 2 that by (metis prod.collapse wire_value.simps(2))
    ultimately show ?thesis using valid_units_text [of "d + 1" "snd x"] quote_valid [of "fst x"] valid_units_quote [of "fst x"]
      by (simp add: bytes_append bytes_ascii valid_append valid_ascii quote_def del: validUnicode.simps(2))
  qed
  then show ?case using bytes_joined [of kvs ?f ?g 125] by (simp add: bytes_ascii)
next
  case (4 d i)
  then show ?case using bytes_digits [OF nat_string_digits, of _ "[]"] by (simp add: int_text_def bytes_ascii)
qed (auto simp: U_def bytes_ascii)

lemma wire_size_listed: "wire_size (listed b v) = wire_size v"
proof (induction v)
  case (JArr vs)
  then have "map wire_size (map (listed b) vs) = map wire_size vs" by simp
  then show ?case by (simp only: listed.simps wire_size.simps length_map)
next
  case (JObj kvs)
  let ?g = "\<lambda>x. bytes (quote (fst x)) + 1 + wire_size (snd x)"
  have "map ?g (map (\<lambda>(k, w). (k, listed b w)) (listed_entries b kvs)) = map ?g (listed_entries b kvs)"
    using JObj.IH by (simp add: snds.simps case_prod_beta)
  moreover have "sum_list (map ?g (listed_entries b kvs)) = sum_list (map ?g kvs)"
  proof -
    have "sum_mset (mset (map ?g (listed_entries b kvs))) = sum_mset (mset (map ?g kvs))"
      unfolding mset_map mset_listed_entries ..
    then show ?thesis unfolding sum_mset_sum_list .
  qed
  moreover have "length (listed_entries b kvs) = length kvs" by (rule mset_eq_length) simp
  ultimately show ?case by (simp only: listed.simps wire_size.simps length_map)
qed simp_all

lemma wire_fits_iff: "wire_fits v \<longleftrightarrow> wire_value 0 v \<and> wire_size v \<le> MAX_WIRE_BYTES"
  using bytes_text [OF wire_value_listed, of 0 v False] by (auto simp: wire_fits_def encodeData_listed bytes_def text_encode_def wire_size_listed)

text \<open>The parts of a value that fits, and a value without some members, fit.\<close>

lemma wire_value_shallower: "wire_value d v \<Longrightarrow> d' \<le> d \<Longrightarrow> wire_value d' v"
proof (induction d v arbitrary: d' rule: wire_value.induct)
  case (2 d kvs)
  then have "wire_value (Suc d') w" if "(k, w) \<in> set kvs" for k w
    using that by (metis Suc_eq_plus1 Suc_le_mono snd_conv wire_value.simps(2))
  then show ?case using 2 by auto
qed auto

lemma wire_fits_item: "wire_fits (JArr vs) \<Longrightarrow> v \<in> set vs \<Longrightarrow> wire_fits v"
  using member_le_sum_list [of "wire_size v" "map wire_size vs"] wire_value_shallower [of 1 v 0] by (auto simp: wire_fits_iff)

lemma wire_fits_member: "wire_fits (JObj kvs) \<Longrightarrow> (k, v) \<in> set kvs \<Longrightarrow> wire_fits v"
  using member_le_sum_list [of "bytes (quote k) + 1 + wire_size v" "map (\<lambda>x. bytes (quote (fst x)) + 1 + wire_size (snd x)) kvs"]
    wire_value_shallower [of 1 v 0] by (force simp: wire_fits_iff)

lemma fld_fits: "wire_fits v \<Longrightarrow> fld v k \<noteq> JUndef \<Longrightarrow> is_object v \<Longrightarrow> wire_fits (fld v k)"
  by (cases v) (auto simp: obj_lookup_def split: option.splits dest: map_of_SomeD intro: wire_fits_member)

section \<open>Plain ASCII data\<close>

text \<open>A quick sufficient check, for concrete data.\<close>

definition ascii :: "ustr \<Rightarrow> bool" where
  "ascii s \<longleftrightarrow> list_all (\<lambda>c. 32 \<le> c \<and> c < 127 \<and> c \<noteq> 34 \<and> c \<noteq> 92) s"

fun small :: "nat \<Rightarrow> jv \<Rightarrow> bool" where
  "small d (JArr vs) \<longleftrightarrow> d < 32 \<and> (\<forall>v \<in> set vs. small (Suc d) v)"
| "small d (JObj kvs) \<longleftrightarrow> d < 32 \<and> distinct (map fst kvs) \<and> (\<forall>x \<in> set kvs. ascii (fst x) \<and> small (Suc d) (snd x))"
| "small d (JStr s) \<longleftrightarrow> ascii s"
| "small d (JInt i) \<longleftrightarrow> 0 \<le> i \<and> i < 1000"
| "small d JNull = True"
| "small d (JBool _) = True"
| "small d _ = False"

fun small_size :: "jv \<Rightarrow> nat" where
  "small_size (JArr vs) = 2 + sum_list (map small_size vs) + length vs"
| "small_size (JObj kvs) = 2 + sum_list (map (\<lambda>x. length (fst x) + 3 + small_size (snd x)) kvs) + length kvs"
| "small_size (JStr s) = length s + 2"
| "small_size _ = 5"

lemma ascii_valid: "ascii s \<Longrightarrow> validUnicode s \<and> units s"
  by (induction s) (auto simp: ascii_def valid_ascii simp del: validUnicode.simps(2))

lemma ascii_quote: "ascii s \<Longrightarrow> bytes (quote s) = length s + 2"
proof -
  assume a: "ascii s"
  have "quote_units s = s"
    using a by (induction s) (auto simp: ascii_def quote_unit_def surrogate_defs)
  moreover have "bytes (s @ t) = length s + bytes t" for t
    using a by (induction s) (auto simp: ascii_def bytes_ascii)
  ultimately show ?thesis by (simp add: quote_def bytes_ascii)
qed

lemma small_wire: "small d v \<Longrightarrow> wire_value d v"
  by (induction d v rule: small.induct) (auto simp: ascii_valid MAX_WIRE_DEPTH_def MAX_SAFE_def)

lemma length_nat_string_le: "n < 1000 \<Longrightarrow> length (nat_string n) \<le> 3"
  by (simp add: nat_string.simps [of n] nat_string.simps [of "n div 10"] nat_string.simps [of "n div 10 div 10"])

lemma small_int: "0 \<le> i \<Longrightarrow> i < 1000 \<Longrightarrow> length (int_text i) \<le> 5"
proof -
  assume "0 \<le> i" "i < 1000"
  then have "nat i < 1000" by simp
  then have "length (nat_string (nat i)) \<le> 3"
    using length_nat_string_le [of "nat i"] by simp
  then show ?thesis using \<open>0 \<le> i\<close> by (simp add: int_text_def)
qed

lemma small_wire_size: "small d v \<Longrightarrow> wire_size v \<le> small_size v"
proof (induction d v rule: small.induct)
  case (1 d vs)
  then have "sum_list (map wire_size vs) \<le> sum_list (map small_size vs)" by (intro sum_list_mono) auto
  then show ?case by simp
next
  case (2 d kvs)
  have "bytes (quote (fst x)) + 1 + wire_size (snd x) \<le> length (fst x) + 3 + small_size (snd x)" if "x \<in> set kvs" for x
  proof -
    have "ascii (fst x)" "small (Suc d) (snd x)" using 2 that by auto
    moreover have "wire_size (snd x) \<le> small_size (snd x)" using 2 that by (metis prod.collapse small.simps(2))
    ultimately show ?thesis using ascii_quote by simp
  qed
  then have "sum_list (map (\<lambda>x. bytes (quote (fst x)) + 1 + wire_size (snd x)) kvs) \<le> sum_list (map (\<lambda>x. length (fst x) + 3 + small_size (snd x)) kvs)"
    by (intro sum_list_mono) auto
  then show ?case unfolding wire_size.simps small_size.simps by simp
qed (auto simp: ascii_quote small_int)

lemma small_fits: "small 0 v \<Longrightarrow> small_size v \<le> MAX_WIRE_BYTES \<Longrightarrow> wire_fits v"
  using small_wire [of 0 v] small_wire_size [of 0 v] by (simp add: wire_fits_iff)

lemmas small_eval = ascii_def U_def MAX_WIRE_BYTES_def

end
