(* ===== verification/Client_Relations.thy ===== *)
theory Client_Relations imports Wire_Size begin

text \<open>
  The relations between messages that the browser client checks before it trusts a reply:
  \<^verbatim>\<open>ui/src/client/relations.ts\<close>.

  The arguments are values the generated validators accepted, so a property read (\<open>fld\<close>, \<open>path\<close>)
  has an object on its left wherever the code reads one, decimal counters are digits, and an absent optional
  member reads as \<^verbatim>\<open>undefined\<close>. The comparisons go through \<open>canonicalData\<close> and can throw, so a
  condition that contains one is a \<open>bool res\<close> built with the short-circuit \<open>andE\<close> and \<open>orE\<close>.
\<close>

section \<open>Comparable data\<close>

fun omitNone :: "jv \<Rightarrow> jv" where
  "omitNone (JArr vs) = JArr (map omitNone vs)"
| "omitNone (JObj kvs) = JObj (map (\<lambda>(k, v). (k, omitNone v)) (filter (\<lambda>(k, v). v \<noteq> JNull) kvs))"
| "omitNone v = v"

definition equalDto :: "jv \<Rightarrow> jv \<Rightarrow> bool res" where
  "equalDto left right =
     bindE (canonicalData (omitNone left)) (\<lambda>a.
     bindE (canonicalData (omitNone right)) (\<lambda>b. Inr (a = b)))"

definition protectedReferenceKey :: "jv \<Rightarrow> ustr res" where
  "protectedReferenceKey reference = bindE (capture reference) (\<lambda>r. canonicalData (omitNone r))"

definition bindingEquivalent :: "jv \<Rightarrow> jv \<Rightarrow> bool res" where
  "bindingEquivalent left right =
     bindE (capture left) (\<lambda>a. bindE (capture right) (\<lambda>b. equalDto a b))"

abbreviation is_kind :: "jv \<Rightarrow> string \<Rightarrow> bool" where
  "is_kind v k \<equiv> isS (fld v ''kind'') k"

text \<open>\<^verbatim>\<open>BigInt\<close> of a decimal string.\<close>

definition big :: "jv \<Rightarrow> int" where
  "big v = digits_value (str_of v)"

definition installationMatches :: "jv \<Rightarrow> jv \<Rightarrow> bool" where
  "installationMatches selector binding =
     (if is_kind selector ''registered'' then
        is_kind binding ''registered'' \<and> strict_eq (fld selector ''id'') (fld binding ''registrationId'')
        \<and> (nullish (fld selector ''revisionAssertion'')
           \<or> strict_eq (fld selector ''revisionAssertion'') (fld binding ''registrationRevision''))
      else True)"

definition profileMatches :: "jv \<Rightarrow> jv \<Rightarrow> bool" where
  "profileMatches selector binding =
     (if is_kind selector ''ordinary'' \<and> is_kind binding ''ordinary'' then
        nullish (fld selector ''catalogIdAssertion'')
        \<or> strict_eq (fld selector ''catalogIdAssertion'') (fld binding ''ordinaryId'')
      else is_kind selector ''isolated'' \<and> is_kind binding ''isolated'' \<and> strict_eq (fld selector ''id'') (fld binding ''id'')
        \<and> (nullish (fld selector ''revisionAssertion'')
           \<or> strict_eq (fld selector ''revisionAssertion'') (fld binding ''revision'')))"

definition bridgeApplicationValid :: "jv \<Rightarrow> bool" where
  "bridgeApplicationValid application =
     (let payloads = arr_items (fld application ''payloads'') in
        length payloads > 0 \<and> (\<exists>payload \<in> set payloads. isS (fld payload ''role'') ''application'')
        \<and> distinct (map (\<lambda>payload. fld payload ''role'') payloads)
        \<and> (\<forall>payload \<in> set payloads. big (fld payload ''size'') > 0)
        \<and> (isS (fld application ''platform'') ''windows'' \<and> isS (fld application ''architecture'') ''x86_64''
           \<or> isS (fld application ''platform'') ''macos'' \<and> isS (fld application ''architecture'') ''arm64''))"

definition bridgeRecoveryValid :: "jv \<Rightarrow> bool" where
  "bridgeRecoveryValid recovery =
     (let a = fld recovery ''application''; b = fld recovery ''expectedApplication'' in
        bridgeApplicationValid a \<and> bridgeApplicationValid b
        \<and> strict_eq (fld a ''applicationId'') (fld b ''applicationId'')
        \<and> strict_eq (fld a ''installationRef'') (fld b ''installationRef'')
        \<and> strict_eq (fld a ''channelId'') (fld b ''channelId'')
        \<and> strict_eq (fld a ''platform'') (fld b ''platform'')
        \<and> strict_eq (fld a ''architecture'') (fld b ''architecture''))"

section \<open>Diagnostics\<close>

definition factMatches :: "jv \<Rightarrow> jv \<Rightarrow> bool res" where
  "factMatches content item =
     (let observed = isS (path item [''value'', ''status'']) ''observed'' in
      if is_kind item ''target'' then equalDto (fld item ''value'') (fld content ''target'')
      else if is_kind item ''session'' \<and> observed then
        Inr (strict_eq (path item [''value'', ''value'', ''process'', ''installationPhysicalId''])
               (path content [''target'', ''installation'', ''physicalId'']))
      else if is_kind item ''runtime'' \<and> observed \<and> isS (path item [''value'', ''value'', ''kind'']) ''managed'' then
        equalDto (path item [''value'', ''value'', ''reference'', ''target'']) (fld content ''target'')
      else if is_kind item ''bridge'' \<and> observed then
        Inr (bridgeApplicationValid (path item [''value'', ''value'']))
      else Inr True)"

definition diagnosticPreviewMatches :: "jv \<Rightarrow> jv \<Rightarrow> bool res" where
  "diagnosticPreviewMatches input preview =
     (let reference = fld preview ''reference''; content = fld preview ''content'' in
      bindE (orE (Inr (\<not> strict_eq (fld input ''disclosure'') (fld reference ''disclosure'')))
        (orE (Inr (\<not> strict_eq (fld reference ''disclosure'') (fld content ''disclosure'')))
        (orE (negE (equalDto (fld reference ''target'') (fld content ''target'')))
        (orE (Inr (\<not> installationMatches (path input [''target'', ''installation'']) (path content [''target'', ''installation''])))
        (orE (Inr (\<not> profileMatches (path input [''target'', ''profile'']) (path content [''target'', ''profile''])))
           (Inr (isS (fld content ''disclosure'') ''redacted'' \<and> \<not> nullish (fld content ''paths''))))))))
        (\<lambda>refused. if refused then Inr False
           else everyE (factMatches content) (arr_items (fld content ''facts''))))"

section \<open>Recoveries and cancellations\<close>

abbreviation kind_in :: "jv \<Rightarrow> string list \<Rightarrow> bool" where
  "kind_in v ks \<equiv> one_of (fld v ''kind'') ks"

definition operationRecoveryMatches :: "jv \<Rightarrow> bool res" where
  "operationRecoveryMatches operation =
     (if \<not> isS (path operation [''state'', ''status'']) ''recovery_required'' then Inr True
      else let
        recovery = path operation [''state'', ''recovery''];
        target = fld recovery ''target'';
        capt = path operation [''semantics'', ''capture''];
        input = fld capt ''input''
      in if \<not> strict_eq (fld recovery ''operationId'') (fld operation ''operationId'') then Inr False
      else if is_kind target ''launch'' then
        andE (Inr (is_kind capt ''launch_ordinary'' \<or> is_kind capt ''launch_isolated''))
          (equalDto (fld target ''target'') (fld capt ''target''))
      else if is_kind target ''session'' then
        andE (Inr (is_kind capt ''focus_session''))
          (andE (equalDto (fld target ''session'') (fld capt ''session''))
            (equalDto (fld target ''target'') (fld capt ''target'')))
      else if is_kind target ''profile'' then
        andE (Inr (kind_in capt [''edit_isolated_profile'', ''archive_profile'', ''restore_profile'', ''delete_profile'']))
          (equalDto (fld target ''profile'') (fld input ''profile''))
      else if is_kind target ''ordinary_profile'' then
        andE (Inr (is_kind capt ''edit_ordinary_profile'')) (equalDto (fld target ''profile'') (fld input ''profile''))
      else if is_kind target ''profile_creation'' then
        Inr (is_kind capt ''create_profile'' \<and> strict_eq (fld target ''owner'') (fld input ''destinationOwner'')
          \<and> strict_eq (fld target ''nativePreparationRef'') (fld input ''nativePreparationRef''))
      else if is_kind target ''installation'' then
        andE (Inr (is_kind capt ''edit_installation'')) (equalDto (fld target ''installation'') (fld input ''installation''))
      else if is_kind target ''installation_registration'' then
        Inr (is_kind capt ''register_installation'' \<and> strict_eq (fld target ''physicalId'') (fld input ''physicalId'')
          \<and> strict_eq (fld target ''nativeTargetRef'') (fld input ''nativeTargetRef''))
      else if is_kind target ''configuration'' then
        (if is_kind capt ''save_configuration'' then equalDto (fld target ''document'') (path input [''draft'', ''draft'', ''document''])
         else andE (Inr (is_kind capt ''restore_configuration'')) (equalDto (fld target ''document'') (fld input ''document'')))
      else if is_kind target ''runtime'' then
        (if kind_in capt [''runtime_install'', ''runtime_update'', ''runtime_repair'', ''runtime_adopt''] then
           equalDto (fld target ''target'') (fld input ''target'')
         else if kind_in capt [''runtime_remove'', ''runtime_stop_managing''] then
           equalDto (fld target ''target'') (path input [''reference'', ''target''])
         else andE (Inr (is_kind capt ''runtime_switch_source''))
           (equalDto (fld target ''target'') (path input [''current'', ''target''])))
      else if is_kind target ''game'' then
        (if is_kind capt ''game_update'' then
           andE (equalDto (path target [''recovery'', ''installation'']) (path input [''checkedUpdate'', ''installation'']))
             (andE (Inr (isS (path input [''checkedUpdate'', ''route'']) ''canonical_native_direct''))
               (equalDto (path target [''recovery'', ''expectedClient'']) (path input [''checkedUpdate'', ''currentClient''])))
         else andE (Inr (is_kind capt ''recover_game_update'')) (equalDto (fld target ''recovery'') (fld input ''recovery'')))
      else if is_kind target ''bridge'' then
        andE (Inr (bridgeRecoveryValid (fld target ''recovery'')))
          (if is_kind capt ''bridge_update'' then
             andE (equalDto (path target [''recovery'', ''application'']) (path input [''selectedRelease'', ''current'']))
               (orE (equalDto (path target [''recovery'', ''expectedApplication'']) (path input [''selectedRelease'', ''current'']))
                 (equalDto (path target [''recovery'', ''expectedApplication'']) (path input [''selectedRelease'', ''offered''])))
           else andE (Inr (is_kind capt ''recover_bridge_update'')) (equalDto (fld target ''recovery'') (fld input ''recovery'')))
      else if is_kind target ''diagnostics'' then
        andE (Inr (is_kind capt ''export_diagnostics''))
          (andE (equalDto (fld target ''preview'') (fld input ''preview''))
            (equalDto (fld target ''destination'') (fld input ''destination'')))
      else if is_kind target ''application_preferences'' then
        Inr (is_kind capt ''save_application_preferences'' \<and> strict_eq (fld target ''revision'') (fld input ''expectedRevision''))
      else Inr False)"

text \<open>\<^verbatim>\<open>crypto.subtle.digest\<close> is the parameter \<open>sha256\<close> of the two digests.\<close>

definition hex_byte :: "8 word \<Rightarrow> ustr" where
  "hex_byte b = [hex_char (unat b div 16), hex_char (unat b mod 16)]"

definition digest_text :: "(8 word list \<Rightarrow> 8 word list) \<Rightarrow> ustr \<Rightarrow> ustr" where
  "digest_text sha256 t = U ''sha256:'' @ concat (map hex_byte (sha256 (text_encode t)))"

definition diagnosticPreviewDigest :: "(8 word list \<Rightarrow> 8 word list) \<Rightarrow> jv \<Rightarrow> ustr res" where
  "diagnosticPreviewDigest sha256 content =
     bindE (capture content) (\<lambda>c. bindE (canonicalData (omitNone c)) (\<lambda>t.
       Inr (digest_text sha256 (U ''bridge-diagnostic-preview-json-v1'' @ [0] @ t))))"

definition cancellationMatches :: "jv \<Rightarrow> jv \<Rightarrow> bool res" where
  "cancellationMatches input result =
     (let operation = fld result ''operation''; state = fld operation ''state''; status = fld state ''status'' in
      if \<not> strict_eq (fld operation ''operationId'') (fld input ''operationId'')
         \<or> big (fld operation ''operationRevision'') < big (fld input ''expectedOperationRevision'')
      then Inr False
      else bindE (operationRecoveryMatches operation) (\<lambda>recovers.
        Inr (recovers \<and>
          (if is_kind result ''requested'' then isS status ''cancellation_requested''
           else if is_kind result ''cancelled_before_commit'' then
             isS status ''completed'' \<and> isS (path state [''outcome'', ''kind'']) ''cancelled_before_commit''
           else if is_kind result ''too_late'' then
             isS status ''running'' \<or> isS status ''completed'' \<and> one_of (path state [''outcome'', ''kind'']) [''changed'', ''no_change'']
           else if is_kind result ''already_terminal'' then isS status ''completed''
           else is_kind result ''recovery_required'' \<and> isS status ''recovery_required''))))"

section \<open>Preparations\<close>

definition preparationMatches :: "jv \<Rightarrow> jv \<Rightarrow> bool res" where
  "preparationMatches intent semantics =
     (let capt = fld semantics ''capture''; input = fld intent ''input''; cinput = fld capt ''input'';
          both = (\<lambda>k. is_kind intent k \<and> is_kind capt k) in
      if \<not> strict_eq (fld semantics ''action'') (fld intent ''kind'') \<or> \<not> strict_eq (fld capt ''kind'') (fld intent ''kind'')
      then Inr False
      else if both ''launch_ordinary'' \<or> both ''launch_isolated'' then
        (let requestedChoice = coalesce (fld input ''unrecognizedRuntimeChoice'') (S ''reject'') in
         Inr (installationMatches (path input [''target'', ''installation'']) (path capt [''target'', ''installation''])
           \<and> profileMatches (path input [''target'', ''profile'']) (path capt [''target'', ''profile''])
           \<and> strict_eq requestedChoice (coalesce (fld capt ''unrecognizedRuntimeChoice'') (S ''reject''))
           \<and> (\<not> isS (path capt [''runtime'', ''kind'']) ''unrecognized''
              \<or> strict_eq (path capt [''runtime'', ''choice'']) requestedChoice)
           \<and> (\<not> is_kind intent ''launch_isolated'' \<or> \<not> is_kind capt ''launch_isolated''
              \<or> strict_eq (fld input ''storeMode'') (fld capt ''storeMode''))))
      else if both ''focus_session'' then equalDto (fld input ''session'') (fld capt ''session'')
      else if both ''create_profile'' then
        andE (Inr (strict_eq (fld input ''name'') (fld cinput ''name'')))
          (andE (equalDto (fld input ''setup'') (fld cinput ''setup''))
            (Inr (strict_eq (fld input ''expectedCatalogRevision'') (fld cinput ''catalogRevision'')
              \<and> installationMatches (fld input ''preferredInstallation'') (fld cinput ''preferredInstallation''))))
      else if both ''register_installation'' then
        Inr (strict_eq (fld input ''name'') (fld cinput ''name'')
          \<and> strict_eq (fld input ''expectedCatalogRevision'') (fld cinput ''catalogRevision''))
      else if both ''save_configuration'' then equalDto (fld input ''draft'') (path cinput [''draft'', ''draft''])
      else andE (Inr (own capt ''input'')) (equalDto input cinput))"

section \<open>The identity of a plan\<close>

definition normalizedCapture :: "jv \<Rightarrow> jv" where
  "normalizedCapture capt =
     (if is_kind capt ''launch_ordinary'' \<or> is_kind capt ''launch_isolated'' then
        (let choice = fld capt ''unrecognizedRuntimeChoice'' in
         if choice = JUndef \<or> isS choice ''reject'' then obj_del capt ''unrecognizedRuntimeChoice'' else capt)
      else if is_kind capt ''restore_configuration'' then
        (let backup = obj_del (path capt [''input'', ''backup'']) ''createdAt'' in
         obj_put capt ''input'' (obj_put (fld capt ''input'') ''backup'' backup))
      else capt)"

definition semanticPlanKey :: "jv \<Rightarrow> ustr res" where
  "semanticPlanKey input =
     bindE (capture input) (\<lambda>semantics.
       let effects = sort_key (encodeData False) (arr_items (fld semantics ''effects'')) in
       canonicalData (omitNone (obj_put (obj_put semantics ''capture'' (normalizedCapture (fld semantics ''capture'')))
         ''effects'' (JArr effects))))"

definition semanticPlanDigest :: "(8 word list \<Rightarrow> 8 word list) \<Rightarrow> jv \<Rightarrow> ustr res" where
  "semanticPlanDigest sha256 semantics =
     bindE (semanticPlanKey semantics) (\<lambda>t.
       Inr (digest_text sha256 (U ''bridge-plan-semantic-json-v1'' @ [0] @ t)))"

section \<open>What a comparison decides\<close>

text \<open>Equality of two bindings: null members do not count, nor does the order of members.\<close>

definition same_binding :: "jv \<Rightarrow> jv \<Rightarrow> bool" where
  "same_binding a b \<longleftrightarrow> data_eq (omitNone a) (omitNone b)"

lemma omitNone_JObj: "omitNone (JObj kvs) = JObj (map (\<lambda>x. (fst x, omitNone (snd x))) (filter (\<lambda>x. snd x \<noteq> JNull) kvs))"
  by (simp add: case_prod_beta')

lemma omitNone_wire: "wire_value d v \<Longrightarrow> wire_value d (omitNone v)"
proof (induction d v rule: wire_value.induct)
  case (2 d kvs)
  have "wire_value (d + 1) (omitNone (snd x))" if "x \<in> set kvs" for x
    using 2 that by (metis prod.collapse wire_value.simps(2))
  moreover have "distinct (map fst (filter (\<lambda>x. snd x \<noteq> JNull) kvs))" using 2 by (simp add: distinct_map_filter)
  ultimately show ?case using 2 by (simp add: omitNone_JObj comp_def del: omitNone.simps)
qed auto

lemma sum_list_filter_le: "(\<And>x. x \<in> set xs \<Longrightarrow> f x \<le> g x) \<Longrightarrow> sum_list (map f (filter P xs)) \<le> sum_list (map g xs)"
  for f g :: "'a \<Rightarrow> nat"
proof (induction xs)
  case (Cons x xs)
  then have "f x \<le> g x" "sum_list (map f (filter P xs)) \<le> sum_list (map g xs)" by simp_all
  then show ?case by simp
qed simp

lemma omitNone_size: "wire_size (omitNone v) \<le> wire_size v"
proof (induction v)
  case (JArr vs)
  then have "sum_list (map (\<lambda>x. wire_size (omitNone x)) vs) \<le> sum_list (map wire_size vs)" by (simp add: sum_list_mono)
  then show ?case by (simp add: comp_def)
next
  case (JObj kvs)
  let ?g = "\<lambda>x. bytes (quote (fst x)) + 1 + wire_size (snd x)"
  have "bytes (quote (fst x)) + 1 + wire_size (omitNone (snd x)) \<le> ?g x" if "x \<in> set kvs" for x
    using JObj.IH [OF that, of "snd x"] by (simp add: snds.simps)
  then have "sum_list (map (\<lambda>x. bytes (quote (fst x)) + 1 + wire_size (omitNone (snd x))) (filter (\<lambda>x. snd x \<noteq> JNull) kvs))
      \<le> sum_list (map ?g kvs)" by (rule sum_list_filter_le)
  moreover have "length (filter (\<lambda>x. snd x \<noteq> JNull) kvs) - 1 \<le> length kvs - 1" by (simp add: diff_le_mono)
  ultimately show ?case unfolding omitNone_JObj wire_size.simps
    by (simp add: comp_def)
qed simp_all

lemma omitNone_fits: "wire_fits v \<Longrightarrow> wire_fits (omitNone v)"
  using omitNone_wire [of 0 v] omitNone_size [of v] by (simp add: wire_fits_iff)

lemma canonicalData_fits: "wire_fits v \<Longrightarrow> canonicalData v = Inr (encodeData True v)"
  by (simp add: canonicalData_def capture_def)

lemma encoded_eq_iff: "wire_fits v \<Longrightarrow> wire_fits w \<Longrightarrow> encodeData True v = encodeData True w \<longleftrightarrow> data_eq v w"
  using encodeData_eq_iff [of v w True] listed_eq_iff [of 0 v w] wire_value_plain by (auto simp: wire_fits_def)

lemma equalDto_total: "wire_fits a \<Longrightarrow> wire_fits b \<Longrightarrow> equalDto a b = Inr (same_binding a b)"
  by (simp add: equalDto_def canonicalData_fits omitNone_fits encoded_eq_iff same_binding_def)

lemma bindingEquivalent_eq: "bindingEquivalent a b =
    (if wire_fits a \<and> wire_fits b then Inr (same_binding a b) else boundary_error ''invalid_capture'')"
  by (simp add: bindingEquivalent_def capture_def equalDto_total)

lemma bindingEquivalent_True [res_simps]:
  "bindingEquivalent a b = Inr True \<longleftrightarrow> wire_fits a \<and> wire_fits b \<and> same_binding a b"
  by (auto simp: bindingEquivalent_eq)

text \<open>A value without repeated keys anywhere.\<close>

fun tidy :: "jv \<Rightarrow> bool" where
  "tidy (JArr vs) = (\<forall>v \<in> set vs. tidy v)"
| "tidy (JObj kvs) = (distinct (map fst kvs) \<and> (\<forall>x \<in> set kvs. tidy (snd x)))"
| "tidy _ = True"

lemma wire_tidy: "wire_value d v \<Longrightarrow> tidy v"
  by (induction d v rule: wire_value.induct) auto

lemma tidy_fld: "tidy v \<Longrightarrow> tidy (fld v k)"
  by (cases v) (fastforce simp: obj_lookup_def split: option.splits dest: map_of_SomeD)+

definition given :: "jv \<Rightarrow> jv" where
  "given v = (if v = JNull then JUndef else v)"

lemma data_eq_lookup:
  assumes "data_eq (JObj a) (JObj b)" "distinct (map fst a)" "distinct (map fst b)"
  shows "data_eq (obj_lookup a k) (obj_lookup b k)"
proof -
  have len: "length a = length b" and all: "\<forall>x \<in> set a. \<exists>y \<in> set b. fst x = fst y \<and> data_eq (snd x) (snd y)"
    using assms(1) by auto
  have sub: "fst ` set a \<subseteq> fst ` set b" using all by force
  have "card (fst ` set a) = card (fst ` set b)"
    using assms(2,3) len by (metis distinct_card length_map list.set_map)
  with sub have keys: "fst ` set a = fst ` set b" by (simp add: card_subset_eq)
  show ?thesis
  proof (cases "map_of a k")
    case None
    then have "map_of b k = None" using keys by (simp add: map_of_eq_None_iff)
    with None show ?thesis by (simp add: obj_lookup_def)
  next
    case (Some v)
    then obtain y where "y \<in> set b" "fst y = k" "data_eq v (snd y)" using all by (force dest: map_of_SomeD)
    then have "map_of b k = Some (snd y)" using assms(3) by (auto intro: map_of_is_SomeI)
    with Some \<open>data_eq v (snd y)\<close> show ?thesis by (simp add: obj_lookup_def)
  qed
qed

lemma map_of_snd: "map_of (map (\<lambda>x. (fst x, f (snd x))) xs) k = map_option f (map_of xs k)"
  by (induction xs) auto

lemma omitNone_lookup:
  "distinct (map fst kvs) \<Longrightarrow> fld (omitNone (JObj kvs)) k = omitNone (given (fld (JObj kvs) k))"
proof -
  assume d: "distinct (map fst kvs)"
  have "map_of (filter (\<lambda>x. snd x \<noteq> JNull) kvs) (U k) = (case map_of kvs (U k) of Some v \<Rightarrow> if v = JNull then None else Some v | None \<Rightarrow> None)"
    using d by (induction kvs) (auto simp: map_of_eq_None_iff split: option.splits)
  then show ?thesis
    by (auto simp: obj_lookup_def omitNone_JObj given_def map_of_snd split: option.splits simp del: omitNone.simps(2))
qed

lemma same_binding_fld:
  assumes "same_binding (given a) (given b)" "tidy a" "tidy b"
  shows "same_binding (given (fld a k)) (given (fld b k))"
proof (cases a)
  case (JObj kvs)
  with assms(1) obtain kws where b: "b = JObj kws"
    by (cases b) (auto simp: same_binding_def given_def split: if_splits)
  have e: "data_eq (omitNone a) (omitNone b)" using assms(1) JObj b by (simp add: same_binding_def given_def)
  have "distinct (map fst (filter (\<lambda>x. snd x \<noteq> JNull) kvs))" "distinct (map fst (filter (\<lambda>x. snd x \<noteq> JNull) kws))"
    using assms(2,3) JObj b by (simp_all add: distinct_map_filter)
  then have "data_eq (fld (omitNone a) k) (fld (omitNone b) k)"
    using data_eq_lookup e unfolding JObj b omitNone_JObj by (simp add: comp_def)
  then show ?thesis
    using assms(2,3) unfolding JObj b by (simp add: omitNone_lookup same_binding_def del: fld.simps omitNone.simps)
next
  case (JArr vs)
  with assms(1) obtain ws where "b = JArr ws" "length vs = length ws"
    by (cases b) (auto simp: same_binding_def given_def split: if_splits dest: list_all2_lengthD)
  with JArr show ?thesis by (simp add: same_binding_def given_def)
qed (use assms(1) in \<open>cases b; force simp: same_binding_def given_def split: if_splits\<close>)+

lemma same_binding_path:
  "same_binding (given a) (given b) \<Longrightarrow> tidy a \<Longrightarrow> tidy b \<Longrightarrow> same_binding (given (path a ks)) (given (path b ks))"
proof (induction ks arbitrary: a b)
  case (Cons k ks)
  then show ?case using same_binding_fld tidy_fld by simp
qed simp

text \<open>What equality of bindings says of the strings, the numbers and the lists of two bindings.\<close>

definition agrees :: "jv \<Rightarrow> jv \<Rightarrow> bool" where
  "agrees v w \<longleftrightarrow> (\<forall>s. v = JStr s \<longleftrightarrow> w = JStr s) \<and> (\<forall>i. v = JInt i \<longleftrightarrow> w = JInt i)
     \<and> (\<forall>b. v = JBool b \<longleftrightarrow> w = JBool b) \<and> (nullish v \<longleftrightarrow> nullish w) \<and> length (arr_items v) = length (arr_items w)"

lemma same_binding_agrees: "same_binding (given v) (given w) \<Longrightarrow> agrees v w"
  by (cases v; cases w; auto simp: same_binding_def given_def agrees_def dest: list_all2_lengthD split: if_splits)

lemma same_binding_given: "wire_value d a \<Longrightarrow> wire_value d b \<Longrightarrow> same_binding a b \<Longrightarrow> same_binding (given a) (given b)"
  by (cases a; cases b; simp add: same_binding_def given_def)

lemma bindingEquivalent_agrees:
  assumes "bindingEquivalent a b = Inr True"
  shows "agrees (path a ks) (path b ks)"
  using assms same_binding_given [of 0 a b] same_binding_path [of a b ks] same_binding_agrees wire_tidy
  by (auto simp: bindingEquivalent_True wire_fits_def)

end
