(* ===== verification/Client_Drafts.thy ===== *)
theory Client_Drafts imports Client_Relations begin

text \<open>
  What the browser client checks of a draft: the acknowledgement of staged edits
  (\<^verbatim>\<open>ui/src/client/draft-acknowledgement.ts\<close>) and the completion of a save
  (\<^verbatim>\<open>ui/src/client/configuration-completion.ts\<close>).
\<close>

section \<open>Counters\<close>

text \<open>\<^verbatim>\<open>counter\<close> of \<^verbatim>\<open>ui/src/client/observation.ts\<close>, on a string.\<close>

definition client_counter :: "jv \<Rightarrow> int res" where
  "client_counter v =
     (if \<not> counter_syntax (str_of v) then Inl (RangeError ''counter'')
      else if big v > U64_MAX then Inl (RangeError ''counter'')
      else Inr (big v))"

section \<open>Edits\<close>

definition proxyKey :: "jv \<Rightarrow> jv res" where
  "proxyKey value =
     (if is_kind value ''custom'' then
        bindE (protectedReferenceKey (fld value ''reference'')) (\<lambda>k. Inr (obj_put value ''reference'' (JStr k)))
      else Inr value)"

definition editKey :: "jv \<Rightarrow> ustr res" where
  "editKey edit =
     (if kind_in edit [''set_private'', ''replace_secret''] then
        bindE (protectedReferenceKey (fld edit ''reference'')) (\<lambda>k. canonicalData (obj_put edit ''reference'' (JStr k)))
      else if is_kind edit ''set_sync_proxy'' then
        bindE (proxyKey (fld edit ''value'')) (\<lambda>v. canonicalData (obj_put edit ''value'' v))
      else if is_kind edit ''add_sync_destination'' then
        (let destination = fld edit ''destination'' in
         bindE (protectedReferenceKey (fld destination ''endpoint'')) (\<lambda>endpoint.
         bindE (protectedReferenceKey (fld destination ''secret'')) (\<lambda>secret.
         bindE (proxyKey (fld destination ''proxy'')) (\<lambda>proxy.
           canonicalData (obj_put edit ''destination''
             (obj_put (obj_put (obj_put destination ''endpoint'' (JStr endpoint)) ''secret'' (JStr secret)) ''proxy'' proxy))))))
      else canonicalData edit)"

definition editsEqual :: "jv list \<Rightarrow> jv list \<Rightarrow> bool res" where
  "editsEqual left right =
     (if length left \<noteq> length right then Inr False
      else everyE (\<lambda>(a, b). bindE (editKey a) (\<lambda>x. bindE (editKey b) (\<lambda>y. Inr (x = y)))) (zip left right))"

section \<open>Protected transfers\<close>

definition tag :: "string \<Rightarrow> jv \<Rightarrow> ustr" where
  "tag k v = U k @ 58 # str_of v"

definition privateBound :: "jv \<Rightarrow> jv \<Rightarrow> bool res" where
  "privateBound ref draft =
     andE (bindingEquivalent (fld ref ''document'') (fld draft ''document''))
       (andE (Inr (\<not> nullish (fld ref ''capturedFor''))) (bindingEquivalent (fld ref ''capturedFor'') draft))"

text \<open>The source (\<^verbatim>\<open>from\<close>) or destination (\<^verbatim>\<open>to\<close>) of a transfer, as it is kept in a set.\<close>

definition transferKey :: "string \<Rightarrow> jv \<Rightarrow> ustr" where
  "transferKey side transfer =
     str_of (fld transfer ''kind'') @ 58 #
       str_of (fld (fld transfer side) (if is_kind transfer ''private'' then ''valueId'' else ''secretId''))"

definition transferRefused :: "jv \<Rightarrow> jv \<Rightarrow> jv \<Rightarrow> bool res" where
  "transferRefused old new transfer =
     (let from = fld transfer ''from''; to = fld transfer ''to'' in
      if is_kind transfer ''private'' then
        orE (negE (privateBound from old)) (orE (negE (privateBound to new))
          (Inr (\<not> strict_eq (fld from ''revision'') (fld to ''revision'') \<or> strict_eq (fld from ''valueId'') (fld to ''valueId''))))
      else
        orE (negE (bindingEquivalent (fld from ''draft'') old)) (orE (negE (bindingEquivalent (fld to ''draft'') new))
          (Inr (strict_eq (fld from ''secretId'') (fld to ''secretId'')))))"

text \<open>One turn of the loop over the transfers: the sources and destinations seen so far.\<close>

definition transferStep :: "jv \<Rightarrow> jv \<Rightarrow> ustr list \<times> ustr list \<Rightarrow> jv \<Rightarrow> (ustr list \<times> ustr list) option res" where
  "transferStep old new = (\<lambda>(sources, destinations) transfer.
     let source = transferKey ''from'' transfer; destination = transferKey ''to'' transfer in
     if \<not> strict_eq (path transfer [''from'', ''fieldId'']) (path transfer [''to'', ''fieldId'']) then Inr None
     else bindE (transferRefused old new transfer) (\<lambda>refused.
       if refused \<or> source \<in> set sources \<or> destination \<in> set destinations then Inr None
       else Inr (Some (set_add source sources, set_add destination destinations))))"

text \<open>The substitution of a reference; \<open>used\<close> is the set of transfers it has consumed.\<close>

definition privateRef :: "jv \<Rightarrow> jv list \<Rightarrow> ustr list \<Rightarrow> nat list \<Rightarrow> jv \<Rightarrow> (jv \<times> nat list) res" where
  "privateRef old transfers destinations used ref =
     bindE (bindingEquivalent (fld ref ''document'') (fld old ''document'')) (\<lambda>same.
       if \<not> same then Inl (PlainError ''Foreign saved reference'')
       else if tag ''private'' (fld ref ''valueId'') \<in> set destinations then Inl (PlainError ''Aliased reference'')
       else if nullish (fld ref ''capturedFor'') then Inr (ref, used)
       else bindE (findIndexE (\<lambda>t. andE (Inr (is_kind t ''private'')) (bindingEquivalent (fld t ''from'') ref)) transfers)
         (\<lambda>index. case index of None \<Rightarrow> Inl (PlainError ''Missing private transfer'')
            | Some i \<Rightarrow> Inr (fld (transfers ! i) ''to'', set_add i used)))"

definition secretRef :: "jv list \<Rightarrow> ustr list \<Rightarrow> nat list \<Rightarrow> jv \<Rightarrow> (jv \<times> nat list) res" where
  "secretRef transfers destinations used ref =
     (if tag ''secret'' (fld ref ''secretId'') \<in> set destinations then Inl (PlainError ''Aliased reference'')
      else bindE (findIndexE (\<lambda>t. andE (Inr (is_kind t ''secret'')) (bindingEquivalent (fld t ''from'') ref)) transfers)
         (\<lambda>index. case index of None \<Rightarrow> Inl (PlainError ''Missing secret transfer'')
            | Some i \<Rightarrow> Inr (fld (transfers ! i) ''to'', set_add i used)))"

text \<open>One turn of the loop over the edits; the state is the set of used transfers and the edits so far.\<close>

definition editStep :: "jv \<Rightarrow> jv list \<Rightarrow> ustr list \<Rightarrow> nat list \<times> jv list \<Rightarrow> jv \<Rightarrow> (nat list \<times> jv list) option res" where
  "editStep old transfers destinations = (\<lambda>(used, done) edit.
     let priv = privateRef old transfers destinations; sec = secretRef transfers destinations in
     if is_kind edit ''set_private'' then
       (if \<not> strict_eq (fld edit ''fieldId'') (path edit [''reference'', ''fieldId'']) then Inr None
        else bindE (priv used (fld edit ''reference'')) (\<lambda>(r, used). Inr (Some (used, done @ [obj_put edit ''reference'' r]))))
     else if is_kind edit ''replace_secret'' then
       (if \<not> strict_eq (fld edit ''fieldId'') (path edit [''reference'', ''fieldId'']) then Inr None
        else bindE (sec used (fld edit ''reference'')) (\<lambda>(r, used). Inr (Some (used, done @ [obj_put edit ''reference'' r]))))
     else if is_kind edit ''set_sync_proxy'' \<and> is_kind (fld edit ''value'') ''custom'' then
       bindE (priv used (path edit [''value'', ''reference''])) (\<lambda>(r, used).
         Inr (Some (used, done @ [obj_put edit ''value'' (obj_put (fld edit ''value'') ''reference'' r)])))
     else if is_kind edit ''add_sync_destination'' then
       (let destination = fld edit ''destination'' in
        bindE (priv used (fld destination ''endpoint'')) (\<lambda>(endpoint, used).
        bindE (sec used (fld destination ''secret'')) (\<lambda>(secret, used).
          let d = obj_put (obj_put destination ''endpoint'' endpoint) ''secret'' secret in
          if is_kind (fld d ''proxy'') ''custom'' then
            bindE (priv used (path d [''proxy'', ''reference''])) (\<lambda>(r, used).
              Inr (Some (used, done @ [obj_put edit ''destination'' (obj_put d ''proxy'' (obj_put (fld d ''proxy'') ''reference'' r))])))
          else Inr (Some (used, done @ [obj_put edit ''destination'' d])))))
     else Inr (Some (used, done @ [edit])))"

text \<open>The body of the function; its last handler turns a thrown error into false.\<close>

definition acknowledgement :: "jv \<Rightarrow> jv \<Rightarrow> bool res" where
  "acknowledgement input result =
     (let old = fld input ''draft''; new = path result [''snapshot'', ''draft''];
          transfers = arr_items (fld result ''protectedTransfers'') in
      bindE (andE (bindingEquivalent old (path result [''accepted'', ''draft'']))
        (editsEqual (arr_items (fld input ''edits'')) (arr_items (path result [''accepted'', ''edits''])))) (\<lambda>accepted.
      if \<not> accepted then Inr False else
      bindE (andE (Inr (strict_eq (fld old ''draftId'') (fld new ''draftId'') \<and> strict_eq (fld old ''hostEpoch'') (fld new ''hostEpoch'')))
        (andE (bindingEquivalent (fld old ''document'') (fld new ''document''))
          (bindE (client_counter (fld new ''revision'')) (\<lambda>r'.
           bindE (client_counter (fld old ''revision'')) (\<lambda>r. Inr (r' = r + 1)))))) (\<lambda>succeeds.
      if \<not> succeeds \<or> length transfers > 256 then Inr False else
      bindE (loopE (transferStep old new) ([], []) transfers) (\<lambda>seen.
      case seen of None \<Rightarrow> Inr False | Some (sources, destinations) \<Rightarrow>
      bindE (capture (fld input ''edits'')) (\<lambda>edits.
      bindE (loopE (editStep old transfers destinations) ([], []) (arr_items edits)) (\<lambda>substituted.
      case substituted of None \<Rightarrow> Inr False | Some (used, edits') \<Rightarrow>
        if length used \<noteq> length transfers then Inr False
        else editsEqual edits' (arr_items (path result [''snapshot'', ''edits'']))))))))"

definition draftAcknowledgementMatches :: "jv \<Rightarrow> jv \<Rightarrow> bool" where
  "draftAcknowledgementMatches input result = tryE (acknowledgement input result) False"

section \<open>Completed saves\<close>

definition EMPTY_DIGEST :: string where
  "EMPTY_DIGEST = ''sha256:e3b0c44298fc1c149afbf4c8996fb92427ae41e4649b934ca495991b7852b855''"

definition configurationCompletionValid :: "jv \<Rightarrow> bool res" where
  "configurationCompletionValid operation =
     (let capt = path operation [''semantics'', ''capture'']; state = fld operation ''state''; save = is_kind capt ''save_configuration'';
          expected = (if save then path capt [''input'', ''draft'', ''draft'', ''document''] else path capt [''input'', ''document'']);
          digest = (if save then path capt [''input'', ''candidateDigest''] else path capt [''input'', ''backup'', ''retainedDigest'']);
          outcome = fld state ''outcome''; receipt = fld outcome ''receipt'';
          document = fld receipt ''document''; backup = fld receipt ''backup''
      in if \<not> save \<and> \<not> is_kind capt ''restore_configuration'' \<or> \<not> strict_eq (path operation [''semantics'', ''action'']) (fld capt ''kind'')
         \<or> \<not> isS (path operation [''semantics'', ''trustDomain'']) ''configuration'' \<or> \<not> isS (fld state ''status'') ''completed''
      then Inr False
      else if is_kind outcome ''no_change'' then
        Inr (isS (fld outcome ''reason'') ''already_satisfied''
          \<and> strict_eq digest (if is_kind (fld expected ''baseline'') ''existing'' then path expected [''baseline'', ''contentDigest'']
               else S EMPTY_DIGEST))
      else if \<not> is_kind outcome ''changed'' \<or> \<not> isS (fld outcome ''reason'') ''applied'' \<or> \<not> is_kind receipt ''configuration_written''
      then Inr False
      else andE (Inr (strict_eq (fld document ''documentId'') (fld expected ''documentId'')
          \<and> \<not> strict_eq (fld document ''revision'') (fld expected ''revision'')))
        (andE (bindingEquivalent (fld document ''target'') (fld expected ''target''))
        (andE (bindingEquivalent (obj_put expected ''schema'' (fld document ''schema'')) expected)
        (andE (Inr (is_kind (fld document ''baseline'') ''existing'' \<and> strict_eq (path document [''baseline'', ''contentDigest'']) digest
           \<and> (\<not> is_kind (fld expected ''baseline'') ''existing''
              \<or> \<not> strict_eq (path document [''baseline'', ''fileIdentity'']) (path expected [''baseline'', ''fileIdentity'']))))
         (if is_kind (fld expected ''baseline'') ''missing'' then Inr (nullish backup)
          else andE (Inr (\<not> nullish backup)) (andE (bindingEquivalent (fld backup ''document'') expected)
            (Inr (strict_eq (fld backup ''retainedDigest'') (path expected [''baseline'', ''contentDigest'']))))))))) "

text \<open>The draft a save leaves behind: the next revision, nothing staged, clean.\<close>

definition cleanSuccessor :: "jv \<Rightarrow> jv \<Rightarrow> jv" where
  "cleanSuccessor previous new =
     (let revision = big (path previous [''draft'', ''revision'']) + 1;
          draft = obj_put (obj_put (fld previous ''draft'') ''revision'' (JStr (nat_string (nat revision))))
                    ''document'' (path new [''draft'', ''document''])
      in obj_put (obj_put (obj_put (obj_put (obj_put previous ''draft'' draft) ''edits'' (JArr [])) ''apply'' (JArr []))
           ''validation'' (JArr [])) ''state'' (S ''clean''))"

definition possibleSavedDraftSuccessor :: "jv \<Rightarrow> jv \<Rightarrow> bool res" where
  "possibleSavedDraftSuccessor previous new =
     (let old_doc = path previous [''draft'', ''document'']; new_doc = path new [''draft'', ''document''] in
      bindE (andE (Inr (\<not> big (path previous [''draft'', ''revision'']) + 1 > U64_MAX
           \<and> strict_eq (fld new_doc ''documentId'') (fld old_doc ''documentId'')))
         (andE (bindingEquivalent (fld new_doc ''target'') (fld old_doc ''target''))
           (bindingEquivalent (obj_put old_doc ''schema'' (fld new_doc ''schema'')) old_doc))) (\<lambda>possible.
      if \<not> possible then Inr False else bindingEquivalent new (cleanSuccessor previous new)))"

definition savedDraftSuccessor :: "jv \<Rightarrow> jv \<Rightarrow> jv \<Rightarrow> bool res" where
  "savedDraftSuccessor previous new input =
     bindE (capture input) (\<lambda>operation.
     let capt = path operation [''semantics'', ''capture'']; outcome = path operation [''state'', ''outcome''] in
     bindE (andE (Inr (is_kind capt ''save_configuration''))
       (andE (configurationCompletionValid operation)
         (andE (bindingEquivalent (path capt [''input'', ''draft'']) previous)
           (Inr (isS (path operation [''state'', ''status'']) ''completed''))))) (\<lambda>completed.
     if \<not> completed then Inr False
     else if is_kind outcome ''no_change'' \<and> arr_items (fld previous ''edits'') = [] then
       andE (Inr (isS (fld previous ''state'') ''clean'')) (bindingEquivalent new previous)
     else bindE (possibleSavedDraftSuccessor previous new) (\<lambda>possible.
       if \<not> possible then Inr False
       else bindingEquivalent (path new [''draft'', ''document''])
         (if is_kind outcome ''changed'' \<and> is_kind (fld outcome ''receipt'') ''configuration_written''
          then path outcome [''receipt'', ''document''] else path previous [''draft'', ''document'']))))"

section \<open>What an acknowledgement establishes\<close>

lemma transferStep_Some: "transferStep old new (ss, ds) t = Inr (Some (ss', ds')) \<longleftrightarrow>
    strict_eq (path t [''from'', ''fieldId'']) (path t [''to'', ''fieldId'']) \<and> transferRefused old new t = Inr False
    \<and> transferKey ''from'' t \<notin> set ss \<and> transferKey ''to'' t \<notin> set ds
    \<and> ss' = ss @ [transferKey ''from'' t] \<and> ds' = ds @ [transferKey ''to'' t]"
  by (auto simp: transferStep_def Let_def res_simps set_add_def split: if_splits)

lemma transfers_loop:
  assumes "loopE (transferStep old new) ([], []) ts = Inr (Some (ss, ds))"
  shows "ss = map (transferKey ''from'') ts \<and> ds = map (transferKey ''to'') ts \<and> distinct ss \<and> distinct ds
    \<and> (\<forall>t \<in> set ts. transferRefused old new t = Inr False)"
  using assms
proof (induction ts arbitrary: ss ds rule: rev_induct)
  case (snoc t ts)
  then obtain ss1 ds1 where l: "loopE (transferStep old new) ([], []) ts = Inr (Some (ss1, ds1))"
    and s: "transferStep old new (ss1, ds1) t = Inr (Some (ss, ds))"
    by (auto simp: loopE_append res_simps split: option.splits)
  from snoc.IH [OF l] s show ?case by (auto simp: transferStep_Some)
qed simp

text \<open>The protected references an edit carries.\<close>

definition references :: "jv \<Rightarrow> jv list" where
  "references edit =
     (if kind_in edit [''set_private'', ''replace_secret''] then [fld edit ''reference'']
      else if is_kind edit ''set_sync_proxy'' then [path edit [''value'', ''reference'']]
      else if is_kind edit ''add_sync_destination'' then
        [path edit [''destination'', ''endpoint''], path edit [''destination'', ''secret''], path edit [''destination'', ''proxy'', ''reference'']]
      else [])"

definition tracks :: "jv list \<Rightarrow> jv list \<Rightarrow> nat list \<Rightarrow> bool" where
  "tracks ts refs used \<longleftrightarrow> distinct used \<and>
     (\<forall>i \<in> set used. i < length ts \<and> (\<exists>r \<in> set refs. bindingEquivalent (fld (ts ! i) ''from'') r = Inr True))"

lemma tracks_add: "tracks ts refs used \<Longrightarrow> i < length ts \<Longrightarrow> r \<in> set refs \<Longrightarrow>
    bindingEquivalent (fld (ts ! i) ''from'') r = Inr True \<Longrightarrow> tracks ts refs (set_add i used)"
  by (auto simp: tracks_def)

lemma found_tracks:
  assumes "findIndexE (\<lambda>t. andE (Inr (is_kind t k)) (bindingEquivalent (fld t ''from'') ref)) ts = Inr (Some y)"
    "tracks ts refs used" "ref \<in> set refs"
  shows "tracks ts refs (set_add y used)"
  using findIndexE_Some [OF assms(1)] tracks_add [OF assms(2) _ assms(3), of y] by (simp add: andE_True)

lemma privateRef_tracks:
  assumes "privateRef old ts ds used ref = Inr (r, used')" "tracks ts refs used" "ref \<in> set refs"
  shows "tracks ts refs used'"
  using assms by (auto simp: privateRef_def res_simps split: if_splits option.splits intro: found_tracks)

lemma secretRef_tracks:
  assumes "secretRef ts ds used ref = Inr (r, used')" "tracks ts refs used" "ref \<in> set refs"
  shows "tracks ts refs used'"
  using assms by (auto simp: secretRef_def res_simps split: if_splits option.splits intro: found_tracks)

lemma editStep_tracks:
  assumes "editStep old ts ds (used, xs) e = Inr (Some (used', xs'))" "tracks ts refs used" "set (references e) \<subseteq> set refs"
  shows "tracks ts refs used'"
proof -
  note p = privateRef_tracks [of old ts ds _ _ _ _ refs] and s = secretRef_tracks [of ts ds _ _ _ _ refs]
  show ?thesis using assms
    by (auto simp: editStep_def references_def Let_def res_simps isS_def split: if_splits prod.splits dest!: p s)
qed

lemma acknowledgement_facts:
  assumes "acknowledgement input result = Inr True"
  obtains ss ds edits used xs where
    "loopE (transferStep (fld input ''draft'') (path result [''snapshot'', ''draft''])) ([], []) (arr_items (fld result ''protectedTransfers'')) = Inr (Some (ss, ds))"
    "capture (fld input ''edits'') = Inr edits"
    "loopE (editStep (fld input ''draft'') (arr_items (fld result ''protectedTransfers'')) ds) ([], []) (arr_items edits) = Inr (Some (used, xs))"
    "length used = length (arr_items (fld result ''protectedTransfers''))"
    "length (arr_items (fld result ''protectedTransfers'')) \<le> 256"
    "strict_eq (path input [''draft'', ''draftId'']) (path result [''snapshot'', ''draft'', ''draftId''])"
    "strict_eq (path input [''draft'', ''hostEpoch'']) (path result [''snapshot'', ''draft'', ''hostEpoch''])"
    "bindingEquivalent (path input [''draft'', ''document'']) (path result [''snapshot'', ''draft'', ''document'']) = Inr True"
    "\<exists>r. client_counter (path input [''draft'', ''revision'']) = Inr r \<and> client_counter (path result [''snapshot'', ''draft'', ''revision'']) = Inr (r + 1)"
  using assms unfolding acknowledgement_def Let_def
  by (auto simp: res_simps case_prod_unfold simp del: capture_Inr bindingEquivalent_True split: if_splits option.splits) blast+

lemma client_counter_Inr: "client_counter v = Inr n \<Longrightarrow> n = big v \<and> n \<le> U64_MAX"
  by (auto simp: client_counter_def split: if_splits)


definition example_draft :: "string \<Rightarrow> jv" where
  "example_draft revision = JObj [(U ''draftId'', S ''d''), (U ''hostEpoch'', S ''h''), (U ''revision'', S revision),
     (U ''document'', JObj [(U ''documentId'', S ''doc''), (U ''schema'', S ''s''), (U ''target'', S ''t''),
       (U ''revision'', S ''5''), (U ''baseline'', JObj [(U ''kind'', S ''missing'')])])]"

definition example_edits :: jv where
  "example_edits = JArr [JObj [(U ''kind'', S ''set_public''), (U ''fieldId'', S ''f''), (U ''value'', JInt 3)]]"

definition example_input :: jv where
  "example_input = JObj [(U ''draft'', example_draft ''1''), (U ''edits'', example_edits)]"

definition example_result :: jv where
  "example_result = JObj [(U ''accepted'', example_input), (U ''protectedTransfers'', JArr []),
     (U ''snapshot'', JObj [(U ''draft'', example_draft ''2''), (U ''edits'', example_edits)])]"

lemma data_eq_refl [simp]: "data_eq v v"
proof (induction v)
  case (JArr vs)
  then show ?case by (simp add: list_all2_conv_all_nth)
next
  case (JObj kvs)
  then show ?case by (auto simp: snds.simps intro!: bexI)
qed simp_all

lemma same_binding_refl [simp]: "same_binding v v"
  by (simp add: same_binding_def)

lemma bindingEquivalent_refl: "wire_fits v \<Longrightarrow> bindingEquivalent v v = Inr True"
  by (simp add: bindingEquivalent_eq)

lemmas example_draft_defs = example_draft_def example_edits_def example_input_def example_result_def

lemma example_draft_fits: "wire_fits (example_draft ''1'')" "wire_fits example_edits" "wire_fits (fld (example_draft ''1'') ''document'')"
  "wire_fits (hd (arr_items example_edits))"
  by (rule small_fits; simp add: example_draft_defs small_eval)+

lemma example_acknowledged: "draftAcknowledgementMatches example_input example_result"
proof -
  have s: "client_counter (S ''1'') = Inr 1" "client_counter (S ''2'') = Inr 2"
    by (simp_all add: client_counter_def big_def str_of_def counter_syntax_def digit_def digits_value_def U_def U64_MAX_def)
  have d: "fld (example_draft r) ''document'' = fld (example_draft ''1'') ''document''" for r by (simp add: example_draft_defs)
  have e: "editsEqual (arr_items example_edits) (arr_items example_edits) = Inr True"
    using example_draft_fits(4) by (simp add: editsEqual_def editKey_def example_edits_def canonicalData_fits)
  have l: "loopE (editStep old [] []) ([], []) (arr_items example_edits) = Inr (Some ([], arr_items example_edits))" for old
    by (simp add: editStep_def example_edits_def)
  have paths: "fld example_input ''draft'' = example_draft ''1''" "fld example_input ''edits'' = example_edits"
    "path example_result [''accepted'', ''draft''] = example_draft ''1''" "path example_result [''accepted'', ''edits''] = example_edits"
    "path example_result [''snapshot'', ''draft''] = example_draft ''2''" "path example_result [''snapshot'', ''edits''] = example_edits"
    "fld example_result ''protectedTransfers'' = JArr []"
    by (simp_all add: example_result_def example_input_def)
  have f: "strict_eq (fld (example_draft ''1'') k) (fld (example_draft ''2'') k)" if "k = ''draftId'' \<or> k = ''hostEpoch''" for k
    using that by (auto simp: example_draft_def)
  have r: "fld (example_draft r) ''revision'' = S r" for r by (simp add: example_draft_def)
  have "acknowledgement example_input example_result = Inr True"
    unfolding acknowledgement_def paths Let_def
    using example_draft_fits by (simp add: f r s d [of "''2''"] e l bindingEquivalent_refl capture_def)
  then show ?thesis by (simp add: draftAcknowledgementMatches_def)
qed



definition example_snapshot :: jv where
  "example_snapshot = JObj [(U ''draft'', example_draft ''1''), (U ''edits'', JArr []), (U ''state'', S ''clean'')]"

definition example_operation :: jv where
  "example_operation = JObj [(U ''operationId'', S ''o''),
     (U ''semantics'', JObj [(U ''action'', S ''save_configuration''), (U ''trustDomain'', S ''configuration''),
       (U ''capture'', JObj [(U ''kind'', S ''save_configuration''),
         (U ''input'', JObj [(U ''draft'', example_snapshot), (U ''candidateDigest'', S EMPTY_DIGEST)])])]),
     (U ''state'', JObj [(U ''status'', S ''completed''),
       (U ''outcome'', JObj [(U ''kind'', S ''no_change''), (U ''reason'', S ''already_satisfied'')])])]"

lemma example_saved: "savedDraftSuccessor example_snapshot example_snapshot example_operation = Inr True"
proof -
  have f: "wire_fits example_snapshot" "wire_fits example_operation"
    by (rule small_fits; simp add: example_snapshot_def example_operation_def example_draft_def EMPTY_DIGEST_def small_eval)+
  have "configurationCompletionValid example_operation = Inr True"
    by (simp add: configurationCompletionValid_def example_operation_def example_snapshot_def example_draft_def)
  moreover have "path example_operation [''semantics'', ''capture'', ''kind''] = S ''save_configuration''"
    "path example_operation [''semantics'', ''capture'', ''input'', ''draft''] = example_snapshot"
    "path example_operation [''state'', ''status''] = S ''completed''"
    "path example_operation [''state'', ''outcome'', ''kind''] = S ''no_change''"
    by (simp_all add: example_operation_def)
  moreover have "fld example_snapshot ''edits'' = JArr []" "fld example_snapshot ''state'' = S ''clean''"
    by (simp_all add: example_snapshot_def)
  ultimately show ?thesis
    using f by (simp add: savedDraftSuccessor_def capture_def bindingEquivalent_refl Let_def)
qed


end
