(* ===== verification/Observation.thy ===== *)
theory Observation imports Client_Drafts begin

text \<open>
  The observation store of the browser client, \<^verbatim>\<open>ObservationStore\<close> of \<^verbatim>\<open>ui/src/client/observation.ts\<close>:
  what the client knows of operations and drafts, how sure it is of it, and where it stands in
  the event stream.

  A method is a function of the store to the new store and the boolean it returns. A thrown
  error ends in the method's handler, on the store as it was then. A publication appends the view the
  listeners are called with; listeners do not call back into the store.
\<close>

section \<open>The state\<close>

datatype confidence = Uninitialized | Authoritative | Partial | Stale

record limits =
  maximumRecentEvents :: nat
  maximumBufferedEvents :: nat
  maximumOperations :: nat
  maximumDrafts :: nat

record view =
  v_confidence :: confidence
  v_resnapshotRequired :: bool
  v_reason :: "string option"
  v_cursor :: "jv option"
  v_snapshot :: "jv option"
  v_operations :: "jv list"
  v_drafts :: "jv list"

record store =
  o_operations :: "(jv \<times> jv) list"
  o_drafts :: "(ustr \<times> jv) list"
  discardedDrafts :: "(ustr \<times> jv) list"
  draftWatermarks :: "(ustr \<times> jv \<times> bool) list"
  digests :: "(ustr \<times> ustr) list"
  o_buffer :: "jv list"
  buffering :: bool
  bufferFailed :: bool
  o_cursor :: "jv option"
  o_snapshot :: "jv option"
  o_confidence :: confidence
  o_reason :: "string option"
  published :: "view list"

definition observation_limit :: "int \<Rightarrow> nat res" where
  "observation_limit n = (if n < 1 \<or> n > 4096 then Inl (RangeError ''observation_limit'') else Inr (nat n))"

definition observation_limits :: "int option \<Rightarrow> int option \<Rightarrow> int option \<Rightarrow> int option \<Rightarrow> limits res" where
  "observation_limits recent buffered operations drafts =
     (let or_default = (\<lambda>v d. case v of None \<Rightarrow> d | Some n \<Rightarrow> n) in
      bindE (observation_limit (or_default recent 128)) (\<lambda>r.
      bindE (observation_limit (or_default buffered 128)) (\<lambda>b.
      bindE (observation_limit (or_default operations 256)) (\<lambda>os.
      bindE (observation_limit (or_default drafts 64)) (\<lambda>ds.
        Inr \<lparr>maximumRecentEvents = r, maximumBufferedEvents = b, maximumOperations = os, maximumDrafts = ds\<rparr>)))))"

definition empty_store :: store where
  "empty_store = \<lparr>o_operations = [], o_drafts = [], discardedDrafts = [], draftWatermarks = [], digests = [], o_buffer = [],
     buffering = False, bufferFailed = False, o_cursor = None, o_snapshot = None, o_confidence = Uninitialized, o_reason = None,
     published = []\<rparr>"

definition store_view :: "store \<Rightarrow> view" where
  "store_view st = \<lparr>v_confidence = o_confidence st, v_resnapshotRequired = (o_confidence st \<noteq> Authoritative),
     v_reason = o_reason st, v_cursor = o_cursor st, v_snapshot = o_snapshot st,
     v_operations = map snd (o_operations st), v_drafts = map snd (o_drafts st)\<rparr>"

definition publish :: "store \<Rightarrow> store" where
  "publish st = st\<lparr>published := published st @ [store_view st]\<rparr>"

definition invalidate :: "string \<Rightarrow> store \<Rightarrow> store \<times> bool" where
  "invalidate reason st = (publish (st\<lparr>o_confidence := Stale, o_reason := Some reason\<rparr>), False)"

text \<open>The value of a computation that can throw, with the handler of the method.\<close>

definition caught :: "string \<Rightarrow> 'a res \<Rightarrow> store \<Rightarrow> ('a \<Rightarrow> store \<times> bool) \<Rightarrow> store \<times> bool" where
  "caught reason m st k = (case m of Inl _ \<Rightarrow> invalidate reason st | Inr x \<Rightarrow> k x)"

definition sameStream :: "jv \<Rightarrow> jv \<Rightarrow> bool" where
  "sameStream left right \<longleftrightarrow> strict_eq (fld left ''hostEpoch'') (fld right ''hostEpoch'')
     \<and> strict_eq (fld left ''streamId'') (fld right ''streamId'')"

definition cursorKey :: "jv \<Rightarrow> ustr res" where
  "cursorKey cursor = canonicalData (JArr [fld cursor ''hostEpoch'', fld cursor ''streamId'', fld cursor ''sequence''])"

definition draftKey :: "jv \<Rightarrow> jv \<Rightarrow> ustr res" where
  "draftKey hostEpoch draftId = canonicalData (JArr [hostEpoch, draftId])"

definition epoch_or_stream :: "jv \<Rightarrow> jv \<Rightarrow> string" where
  "epoch_or_stream a b = (if \<not> strict_eq (fld a ''hostEpoch'') (fld b ''hostEpoch'') then ''epoch_changed'' else ''stream_changed'')"

abbreviation completed :: "jv \<Rightarrow> bool" where
  "completed operation \<equiv> isS (path operation [''state'', ''status'']) ''completed''"

section \<open>Small methods\<close>

definition observeHello :: "jv \<Rightarrow> store \<Rightarrow> store" where
  "observeHello hostEpoch st =
     (case o_cursor st of
        Some c \<Rightarrow> if \<not> strict_eq (fld c ''hostEpoch'') hostEpoch then fst (invalidate ''epoch_changed'' st) else st
      | None \<Rightarrow> st)"

definition beginSnapshot :: "store \<Rightarrow> store" where
  "beginSnapshot st = st\<lparr>buffering := True, bufferFailed := False, o_buffer := []\<rparr>"

definition abandonSnapshot :: "store \<Rightarrow> store" where
  "abandonSnapshot st = fst (invalidate ''disconnected'' (st\<lparr>buffering := False, o_buffer := []\<rparr>))"

definition forgetCompletedOperation :: "jv \<Rightarrow> store \<Rightarrow> store \<times> bool" where
  "forgetCompletedOperation oid st =
     (case map_of (o_operations st) oid of
        Some operation \<Rightarrow>
          if completed operation then (publish (st\<lparr>o_operations := AList.delete oid (o_operations st)\<rparr>), True)
          else (st, False)
      | None \<Rightarrow> (st, False))"

section \<open>Operations\<close>

definition operationProblem :: "limits \<Rightarrow> jv \<Rightarrow> (jv \<times> jv) list \<Rightarrow> string option res" where
  "operationProblem lim operation m =
     bindE (operationRecoveryMatches operation) (\<lambda>recovers.
     if \<not> recovers then Inr (Some ''capture_changed'') else
     bindE (andE (Inr (completed operation
          \<and> one_of (path operation [''semantics'', ''capture'', ''kind'']) [''save_configuration'', ''restore_configuration'']
          \<and> one_of (path operation [''state'', ''outcome'', ''kind'']) [''changed'', ''no_change'']))
        (negE (configurationCompletionValid operation))) (\<lambda>incomplete.
     if incomplete then Inr (Some ''capture_changed'') else
     bindE (client_counter (fld operation ''operationRevision'')) (\<lambda>revision.
     case map_of m (fld operation ''operationId'') of
       None \<Rightarrow> Inr (if length m \<ge> maximumOperations lim then Some ''observation_limit'' else None)
     | Some previous \<Rightarrow>
        bindE (semanticPlanKey (fld previous ''semantics'')) (\<lambda>a.
        bindE (semanticPlanKey (fld operation ''semantics'')) (\<lambda>b.
        if a \<noteq> b then Inr (Some ''capture_changed'') else
        bindE (client_counter (fld previous ''operationRevision'')) (\<lambda>previousRevision.
        if revision < previousRevision then Inr (Some ''revision_regressed'') else
        bindE (andE (Inr (completed previous)) (negE (bindingEquivalent (fld previous ''state'') (fld operation ''state'')))) (\<lambda>changed.
        if changed then Inr (Some ''terminal_changed'') else
        bindE (andE (Inr (revision = previousRevision)) (negE (bindingEquivalent (fld previous ''state'') (fld operation ''state'')))) (\<lambda>reused.
        Inr (if reused then Some ''revision_reused'' else None)))))))))"

definition store_observeOperation :: "limits \<Rightarrow> jv \<Rightarrow> store \<Rightarrow> store \<times> bool" where
  "store_observeOperation lim input st =
     caught ''malformed_event'' (capture input) st (\<lambda>operation.
     caught ''malformed_event'' (operationProblem lim operation (o_operations st)) st (\<lambda>problem.
     case problem of
       Some reason \<Rightarrow> invalidate reason st
     | None \<Rightarrow> (publish (st\<lparr>o_operations := AList.update (fld operation ''operationId'') operation (o_operations st)\<rparr>), True)))"

definition observeOperationResult :: "limits \<Rightarrow> jv \<Rightarrow> jv \<Rightarrow> store \<Rightarrow> store \<times> bool" where
  "observeOperationResult lim oid result st =
     (let operation = fld result ''operation'' in
      if isS (fld operation ''status'') ''observed'' then
        (if strict_eq (path operation [''value'', ''operationId'']) oid then store_observeOperation lim (fld operation ''value'') st
         else invalidate ''capture_changed'' st)
      else if isS (fld operation ''status'') ''missing'' \<and> map_of (o_operations st) oid \<noteq> None then
        invalidate ''pending_operation_omitted'' st
      else (st, True))"

section \<open>Host close\<close>

definition closeObligationStep :: "store \<Rightarrow> jv list \<times> ustr list \<Rightarrow> jv \<Rightarrow> (jv list \<times> ustr list) option res" where
  "closeObligationStep st = (\<lambda>(covered, sessions) obligation.
     if is_kind obligation ''session_custody'' then
       bindE (canonicalData (fld obligation ''session'')) (\<lambda>key.
         if key \<in> set sessions then Inr None else Inr (Some (covered, set_add key sessions)))
     else let oid = fld obligation ''operationId'' in
       if oid \<in> set covered then Inr None
       else case map_of (o_operations st) oid of
         Some operation \<Rightarrow>
           if completed operation \<or> \<not> strict_eq (fld operation ''operationRevision'') (fld obligation ''operationRevision'') then Inr None
           else Inr (Some (set_add oid covered, sessions))
       | None \<Rightarrow> Inr (Some (set_add oid covered, sessions)))"

definition closeRecoveryStep :: "store \<Rightarrow> jv list \<Rightarrow> jv \<Rightarrow> jv list option res" where
  "closeRecoveryStep st covered recovery =
     (let oid = fld recovery ''operationId'' in
      if oid \<in> set covered then Inr None
      else case map_of (o_operations st) oid of
        Some operation \<Rightarrow>
          bindE (orE (Inr (\<not> isS (path operation [''state'', ''status'']) ''recovery_required''))
              (negE (bindingEquivalent (path operation [''state'', ''recovery'']) recovery))) (\<lambda>bad.
            Inr (if bad then None else Some (set_add oid covered)))
      | None \<Rightarrow> Inr (Some (set_add oid covered)))"

text \<open>\<^verbatim>\<open>closeProblem\<close>, which is true when the disposition accounts for what is pending.\<close>

definition closeProblem :: "jv \<Rightarrow> store \<Rightarrow> bool res" where
  "closeProblem disposition st =
     (let pending = filter (\<lambda>operation. \<not> completed operation) (map snd (o_operations st));
          all_covered = (\<lambda>covered. \<forall>operation \<in> set pending. fld operation ''operationId'' \<in> set covered) in
      if is_kind disposition ''ready'' then Inr (pending = [] \<and> o_confidence st = Authoritative)
      else if is_kind disposition ''deferred'' then
        (if arr_items (fld disposition ''obligations'') = [] then Inr False
         else bindE (loopE (closeObligationStep st) ([], []) (arr_items (fld disposition ''obligations''))) (\<lambda>r.
           case r of None \<Rightarrow> Inr False | Some (covered, _) \<Rightarrow> Inr (all_covered covered)))
      else
        (if arr_items (fld disposition ''recoveries'') = [] then Inr False
         else bindE (loopE (closeRecoveryStep st) [] (arr_items (fld disposition ''recoveries''))) (\<lambda>r.
           case r of None \<Rightarrow> Inr False | Some covered \<Rightarrow> Inr (all_covered covered))))"

definition observeClose :: "jv \<Rightarrow> store \<Rightarrow> store \<times> bool" where
  "observeClose disposition st =
     caught ''close_obligation_mismatch'' (closeProblem disposition st) st (\<lambda>ok.
       if ok then (st, True) else invalidate ''close_obligation_mismatch'' st)"

section \<open>Drafts\<close>

definition draftCount :: "store \<Rightarrow> nat" where
  "draftCount st = card (fst ` set (o_drafts st) \<union> fst ` set (discardedDrafts st) \<union> fst ` set (draftWatermarks st))"

definition savedCompletion :: "jv \<Rightarrow> jv \<Rightarrow> jv option \<Rightarrow> store \<Rightarrow> jv option res" where
  "savedCompletion previous new oid st =
     (case o_cursor st of
        None \<Rightarrow> Inr None
      | Some c \<Rightarrow>
          if \<not> strict_eq (fld c ''hostEpoch'') (path previous [''draft'', ''hostEpoch''])
             \<or> \<not> strict_eq (path new [''draft'', ''hostEpoch'']) (path previous [''draft'', ''hostEpoch'']) then Inr None
          else findE (\<lambda>operation.
              andE (Inr (case oid of None \<Rightarrow> True | Some i \<Rightarrow> strict_eq (fld operation ''operationId'') i))
                (savedDraftSuccessor previous new operation))
            (map snd (o_operations st)))"

definition draftProblem :: "limits \<Rightarrow> jv \<Rightarrow> (ustr \<times> jv) list \<Rightarrow> bool \<Rightarrow> store \<Rightarrow> string option res" where
  "draftProblem lim draft m allowStaleObservation st =
     bindE (draftKey (path draft [''draft'', ''hostEpoch'']) (path draft [''draft'', ''draftId''])) (\<lambda>key.
     bindE (client_counter (path draft [''draft'', ''revision''])) (\<lambda>revision.
     case (case map_of m key of Some d \<Rightarrow> Some d | None \<Rightarrow> map_of (discardedDrafts st) key) of
       None \<Rightarrow> Inr (case map_of (draftWatermarks st) key of
           Some (_, missing) \<Rightarrow> if missing then Some ''revision_reused'' else None
         | None \<Rightarrow> if draftCount st \<ge> maximumDrafts lim then Some ''observation_limit'' else None)
     | Some previous \<Rightarrow>
        bindE (client_counter (path previous [''draft'', ''revision''])) (\<lambda>previousRevision.
        if revision < previousRevision then Inr (Some ''revision_regressed'')
        else if map_of (discardedDrafts st) key \<noteq> None then Inr (Some ''revision_reused'')
        else bindE (andE (negE (bindingEquivalent (path previous [''draft'', ''document'']) (path draft [''draft'', ''document''])))
            (bindE (savedCompletion previous draft None st) (\<lambda>found. Inr (found = None)))) (\<lambda>rebound.
        if rebound then Inr (Some ''capture_changed'')
        else bindE (andE (Inr (allowStaleObservation \<and> isS (fld draft ''state'') ''stale''
               \<and> one_of (fld previous ''state'') [''clean'', ''dirty'']))
             (bindingEquivalent (obj_put (obj_put previous ''state'' (S ''stale'')) ''validation'' (JArr [])) draft)) (\<lambda>becameStale.
        bindE (andE (Inr (revision = previousRevision))
           (andE (negE (bindingEquivalent previous draft)) (Inr (\<not> becameStale)))) (\<lambda>reused.
        Inr (if reused then Some ''revision_reused'' else None)))))))"

text \<open>An authoritative read of one draft; \<open>emptyStage\<close> is \<^verbatim>\<open>undefined\<close> when it is not passed.\<close>

definition observeDraftResult :: "limits \<Rightarrow> jv \<Rightarrow> jv \<Rightarrow> jv \<Rightarrow> store \<Rightarrow> store \<times> bool" where
  "observeDraftResult lim input result emptyStage st =
     (caught ''malformed_event'' (capture input) st (\<lambda>request.
      caught ''malformed_event'' (capture result) st (\<lambda>read.
      let cursor = fld read ''cursor'' in
      caught ''malformed_event'' (client_counter (fld cursor ''sequence'')) st (\<lambda>sequence.
      if \<not> strict_eq (fld cursor ''hostEpoch'') (fld request ''hostEpoch'') then invalidate ''epoch_changed'' st
      else if (case o_cursor st of Some c \<Rightarrow> \<not> sameStream c cursor | None \<Rightarrow> False)
      then invalidate (epoch_or_stream (the (o_cursor st)) cursor) st
      else caught ''malformed_event'' (draftKey (fld request ''hostEpoch'') (fld request ''draftId'')) st (\<lambda>key.
      let previous = map_of (draftWatermarks st) key in
      caught ''malformed_event''
        (case previous of None \<Rightarrow> Inr False
         | Some (pc, _) \<Rightarrow> orE (Inr (\<not> sameStream pc cursor)) (bindE (client_counter (fld pc ''sequence'')) (\<lambda>s. Inr (sequence < s)))) st (\<lambda>regressed.
      if regressed then invalidate ''draft_read_regressed'' st
      else if isS (path read [''draft'', ''status'']) ''observed'' then
        (let draft = path read [''draft'', ''value'']; retained = map_of (o_drafts st) key in
         if \<not> strict_eq (path draft [''draft'', ''hostEpoch'']) (fld request ''hostEpoch'')
            \<or> \<not> strict_eq (path draft [''draft'', ''draftId'']) (fld request ''draftId'') then invalidate ''capture_changed'' st
         else caught ''malformed_event''
           (case retained of None \<Rightarrow> Inr False
            | Some kept \<Rightarrow>
                bindE (bindingEquivalent (path kept [''draft'', ''document'']) (path draft [''draft'', ''document''])) (\<lambda>sameDocument.
                bindE (andE (Inr (sameDocument \<and> emptyStage \<noteq> JUndef \<and> arr_items (fld emptyStage ''edits'') = []))
                    (bindingEquivalent (fld emptyStage ''draft'') (fld kept ''draft''))) (\<lambda>requestedEmptyStage.
                andE (Inr (\<not> sameDocument \<or> arr_items (fld kept ''edits'') \<noteq> [] \<and> \<not> requestedEmptyStage))
                  (andE (possibleSavedDraftSuccessor kept draft)
                    (bindE (savedCompletion kept draft None st) (\<lambda>found. Inr (found = None))))))) st (\<lambda>early.
         if early then (st, False)
         else caught ''malformed_event'' (draftProblem lim draft (o_drafts st) True st) st (\<lambda>problem.
         case problem of Some reason \<Rightarrow> invalidate reason st
         | None \<Rightarrow>
           caught ''malformed_event''
             (case previous of None \<Rightarrow> Inr False
              | Some (pc, missing) \<Rightarrow>
                  andE (bindE (client_counter (fld pc ''sequence'')) (\<lambda>s. Inr (sequence = s)))
                    (orE (Inr (missing \<or> retained = None)) (negE (bindingEquivalent (the retained) draft)))) st (\<lambda>reused.
           if reused then invalidate ''revision_reused'' st
           else (publish (st\<lparr>o_drafts := AList.update key draft (o_drafts st),
                  draftWatermarks := AList.update key (cursor, False) (draftWatermarks st)\<rparr>), True)))))
      else if isS (path read [''draft'', ''status'']) ''missing'' then
        (if map_of (o_drafts st) key = None \<and> map_of (discardedDrafts st) key = None \<and> previous = None
            \<and> draftCount st \<ge> maximumDrafts lim then invalidate ''observation_limit'' st
         else (publish (st\<lparr>
             discardedDrafts := (case map_of (o_drafts st) key of Some d \<Rightarrow> AList.update key d (discardedDrafts st) | None \<Rightarrow> discardedDrafts st),
             o_drafts := AList.delete key (o_drafts st),
             draftWatermarks := AList.update key (cursor, True) (draftWatermarks st)\<rparr>), True))
      else (st, False)))))))"

definition observeDraft :: "limits \<Rightarrow> jv \<Rightarrow> store \<Rightarrow> store \<times> bool" where
  "observeDraft lim input st =
     caught ''malformed_event'' (capture input) st (\<lambda>draft.
     caught ''malformed_event'' (draftProblem lim draft (o_drafts st) False st) st (\<lambda>problem.
     case problem of Some reason \<Rightarrow> invalidate reason st
     | None \<Rightarrow>
       caught ''malformed_event'' (draftKey (path draft [''draft'', ''hostEpoch'']) (path draft [''draft'', ''draftId''])) st (\<lambda>key.
         (publish (st\<lparr>discardedDrafts := AList.delete key (discardedDrafts st),
            o_drafts := AList.update key draft (o_drafts st)\<rparr>), True))))"

definition observeDiscard :: "jv \<Rightarrow> store \<Rightarrow> store \<times> bool" where
  "observeDiscard input st =
     caught ''malformed_event'' (capture input) st (\<lambda>receipt.
     caught ''malformed_event'' (client_counter (fld receipt ''previousRevision'')) st (\<lambda>_.
     caught ''malformed_event'' (draftKey (fld receipt ''hostEpoch'') (fld receipt ''draftId'')) st (\<lambda>key.
     case map_of (o_drafts st) key of
       None \<Rightarrow>
         (case map_of (discardedDrafts st) key of
            Some discarded \<Rightarrow>
              if strict_eq (path discarded [''draft'', ''revision'']) (fld receipt ''previousRevision'') then (st, True)
              else invalidate ''discard_revision_mismatch'' st
          | None \<Rightarrow> (st, True))
     | Some draft \<Rightarrow>
         if \<not> strict_eq (path draft [''draft'', ''revision'']) (fld receipt ''previousRevision'')
         then invalidate ''discard_revision_mismatch'' st
         else (publish (st\<lparr>o_drafts := AList.delete key (o_drafts st),
                  discardedDrafts := AList.update key draft (discardedDrafts st)\<rparr>), True))))"

definition forgetDiscardedDraft :: "jv \<Rightarrow> jv \<Rightarrow> store \<Rightarrow> (store \<times> bool) res" where
  "forgetDiscardedDraft hostEpoch draftId st =
     bindE (draftKey hostEpoch draftId) (\<lambda>key.
       let removed = map_of (discardedDrafts st) key \<noteq> None;
           watermarkRemoved = (case map_of (draftWatermarks st) key of Some (_, missing) \<Rightarrow> missing | None \<Rightarrow> False)
       in Inr (st\<lparr>discardedDrafts := AList.delete key (discardedDrafts st),
               draftWatermarks := (if watermarkRemoved then AList.delete key (draftWatermarks st) else draftWatermarks st)\<rparr>,
             removed \<or> watermarkRemoved))"

section \<open>Events\<close>

text \<open>
  What an in-order event changes before the cursor moves: \<open>Inl\<close> is the reason of a refusal,
  \<open>Inr\<close> the store with the event's body applied.
\<close>

definition eventBody :: "limits \<Rightarrow> jv \<Rightarrow> int \<Rightarrow> store \<Rightarrow> (string + store) res" where
  "eventBody lim event sequence st =
     (let body = fld event ''body''; cursor = fld event ''cursor'' in
      if isS (fld body ''type'') ''operation_changed'' then
        bindE (operationProblem lim (fld body ''operation'') (o_operations st)) (\<lambda>problem.
        Inr (case problem of Some reason \<Rightarrow> Inl reason
           | None \<Rightarrow> Inr (st\<lparr>o_operations := AList.update (path body [''operation'', ''operationId'']) (fld body ''operation'') (o_operations st)\<rparr>)))
      else if isS (fld body ''type'') ''draft_changed'' then
        (let draft = fld body ''draft'' in
         bindE (draftKey (path draft [''draft'', ''hostEpoch'']) (path draft [''draft'', ''draftId''])) (\<lambda>key.
         bindE (orE
             (case map_of (draftWatermarks st) key of None \<Rightarrow> Inr False
              | Some (wc, _) \<Rightarrow> andE (Inr (sameStream wc cursor)) (bindE (client_counter (fld wc ''sequence'')) (\<lambda>s. Inr (sequence \<le> s))))
             (case map_of (discardedDrafts st) key of None \<Rightarrow> Inr False
              | Some discarded \<Rightarrow> bindE (client_counter (path draft [''draft'', ''revision''])) (\<lambda>r.
                  bindE (client_counter (path discarded [''draft'', ''revision''])) (\<lambda>d. Inr (r \<le> d))))) (\<lambda>fenced.
         if fenced then Inr (Inr st)
         else bindE (draftProblem lim draft (o_drafts st) True st) (\<lambda>problem.
         Inr (case problem of Some reason \<Rightarrow> Inl reason
            | None \<Rightarrow> Inr (st\<lparr>o_drafts := AList.update key draft (o_drafts st),
                draftWatermarks := AList.update key (cursor, False) (draftWatermarks st)\<rparr>))))))
      else if isS (fld body ''type'') ''host_close_deferred'' then
        bindE (closeProblem (JObj [(U ''kind'', S ''deferred''), (U ''obligations'', fld body ''obligations'')]) st) (\<lambda>ok.
        Inr (if ok then Inr st else Inl ''close_obligation_mismatch''))
      else Inr (Inr st))"

definition remember_digest :: "limits \<Rightarrow> ustr \<Rightarrow> ustr \<Rightarrow> (ustr \<times> ustr) list \<Rightarrow> (ustr \<times> ustr) list" where
  "remember_digest lim key digest ds =
     (let ds' = AList.update key digest ds in
      if length ds' > maximumRecentEvents lim then AList.delete (fst (hd ds')) ds' else ds')"

definition acceptEvent :: "limits \<Rightarrow> jv \<Rightarrow> store \<Rightarrow> store \<times> bool" where
  "acceptEvent lim input st =
     caught ''malformed_event'' (capture input) st (\<lambda>event.
     let cursor = fld event ''cursor'' in
     caught ''malformed_event'' (client_counter (fld cursor ''sequence'')) st (\<lambda>sequence.
     if buffering st then
       (if bufferFailed st then (st, False)
        else if length (o_buffer st) \<ge> maximumBufferedEvents lim then
          invalidate ''buffer_limit'' (st\<lparr>o_buffer := [], bufferFailed := True\<rparr>)
        else (st\<lparr>o_buffer := o_buffer st @ [event]\<rparr>, True))
     else case o_cursor st of None \<Rightarrow> invalidate ''sequence_gap'' st
     | Some c \<Rightarrow>
       if \<not> sameStream c cursor then invalidate (epoch_or_stream cursor c) st
       else caught ''malformed_event'' (client_counter (fld c ''sequence'')) st (\<lambda>current.
       caught ''malformed_event'' (cursorKey cursor) st (\<lambda>key.
       caught ''malformed_event'' (canonicalData event) st (\<lambda>digest.
       if sequence \<le> current then
         (case map_of (digests st) key of
            None \<Rightarrow> invalidate ''unverifiable_duplicate'' st
          | Some previous \<Rightarrow> invalidate (if previous = digest then ''duplicate_event'' else ''contradictory_duplicate'') st)
       else if o_confidence st = Stale then (st, False)
       else if sequence \<noteq> current + 1 then invalidate ''sequence_gap'' st
       else caught ''malformed_event'' (eventBody lim event sequence st) st (\<lambda>outcome.
         case outcome of Inl reason \<Rightarrow> invalidate reason st
         | Inr st1 \<Rightarrow>
           let st2 = st1\<lparr>o_cursor := Some cursor, digests := remember_digest lim key digest (digests st1)\<rparr> in
           if isS (path event [''body'', ''type'']) ''snapshot_invalidated'' then invalidate ''snapshot_invalidated'' st2
           else (publish st2, True)))))))"

section \<open>Snapshots\<close>

definition snapshotItem :: "limits \<Rightarrow> (jv \<times> jv) list \<times> jv list \<Rightarrow> jv \<Rightarrow> (string + (jv \<times> jv) list \<times> jv list) res" where
  "snapshotItem lim = (\<lambda>(new, included) operation.
     let oid = fld operation ''operationId'' in
     if oid \<in> set included then Inr (Inl ''revision_reused'')
     else bindE (operationProblem lim operation new) (\<lambda>problem.
       Inr (case problem of Some reason \<Rightarrow> Inl reason
         | None \<Rightarrow> Inr (AList.update oid operation new, included @ [oid]))))"

definition refuseSnapshot :: "string \<Rightarrow> store \<Rightarrow> store \<times> bool" where
  "refuseSnapshot reason st = invalidate reason (st\<lparr>buffering := False, o_buffer := []\<rparr>)"

text \<open>The loop over the events buffered while the snapshot was read.\<close>

fun replayBuffered :: "limits \<Rightarrow> jv \<Rightarrow> jv list \<Rightarrow> store \<Rightarrow> store \<times> bool" where
  "replayBuffered lim snapshotCursor [] st = (publish st, o_confidence st = Authoritative)"
| "replayBuffered lim snapshotCursor (event # events) st =
     (let cursor = fld event ''cursor'' in
      if \<not> sameStream cursor snapshotCursor then invalidate (epoch_or_stream cursor snapshotCursor) st
      else case bindE (client_counter (fld cursor ''sequence'')) (\<lambda>s. bindE (client_counter (fld snapshotCursor ''sequence'')) (\<lambda>w. Inr (s \<le> w))) of
        Inl _ \<Rightarrow> refuseSnapshot ''malformed_event'' st
      | Inr True \<Rightarrow> replayBuffered lim snapshotCursor events st
      | Inr False \<Rightarrow>
          (case acceptEvent lim event st of
             (st', True) \<Rightarrow> replayBuffered lim snapshotCursor events st'
           | (st', False) \<Rightarrow> (st', False)))"

definition partialInventory :: "jv \<Rightarrow> bool" where
  "partialInventory snapshot \<longleftrightarrow>
     isS (path snapshot [''operations'', ''completeness'']) ''partial''
     \<or> isS (path snapshot [''capabilities'', ''completeness'']) ''partial''
     \<or> (\<exists>k \<in> set [''profiles'', ''installations'', ''sessions''].
          isS (path snapshot [k, ''status'']) ''observed'' \<and> isS (path snapshot [k, ''value'', ''completeness'']) ''partial'')"

definition acceptSnapshot :: "limits \<Rightarrow> jv \<Rightarrow> store \<Rightarrow> store \<times> bool" where
  "acceptSnapshot lim input st =
     (let refused = (\<lambda>reason. refuseSnapshot reason st) in
      case capture input of Inl _ \<Rightarrow> refused ''malformed_event'' | Inr snapshot \<Rightarrow>
      let cursor = fld snapshot ''cursor'' in
      case client_counter (fld cursor ''sequence'') of Inl _ \<Rightarrow> refused ''malformed_event'' | Inr sequence \<Rightarrow>
      if bufferFailed st then refused ''buffer_limit'' else
      case (case o_cursor st of None \<Rightarrow> Inr False
            | Some c \<Rightarrow> andE (Inr (sameStream c cursor)) (bindE (client_counter (fld c ''sequence'')) (\<lambda>s. Inr (sequence < s)))) of
        Inl _ \<Rightarrow> refused ''malformed_event'' | Inr True \<Rightarrow> refused ''sequence_gap'' | Inr False \<Rightarrow>
      case untilE (snapshotItem lim) (o_operations st, []) (arr_items (path snapshot [''operations'', ''items''])) of
        Inl _ \<Rightarrow> refused ''malformed_event'' | Inr (Inl reason) \<Rightarrow> refused reason | Inr (Inr (new, included)) \<Rightarrow>
      let complete = isS (path snapshot [''operations'', ''completeness'']) ''complete'';
          issues = arr_items (path snapshot [''operations'', ''issues'']) in
      if complete \<noteq> (issues = []) then refused ''malformed_event''
      else if complete \<and> (\<exists>known \<in> snd ` set (o_operations st). \<not> completed known \<and> fld known ''operationId'' \<notin> set included)
      then refused ''pending_operation_omitted''
      else let partial = partialInventory snapshot in
        replayBuffered lim cursor (o_buffer st)
          (st\<lparr>o_operations := new, o_cursor := Some cursor, o_snapshot := Some snapshot,
             o_confidence := (if partial then Partial else Authoritative),
             o_reason := (if partial then Some ''partial_inventory'' else None),
             digests := [], o_buffer := [], buffering := False\<rparr>))"

section \<open>Resumed batches\<close>

fun resumeEvents :: "limits \<Rightarrow> jv list \<Rightarrow> store \<Rightarrow> store \<times> bool" where
  "resumeEvents lim [] st = (st, True)"
| "resumeEvents lim (event # events) st =
     (case (case o_cursor st of None \<Rightarrow> Inr False
            | Some c \<Rightarrow> andE (Inr (sameStream c (fld event ''cursor'')))
                (bindE (client_counter (path event [''cursor'', ''sequence''])) (\<lambda>s. bindE (client_counter (fld c ''sequence'')) (\<lambda>t. Inr (s = t + 1))))) of
        Inr True \<Rightarrow>
          (case acceptEvent lim event st of
             (st', True) \<Rightarrow> resumeEvents lim events st'
           | (st', False) \<Rightarrow> (st', False))
      | _ \<Rightarrow> invalidate ''resume_mismatch'' st)"

definition acceptBatch :: "limits \<Rightarrow> jv \<Rightarrow> jv \<Rightarrow> jv \<Rightarrow> store \<Rightarrow> store \<times> bool" where
  "acceptBatch lim batch requestedAfter maximumEvents st =
     (let events = arr_items (fld batch ''events'');
          same = (\<lambda>a b. bindE (canonicalData a) (\<lambda>x. bindE (canonicalData b) (\<lambda>y. Inr (x = y)))) in
      case (case o_cursor st of None \<Rightarrow> Inr False
            | Some c \<Rightarrow> andE (same (fld batch ''after'') requestedAfter) (andE (same c requestedAfter)
                (bindE (client_counter maximumEvents) (\<lambda>n. Inr (int (length events) \<le> n))))) of
        Inr True \<Rightarrow>
          (case resumeEvents lim events st of
             (st', False) \<Rightarrow> (st', False)
           | (st', True) \<Rightarrow>
               (case (case o_cursor st' of None \<Rightarrow> Inr False | Some c \<Rightarrow> same (fld batch ''next'') c) of
                  Inr True \<Rightarrow> (st', True)
                | _ \<Rightarrow> invalidate ''resume_mismatch'' st'))
      | _ \<Rightarrow> invalidate ''resume_mismatch'' st)"

section \<open>The public methods\<close>

datatype store_call =
    ObserveHello jv
  | BeginSnapshot
  | AbandonSnapshot
  | Invalidate string
  | ForgetCompletedOperation jv
  | ObserveOperation jv
  | ObserveOperationResult jv jv
  | ObserveClose jv
  | ObserveDraftResult jv jv jv
  | ObserveDraft jv
  | ObserveDiscard jv
  | ForgetDiscardedDraft jv jv
  | AcceptSnapshot jv
  | AcceptEvent jv
  | AcceptBatch jv jv jv

text \<open>The store after a call; a call that throws leaves it as it was.\<close>

fun store_step :: "limits \<Rightarrow> store_call \<Rightarrow> store \<Rightarrow> store" where
  "store_step lim (ObserveHello e) st = observeHello e st"
| "store_step lim BeginSnapshot st = beginSnapshot st"
| "store_step lim AbandonSnapshot st = abandonSnapshot st"
| "store_step lim (Invalidate reason) st = fst (invalidate reason st)"
| "store_step lim (ForgetCompletedOperation oid) st = fst (forgetCompletedOperation oid st)"
| "store_step lim (ObserveOperation v) st = fst (store_observeOperation lim v st)"
| "store_step lim (ObserveOperationResult oid v) st = fst (observeOperationResult lim oid v st)"
| "store_step lim (ObserveClose d) st = fst (observeClose d st)"
| "store_step lim (ObserveDraftResult i r e) st = fst (observeDraftResult lim i r e st)"
| "store_step lim (ObserveDraft d) st = fst (observeDraft lim d st)"
| "store_step lim (ObserveDiscard r) st = fst (observeDiscard r st)"
| "store_step lim (ForgetDiscardedDraft e d) st = (case forgetDiscardedDraft e d st of Inl _ \<Rightarrow> st | Inr (t, _) \<Rightarrow> t)"
| "store_step lim (AcceptSnapshot v) st = fst (acceptSnapshot lim v st)"
| "store_step lim (AcceptEvent v) st = fst (acceptEvent lim v st)"
| "store_step lim (AcceptBatch b a m) st = fst (acceptBatch lim b a m st)"

end
