(* ===== verification/Observation_Changes.thy ===== *)
theory Observation_Changes imports Observation Machines begin

text \<open>
  What the methods of the observation store do to it, as a sequence of labelled changes. Every
  invariant of the store is proved once per kind of change.
\<close>

datatype label = Quiet | Operation | Forget | Drafts | Advance | Anchor

inductive change :: "limits \<Rightarrow> store \<Rightarrow> label \<Rightarrow> store \<Rightarrow> bool" for lim where
  quiet: "o_operations t = o_operations s \<Longrightarrow> o_drafts t = o_drafts s \<Longrightarrow> discardedDrafts t = discardedDrafts s \<Longrightarrow>
    draftWatermarks t = draftWatermarks s \<Longrightarrow> digests t = digests s \<Longrightarrow> o_cursor t = o_cursor s \<Longrightarrow>
    o_confidence t = o_confidence s \<or> o_confidence t = Stale \<Longrightarrow>
    length (o_buffer t) \<le> max (length (o_buffer s)) (maximumBufferedEvents lim) \<Longrightarrow> change lim s Quiet t"
| operation: "operationProblem lim op (o_operations s) = Inr None \<Longrightarrow>
    change lim s Operation (s\<lparr>o_operations := AList.update (fld op ''operationId'') op (o_operations s)\<rparr>)"
| forget: "map_of (o_operations s) oid = Some op \<Longrightarrow> completed op \<Longrightarrow>
    change lim s Forget (s\<lparr>o_operations := AList.delete oid (o_operations s)\<rparr>)"
| drafts: "o_operations t = o_operations s \<Longrightarrow> digests t = digests s \<Longrightarrow> o_cursor t = o_cursor s \<Longrightarrow>
    o_confidence t = o_confidence s \<Longrightarrow> o_buffer t = o_buffer s \<Longrightarrow>
    draftCount t \<le> max (draftCount s) (maximumDrafts lim) \<Longrightarrow> change lim s Drafts t"
| advance: "o_cursor s = Some c \<Longrightarrow> sameStream c c' \<Longrightarrow> client_counter (fld c ''sequence'') = Inr n \<Longrightarrow>
    client_counter (fld c' ''sequence'') = Inr (n + 1) \<Longrightarrow> o_confidence s \<noteq> Stale \<Longrightarrow>
    change lim s Advance (s\<lparr>o_cursor := Some c', digests := remember_digest lim key digest (digests s)\<rparr>)"
| anchor: "\<forall>c m n. o_cursor s = Some c \<longrightarrow> sameStream c c' \<longrightarrow> client_counter (fld c ''sequence'') = Inr m \<longrightarrow>
      client_counter (fld c' ''sequence'') = Inr n \<longrightarrow> m \<le> n \<Longrightarrow>
    v \<noteq> Stale \<Longrightarrow>
    change lim s Anchor (s\<lparr>o_cursor := Some c', o_snapshot := sn, o_confidence := v, o_reason := r, digests := [], o_buffer := [],
      buffering := False\<rparr>)"

definition does :: "limits \<Rightarrow> label set \<Rightarrow> store \<Rightarrow> store \<Rightarrow> bool" where
  "does lim A s t \<longleftrightarrow> (\<exists>ls. set ls \<subseteq> A \<and> run (change lim) s ls t)"

lemma store_does_refl [simp]: "does lim A s s"
  unfolding does_def by (rule exI [of _ "[]"]) simp

lemma store_does_trans: "does lim A s t \<Longrightarrow> does lim A t u \<Longrightarrow> does lim A s u"
  unfolding does_def using run_append [of "change lim"] by (metis Un_least set_append)

lemma does_change: "change lim s l t \<Longrightarrow> l \<in> A \<Longrightarrow> does lim A s t"
  unfolding does_def by (rule exI [of _ "[l]"]) simp

lemma does_more: "does lim A s t \<Longrightarrow> A \<subseteq> B \<Longrightarrow> does lim B s t"
  unfolding does_def by blast

lemma does_quiet_after:
  assumes "does lim A s t" "change lim t Quiet u" "Quiet \<in> A" shows "does lim A s u"
  using store_does_trans [OF assms(1) does_change [OF assms(2,3)]] .

section \<open>One lemma per method\<close>

lemma publish_quiet: "change lim s Quiet (publish s)"
  by (rule quiet) (simp_all add: publish_def)

lemma invalidate_quiet: "change lim s Quiet (fst (invalidate reason s))"
  by (rule quiet) (simp_all add: invalidate_def publish_def)

lemma does_publish: "does lim A s t \<Longrightarrow> Quiet \<in> A \<Longrightarrow> does lim A s (publish t)"
  using does_quiet_after publish_quiet by blast

lemma does_invalidate: "does lim A s t \<Longrightarrow> Quiet \<in> A \<Longrightarrow> does lim A s (fst (invalidate reason t))"
  using does_quiet_after invalidate_quiet by blast

lemma does_caught:
  assumes "\<And>x. m = Inr x \<Longrightarrow> does lim A s (fst (k x))" "Quiet \<in> A"
  shows "does lim A s (fst (caught reason m s k))"
  using assms by (cases m) (auto simp: caught_def intro: does_invalidate)

named_theorems does_intros "how the result of a method is reached"

lemma does_refuse [simp, does_intros]: "Quiet \<in> A \<Longrightarrow> does lim A s (fst (invalidate reason s))"
  by (rule does_invalidate) simp_all

lemma does_done [does_intros]: "does lim A s t \<Longrightarrow> Quiet \<in> A \<Longrightarrow> does lim A s (fst (publish t, b))"
  by (simp add: does_publish)

lemma does_if [does_intros]:
  "(c \<Longrightarrow> does lim A s (fst a)) \<Longrightarrow> (\<not> c \<Longrightarrow> does lim A s (fst b)) \<Longrightarrow> does lim A s (fst (if c then a else b))"
  by simp

lemma does_option [does_intros]:
  "(x = None \<Longrightarrow> does lim A s (fst a)) \<Longrightarrow> (\<And>y. x = Some y \<Longrightarrow> does lim A s (fst (f y))) \<Longrightarrow>
    does lim A s (fst (case x of None \<Rightarrow> a | Some y \<Rightarrow> f y))"
  by (cases x) simp_all

lemma does_res [does_intros]:
  "(\<And>e. x = Inl e \<Longrightarrow> does lim A s (fst (g e))) \<Longrightarrow> (\<And>y. x = Inr y \<Longrightarrow> does lim A s (fst (f y))) \<Longrightarrow>
    does lim A s (fst (case x of Inl e \<Rightarrow> g e | Inr y \<Rightarrow> f y))"
  by (cases x) simp_all

declare does_caught [does_intros]

lemma quiet_buffer: "length b \<le> max (length (o_buffer s)) (maximumBufferedEvents lim) \<Longrightarrow>
    change lim s Quiet (s\<lparr>buffering := x, bufferFailed := y, o_buffer := b\<rparr>)"
  by (rule quiet) simp_all

lemma observeHello_does: "does lim {Quiet} s (observeHello e s)"
  by (auto simp: observeHello_def intro: does_invalidate split: option.split)

lemma beginSnapshot_does: "does lim {Quiet} s (beginSnapshot s)"
  unfolding beginSnapshot_def by (rule does_change [OF quiet_buffer]) simp_all

lemma quiet_drop: "change lim s Quiet (s\<lparr>buffering := False, o_buffer := []\<rparr>)"
  by (rule quiet) simp_all

lemma abandonSnapshot_does: "does lim {Quiet} s (abandonSnapshot s)"
  unfolding abandonSnapshot_def by (rule does_invalidate [OF does_change [OF quiet_drop]]) simp_all

lemma refuseSnapshot_does: "does lim A s t \<Longrightarrow> Quiet \<in> A \<Longrightarrow> does lim A s (fst (refuseSnapshot reason t))"
  unfolding refuseSnapshot_def using does_invalidate does_quiet_after [OF _ quiet_drop] by blast

lemma forgetCompletedOperation_does: "does lim {Quiet, Forget} s (fst (forgetCompletedOperation oid s))"
  by (auto simp: forgetCompletedOperation_def intro!: does_publish intro: does_change [OF forget] split: option.split)

lemma store_observeOperation_does: "does lim {Quiet, Operation} s (fst (store_observeOperation lim v s))"
  unfolding store_observeOperation_def
  by (rule does_caught does_invalidate)+ (auto split: option.split intro!: does_publish does_caught does_invalidate intro: does_change [OF operation])

lemma observeOperationResult_does: "does lim {Quiet, Operation} s (fst (observeOperationResult lim oid v s))"
  by (auto simp: observeOperationResult_def Let_def intro: store_observeOperation_does does_invalidate)

lemma observeClose_does: "does lim {Quiet} s (fst (observeClose d s))"
  unfolding observeClose_def by (rule does_caught) (auto intro: does_invalidate)

section \<open>The methods that keep drafts\<close>

definition draftKeys :: "store \<Rightarrow> ustr set" where
  "draftKeys s = fst ` set (o_drafts s) \<union> fst ` set (discardedDrafts s) \<union> fst ` set (draftWatermarks s)"

lemma keys_delete: "fst ` set (AList.delete k m) = fst ` set m - {k}"
  by (auto simp: AList.delete_eq image_iff)

lemma map_of_keys: "map_of m k \<noteq> None \<longleftrightarrow> k \<in> fst ` set m"
  by (simp add: map_of_eq_None_iff)

lemma drafts_change:
  assumes "o_operations t = o_operations s" "digests t = digests s" "o_cursor t = o_cursor s" "o_confidence t = o_confidence s"
    "o_buffer t = o_buffer s" "draftKeys t \<subseteq> insert key (draftKeys s)" "key \<in> draftKeys s \<or> draftCount s < maximumDrafts lim"
  shows "change lim s Drafts t"
proof (rule drafts [OF assms(1-5)])
  have f: "finite (draftKeys s)" by (simp add: draftKeys_def)
  have n: "draftCount u = card (draftKeys u)" for u by (simp add: draftCount_def draftKeys_def)
  have "card (draftKeys t) \<le> card (insert key (draftKeys s))" using assms(6) f by (intro card_mono) auto
  then show "draftCount t \<le> max (draftCount s) (maximumDrafts lim)"
    using assms(7) f unfolding n by (auto simp: insert_absorb card_insert_if split: if_splits)
qed

text \<open>Strictly equal values have the same key: the two zeros differ, but one of them never fits the wire.\<close>

lemma draftKey_fits: "draftKey a b = Inr key \<Longrightarrow> wire_fits (JArr [a, b]) \<and> key = encodeData True (JArr [a, b])"
  by (auto simp: draftKey_def canonicalData_def res_simps)

lemma strict_eq_wire: "strict_eq a b \<Longrightarrow> wire_value 1 a \<Longrightarrow> wire_value 1 b \<Longrightarrow> a = b"
  by (cases a; cases b) auto

lemma draftKey_strict_eq: "strict_eq a' a \<Longrightarrow> strict_eq b' b \<Longrightarrow> draftKey a b = Inr key \<Longrightarrow> draftKey a' b' = Inr key' \<Longrightarrow> key' = key"
  using draftKey_fits [of a b key] draftKey_fits [of a' b' key'] strict_eq_wire [of a' a] strict_eq_wire [of b' b]
  by (auto simp: wire_fits_def)

lemma draftProblem_key:
  "draftProblem lim d m b s = Inr p \<Longrightarrow> \<exists>key. draftKey (path d [''draft'', ''hostEpoch'']) (path d [''draft'', ''draftId'']) = Inr key"
  by (auto simp: draftProblem_def res_simps)

lemma draftProblem_room:
  assumes "draftProblem lim d (o_drafts s) b s = Inr None"
    and "draftKey (path d [''draft'', ''hostEpoch'']) (path d [''draft'', ''draftId'']) = Inr key"
  shows "key \<in> draftKeys s \<or> draftCount s < maximumDrafts lim"
proof (rule ccontr)
  assume "\<not> ?thesis"
  then have "map_of (o_drafts s) key = None" "map_of (discardedDrafts s) key = None" "map_of (draftWatermarks s) key = None"
    "draftCount s \<ge> maximumDrafts lim"
    by (auto simp: draftKeys_def map_of_eq_None_iff)
  with assms show False by (auto simp: draftProblem_def res_simps)
qed

lemma observeDraft_does: "does lim {Quiet, Drafts} s (fst (observeDraft lim d s))"
proof -
  have "does lim {Quiet, Drafts} s (s\<lparr>discardedDrafts := AList.delete key (discardedDrafts s), o_drafts := AList.update key d (o_drafts s)\<rparr>)"
    if "draftProblem lim d (o_drafts s) False s = Inr None" "draftKey (path d [''draft'', ''hostEpoch'']) (path d [''draft'', ''draftId'']) = Inr key" for d key
    by (rule does_change [OF drafts_change [where key = key]])
      (use draftProblem_room [OF that] in \<open>auto simp: draftKeys_def keys_update keys_delete\<close>)
  then show ?thesis
    unfolding observeDraft_def by (intro does_intros) simp_all
qed

lemma observeDiscard_does: "does lim {Quiet, Drafts} s (fst (observeDiscard r s))"
proof -
  have "does lim {Quiet, Drafts} s (s\<lparr>o_drafts := AList.delete key (o_drafts s), discardedDrafts := AList.update key d (discardedDrafts s)\<rparr>)"
    if "map_of (o_drafts s) key = Some d" for d key
    by (rule does_change [OF drafts_change [where key = key]])
      (use that map_of_keys [of "o_drafts s" key] in \<open>auto simp: draftKeys_def keys_update keys_delete\<close>)
  then show ?thesis
    unfolding observeDiscard_def by (intro does_intros) simp_all
qed

lemma forgetDiscardedDraft_does:
  assumes "forgetDiscardedDraft e d s = Inr (t, b)" shows "does lim {Drafts} s t"
proof -
  obtain key w where t: "t = s\<lparr>discardedDrafts := AList.delete key (discardedDrafts s),
      draftWatermarks := (if w then AList.delete key (draftWatermarks s) else draftWatermarks s)\<rparr>"
    using assms by (auto simp: forgetDiscardedDraft_def Let_def res_simps)
  have "draftKeys t \<subseteq> draftKeys s" unfolding t by (auto simp: draftKeys_def keys_delete)
  moreover have "finite (draftKeys s)" by (simp add: draftKeys_def)
  ultimately have "draftCount t \<le> draftCount s"
    unfolding draftCount_def draftKeys_def [symmetric] by (rule card_mono [rotated])
  then show ?thesis by (intro does_change [OF drafts]) (simp_all add: t)
qed

lemma observeDraftResult_does: "does lim {Quiet, Drafts} s (fst (observeDraftResult lim i r e s))"
proof -
  have seen: "does lim {Quiet, Drafts} s (s\<lparr>o_drafts := AList.update key d (o_drafts s), draftWatermarks := AList.update key w (draftWatermarks s)\<rparr>)"
    if "draftProblem lim d (o_drafts s) True s = Inr None" "draftKey (fld i ''hostEpoch'') (fld i ''draftId'') = Inr key"
      "strict_eq (path d [''draft'', ''hostEpoch'']) (fld i ''hostEpoch'')" "strict_eq (path d [''draft'', ''draftId'']) (fld i ''draftId'')" for d key w i
  proof -
    from draftProblem_key [OF that(1)]
    obtain key' where k: "draftKey (path d [''draft'', ''hostEpoch'']) (path d [''draft'', ''draftId'']) = Inr key'" ..
    with that(2-4) have "key' = key" by (metis draftKey_strict_eq)
    from draftProblem_room [OF that(1) k, unfolded this] show ?thesis
      by (intro does_change [OF drafts_change [where key = key]]) (auto simp: draftKeys_def keys_update keys_delete)
  qed
  have missing: "does lim {Quiet, Drafts} s (s\<lparr>discardedDrafts := (case map_of (o_drafts s) key of Some d \<Rightarrow> AList.update key d (discardedDrafts s) | None \<Rightarrow> discardedDrafts s),
       o_drafts := AList.delete key (o_drafts s), draftWatermarks := AList.update key w (draftWatermarks s)\<rparr>)"
    if "\<not> (map_of (o_drafts s) key = None \<and> map_of (discardedDrafts s) key = None \<and> map_of (draftWatermarks s) key = None
       \<and> draftCount s \<ge> maximumDrafts lim)" for key w
  proof -
    have "key \<in> draftKeys s \<or> draftCount s < maximumDrafts lim" using that by (auto simp: draftKeys_def map_of_eq_None_iff)
    then show ?thesis
      by (intro does_change [OF drafts_change [where key = key]]) (auto simp: draftKeys_def keys_update keys_delete split: option.split)
  qed
  show ?thesis
    unfolding observeDraftResult_def Let_def
    by (intro does_intros) (simp_all add: seen missing)
qed

section \<open>Events, batches and snapshots\<close>

lemma option_refusal: "(case p of None \<Rightarrow> Inr x | Some r \<Rightarrow> Inl r) = Inr t \<longleftrightarrow> p = None \<and> t = x"
  by (cases p) auto

lemma eventBody_cases:
  assumes "eventBody lim event n s = Inr (Inr t)"
  obtains "t = s"
    | op where "operationProblem lim op (o_operations s) = Inr None"
      "t = s\<lparr>o_operations := AList.update (fld op ''operationId'') op (o_operations s)\<rparr>"
    | d key w where "draftKey (path d [''draft'', ''hostEpoch'']) (path d [''draft'', ''draftId'']) = Inr key"
      "draftProblem lim d (o_drafts s) True s = Inr None"
      "t = s\<lparr>o_drafts := AList.update key d (o_drafts s), draftWatermarks := AList.update key w (draftWatermarks s)\<rparr>"
proof -
  let ?body = "fld event ''body''"
  consider (op) "isS (fld ?body ''type'') ''operation_changed''"
    | (draft) "\<not> isS (fld ?body ''type'') ''operation_changed''" "isS (fld ?body ''type'') ''draft_changed''"
    | (other) "\<not> isS (fld ?body ''type'') ''operation_changed''" "\<not> isS (fld ?body ''type'') ''draft_changed''" by blast
  then show thesis
  proof cases
    case op
    then obtain problem where "operationProblem lim (fld ?body ''operation'') (o_operations s) = Inr problem"
      "problem = None \<and> t = s\<lparr>o_operations := AList.update (path ?body [''operation'', ''operationId'']) (fld ?body ''operation'') (o_operations s)\<rparr>"
      using assms by (auto simp: eventBody_def Let_def bindE_Inr option_refusal)
    then show thesis using that(2) by simp
  next
    case draft
    let ?d = "fld ?body ''draft''"
    from assms draft obtain key fenced where k: "draftKey (path ?d [''draft'', ''hostEpoch'']) (path ?d [''draft'', ''draftId'']) = Inr key"
      and f: "(if fenced then Inr (Inr s) else bindE (draftProblem lim ?d (o_drafts s) True s) (\<lambda>problem.
         Inr (case problem of Some reason \<Rightarrow> Inl reason
            | None \<Rightarrow> Inr (s\<lparr>o_drafts := AList.update key ?d (o_drafts s),
                draftWatermarks := AList.update key (fld event ''cursor'', False) (draftWatermarks s)\<rparr>)))) = Inr (Inr t)"
      unfolding eventBody_def Let_def by (simp only: if_False if_True bindE_Inr) blast
    show thesis
    proof (cases fenced)
      case True
      then show thesis using f that(1) by simp
    next
      case False
      then show thesis using f k that(3) by (auto simp: bindE_Inr option_refusal)
    qed
  next
    case other
    then have "t = s" using assms by (auto simp: eventBody_def Let_def bindE_Inr split: if_splits)
    then show thesis using that(1) by simp
  qed
qed

lemma eventBody_does:
  assumes "eventBody lim event n s = Inr (Inr t)"
  shows "does lim {Operation, Drafts} s t \<and> o_cursor t = o_cursor s \<and> o_confidence t = o_confidence s \<and> digests t = digests s"
  using assms
proof (cases rule: eventBody_cases)
  case (2 op)
  then show ?thesis using does_change [OF operation [OF 2(1)], of "{Operation, Drafts}"] by simp
next
  case (3 d key w)
  have "does lim {Operation, Drafts} s t"
    unfolding 3(3) by (rule does_change [OF drafts_change [where key = key]])
      (use draftProblem_room [OF 3(2,1)] in \<open>auto simp: draftKeys_def keys_update\<close>)
  then show ?thesis using 3(3) by simp
qed simp

abbreviation event_labels :: "label set" where
  "event_labels \<equiv> {Quiet, Operation, Drafts, Advance}"

text \<open>What an event that is taken does: its body, then the cursor.\<close>

lemma event_taken:
  assumes "o_cursor s = Some c" "sameStream c cursor" "client_counter (fld c ''sequence'') = Inr n"
    "client_counter (fld cursor ''sequence'') = Inr (n + 1)" "o_confidence s \<noteq> Stale" "eventBody lim event m s = Inr (Inr t)"
  shows "does lim event_labels s (t\<lparr>o_cursor := Some cursor, digests := remember_digest lim key digest (digests t)\<rparr>)"
proof -
  have b: "does lim {Operation, Drafts} s t" "o_cursor t = o_cursor s" "o_confidence t = o_confidence s"
    using eventBody_does [OF assms(6)] by simp_all
  have "change lim t Advance (t\<lparr>o_cursor := Some cursor, digests := remember_digest lim key digest (digests t)\<rparr>)"
    using assms b by (intro advance [where c = c and n = n]) simp_all
  then show ?thesis using store_does_trans [OF does_more [OF b(1), of event_labels] does_change] by simp
qed

lemma acceptEvent_does: "does lim event_labels s (fst (acceptEvent lim v s))"
proof -
  have room: "does lim event_labels s (s\<lparr>o_buffer := o_buffer s @ [e]\<rparr>)" if "\<not> length (o_buffer s) \<ge> maximumBufferedEvents lim" for e
    by (rule does_change [OF quiet]) (use that in auto)
  have full: "does lim event_labels s (s\<lparr>o_buffer := [], bufferFailed := True\<rparr>)"
    by (rule does_change [OF quiet]) auto
  show ?thesis
    unfolding acceptEvent_def Let_def
    by (intro does_intros) (simp_all add: does_invalidate [OF full] room does_invalidate [OF event_taken] event_taken)
qed

abbreviation all_labels :: "label set" where
  "all_labels \<equiv> {Quiet, Operation, Drafts, Advance, Anchor}"

lemma replayBuffered_does: "does lim event_labels s (fst (replayBuffered lim c es s))"
proof (induction es arbitrary: s)
  case Nil
  then show ?case by (simp add: does_publish)
next
  case (Cons e es)
  have e: "does lim event_labels s (fst (acceptEvent lim e s))" by (rule acceptEvent_does)
  have "does lim event_labels s (fst (case acceptEvent lim e s of (s', True) \<Rightarrow> replayBuffered lim c es s' | (s', False) \<Rightarrow> (s', False)))"
    using e store_does_trans [OF e Cons.IH] by (auto split: prod.split bool.split)
  then show ?case
    using Cons.IH by (auto simp: Let_def refuseSnapshot_does split: sum.split bool.split)
qed

lemma snapshotItems_does:
  assumes "untilE (snapshotItem lim) (o_operations s, []) ops = Inr (Inr (new, included))"
  shows "does lim {Operation} s (s\<lparr>o_operations := new\<rparr>)"
proof -
  have "does lim {Operation} s (s\<lparr>o_operations := fst (new, included)\<rparr>)"
  proof (rule untilE_invariant [OF assms, where P = "\<lambda>p. does lim {Operation} s (s\<lparr>o_operations := fst p\<rparr>)"])
    fix p op q
    assume P: "does lim {Operation} s (s\<lparr>o_operations := fst p\<rparr>)" and q: "snapshotItem lim p op = Inr (Inr q)"
    then have n: "operationProblem lim op (fst p) = Inr None" "fst q = AList.update (fld op ''operationId'') op (fst p)"
      by (auto simp: snapshotItem_def Let_def case_prod_beta bindE_Inr option_refusal split: if_splits)
    have "change lim (s\<lparr>o_operations := fst p\<rparr>) Operation (s\<lparr>o_operations := fst p\<rparr>
        \<lparr>o_operations := AList.update (fld op ''operationId'') op (o_operations (s\<lparr>o_operations := fst p\<rparr>))\<rparr>)"
      by (rule operation) (simp add: n)
    then have "does lim {Operation} (s\<lparr>o_operations := fst p\<rparr>) (s\<lparr>o_operations := fst q\<rparr>)"
      using does_change by (simp add: n)
    then show "does lim {Operation} s (s\<lparr>o_operations := fst q\<rparr>)" using P store_does_trans by blast
  qed simp
  then show ?thesis by simp
qed

lemma acceptSnapshot_does: "does lim all_labels s (fst (acceptSnapshot lim v s))"
proof -
  have refused: "does lim all_labels s (fst (refuseSnapshot r s))" for r by (rule refuseSnapshot_does) simp_all
  have anchored: "does lim all_labels s (fst (replayBuffered lim c' es (s\<lparr>o_operations := new, o_cursor := Some c', o_snapshot := sn,
       o_confidence := cf, o_reason := r, digests := [], o_buffer := [], buffering := False\<rparr>)))"
    if new: "untilE (snapshotItem lim) (o_operations s, []) ops = Inr (Inr (new, included))"
      and n: "client_counter (fld c' ''sequence'') = Inr n"
      and fwd: "(case o_cursor s of None \<Rightarrow> Inr False
            | Some c \<Rightarrow> andE (Inr (sameStream c c')) (bindE (client_counter (fld c ''sequence'')) (\<lambda>m. Inr (n < m)))) = Inr False"
      and cf: "cf \<noteq> Stale" for ops new included c' n es sn cf r
  proof -
    let ?t = "s\<lparr>o_operations := new\<rparr>"
    have "change lim ?t Anchor (?t\<lparr>o_cursor := Some c', o_snapshot := sn, o_confidence := cf, o_reason := r, digests := [], o_buffer := [], buffering := False\<rparr>)"
      by (rule anchor) (use fwd n cf in \<open>auto simp: andE_False bindE_Inr\<close>)
    from does_change [OF this, of all_labels] have "does lim all_labels s (s\<lparr>o_operations := new, o_cursor := Some c', o_snapshot := sn,
       o_confidence := cf, o_reason := r, digests := [], o_buffer := [], buffering := False\<rparr>)"
      using store_does_trans [OF does_more [OF snapshotItems_does [OF new], of all_labels]] by simp
    then show ?thesis using store_does_trans [OF _ does_more [OF replayBuffered_does, of all_labels]] by simp
  qed
  show ?thesis
    unfolding acceptSnapshot_def Let_def
    by (intro does_intros) (auto simp: refused anchored split: bool.split sum.split)
qed

lemma resumeEvents_does: "does lim event_labels s (fst (resumeEvents lim es s))"
proof (induction es arbitrary: s)
  case (Cons e es)
  have e: "does lim event_labels s (fst (acceptEvent lim e s))" by (rule acceptEvent_does)
  have "does lim event_labels s (fst (case acceptEvent lim e s of (s', True) \<Rightarrow> resumeEvents lim es s' | (s', False) \<Rightarrow> (s', False)))"
    using e store_does_trans [OF e Cons.IH] by (auto split: prod.split bool.split)
  then show ?case by (auto split: sum.split bool.split)
qed simp

lemma acceptBatch_does: "does lim event_labels s (fst (acceptBatch lim b a m s))"
proof -
  obtain t ok where r: "resumeEvents lim (arr_items (fld b ''events'')) s = (t, ok)" by fastforce
  have "does lim event_labels s t" using resumeEvents_does [of lim s "arr_items (fld b ''events'')"] r by simp
  then show ?thesis
    unfolding acceptBatch_def Let_def r
    by (auto simp: does_invalidate split: sum.split bool.split)
qed

text \<open>What a call can do: only \<open>acceptSnapshot\<close> anchors, only forgetting forgets.\<close>

fun call_labels :: "store_call \<Rightarrow> label set" where
  "call_labels (AcceptSnapshot _) = all_labels"
| "call_labels (AcceptEvent _) = event_labels"
| "call_labels (AcceptBatch _ _ _) = event_labels"
| "call_labels (ForgetCompletedOperation _) = {Quiet, Forget}"
| "call_labels _ = {Quiet, Operation, Drafts}"

lemma store_step_does: "does lim (call_labels c) s (store_step lim c s)"
proof (cases c)
  case (ForgetDiscardedDraft e d)
  then show ?thesis
    by (auto split: sum.split intro: does_more [OF forgetDiscardedDraft_does])
qed (simp_all add: acceptSnapshot_does acceptEvent_does acceptBatch_does forgetCompletedOperation_does
    does_more [OF observeHello_does] does_more [OF beginSnapshot_does] does_more [OF abandonSnapshot_does]
    does_more [OF store_observeOperation_does] does_more [OF observeOperationResult_does] does_more [OF observeClose_does]
    does_more [OF observeDraftResult_does] does_more [OF observeDraft_does] does_more [OF observeDiscard_does])

end
