(* ===== verification/Plan_Identity.thy ===== *)
theory Plan_Identity imports Client_Relations begin

text \<open>
  The identity of a plan for review (\<open>semanticPlanKey\<close>): what it depends on and what it leaves
  out.
\<close>

text \<open>The canonical form of a value: null members dropped, members sorted.\<close>

definition canon :: "jv \<Rightarrow> jv" where
  "canon v = listed True (omitNone v)"

definition arrange :: "(ustr \<times> jv) list \<Rightarrow> jv" where
  "arrange kvs = JObj (listed_entries True (filter (\<lambda>x. snd x \<noteq> JNull) kvs))"

lemma listed_entries_map: "listed_entries b (map (\<lambda>x. (fst x, g (snd x))) kvs) = map (\<lambda>x. (fst x, g (snd x))) (listed_entries b kvs)"
  using sort_key_map [where f = "\<lambda>x. x :: ustr" and g = g] by (simp add: listed_entries_def own_entries_map)

lemma canon_null [simp]: "canon v = JNull \<longleftrightarrow> v = JNull"
  by (cases v) (auto simp: canon_def)

lemma canon_JObj: "canon (JObj kvs) = arrange (map (\<lambda>x. (fst x, canon (snd x))) kvs)"
proof -
  have "filter (\<lambda>x. snd x \<noteq> JNull) (map (\<lambda>x. (fst x, canon (snd x))) kvs)
      = map (\<lambda>x. (fst x, canon (snd x))) (filter (\<lambda>x. snd x \<noteq> JNull) kvs)"
    by (simp add: filter_map comp_def)
  then show ?thesis
    unfolding canon_def arrange_def omitNone_JObj
    by (simp add: listed_entries_map comp_def case_prod_beta' del: omitNone.simps flip: canon_def)
qed

lemma canon_JArr: "canon (JArr vs) = JArr (map canon vs)"
  by (simp add: canon_def)

lemma map_update_canon: "map (\<lambda>x. (fst x, canon (snd x))) (AList.update j w kvs) = AList.update j (canon w) (map (\<lambda>x. (fst x, canon (snd x))) kvs)"
  for j :: ustr
  by (induction kvs) auto

text \<open>The canonical text is a function of the canonical form.\<close>

lemma canonicalData_canon: "canonicalData (omitNone v) = (if wire_fits (canon v) then Inr (json_text (canon v)) else boundary_error ''invalid_capture'')"
proof -
  have "wire_value 0 (omitNone v) \<longleftrightarrow> wire_value 0 (canon v)"
    by (metis canon_def wire_value_listed wire_value_of_listed)
  then have "wire_fits (omitNone v) \<longleftrightarrow> wire_fits (canon v)"
    by (simp add: wire_fits_iff canon_def wire_size_listed)
  then show ?thesis by (simp add: canonicalData_def capture_def encodeData_listed canon_def)
qed

text \<open>Two values with the same text, in their own member order, have the same canonical form.\<close>

lemma filter_swap: "filter P (filter Q xs) = filter Q (filter P xs)"
  by (induction xs) auto

lemma listed_entries_filter: "filter P (listed_entries b kvs) = listed_entries b (filter P kvs)"
  by (simp add: listed_entries_def own_entries_def filter_sort filter_swap [of P] del: filter_filter)

lemma listed_omitNone: "listed True (omitNone v) = omitNone (listed True v)"
proof (induction v)
  case (JObj kvs)
  let ?P = "\<lambda>x. snd x \<noteq> JNull" and ?l = "\<lambda>x. (fst x, listed True (snd x))" and ?o = "\<lambda>x. (fst x, omitNone (snd x))"
  have n: "listed True w = JNull \<longleftrightarrow> w = JNull" for w by (cases w) auto
  have "listed True (omitNone (JObj kvs)) = JObj (map ?l (map ?o (listed_entries True (filter ?P kvs))))"
    by (simp add: omitNone_JObj listed_entries_map case_prod_beta' del: omitNone.simps map_map)
  also have "map ?l (map ?o (listed_entries True (filter ?P kvs))) = map ?o (map ?l (listed_entries True (filter ?P kvs)))"
    using JObj.IH by (auto simp: snds.simps)
  also have "map ?l (listed_entries True (filter ?P kvs)) = filter ?P (map ?l (listed_entries True kvs))"
    by (simp add: listed_entries_filter filter_map comp_def n)
  finally show ?case by (simp add: omitNone_JObj case_prod_beta' del: omitNone.simps)
qed simp_all

lemma same_text_canon:
  assumes "encodeData False v = encodeData False w" "wire_value d v" "wire_value d w"
  shows "canon v = canon w"
proof -
  have l: "listed True x = listed True (listed False x)" if "wire_value d x" for x
    using listed_eq_iff [OF that wire_value_listed [OF that, of False]] data_eq_listed [of x False] by simp
  have "listed False v = listed False w" using assms wire_value_plain by (simp add: encodeData_eq_iff)
  then show ?thesis using l assms(2,3) by (simp add: canon_def listed_omitNone)
qed

text \<open>Sorting by a text that decides the canonical form forgets the order.\<close>

lemma sorted_canon:
  assumes "mset es' = mset es" and "\<forall>x \<in> set es. wire_value d x"
  shows "map canon (sort_key (encodeData False) es') = map canon (sort_key (encodeData False) es)"
proof -
  let ?f = "encodeData False"
  have s: "set es' = set es" using assms(1) by (metis set_mset_mset)
  define g where "g t = canon (SOME x. x \<in> set es \<and> ?f x = t)" for t
  have g: "canon x = g (?f x)" if x: "x \<in> set es" for x
  proof -
    have "(SOME y. y \<in> set es \<and> ?f y = ?f x) \<in> set es \<and> ?f (SOME y. y \<in> set es \<and> ?f y = ?f x) = ?f x"
      by (rule someI [of _ x]) (use x in simp)
    then show ?thesis unfolding g_def using same_text_canon [of x] assms(2) x by (metis (no_types, lifting))
  qed
  have m: "map ?f (sort_key ?f xs) = sort (map ?f xs)" for xs
    by (rule properties_for_sort [symmetric]) simp_all
  have c: "map canon (sort_key ?f xs) = map g (sort (map ?f xs))" if "set xs \<subseteq> set es" for xs
  proof -
    have "map canon (sort_key ?f xs) = map g (map ?f (sort_key ?f xs))" using g that by auto
    then show ?thesis unfolding m .
  qed
  have "sort (map ?f es') = sort (map ?f es)"
    using assms(1) by (intro properties_for_sort) simp_all
  then show ?thesis using c [of es'] c [of es] s by simp
qed

lemma update_again: "AList.update k v (AList.update k w m) = AList.update k v m"
  by (induction m) auto

lemma update_commutes: "k \<noteq> l \<Longrightarrow> k \<in> fst ` set m \<Longrightarrow> AList.update k v (AList.update l w m) = AList.update l w (AList.update k v m)"
  by (induction m) auto

text \<open>
  The review identity of a plan does not depend on the order of its effects, nor on what
  capture normalisation leaves out (a defaulted runtime choice, the time a backup was made).
\<close>

theorem plan_key_ignores:
  assumes "wire_fits p" "own p ''capture''" "own p ''effects''"
    and "mset es = mset (arr_items (fld p ''effects''))" and "is_array (fld p ''effects'')"
    and "normalizedCapture c = normalizedCapture (fld p ''capture'')"
    and "q = obj_put (obj_put p ''capture'' c) ''effects'' (JArr es)" and "wire_fits q"
  shows "semanticPlanKey q = semanticPlanKey p"
proof -
  obtain kvs where p: "p = JObj kvs" using assms(2) by (cases p) auto
  let ?sort = "\<lambda>xs. JArr (sort_key (encodeData False) xs)"
  let ?ps = "arr_items (fld p ''effects'')" and ?nc = "normalizedCapture (fld p ''capture'')"
  have ne: "U ''capture'' \<noteq> U ''effects''" by simp
  have fields: "fld q ''capture'' = c" "fld q ''effects'' = JArr es" by (simp_all add: assms(7))
  have ents: "obj_entries (obj_put (obj_put q ''capture'' ?nc) ''effects'' w) = obj_entries (obj_put (obj_put p ''capture'' ?nc) ''effects'' w)" for w
    using assms(2,3) ne unfolding assms(7) p
    by (simp add: obj_put_def update_again update_commutes [of "U ''capture''" "U ''effects''"] keys_update)
  have "wire_fits (JArr ?ps)"
    using fld_fits [OF assms(1), of "''effects''"] assms(5) p by (cases "fld p ''effects''") auto
  then have d: "\<forall>x \<in> set ?ps. wire_value 1 x" by (simp add: wire_fits_def)
  have "canon (obj_put (obj_put q ''capture'' ?nc) ''effects'' (?sort es)) = canon (obj_put (obj_put p ''capture'' ?nc) ''effects'' (?sort ?ps))"
    using sorted_canon [OF assms(4) d] ents [of "?sort es"]
    unfolding obj_put_def [of _ "''effects''"] by (simp add: canon_JObj canon_JArr map_update_canon update_again obj_put_def)
  then show ?thesis
    using assms(1,6,8) by (simp add: semanticPlanKey_def capture_def fields canonicalData_canon Let_def)
qed

definition example_plan :: "jv list \<Rightarrow> (ustr \<times> jv) list \<Rightarrow> jv" where
  "example_plan effects choice = JObj [(U ''action'', S ''launch_ordinary''),
     (U ''capture'', JObj ((U ''kind'', S ''launch_ordinary'') # choice)), (U ''effects'', JArr effects)]"

theorem plan_key_ignores_witness:
  "semanticPlanKey (example_plan [S ''b'', S ''a''] [(U ''unrecognizedRuntimeChoice'', S ''reject'')]) = semanticPlanKey (example_plan [S ''a'', S ''b''] [])"
proof (rule plan_key_ignores [where es = "[S ''b'', S ''a'']" and c = "JObj [(U ''kind'', S ''launch_ordinary''), (U ''unrecognizedRuntimeChoice'', S ''reject'')]"])
  show "wire_fits (example_plan [S ''a'', S ''b''] [])"
    "wire_fits (example_plan [S ''b'', S ''a''] [(U ''unrecognizedRuntimeChoice'', S ''reject'')])"
    by (rule small_fits; simp add: example_plan_def small_eval)+
qed (simp_all add: example_plan_def normalizedCapture_def obj_put_def obj_del_def)

text \<open>
  bindingEquivalent is total on captured data: it answers whether the two values are the same
  data once null members are dropped, whatever the order of members; anything that does not fit
  the wire is refused as an invalid capture.
\<close>

theorem bindings_decided:
  "bindingEquivalent a b =
    (if wire_fits a \<and> wire_fits b then Inr (data_eq (omitNone a) (omitNone b)) else Inl (ClientBoundaryError ''invalid_capture''))"
  by (simp add: bindingEquivalent_eq same_binding_def)

end
