(* ===== verification/Observation_Claims.thy ===== *)
theory Observation_Claims imports Observation_Changes Plan_Identity begin

text \<open>
  The properties of the observation store: its bounds, what it never forgets or takes back, when
  it is stale, and what an accepted batch or snapshot establishes.
\<close>

section \<open>One operation after another\<close>

text \<open>The later observation \<open>b\<close> of an operation against the earlier \<open>a\<close>.\<close>

definition operation_le :: "jv \<Rightarrow> jv \<Rightarrow> bool" where
  "operation_le a b \<longleftrightarrow> semanticPlanKey (fld a ''semantics'') = semanticPlanKey (fld b ''semantics'')
     \<and> big (fld a ''operationRevision'') \<le> big (fld b ''operationRevision'')
     \<and> (completed a \<longrightarrow> completed b \<and> canon (fld a ''state'') = canon (fld b ''state''))
     \<and> (big (fld a ''operationRevision'') = big (fld b ''operationRevision'') \<longrightarrow> canon (fld a ''state'') = canon (fld b ''state''))"

lemma operation_le_refl [simp]: "operation_le a a"
  by (simp add: operation_le_def)

lemma operation_le_trans: "operation_le a b \<Longrightarrow> operation_le b c \<Longrightarrow> operation_le a c"
  unfolding operation_le_def by force

lemma same_binding_canon: "wire_value d a \<Longrightarrow> wire_value d b \<Longrightarrow> same_binding a b \<Longrightarrow> canon a = canon b"
  using listed_eq_iff [OF omitNone_wire omitNone_wire, of d a b] by (simp add: same_binding_def canon_def)

lemma bindingEquivalent_canon: "bindingEquivalent a b = Inr True \<Longrightarrow> canon a = canon b"
  using same_binding_canon [of 0 a b] by (simp add: bindingEquivalent_True wire_fits_def)

lemma bindingEquivalent_isS: "bindingEquivalent a b = Inr True \<Longrightarrow> isS (fld a k) s \<longleftrightarrow> isS (fld b k) s"
  using bindingEquivalent_agrees [of a b "[k]"] by (auto simp: agrees_def isS_def)

lemma operationProblem_None:
  assumes "operationProblem lim op m = Inr None"
  shows "map_of m (fld op ''operationId'') = None \<and> length m < maximumOperations lim
    \<or> (\<exists>prior. map_of m (fld op ''operationId'') = Some prior \<and> operation_le prior op)"
proof (cases "map_of m (fld op ''operationId'')")
  case None
  then show ?thesis using assms by (auto simp: operationProblem_def bindE_Inr split: if_splits)
next
  case (Some prior)
  let ?s = "fld prior ''state''" and ?t = "fld op ''state''"
  from assms Some obtain a r p where f: "semanticPlanKey (fld prior ''semantics'') = Inr a" "semanticPlanKey (fld op ''semantics'') = Inr a"
    "client_counter (fld op ''operationRevision'') = Inr r" "client_counter (fld prior ''operationRevision'') = Inr p" "\<not> r < p"
    "andE (Inr (completed prior)) (negE (bindingEquivalent ?s ?t)) = Inr False"
    "andE (Inr (r = p)) (negE (bindingEquivalent ?s ?t)) = Inr False"
    by (auto simp: operationProblem_def bindE_Inr simp del: fld.simps split: if_splits)
  have n: "r = big (fld op ''operationRevision'')" "p = big (fld prior ''operationRevision'')"
    using client_counter_Inr f(3,4) by blast+
  have same: "bindingEquivalent ?s ?t = Inr True" if "completed prior \<or> r = p"
    using that f(6,7) by (auto simp: andE_False negE_Inr)
  have "operation_le prior op"
    using f(1,2,5) n bindingEquivalent_canon [OF same] bindingEquivalent_isS [OF same]
    by (auto simp: operation_le_def)
  with Some show ?thesis by blast
qed

section \<open>The invariant and the order of the store\<close>

definition store_ok :: "limits \<Rightarrow> store \<Rightarrow> bool" where
  "store_ok lim s \<longleftrightarrow> length (o_operations s) \<le> maximumOperations lim \<and> draftCount s \<le> maximumDrafts lim
     \<and> length (digests s) \<le> maximumRecentEvents lim \<and> length (o_buffer s) \<le> maximumBufferedEvents lim
     \<and> distinct (map fst (o_operations s)) \<and> (\<forall>x \<in> set (o_operations s). fld (snd x) ''operationId'' = fst x)"

definition operations_le :: "store \<Rightarrow> store \<Rightarrow> bool" where
  "operations_le s t \<longleftrightarrow> (\<forall>oid a. map_of (o_operations s) oid = Some a \<longrightarrow> (\<exists>b. map_of (o_operations t) oid = Some b \<and> operation_le a b))"

lemma remember_digest_length: "length ds \<le> maximumRecentEvents lim \<Longrightarrow> length (remember_digest lim k d ds) \<le> maximumRecentEvents lim"
proof -
  assume l: "length ds \<le> maximumRecentEvents lim"
  let ?ds = "AList.update k d ds"
  have ne: "?ds \<noteq> []" by (cases ds) auto
  have "length (AList.delete (fst (hd ?ds)) ?ds) < length ?ds"
    unfolding AList.delete_eq using ne by (intro length_filter_less [of "hd ?ds"]) (auto simp: case_prod_beta)
  then show ?thesis using l length_update [of k d ds] by (auto simp: remember_digest_def Let_def split: if_splits)
qed

lemma change_ok: "change lim s l t \<Longrightarrow> store_ok lim s \<Longrightarrow> store_ok lim t"
proof (induction rule: change.induct)
  case (quiet t s)
  then show ?case by (auto simp: store_ok_def draftCount_def)
next
  case (operation op s)
  have k: "fld op ''operationId'' \<in> fst ` set (o_operations s) \<or> length (o_operations s) < maximumOperations lim"
    using operationProblem_None [OF operation.hyps] by (auto simp: map_of_eq_None_iff dest: map_of_SomeD) (force dest: map_of_SomeD)
  have e: "x \<in> set (AList.update j v m) \<Longrightarrow> x = (j, v) \<or> x \<in> set m" for x j and v :: jv and m :: "(jv \<times> jv) list"
    by (induction m) (auto split: if_splits)
  show ?case using operation.prems k
    by (auto simp: store_ok_def draftCount_def length_update dest!: e)
next
  case (forget s oid op)
  then show ?case
    by (auto simp: store_ok_def draftCount_def AList.delete_eq distinct_map_filter intro: le_trans [OF length_filter_le])
next
  case (advance s c c' n key digest)
  then show ?case using remember_digest_length by (auto simp: store_ok_def draftCount_def)
qed (auto simp: store_ok_def draftCount_def)

lemma change_operations_le: "change lim s l t \<Longrightarrow> l \<noteq> Forget \<Longrightarrow> operations_le s t"
proof (induction rule: change.induct)
  case (operation op s)
  show ?case using operationProblem_None [OF operation.hyps] by (auto simp: operations_le_def)
qed (auto simp: operations_le_def)

lemma operations_le_refl: "operations_le s s"
  by (simp add: operations_le_def)

lemma operations_le_trans: "operations_le s t \<Longrightarrow> operations_le t u \<Longrightarrow> operations_le s u"
proof -
  assume st: "operations_le s t" and tu: "operations_le t u"
  have "\<exists>c. map_of (o_operations u) oid = Some c \<and> operation_le a c" if a: "map_of (o_operations s) oid = Some a" for oid a
  proof -
    obtain b where b: "map_of (o_operations t) oid = Some b" "operation_le a b" using st a unfolding operations_le_def by blast
    obtain c where "map_of (o_operations u) oid = Some c" "operation_le b c" using tu b(1) unfolding operations_le_def by blast
    then show ?thesis using operation_le_trans [OF b(2)] by blast
  qed
  then show ?thesis by (simp add: operations_le_def)
qed

interpretation kept: monotone_machine "\<lambda>s l t. change lim s l t \<and> l \<noteq> Forget" "store_ok lim" operations_le for lim
  by unfold_locales (blast intro: change_ok change_operations_le operations_le_trans operations_le_refl)+

text \<open>A view that is stale stays where it is; one that is not moves forward on its stream.\<close>

definition cursor_le :: "store \<Rightarrow> store \<Rightarrow> bool" where
  "cursor_le s t \<longleftrightarrow> (o_confidence s = Stale \<longrightarrow> o_confidence t = Stale \<and> o_cursor t = o_cursor s)
     \<and> (o_cursor t = o_cursor s \<or> (\<exists>c c' m n. o_cursor s = Some c \<and> o_cursor t = Some c' \<and> sameStream c c'
         \<and> client_counter (fld c ''sequence'') = Inr m \<and> client_counter (fld c' ''sequence'') = Inr n \<and> m < n))"

lemma change_cursor_le: "change lim s l t \<Longrightarrow> l \<noteq> Anchor \<Longrightarrow> cursor_le s t"
proof (induction rule: change.induct)
  case (advance s c c' n key digest)
  then show ?case by (auto simp: cursor_le_def)
qed (auto simp: cursor_le_def)

lemma strict_eq_trans: "strict_eq a b \<Longrightarrow> strict_eq b c \<Longrightarrow> strict_eq a c"
  by (cases a; cases b; cases c) auto

lemma strict_eq_refl_right: "strict_eq a b \<Longrightarrow> strict_eq b b"
  by (cases a; cases b) auto

lemma strict_eq_refl_left: "strict_eq a b \<Longrightarrow> strict_eq a a"
  by (cases a; cases b) auto

lemma sameStream_trans: "sameStream a b \<Longrightarrow> sameStream b c \<Longrightarrow> sameStream a c"
  by (auto simp: sameStream_def intro: strict_eq_trans)

definition on_stream :: "jv option \<Rightarrow> jv option \<Rightarrow> bool" where
  "on_stream a b \<longleftrightarrow> b = a \<or> (\<exists>c c' m n. a = Some c \<and> b = Some c' \<and> sameStream c c'
     \<and> client_counter (fld c ''sequence'') = Inr m \<and> client_counter (fld c' ''sequence'') = Inr n \<and> m < n)"

lemma on_stream_trans:
  assumes "on_stream a b" "on_stream b c" shows "on_stream a c"
proof (cases "b = a \<or> c = b")
  case False
  from assms(1) False obtain x y m n where x: "a = Some x" "b = Some y" "sameStream x y"
    "client_counter (fld x ''sequence'') = Inr m" "client_counter (fld y ''sequence'') = Inr n" "m < n"
    unfolding on_stream_def by blast
  from assms(2) False obtain y' z n' p where z: "b = Some y'" "c = Some z" "sameStream y' z"
    "client_counter (fld y' ''sequence'') = Inr n'" "client_counter (fld z ''sequence'') = Inr p" "n' < p"
    unfolding on_stream_def by blast
  have "sameStream x z" "m < p" using x z sameStream_trans [of x y z] by auto
  with x(1,4) z(2,5) show ?thesis unfolding on_stream_def by blast
qed (use assms in auto)

lemma cursor_le_refl: "cursor_le s s"
  by (simp add: cursor_le_def)

lemma cursor_le_trans: "cursor_le s t \<Longrightarrow> cursor_le t u \<Longrightarrow> cursor_le s u"
  using on_stream_trans [of "o_cursor s" "o_cursor t" "o_cursor u"]
  unfolding cursor_le_def on_stream_def [symmetric] by auto

interpretation forward: monotone_machine "\<lambda>s l t. change lim s l t \<and> l \<noteq> Anchor" "\<lambda>_. True" cursor_le for lim
  by unfold_locales (blast intro: change_cursor_le cursor_le_trans cursor_le_refl)+

section \<open>Sequences of calls\<close>

abbreviation after_calls :: "limits \<Rightarrow> store_call list \<Rightarrow> store \<Rightarrow> store" where
  "after_calls lim calls s \<equiv> fold (store_step lim) calls s"

lemma calls_does:
  "(\<Union>c \<in> set calls. call_labels c) \<subseteq> A \<Longrightarrow> does lim A s (after_calls lim calls s)"
proof (induction calls arbitrary: s)
  case (Cons c calls)
  then have "does lim A s (store_step lim c s)" using does_more [OF store_step_does] by simp
  then show ?case using Cons store_does_trans by simp
qed simp

lemma run_restrict: "run R s ls t \<Longrightarrow> set ls \<subseteq> A \<Longrightarrow> (\<And>s l t. R s l t \<Longrightarrow> l \<in> A \<Longrightarrow> Q s l t) \<Longrightarrow> run Q s ls t"
proof (induction ls arbitrary: s)
  case (Cons a as)
  then obtain u where u: "R s a u" "run R u as t" by auto
  have "Q s a u" using Cons.prems u(1) by simp
  moreover have "run Q u as t" using Cons.IH [OF u(2)] Cons.prems by simp
  ultimately show ?case by auto
qed simp

lemma change_run_ok: "run (change lim) s ls t \<Longrightarrow> store_ok lim s \<Longrightarrow> store_ok lim t"
  by (induction ls arbitrary: s) (auto intro: change_ok)

lemma call_labels_all: "call_labels c \<subseteq> insert Forget all_labels"
  by (cases c) auto

lemma calls_ok: "store_ok lim s \<Longrightarrow> store_ok lim (after_calls lim calls s)"
proof -
  have "does lim (insert Forget all_labels) s (after_calls lim calls s)"
    by (rule calls_does) (use call_labels_all in blast)
  then show "store_ok lim s \<Longrightarrow> ?thesis" using change_run_ok by (auto simp: does_def)
qed

lemma empty_ok: "store_ok lim empty_store"
  by (simp add: store_ok_def empty_store_def draftCount_def)

lemma calls_operations_le:
  assumes "\<forall>oid. ForgetCompletedOperation oid \<notin> set calls" and "store_ok lim s"
  shows "operations_le s (after_calls lim calls s)"
proof -
  have "call_labels c \<subseteq> all_labels" if "c \<in> set calls" for c
    by (cases c; use that assms(1) in auto)
  then have "does lim all_labels s (after_calls lim calls s)" by (intro calls_does) blast
  then obtain ls where "set ls \<subseteq> all_labels" "run (change lim) s ls (after_calls lim calls s)" by (auto simp: does_def)
  then have "run (\<lambda>s l t. change lim s l t \<and> l \<noteq> Forget) s ls (after_calls lim calls s)"
    by (elim run_restrict) auto
  then show ?thesis using kept.run_le assms(2) by blast
qed

lemma calls_cursor_le:
  assumes "\<forall>v. AcceptSnapshot v \<notin> set calls" shows "cursor_le s (after_calls lim calls s)"
proof -
  have "call_labels c \<subseteq> insert Forget event_labels" if "c \<in> set calls" for c
    by (cases c; use that assms in auto)
  then have "does lim (insert Forget event_labels) s (after_calls lim calls s)" by (intro calls_does) blast
  then obtain ls where "set ls \<subseteq> insert Forget event_labels" "run (change lim) s ls (after_calls lim calls s)" by (auto simp: does_def)
  then have "run (\<lambda>s l t. change lim s l t \<and> l \<noteq> Anchor) s ls (after_calls lim calls s)"
    by (elim run_restrict) auto
  then show ?thesis using forward.run_le by blast
qed

section \<open>What an accepted event, batch or snapshot did\<close>

lemma option_res_case: "(case x of None \<Rightarrow> f | Some y \<Rightarrow> g y) = r \<longleftrightarrow> (x = None \<and> f = r) \<or> (\<exists>y. x = Some y \<and> g y = r)"
  by (cases x) auto

lemma sum_case_eq: "(case x of Inl e \<Rightarrow> f e | Inr y \<Rightarrow> g y) = r \<longleftrightarrow> (\<exists>e. x = Inl e \<and> f e = r) \<or> (\<exists>y. x = Inr y \<and> g y = r)"
  by (cases x) auto

lemma caught_True: "caught reason m s k = (t, True) \<longleftrightarrow> (\<exists>x. m = Inr x \<and> k x = (t, True))"
  by (cases m) (auto simp: caught_def invalidate_def)

lemma invalidate_True [simp]: "invalidate r s \<noteq> (t, True)"
  by (simp add: invalidate_def)

lemma eventBody_buffering: "eventBody lim e n s = Inr (Inr t) \<Longrightarrow> buffering t = buffering s"
  by (cases rule: eventBody_cases) auto

lemma acceptEvent_True:
  assumes "acceptEvent lim e s = (t, True)" "\<not> buffering s"
  shows "o_cursor t = Some (fld e ''cursor'') \<and> \<not> buffering t \<and> o_confidence t = o_confidence s"
proof -
  obtain n st1 key digest where b: "eventBody lim e n s = Inr (Inr st1)"
    "t = publish (st1\<lparr>o_cursor := Some (fld e ''cursor''), digests := remember_digest lim key digest (digests st1)\<rparr>)"
    using assms by (auto simp: acceptEvent_def Let_def caught_True capture_Inr option_res_case sum_case_eq split: if_splits)
  then show ?thesis using assms(2) eventBody_buffering [OF b(1)] eventBody_does [OF b(1)] by (simp add: publish_def)
qed

lemma resumeEvents_True:
  "resumeEvents lim es s = (t, True) \<Longrightarrow> \<not> buffering s \<Longrightarrow> o_cursor s = Some c \<Longrightarrow> client_counter (fld c ''sequence'') = Inr n \<Longrightarrow>
    \<exists>c'. o_cursor t = Some c' \<and> sameStream c c' \<and> client_counter (fld c' ''sequence'') = Inr (n + int (length es)) \<and> \<not> buffering t"
  if "sameStream c c" for c
  using that
proof (induction es arbitrary: s c n)
  case (Cons e es)
  let ?c = "fld e ''cursor''"
  from Cons.prems obtain u where u: "acceptEvent lim e s = (u, True)" "resumeEvents lim es u = (t, True)"
    and m: "sameStream c ?c" "client_counter (fld ?c ''sequence'') = Inr (n + 1)"
    by (auto simp: andE_True bindE_Inr split: sum.splits bool.splits prod.splits)
  from acceptEvent_True [OF u(1) Cons.prems(2)] have v: "o_cursor u = Some ?c" "\<not> buffering u" by simp_all
  have "sameStream ?c ?c" using m(1) by (auto simp: sameStream_def) (metis strict_eq_refl_right)+
  from Cons.IH [OF u(2) v(2,1) m(2) this] show ?case using sameStream_trans [OF m(1)] by (auto simp: algebra_simps)
qed simp

lemma bool_case_eq: "(case b of True \<Rightarrow> x | False \<Rightarrow> y) = (if b then x else y)"
  by (cases b) simp_all

lemma refuse_True [simp]: "refuseSnapshot reason s \<noteq> (t, True)"
  by (simp add: refuseSnapshot_def)

lemma acceptSnapshot_True:
  assumes "acceptSnapshot lim v s = (t, True)"
  shows "\<exists>new included. wire_fits v
    \<and> untilE (snapshotItem lim) (o_operations s, []) (arr_items (path v [''operations'', ''items''])) = Inr (Inr (new, included))
    \<and> (isS (path v [''operations'', ''completeness'']) ''complete'' \<longleftrightarrow> arr_items (path v [''operations'', ''issues'']) = [])
    \<and> (isS (path v [''operations'', ''completeness'']) ''complete'' \<longrightarrow> (\<forall>known \<in> snd ` set (o_operations s). completed known \<or> fld known ''operationId'' \<in> set included))
    \<and> replayBuffered lim (fld v ''cursor'') (o_buffer s)
          (s\<lparr>o_operations := new, o_cursor := Some (fld v ''cursor''), o_snapshot := Some v,
             o_confidence := (if partialInventory v then Partial else Authoritative),
             o_reason := (if partialInventory v then Some ''partial_inventory'' else None),
             digests := [], o_buffer := [], buffering := False\<rparr>) = (t, True)"
proof -
  obtain x where x: "wire_fits v"
    "(if isS (path v [''operations'', ''completeness'']) ''complete'' \<noteq> (arr_items (path v [''operations'', ''issues'']) = [])
      then refuseSnapshot ''malformed_event'' s
      else if isS (path v [''operations'', ''completeness'']) ''complete'' \<and> (\<exists>known \<in> snd ` set (o_operations s). \<not> completed known \<and> fld known ''operationId'' \<notin> set (snd x))
      then refuseSnapshot ''pending_operation_omitted'' s
      else replayBuffered lim (fld v ''cursor'') (o_buffer s)
          (s\<lparr>o_operations := fst x, o_cursor := Some (fld v ''cursor''), o_snapshot := Some v,
             o_confidence := (if partialInventory v then Partial else Authoritative),
             o_reason := (if partialInventory v then Some ''partial_inventory'' else None),
             digests := [], o_buffer := [], buffering := False\<rparr>)) = (t, True)"
    "untilE (snapshotItem lim) (o_operations s, []) (arr_items (path v [''operations'', ''items''])) = Inr (Inr x)"
    using assms
    by (simp only: acceptSnapshot_def Let_def sum_case_eq bool_case_eq case_prod_unfold capture_Inr refuse_True if_distrib
        [of "\<lambda>p. p = (t, True)"] simp_thms cong: if_cong) (auto split: if_splits)
  show ?thesis using x by (intro exI [of _ "fst x"] exI [of _ "snd x"]) (simp split: if_splits; blast)
qed

lemma replayBuffered_True:
  "replayBuffered lim c es s = (t, True) \<Longrightarrow> \<not> buffering s \<Longrightarrow>
    o_confidence t = Authoritative \<and> o_confidence s = Authoritative"
proof (induction es arbitrary: s)
  case Nil
  then show ?case by (auto simp: publish_def)
next
  case (Cons e es)
  show ?case
  proof (cases "replayBuffered lim c es s = (t, True)")
    case True
    then show ?thesis using Cons by simp
  next
    case False
    with Cons.prems obtain u where "acceptEvent lim e s = (u, True)" "replayBuffered lim c es u = (t, True)"
      by (auto simp: Let_def sum_case_eq bool_case_eq case_prod_unfold split: if_splits) (metis prod.collapse)
    then show ?thesis using Cons acceptEvent_True [of lim e s u] by auto
  qed
qed

section \<open>Concrete stores\<close>

definition example_limits :: limits where
  "example_limits = \<lparr>maximumRecentEvents = 2, maximumBufferedEvents = 2, maximumOperations = 2, maximumDrafts = 1\<rparr>"

definition example_cursor :: "string \<Rightarrow> jv" where
  "example_cursor n = JObj [(U ''hostEpoch'', S ''h''), (U ''streamId'', S ''s''), (U ''sequence'', S n)]"

definition running_operation :: "string \<Rightarrow> jv" where
  "running_operation revision = JObj [(U ''operationId'', S ''o''), (U ''operationRevision'', S revision),
     (U ''semantics'', JObj [(U ''capture'', JObj [(U ''kind'', S ''focus_session'')]), (U ''effects'', JArr [])]),
     (U ''state'', JObj [(U ''status'', S ''running'')])]"

definition example_event :: "string \<Rightarrow> jv" where
  "example_event n = JObj [(U ''cursor'', example_cursor n), (U ''body'', JObj [(U ''type'', S ''host_ready'')])]"

definition example_reading :: jv where
  "example_reading = JObj [(U ''cursor'', example_cursor ''1''),
     (U ''operations'', JObj [(U ''items'', JArr []), (U ''issues'', JArr []), (U ''completeness'', S ''complete'')])]"

lemmas example_store_defs = example_limits_def example_cursor_def running_operation_def example_event_def example_reading_def

lemma counter_digit: "client_counter (S ''1'') = Inr 1" "client_counter (S ''2'') = Inr 2"
  by (simp_all add: client_counter_def big_def str_of_def counter_syntax_def digit_def digits_value_def U_def U64_MAX_def)

lemma example_store_fits: "wire_fits (running_operation ''1'')" "wire_fits (example_event ''2'')" "wire_fits example_reading"
  "wire_fits (example_cursor ''1'')" "wire_fits (example_cursor ''2'')" "wire_fits (JArr [S ''h'', S ''s'', S ''2''])"
  by (rule small_fits; simp add: example_store_defs small_eval)+

lemma example_observed:
  "o_operations (after_calls example_limits [ObserveOperation (running_operation ''1'')] empty_store) = [(S ''o'', running_operation ''1'')]"
proof -
  have "operationProblem example_limits (running_operation ''1'') [] = Inr None"
    by (simp add: operationProblem_def operationRecoveryMatches_def running_operation_def example_limits_def counter_digit)
  moreover have "fld (running_operation ''1'') ''operationId'' = S ''o''" by (simp add: running_operation_def)
  ultimately show ?thesis
    by (simp add: store_observeOperation_def caught_def capture_def example_store_fits empty_store_def publish_def)
qed

definition anchored_store :: store where
  "anchored_store = empty_store\<lparr>o_cursor := Some (example_cursor ''1''), o_confidence := Authoritative\<rparr>"

lemma example_accepted:
  "acceptEvent example_limits (example_event ''2'') anchored_store =
    (publish (anchored_store\<lparr>o_cursor := Some (example_cursor ''2''),
       digests := [(encodeData True (JArr [S ''h'', S ''s'', S ''2'']), encodeData True (example_event ''2''))]\<rparr>), True)"
proof -
  have f: "fld (example_event ''2'') ''cursor'' = example_cursor ''2''" "fld (example_event ''2'') ''body'' = JObj [(U ''type'', S ''host_ready'')]"
    by (simp_all add: example_event_def)
  have c: "fld (example_cursor n) ''hostEpoch'' = S ''h''" "fld (example_cursor n) ''streamId'' = S ''s''" "fld (example_cursor n) ''sequence'' = S n" for n
    by (simp_all add: example_cursor_def)
  show ?thesis
    by (simp add: acceptEvent_def caught_def capture_def example_store_fits f c counter_digit anchored_store_def empty_store_def sameStream_def
        cursorKey_def canonicalData_fits eventBody_def Let_def remember_digest_def example_limits_def)
qed

section \<open>The properties\<close>

text \<open>
  C16: Whatever sequence of calls the store receives, it holds at most the configured number of
  operations, drafts (with their discard and read markers), event digests and buffered events,
  and one entry per operation, under its own id.
\<close>

theorem store_stays_bounded:
  "let s = fold (store_step lim) calls empty_store in
    length (o_operations s) \<le> maximumOperations lim \<and> draftCount s \<le> maximumDrafts lim
    \<and> length (digests s) \<le> maximumRecentEvents lim \<and> length (o_buffer s) \<le> maximumBufferedEvents lim
    \<and> distinct (map fst (o_operations s)) \<and> list_all (\<lambda>x. fld (snd x) ''operationId'' = fst x) (o_operations s)"
  using calls_ok [OF empty_ok, of lim calls] by (simp add: store_ok_def Let_def list_all_iff)

text \<open>
  C17: Unless a completed operation is explicitly forgotten, the store never loses an operation it
  has observed nor takes back what it knows: the semantics keep their identity, the revision never
  goes down, a revision names one state, and a completed state is final.
\<close>

theorem operations_never_taken_back:
  assumes "\<forall>oid. ForgetCompletedOperation oid \<notin> set later"
    and "map_of (o_operations (fold (store_step lim) earlier empty_store)) oid = Some a"
  shows "\<exists>b. map_of (o_operations (fold (store_step lim) later (fold (store_step lim) earlier empty_store))) oid = Some b
    \<and> semanticPlanKey (fld a ''semantics'') = semanticPlanKey (fld b ''semantics'')
    \<and> big (fld a ''operationRevision'') \<le> big (fld b ''operationRevision'')
    \<and> (completed a \<longrightarrow> completed b \<and> canon (fld a ''state'') = canon (fld b ''state''))
    \<and> (big (fld a ''operationRevision'') = big (fld b ''operationRevision'') \<longrightarrow> canon (fld a ''state'') = canon (fld b ''state''))"
  using calls_operations_le [OF assms(1) calls_ok [OF empty_ok], of lim earlier] assms(2)
  unfolding operations_le_def operation_le_def by blast

theorem operations_never_taken_back_witness:
  "\<exists>b. map_of (o_operations (fold (store_step example_limits) [ObserveHello (S ''h''), Invalidate ''disconnected'']
      (fold (store_step example_limits) [ObserveOperation (running_operation ''1'')] empty_store))) (S ''o'') = Some b
    \<and> big (fld (running_operation ''1'') ''operationRevision'') \<le> big (fld b ''operationRevision'')"
  using operations_never_taken_back [of "[ObserveHello (S ''h''), Invalidate ''disconnected'']" example_limits
      "[ObserveOperation (running_operation ''1'')]" "S ''o''" "running_operation ''1''"] example_observed
  by auto

text \<open>
  C18: Between snapshots the cursor stays on its stream and only moves forward, and a store that
  went stale stays stale on the same cursor, asking for a snapshot, whatever else is called.
\<close>

theorem stale_until_snapshot:
  assumes "\<forall>v. AcceptSnapshot v \<notin> set calls"
  shows "let t = fold (store_step lim) calls s in
    (o_cursor t = o_cursor s \<or> (\<exists>c c' m n. o_cursor s = Some c \<and> o_cursor t = Some c' \<and> sameStream c c'
       \<and> client_counter (fld c ''sequence'') = Inr m \<and> client_counter (fld c' ''sequence'') = Inr n \<and> m < n))
    \<and> (o_confidence s = Stale \<longrightarrow> o_confidence t = Stale \<and> o_cursor t = o_cursor s \<and> v_resnapshotRequired (store_view t))"
  using calls_cursor_le [OF assms, of s lim] by (auto simp: cursor_le_def Let_def store_view_def)

theorem stale_until_snapshot_witness:
  "o_cursor (fold (store_step example_limits) [AcceptEvent (example_event ''2'')] (fst (invalidate ''sequence_gap'' anchored_store)))
     = Some (example_cursor ''1'')"
  using stale_until_snapshot [of "[AcceptEvent (example_event ''2'')]" example_limits "fst (invalidate ''sequence_gap'' anchored_store)"]
  by (auto simp: invalidate_def publish_def anchored_store_def Let_def)

text \<open>
  An accepted batch of resumed events moves the cursor by exactly the number of its events, at
  most the number asked for, on the stream the request named, from the cursor it named to the
  cursor the batch ends with.
\<close>

theorem batch_moves_the_cursor:
  assumes "acceptBatch lim batch requestedAfter maximumEvents s = (t, True)" and "\<not> buffering s"
  shows "\<exists>c c' n k. o_cursor s = Some c \<and> o_cursor t = Some c'
    \<and> canonicalData (fld batch ''after'') = canonicalData c \<and> canonicalData (fld batch ''next'') = canonicalData c'
    \<and> canonicalData c = canonicalData requestedAfter
    \<and> client_counter maximumEvents = Inr k \<and> int (length (arr_items (fld batch ''events''))) \<le> k
    \<and> (arr_items (fld batch ''events'') = [] \<and> c' = c
       \<or> sameStream c c' \<and> client_counter (fld c ''sequence'') = Inr n
         \<and> client_counter (fld c' ''sequence'') = Inr (n + int (length (arr_items (fld batch ''events'')))))"
proof -
  let ?es = "arr_items (fld batch ''events'')"
  obtain c k where c: "o_cursor s = Some c" "canonicalData (fld batch ''after'') = canonicalData requestedAfter"
    "canonicalData c = canonicalData requestedAfter" "client_counter maximumEvents = Inr k" "int (length ?es) \<le> k"
    and r: "resumeEvents lim ?es s = (t, True)"
    and n: "\<exists>c'. o_cursor t = Some c' \<and> canonicalData (fld batch ''next'') = canonicalData c'"
    using assms(1) unfolding acceptBatch_def Let_def
    by (auto simp: andE_True bindE_Inr split: sum.splits bool.splits prod.splits option.splits)
  show ?thesis
  proof (cases ?es)
    case Nil
    then show ?thesis using c n r by auto
  next
    case (Cons e es)
    then obtain m where m: "sameStream c (fld e ''cursor'')" "client_counter (fld c ''sequence'') = Inr m"
      using r c(1) by (auto simp: andE_True bindE_Inr split: sum.splits bool.splits)
    have "sameStream c c" using m(1) by (auto simp: sameStream_def) (metis strict_eq_refl_left)+
    from resumeEvents_True [OF this r assms(2) c(1) m(2)] show ?thesis using c n m(2) by auto
  qed
qed

theorem batch_moves_the_cursor_witness:
  "\<exists>c'. o_cursor (fst (acceptBatch example_limits (JObj [(U ''after'', example_cursor ''1''), (U ''next'', example_cursor ''2''),
      (U ''events'', JArr [example_event ''2''])]) (example_cursor ''1'') (S ''1'') anchored_store)) = Some c'
    \<and> client_counter (fld c' ''sequence'') = Inr 2"
proof -
  let ?b = "JObj [(U ''after'', example_cursor ''1''), (U ''next'', example_cursor ''2''), (U ''events'', JArr [example_event ''2''])]"
  have c: "o_cursor anchored_store = Some (example_cursor ''1'')" "\<not> buffering anchored_store"
    by (simp_all add: anchored_store_def empty_store_def)
  have e: "fld (example_event ''2'') ''cursor'' = example_cursor ''2''" "fld (example_cursor n) ''sequence'' = S n"
    "sameStream (example_cursor x) (example_cursor y)" for n x y
    by (simp_all add: example_event_def example_cursor_def sameStream_def)
  obtain t where t: "acceptBatch example_limits ?b (example_cursor ''1'') (S ''1'') anchored_store = (t, True)"
    unfolding acceptBatch_def Let_def
    by (simp add: c e canonicalData_fits example_store_fits counter_digit example_accepted publish_def)
  from batch_moves_the_cursor [OF t c(2)] c(1) t show ?thesis by (auto simp: e counter_digit)
qed

text \<open>
  C19: A snapshot that the store accepts leaves it authoritative; it was complete, without issues
  and not partial in any inventory, and it listed every operation the store knew to be pending.
\<close>

theorem accepted_snapshot_is_complete:
  assumes "acceptSnapshot lim v s = (t, True)"
    and "one_of (path v [''operations'', ''completeness'']) [''complete'', ''partial'']"
  shows "o_confidence t = Authoritative \<and> \<not> partialInventory v \<and> arr_items (path v [''operations'', ''issues'']) = []
    \<and> (\<forall>known \<in> snd ` set (o_operations s). completed known \<or>
        (\<exists>listed \<in> set (arr_items (path v [''operations'', ''items''])). fld listed ''operationId'' = fld known ''operationId''))"
proof -
  let ?items = "arr_items (path v [''operations'', ''items''])"
  obtain new included where a: "untilE (snapshotItem lim) (o_operations s, []) ?items = Inr (Inr (new, included))"
    "isS (path v [''operations'', ''completeness'']) ''complete'' \<longleftrightarrow> arr_items (path v [''operations'', ''issues'']) = []"
    "isS (path v [''operations'', ''completeness'']) ''complete'' \<longrightarrow> (\<forall>known \<in> snd ` set (o_operations s). completed known \<or> fld known ''operationId'' \<in> set included)"
    "o_confidence t = Authoritative" "\<not> partialInventory v"
    using acceptSnapshot_True [OF assms(1)] replayBuffered_True by (fastforce split: if_splits)
  have "set (snd (new, included)) \<subseteq> (\<lambda>o'. fld o' ''operationId'') ` set ?items"
    by (rule untilE_invariant [OF a(1), where P = "\<lambda>p. set (snd p) \<subseteq> (\<lambda>o'. fld o' ''operationId'') ` set ?items"])
      (auto simp: snapshotItem_def Let_def bindE_Inr option_refusal case_prod_beta split: if_splits)
  moreover have "isS (path v [''operations'', ''completeness'']) ''complete''"
    using assms(2) a(5) by (auto simp: partialInventory_def isS_def)
  ultimately show ?thesis using a(2-5) by (fastforce simp: image_iff)
qed

theorem accepted_snapshot_is_complete_witness:
  "o_confidence (fst (acceptSnapshot example_limits example_reading empty_store)) = Authoritative"
proof -
  have p: "path example_reading [''operations'', ''items''] = JArr []" "path example_reading [''operations'', ''issues''] = JArr []"
    "path example_reading [''operations'', ''completeness''] = S ''complete''" "fld example_reading ''cursor'' = example_cursor ''1''"
    "fld (example_cursor ''1'') ''sequence'' = S ''1''" "\<not> partialInventory example_reading"
    by (simp_all add: example_reading_def example_cursor_def partialInventory_def isS_def)
  have e: "o_operations empty_store = []" "o_cursor empty_store = None" "\<not> bufferFailed empty_store" "o_buffer empty_store = []"
    by (simp_all add: empty_store_def)
  obtain t where t: "acceptSnapshot example_limits example_reading empty_store = (t, True)"
    by (simp add: acceptSnapshot_def Let_def capture_def example_store_fits p e counter_digit publish_def del: path.simps)
  from accepted_snapshot_is_complete [OF t] t p(3) show ?thesis by (simp del: path.simps)
qed

end
