(* ===== verification/Js_State.thy ===== *)
theory Js_State imports Js_Control begin

text \<open>
  Methods of stateful objects that can throw: an action takes the object's fields to its result,
  an error or a value, and the fields as they are then (a thrown error does not undo a write). \<open>wp\<close> reads
  an action backwards: \<open>wp m Q s\<close> says that \<open>m\<close>, run in \<open>s\<close>, ends with a result and a state that
  satisfy \<open>Q\<close>; its rules are simplification rules, one for each form of statement.
\<close>

type_synonym ('s, 'a) act = "'s \<Rightarrow> 'a res \<times> 's"

definition ret :: "'a \<Rightarrow> ('s, 'a) act" where
  "ret x = (\<lambda>s. (Inr x, s))"

text \<open>A read of the fields that can throw, a write, and the two in sequence.\<close>

definition ask :: "('s \<Rightarrow> 'a res) \<Rightarrow> ('s, 'a) act" where
  "ask f = (\<lambda>s. (f s, s))"

definition upd :: "('s \<Rightarrow> 's) \<Rightarrow> ('s, unit) act" where
  "upd f = (\<lambda>s. (Inr (), f s))"

definition seq :: "('s, 'a) act \<Rightarrow> ('a \<Rightarrow> ('s, 'b) act) \<Rightarrow> ('s, 'b) act" where
  "seq m f = (\<lambda>s. case m s of (Inl e, t) \<Rightarrow> (Inl e, t) | (Inr x, t) \<Rightarrow> f x t)"

abbreviation next_act :: "('s, unit) act \<Rightarrow> ('s, 'b) act \<Rightarrow> ('s, 'b) act" where
  "next_act m k \<equiv> seq m (\<lambda>_. k)"

text \<open>\<^verbatim>\<open>if (condition) return early; rest\<close>, with a condition that can throw.\<close>

definition unlessS :: "('s \<Rightarrow> bool res) \<Rightarrow> ('s, 'a) act \<Rightarrow> ('s, 'a) act \<Rightarrow> ('s, 'a) act" where
  "unlessS c early rest = seq (ask c) (\<lambda>b. if b then early else rest)"

text \<open>A statement that is evaluated only for what it may throw.\<close>

definition checkS :: "('s \<Rightarrow> 'b res) \<Rightarrow> ('s, 'a) act \<Rightarrow> ('s, 'a) act" where
  "checkS f rest = seq (ask f) (\<lambda>_. rest)"

definition withS :: "('s \<Rightarrow> ('s, 'a) act) \<Rightarrow> ('s, 'a) act" where
  "withS f = (\<lambda>s. f s s)"

definition catchS :: "('s, 'a) act \<Rightarrow> ('s, 'a) act \<Rightarrow> ('s, 'a) act" where
  "catchS m h = (\<lambda>s. case m s of (Inl e, t) \<Rightarrow> h t | (Inr x, t) \<Rightarrow> (Inr x, t))"

definition finallyS :: "('s, 'a) act \<Rightarrow> ('s, unit) act \<Rightarrow> ('s, 'a) act" where
  "finallyS m f = (\<lambda>s. case m s of (r, t) \<Rightarrow> (case f t of (Inl e, u) \<Rightarrow> (Inl e, u) | (Inr _, u) \<Rightarrow> (r, u)))"

definition wp :: "('s, 'a) act \<Rightarrow> ('a res \<Rightarrow> 's \<Rightarrow> bool) \<Rightarrow> 's \<Rightarrow> bool" where
  "wp m Q s \<longleftrightarrow> (case m s of (r, t) \<Rightarrow> Q r t)"

named_theorems wp_rules "weakest preconditions of the actions of a component"

lemma wp_basic [wp_rules]:
  "wp (ret x) Q s \<longleftrightarrow> Q (Inr x) s"
  "wp (ask f) Q s \<longleftrightarrow> Q (f s) s"
  "wp (withS h) Q' s \<longleftrightarrow> wp (h s) Q' s"
  "wp (if b then m else n) Q' s \<longleftrightarrow> (if b then wp m Q' s else wp n Q' s)"
  by (simp_all add: wp_def ret_def ask_def upd_def withS_def)

lemma wp_upd [wp_rules]: "wp (upd g) Q s \<longleftrightarrow> Q (Inr ()) (g s)"
  by (simp add: wp_def upd_def)

lemma wp_seq [wp_rules]:
  "wp (seq m f) Q s \<longleftrightarrow> wp m (\<lambda>r t. (\<forall>e. r = Inl e \<longrightarrow> Q (Inl e) t) \<and> (\<forall>x. r = Inr x \<longrightarrow> wp (f x) Q t)) s"
  by (cases "m s") (auto simp: wp_def seq_def split: sum.split prod.split)

lemma wp_unless [wp_rules]:
  "wp (unlessS c m n) Q s \<longleftrightarrow> (\<forall>e. c s = Inl e \<longrightarrow> Q (Inl e) s) \<and> (c s = Inr True \<longrightarrow> wp m Q s) \<and> (c s = Inr False \<longrightarrow> wp n Q s)"
  by (auto simp: unlessS_def wp_rules split: if_splits)

lemma wp_check [wp_rules]:
  "wp (checkS f m) Q s \<longleftrightarrow> (\<forall>e. f s = Inl e \<longrightarrow> Q (Inl e) s) \<and> (\<forall>x. f s = Inr x \<longrightarrow> wp m Q s)"
  by (simp add: checkS_def wp_rules)

lemma wp_catch [wp_rules]:
  "wp (catchS m h) Q s \<longleftrightarrow> wp m (\<lambda>r t. (\<forall>e. r = Inl e \<longrightarrow> wp h Q t) \<and> (\<forall>x. r = Inr x \<longrightarrow> Q (Inr x) t)) s"
  by (cases "m s") (auto simp: wp_def catchS_def split: sum.split prod.split)

lemma wp_finally [wp_rules]:
  "wp (finallyS m f) Q s \<longleftrightarrow> wp m (\<lambda>r t. wp f (\<lambda>r' u. (\<forall>e. r' = Inl e \<longrightarrow> Q (Inl e) u) \<and> (r' = Inr () \<longrightarrow> Q r u)) t) s"
  by (cases "m s") (auto simp: wp_def finallyS_def split: sum.split prod.split)

lemma wp_let [wp_rules]: "wp (let x = v in m x) Q s \<longleftrightarrow> (let x = v in wp (m x) Q s)"
  by (simp add: Let_def)

lemma wp_option [wp_rules]:
  "wp (case v of None \<Rightarrow> m | Some x \<Rightarrow> f x) Q s \<longleftrightarrow> (case v of None \<Rightarrow> wp m Q s | Some x \<Rightarrow> wp (f x) Q s)"
  by (simp split: option.split)

lemma wp_prod [wp_rules]: "wp (case v of (x, y) \<Rightarrow> p x y) Q s \<longleftrightarrow> (case v of (x, y) \<Rightarrow> wp (p x y) Q s)"
  by (simp split: prod.split)

lemma wp_mono: "wp m Q s \<Longrightarrow> (\<And>r t. Q r t \<Longrightarrow> Q' r t) \<Longrightarrow> wp m Q' s"
  by (auto simp: wp_def split: prod.splits)

lemma wpD: "wp m Q s \<Longrightarrow> m s = (r, t) \<Longrightarrow> Q r t"
  by (simp add: wp_def)

lemma wpI: "(\<And>r t. m s = (r, t) \<Longrightarrow> Q r t) \<Longrightarrow> wp m Q s"
  by (auto simp: wp_def split: prod.splits)

lemma wp_after: "wp m Q s \<longleftrightarrow> Q (fst (m s)) (snd (m s))"
  by (simp add: wp_def case_prod_unfold)

lemma wp_conj: "wp m (\<lambda>r t. P r t \<and> Q r t) s \<longleftrightarrow> wp m P s \<and> wp m Q s"
  by (simp add: wp_after)

end
