(* ===== verification/Decimal.thy ===== *)
theory Decimal imports Js_Control begin

text \<open>
  The comparison of decimal strings that bounds a numeric input, \<^verbatim>\<open>compareNumeric\<close> of
  \<^verbatim>\<open>ui/src/client/work-context.ts\<close>, on the strings themselves (no rounding to a double), with the
  \<^verbatim>\<open>BigInt\<close> and \<^verbatim>\<open>split\<close> it calls.
\<close>

section \<open>BigInt of a string\<close>

definition js_space :: "nat \<Rightarrow> bool" where
  "js_space c \<longleftrightarrow> c \<in> {9, 10, 11, 12, 13, 32, 160, 0x1680, 0x2028, 0x2029, 0x202F, 0x205F, 0x3000, 0xFEFF} \<or> 0x2000 \<le> c \<and> c \<le> 0x200A"

definition js_trim :: "ustr \<Rightarrow> ustr" where
  "js_trim s = rev (dropWhile js_space (rev (dropWhile js_space s)))"

definition radix_digit :: "nat \<Rightarrow> nat \<Rightarrow> nat option" where
  "radix_digit r c =
     (let v = if 48 \<le> c \<and> c \<le> 57 then c - 48 else if 97 \<le> c \<and> c \<le> 102 then c - 87
              else if 65 \<le> c \<and> c \<le> 70 then c - 55 else 16
      in if v < r then Some v else None)"

fun radix_value :: "nat \<Rightarrow> int \<Rightarrow> ustr \<Rightarrow> int option" where
  "radix_value r n [] = Some n"
| "radix_value r n (c # cs) = (case radix_digit r c of None \<Rightarrow> None | Some v \<Rightarrow> radix_value r (int r * n + int v) cs)"

text \<open>One digit at least, in the given radix; anything else is a \<^verbatim>\<open>SyntaxError\<close>.\<close>

definition digitsE :: "nat \<Rightarrow> ustr \<Rightarrow> int res" where
  "digitsE r s = (case (if s = [] then None else radix_value r 0 s) of None \<Rightarrow> Inl (PlainError ''SyntaxError'') | Some n \<Rightarrow> Inr n)"

definition big_int :: "ustr \<Rightarrow> int res" where
  "big_int s = (case js_trim s of
       [] \<Rightarrow> Inr 0
     | c # cs \<Rightarrow>
        if c = 45 then bindE (digitsE 10 cs) (\<lambda>n. Inr (- n))
        else if c = 43 then digitsE 10 cs
        else if c = 48 \<and> cs \<noteq> [] \<and> hd cs \<in> {120, 88} then digitsE 16 (tl cs)
        else if c = 48 \<and> cs \<noteq> [] \<and> hd cs \<in> {111, 79} then digitsE 8 (tl cs)
        else if c = 48 \<and> cs \<noteq> [] \<and> hd cs \<in> {98, 66} then digitsE 2 (tl cs)
        else digitsE 10 (c # cs))"

section \<open>The comparison\<close>

fun split_on :: "nat \<Rightarrow> ustr \<Rightarrow> ustr list" where
  "split_on c [] = [[]]"
| "split_on c (x # xs) = (if x = c then [] # split_on c xs
     else case split_on c xs of [] \<Rightarrow> [[x]] | p # ps \<Rightarrow> (x # p) # ps)"

definition numeric_parts :: "ustr \<Rightarrow> (int \<times> nat) res" where
  "numeric_parts s =
     (let negative = (s \<noteq> [] \<and> hd s = 45); unsigned = (if negative then tl s else s);
          parts = split_on 46 unsigned; whole = hd parts;
          fraction = (if length parts > 1 then parts ! 1 else []) in
      if length parts > 2 \<or> length whole > 32 \<or> length fraction > 32 then Inl (PlainError ''invalid_numeric_bound'')
      else bindE (big_int ((if negative then [45] else []) @ whole @ fraction)) (\<lambda>n. Inr (n, length fraction)))"

definition compareNumeric :: "ustr \<Rightarrow> ustr \<Rightarrow> int res" where
  "compareNumeric left right =
     bindE (numeric_parts left) (\<lambda>(a, aScale).
     bindE (numeric_parts right) (\<lambda>(b, bScale).
     let scale = max aScale bScale; x = a * 10 ^ (scale - aScale); y = b * 10 ^ (scale - bScale) in
     Inr (if x < y then -1 else if x > y then 1 else 0)))"

end
