(* ===== verification/Client_Outcome.thy ===== *)
theory Client_Outcome imports Js_Prelude begin

text \<open>
  How a call of the browser client ends: the fault codes, the two statements a fault can make about
  delivery, and the three outcomes of \<^verbatim>\<open>ui/src/client/client.ts\<close>.
\<close>

datatype fault_code =
    Framing | Schema | Incompatible_Envelope | Invalid_Capture | Correlation
  | Unavailable_Binding | Disconnected | Delivery_Failed | Timeout | Observational_Abort
  | Disposed | Pending_Limit | Subscription_Limit | Request_Id_Reused | Replay_Limit | Replay_Conflict
  | Replay_Missing | Stale_Stream

datatype delivery = Not_Sent | May_Have_Reached_Backend

datatype request_kind = Query | Command

record metadata =
  m_requestId :: jv
  m_kind :: request_kind
  m_method :: ustr

record fault =
  f_code :: fault_code
  f_delivery :: delivery
  f_request :: "metadata option"

datatype 'v outcome = Returned 'v metadata | Rejected jv metadata | Faulted fault

end
