(* ===== verification/Work_Context.thy ===== *)
theory Work_Context imports Observation Js_State Decimal Client_Outcome begin

text \<open>
  The shared presentation context of the browser client, \<^verbatim>\<open>WorkContext\<close> of
  \<^verbatim>\<open>ui/src/client/work-context.ts\<close>: the selected target, the open draft with its staged edits and
  unsynchronised numeric inputs, and the reviews through which a draft is saved or discarded.

  A method is an action (\<^verbatim>\<open>Js_State\<close>): it can throw, and keeps what it wrote before. Objects that the
  code compares with \<^verbatim>\<open>===\<close> (navigations, reviews, reopening tokens) carry the number they were
  created under, so that equality of records is identity. Arguments are detached data; generations
  count without bound. The context's own publications are recorded; a listener that calls back runs
  as the next call. While the store publishes, the context's own listener runs, then
  the other listeners of the store, the parameter \<open>react\<close>.
\<close>

section \<open>The state\<close>

datatype workspace_view = Home | Astrometrics | Engineering | Settings | Data_Sync | History | Diagnostics | Preferences

definition maximumBuffers :: nat where "maximumBuffers = 64"
definition maximumTextLength :: nat where "maximumTextLength = 128"

record input_binding =
  b_draft :: jv
  b_field :: jv
  b_generation :: nat

record public_buffer =
  p_binding :: input_binding
  p_text :: ustr

text \<open>A target, or the window's close when there is none.\<close>

record navigation =
  nav_id :: nat
  nav_selector :: "jv option"

datatype review_kind = In_Navigation | In_Place

datatype purpose = For_Navigation navigation | At_Place jv jv

record review =
  r_id :: nat
  r_purpose :: purpose
  r_focus :: "ustr option"
  r_draft :: jv
  r_edits :: "jv list"
  r_generation :: nat
  r_inputs :: "public_buffer list"

datatype reopen_reason = After_Save | After_Discard

record reopen =
  t_id :: nat
  t_reason :: reopen_reason
  t_selector :: jv
  t_document :: jv
  t_host :: jv
  t_generation :: nat

record reconciliation =
  k_draft :: jv
  k_edits :: "jv list"
  k_inputs :: "public_buffer list"
  k_generation :: nat
  k_selector :: "jv option"
  k_binding :: "jv option"

record work_state =
  ws_view :: workspace_view
  ws_selector :: "jv option"
  ws_binding :: "jv option"
  ws_draft :: "jv option"
  ws_edits :: "jv list"
  ws_inputs :: "public_buffer list"
  ws_dirty :: bool
  ws_conflict :: bool
  ws_hostChanged :: bool
  ws_navigation :: "navigation option"
  ws_busy :: bool
  ws_closing :: bool
  ws_refresh :: bool
  ws_focus :: "ustr option"

record ctx =
  w_store :: store
  w_view :: workspace_view
  w_selector :: "jv option"
  w_binding :: "jv option"
  w_draft :: "jv option"
  w_edits :: "jv list"
  w_inputs :: "public_buffer list"
  w_navigation :: "navigation option"
  w_busy :: bool
  w_conflict :: bool
  w_closing :: bool
  w_focus :: "ustr option"
  w_generation :: nat
  w_review :: "review option"
  w_reopen :: "reopen option"
  w_reopened :: "review option"
  w_token :: "reopen option"
  w_pastHost :: "jv option"
  w_epochKey :: ustr
  w_fresh :: nat
  w_published :: "work_state list"

type_synonym 'a work = "(ctx, 'a) act"

text \<open>As the data that \<^verbatim>\<open>canonicalData\<close> is called on.\<close>

definition binding_data :: "input_binding \<Rightarrow> jv" where
  "binding_data b = JObj [(U ''draft'', b_draft b), (U ''field'', b_field b), (U ''generation'', JInt (int (b_generation b)))]"

definition buffer_data :: "public_buffer \<Rightarrow> jv" where
  "buffer_data p = JObj [(U ''binding'', binding_data (p_binding p)), (U ''text'', JStr (p_text p))]"

definition buffers_data :: "public_buffer list \<Rightarrow> jv" where
  "buffers_data ps = JArr (map buffer_data ps)"

fun or_null :: "jv option \<Rightarrow> jv" where
  "or_null None = JNull"
| "or_null (Some v) = v"

fun or_undefined :: "jv option \<Rightarrow> jv" where
  "or_undefined None = JUndef"
| "or_undefined (Some v) = v"

text \<open>\<^verbatim>\<open>canonicalData(a) === canonicalData(b)\<close>, which throws when one of them is no data.\<close>

definition same_data :: "jv \<Rightarrow> jv \<Rightarrow> bool res" where
  "same_data a b = bindE (canonicalData a) (\<lambda>x. bindE (canonicalData b) (\<lambda>y. Inr (x = y)))"

abbreviation host_of :: "jv \<Rightarrow> jv" where
  "host_of snapshot \<equiv> path snapshot [''draft'', ''hostEpoch'']"

abbreviation document_of :: "jv \<Rightarrow> jv" where
  "document_of snapshot \<equiv> path snapshot [''draft'', ''document'']"

abbreviation edits_of :: "jv \<Rightarrow> jv list" where
  "edits_of snapshot \<equiv> arr_items (fld snapshot ''edits'')"

section \<open>What the context shows\<close>

definition hostEpochCurrent :: "jv \<Rightarrow> ctx \<Rightarrow> bool" where
  "hostEpochCurrent host c \<longleftrightarrow> o_reason (w_store c) \<noteq> Some ''epoch_changed'' \<and> w_pastHost c \<noteq> Some host
     \<and> (case o_cursor (w_store c) of None \<Rightarrow> True | Some cursor \<Rightarrow> strict_eq (fld cursor ''hostEpoch'') host)"

definition dirty :: "ctx \<Rightarrow> bool res" where
  "dirty c = (if w_inputs c \<noteq> [] then Inr True
     else case w_draft c of None \<Rightarrow> Inr False
       | Some d \<Rightarrow> orE (Inr (\<not> isS (fld d ''state'') ''clean'')) (negE (same_data (JArr (w_edits c)) (fld d ''edits''))))"

definition work_view :: "ctx \<Rightarrow> work_state res" where
  "work_view c =
     (let hostChanged = (case w_draft c of None \<Rightarrow> False | Some d \<Rightarrow> \<not> hostEpochCurrent (host_of d) c) in
      bindE (dirty c) (\<lambda>b. Inr
        \<lparr>ws_view = w_view c, ws_selector = w_selector c, ws_binding = w_binding c, ws_draft = w_draft c, ws_edits = w_edits c,
         ws_inputs = w_inputs c, ws_dirty = b, ws_conflict = (w_conflict c \<or> hostChanged), ws_hostChanged = hostChanged,
         ws_navigation = w_navigation c, ws_busy = w_busy c, ws_closing = w_closing c, ws_refresh = (w_reopen c \<noteq> None),
         ws_focus = (case w_focus c of Some f \<Rightarrow> if f = [] then None else Some f | None \<Rightarrow> None)\<rparr>))"

definition publishW :: "unit work" where
  "publishW = seq (ask work_view) (\<lambda>v. upd (\<lambda>c. c\<lparr>w_published := w_published c @ [v]\<rparr>))"

text \<open>Write, publish and return.\<close>

definition commit :: "(ctx \<Rightarrow> ctx) \<Rightarrow> 'a \<Rightarrow> 'a work" where
  "commit f x = next_act (upd f) (next_act publishW (ret x))"

text \<open>What the constructor subscribes to the store.\<close>

definition onObservation :: "view \<Rightarrow> unit work" where
  "onObservation v =
     next_act (upd (\<lambda>c. case v_cursor v of
         Some cursor \<Rightarrow> if v_reason v = Some ''epoch_changed'' then c\<lparr>w_pastHost := Some (fld cursor ''hostEpoch'')\<rparr> else c
       | None \<Rightarrow> c))
     (seq (ask (\<lambda>c. canonicalData (JArr [(case v_cursor v of None \<Rightarrow> JNull | Some cursor \<Rightarrow> coalesce (fld cursor ''hostEpoch'') JNull),
           JBool (v_reason v = Some ''epoch_changed'')]))) (\<lambda>key.
      unlessS (\<lambda>c. Inr (key = w_epochKey c)) (ret ())
        (next_act (upd (\<lambda>c. c\<lparr>w_epochKey := key\<rparr>)) publishW)))"

text \<open>
  A call of a method of the store: its publications reach the context's listener and then the other
  listeners. What a listener throws ends in the store's method, which has done its work by then.
\<close>

definition heard :: "(ctx \<Rightarrow> ctx) \<Rightarrow> view \<Rightarrow> ctx \<Rightarrow> ctx" where
  "heard react v c = react (snd (onObservation v c))"

definition storeCall :: "(ctx \<Rightarrow> ctx) \<Rightarrow> (store \<Rightarrow> store \<times> bool) \<Rightarrow> bool work" where
  "storeCall react f = withS (\<lambda>c.
     let (st, ok) = f (w_store c); news = drop (length (published (w_store c))) (published st) in
     next_act (upd (\<lambda>c. fold (heard react) news (c\<lparr>w_store := st\<rparr>))) (ret ok))"

definition fresh_ctx :: ctx where
  "fresh_ctx = \<lparr>w_store = empty_store, w_view = Home, w_selector = None, w_binding = None, w_draft = None, w_edits = [],
     w_inputs = [], w_navigation = None, w_busy = False, w_conflict = False, w_closing = False, w_focus = None,
     w_generation = 0, w_review = None, w_reopen = None, w_reopened = None, w_token = None, w_pastHost = None,
     w_epochKey = [], w_fresh = 0, w_published = []\<rparr>"

text \<open>The constructor: subscribing calls the listener at once.\<close>

definition initial_ctx :: ctx where
  "initial_ctx = snd (onObservation (store_view empty_store) fresh_ctx)"

section \<open>Navigation\<close>

definition navigate :: "workspace_view \<Rightarrow> ustr option \<Rightarrow> unit work" where
  "navigate v focus = next_act (upd (\<lambda>c. c\<lparr>w_view := v, w_focus := focus\<rparr>)) publishW"

definition bindTarget :: "jv \<Rightarrow> unit work" where
  "bindTarget binding =
     seq (ask (\<lambda>_. capture binding)) (\<lambda>b.
     next_act (upd (\<lambda>c. c\<lparr>w_binding := Some b\<rparr>))
     (unlessS (\<lambda>c. case w_draft c of None \<Rightarrow> Inr False
          | Some d \<Rightarrow> negE (bindingEquivalent (obj_put (document_of d) ''target'' b) (document_of d)))
        (next_act (upd (\<lambda>c. c\<lparr>w_conflict := True\<rparr>)) publishW)
        publishW))"

definition applied :: "navigation \<Rightarrow> ctx \<Rightarrow> ctx" where
  "applied n c = (case nav_selector n of Some s \<Rightarrow> c\<lparr>w_selector := Some s, w_binding := None\<rparr> | None \<Rightarrow> c\<lparr>w_closing := True\<rparr>)
     \<lparr>w_draft := None, w_edits := [], w_inputs := [], w_conflict := False, w_navigation := None, w_busy := False,
      w_review := None, w_reopen := None, w_reopened := None, w_token := None, w_generation := Suc (w_generation c)\<rparr>"

definition applyNavigation :: "navigation \<Rightarrow> bool work" where
  "applyNavigation n = commit (applied n) True"

definition requestNavigation :: "jv option \<Rightarrow> ustr option \<Rightarrow> bool work" where
  "requestNavigation selector focus = withS (\<lambda>c.
     let n = \<lparr>nav_id = w_fresh c, nav_selector = selector\<rparr> in
     if w_navigation c \<noteq> None \<or> w_busy c then ret False
     else next_act (upd (\<lambda>c. c\<lparr>w_fresh := Suc (w_fresh c), w_focus := focus\<rparr>))
       (unlessS dirty (commit (\<lambda>c. c\<lparr>w_navigation := Some n\<rparr>) False) (applyNavigation n)))"

definition requestTarget :: "jv \<Rightarrow> ustr option \<Rightarrow> bool work" where
  "requestTarget selector focus = seq (ask (\<lambda>_. capture selector)) (\<lambda>s. requestNavigation (Some s) focus)"

definition requestClose :: "ustr option \<Rightarrow> bool work" where
  "requestClose focus = requestNavigation None focus"

definition stay :: "bool work" where
  "stay = withS (\<lambda>c. if w_navigation c = None \<or> w_busy c then ret False
     else commit (\<lambda>c. c\<lparr>w_navigation := None\<rparr>) True)"

section \<open>The draft\<close>

definition adopted :: "jv \<Rightarrow> bool \<Rightarrow> ctx \<Rightarrow> ctx" where
  "adopted d conflict c = c\<lparr>w_draft := Some d, w_edits := edits_of d, w_conflict := conflict, w_generation := Suc (w_generation c)\<rparr>"

definition openDraft :: "jv \<Rightarrow> bool work" where
  "openDraft draft =
     unlessS (\<lambda>c. orE (dirty c) (Inr (w_busy c \<or> w_reopen c \<noteq> None))) (ret False)
     (seq (ask (\<lambda>_. capture draft)) (\<lambda>d. withS (\<lambda>c.
       if \<not> hostEpochCurrent (host_of d) c then ret False else commit (adopted d False) True)))"

definition work_observeDraft :: "jv \<Rightarrow> bool work" where
  "work_observeDraft draft =
     seq (ask (\<lambda>_. capture draft)) (\<lambda>d. withS (\<lambda>c.
     if \<not> hostEpochCurrent (host_of d) c then ret False
     else case w_draft c of
       None \<Rightarrow> openDraft d
     | Some current \<Rightarrow>
         unlessS (\<lambda>_. bindingEquivalent current d) (ret True)
         (unlessS (\<lambda>c. orE (dirty c) (Inr (w_busy c)))
           (commit (\<lambda>c. c\<lparr>w_conflict := True\<rparr>) False)
           (openDraft d))))"

definition captureDraftReconciliation :: "ctx \<Rightarrow> reconciliation option" where
  "captureDraftReconciliation c = (case w_draft c of
       None \<Rightarrow> None
     | Some d \<Rightarrow> if w_reopen c \<noteq> None then None
         else Some \<lparr>k_draft = d, k_edits = w_edits c, k_inputs = w_inputs c, k_generation = w_generation c,
           k_selector = w_selector c, k_binding = w_binding c\<rparr>)"

section \<open>Reconciling the draft with a read\<close>

definition retained :: "reconciliation \<Rightarrow> ctx \<Rightarrow> bool" where
  "retained k c = (case w_draft c of None \<Rightarrow> False
     | Some d \<Rightarrow> strict_eq (host_of d) (host_of (k_draft k))
         \<and> strict_eq (path d [''draft'', ''draftId'']) (path (k_draft k) [''draft'', ''draftId'']))"

definition conflictW :: "reconciliation \<Rightarrow> bool work" where
  "conflictW k = withS (\<lambda>c. if retained k c then commit (\<lambda>c. c\<lparr>w_conflict := True\<rparr>) False else ret False)"

definition captureCurrent :: "reconciliation \<Rightarrow> ctx \<Rightarrow> bool res" where
  "captureCurrent k c =
     andE (Inr (retained k c \<and> k_generation k = w_generation c))
    (andE (same_data (or_undefined (w_draft c)) (k_draft k))
    (andE (same_data (JArr (w_edits c)) (JArr (k_edits k)))
    (andE (same_data (buffers_data (w_inputs c)) (buffers_data (k_inputs k)))
    (andE (same_data (or_null (w_selector c)) (or_null (k_selector k)))
    (andE (case (w_binding c, k_binding k) of
         (Some a, Some b) \<Rightarrow> bindingEquivalent a b
       | (None, None) \<Rightarrow> Inr True
       | _ \<Rightarrow> Inr False)
      (Inr (hostEpochCurrent (host_of (k_draft k)) c)))))))"

definition protectedEdit :: "jv \<Rightarrow> bool" where
  "protectedEdit edit \<longleftrightarrow> kind_in edit [''set_private'', ''replace_secret'', ''add_sync_destination'']
     \<or> is_kind edit ''set_sync_proxy'' \<and> is_kind (fld edit ''value'') ''custom''"

definition emptyStage :: "reconciliation \<Rightarrow> ctx \<Rightarrow> jv" where
  "emptyStage k c =
     (if \<not> w_busy c \<and> k_inputs k = [] \<and> k_edits k = [] \<and> edits_of (k_draft k) \<noteq> []
      then JObj [(U ''draft'', fld (k_draft k) ''draft''), (U ''edits'', JArr [])] else JUndef)"

text \<open>The store, after the read, holds the draft that was read, on the stream it was read on.\<close>

definition storeHolds :: "jv \<Rightarrow> jv \<Rightarrow> store \<Rightarrow> bool res" where
  "storeHolds read draft st =
     andE (Inr (o_confidence st = Authoritative \<and> (case o_cursor st of None \<Rightarrow> False | Some cursor \<Rightarrow> sameStream cursor (fld read ''cursor''))))
       (someE (\<lambda>observed. andE (Inr (strict_eq (host_of observed) (host_of draft)
              \<and> strict_eq (path observed [''draft'', ''draftId'']) (path draft [''draft'', ''draftId''])))
            (bindingEquivalent observed draft))
         (map snd (o_drafts st)))"

text \<open>From the completion on: whether the draft that was read may replace the captured one.\<close>

definition reconcileRead :: "reconciliation \<Rightarrow> bool \<Rightarrow> jv \<Rightarrow> bool work" where
  "reconcileRead k emptied draft =
     (let d = k_draft k; stale = isS (fld draft ''state'') ''stale'' in
      seq (ask (\<lambda>c. savedCompletion d draft None (w_store c))) (\<lambda>completion.
      seq (ask (\<lambda>_. andE (Inr emptied) (andE (bindingEquivalent (document_of draft) (document_of d))
          (possibleSavedDraftSuccessor d draft)))) (\<lambda>successor.
      if edits_of d \<noteq> [] \<and> edits_of draft = [] \<and> completion = None \<and> \<not> successor then conflictW k
      else unlessS (\<lambda>_. orE (andE (negE (bindingEquivalent (document_of draft) (document_of d))) (Inr (completion = None)))
          (negE (bindingEquivalent (obj_put d ''schema'' (fld draft ''schema'')) d))) (conflictW k)
      (unlessS (\<lambda>_. bindingEquivalent draft d) (commit (\<lambda>c. c\<lparr>w_conflict := stale\<rparr>) True)
      (seq (ask (\<lambda>_. negE (same_data (JArr (k_edits k)) (fld d ''edits'')))) (\<lambda>unsynchronized.
       seq (ask (\<lambda>_. negE (same_data (JArr (k_edits k)) (fld draft ''edits'')))) (\<lambda>editsChanged.
       withS (\<lambda>c.
        if w_busy c \<or> k_inputs k \<noteq> [] \<or> unsynchronized \<and> (completion \<noteq> None \<or> editsChanged)
           \<or> list_ex protectedEdit (k_edits k) \<and> completion = None \<and> editsChanged
        then conflictW k
        else commit (adopted draft stale) True))))))))"

definition finishDraftReconciliation :: "limits \<Rightarrow> (ctx \<Rightarrow> ctx) \<Rightarrow> reconciliation \<Rightarrow> jv outcome \<Rightarrow> bool work" where
  "finishDraftReconciliation lim react k result = withS (\<lambda>c.
     if \<not> retained k c then ret False
     else catchS
       (case result of
          Returned answer _ \<Rightarrow>
            if \<not> hostEpochCurrent (host_of (k_draft k)) c then conflictW k
            else seq (ask (\<lambda>_. capture answer)) (\<lambda>read.
              let input = JObj [(U ''hostEpoch'', host_of (k_draft k)), (U ''draftId'', path (k_draft k) [''draft'', ''draftId''])];
                  stage = emptyStage k c; draft = path read [''draft'', ''value''] in
              unlessS (\<lambda>c. negE (captureCurrent k c)) (conflictW k)
              (seq (storeCall react (observeDraftResult lim input read stage)) (\<lambda>ok.
              if \<not> ok then conflictW k
              else unlessS (\<lambda>c. Inr (\<not> retained k c)) (ret False)
              (unlessS (\<lambda>c. negE (captureCurrent k c)) (conflictW k)
              (if \<not> isS (path read [''draft'', ''status'']) ''observed'' then conflictW k
               else unlessS (\<lambda>c. negE (storeHolds read draft (w_store c))) (conflictW k)
                 (reconcileRead k (stage \<noteq> JUndef) draft))))))
        | _ \<Rightarrow> conflictW k)
       (conflictW k))"

section \<open>Staging\<close>

definition stage :: "jv list \<Rightarrow> bool work" where
  "stage edits = withS (\<lambda>c. case w_draft c of
       None \<Rightarrow> ret False
     | Some d \<Rightarrow> if w_busy c \<or> w_conflict c \<or> \<not> hostEpochCurrent (host_of d) c then ret False
         else seq (ask (\<lambda>_. capture (JArr edits))) (\<lambda>es.
           commit (\<lambda>c. c\<lparr>w_edits := arr_items es, w_generation := Suc (w_generation c)\<rparr>) True))"

definition fields_of :: "jv \<Rightarrow> jv \<Rightarrow> jv list" where
  "fields_of d fieldId = filter (\<lambda>f. strict_eq (fld f ''fieldId'') fieldId) (arr_items (path d [''schema'', ''fields'']))"

definition captureProtectedInput :: "jv \<Rightarrow> ctx \<Rightarrow> input_binding option res" where
  "captureProtectedInput fieldId c = (case w_draft c of
       None \<Rightarrow> Inr None
     | Some d \<Rightarrow>
         if w_busy c \<or> w_reopen c \<noteq> None \<or> w_navigation c \<noteq> None \<or> w_conflict c \<or> \<not> hostEpochCurrent (host_of d) c then Inr None
         else case fields_of d fieldId of
           [f] \<Rightarrow> if isS (fld f ''sensitivity'') ''public'' then Inr None
                  else bindE (same_data (path d [''schema'', ''binding'']) (fld (document_of d) ''schema'')) (\<lambda>same.
                    Inr (if same then Some \<lparr>b_draft = fld d ''draft'', b_field = f, b_generation = w_generation c\<rparr> else None))
         | _ \<Rightarrow> Inr None)"

definition protectedEditFits :: "input_binding \<Rightarrow> jv \<Rightarrow> bool res" where
  "protectedEditFits b edit =
     (let reference = fld edit ''reference'' in
      if is_kind edit ''set_private'' then
        andE (Inr (isS (fld (b_field b) ''sensitivity'') ''private'' \<and> strict_eq (fld reference ''fieldId'') (fld edit ''fieldId'')))
       (andE (bindingEquivalent (fld reference ''document'') (fld (b_draft b) ''document''))
       (andE (Inr (\<not> nullish (fld reference ''capturedFor''))) (bindingEquivalent (fld reference ''capturedFor'') (b_draft b))))
      else if is_kind edit ''replace_secret'' then
        andE (Inr (isS (fld (b_field b) ''sensitivity'') ''secret'' \<and> strict_eq (fld reference ''fieldId'') (fld edit ''fieldId'')))
          (bindingEquivalent (fld reference ''draft'') (b_draft b))
      else Inr False)"

definition other_edit :: "jv \<Rightarrow> jv \<Rightarrow> bool" where
  "other_edit fieldId edit \<longleftrightarrow> \<not> own edit ''fieldId'' \<or> \<not> strict_eq (fld edit ''fieldId'') fieldId"

definition stageProtectedInput :: "input_binding \<Rightarrow> jv \<Rightarrow> bool work" where
  "stageProtectedInput b edit = catchS
     (seq (ask (captureProtectedInput (fld (b_field b) ''fieldId''))) (\<lambda>current.
      case current of
        None \<Rightarrow> ret False
      | Some now \<Rightarrow>
          if b_generation now \<noteq> b_generation b then ret False
          else unlessS (\<lambda>_. negE (same_data (binding_data now) (binding_data b))) (ret False)
          (if \<not> own edit ''fieldId'' \<or> \<not> strict_eq (fld edit ''fieldId'') (fld (b_field b) ''fieldId'') then ret False
           else unlessS (\<lambda>_. negE (protectedEditFits b edit)) (ret False)
           (seq (ask (\<lambda>c. capture (JArr (filter (other_edit (fld edit ''fieldId'')) (w_edits c) @ [edit])))) (\<lambda>es.
             commit (\<lambda>c. c\<lparr>w_edits := arr_items es, w_generation := Suc (w_generation c)\<rparr>) True)))))
     (ret False)"

section \<open>Numeric inputs\<close>

definition capturePublicInput :: "jv \<Rightarrow> ctx \<Rightarrow> input_binding option res" where
  "capturePublicInput fieldId c = (case w_draft c of
       None \<Rightarrow> Inr None
     | Some d \<Rightarrow>
         if w_busy c \<or> w_reopen c \<noteq> None \<or> w_conflict c \<or> \<not> hostEpochCurrent (host_of d) c then Inr None
         else case fields_of d fieldId of
           [] \<Rightarrow> Inr None
         | f # others \<Rightarrow>
             if \<not> isS (fld f ''sensitivity'') ''public'' \<or> \<not> kind_in (fld f ''valueType'') [''integer'', ''number''] \<or> others \<noteq> []
             then Inr None
             else bindE (same_data (path d [''schema'', ''binding'']) (fld (document_of d) ''schema'')) (\<lambda>same.
               Inr (if same then Some \<lparr>b_draft = fld d ''draft'', b_field = f, b_generation = w_generation c\<rparr> else None)))"

definition matchesPublicInput :: "input_binding \<Rightarrow> ctx \<Rightarrow> bool res" where
  "matchesPublicInput b c =
     (if w_draft c = None \<or> w_busy c \<or> w_reopen c \<noteq> None \<or> b_generation b \<noteq> w_generation c then Inr False
      else bindE (capturePublicInput (fld (b_field b) ''fieldId'') c) (\<lambda>current.
        case current of None \<Rightarrow> Inr False
        | Some now \<Rightarrow> andE (bindingEquivalent (b_draft now) (b_draft b)) (same_data (b_field now) (b_field b))))"

abbreviation buffer_field :: "public_buffer \<Rightarrow> jv" where
  "buffer_field p \<equiv> fld (b_field (p_binding p)) ''fieldId''"

definition without_field :: "jv \<Rightarrow> public_buffer list \<Rightarrow> public_buffer list" where
  "without_field fieldId ps = filter (\<lambda>p. \<not> strict_eq (buffer_field p) fieldId) ps"

definition has_buffer :: "input_binding \<Rightarrow> ustr \<Rightarrow> ctx \<Rightarrow> bool" where
  "has_buffer b txt c \<longleftrightarrow> (\<exists>p \<in> set (w_inputs c). strict_eq (buffer_field p) (fld (b_field b) ''fieldId'') \<and> p_text p = txt)"

definition setPublicInput :: "input_binding \<Rightarrow> ustr \<Rightarrow> bool work" where
  "setPublicInput b txt = catchS
     (checkS (\<lambda>_. capture (binding_data b))
     (if length txt > maximumTextLength then ret False
      else unlessS (\<lambda>c. negE (matchesPublicInput b c)) (ret False)
      (checkS (\<lambda>_. capture (JStr txt))
      (withS (\<lambda>c.
        let fieldId = fld (b_field b) ''fieldId''; prior = find (\<lambda>p. strict_eq (buffer_field p) fieldId) (w_inputs c);
            buffer = \<lparr>p_binding = b\<lparr>b_generation := Suc (w_generation c)\<rparr>, p_text = txt\<rparr> in
        if prior = None \<and> length (w_inputs c) \<ge> maximumBuffers then ret False
        else if map_option p_text prior = Some txt then ret True
        else commit (\<lambda>c. c\<lparr>w_generation := Suc (w_generation c), w_inputs := without_field fieldId (w_inputs c) @ [buffer]\<rparr>) True)))))
     (ret False)"

text \<open>The request the staged edits would be sent as; it is decoded here and never sent.\<close>

definition stagedRequest :: "jv \<Rightarrow> jv \<Rightarrow> jv" where
  "stagedRequest draft edits =
     JObj [(U ''protocolVersion'', JInt 1), (U ''requestId'', S ''00000000-0000-4000-8000-000000000000''),
       (U ''body'', JObj [(U ''type'', S ''command''), (U ''command'', JObj [(U ''name'', S ''set_draft_changes''),
         (U ''input'', JObj [(U ''draft'', draft), (U ''edits'', edits)])])])]"

definition outOfBounds :: "ustr \<Rightarrow> jv \<Rightarrow> bool res" where
  "outOfBounds txt vtype =
     orE (if nullish (fld vtype ''minimum'') then Inr False
          else bindE (compareNumeric txt (str_of (fld vtype ''minimum''))) (\<lambda>o'. Inr (o' < 0)))
         (if nullish (fld vtype ''maximum'') then Inr False
          else bindE (compareNumeric txt (str_of (fld vtype ''maximum''))) (\<lambda>o'. Inr (o' > 0)))"

definition stagePublicInput :: "(jv \<Rightarrow> bool) \<Rightarrow> input_binding \<Rightarrow> ustr \<Rightarrow> jv list \<Rightarrow> bool work" where
  "stagePublicInput validRequest b txt edits = catchS
     (checkS (\<lambda>_. capture (binding_data b))
     (seq (ask (\<lambda>_. capture (JArr edits))) (\<lambda>detached.
      let fieldId = fld (b_field b) ''fieldId''; vtype = fld (b_field b) ''valueType'' in
      unlessS (\<lambda>c. bindE (matchesPublicInput b c) (\<lambda>m. Inr (\<not> m \<or> \<not> has_buffer b txt c))) (ret False)
      (case filter (\<lambda>e. own e ''fieldId'' \<and> strict_eq (fld e ''fieldId'') fieldId) (arr_items detached) of
         [e] \<Rightarrow>
           if \<not> is_kind e ''set_public'' \<or> \<not> strict_eq (path e [''value'', ''kind'']) (fld vtype ''kind'')
              \<or> \<not> kind_in (fld e ''value'') [''integer'', ''number''] \<or> path e [''value'', ''value''] \<noteq> JStr txt then ret False
           else checkS (\<lambda>_. decode validRequest (TextInput (encodeData False (stagedRequest (b_draft b) detached))))
             (if \<not> kind_in vtype [''integer'', ''number''] then ret False
              else unlessS (\<lambda>_. outOfBounds txt vtype) (ret False)
                (commit (\<lambda>c. c\<lparr>w_edits := arr_items detached, w_inputs := without_field fieldId (w_inputs c),
                   w_generation := Suc (w_generation c)\<rparr>) True))
       | _ \<Rightarrow> ret False))))
     (ret False)"

definition resetPublicInput :: "input_binding \<Rightarrow> ustr \<Rightarrow> bool work" where
  "resetPublicInput b txt = catchS
     (checkS (\<lambda>_. capture (binding_data b))
     (unlessS (\<lambda>c. bindE (matchesPublicInput b c) (\<lambda>m. Inr (\<not> m \<or> \<not> has_buffer b txt c))) (ret False)
      (commit (\<lambda>c. c\<lparr>w_inputs := without_field (fld (b_field b) ''fieldId'') (w_inputs c),
         w_generation := Suc (w_generation c)\<rparr>) True)))
     (ret False)"

section \<open>Reviews\<close>

definition reviewPurpose :: "review_kind \<Rightarrow> jv \<Rightarrow> ctx \<Rightarrow> purpose option res" where
  "reviewPurpose k d c = (case k of
       In_Navigation \<Rightarrow> Inr (map_option For_Navigation (w_navigation c))
     | In_Place \<Rightarrow>
         (case (w_navigation c, w_selector c, w_binding c) of
            (None, Some s, Some b) \<Rightarrow>
              bindE (bindingEquivalent (obj_put (document_of d) ''target'' b) (document_of d)) (\<lambda>same.
                Inr (if same then Some (At_Place s b) else None))
          | _ \<Rightarrow> Inr None))"

definition beginReview :: "review_kind \<Rightarrow> ustr option \<Rightarrow> review option work" where
  "beginReview k focus = withS (\<lambda>c. case w_draft c of
       None \<Rightarrow> ret None
     | Some d \<Rightarrow>
         if w_busy c \<or> w_reopen c \<noteq> None \<or> \<not> hostEpochCurrent (host_of d) c then ret None
         else seq (ask (reviewPurpose k d)) (\<lambda>p. case p of
             None \<Rightarrow> ret None
           | Some purpose \<Rightarrow>
               let f = (if k = In_Place \<and> focus \<noteq> None then focus else w_focus c);
                   r = \<lparr>r_id = w_fresh c, r_purpose = purpose, r_focus = (if f = Some [] then None else f), r_draft = d,
                        r_edits = w_edits c, r_generation = w_generation c, r_inputs = w_inputs c\<rparr> in
               commit (\<lambda>c. c\<lparr>w_focus := f, w_fresh := Suc (w_fresh c), w_review := Some r, w_busy := True\<rparr>) (Some r)))"

definition purposeMatches :: "review \<Rightarrow> ctx \<Rightarrow> bool res" where
  "purposeMatches r c = (case r_purpose r of
       For_Navigation n \<Rightarrow> Inr (w_navigation c = Some n)
     | At_Place s t \<Rightarrow>
         andE (Inr (w_navigation c = None))
        (andE (same_data (or_undefined (w_selector c)) s)
         (case w_binding c of None \<Rightarrow> Inr False | Some b \<Rightarrow> bindingEquivalent b t)))"

definition matchesReview :: "review \<Rightarrow> ctx \<Rightarrow> bool res" where
  "matchesReview r c =
     bindE (purposeMatches r c) (\<lambda>matches.
     andE (Inr (w_busy c \<and> w_review c = Some r \<and> matches \<and> w_draft c \<noteq> None \<and> r_generation r = w_generation c))
    (andE (case w_binding c of None \<Rightarrow> Inr True | Some b \<Rightarrow> bindingEquivalent b (fld (document_of (r_draft r)) ''target''))
    (andE (same_data (r_draft r) (or_undefined (w_draft c)))
    (andE (same_data (JArr (r_edits r)) (JArr (w_edits c)))
      (same_data (buffers_data (r_inputs r)) (buffers_data (w_inputs c)))))))"

definition failedReview :: "'a \<Rightarrow> 'a work" where
  "failedReview x = commit (\<lambda>c. c\<lparr>w_review := None, w_busy := False\<rparr>) x"

definition abandonReview :: "review \<Rightarrow> bool work" where
  "abandonReview r = unlessS (\<lambda>c. negE (matchesReview r c)) (ret False) (failedReview True)"

definition adoptAcknowledged :: "review \<Rightarrow> jv outcome \<Rightarrow> review option work" where
  "adoptAcknowledged r result = (case result of
       Returned answer _ \<Rightarrow>
         seq (ask (\<lambda>_. capture answer)) (\<lambda>res'.
         let acknowledged = fld res' ''snapshot'' in
         unlessS (\<lambda>_. orE (Inr (\<not> draftAcknowledgementMatches
              (JObj [(U ''draft'', fld (r_draft r) ''draft''), (U ''edits'', JArr (r_edits r))]) res'))
             (negE (bindingEquivalent (obj_put (r_draft r) ''schema'' (fld acknowledged ''schema'')) (r_draft r))))
           (failedReview None)
           (withS (\<lambda>c.
             let updated = \<lparr>r_id = w_fresh c, r_purpose = r_purpose r, r_focus = (if r_focus r = Some [] then None else r_focus r),
                   r_draft = acknowledged, r_edits = edits_of acknowledged, r_generation = Suc (w_generation c), r_inputs = w_inputs c\<rparr> in
             commit (\<lambda>c. (adopted acknowledged False c)\<lparr>w_fresh := Suc (w_fresh c), w_review := Some updated\<rparr>) (Some updated))))
     | _ \<Rightarrow> failedReview None)"

definition finishDraftSynchronization :: "review \<Rightarrow> jv outcome \<Rightarrow> review option work" where
  "finishDraftSynchronization r result =
     unlessS (\<lambda>c. negE (matchesReview r c)) (ret None)
     (withS (\<lambda>c.
       if \<not> hostEpochCurrent (host_of (r_draft r)) c \<or> w_inputs c \<noteq> [] then failedReview None
       else catchS (adoptAcknowledged r result) (failedReview None)))"

definition completeReview :: "review \<Rightarrow> reopen_reason \<Rightarrow> jv \<Rightarrow> bool work" where
  "completeReview r reason document = (case r_purpose r of
       For_Navigation n \<Rightarrow> applyNavigation n
     | At_Place s _ \<Rightarrow>
         commit (\<lambda>c. c\<lparr>w_draft := None, w_edits := [], w_inputs := [], w_conflict := False, w_review := None,
             w_generation := Suc (w_generation c), w_fresh := Suc (w_fresh c),
             w_reopen := Some \<lparr>t_id = w_fresh c, t_reason = reason, t_selector = s, t_document = document,
               t_host = host_of (r_draft r), t_generation = Suc (w_generation c)\<rparr>,
             w_reopened := Some r, w_token := None, w_busy := True\<rparr>) True)"

definition saveMatches :: "review \<Rightarrow> jv \<Rightarrow> bool res" where
  "saveMatches r operation =
     (let capture = path operation [''semantics'', ''capture''] in
      andE (Inr (is_kind capture ''save_configuration''))
     (andE (bindingEquivalent (path capture [''input'', ''draft'']) (r_draft r))
     (andE (same_data (path capture [''input'', ''draft'', ''edits'']) (JArr (r_edits r)))
       (configurationCompletionValid operation))))"

definition savedDocument :: "review \<Rightarrow> jv \<Rightarrow> jv" where
  "savedDocument r operation =
     (if isS (path operation [''state'', ''status'']) ''completed'' \<and> isS (path operation [''state'', ''outcome'', ''kind'']) ''changed''
         \<and> isS (path operation [''state'', ''outcome'', ''receipt'', ''kind'']) ''configuration_written''
      then path operation [''state'', ''outcome'', ''receipt'', ''document''] else document_of (r_draft r))"

definition finishSave :: "limits \<Rightarrow> (ctx \<Rightarrow> ctx) \<Rightarrow> review \<Rightarrow> jv outcome \<Rightarrow> bool work" where
  "finishSave lim react r result =
     unlessS (\<lambda>c. negE (matchesReview r c)) (ret False)
     (withS (\<lambda>c. if w_inputs c \<noteq> [] then failedReview False
       else case result of
         Returned operation _ \<Rightarrow>
           unlessS (\<lambda>_. negE (saveMatches r operation)) (failedReview False)
           (seq (storeCall react (store_observeOperation lim operation)) (\<lambda>ok.
            if \<not> ok then failedReview False
            else unlessS (\<lambda>c. negE (matchesReview r c)) (ret False)
            (withS (\<lambda>c.
              if \<not> hostEpochCurrent (host_of (r_draft r)) c then completeReview r After_Save (savedDocument r operation)
              else seq (ask (\<lambda>c. findE (\<lambda>draft. bindE (savedCompletion (r_draft r) draft (Some (fld operation ''operationId'')) (w_store c))
                     (\<lambda>found. Inr (found \<noteq> None))) (map snd (o_drafts (w_store c))))) (\<lambda>successor.
                case successor of None \<Rightarrow> ret False
                | Some draft \<Rightarrow> completeReview r After_Save (document_of draft))))))
       | _ \<Rightarrow> failedReview False))"

definition finishDiscard :: "review \<Rightarrow> jv outcome \<Rightarrow> bool work" where
  "finishDiscard r result =
     unlessS (\<lambda>c. negE (matchesReview r c)) (ret False)
     (withS (\<lambda>c. if \<not> hostEpochCurrent (host_of (r_draft r)) c then failedReview False
       else case result of
         Returned answer _ \<Rightarrow>
           if \<not> strict_eq (fld answer ''draftId'') (path (r_draft r) [''draft'', ''draftId''])
              \<or> \<not> strict_eq (fld answer ''hostEpoch'') (host_of (r_draft r))
              \<or> \<not> strict_eq (fld answer ''previousRevision'') (path (r_draft r) [''draft'', ''revision'']) then failedReview False
           else completeReview r After_Discard (document_of (r_draft r))
       | _ \<Rightarrow> failedReview False))"

section \<open>Reopening the baseline\<close>

definition abandonBaselineReservation :: "review \<Rightarrow> bool work" where
  "abandonBaselineReservation r = withS (\<lambda>c. case w_reopen c of
       None \<Rightarrow> ret False
     | Some t \<Rightarrow> if w_reopened c \<noteq> Some r \<or> w_token c \<noteq> None \<or> t_generation t \<noteq> w_generation c \<or> \<not> w_busy c then ret False
         else commit (\<lambda>c. c\<lparr>w_busy := False\<rparr>) True)"

definition beginBaselineReopen :: "reopen option work" where
  "beginBaselineReopen = withS (\<lambda>c. case w_reopen c of
       None \<Rightarrow> ret None
     | Some t \<Rightarrow>
         if w_token c \<noteq> None \<or> w_review c \<noteq> None \<or> w_draft c \<noteq> None \<or> w_inputs c \<noteq> [] \<or> t_generation t \<noteq> w_generation c then ret None
         else unlessS (\<lambda>c. negE (same_data (or_undefined (w_selector c)) (t_selector t))) (ret None)
           (let token = t\<lparr>t_id := w_fresh c\<rparr> in
            commit (\<lambda>c. c\<lparr>w_fresh := Suc (w_fresh c), w_token := Some token, w_busy := True\<rparr>) (Some token)))"

definition targetFits :: "reopen \<Rightarrow> ctx \<Rightarrow> bool res" where
  "targetFits t c = (case w_binding c of None \<Rightarrow> Inr False
     | Some b \<Rightarrow> bindingEquivalent (obj_put (t_document t) ''target'' b) (t_document t))"

definition baselineFits :: "reopen \<Rightarrow> jv \<Rightarrow> ctx \<Rightarrow> bool res" where
  "baselineFits t d c =
     andE (Inr (isS (fld d ''state'') ''clean'' \<and> edits_of d = [] \<and> arr_items (fld d ''validation'') = []))
    (andE (if t_reason t \<noteq> After_Save then Inr True else bindingEquivalent (document_of d) (t_document t))
    (andE (Inr (strict_eq (host_of d) (t_host t)
        \<and> (case o_cursor (w_store c) of None \<Rightarrow> True | Some cursor \<Rightarrow> strict_eq (fld cursor ''hostEpoch'') (t_host t))
        \<and> hostEpochCurrent (t_host t) c \<and> strict_eq (fld (document_of d) ''documentId'') (fld (t_document t) ''documentId'')))
    (andE (bindingEquivalent (obj_put (t_document t) ''target'' (fld (document_of d) ''target'')) (t_document t))
      (targetFits t c))))"

definition tokenHolds :: "reopen \<Rightarrow> ctx \<Rightarrow> bool res" where
  "tokenHolds t c =
     andE (Inr (w_token c = Some t \<and> t_generation t = w_generation c \<and> hostEpochCurrent (t_host t) c))
    (andE (same_data (or_undefined (w_selector c)) (t_selector t)) (targetFits t c))"

definition releaseToken :: "reopen \<Rightarrow> unit work" where
  "releaseToken t = withS (\<lambda>c. if w_token c = Some t
     then next_act (upd (\<lambda>c. c\<lparr>w_token := None, w_busy := False\<rparr>)) publishW else ret ())"

definition finishBaselineReopen :: "limits \<Rightarrow> (ctx \<Rightarrow> ctx) \<Rightarrow> reopen \<Rightarrow> jv outcome \<Rightarrow> bool work" where
  "finishBaselineReopen lim react t result =
     unlessS (\<lambda>c. orE (Inr (w_token c \<noteq> Some t \<or> w_reopen c = None \<or> \<not> w_busy c \<or> w_draft c \<noteq> None \<or> w_inputs c \<noteq> []
          \<or> t_generation t \<noteq> w_generation c)) (negE (same_data (or_undefined (w_selector c)) (t_selector t)))) (ret False)
     (finallyS
       (case result of
          Returned answer _ \<Rightarrow>
            seq (ask (\<lambda>_. capture answer)) (\<lambda>d.
            unlessS (\<lambda>c. negE (baselineFits t d c)) (ret False)
            (seq (storeCall react (observeDraft lim d)) (\<lambda>ok.
             if \<not> ok then ret False
             else unlessS (\<lambda>c. negE (tokenHolds t c)) (ret False)
               (next_act (upd (\<lambda>c. (adopted d False c)\<lparr>w_reopen := None, w_reopened := None\<rparr>)) (ret True)))))
        | _ \<Rightarrow> ret False)
       (releaseToken t))"

section \<open>The public methods\<close>

datatype work_call =
    Navigate workspace_view "ustr option"
  | BindTarget jv
  | RequestTarget jv "ustr option"
  | RequestClose "ustr option"
  | Stay
  | OpenDraft jv
  | WorkObserveDraft jv
  | FinishDraftReconciliation reconciliation "jv outcome"
  | Stage "jv list"
  | StageProtectedInput input_binding jv
  | SetPublicInput input_binding ustr
  | StagePublicInput input_binding ustr "jv list"
  | ResetPublicInput input_binding ustr
  | BeginReview review_kind "ustr option"
  | AbandonReview review
  | FinishDraftSynchronization review "jv outcome"
  | FinishSave review "jv outcome"
  | FinishDiscard review "jv outcome"
  | AbandonBaselineReservation review
  | BeginBaselineReopen
  | FinishBaselineReopen reopen "jv outcome"
  | StoreCalled store_call

text \<open>The fields after a call; the last constructor is a call of the store by its other owners.\<close>

fun work_step :: "(jv \<Rightarrow> bool) \<Rightarrow> limits \<Rightarrow> (ctx \<Rightarrow> ctx) \<Rightarrow> work_call \<Rightarrow> ctx \<Rightarrow> ctx" where
  "work_step valid lim react (Navigate v f) c = snd (navigate v f c)"
| "work_step valid lim react (BindTarget b) c = snd (bindTarget b c)"
| "work_step valid lim react (RequestTarget s f) c = snd (requestTarget s f c)"
| "work_step valid lim react (RequestClose f) c = snd (requestClose f c)"
| "work_step valid lim react Stay c = snd (stay c)"
| "work_step valid lim react (OpenDraft d) c = snd (openDraft d c)"
| "work_step valid lim react (WorkObserveDraft d) c = snd (work_observeDraft d c)"
| "work_step valid lim react (FinishDraftReconciliation k r) c = snd (finishDraftReconciliation lim react k r c)"
| "work_step valid lim react (Stage es) c = snd (stage es c)"
| "work_step valid lim react (StageProtectedInput b e) c = snd (stageProtectedInput b e c)"
| "work_step valid lim react (SetPublicInput b t) c = snd (setPublicInput b t c)"
| "work_step valid lim react (StagePublicInput b t es) c = snd (stagePublicInput valid b t es c)"
| "work_step valid lim react (ResetPublicInput b t) c = snd (resetPublicInput b t c)"
| "work_step valid lim react (BeginReview k f) c = snd (beginReview k f c)"
| "work_step valid lim react (AbandonReview r) c = snd (abandonReview r c)"
| "work_step valid lim react (FinishDraftSynchronization r o') c = snd (finishDraftSynchronization r o' c)"
| "work_step valid lim react (FinishSave r o') c = snd (finishSave lim react r o' c)"
| "work_step valid lim react (FinishDiscard r o') c = snd (finishDiscard r o' c)"
| "work_step valid lim react (AbandonBaselineReservation r) c = snd (abandonBaselineReservation r c)"
| "work_step valid lim react BeginBaselineReopen c = snd (beginBaselineReopen c)"
| "work_step valid lim react (FinishBaselineReopen t o') c = snd (finishBaselineReopen lim react t o' c)"
| "work_step valid lim react (StoreCalled k) c = snd (storeCall react (\<lambda>st. (store_step lim k st, True)) c)"

end
