(* ===== verification/Work_Changes.thy ===== *)
theory Work_Changes imports Work_Context begin

text \<open>
  What every method of the work context keeps: the invariant \<open>work_ok\<close> and the order \<open>moves\<close> (generations
  only grow, and a generation stands for one draft with one set of edits and inputs). Each method
  has one lemma, by the weakest preconditions of its statements.
\<close>

section \<open>The invariant and the order\<close>

text \<open>A buffer belongs to the open draft and to a public numeric field of its schema.\<close>

definition buffer_ok :: "jv \<Rightarrow> public_buffer \<Rightarrow> bool" where
  "buffer_ok d p \<longleftrightarrow> length (p_text p) \<le> maximumTextLength \<and> same_binding (fld d ''draft'') (b_draft (p_binding p))
     \<and> (\<exists>f \<in> set (arr_items (path d [''schema'', ''fields''])). data_eq f (b_field (p_binding p))
          \<and> isS (fld f ''sensitivity'') ''public'' \<and> kind_in (fld f ''valueType'') [''integer'', ''number''])"

definition work_ok :: "ctx \<Rightarrow> bool" where
  "work_ok c \<longleftrightarrow>
     (w_draft c = None \<longrightarrow> w_edits c = [] \<and> w_inputs c = [] \<and> w_review c = None)
   \<and> (\<forall>d. w_draft c = Some d \<longrightarrow> list_all (buffer_ok d) (w_inputs c) \<and> w_reopen c = None)
   \<and> length (w_inputs c) \<le> maximumBuffers \<and> distinct (map buffer_field (w_inputs c))"

definition moves :: "ctx \<Rightarrow> ctx \<Rightarrow> bool" where
  "moves c c' \<longleftrightarrow> w_generation c \<le> w_generation c' \<and> (w_generation c' = w_generation c \<longrightarrow>
     w_draft c' = w_draft c \<and> w_edits c' = w_edits c \<and> w_inputs c' = w_inputs c \<and> w_reopen c' = w_reopen c)"

definition fine :: "ctx \<Rightarrow> ctx \<Rightarrow> bool" where
  "fine c c' \<longleftrightarrow> (work_ok c \<longrightarrow> work_ok c') \<and> moves c c'"

lemma moves_refl [simp]: "moves c c"
  by (simp add: moves_def)

lemma moves_trans: "moves a b \<Longrightarrow> moves b c \<Longrightarrow> moves a c"
  by (auto simp: moves_def)

lemma fine_refl [simp]: "fine c c"
  by (simp add: fine_def)

lemma fine_trans: "fine a b \<Longrightarrow> fine b c \<Longrightarrow> fine a c"
  by (auto simp: fine_def intro: moves_trans)

text \<open>What neither speaks of.\<close>

lemma fine_shown [simp]: "fine c (c'\<lparr>w_published := v\<rparr>) = fine c c'"
  by (simp add: fine_def work_ok_def moves_def)

lemma fine_shown_left [simp]: "fine (c\<lparr>w_published := v\<rparr>) c' = fine c c'"
  by (simp add: fine_def work_ok_def moves_def)

lemma fine_stored: "fine c (c\<lparr>w_store := st\<rparr>)"
  by (simp add: fine_def work_ok_def moves_def)

lemma fine_small:
  "w_draft c' = w_draft c \<Longrightarrow> w_edits c' = w_edits c \<Longrightarrow> w_inputs c' = w_inputs c \<Longrightarrow> w_reopen c' = w_reopen c
   \<Longrightarrow> w_generation c' = w_generation c \<Longrightarrow> w_review c' = w_review c \<Longrightarrow> w_busy c' = w_busy c \<Longrightarrow> w_token c' = w_token c
   \<Longrightarrow> fine c c'"
  by (simp add: fine_def moves_def work_ok_def)

section \<open>Statements\<close>

lemma wp_publish [wp_rules]:
  "wp publishW Q c \<longleftrightarrow> (\<forall>e. work_view c = Inl e \<longrightarrow> Q (Inl e) c)
     \<and> (\<forall>v. work_view c = Inr v \<longrightarrow> Q (Inr ()) (c\<lparr>w_published := w_published c @ [v]\<rparr>))"
  by (auto simp: publishW_def wp_rules)

lemma wp_commit [wp_rules]:
  "wp (commit f x) Q c \<longleftrightarrow> (\<forall>e. work_view (f c) = Inl e \<longrightarrow> Q (Inl e) (f c))
     \<and> (\<forall>v. work_view (f c) = Inr v \<longrightarrow> Q (Inr x) ((f c)\<lparr>w_published := w_published (f c) @ [v]\<rparr>))"
  by (auto simp: commit_def wp_rules)

text \<open>
  An action of which every way out is related to the state it starts in, and how that is shown,
  statement by statement, for any reflexive and transitive relation that ignores publications.
\<close>

definition good :: "(ctx \<Rightarrow> ctx \<Rightarrow> bool) \<Rightarrow> (ctx, 'a) act \<Rightarrow> ctx \<Rightarrow> bool" where
  "good R m c \<longleftrightarrow> wp m (\<lambda>_. R c) c"

lemma good_option: "(v = None \<Longrightarrow> good R m c) \<Longrightarrow> (\<And>x. v = Some x \<Longrightarrow> good R (f x) c) \<Longrightarrow> good R (case v of None \<Rightarrow> m | Some x \<Rightarrow> f x) c"
  by (cases v) auto

lemma good_list: "(xs = [] \<Longrightarrow> good R m c) \<Longrightarrow> (\<And>y ys. xs = y # ys \<Longrightarrow> good R (f y ys) c) \<Longrightarrow> good R (case xs of [] \<Rightarrow> m | y # ys \<Rightarrow> f y ys) c"
  by (cases xs) auto

lemma good_outcome: "(\<And>x m. v = Returned x m \<Longrightarrow> good R (f x m) c) \<Longrightarrow> (\<And>e m. v = Rejected e m \<Longrightarrow> good R (g e m) c)
    \<Longrightarrow> (\<And>e. v = Faulted e \<Longrightarrow> good R (h e) c)
    \<Longrightarrow> good R (case v of Returned x m \<Rightarrow> f x m | Rejected e m \<Rightarrow> g e m | Faulted e \<Rightarrow> h e) c"
  by (cases v) auto

lemma good_purpose: "(\<And>n. v = For_Navigation n \<Longrightarrow> good R (f n) c) \<Longrightarrow> (\<And>a b. v = At_Place a b \<Longrightarrow> good R (g a b) c)
    \<Longrightarrow> good R (case v of For_Navigation n \<Rightarrow> f n | At_Place a b \<Rightarrow> g a b) c"
  by (cases v) auto

lemma good_if: "(b \<Longrightarrow> good R m c) \<Longrightarrow> (\<not> b \<Longrightarrow> good R n c) \<Longrightarrow> good R (if b then m else n) c"
  by simp

lemma good_with: "good R (h c) c \<Longrightarrow> good R (withS h) c"
  by (simp add: good_def wp_rules)

lemma good_unless:
  "(c s = Inr True \<Longrightarrow> good R m s) \<Longrightarrow> (c s = Inr False \<Longrightarrow> good R n s) \<Longrightarrow> (\<And>s. R s s) \<Longrightarrow> good R (unlessS c m n) s"
  by (simp add: good_def wp_rules)

lemma good_after_call: "good R m c \<Longrightarrow> R c (snd (m c))"
  by (simp add: good_def wp_after)

locale kept_order =
  fixes R :: "ctx \<Rightarrow> ctx \<Rightarrow> bool"
  assumes R_refl: "R c c"
    and R_trans: "R a b \<Longrightarrow> R b c \<Longrightarrow> R a c"
    and R_shown: "R c (c'\<lparr>w_published := v\<rparr>) = R c c'"
begin

lemma good_ret: "good R (ret x) c"
  by (simp add: good_def wp_rules R_refl)

lemma good_seq:
  assumes "good R m c" "\<And>x t. m c = (Inr x, t) \<Longrightarrow> R c t \<Longrightarrow> good R (f x) t"
  shows "good R (seq m f) c"
proof -
  have "wp m (\<lambda>r t. R c t \<and> (\<forall>x. r = Inr x \<longrightarrow> good R (f x) t)) c"
    using assms by (auto simp: wp_def good_def split: prod.splits)
  then show ?thesis unfolding good_def wp_seq
    by (rule wp_mono) (auto simp: good_def intro: wp_mono R_trans)
qed

lemma good_upd: "R c (f c) \<Longrightarrow> good R (upd f) c"
  by (simp add: good_def wp_rules)

lemma good_ask: "(\<And>x. f c = Inr x \<Longrightarrow> good R (g x) c) \<Longrightarrow> good R (seq (ask f) g) c"
  by (rule good_seq) (auto simp: good_def wp_rules R_refl, simp_all add: ask_def)

lemma good_write: "R c (f c) \<Longrightarrow> good R (g ()) (f c) \<Longrightarrow> good R (seq (upd f) g) c"
  by (rule good_seq [OF good_upd]) (auto simp: upd_def)

lemma good_test: "(c s = Inr True \<Longrightarrow> good R m s) \<Longrightarrow> (c s = Inr False \<Longrightarrow> good R n s) \<Longrightarrow> good R (unlessS c m n) s"
  by (rule good_unless) (simp_all add: R_refl)

lemma good_check: "(\<And>x. f s = Inr x \<Longrightarrow> good R m s) \<Longrightarrow> good R (checkS f m) s"
  by (simp add: good_def wp_rules R_refl)

lemma good_after: "R c t \<Longrightarrow> good R m t \<Longrightarrow> wp m (\<lambda>_. R c) t"
  unfolding good_def by (erule wp_mono) (rule R_trans)

lemma good_catch: "good R m c \<Longrightarrow> (\<And>t. good R h t) \<Longrightarrow> good R (catchS m h) c"
  unfolding good_def [of R "catchS m h"] good_def [of R m] wp_catch by (erule wp_mono) (simp add: good_after)

lemma good_finally: "good R m c \<Longrightarrow> (\<And>t. good R f t) \<Longrightarrow> good R (finallyS m f) c"
  unfolding good_def [of R "finallyS m f"] good_def [of R m] wp_finally
  by (erule wp_mono, rule wp_mono, rule good_after) auto

lemma good_commit: "R c (f c) \<Longrightarrow> good R (commit f x) c"
  by (simp add: good_def wp_rules R_shown)

lemma good_publish: "good R publishW c"
  by (simp add: good_def wp_rules R_shown R_refl)

lemma heard_all:
  assumes "\<And>c. R c (react c)" "\<And>v c. R c (snd (onObservation v c))"
  shows "R c (fold (heard react) vs c)"
proof (induction vs arbitrary: c)
  case (Cons v vs)
  have "R c (heard react v c)" unfolding heard_def using assms by (blast intro: R_trans)
  then show ?case using Cons R_trans by simp
qed (simp add: R_refl)

lemma good_storeCall:
  assumes "\<And>c. R c (react c)" "\<And>v c. R c (snd (onObservation v c))" "\<And>st. R c (c\<lparr>w_store := st\<rparr>)"
  shows "good R (storeCall react f) c"
  unfolding storeCall_def Let_def case_prod_unfold
  by (intro good_with good_write good_ret R_trans [OF assms(3) heard_all]) (rule assms)+

lemmas good_step = good_commit good_publish good_ask good_write good_test good_check good_catch good_finally good_option good_outcome
  good_with good_ret good_if

end

interpretation ord_fine: kept_order fine
  by unfold_locales (auto intro: fine_trans)

section \<open>Navigation and the draft\<close>

lemmas fine_defs = fine_def moves_def work_ok_def

lemma navigate_good: "good fine (navigate v f) c"
  unfolding navigate_def by (intro ord_fine.good_step) (simp_all add: fine_small)

lemma bindTarget_good: "good fine (bindTarget b) c"
  unfolding bindTarget_def by (intro ord_fine.good_step) (simp_all add: fine_small)

lemma applyNavigation_good: "good fine (applyNavigation n) c"
  unfolding applyNavigation_def
  by (intro ord_fine.good_step) (auto simp: applied_def fine_defs split: option.split)

lemma requestNavigation_good: "good fine (requestNavigation s f) c"
  unfolding requestNavigation_def Let_def
  by (intro ord_fine.good_step applyNavigation_good) (simp_all add: fine_small)

lemma openDraft_good: "good fine (openDraft d) c"
proof -
  have "fine c (adopted d' False c)" if "orE (dirty c) (Inr (w_busy c \<or> w_reopen c \<noteq> None)) = Inr False" for d'
    using that by (auto simp: adopted_def fine_defs orE_def dirty_def res_simps split: if_splits)
  then show ?thesis unfolding openDraft_def by (intro ord_fine.good_step)
qed

lemma observeDraft_good: "good fine (work_observeDraft d) c"
  unfolding work_observeDraft_def by (intro ord_fine.good_step openDraft_good) (simp_all add: fine_small)

section \<open>Calls of the store\<close>

lemma onObservation_fine: "fine c (snd (onObservation v c))"
  by (rule good_after_call, unfold onObservation_def, intro ord_fine.good_step)
    (auto intro!: fine_small split: option.split)

lemma storeCall_good: "\<forall>c. fine c (react c) \<Longrightarrow> good fine (storeCall react f) c"
  by (intro ord_fine.good_storeCall) (simp_all add: onObservation_fine fine_stored)

section \<open>Reconciliation\<close>

lemma same_data_True [res_simps]: "same_data a b = Inr True \<longleftrightarrow> wire_fits a \<and> wire_fits b \<and> data_eq a b"
  by (auto simp: same_data_def canonicalData_def capture_def res_simps encoded_eq_iff)

lemma same_buffers: "same_data (buffers_data ps) (buffers_data []) = Inr True \<longleftrightarrow> wire_fits (buffers_data ps) \<and> ps = []"
  by (auto simp: res_simps buffers_data_def wire_fits_iff MAX_WIRE_BYTES_def)

lemma conflict_good: "good fine (conflictW k) c"
  unfolding conflictW_def by (intro ord_fine.good_step) (simp add: fine_small)

lemma captureCurrentD:
  assumes "captureCurrent k c = Inr True"
  shows "retained k c" "k_generation k = w_generation c" "same_data (or_undefined (w_draft c)) (k_draft k) = Inr True"
    "same_data (JArr (w_edits c)) (JArr (k_edits k)) = Inr True"
    "same_data (buffers_data (w_inputs c)) (buffers_data (k_inputs k)) = Inr True"
    "hostEpochCurrent (host_of (k_draft k)) c"
  using assms by (simp_all add: captureCurrent_def andE_True)

lemma reconcileRead_good:
  assumes "captureCurrent k c = Inr True"
  shows "good fine (reconcileRead k emptied draft) c"
proof -
  have cur: "w_draft c \<noteq> None" "k_inputs k = [] \<Longrightarrow> w_inputs c = []"
    using captureCurrentD(1,5) [OF assms] by (auto simp: retained_def same_buffers split: option.splits)
  show ?thesis unfolding reconcileRead_def Let_def
    by (intro ord_fine.good_step conflict_good) (use cur in \<open>auto intro!: fine_small simp: adopted_def fine_defs\<close>)
qed

lemma finishDraftReconciliation_good:
  assumes "\<forall>c. fine c (react c)"
  shows "good fine (finishDraftReconciliation lim react k result) c"
  unfolding finishDraftReconciliation_def Let_def
  by (intro ord_fine.good_step conflict_good ord_fine.good_seq [OF storeCall_good [OF assms]])
    (simp_all add: negE_Inr reconcileRead_good)

section \<open>Staging and numeric inputs\<close>

lemma stage_good: "good fine (stage es) c"
  unfolding stage_def by (intro ord_fine.good_step) (auto simp: fine_defs)

lemma captureProtectedInput_draft: "captureProtectedInput i c = Inr (Some b) \<Longrightarrow> w_draft c \<noteq> None"
  by (auto simp: captureProtectedInput_def split: option.splits)

lemma stageProtectedInput_good: "good fine (stageProtectedInput b e) c"
  unfolding stageProtectedInput_def
  by (intro ord_fine.good_step) (auto simp: fine_defs dest!: captureProtectedInput_draft)

text \<open>A binding that matches is of the open draft, and of a public numeric field of its schema.\<close>

lemma capturePublicInputD:
  assumes "capturePublicInput i c = Inr (Some b)"
  obtains d where "w_draft c = Some d" "b_draft b = fld d ''draft''" "b_generation b = w_generation c"
    "b_field b \<in> set (arr_items (path d [''schema'', ''fields'']))" "strict_eq (fld (b_field b) ''fieldId'') i"
    "isS (fld (b_field b) ''sensitivity'') ''public''" "kind_in (fld (b_field b) ''valueType'') [''integer'', ''number'']"
proof -
  obtain d where d: "w_draft c = Some d" using assms by (auto simp: capturePublicInput_def split: option.splits)
  obtain f where f: "fields_of d i = [f]" using assms d
    by (auto simp: capturePublicInput_def split: if_splits list.splits)
  then have "f \<in> set (fields_of d i)" by simp
  then have mem: "f \<in> set (arr_items (path d [''schema'', ''fields'']))" "strict_eq (fld f ''fieldId'') i"
    by (auto simp: fields_of_def)
  have b: "b = \<lparr>b_draft = fld d ''draft'', b_field = f, b_generation = w_generation c\<rparr>"
    "isS (fld f ''sensitivity'') ''public''" "kind_in (fld f ''valueType'') [''integer'', ''number'']"
    using assms d f by (auto simp: capturePublicInput_def bindE_Inr split: if_splits)
  show thesis by (rule that [OF d]) (use mem b in simp_all)
qed

lemma matchesPublicInputD:
  assumes "matchesPublicInput b c = Inr True"
  obtains d f where "w_draft c = Some d" "w_reopen c = None" "b_generation b = w_generation c" "same_binding (fld d ''draft'') (b_draft b)"
    "f \<in> set (arr_items (path d [''schema'', ''fields'']))" "strict_eq (fld f ''fieldId'') (fld (b_field b) ''fieldId'')"
    "isS (fld f ''sensitivity'') ''public''" "kind_in (fld f ''valueType'') [''integer'', ''number'']" "data_eq f (b_field b)"
proof -
  obtain now where now: "capturePublicInput (fld (b_field b) ''fieldId'') c = Inr (Some now)"
    and same: "same_binding (b_draft now) (b_draft b)" "data_eq (b_field now) (b_field b)"
    and g: "w_reopen c = None" "b_generation b = w_generation c"
    using assms by (auto simp: matchesPublicInput_def res_simps split: if_splits option.splits)
  show thesis by (rule capturePublicInputD [OF now], rule that) (use same g in simp_all)
qed

lemma strict_eq_same: "strict_eq x y \<Longrightarrow> strict_eq y y"
  by (cases x) auto

lemma without_field_distinct:
  assumes "strict_eq x i" "distinct (map buffer_field ps)" "buffer_field p = i"
  shows "distinct (map buffer_field (without_field i ps @ [p]))"
proof -
  have "buffer_field q \<noteq> i" if "q \<in> set (without_field i ps)" for q
    using that strict_eq_same [OF assms(1)] by (auto simp: without_field_def)
  then show ?thesis using assms(2,3) by (force simp: without_field_def distinct_map_filter)
qed

lemma without_field_length: "length (without_field i ps) \<le> length ps"
  "find (\<lambda>p. strict_eq (buffer_field p) i) ps \<noteq> None \<Longrightarrow> length (without_field i ps) < length ps"
  by (auto simp: without_field_def find_None_iff intro: length_filter_less)

lemma without_field_ok: "list_all P ps \<Longrightarrow> list_all P (without_field i ps)"
  "distinct (map buffer_field ps) \<Longrightarrow> distinct (map buffer_field (without_field i ps))"
  by (auto simp: without_field_def list_all_iff distinct_map_filter)

lemma setPublicInput_fine:
  assumes m: "matchesPublicInput b c = Inr True" and len: "length txt \<le> maximumTextLength"
    and room: "\<not> (find (\<lambda>p. strict_eq (buffer_field p) (fld (b_field b) ''fieldId'')) (w_inputs c) = None \<and> length (w_inputs c) \<ge> maximumBuffers)"
  shows "fine c (c\<lparr>w_generation := Suc (w_generation c), w_inputs := without_field (fld (b_field b) ''fieldId'') (w_inputs c)
    @ [\<lparr>p_binding = b\<lparr>b_generation := Suc (w_generation c)\<rparr>, p_text = txt\<rparr>]\<rparr>)"
proof -
  let ?i = "fld (b_field b) ''fieldId''" and ?p = "\<lparr>p_binding = b\<lparr>b_generation := Suc (w_generation c)\<rparr>, p_text = txt\<rparr>"
  obtain d f where d: "w_draft c = Some d" and f: "strict_eq (fld f ''fieldId'') ?i" and ok: "buffer_ok d ?p"
    by (rule matchesPublicInputD [OF m]) (use len in \<open>fastforce simp: buffer_ok_def\<close>)
  have "length (without_field ?i (w_inputs c)) < maximumBuffers" if "length (w_inputs c) \<le> maximumBuffers"
    using room that without_field_length [of ?i "w_inputs c"] by fastforce
  moreover have "distinct (map buffer_field (without_field ?i (w_inputs c) @ [?p]))" if "distinct (map buffer_field (w_inputs c))"
    by (rule without_field_distinct [OF f that]) simp
  ultimately show ?thesis using d ok without_field_ok(1)
    by (auto simp: fine_def moves_def work_ok_def)
qed

lemma setPublicInput_good: "good fine (setPublicInput b t) c"
  unfolding setPublicInput_def Let_def
  by (intro ord_fine.good_step setPublicInput_fine) (simp_all add: negE_Inr)

lemma without_fine:
  assumes "matchesPublicInput b c = Inr True"
  shows "fine c (c\<lparr>w_inputs := without_field i (w_inputs c), w_generation := Suc (w_generation c)\<rparr>)"
    "fine c (c\<lparr>w_edits := es, w_inputs := without_field i (w_inputs c), w_generation := Suc (w_generation c)\<rparr>)"
proof -
  obtain d where d: "w_draft c = Some d" by (rule matchesPublicInputD [OF assms])
  have "length (without_field i (w_inputs c)) \<le> maximumBuffers" if "length (w_inputs c) \<le> maximumBuffers"
    using that without_field_length(1) [of i "w_inputs c"] by simp
  then show "fine c (c\<lparr>w_inputs := without_field i (w_inputs c), w_generation := Suc (w_generation c)\<rparr>)"
    "fine c (c\<lparr>w_edits := es, w_inputs := without_field i (w_inputs c), w_generation := Suc (w_generation c)\<rparr>)"
    using d without_field_ok by (auto simp: fine_def moves_def work_ok_def)
qed

lemma stagePublicInput_good: "good fine (stagePublicInput valid b t es) c"
  unfolding stagePublicInput_def Let_def
  by (intro ord_fine.good_step good_list without_fine) (auto simp: bindE_Inr)

lemma resetPublicInput_good: "good fine (resetPublicInput b t) c"
  unfolding resetPublicInput_def
  by (intro ord_fine.good_step without_fine) (auto simp: bindE_Inr)

section \<open>Reviews\<close>

lemma matchesReviewD:
  assumes "matchesReview r c = Inr True"
  shows "w_busy c" "w_review c = Some r" "w_draft c \<noteq> None" "r_generation r = w_generation c" "purposeMatches r c = Inr True"
    "same_data (r_draft r) (or_undefined (w_draft c)) = Inr True" "same_data (JArr (r_edits r)) (JArr (w_edits c)) = Inr True"
    "same_data (buffers_data (r_inputs r)) (buffers_data (w_inputs c)) = Inr True"
  using assms by (auto simp: matchesReview_def andE_True bindE_Inr)

lemma failedReview_good: "good fine (failedReview x) c"
  unfolding failedReview_def by (intro ord_fine.good_step) (auto simp: fine_defs)

lemma beginReview_good: "good fine (beginReview k f) c"
  unfolding beginReview_def Let_def
  by (intro ord_fine.good_step) (auto simp: fine_defs)

lemma abandonReview_good: "good fine (abandonReview r) c"
  unfolding abandonReview_def by (intro ord_fine.good_step failedReview_good)

lemma adoptAcknowledged_good:
  assumes "matchesReview r c = Inr True" "w_inputs c = []"
  shows "good fine (adoptAcknowledged r result) c"
  unfolding adoptAcknowledged_def Let_def
  by (intro ord_fine.good_step failedReview_good) (use matchesReviewD [OF assms(1)] assms(2) in \<open>auto simp: adopted_def fine_defs\<close>)

lemma finishDraftSynchronization_good: "good fine (finishDraftSynchronization r result) c"
  unfolding finishDraftSynchronization_def
  by (intro ord_fine.good_step failedReview_good adoptAcknowledged_good) (simp_all add: negE_Inr)

lemma completeReview_good: "w_draft c \<noteq> None \<Longrightarrow> good fine (completeReview r reason d) c"
  unfolding completeReview_def
  by (cases "r_purpose r") (auto simp: fine_defs intro!: applyNavigation_good ord_fine.good_commit)

lemma finishSave_good: "\<forall>c. fine c (react c) \<Longrightarrow> good fine (finishSave lim react r result) c"
  unfolding finishSave_def
  by (intro ord_fine.good_step failedReview_good completeReview_good ord_fine.good_seq [OF storeCall_good])
    (auto simp: negE_Inr dest: matchesReviewD)

lemma finishDiscard_good: "good fine (finishDiscard r result) c"
  unfolding finishDiscard_def
  by (intro ord_fine.good_step failedReview_good completeReview_good) (auto simp: negE_Inr dest: matchesReviewD)

section \<open>Reopening the baseline\<close>

lemma abandonBaselineReservation_good: "good fine (abandonBaselineReservation r) c"
  unfolding abandonBaselineReservation_def
  by (intro ord_fine.good_step) (auto simp: fine_defs)

lemma beginBaselineReopen_good: "good fine beginBaselineReopen c"
  unfolding beginBaselineReopen_def Let_def
  by (intro ord_fine.good_step) (auto simp: fine_defs)

lemma releaseToken_good: "good fine (releaseToken t) c"
  unfolding releaseToken_def by (intro ord_fine.good_step) (auto simp: fine_defs)

lemma finishBaselineReopen_good:
  "\<forall>c. fine c (react c) \<Longrightarrow> good fine (finishBaselineReopen lim react t result) c"
  unfolding finishBaselineReopen_def
  by (intro ord_fine.good_step releaseToken_good ord_fine.good_seq [OF storeCall_good])
    (auto simp: negE_Inr tokenHolds_def andE_True adopted_def orE_False fine_defs)

section \<open>A call\<close>

lemmas work_good = navigate_good bindTarget_good requestNavigation_good openDraft_good observeDraft_good stage_good
  stageProtectedInput_good setPublicInput_good stagePublicInput_good resetPublicInput_good beginReview_good abandonReview_good
  finishDraftSynchronization_good finishDiscard_good abandonBaselineReservation_good beginBaselineReopen_good

lemmas work_good_heard = finishDraftReconciliation_good finishSave_good finishBaselineReopen_good storeCall_good

lemma requestTarget_good: "good fine (requestTarget s f) c"
  unfolding requestTarget_def by (intro ord_fine.good_step requestNavigation_good)

lemma stay_good: "good fine stay c"
  unfolding stay_def by (intro ord_fine.good_step) (simp_all add: fine_small)

lemma work_step_fine: "\<forall>c. fine c (react c) \<Longrightarrow> fine c (work_step valid lim react k c)"
  by (cases k) (simp_all add: good_after_call work_good work_good_heard requestTarget_good stay_good requestClose_def)

text \<open>Listeners that make calls of their own, whose listeners in turn do, to any depth.\<close>

fun listeners :: "(jv \<Rightarrow> bool) \<Rightarrow> limits \<Rightarrow> nat \<Rightarrow> (ctx \<Rightarrow> work_call list) \<Rightarrow> ctx \<Rightarrow> ctx" where
  "listeners valid lim 0 answer c = c"
| "listeners valid lim (Suc n) answer c = fold (work_step valid lim (listeners valid lim n answer)) (answer c) c"

lemma work_steps_fine: "\<forall>c. fine c (react c) \<Longrightarrow> fine c (fold (work_step valid lim react) ks c)"
proof (induction ks arbitrary: c)
  case (Cons k ks)
  then show ?case using fine_trans [OF work_step_fine [of react c valid lim k]] by simp
qed simp

lemma listeners_fine: "fine c (listeners valid lim n answer c)"
  by (induction n arbitrary: c) (simp_all add: work_steps_fine)

end
