(* ===== verification/Work_Claims.thy ===== *)
theory Work_Claims imports Work_Changes Machines begin

text \<open>
  The properties of the work context: what its numeric inputs belong to, what a generation stands
  for, and by which calls unsaved work goes.
\<close>

section \<open>Which calls close a draft\<close>

text \<open>The open draft stays open, unless \<open>P\<close>.\<close>

definition stays_open :: "bool \<Rightarrow> ctx \<Rightarrow> ctx \<Rightarrow> bool" where
  "stays_open P c c' \<longleftrightarrow> (w_draft c \<noteq> None \<longrightarrow> w_draft c' = None \<longrightarrow> P)"

lemma stays_open_eq: "w_draft c' = w_draft c \<Longrightarrow> stays_open P c c'"
  by (auto simp: stays_open_def)

interpretation ord_open: kept_order "stays_open P" for P
  by unfold_locales (auto simp: stays_open_def)

lemmas open_step = ord_open.good_step

lemma onObservation_open: "stays_open P c (snd (onObservation v c))"
  by (rule good_after_call, unfold onObservation_def, intro open_step)
    (auto intro!: stays_open_eq split: option.split)

lemma storeCall_open: "(\<And>c. stays_open P c (react c)) \<Longrightarrow> good (stays_open P) (storeCall react f) c"
  by (intro ord_open.good_storeCall onObservation_open) (auto simp: stays_open_def)

lemma requestNavigation_open: "dirty c \<noteq> Inr False \<Longrightarrow> good (stays_open P) (requestNavigation s f) c"
proof -
  have shown: "dirty (c\<lparr>w_fresh := x, w_focus := y\<rparr>) = dirty c" for x y by (simp add: dirty_def split: option.split)
  then show "good (stays_open P) (requestNavigation s f) c" if "dirty c \<noteq> Inr False"
    unfolding requestNavigation_def Let_def by (intro open_step) (use that in \<open>auto simp: stays_open_def\<close>)
qed

lemma openDraft_open: "good (stays_open P) (openDraft d) c"
  unfolding openDraft_def by (intro open_step) (auto simp: stays_open_def adopted_def)

lemma conflict_open: "good (stays_open P) (conflictW k) c"
  unfolding conflictW_def by (intro open_step) (auto simp: stays_open_def)

lemma reconcile_open:
  assumes "\<And>c. stays_open P c (react c)"
  shows "good (stays_open P) (finishDraftReconciliation lim react k result) c"
  unfolding finishDraftReconciliation_def reconcileRead_def Let_def
  by (intro open_step conflict_open ord_open.good_seq [OF storeCall_open [OF assms]]) (auto simp: stays_open_def adopted_def)

lemma failed_open: "good (stays_open P) (failedReview x) c"
  unfolding failedReview_def by (intro open_step) (auto simp: stays_open_def)

lemma synchronize_open: "good (stays_open P) (finishDraftSynchronization r result) c"
  unfolding finishDraftSynchronization_def adoptAcknowledged_def Let_def
  by (intro open_step failed_open) (auto simp: stays_open_def adopted_def)

text \<open>The two calls that do close it, and what has been checked when they do.\<close>

lemma save_open:
  assumes "\<And>c. stays_open P c (react c)"
    and "\<And>operation m. matchesReview r c = Inr True \<Longrightarrow> result = Returned operation m \<Longrightarrow> saveMatches r operation = Inr True \<Longrightarrow> P"
  shows "good (stays_open P) (finishSave lim react r result) c"
proof -
  have closes: "good (stays_open P) (completeReview r After_Save d) c'" if P for d c'
    using that by (simp add: good_def stays_open_def wp_after)
  show ?thesis unfolding finishSave_def
    by (intro open_step failed_open ord_open.good_seq [OF storeCall_open [OF assms(1)]] closes)
      (rule assms(2); simp add: negE_Inr)+
qed

lemma discard_open:
  assumes "\<And>answer m. matchesReview r c = Inr True \<Longrightarrow> result = Returned answer m
    \<Longrightarrow> strict_eq (fld answer ''draftId'') (path (r_draft r) [''draft'', ''draftId''])
    \<Longrightarrow> strict_eq (fld answer ''hostEpoch'') (host_of (r_draft r))
    \<Longrightarrow> strict_eq (fld answer ''previousRevision'') (path (r_draft r) [''draft'', ''revision'']) \<Longrightarrow> P"
  shows "good (stays_open P) (finishDiscard r result) c"
proof -
  have closes: "good (stays_open P) (completeReview r After_Discard d) c'" if P for d c'
    using that by (simp add: good_def stays_open_def wp_after)
  show ?thesis unfolding finishDiscard_def
    by (intro open_step failed_open closes) (rule assms; auto simp: negE_Inr)
qed

text \<open>The calls that accept the save or the discard of the open draft.\<close>

definition accepts_close :: "work_call \<Rightarrow> ctx \<Rightarrow> bool" where
  "accepts_close k c = (case k of
       FinishSave r (Returned operation _) \<Rightarrow> matchesReview r c = Inr True \<and> saveMatches r operation = Inr True
     | FinishDiscard r (Returned answer _) \<Rightarrow> matchesReview r c = Inr True
         \<and> strict_eq (fld answer ''draftId'') (path (r_draft r) [''draft'', ''draftId''])
         \<and> strict_eq (fld answer ''hostEpoch'') (host_of (r_draft r))
         \<and> strict_eq (fld answer ''previousRevision'') (path (r_draft r) [''draft'', ''revision''])
     | _ \<Rightarrow> False)"

lemma simple_calls_open:
  "good (stays_open P) (navigate v f) c" "good (stays_open P) (bindTarget b) c" "good (stays_open P) stay c"
  "good (stays_open P) (work_observeDraft d) c" "good (stays_open P) (stage es) c" "good (stays_open P) (stageProtectedInput i e) c"
  "good (stays_open P) (setPublicInput i t) c" "good (stays_open P) (stagePublicInput valid i t es) c"
  "good (stays_open P) (resetPublicInput i t) c" "good (stays_open P) (beginReview k f) c" "good (stays_open P) (abandonReview r) c"
  "good (stays_open P) (abandonBaselineReservation r) c" "good (stays_open P) beginBaselineReopen c"
  subgoal unfolding navigate_def by (intro open_step) (auto simp: stays_open_def)
  subgoal unfolding bindTarget_def by (intro open_step) (auto simp: stays_open_def)
  subgoal unfolding stay_def by (intro open_step) (auto simp: stays_open_def)
  subgoal unfolding work_observeDraft_def by (intro open_step openDraft_open) (auto simp: stays_open_def)
  subgoal unfolding stage_def by (intro open_step) (auto simp: stays_open_def)
  subgoal unfolding stageProtectedInput_def by (intro open_step) (auto simp: stays_open_def)
  subgoal unfolding setPublicInput_def Let_def by (intro open_step) (auto simp: stays_open_def)
  subgoal unfolding stagePublicInput_def Let_def by (intro open_step good_list) (auto simp: stays_open_def)
  subgoal unfolding resetPublicInput_def by (intro open_step) (auto simp: stays_open_def)
  subgoal unfolding beginReview_def Let_def by (intro open_step) (auto simp: stays_open_def)
  subgoal unfolding abandonReview_def by (intro open_step failed_open)
  subgoal unfolding abandonBaselineReservation_def by (intro open_step) (auto simp: stays_open_def)
  subgoal unfolding beginBaselineReopen_def Let_def by (intro open_step) (auto simp: stays_open_def)
  done

lemma reopen_open:
  assumes "\<And>c. stays_open P c (react c)"
  shows "good (stays_open P) (finishBaselineReopen lim react t result) c"
  unfolding finishBaselineReopen_def releaseToken_def
  by (intro open_step ord_open.good_seq [OF storeCall_open [OF assms]]) (auto simp: stays_open_def adopted_def)

lemma open_after_call: "good (stays_open P) m c \<Longrightarrow> stays_open P c (snd (m c))"
  by (rule good_after_call)

lemma requestTarget_open: "dirty c \<noteq> Inr False \<Longrightarrow> good (stays_open P) (requestTarget s f) c"
  unfolding requestTarget_def by (intro open_step requestNavigation_open)

lemma work_step_open:
  assumes "dirty c \<noteq> Inr False" "\<And>c'. w_draft c' \<noteq> None \<Longrightarrow> w_draft (react c') \<noteq> None"
  shows "stays_open (accepts_close k c) c (work_step valid lim react k c)"
proof -
  have r: "stays_open P c' (react c')" for P and c' :: ctx using assms(2) [of c'] by (auto simp: stays_open_def)
  note lemmas_open = simple_calls_open openDraft_open reconcile_open [OF r] synchronize_open reopen_open [OF r] storeCall_open [OF r]
    requestNavigation_open [OF assms(1)] requestTarget_open [OF assms(1)]
  show ?thesis
  proof (cases k)
    case (FinishSave q result)
    then have "good (stays_open (accepts_close k c)) (finishSave lim react q result) c"
      by (intro save_open r) (simp add: accepts_close_def)
    then show ?thesis using FinishSave good_after_call by fastforce
  next
    case (FinishDiscard q result)
    then have "good (stays_open (accepts_close k c)) (finishDiscard q result) c"
      by (intro discard_open) (simp add: accepts_close_def)
    then show ?thesis using FinishDiscard good_after_call by fastforce
  qed (simp_all add: open_after_call lemmas_open requestClose_def)
qed

section \<open>Properties\<close>

abbreviation work_calls :: "(jv \<Rightarrow> bool) \<Rightarrow> limits \<Rightarrow> nat \<Rightarrow> (ctx \<Rightarrow> work_call list) \<Rightarrow> work_call list \<Rightarrow> ctx \<Rightarrow> ctx" where
  "work_calls valid lim n answer ks c \<equiv> fold (work_step valid lim (listeners valid lim n answer)) ks c"

interpretation working: monotone_machine "\<lambda>c k c'. c' = work_step valid lim (listeners valid lim n answer) k c" work_ok moves
  for valid lim n answer
proof unfold_locales
  fix c k c'
  assume "c' = work_step valid lim (listeners valid lim n answer) k c"
  moreover have "fine c (work_step valid lim (listeners valid lim n answer) k c)"
    by (rule work_step_fine) (simp add: listeners_fine)
  ultimately show "work_ok c \<Longrightarrow> work_ok c'" "work_ok c \<Longrightarrow> moves c c'" by (simp_all add: fine_def)
qed (blast intro: moves_refl moves_trans)+

lemma initial_ok: "work_ok initial_ctx"
proof -
  have "work_ok fresh_ctx" by (simp add: work_ok_def fresh_ctx_def)
  then show ?thesis using onObservation_fine by (simp add: initial_ctx_def fine_def)
qed

text \<open>
  C21: Whatever calls are made on a fresh work context, with listeners that call back to any depth, it keeps
  at most 64 numeric inputs of at most 128 characters, no two for one field, each belonging to
  the draft that is open and to a public numeric field of its schema: the text a user typed is never
  carried into another draft and no protected field's text is kept.
\<close>

theorem inputs_of_the_open_draft:
  "let c = work_calls valid lim n answer ks initial_ctx in
    length (w_inputs c) \<le> 64 \<and> distinct (map buffer_field (w_inputs c))
    \<and> list_all (\<lambda>p. length (p_text p) \<le> 128 \<and> (case w_draft c of None \<Rightarrow> False | Some d \<Rightarrow>
        same_binding (fld d ''draft'') (b_draft (p_binding p))
        \<and> list_ex (\<lambda>f. data_eq f (b_field (p_binding p)) \<and> isS (fld f ''sensitivity'') ''public''
             \<and> kind_in (fld f ''valueType'') [''integer'', ''number'']) (arr_items (path d [''schema'', ''fields''])))) (w_inputs c)"
proof -
  define c where "c = work_calls valid lim n answer ks initial_ctx"
  have ok: "work_ok c"
    using working.run_inv [of valid lim n answer initial_ctx ks c] initial_ok by (simp add: run_fold c_def)
  show ?thesis unfolding c_def [symmetric] Let_def
  proof (cases "w_draft c")
    case None
    then show "length (w_inputs c) \<le> 64 \<and> distinct (map buffer_field (w_inputs c)) \<and> list_all (\<lambda>p. length (p_text p) \<le> 128
        \<and> (case w_draft c of None \<Rightarrow> False | Some d \<Rightarrow> same_binding (fld d ''draft'') (b_draft (p_binding p))
        \<and> list_ex (\<lambda>f. data_eq f (b_field (p_binding p)) \<and> isS (fld f ''sensitivity'') ''public''
             \<and> kind_in (fld f ''valueType'') [''integer'', ''number'']) (arr_items (path d [''schema'', ''fields''])))) (w_inputs c)"
      using ok by (simp add: work_ok_def)
  next
    case (Some d)
    then have "list_all (buffer_ok d) (w_inputs c)" using ok by (simp add: work_ok_def)
    then show "length (w_inputs c) \<le> 64 \<and> distinct (map buffer_field (w_inputs c)) \<and> list_all (\<lambda>p. length (p_text p) \<le> 128
        \<and> (case w_draft c of None \<Rightarrow> False | Some d \<Rightarrow> same_binding (fld d ''draft'') (b_draft (p_binding p))
        \<and> list_ex (\<lambda>f. data_eq f (b_field (p_binding p)) \<and> isS (fld f ''sensitivity'') ''public''
             \<and> kind_in (fld f ''valueType'') [''integer'', ''number'']) (arr_items (path d [''schema'', ''fields''])))) (w_inputs c)"
      using ok Some by (auto simp: work_ok_def maximumBuffers_def buffer_ok_def maximumTextLength_def list_all_iff list_ex_iff)
  qed
qed

text \<open>
  C22: A generation number stands for one draft with one set of staged edits and numeric inputs: over
  any calls, with listeners that call back to any depth, the generation never falls, and as long as it is the same so
  are the draft, its edits, its inputs and the baseline that waits to be reopened. What a review, an
  input or a token captured under the current generation is therefore still what is there.
\<close>

theorem generation_fixes_the_draft:
  assumes "c' = work_calls valid lim n answer ks c"
  shows "w_generation c \<le> w_generation c' \<and> (w_generation c' = w_generation c \<longrightarrow>
      w_draft c' = w_draft c \<and> w_edits c' = w_edits c \<and> w_inputs c' = w_inputs c \<and> w_reopen c' = w_reopen c)"
proof -
  have "fine c c'" unfolding assms by (rule work_steps_fine) (simp add: listeners_fine)
  then show ?thesis by (simp add: fine_def moves_def)
qed


section \<open>A draft that is reviewed and discarded\<close>

definition open_draft :: jv where
  "open_draft = JObj [(U ''draft'', JObj [(U ''hostEpoch'', S ''h''), (U ''draftId'', S ''d''), (U ''revision'', S ''1'')]),
     (U ''state'', S ''dirty''), (U ''edits'', JArr [])]"

definition leaving :: navigation where
  "leaving = \<lparr>nav_id = 0, nav_selector = None\<rparr>"

definition leaving_review :: review where
  "leaving_review = \<lparr>r_id = 1, r_purpose = For_Navigation leaving, r_focus = None, r_draft = open_draft, r_edits = [],
     r_generation = 0, r_inputs = []\<rparr>"

definition reviewed :: ctx where
  "reviewed = fresh_ctx\<lparr>w_draft := Some open_draft, w_navigation := Some leaving, w_busy := True, w_review := Some leaving_review, w_fresh := 2\<rparr>"

definition discarded :: "jv outcome" where
  "discarded = Returned (JObj [(U ''hostEpoch'', S ''h''), (U ''draftId'', S ''d''), (U ''previousRevision'', S ''1'')])
     \<lparr>m_requestId = S ''r'', m_kind = Command, m_method = U ''discard_draft''\<rparr>"

lemma open_draft_fits: "wire_fits open_draft" "wire_fits (JArr [])"
  by (rule small_fits; simp add: open_draft_def small_eval)+

lemma same_data_refl: "wire_fits v \<Longrightarrow> same_data v v = Inr True"
  by (simp add: same_data_True)

lemma reviewed_matches: "matchesReview leaving_review reviewed = Inr True"
  using open_draft_fits
  by (simp add: matchesReview_def purposeMatches_def leaving_review_def reviewed_def fresh_ctx_def same_data_refl buffers_data_def)

lemma reviewed_dirty: "dirty reviewed = Inr True"
  by (simp add: dirty_def reviewed_def fresh_ctx_def open_draft_def obj_lookup_def U_def isS_def)

lemma reviewed_closes: "w_draft (work_step (\<lambda>_. True) lim id (FinishDiscard leaving_review discarded) reviewed) = None"
proof -
  have "hostEpochCurrent (host_of (r_draft leaving_review)) reviewed"
    by (simp add: hostEpochCurrent_def reviewed_def fresh_ctx_def empty_store_def)
  then have closing: "snd (finishDiscard leaving_review discarded reviewed) = snd (applyNavigation leaving reviewed)"
    using reviewed_matches
    by (simp add: finishDiscard_def unlessS_def seq_def ask_def withS_def discarded_def leaving_review_def open_draft_def
      obj_lookup_def U_def completeReview_def)
  have "w_draft (snd (applyNavigation leaving reviewed)) = None"
    by (simp add: applyNavigation_def commit_def seq_def upd_def publishW_def ask_def ret_def applied_def leaving_def
      split: sum.split)
  then show ?thesis by (simp only: work_step.simps closing)
qed

definition store_limits :: limits where
  "store_limits = \<lparr>maximumRecentEvents = 2, maximumBufferedEvents = 2, maximumOperations = 2, maximumDrafts = 1\<rparr>"


theorem generation_fixes_the_draft_witness:
  "w_draft (work_calls (\<lambda>_. True) store_limits 1 (\<lambda>_. [Stay]) [Navigate Settings None] reviewed) = Some open_draft"
proof -
  have "w_generation (work_calls (\<lambda>_. True) store_limits 1 (\<lambda>_. [Stay]) [Navigate Settings None] reviewed) = w_generation reviewed"
    by (simp add: navigate_def seq_def upd_def publishW_def ask_def split: sum.split)
  from generation_fixes_the_draft [OF refl, THEN conjunct2, rule_format, OF this] show ?thesis by (simp add: reviewed_def)
qed

end
