(* ===== verification/Decimal_Exact.thy ===== *)
theory Decimal_Exact imports Complex_Main Decimal begin

text \<open>
  The number a decimal string stands for, and that the comparison of \<^verbatim>\<open>Decimal\<close> orders strings by it.
\<close>

section \<open>The number of a decimal string\<close>

fun fraction_value :: "ustr \<Rightarrow> rat" where
  "fraction_value [] = 0"
| "fraction_value (d # ds) = (of_nat d - 48 + fraction_value ds) / 10"

text \<open>A sign, the digits before the point and the digits after it.\<close>

definition decimal_text :: "bool \<Rightarrow> ustr \<Rightarrow> ustr \<Rightarrow> ustr" where
  "decimal_text negative whole fraction =
     (if negative then [45] else []) @ whole @ (if fraction = [] then [] else 46 # fraction)"

definition decimal_value :: "bool \<Rightarrow> ustr \<Rightarrow> ustr \<Rightarrow> rat" where
  "decimal_value negative whole fraction =
     (if negative then - 1 else 1) * (of_int (digits_value whole) + fraction_value fraction)"

definition decimal_syntax :: "ustr \<Rightarrow> ustr \<Rightarrow> bool" where
  "decimal_syntax whole fraction \<longleftrightarrow> whole \<noteq> [] \<and> length whole \<le> 32 \<and> length fraction \<le> 32
     \<and> list_all digit whole \<and> list_all digit fraction"

lemma digits_value_Cons_acc: "fold (\<lambda>d n. 10 * n + (int d - 48)) ds a = a * 10 ^ length ds + digits_value ds"
proof (induction ds rule: rev_induct)
  case (snoc d ds)
  then show ?case by (simp add: digits_value_def algebra_simps)
qed (simp add: digits_value_def)

lemma digits_value_append: "digits_value (xs @ ys) = digits_value xs * 10 ^ length ys + digits_value ys"
  using digits_value_Cons_acc [of ys "digits_value xs"] by (simp add: digits_value_def)

lemma fraction_digits: "fraction_value ds = of_int (digits_value ds) / 10 ^ length ds"
proof (induction ds)
  case (Cons d ds)
  have "digits_value (d # ds) = (int d - 48) * 10 ^ length ds + digits_value ds"
    using digits_value_append [of "[d]" ds] by (simp add: digits_value_def)
  then have "(of_int (digits_value (d # ds)) :: rat) = (of_nat d - 48) * 10 ^ length ds + of_int (digits_value ds)" by simp
  with Cons show ?case by (simp add: field_simps)
qed (simp add: digits_value_def)

lemma radix_ten: "list_all digit ds \<Longrightarrow> radix_value 10 n ds = Some (fold (\<lambda>d n. 10 * n + (int d - 48)) ds n)"
  by (induction ds arbitrary: n) (auto simp: radix_digit_def digit_def Let_def of_nat_diff)

lemma digitsE_ten: "list_all digit ds \<Longrightarrow> ds \<noteq> [] \<Longrightarrow> digitsE 10 ds = Inr (digits_value ds)"
  by (simp add: digitsE_def radix_ten digits_value_def)

lemma trim_plain: "list_all (\<lambda>c. \<not> js_space c) s \<Longrightarrow> js_trim s = s"
proof -
  assume a: "list_all (\<lambda>c. \<not> js_space c) s"
  then have "dropWhile js_space s = s" by (cases s) auto
  moreover have "dropWhile js_space (rev s) = rev s"
    using a by (cases s rule: rev_cases) auto
  ultimately show ?thesis by (simp add: js_trim_def)
qed

lemma digit_not_space: "digit c \<Longrightarrow> \<not> js_space c"
  by (auto simp: digit_def js_space_def)

lemma big_int_digits:
  assumes "list_all digit ds" "ds \<noteq> []"
  shows "big_int ds = Inr (digits_value ds)" "big_int (45 # ds) = Inr (- digits_value ds)"
proof -
  have plain: "js_trim ds = ds" "js_trim (45 # ds) = 45 # ds"
    using assms(1) digit_not_space by (auto intro!: trim_plain simp: list_all_iff js_space_def)
  obtain c cs where ds: "ds = c # cs" using assms(2) by (cases ds) auto
  have c: "digit c" and cs: "cs = [] \<or> digit (hd cs)" using assms(1) ds by (cases cs; auto)+
  have dec: "digitsE 10 ds = Inr (digits_value ds)" using digitsE_ten assms by simp
  show "big_int (45 # ds) = Inr (- digits_value ds)" unfolding big_int_def plain by (simp add: dec)
  show "big_int ds = Inr (digits_value ds)"
    unfolding big_int_def plain unfolding ds using c cs dec [unfolded ds] by (auto simp: digit_def)
qed

lemma split_none: "46 \<notin> set s \<Longrightarrow> split_on 46 s = [s]"
  by (induction s) auto

lemma split_one: "46 \<notin> set s \<Longrightarrow> split_on 46 (s @ 46 # t) = s # split_on 46 t"
  by (induction s) auto

lemma digits_no_point: "list_all digit s \<Longrightarrow> 46 \<notin> set s"
  by (auto simp: list_all_iff digit_def)

lemma numeric_parts_decimal:
  assumes "decimal_syntax whole fraction"
  shows "numeric_parts (decimal_text negative whole fraction)
    = Inr ((if negative then - 1 else 1) * digits_value (whole @ fraction), length fraction)"
proof -
  let ?u = "whole @ (if fraction = [] then [] else 46 # fraction)"
  have w: "46 \<notin> set whole" "46 \<notin> set fraction" and ne: "whole \<noteq> []" and hd: "hd whole \<noteq> 45"
    using assms digits_no_point by (cases whole; auto simp: decimal_syntax_def digit_def)+
  have un: "split_on 46 ?u = whole # (if fraction = [] then [] else [fraction])"
    using w by (simp add: split_none split_one)
  have all: "list_all digit (whole @ fraction)" "whole @ fraction \<noteq> []" using assms by (auto simp: decimal_syntax_def)
  have sign: "?u \<noteq> []" "hd ?u \<noteq> 45" using ne hd by auto
  show ?thesis
    using assms sign big_int_digits [OF all] un
    by (cases negative) (auto simp: numeric_parts_def decimal_text_def decimal_syntax_def Let_def)
qed

lemma decimal_value_scaled:
  "decimal_value negative whole fraction * 10 ^ length fraction
    = of_int ((if negative then - 1 else 1) * digits_value (whole @ fraction))"
  by (simp add: decimal_value_def fraction_digits digits_value_append field_simps)

text \<open>
  C23: Of two decimal strings with at most 32 digits on either side of the point, the comparison that
  bounds a numeric input returns -1, 0 or 1 exactly as their values are ordered, as rational
  numbers; it does not fail, and trailing zeros or a different number of digits do not matter.
\<close>

theorem compareNumeric_exact:
  assumes "decimal_syntax wl fl" "decimal_syntax wr fr"
  shows "compareNumeric (decimal_text nl wl fl) (decimal_text nr wr fr)
    = Inr (if decimal_value nl wl fl < decimal_value nr wr fr then -1
           else if decimal_value nl wl fl > decimal_value nr wr fr then 1 else 0)"
proof -
  let ?a = "(if nl then - 1 else 1) * digits_value (wl @ fl)" and ?b = "(if nr then - 1 else 1) * digits_value (wr @ fr)"
  let ?m = "max (length fl) (length fr)"
  let ?x = "?a * 10 ^ (?m - length fl)" and ?y = "?b * 10 ^ (?m - length fr)"
  have scaled: "of_int (c * 10 ^ (?m - length f)) = v * 10 ^ ?m"
    if "v * 10 ^ length f = (of_int c :: rat)" "length f \<le> ?m" for v f and c :: int
  proof -
    have "(10 :: rat) ^ ?m = 10 ^ length f * 10 ^ (?m - length f)"
      using that(2) by (metis le_add_diff_inverse power_add)
    with that(1) show ?thesis by (simp add: mult.assoc [symmetric])
  qed
  have x: "(of_int ?x :: rat) = decimal_value nl wl fl * 10 ^ ?m"
    by (rule scaled) (simp_all only: decimal_value_scaled max.cobounded1)
  have y: "(of_int ?y :: rat) = decimal_value nr wr fr * 10 ^ ?m"
    by (rule scaled) (simp_all only: decimal_value_scaled max.cobounded2)
  have less: "?x < ?y \<longleftrightarrow> decimal_value nl wl fl < decimal_value nr wr fr"
    using x y by (metis mult_less_cancel_right_pos of_int_less_iff zero_less_numeral zero_less_power)
  have greater: "?y < ?x \<longleftrightarrow> decimal_value nr wr fr < decimal_value nl wl fl"
    using x y by (metis mult_less_cancel_right_pos of_int_less_iff zero_less_numeral zero_less_power)
  show ?thesis
    using less greater unfolding compareNumeric_def numeric_parts_decimal [OF assms(1)] numeric_parts_decimal [OF assms(2)]
    by (simp add: Let_def)
qed

theorem compareNumeric_exact_witness:
  "compareNumeric (U ''-1.50'') (U ''2'') = Inr (- 1)"
proof -
  have "decimal_value True (U ''1'') (U ''50'') < decimal_value False (U ''2'') []"
    by (simp add: decimal_value_def U_def digits_value_def)
  moreover have "decimal_text True (U ''1'') (U ''50'') = U ''-1.50''" "decimal_text False (U ''2'') [] = U ''2''"
    by (simp_all add: decimal_text_def U_def)
  ultimately show ?thesis
    using compareNumeric_exact [of "U ''1''" "U ''50''" "U ''2''" "[]" True False]
    by (simp add: decimal_syntax_def U_def digit_def)
qed

end
