(* ===== verification/Bridge_Client.thy ===== *)
theory Bridge_Client imports Client_Drafts Client_Outcome begin

text \<open>
  The typed client of the bridge, \<^verbatim>\<open>BridgeClient\<close> of \<^verbatim>\<open>ui/src/client/client.ts\<close>: calls that
  are pending until a reply, a fault, the caller's abort, a timer or the client's disposal settles them, the custody of
  commits that can be replayed, and subscriptions.

  A call runs in pieces: up to the clock, from the clock to the transport, from the transport
  to the reply, and once more after a digest is computed. Each piece is one step, and every other step
  may come in between, so a clock or a transport that calls back at once is an order of steps too. A
  call, its capture and its promise have one number, the order in which calls were made; the identity
  of a capture is that number. The clock, the transport, the request numbers, the two schemas and SHA-256
  are not under the model: what they return is an argument.
\<close>

section \<open>Options and faults\<close>

record options =
  op_timeout :: int
  maximumPending :: nat
  maximumReplays :: nat
  maximumRecentIds :: nat
  maximumSubscriptions :: nat

definition client_bounded :: "int \<Rightarrow> int \<Rightarrow> nat res" where
  "client_bounded n upper = (if n < 1 \<or> n > upper then Inl (RangeError ''client_limit'') else Inr (nat n))"

definition client_options :: "int option \<Rightarrow> int option \<Rightarrow> int option \<Rightarrow> int option \<Rightarrow> int option \<Rightarrow> options res" where
  "client_options timeout pending replays recent subscriptions =
     (let or_default = (\<lambda>v d. case v of None \<Rightarrow> d | Some n \<Rightarrow> n) in
      bindE (client_bounded (or_default timeout 30000) 3600000) (\<lambda>t.
      bindE (client_bounded (or_default pending 64) 1024) (\<lambda>p.
      bindE (client_bounded (or_default replays 64) 1024) (\<lambda>r.
      bindE (client_bounded (or_default recent 1024) 65536) (\<lambda>i.
      bindE (client_bounded (or_default subscriptions 16) 1024) (\<lambda>s.
        Inr \<lparr>op_timeout = int t, maximumPending = p, maximumReplays = r, maximumRecentIds = i, maximumSubscriptions = s\<rparr>))))))"

text \<open>
  What is thrown at the client: the own properties of an object, or anything else. The
  fault is read from data properties only.
\<close>

type_synonym thrown = "(ustr \<times> descriptor) list option"

definition data_value :: "(ustr \<times> descriptor) list \<Rightarrow> string \<Rightarrow> fv" where
  "data_value props k = (case map_of props (U k) of Some (DataProperty v _) \<Rightarrow> v | _ \<Rightarrow> FUndef)"

definition transport_code :: "fv \<Rightarrow> fault_code option" where
  "transport_code v = (if v = FStr (U ''unavailable_binding'') then Some Unavailable_Binding
     else if v = FStr (U ''disconnected'') then Some Disconnected
     else if v = FStr (U ''delivery_failed'') then Some Delivery_Failed else None)"

definition transport_delivery :: "fv \<Rightarrow> delivery option" where
  "transport_delivery v = (if v = FStr (U ''not_sent'') then Some Not_Sent
     else if v = FStr (U ''may_have_reached_backend'') then Some May_Have_Reached_Backend else None)"

definition transportFault :: "thrown \<Rightarrow> fault_code \<times> delivery" where
  "transportFault value = (case value of
       None \<Rightarrow> (Delivery_Failed, May_Have_Reached_Backend)
     | Some props \<Rightarrow>
         (case (transport_code (data_value props ''code''), transport_delivery (data_value props ''delivery'')) of
            (Some code, Some dlv) \<Rightarrow> (code, dlv)
          | _ \<Rightarrow> (Delivery_Failed, May_Have_Reached_Backend)))"

text \<open>\<^verbatim>\<open>error instanceof ClientBoundaryError ? error.code : other\<close>.\<close>

definition boundary_code :: "fault_code \<Rightarrow> exn \<Rightarrow> fault_code" where
  "boundary_code other e = (case e of
       ClientBoundaryError c \<Rightarrow>
         if c = ''framing'' then Framing else if c = ''schema'' then Schema
         else if c = ''incompatible_envelope'' then Incompatible_Envelope else Invalid_Capture
     | _ \<Rightarrow> other)"

definition mk_fault :: "fault_code \<Rightarrow> delivery \<Rightarrow> metadata option \<Rightarrow> jv outcome" where
  "mk_fault code dlv m = Faulted \<lparr>f_code = code, f_delivery = dlv, f_request = m\<rparr>"

text \<open>The transport of an unbound composition rejects every exchange with this value and never sends.\<close>

definition UnavailableTransport :: thrown where
  "UnavailableTransport = Some [(U ''code'', DataProperty (FStr (U ''unavailable_binding'')) True),
     (U ''delivery'', DataProperty (FStr (U ''not_sent'')) True)]"

section \<open>The state\<close>

record replay =
  rp_input :: jv
  rp_request :: nat
  rp_operationId :: "jv option"

record submission =
  sb_latest :: nat
  sb_delivery :: "delivery option"

text \<open>Where the code of a call stands; a digest waits with what it is compared with and the result.\<close>

datatype stage = Scheduling | Exchanging | Awaiting | Digesting "ustr res" jv jv | Ended

record exchange =
  x_request :: jv
  x_metadata :: metadata
  x_owner :: "nat option"
  x_key :: "jv option"
  x_settled :: bool
  x_sent :: bool
  x_aborted :: bool
  x_stage :: stage

record subscription =
  s_active :: bool
  s_settingUp :: bool
  s_released :: bool

record client =
  c_pending :: "(jv \<times> nat) list"
  c_recent :: "jv list"
  c_replays :: "(jv \<times> replay) list"
  c_submissions :: "(nat \<times> submission) list"
  c_subscriptions :: "nat list"
  c_disposed :: bool
  c_next :: nat
  c_calls :: "(nat \<times> exchange) list"
  c_subs :: "(nat \<times> subscription) list"
  c_outcomes :: "(nat \<times> jv outcome) list"
  c_events :: "(nat \<times> jv) list"
  c_faults :: "(nat \<times> fault_code \<times> delivery) list"

definition new_client :: client where
  "new_client = \<lparr>c_pending = [], c_recent = [], c_replays = [], c_submissions = [], c_subscriptions = [], c_disposed = False,
     c_next = 0, c_calls = [], c_subs = [], c_outcomes = [], c_events = [], c_faults = []\<rparr>"

definition call_of :: "client \<Rightarrow> nat \<Rightarrow> exchange option" where
  "call_of c n = map_of (c_calls c) n"

definition set_call :: "nat \<Rightarrow> exchange \<Rightarrow> client \<Rightarrow> client" where
  "set_call n x c = c\<lparr>c_calls := AList.update n x (c_calls c)\<rparr>"

definition pendingCount :: "client \<Rightarrow> nat" where
  "pendingCount c = length (c_pending c)"

definition replayCount :: "client \<Rightarrow> nat" where
  "replayCount c = length (c_replays c)"

section \<open>Settling a call\<close>

definition outcome_delivery :: "jv outcome \<Rightarrow> delivery" where
  "outcome_delivery r = (case r of Faulted f \<Rightarrow> f_delivery f | _ \<Rightarrow> May_Have_Reached_Backend)"

text \<open>The custody of the submission, when it is still the latest of a replay that is still kept.\<close>

definition custody :: "nat \<Rightarrow> exchange \<Rightarrow> jv outcome \<Rightarrow> client \<Rightarrow> client" where
  "custody n x r c = (case (x_owner x, x_key x) of
       (Some owner, Some key) \<Rightarrow>
         (case (map_of (c_submissions c) owner, map_of (c_replays c) key) of
            (Some s, Some p) \<Rightarrow>
              if sb_latest s = n \<and> rp_request p = owner
              then c\<lparr>c_submissions := AList.update owner (s\<lparr>sb_delivery := Some (outcome_delivery r)\<rparr>) (c_submissions c)\<rparr> else c
          | _ \<Rightarrow> c)
     | _ \<Rightarrow> c)"

definition finish :: "nat \<Rightarrow> jv outcome \<Rightarrow> client \<Rightarrow> client" where
  "finish n r c = (case call_of c n of
       None \<Rightarrow> c
     | Some x \<Rightarrow>
         if x_settled x then c
         else let d = custody n x r (set_call n (x\<lparr>x_settled := True\<rparr>) c) in
           d\<lparr>c_pending := AList.delete (m_requestId (x_metadata x)) (c_pending d), c_outcomes := c_outcomes d @ [(n, r)]\<rparr>)"

definition at_stage :: "nat \<Rightarrow> stage \<Rightarrow> client \<Rightarrow> client" where
  "at_stage n s c = (case call_of c n of None \<Rightarrow> c | Some x \<Rightarrow> set_call n (x\<lparr>x_stage := s\<rparr>) c)"

definition failed :: "nat \<Rightarrow> fault_code \<Rightarrow> delivery \<Rightarrow> client \<Rightarrow> client" where
  "failed n code dlv c = (case call_of c n of None \<Rightarrow> c | Some x \<Rightarrow> finish n (mk_fault code dlv (Some (x_metadata x))) c)"

definition abandon :: "fault_code \<Rightarrow> nat \<Rightarrow> client \<Rightarrow> client" where
  "abandon code n c = (case call_of c n of
       None \<Rightarrow> c
     | Some x \<Rightarrow>
         let d = failed n code (if x_sent x then May_Have_Reached_Backend else Not_Sent) c in
         (case call_of d n of None \<Rightarrow> d | Some y \<Rightarrow> set_call n (y\<lparr>x_aborted := True\<rparr>) d))"

section \<open>A call up to the clock\<close>

record call_args =
  a_kind :: request_kind
  a_method :: ustr
  a_input :: jv
  a_timeout :: "int option"
  a_aborted :: bool
  a_requestId :: "jv res"
  a_abortedNow :: bool

definition kind_text :: "request_kind \<Rightarrow> string" where
  "kind_text k = (case k of Query \<Rightarrow> ''query'' | Command \<Rightarrow> ''command'')"

definition envelope :: "request_kind \<Rightarrow> ustr \<Rightarrow> jv \<Rightarrow> jv \<Rightarrow> jv" where
  "envelope k method input requestId =
     JObj [(U ''protocolVersion'', JInt 1), (U ''requestId'', requestId),
       (U ''body'', JObj [(U ''type'', S (kind_text k)), (U (kind_text k), JObj [(U ''name'', JStr method), (U ''input'', input)])])]"

text \<open>The capture of a request whose data is already detached.\<close>

definition requestOf :: "(jv \<Rightarrow> bool) \<Rightarrow> jv \<Rightarrow> (jv \<times> ustr) res" where
  "requestOf validRequest v =
     bindE (capture v) (\<lambda>w.
     bindE (decode validRequest (TextInput (encodeData False w))) (\<lambda>request. Inr (request, encodeData False w)))"

datatype call_result = Threw exn | At_Once "jv outcome" | Runs nat

definition at_once :: "fault_code \<Rightarrow> metadata option \<Rightarrow> client \<Rightarrow> client \<times> call_result" where
  "at_once code m c = (let r = mk_fault code Not_Sent m in
     (c\<lparr>c_next := Suc (c_next c), c_outcomes := c_outcomes c @ [(c_next c, r)]\<rparr>, At_Once r))"

definition same_input :: "jv \<Rightarrow> jv \<Rightarrow> bool res" where
  "same_input a b = bindE (canonicalData a) (\<lambda>x. bindE (canonicalData b) (\<lambda>y. Inr (x = y)))"

definition remember_id :: "options \<Rightarrow> jv \<Rightarrow> jv list \<Rightarrow> jv list" where
  "remember_id opt i ids = (let added = set_add i ids in if length added > maximumRecentIds opt then tl added else added)"

text \<open>The new submission of a replay, before a clock or a transport can call back.\<close>

definition reserve :: "nat \<Rightarrow> client \<Rightarrow> client" where
  "reserve owner c = c\<lparr>c_submissions := AList.update owner \<lparr>sb_latest = c_next c, sb_delivery = None\<rparr> (c_submissions c)\<rparr>"

definition keep_replay :: "jv \<Rightarrow> jv \<Rightarrow> client \<Rightarrow> client" where
  "keep_replay key commit c = c\<lparr>c_replays := AList.update key \<lparr>rp_input = commit, rp_request = c_next c, rp_operationId = None\<rparr> (c_replays c)\<rparr>"

text \<open>The promise: the call is pending, then the caller's signal is asked once more.\<close>

definition enter :: "options \<Rightarrow> jv \<Rightarrow> metadata \<Rightarrow> nat option \<Rightarrow> jv option \<Rightarrow> client \<Rightarrow> client" where
  "enter opt request m owner key c =
     set_call (c_next c) \<lparr>x_request = request, x_metadata = m, x_owner = owner, x_key = key, x_settled = False, x_sent = False,
         x_aborted = False, x_stage = Scheduling\<rparr>
       (c\<lparr>c_next := Suc (c_next c), c_recent := remember_id opt (m_requestId m) (c_recent c),
          c_pending := AList.update (m_requestId m) (c_next c) (c_pending c)\<rparr>)"

definition start :: "options \<Rightarrow> call_args \<Rightarrow> jv \<Rightarrow> metadata \<Rightarrow> nat option \<Rightarrow> jv option \<Rightarrow> client \<Rightarrow> client \<times> call_result" where
  "start opt a request m owner key c =
     (let n = c_next c; d = enter opt request m owner key c in
      if a_abortedNow a then (at_stage n Ended (abandon Observational_Abort n d), Runs n) else (d, Runs n))"

definition call_client :: "options \<Rightarrow> (jv \<Rightarrow> bool) \<Rightarrow> call_args \<Rightarrow> client \<Rightarrow> client \<times> call_result" where
  "call_client opt validRequest a c =
     (if c_disposed c then at_once Disposed None c
      else if a_aborted a then at_once Observational_Abort None c
      else if length (c_pending c) \<ge> maximumPending opt then at_once Pending_Limit None c
      else case bindE (client_bounded (case a_timeout a of None \<Rightarrow> op_timeout opt | Some t \<Rightarrow> t) 3600000) (\<lambda>_.
            bindE (a_requestId a) (\<lambda>i. requestOf validRequest (envelope (a_kind a) (a_method a) (a_input a) i))) of
        Inl e \<Rightarrow> at_once (boundary_code Invalid_Capture e) None c
      | Inr (request, _) \<Rightarrow>
          let i = fld request ''requestId''; m = \<lparr>m_requestId = i, m_kind = a_kind a, m_method = a_method a\<rparr> in
          if i \<in> set (c_recent c) \<or> i \<in> fst ` set (c_pending c) then at_once Request_Id_Reused (Some m) c
          else if a_kind a = Command \<and> a_method a = U ''commit'' \<and> isS (path request [''body'', ''type'']) ''command''
              \<and> isS (path request [''body'', ''command'', ''name'']) ''commit'' then
            (let commit = path request [''body'', ''command'', ''input'']; key = fld commit ''idempotencyKey'' in
             case map_of (c_replays c) key of
               Some prior \<Rightarrow>
                 (case same_input (rp_input prior) commit of
                    Inl e \<Rightarrow> (c, Threw e)
                  | Inr False \<Rightarrow> at_once Replay_Conflict (Some m) c
                  | Inr True \<Rightarrow> start opt a request m (Some (rp_request prior)) (Some key) (reserve (rp_request prior) c))
             | None \<Rightarrow>
                 if length (c_replays c) \<ge> maximumReplays opt then at_once Replay_Limit (Some m) c
                 else start opt a request m (Some (c_next c)) (Some key)
                   (reserve (c_next c) (keep_replay key commit c)))
          else start opt a request m None None c)"

definition replayCommit :: "options \<Rightarrow> (jv \<Rightarrow> bool) \<Rightarrow> jv \<Rightarrow> call_args \<Rightarrow> client \<Rightarrow> client \<times> call_result" where
  "replayCommit opt validRequest key a c = (case map_of (c_replays c) key of
       None \<Rightarrow> at_once Replay_Missing None c
     | Some p \<Rightarrow> call_client opt validRequest (a\<lparr>a_kind := Command, a_method := U ''commit'', a_input := rp_input p\<rparr>) c)"

section \<open>From the clock to the transport\<close>

definition scheduled :: "nat \<Rightarrow> bool \<Rightarrow> client \<Rightarrow> client" where
  "scheduled n returned c = (case call_of c n of
       None \<Rightarrow> c
     | Some x \<Rightarrow>
         if x_stage x \<noteq> Scheduling then c
         else if \<not> returned then at_stage n Ended (abandon Delivery_Failed n c)
         else if x_settled x then at_stage n Ended c
         else set_call n (x\<lparr>x_sent := True, x_stage := Exchanging\<rparr>) c)"

definition exchanged :: "nat \<Rightarrow> thrown option \<Rightarrow> client \<Rightarrow> client" where
  "exchanged n raised c = (case call_of c n of
       None \<Rightarrow> c
     | Some x \<Rightarrow>
         if x_stage x \<noteq> Exchanging then c
         else case raised of
           None \<Rightarrow> at_stage n Awaiting c
         | Some v \<Rightarrow> (case transportFault v of (code, dlv) \<Rightarrow> at_stage n Ended (failed n code dlv c)))"

section \<open>The reply\<close>

text \<open>A query's output that does not answer the query, up to the digest of a preview.\<close>

definition queryRefused :: "jv \<Rightarrow> jv \<Rightarrow> bool res" where
  "queryRefused request result =
     (let name = path request [''body'', ''query'', ''name'']; input = path request [''body'', ''query'', ''input''];
          output = path result [''query'', ''output''];
          both = (\<lambda>s. isS name s \<and> isS (path result [''query'', ''name'']) s) in
      if both ''get_operation'' \<and> isS (path output [''operation'', ''status'']) ''observed''
         \<and> \<not> strict_eq (fld input ''operationId'') (path output [''operation'', ''value'', ''operationId'']) then Inr True
      else if both ''get_draft'' \<and> (\<not> strict_eq (path output [''cursor'', ''hostEpoch'']) (fld input ''hostEpoch'')
           \<or> isS (path output [''draft'', ''status'']) ''observed''
             \<and> (\<not> strict_eq (path output [''draft'', ''value'', ''draft'', ''hostEpoch'']) (fld input ''hostEpoch'')
                \<or> \<not> strict_eq (path output [''draft'', ''value'', ''draft'', ''draftId'']) (fld input ''draftId''))) then Inr True
      else if both ''diagnostic_preview'' then negE (diagnosticPreviewMatches input output)
      else Inr False)"

definition commandRefused :: "jv \<Rightarrow> jv \<Rightarrow> bool res" where
  "commandRefused request result =
     (let name = path request [''body'', ''command'', ''name'']; input = path request [''body'', ''command'', ''input''];
          output = path result [''command'', ''output''];
          both = (\<lambda>s. Inr (isS name s \<and> isS (path result [''command'', ''name'']) s)) in
      orE (andE (both ''prepare'') (negE (preparationMatches (fld input ''intent'') (fld output ''semantics''))))
     (orE (andE (both ''cancel_operation'') (negE (cancellationMatches input output)))
     (orE (andE (both ''open_draft'') (negE (bindingEquivalent (fld input ''document'') (path output [''draft'', ''document'']))))
     (orE (andE (both ''set_draft_changes'') (Inr (\<not> draftAcknowledgementMatches input output)))
     (orE (andE (both ''discard_draft'') (Inr (\<not> strict_eq (path input [''draft'', ''draftId'']) (fld output ''draftId'')
            \<or> \<not> strict_eq (path input [''draft'', ''hostEpoch'']) (fld output ''hostEpoch'')
            \<or> \<not> strict_eq (path input [''draft'', ''revision'']) (fld output ''previousRevision''))))
     (orE (andE (both ''request_sensitive_input'') (negE (bindingEquivalent input (fld output ''binding''))))
       (andE (both ''request_export_destination'') (negE (bindingEquivalent input (fld output ''binding''))))))))))"

text \<open>The digest that an output is checked by, and what it has to be.\<close>

definition digestCheck :: "(8 word list \<Rightarrow> 8 word list) \<Rightarrow> jv \<Rightarrow> jv \<Rightarrow> (ustr res \<times> jv) option" where
  "digestCheck sha256 request result =
     (let q = path request [''body'', ''query'', ''name'']; k = path request [''body'', ''command'', ''name''];
          name = path result [''command'', ''name'']; output = path result [''command'', ''output''] in
      if isS (path request [''body'', ''type'']) ''query'' then
        (if isS q ''diagnostic_preview'' \<and> isS (path result [''query'', ''name'']) ''diagnostic_preview'' then
           Some (diagnosticPreviewDigest sha256 (path result [''query'', ''output'', ''content'']),
             path result [''query'', ''output'', ''reference'', ''digest''])
         else None)
      else if isS k ''prepare'' \<and> isS name ''prepare'' then
        Some (semanticPlanDigest sha256 (fld output ''semantics''), path output [''planRef'', ''reviewDigest''])
      else if isS k ''commit'' \<and> isS name ''commit'' then
        Some (semanticPlanDigest sha256 (fld output ''semantics''), path request [''body'', ''command'', ''input'', ''planRef'', ''reviewDigest''])
      else None)"

definition refused :: "jv \<Rightarrow> jv \<Rightarrow> bool res" where
  "refused request result =
     (if isS (path request [''body'', ''type'']) ''query'' then queryRefused request result else commandRefused request result)"

text \<open>What the reply to a request comes to before any digest.\<close>

datatype verdict = Wrong fault_code | Refusal jv | Answers jv

definition replyVerdict :: "(jv \<Rightarrow> bool) \<Rightarrow> exchange \<Rightarrow> wire_input \<Rightarrow> verdict res" where
  "replyVerdict validReply x frame = (case decode validReply frame of
       Inl e \<Rightarrow> Inr (Wrong (boundary_code Framing e))
     | Inr reply \<Rightarrow>
         if fld reply ''requestId'' = JNull \<or> \<not> strict_eq (fld reply ''requestId'') (fld (x_request x) ''requestId'') then Inr (Wrong Correlation)
         else if isS (path reply [''body'', ''type'']) ''rejected'' then Inr (Refusal (path reply [''body'', ''error'']))
         else let result = path reply [''body'', ''result''];
                  invocation = (if isS (fld result ''type'') ''query'' then fld result ''query'' else fld result ''command'') in
           if \<not> isS (fld result ''type'') (kind_text (m_kind (x_metadata x))) then Inr (Wrong Correlation)
           else if fld invocation ''name'' \<noteq> JStr (m_method (x_metadata x)) then Inr (Wrong Correlation)
           else bindE (refused (x_request x) result) (\<lambda>bad. Inr (if bad then Wrong Correlation else Answers result)))"

definition result_output :: "jv \<Rightarrow> jv" where
  "result_output result =
     fld (if isS (fld result ''type'') ''query'' then fld result ''query'' else fld result ''command'') ''output''"

text \<open>The end of a call that was answered: the replay learns the operation of its commit.\<close>

definition answered :: "nat \<Rightarrow> jv \<Rightarrow> client \<Rightarrow> client" where
  "answered n result c = (case call_of c n of
       None \<Rightarrow> c
     | Some x \<Rightarrow>
         let ok = finish n (Returned (result_output result) (x_metadata x));
             input = path (x_request x) [''body'', ''command'', ''input'']; key = fld input ''idempotencyKey'';
             oid = path result [''command'', ''output'', ''operationId''] in
         if isS (path (x_request x) [''body'', ''type'']) ''command'' \<and> isS (path (x_request x) [''body'', ''command'', ''name'']) ''commit''
            \<and> isS (path result [''command'', ''name'']) ''commit'' then
           (case map_of (c_replays c) key of
              None \<Rightarrow> ok c
            | Some p \<Rightarrow>
                if Some (rp_request p) \<noteq> x_owner x then ok c
                else case same_input (rp_input p) input of
                  Inl _ \<Rightarrow> failed n Delivery_Failed May_Have_Reached_Backend c
                | Inr False \<Rightarrow> ok c
                | Inr True \<Rightarrow>
                    (case rp_operationId p of
                       Some known \<Rightarrow> if \<not> strict_eq known oid then failed n Correlation May_Have_Reached_Backend c else ok c
                     | None \<Rightarrow> ok (c\<lparr>c_replays := AList.update key (p\<lparr>rp_operationId := Some oid\<rparr>) (c_replays c)\<rparr>)))
         else ok c)"

definition received :: "(8 word list \<Rightarrow> 8 word list) \<Rightarrow> (jv \<Rightarrow> bool) \<Rightarrow> nat \<Rightarrow> wire_input \<Rightarrow> client \<Rightarrow> client" where
  "received sha256 validReply n frame c = (case call_of c n of
       None \<Rightarrow> c
     | Some x \<Rightarrow>
         if x_stage x \<noteq> Awaiting then c
         else if x_settled x then at_stage n Ended c
         else case replyVerdict validReply x frame of
           Inl _ \<Rightarrow> at_stage n Ended (failed n Delivery_Failed May_Have_Reached_Backend c)
         | Inr (Wrong code) \<Rightarrow> at_stage n Ended (failed n code May_Have_Reached_Backend c)
         | Inr (Refusal e) \<Rightarrow> at_stage n Ended (finish n (Rejected e (x_metadata x)) c)
         | Inr (Answers result) \<Rightarrow>
             (case digestCheck sha256 (x_request x) result of
                Some (digest, expected) \<Rightarrow> at_stage n (Digesting digest expected result) c
              | None \<Rightarrow> at_stage n Ended (answered n result c)))"

definition rejected :: "nat \<Rightarrow> thrown \<Rightarrow> client \<Rightarrow> client" where
  "rejected n v c = (case call_of c n of
       None \<Rightarrow> c
     | Some x \<Rightarrow>
         if x_stage x \<noteq> Awaiting then c
         else (case transportFault v of (code, dlv) \<Rightarrow> at_stage n Ended (failed n code dlv c)))"

definition digested :: "nat \<Rightarrow> client \<Rightarrow> client" where
  "digested n c = (case call_of c n of
       None \<Rightarrow> c
     | Some x \<Rightarrow>
         (case x_stage x of
            Digesting digest expected result \<Rightarrow>
              if x_settled x then at_stage n Ended c
              else (case digest of
                  Inl _ \<Rightarrow> at_stage n Ended (failed n Delivery_Failed May_Have_Reached_Backend c)
                | Inr d \<Rightarrow>
                    if JStr d \<noteq> expected then at_stage n Ended (failed n Correlation May_Have_Reached_Backend c)
                    else at_stage n Ended (answered n result c))
          | _ \<Rightarrow> c))"

section \<open>Replays\<close>

definition forgetReplay :: "jv \<Rightarrow> client \<Rightarrow> client \<times> bool" where
  "forgetReplay key c = (c\<lparr>c_replays := AList.delete key (c_replays c)\<rparr>, map_of (c_replays c) key \<noteq> None)"

definition forgetUnsentReplay :: "jv \<Rightarrow> nat \<Rightarrow> client \<Rightarrow> client \<times> bool" where
  "forgetUnsentReplay key original c = (case (map_of (c_replays c) key, map_of (c_submissions c) original) of
       (Some p, Some s) \<Rightarrow>
         if rp_request p \<noteq> original \<or> rp_operationId p \<noteq> None \<or> sb_latest s \<noteq> original \<or> sb_delivery s \<noteq> Some Not_Sent then (c, False)
         else forgetReplay key c
     | _ \<Rightarrow> (c, False))"

section \<open>Subscriptions\<close>

definition sub_of :: "client \<Rightarrow> nat \<Rightarrow> subscription option" where
  "sub_of c s = map_of (c_subs c) s"

definition set_sub :: "nat \<Rightarrow> subscription \<Rightarrow> client \<Rightarrow> client" where
  "set_sub s v c = c\<lparr>c_subs := AList.update s v (c_subs c)\<rparr>"

definition stop_sub :: "nat \<Rightarrow> client \<Rightarrow> client" where
  "stop_sub s c = (case sub_of c s of
       None \<Rightarrow> c
     | Some v \<Rightarrow>
         if s_settingUp v then set_sub s (v\<lparr>s_active := False\<rparr>) c
         else set_sub s (v\<lparr>s_active := False, s_released := True\<rparr>) (c\<lparr>c_subscriptions := remove1 s (c_subscriptions c)\<rparr>))"

text \<open>Up to the adapter, and from its return (or throw) on.\<close>

definition subscribe :: "options \<Rightarrow> client \<Rightarrow> client" where
  "subscribe opt c =
     (let s = c_next c; fault = (\<lambda>code. c\<lparr>c_next := Suc s, c_faults := c_faults c @ [(s, code, Not_Sent)]\<rparr>) in
      if c_disposed c then fault Disposed
      else if length (c_subscriptions c) \<ge> maximumSubscriptions opt then fault Subscription_Limit
      else set_sub s \<lparr>s_active = True, s_settingUp = True, s_released = False\<rparr>
        (c\<lparr>c_next := Suc s, c_subscriptions := c_subscriptions c @ [s]\<rparr>))"

definition sub_failed :: "nat \<Rightarrow> fault_code \<Rightarrow> delivery \<Rightarrow> client \<Rightarrow> client" where
  "sub_failed s code dlv c = (let d = stop_sub s c in d\<lparr>c_faults := c_faults d @ [(s, code, dlv)]\<rparr>)"

definition subscribed :: "nat \<Rightarrow> thrown option \<Rightarrow> client \<Rightarrow> client" where
  "subscribed s raised c = (case sub_of c s of
       None \<Rightarrow> c
     | Some v \<Rightarrow>
         if \<not> s_settingUp v then c
         else let d = (case raised of None \<Rightarrow> c
                | Some e \<Rightarrow> if s_active v then (case transportFault e of (code, dlv) \<Rightarrow> sub_failed s code dlv c) else c) in
           (case sub_of d s of None \<Rightarrow> d
            | Some w \<Rightarrow>
                let e = set_sub s (w\<lparr>s_settingUp := False\<rparr>) d in
                if \<not> s_active w \<or> c_disposed d then stop_sub s e else e))"

definition sub_frame :: "(jv \<Rightarrow> bool) \<Rightarrow> nat \<Rightarrow> wire_input \<Rightarrow> client \<Rightarrow> client" where
  "sub_frame validEvent s frame c = (case sub_of c s of
       None \<Rightarrow> c
     | Some v \<Rightarrow>
         if \<not> s_active v then c
         else (case decode validEvent frame of
             Inl e \<Rightarrow> sub_failed s (boundary_code Framing e) May_Have_Reached_Backend c
           | Inr event \<Rightarrow> c\<lparr>c_events := c_events c @ [(s, event)]\<rparr>))"

definition sub_fault :: "nat \<Rightarrow> thrown \<Rightarrow> client \<Rightarrow> client" where
  "sub_fault s e c = (case sub_of c s of
       None \<Rightarrow> c
     | Some v \<Rightarrow> if s_active v then (case transportFault e of (code, dlv) \<Rightarrow> sub_failed s code dlv c) else c)"

definition dispose :: "client \<Rightarrow> client" where
  "dispose c = (if c_disposed c then c
     else let d = c\<lparr>c_disposed := True\<rparr>; e = fold (abandon Disposed) (map snd (c_pending d)) d in
       fold stop_sub (c_subscriptions e) e)"

section \<open>Steps\<close>

datatype step =
    Call call_args
  | ReplayCommit jv call_args
  | Scheduled nat bool
  | Exchanged nat "thrown option"
  | Received nat wire_input
  | Raised nat thrown
  | Digested nat
  | TimerFires nat
  | CallerAborts nat
  | ForgetReplay jv
  | ForgetUnsentReplay jv nat
  | Subscribe
  | Subscribed nat "thrown option"
  | FrameArrives nat wire_input
  | SubscriptionFaults nat thrown
  | StopSubscription nat
  | Dispose

record world =
  sha_256 :: "8 word list \<Rightarrow> 8 word list"
  request_schema :: "jv \<Rightarrow> bool"
  reply_schema :: "jv \<Rightarrow> bool"
  event_schema :: "jv \<Rightarrow> bool"

fun client_step :: "options \<Rightarrow> world \<Rightarrow> step \<Rightarrow> client \<Rightarrow> client" where
  "client_step opt w (Call a) c = fst (call_client opt (request_schema w) a c)"
| "client_step opt w (ReplayCommit key a) c = fst (replayCommit opt (request_schema w) key a c)"
| "client_step opt w (Scheduled n ok) c = scheduled n ok c"
| "client_step opt w (Exchanged n raised) c = exchanged n raised c"
| "client_step opt w (Received n frame) c = received (sha_256 w) (reply_schema w) n frame c"
| "client_step opt w (Raised n v) c = rejected n v c"
| "client_step opt w (Digested n) c = digested n c"
| "client_step opt w (TimerFires n) c = abandon Timeout n c"
| "client_step opt w (CallerAborts n) c = abandon Observational_Abort n c"
| "client_step opt w (ForgetReplay key) c = fst (forgetReplay key c)"
| "client_step opt w (ForgetUnsentReplay key n) c = fst (forgetUnsentReplay key n c)"
| "client_step opt w Subscribe c = subscribe opt c"
| "client_step opt w (Subscribed s raised) c = subscribed s raised c"
| "client_step opt w (FrameArrives s frame) c = sub_frame (event_schema w) s frame c"
| "client_step opt w (SubscriptionFaults s e) c = sub_fault s e c"
| "client_step opt w (StopSubscription s) c = stop_sub s c"
| "client_step opt w Dispose c = dispose c"

end
