(* ===== verification/Desk.thy ===== *)
theory Desk imports Bridge_Client Work_Context begin

text \<open>
  The client and the work context that the session, the reviews and the screens share, and the ways in which they use them.

  A listener of the store runs while a method of the store publishes. The context's own comes first; the parameter
  \<open>hear\<close> stands for the others, which may change everything. A call of the client gives the number under which the
  client keeps its outcome; the clock and the transport of that call are later steps of the client, and the caller goes on
  once the outcome is there.
\<close>

record desk =
  d_client :: client
  d_ctx :: ctx

type_synonym ('w, 'a) on_desk = "('w desk_scheme, 'a) act"
type_synonym 'w hearing = "view \<Rightarrow> 'w desk_scheme \<Rightarrow> 'w desk_scheme"

abbreviation d_store :: "'w desk_scheme \<Rightarrow> store" where
  "d_store d \<equiv> w_store (d_ctx d)"

definition heard_by :: "'w hearing \<Rightarrow> view \<Rightarrow> 'w desk_scheme \<Rightarrow> 'w desk_scheme" where
  "heard_by hear v d = hear v (d\<lparr>d_ctx := snd (onObservation v (d_ctx d))\<rparr>)"

definition storeS :: "'w hearing \<Rightarrow> (store \<Rightarrow> store \<times> bool) \<Rightarrow> ('w, bool) on_desk" where
  "storeS hear f = withS (\<lambda>d.
     let (st, ok) = f (d_store d); news = drop (length (published (d_store d))) (published st) in
     next_act (upd (\<lambda>d. fold (heard_by hear) news (d\<lparr>d_ctx := (d_ctx d)\<lparr>w_store := st\<rparr>\<rparr>))) (ret ok))"

abbreviation storeU :: "'w hearing \<Rightarrow> (store \<Rightarrow> store) \<Rightarrow> ('w, unit) on_desk" where
  "storeU hear f \<equiv> seq (storeS hear (\<lambda>st. (f st, True))) (\<lambda>_. ret ())"

text \<open>A method of the context that does not call the store.\<close>

definition ctxS :: "'a work \<Rightarrow> ('w, 'a) on_desk" where
  "ctxS m = (\<lambda>d. case m (d_ctx d) of (r, c) \<Rightarrow> (r, d\<lparr>d_ctx := c\<rparr>))"

definition clientU :: "(client \<Rightarrow> client) \<Rightarrow> ('w, unit) on_desk" where
  "clientU f = upd (\<lambda>d. d\<lparr>d_client := f (d_client d)\<rparr>)"

definition clientB :: "(client \<Rightarrow> client \<times> bool) \<Rightarrow> ('w, bool) on_desk" where
  "clientB f = (\<lambda>d. case f (d_client d) of (c, b) \<Rightarrow> (Inr b, d\<lparr>d_client := c\<rparr>))"

text \<open>\<^verbatim>\<open>query\<close> and \<^verbatim>\<open>command\<close>: the rest of the arguments (signal, time limit, request number) comes from the caller.\<close>

definition callS :: "options \<Rightarrow> (jv \<Rightarrow> bool) \<Rightarrow> request_kind \<Rightarrow> string \<Rightarrow> jv \<Rightarrow> call_args \<Rightarrow> ('w, nat) on_desk" where
  "callS opt validRequest k method input a = withS (\<lambda>d.
     case call_client opt validRequest (a\<lparr>a_kind := k, a_method := U method, a_input := input\<rparr>) (d_client d) of
       (c, Threw e) \<Rightarrow> next_act (upd (\<lambda>d. d\<lparr>d_client := c\<rparr>)) (ask (\<lambda>_. Inl e))
     | (c, _) \<Rightarrow> next_act (upd (\<lambda>d. d\<lparr>d_client := c\<rparr>)) (ret (c_next (d_client d))))"

text \<open>A fault without a request, as the session and the screens return it.\<close>

definition plain_fault :: "fault_code \<Rightarrow> delivery \<Rightarrow> jv outcome" where
  "plain_fault code dlv = mk_fault code dlv None"

definition outcome_request :: "'v outcome \<Rightarrow> metadata option" where
  "outcome_request r = (case r of Returned _ m \<Rightarrow> Some m | Rejected _ m \<Rightarrow> Some m | Faulted f \<Rightarrow> f_request f)"

abbreviation cursor_host :: "store \<Rightarrow> jv" where
  "cursor_host st \<equiv> (case o_cursor st of None \<Rightarrow> JUndef | Some cursor \<Rightarrow> fld cursor ''hostEpoch'')"

end
