(* ===== verification/Observation_Session.thy ===== *)
theory Observation_Session imports Desk begin

text \<open>
  The subscription to the backend, \<^verbatim>\<open>ObservationSession\<close> of \<^verbatim>\<open>ui/src/client/observation.ts\<close>: subscribe, then read the
  snapshot, and drop whatever belongs to an earlier subscription.

  Starting runs up to the adapter and, as a second step, from the adapter's return on; events that arrive in between are steps
  of their own. A query goes on when the client has its outcome; a snapshot's promise is forgotten in one more
  step, as \<^verbatim>\<open>finally\<close> runs after \<^verbatim>\<open>then\<close>. The limits, the options and the schemas are those of the store and the client.
\<close>

section \<open>The state\<close>

text \<open>The local variables of a start, which the handlers of its subscription close over. \<open>se_starting\<close> is the start that waits for its adapter.\<close>

record listening =
  l_generation :: nat
  l_active :: bool
  l_fault :: "(fault_code \<times> delivery) option"

datatype session_wait =
    Snapshot_Wait nat
  | Snapshot_Ends
  | Draft_Wait nat
  | Resume_Wait nat jv jv

record session = desk +
  se_stop :: "nat option"
  se_refresh :: "nat option"
  se_disposed :: bool
  se_subscribing :: bool
  se_starting :: "nat option"
  se_generation :: nat
  se_listening :: "(nat \<times> listening) list"
  se_waits :: "(nat \<times> session_wait) list"
  se_results :: "(nat \<times> jv outcome) list"

type_synonym ('w, 'a) in_session = "('w session_scheme, 'a) act"

record session_world =
  sw_options :: options
  sw_limits :: limits
  sw_request :: "jv \<Rightarrow> bool"
  sw_event :: "jv \<Rightarrow> bool"

text \<open>What a method returns: an outcome at once, the promise of a call, or nothing yet.\<close>

datatype promised = Resolved "jv outcome" | Promised nat | Suspended

section \<open>Faults and snapshots\<close>

definition fault_reason :: "fault_code \<Rightarrow> string" where
  "fault_reason code = (if code \<in> {Framing, Schema, Incompatible_Envelope} then ''malformed_event'' else ''disconnected'')"

definition stop_session :: "('w, unit) in_session" where
  "stop_session = withS (\<lambda>d. case se_stop d of
       None \<Rightarrow> ret ()
     | Some s \<Rightarrow> next_act (clientU (stop_sub s)) (upd (\<lambda>d. d\<lparr>se_stop := None\<rparr>)))"

definition deliveryFault :: "(view \<Rightarrow> 'w session_scheme \<Rightarrow> 'w session_scheme) \<Rightarrow> fault_code \<Rightarrow> ('w, unit) in_session" where
  "deliveryFault hear code =
     next_act (upd (\<lambda>d. d\<lparr>se_generation := Suc (se_generation d), se_refresh := None\<rparr>))
     (next_act stop_session
     (next_act (storeU hear abandonSnapshot)
       (storeU hear (\<lambda>st. fst (invalidate (fault_reason code) st)))))"

definition requestSnapshot :: "session_world \<Rightarrow> (view \<Rightarrow> 'w session_scheme \<Rightarrow> 'w session_scheme) \<Rightarrow> call_args \<Rightarrow> bool \<Rightarrow> ('w, promised) in_session" where
  "requestSnapshot sw hear a buffered = withS (\<lambda>d.
     if se_disposed d then ret (Resolved (plain_fault Disposed Not_Sent))
     else if se_stop d = None \<or> se_subscribing d then ret (Resolved (plain_fault Stale_Stream Not_Sent))
     else case se_refresh d of
       Some n \<Rightarrow> ret (Promised n)
     | None \<Rightarrow>
         next_act (if buffered then ret () else storeU hear beginSnapshot)
         (withS (\<lambda>d. seq (callS (sw_options sw) (sw_request sw) Query ''snapshot'' (JObj []) a) (\<lambda>n.
           next_act (upd (\<lambda>d. d\<lparr>se_refresh := Some n, se_waits := AList.update n (Snapshot_Wait (se_generation d)) (se_waits d)\<rparr>))
             (ret (Promised n))))))"

text \<open>What arrives on a subscription reaches its handlers.\<close>

definition onEvent :: "session_world \<Rightarrow> (view \<Rightarrow> 'w session_scheme \<Rightarrow> 'w session_scheme) \<Rightarrow> nat \<Rightarrow> jv \<Rightarrow> ('w, unit) in_session" where
  "onEvent sw hear s event = withS (\<lambda>d. case map_of (se_listening d) s of
       None \<Rightarrow> ret ()
     | Some l \<Rightarrow>
         if l_active l \<and> \<not> se_disposed d \<and> l_generation l = se_generation d
         then seq (storeS hear (acceptEvent (sw_limits sw) event)) (\<lambda>_. ret ()) else ret ())"

definition onFault :: "(view \<Rightarrow> 'w session_scheme \<Rightarrow> 'w session_scheme) \<Rightarrow> nat \<Rightarrow> fault_code \<times> delivery \<Rightarrow> ('w, unit) in_session" where
  "onFault hear s f = withS (\<lambda>d. case map_of (se_listening d) s of
       None \<Rightarrow> ret ()
     | Some l \<Rightarrow>
         next_act (upd (\<lambda>d. d\<lparr>se_listening := AList.update s (l\<lparr>l_active := False, l_fault := Some f\<rparr>) (se_listening d)\<rparr>))
           (deliveryFault hear (fst f)))"

primrec in_turn :: "('b \<Rightarrow> ('s, unit) act) \<Rightarrow> 'b list \<Rightarrow> ('s, unit) act" where
  "in_turn f [] = ret ()"
| "in_turn f (x # xs) = next_act (f x) (in_turn f xs)"

text \<open>A step of the client, with the deliveries it makes to subscribers.\<close>

definition delivering :: "session_world \<Rightarrow> (view \<Rightarrow> 'w session_scheme \<Rightarrow> 'w session_scheme) \<Rightarrow> (client \<Rightarrow> client) \<Rightarrow> ('w, unit) in_session" where
  "delivering sw hear f = withS (\<lambda>d.
     let c = f (d_client d); events = drop (length (c_events (d_client d))) (c_events c);
         faults = drop (length (c_faults (d_client d))) (c_faults c) in
     next_act (clientU (\<lambda>_. c))
     (next_act (in_turn (\<lambda>(s, event). onEvent sw hear s event) events)
       (in_turn (\<lambda>(s, x). onFault hear s x) faults)))"

section \<open>Starting and refreshing\<close>

definition session_refresh :: "session_world \<Rightarrow> (view \<Rightarrow> 'w session_scheme \<Rightarrow> 'w session_scheme) \<Rightarrow> call_args \<Rightarrow> ('w, promised) in_session" where
  "session_refresh sw hear a = requestSnapshot sw hear a False"

text \<open>From the return of the client's \<^verbatim>\<open>subscribe\<close> on.\<close>

definition session_subscribed :: "session_world \<Rightarrow> (view \<Rightarrow> 'w session_scheme \<Rightarrow> 'w session_scheme) \<Rightarrow> call_args \<Rightarrow> nat \<Rightarrow> ('w, promised) in_session" where
  "session_subscribed sw hear a s =
     next_act (upd (\<lambda>d. d\<lparr>se_subscribing := False, se_starting := None\<rparr>))
     (withS (\<lambda>d. case map_of (se_listening d) s of
        None \<Rightarrow> ret Suspended
      | Some l \<Rightarrow>
          if \<not> l_active l \<or> se_disposed d \<or> l_generation l \<noteq> se_generation d then
            next_act (clientU (stop_sub s))
              (ret (Resolved (case l_fault l of
                 Some (code, dlv) \<Rightarrow> plain_fault code dlv
               | None \<Rightarrow> plain_fault (if se_disposed d then Disposed else Stale_Stream) Not_Sent)))
          else next_act (upd (\<lambda>d. d\<lparr>se_stop := Some s\<rparr>)) (requestSnapshot sw hear a True)))"

text \<open>A client that refuses the subscription does so before any adapter is asked.\<close>

definition session_start :: "session_world \<Rightarrow> (view \<Rightarrow> 'w session_scheme \<Rightarrow> 'w session_scheme) \<Rightarrow> call_args \<Rightarrow> ('w, promised) in_session" where
  "session_start sw hear a = withS (\<lambda>d.
     if se_disposed d then ret (Resolved (plain_fault Disposed Not_Sent))
     else if se_subscribing d then ret (Resolved (plain_fault Stale_Stream Not_Sent))
     else if se_stop d \<noteq> None then session_refresh sw hear a
     else
       let generation = se_generation d in
       next_act (upd (\<lambda>d. d\<lparr>se_subscribing := True\<rparr>))
       (next_act (storeU hear beginSnapshot)
       (withS (\<lambda>d. let s = c_next (d_client d) in
         next_act (upd (\<lambda>d. d\<lparr>se_starting := Some s,
             se_listening := AList.update s \<lparr>l_generation = generation, l_active = True, l_fault = None\<rparr> (se_listening d)\<rparr>))
         (next_act (delivering sw hear (subscribe (sw_options sw)))
         (withS (\<lambda>d. if sub_of (d_client d) s = None then session_subscribed sw hear a s else ret Suspended)))))))"

definition session_adapter :: "session_world \<Rightarrow> (view \<Rightarrow> 'w session_scheme \<Rightarrow> 'w session_scheme) \<Rightarrow> call_args \<Rightarrow> nat \<Rightarrow> thrown option \<Rightarrow> ('w, promised) in_session" where
  "session_adapter sw hear a s raised = withS (\<lambda>d.
     if se_starting d \<noteq> Some s then ret Suspended
     else next_act (delivering sw hear (subscribed s raised)) (session_subscribed sw hear a s))"

section \<open>Reads\<close>

definition readDraft :: "session_world \<Rightarrow> jv \<Rightarrow> call_args \<Rightarrow> ('w, promised) in_session" where
  "readDraft sw input a = withS (\<lambda>d.
     if se_disposed d then ret (Resolved (plain_fault Disposed Not_Sent))
     else if se_stop d = None \<or> se_subscribing d \<or> o_cursor (d_store d) = None \<or> o_confidence (d_store d) = Stale
     then ret (Resolved (plain_fault Stale_Stream Not_Sent))
     else let generation = se_generation d in
       seq (callS (sw_options sw) (sw_request sw) Query ''get_draft'' input a) (\<lambda>n.
         next_act (upd (\<lambda>d. d\<lparr>se_waits := AList.update n (Draft_Wait generation) (se_waits d)\<rparr>)) (ret (Promised n))))"

definition session_resume :: "session_world \<Rightarrow> jv \<Rightarrow> call_args \<Rightarrow> ('w, promised) in_session" where
  "session_resume sw maximumEvents a = withS (\<lambda>d.
     if se_disposed d then ret (Resolved (plain_fault Disposed Not_Sent))
     else case o_cursor (d_store d) of
       None \<Rightarrow> ret (Resolved (plain_fault Stale_Stream Not_Sent))
     | Some after \<Rightarrow>
         if o_confidence (d_store d) \<noteq> Authoritative then ret (Resolved (plain_fault Stale_Stream Not_Sent))
         else let generation = se_generation d in
           seq (callS (sw_options sw) (sw_request sw) Query ''resume_events'' (JObj [(U ''after'', after), (U ''maximumEvents'', maximumEvents)]) a) (\<lambda>n.
             next_act (upd (\<lambda>d. d\<lparr>se_waits := AList.update n (Resume_Wait generation after maximumEvents) (se_waits d)\<rparr>)) (ret (Promised n))))"

section \<open>When an outcome is there\<close>

definition resolve :: "nat \<Rightarrow> jv outcome \<Rightarrow> ('w, unit) in_session" where
  "resolve n r = upd (\<lambda>d. d\<lparr>se_results := se_results d @ [(n, r)]\<rparr>)"

text \<open>A read that was overtaken by disposal or by another subscription.\<close>

definition overtaken :: "'w session_scheme \<Rightarrow> jv outcome \<Rightarrow> jv outcome" where
  "overtaken d r = mk_fault (if se_disposed d then Disposed else Stale_Stream) May_Have_Reached_Backend (outcome_request r)"

definition snapshot_arrives :: "session_world \<Rightarrow> (view \<Rightarrow> 'w session_scheme \<Rightarrow> 'w session_scheme) \<Rightarrow> nat \<Rightarrow> jv outcome \<Rightarrow> ('w, unit) in_session" where
  "snapshot_arrives sw hear generation r = withS (\<lambda>d.
     if se_disposed d \<or> generation \<noteq> se_generation d then ret ()
     else case r of
       Returned v _ \<Rightarrow> seq (storeS hear (acceptSnapshot (sw_limits sw) v)) (\<lambda>_. ret ())
     | _ \<Rightarrow> storeU hear abandonSnapshot)"

definition events_arrive :: "session_world \<Rightarrow> (view \<Rightarrow> 'w session_scheme \<Rightarrow> 'w session_scheme) \<Rightarrow> jv \<Rightarrow> jv \<Rightarrow> jv outcome \<Rightarrow> ('w, unit) in_session" where
  "events_arrive sw hear after maximumEvents r = (case r of
       Returned v _ \<Rightarrow> seq (storeS hear (acceptBatch (sw_limits sw) v after maximumEvents)) (\<lambda>_. ret ())
     | Rejected e _ \<Rightarrow> if isS (fld e ''code'') ''resnapshot_required'' then storeU hear (\<lambda>st. fst (invalidate ''sequence_gap'' st)) else ret ()
     | Faulted f \<Rightarrow> deliveryFault hear (f_code f))"

definition session_settle :: "session_world \<Rightarrow> (view \<Rightarrow> 'w session_scheme \<Rightarrow> 'w session_scheme) \<Rightarrow> nat \<Rightarrow> ('w, unit) in_session" where
  "session_settle sw hear n = withS (\<lambda>d.
     case (map_of (se_waits d) n, map_of (c_outcomes (d_client d)) n) of
       (Some (Snapshot_Wait generation), Some r) \<Rightarrow>
         next_act (upd (\<lambda>d. d\<lparr>se_waits := AList.update n Snapshot_Ends (se_waits d)\<rparr>)) (snapshot_arrives sw hear generation r)
     | (Some Snapshot_Ends, Some r) \<Rightarrow>
         next_act (upd (\<lambda>d. d\<lparr>se_waits := AList.delete n (se_waits d), se_refresh := (if se_refresh d = Some n then None else se_refresh d)\<rparr>))
           (resolve n r)
     | (Some (Draft_Wait generation), Some r) \<Rightarrow>
         next_act (upd (\<lambda>d. d\<lparr>se_waits := AList.delete n (se_waits d)\<rparr>))
           (resolve n (if se_disposed d \<or> generation \<noteq> se_generation d then overtaken d r else r))
     | (Some (Resume_Wait generation after maximumEvents), Some r) \<Rightarrow>
         next_act (upd (\<lambda>d. d\<lparr>se_waits := AList.delete n (se_waits d)\<rparr>))
           (if se_disposed d \<or> generation \<noteq> se_generation d then resolve n (overtaken d r)
            else next_act (events_arrive sw hear after maximumEvents r) (resolve n r))
     | _ \<Rightarrow> ret ())"

definition session_dispose :: "(view \<Rightarrow> 'w session_scheme \<Rightarrow> 'w session_scheme) \<Rightarrow> ('w, unit) in_session" where
  "session_dispose hear =
     next_act (upd (\<lambda>d. d\<lparr>se_disposed := True\<rparr>)) (next_act stop_session (storeU hear abandonSnapshot))"

section \<open>Steps\<close>

text \<open>
  A step of the session or of the client it shares; the return of an adapter that a start waits for is a step of the session.
  The call arguments are the signal, the time limit and the request number of the query that the step may make.
\<close>

datatype session_move =
    Session_Start call_args
  | Session_Adapter call_args nat "thrown option"
  | Session_Refresh call_args
  | Read_Draft jv call_args
  | Session_Resume jv call_args
  | Session_Settle nat
  | Session_Dispose
  | Session_Client step

definition started_by_session :: "'w session_scheme \<Rightarrow> step \<Rightarrow> bool" where
  "started_by_session d k = (case k of Subscribed s _ \<Rightarrow> se_starting d = Some s | _ \<Rightarrow> False)"

fun session_step :: "session_world \<Rightarrow> world \<Rightarrow> (view \<Rightarrow> 'w session_scheme \<Rightarrow> 'w session_scheme) \<Rightarrow> session_move \<Rightarrow> 'w session_scheme \<Rightarrow> 'w session_scheme" where
  "session_step sw w hear (Session_Start a) d = snd (session_start sw hear a d)"
| "session_step sw w hear (Session_Adapter a s raised) d = snd (session_adapter sw hear a s raised d)"
| "session_step sw w hear (Session_Refresh a) d = snd (session_refresh sw hear a d)"
| "session_step sw w hear (Read_Draft input a) d = snd (readDraft sw input a d)"
| "session_step sw w hear (Session_Resume m a) d = snd (session_resume sw m a d)"
| "session_step sw w hear (Session_Settle n) d = snd (session_settle sw hear n d)"
| "session_step sw w hear Session_Dispose d = snd (session_dispose hear d)"
| "session_step sw w hear (Session_Client k) d =
     (if started_by_session d k then d else snd (delivering sw hear (client_step (sw_options sw) w k) d))"

end
