(* ===== verification/Js_Kept.thy ===== *)
theory Js_Kept imports Js_State begin

text \<open>
  What every run of an action keeps: from a state that satisfies \<open>ok\<close> it ends, also when it throws, in one that does and that is not
  before the first in the order \<open>le\<close>. The rules follow the forms of statements; a component interprets the locale with its
  own invariant and order.
\<close>

definition keeps :: "('s \<Rightarrow> bool) \<Rightarrow> ('s \<Rightarrow> 's \<Rightarrow> bool) \<Rightarrow> ('s, 'a) act \<Rightarrow> bool" where
  "keeps ok le m \<longleftrightarrow> (\<forall>d. ok d \<longrightarrow> wp m (\<lambda>_ e. ok e \<and> le d e) d)"

lemma keepsD: "keeps ok le m \<Longrightarrow> ok d \<Longrightarrow> wp m (\<lambda>_ e. ok e \<and> le d e) d"
  by (simp add: keeps_def)

lemma keeps_snd: "keeps ok le m \<Longrightarrow> ok d \<Longrightarrow> ok (snd (m d)) \<and> le d (snd (m d))"
  by (simp add: keeps_def wp_after)

lemma keeps_if: "(b \<Longrightarrow> keeps ok le m) \<Longrightarrow> (\<not> b \<Longrightarrow> keeps ok le n) \<Longrightarrow> keeps ok le (if b then m else n)"
  by simp

lemma keeps_withS: "(\<And>d. ok d \<Longrightarrow> keeps ok le (f d)) \<Longrightarrow> keeps ok le (withS f)"
  by (simp add: keeps_def wp_rules)

lemma keeps_at: "(\<And>d. ok d \<Longrightarrow> wp (f d) (\<lambda>_ e. ok e \<and> le d e) d) \<Longrightarrow> keeps ok le (withS f)"
  by (simp add: keeps_def wp_rules)

lemma keeps_option: "(v = None \<Longrightarrow> keeps ok le m) \<Longrightarrow> (\<And>x. v = Some x \<Longrightarrow> keeps ok le (f x)) \<Longrightarrow> keeps ok le (case v of None \<Rightarrow> m | Some x \<Rightarrow> f x)"
  by (cases v) simp_all

lemma keeps_sum: "(\<And>x. v = Inl x \<Longrightarrow> keeps ok le (f x)) \<Longrightarrow> (\<And>x. v = Inr x \<Longrightarrow> keeps ok le (g x)) \<Longrightarrow> keeps ok le (case v of Inl x \<Rightarrow> f x | Inr x \<Rightarrow> g x)"
  by (cases v) simp_all

lemma keeps_prod: "(\<And>x y. v = (x, y) \<Longrightarrow> keeps ok le (f x y)) \<Longrightarrow> keeps ok le (case v of (x, y) \<Rightarrow> f x y)"
  by (cases v) simp

lemma wp_after_upd: "wp (next_act (upd g) m) Q s \<longleftrightarrow> wp m Q (g s)"
  by (simp add: wp_rules)

locale keeping =
  fixes ok :: "'s \<Rightarrow> bool" and le :: "'s \<Rightarrow> 's \<Rightarrow> bool"
  assumes le_refl: "le d d"
    and le_trans: "le a b \<Longrightarrow> le b c \<Longrightarrow> le a c"
begin

lemma keeps_ret: "keeps ok le (ret x)"
  by (simp add: keeps_def wp_rules le_refl)

lemma keeps_ask: "keeps ok le (ask f)"
  by (simp add: keeps_def wp_rules le_refl)

lemma keeps_upd: "(\<And>d. ok d \<Longrightarrow> ok (g d) \<and> le d (g d)) \<Longrightarrow> keeps ok le (upd g)"
  by (simp add: keeps_def wp_rules)

text \<open>An action that runs from a later state.\<close>

lemma wp_later:
  assumes "keeps ok le m" "ok e \<and> le d e"
  shows "wp m (\<lambda>_ f. ok f \<and> le d f) e"
  by (rule wp_mono [OF keepsD [OF assms(1)]]) (use assms(2) in \<open>auto intro: le_trans\<close>)

lemma keeps_seq:
  assumes "keeps ok le m" "\<And>x. keeps ok le (f x)"
  shows "keeps ok le (seq m f)"
  unfolding keeps_def wp_seq
proof (intro allI impI)
  fix d assume "ok d"
  from keepsD [OF assms(1) this]
  show "wp m (\<lambda>r t. (\<forall>e. r = Inl e \<longrightarrow> ok t \<and> le d t) \<and> (\<forall>x. r = Inr x \<longrightarrow> wp (f x) (\<lambda>_ e. ok e \<and> le d e) t)) d"
    by (rule wp_mono) (auto intro: wp_later [OF assms(2)])
qed

text \<open>One action after another, from a later state; the second may use what the first has kept.\<close>

lemma wp_step:
  assumes "keeps ok le m" "ok e \<and> le d e" "\<And>x f. ok f \<Longrightarrow> le e f \<Longrightarrow> le d f \<Longrightarrow> wp (g x) (\<lambda>_ h. ok h \<and> le d h) f"
  shows "wp (seq m g) (\<lambda>_ h. ok h \<and> le d h) e"
  unfolding wp_seq
  by (rule wp_mono [OF keepsD [OF assms(1)]]) (use assms(2,3) le_trans in blast)+

lemma keeps_catch:
  assumes "keeps ok le m" "keeps ok le h"
  shows "keeps ok le (catchS m h)"
  unfolding keeps_def wp_catch
proof (intro allI impI)
  fix d assume "ok d"
  from keepsD [OF assms(1) this]
  show "wp m (\<lambda>r t. (\<forall>e. r = Inl e \<longrightarrow> wp h (\<lambda>_ e. ok e \<and> le d e) t) \<and> (\<forall>x. r = Inr x \<longrightarrow> ok t \<and> le d t)) d"
    by (rule wp_mono) (auto intro: wp_later [OF assms(2)])
qed

lemma keeps_finally:
  assumes "keeps ok le m" "keeps ok le h"
  shows "keeps ok le (finallyS m h)"
  unfolding keeps_def wp_finally
proof (intro allI impI)
  fix d assume "ok d"
  from keepsD [OF assms(1) this]
  show "wp m (\<lambda>r t. wp h (\<lambda>r' u. (\<forall>e. r' = Inl e \<longrightarrow> ok u \<and> le d u) \<and> (r' = Inr () \<longrightarrow> ok u \<and> le d u)) t) d"
  proof (rule wp_mono)
    fix r t assume "ok t \<and> le d t"
    from wp_later [OF assms(2) this]
    show "wp h (\<lambda>r' u. (\<forall>e. r' = Inl e \<longrightarrow> ok u \<and> le d u) \<and> (r' = Inr () \<longrightarrow> ok u \<and> le d u)) t" by (rule wp_mono) blast
  qed
qed

lemma keeps_unless: "keeps ok le m \<Longrightarrow> keeps ok le n \<Longrightarrow> keeps ok le (unlessS c m n)"
  unfolding unlessS_def by (rule keeps_seq [OF keeps_ask]) simp

lemma keeps_check: "keeps ok le m \<Longrightarrow> keeps ok le (checkS f m)"
  unfolding checkS_def by (rule keeps_seq [OF keeps_ask])

lemmas keeps_forms = keeps_seq keeps_ret keeps_ask keeps_unless keeps_check keeps_catch keeps_finally keeps_if keeps_withS keeps_option keeps_sum keeps_prod

end

end
