(* ===== verification/Client_Steps.thy ===== *)
theory Client_Steps imports Bridge_Client Machines begin

text \<open>
  The elementary changes of the client's state, and that every step is a sequence of them. A change
  names what has been checked before it is made: who settles a call and with what, and which
  replay a new call belongs to.
\<close>

section \<open>Elementary changes\<close>

definition answers :: "world \<Rightarrow> exchange \<Rightarrow> jv \<Rightarrow> bool" where
  "answers w x result \<longleftrightarrow> (\<exists>frame. replyVerdict (reply_schema w) x frame = Inr (Answers result))"

text \<open>An output that may be returned for a request: it answers it and its digest is the one expected.\<close>

definition approved :: "world \<Rightarrow> exchange \<Rightarrow> jv \<Rightarrow> bool" where
  "approved w x result \<longleftrightarrow> answers w x result
     \<and> (case digestCheck (sha_256 w) (x_request x) result of None \<Rightarrow> True | Some (digest, expected) \<Rightarrow> \<exists>d. digest = Inr d \<and> expected = JStr d)"

definition stage_fits :: "world \<Rightarrow> exchange \<Rightarrow> stage \<Rightarrow> bool" where
  "stage_fits w x s \<longleftrightarrow> (\<forall>digest expected result. s = Digesting digest expected result \<longrightarrow>
     answers w x result \<and> digestCheck (sha_256 w) (x_request x) result = Some (digest, expected))"

text \<open>\<open>tr\<close> says that the transport is being heard on whether it sent the request.\<close>

definition may_settle :: "world \<Rightarrow> bool \<Rightarrow> exchange \<Rightarrow> jv outcome \<Rightarrow> bool" where
  "may_settle w tr x r \<longleftrightarrow> (outcome_delivery r = Not_Sent \<longrightarrow> tr \<or> \<not> x_sent x)
     \<and> (\<forall>v m. r = Returned v m \<longrightarrow> (\<exists>result. approved w x result \<and> v = result_output result))"

definition may_enter :: "options \<Rightarrow> metadata \<Rightarrow> client \<Rightarrow> bool" where
  "may_enter opt m c \<longleftrightarrow> \<not> c_disposed c \<and> length (c_pending c) < maximumPending opt \<and> m_requestId m \<notin> set (c_recent c)
     \<and> m_requestId m \<notin> fst ` set (c_pending c)"

inductive client_change :: "options \<Rightarrow> world \<Rightarrow> bool \<Rightarrow> client \<Rightarrow> client \<Rightarrow> bool" for opt w tr where
  settles: "call_of c n = Some x \<Longrightarrow> \<not> x_settled x \<Longrightarrow> may_settle w tr x r \<Longrightarrow> client_change opt w tr c (finish n r c)"
| stages: "call_of c n = Some x \<Longrightarrow> s \<noteq> Scheduling \<Longrightarrow> stage_fits w x s \<Longrightarrow> client_change opt w tr c (set_call n (x\<lparr>x_stage := s\<rparr>) c)"
| sends: "call_of c n = Some x \<Longrightarrow> x_stage x = Scheduling \<Longrightarrow> \<not> x_settled x
    \<Longrightarrow> client_change opt w tr c (set_call n (x\<lparr>x_sent := True, x_stage := Exchanging\<rparr>) c)"
| aborts: "call_of c n = Some x \<Longrightarrow> client_change opt w tr c (set_call n (x\<lparr>x_aborted := True\<rparr>) c)"
| refuses: "client_change opt w tr c (fst (at_once code m c))"
| enters: "may_enter opt m c \<Longrightarrow> client_change opt w tr c (enter opt request m None None c)"
| enters_again: "may_enter opt m c \<Longrightarrow> map_of (c_replays c) key = Some p
    \<Longrightarrow> client_change opt w tr c (enter opt request m (Some (rp_request p)) (Some key) (reserve (rp_request p) c))"
| enters_first: "may_enter opt m c \<Longrightarrow> map_of (c_replays c) key = None \<Longrightarrow> length (c_replays c) < maximumReplays opt
    \<Longrightarrow> client_change opt w tr c (enter opt request m (Some (c_next c)) (Some key) (reserve (c_next c) (keep_replay key commit c)))"
| learns: "map_of (c_replays c) key = Some p \<Longrightarrow> rp_operationId p = None
    \<Longrightarrow> client_change opt w tr c (c\<lparr>c_replays := AList.update key (p\<lparr>rp_operationId := Some oid\<rparr>) (c_replays c)\<rparr>)"
| forgets: "client_change opt w tr c (c\<lparr>c_replays := AList.delete key (c_replays c)\<rparr>)"
| subscribes: "length (c_subscriptions c) < maximumSubscriptions opt
    \<Longrightarrow> client_change opt w tr c (set_sub (c_next c) v (c\<lparr>c_next := Suc (c_next c), c_subscriptions := c_subscriptions c @ [c_next c]\<rparr>))"
| unsubscribes: "client_change opt w tr c (c\<lparr>c_subscriptions := remove1 s (c_subscriptions c)\<rparr>)"
| tells: "c_next c \<le> nx \<Longrightarrow> client_change opt w tr c (c\<lparr>c_next := nx, c_subs := ss, c_events := es, c_faults := fs\<rparr>)"
| disposes: "client_change opt w tr c (c\<lparr>c_disposed := True\<rparr>)"

definition client_does :: "options \<Rightarrow> world \<Rightarrow> bool \<Rightarrow> client \<Rightarrow> client \<Rightarrow> bool" where
  "client_does opt w tr c d \<longleftrightarrow> (client_change opt w tr)\<^sup>*\<^sup>* c d"

lemma cd_refl [simp, intro]: "client_does opt w tr c c"
  by (simp add: client_does_def)

lemma cd_trans: "client_does opt w tr c d \<Longrightarrow> client_does opt w tr d e \<Longrightarrow> client_does opt w tr c e"
  by (simp add: client_does_def)

lemma cd_change: "client_change opt w tr c d \<Longrightarrow> client_does opt w tr c d"
  by (simp add: client_does_def)

lemma cd_then: "client_does opt w tr c d \<Longrightarrow> client_change opt w tr d e \<Longrightarrow> client_does opt w tr c e"
  by (auto simp: client_does_def)

section \<open>Calls in the table\<close>

lemma call_of_set [simp]: "call_of (set_call n x c) m = (if m = n then Some x else call_of c m)"
  by (simp add: call_of_def set_call_def update_conv)

lemma set_call_fields [simp]:
  "c_pending (set_call n x c) = c_pending c" "c_replays (set_call n x c) = c_replays c" "c_recent (set_call n x c) = c_recent c"
  "c_submissions (set_call n x c) = c_submissions c" "c_subscriptions (set_call n x c) = c_subscriptions c"
  "c_disposed (set_call n x c) = c_disposed c" "c_next (set_call n x c) = c_next c" "c_outcomes (set_call n x c) = c_outcomes c"
  "c_subs (set_call n x c) = c_subs c" "c_events (set_call n x c) = c_events c" "c_faults (set_call n x c) = c_faults c"
  by (simp_all add: set_call_def)

lemma custody_fields [simp]:
  "c_pending (custody n x r c) = c_pending c" "c_replays (custody n x r c) = c_replays c" "c_recent (custody n x r c) = c_recent c"
  "c_subscriptions (custody n x r c) = c_subscriptions c" "c_disposed (custody n x r c) = c_disposed c" "c_next (custody n x r c) = c_next c"
  "c_outcomes (custody n x r c) = c_outcomes c" "call_of (custody n x r c) m = call_of c m" "c_calls (custody n x r c) = c_calls c"
  by (simp_all add: custody_def call_of_def split: option.split)

lemma call_of_other [simp]:
  "call_of (c\<lparr>c_pending := a\<rparr>) m = call_of c m" "call_of (c\<lparr>c_outcomes := b\<rparr>) m = call_of c m" "call_of (c\<lparr>c_replays := d\<rparr>) m = call_of c m"
  "call_of (c\<lparr>c_submissions := e\<rparr>) m = call_of c m" "call_of (c\<lparr>c_next := f\<rparr>) m = call_of c m" "call_of (c\<lparr>c_recent := g\<rparr>) m = call_of c m"
  "call_of (c\<lparr>c_subscriptions := h\<rparr>) m = call_of c m" "call_of (c\<lparr>c_subs := i\<rparr>) m = call_of c m" "call_of (c\<lparr>c_events := j\<rparr>) m = call_of c m"
  "call_of (c\<lparr>c_faults := k\<rparr>) m = call_of c m" "call_of (c\<lparr>c_disposed := l\<rparr>) m = call_of c m"
  by (simp_all add: call_of_def)

lemma call_of_finish:
  "call_of (finish n r c) m = (case call_of c n of Some x \<Rightarrow> if m = n \<and> \<not> x_settled x then Some (x\<lparr>x_settled := True\<rparr>) else call_of c m | None \<Rightarrow> call_of c m)"
  by (auto simp: finish_def Let_def split: option.split)

section \<open>Each step is a sequence of changes\<close>

lemma finish_does:
  assumes "\<And>x. call_of c n = Some x \<Longrightarrow> \<not> x_settled x \<Longrightarrow> may_settle w tr x r"
  shows "client_does opt w tr c (finish n r c)"
proof (cases "call_of c n")
  case None
  then show ?thesis by (simp add: finish_def)
next
  case (Some x)
  show ?thesis
  proof (cases "x_settled x")
    case True
    then show ?thesis using Some by (simp add: finish_def)
  next
    case False
    then show ?thesis using cd_change client_change.settles [OF Some] assms [OF Some] by blast
  qed
qed

lemma fault_may_settle: "may_settle w tr x (mk_fault code dlv m) \<longleftrightarrow> (dlv = Not_Sent \<longrightarrow> tr \<or> \<not> x_sent x)"
  by (simp add: may_settle_def mk_fault_def outcome_delivery_def)

lemma failed_does:
  assumes "\<And>x. call_of c n = Some x \<Longrightarrow> dlv = Not_Sent \<Longrightarrow> tr \<or> \<not> x_sent x"
  shows "client_does opt w tr c (failed n code dlv c)"
  unfolding failed_def by (cases "call_of c n") (auto intro!: finish_does simp: fault_may_settle dest: assms)

lemma at_stage_does:
  assumes "\<And>x. call_of c n = Some x \<Longrightarrow> s \<noteq> Scheduling \<and> stage_fits w x s"
  shows "client_does opt w tr c (at_stage n s c)"
  unfolding at_stage_def using assms by (cases "call_of c n") (auto intro: cd_change client_change.stages)

lemma ended_does: "client_does opt w tr c d \<Longrightarrow> client_does opt w tr c (at_stage n Ended d)"
  by (erule cd_trans) (rule at_stage_does, simp add: stage_fits_def)

lemma abandon_does: "client_does opt w tr c (abandon code n c)"
proof (cases "call_of c n")
  case (Some x)
  let ?d = "failed n code (if x_sent x then May_Have_Reached_Backend else Not_Sent) c"
  have d: "client_does opt w tr c ?d" by (rule failed_does) (use Some in auto)
  obtain y where y: "call_of ?d n = Some y"
    using Some by (cases "x_settled x") (auto simp: failed_def call_of_finish)
  have "client_change opt w tr ?d (set_call n (y\<lparr>x_aborted := True\<rparr>) ?d)" using y by (rule client_change.aborts)
  then show ?thesis using cd_then [OF d] Some y by (simp add: abandon_def Let_def)
qed (simp add: abandon_def)

lemma start_does:
  assumes "client_change opt w tr c0 (enter opt request m owner key c)"
  shows "client_does opt w tr c0 (fst (start opt a request m owner key c))"
  using cd_change [OF assms] by (auto simp: start_def Let_def intro!: ended_does intro: cd_trans [OF _ abandon_does])

lemmas starts_does = client_change.enters [THEN start_does] client_change.enters_again [THEN start_does]
  client_change.enters_first [THEN start_does]

lemma refuse_does: "client_does opt w tr c (fst (at_once code m c))"
  by (rule cd_change) (rule client_change.refuses)

lemma call_client_does: "client_does opt w tr c (fst (call_client opt valid a c))"
  unfolding call_client_def Let_def
  by (auto intro!: refuse_does starts_does simp: may_enter_def not_le split: sum.split option.split prod.split bool.split)

lemma replayCommit_does: "client_does opt w tr c (fst (replayCommit opt valid key a c))"
  by (simp add: replayCommit_def call_client_does refuse_does split: option.split)

lemma scheduled_does: "client_does opt w tr c (scheduled n ok c)"
proof (cases "call_of c n")
  case (Some x)
  then show ?thesis
    by (auto simp: scheduled_def intro!: ended_does intro: abandon_does cd_change client_change.sends)
qed (simp add: scheduled_def)

lemma exchanged_does: "client_does opt w True c (exchanged n raised c)"
  by (auto simp: exchanged_def stage_fits_def split: option.split prod.split intro!: ended_does failed_does at_stage_does)

lemma rejected_does: "client_does opt w True c (rejected n v c)"
  by (auto simp: rejected_def split: option.split prod.split intro!: ended_does failed_does)

lemma not_not_sent: "client_does opt w tr c (failed n code May_Have_Reached_Backend c)"
  by (rule failed_does) simp

lemma replyVerdict_cong:
  assumes "x_request y = x_request x" "x_metadata y = x_metadata x"
  shows "replyVerdict valid y f = replyVerdict valid x f"
  unfolding replyVerdict_def assms ..

lemma answers_stage [simp]: "answers w (x\<lparr>x_stage := s\<rparr>) r = answers w x r" "answers w (x\<lparr>x_settled := b\<rparr>) r = answers w x r"
  "answers w (x\<lparr>x_aborted := b\<rparr>) r = answers w x r" "answers w (x\<lparr>x_sent := b\<rparr>) r = answers w x r"
  by (simp_all add: answers_def replyVerdict_cong [of "x\<lparr>x_stage := s\<rparr>" x] replyVerdict_cong [of "x\<lparr>x_settled := b\<rparr>" x]
    replyVerdict_cong [of "x\<lparr>x_aborted := b\<rparr>" x] replyVerdict_cong [of "x\<lparr>x_sent := b\<rparr>" x])

lemma answered_does:
  assumes "\<And>x. call_of c n = Some x \<Longrightarrow> approved w x result"
  shows "client_does opt w tr c (answered n result c)"
proof (cases "call_of c n")
  case (Some x)
  let ?r = "Returned (result_output result) (x_metadata x)"
  have ok: "client_does opt w tr d (finish n ?r d)" if "call_of d n = Some x" for d
    using assms [OF Some] that by (intro finish_does) (auto simp: may_settle_def outcome_delivery_def)
  have learned: "client_does opt w tr c (finish n ?r (c\<lparr>c_replays := AList.update key (p\<lparr>rp_operationId := Some oid\<rparr>) (c_replays c)\<rparr>))"
    if "map_of (c_replays c) key = Some p" "rp_operationId p = None" for key p oid
    by (rule cd_trans [OF cd_change [OF client_change.learns [OF that]] ok]) (simp add: Some)
  show ?thesis unfolding answered_def Let_def using Some ok [OF Some] not_not_sent learned
    by (auto split: option.split sum.split bool.split)
qed (simp add: answered_def)

lemma received_does: "client_does opt w tr c (received (sha_256 w) (reply_schema w) n frame c)"
proof (cases "call_of c n")
  case (Some x)
  have fin: "client_does opt w tr c (finish n (Rejected e m) c)" for e m
    by (rule finish_does) (simp add: may_settle_def outcome_delivery_def)
  have ans: "client_does opt w tr c (answered n result c)"
    if "replyVerdict (reply_schema w) x frame = Inr (Answers result)" "digestCheck (sha_256 w) (x_request x) result = None" for result
    by (rule answered_does) (use that Some in \<open>auto simp: approved_def answers_def\<close>)
  have dig: "client_does opt w tr c (at_stage n (Digesting d e result) c)"
    if "replyVerdict (reply_schema w) x frame = Inr (Answers result)" "digestCheck (sha_256 w) (x_request x) result = Some (d, e)" for d e result
    by (rule at_stage_does) (use that Some in \<open>auto simp: stage_fits_def answers_def\<close>)
  show ?thesis
    unfolding received_def using Some
    by (auto intro!: ended_does not_not_sent fin ans dig split: sum.split verdict.split option.split)
qed (simp add: received_def)

text \<open>A call that waits for a digest waits for the one its reply calls for.\<close>

definition stages_ok :: "world \<Rightarrow> client \<Rightarrow> bool" where
  "stages_ok w c \<longleftrightarrow> (\<forall>n x. call_of c n = Some x \<longrightarrow> stage_fits w x (x_stage x))"

lemma digested_does:
  assumes "stages_ok w c"
  shows "client_does opt w tr c (digested n c)"
proof (cases "call_of c n")
  case (Some x)
  then have fits: "stage_fits w x (x_stage x)" using assms by (simp add: stages_ok_def)
  have ans: "client_does opt w tr c (answered n result c)" if "x_stage x = Digesting (Inr d) (JStr d) result" for d result
    by (rule answered_does) (use that Some fits in \<open>auto simp: stage_fits_def approved_def\<close>)
  show ?thesis
    unfolding digested_def using Some
    by (auto intro!: ended_does not_not_sent ans split: stage.split sum.split)
qed (simp add: digested_def)

lemma forget_does: "client_does opt w tr c (fst (forgetReplay key c))" "client_does opt w tr c (fst (forgetUnsentReplay key n c))"
  by (auto simp: forgetReplay_def forgetUnsentReplay_def split: option.split intro: cd_change client_change.forgets)

text \<open>Changes of the subscriptions' own records.\<close>

lemma tells_does:
  assumes "c_next c \<le> c_next d" "d = c\<lparr>c_next := c_next d, c_subs := c_subs d, c_events := c_events d, c_faults := c_faults d\<rparr>"
  shows "client_does opt w tr c d"
  by (subst assms(2)) (rule cd_change [OF client_change.tells [OF assms(1)]])

lemma set_sub_does: "client_does opt w tr c (set_sub s v c)"
  by (rule tells_does) (simp_all add: set_sub_def)

lemma stop_sub_does: "client_does opt w tr c (stop_sub s c)"
  by (auto simp: stop_sub_def split: option.split intro!: set_sub_does cd_trans [OF cd_change [OF client_change.unsubscribes] set_sub_does])

lemma sub_failed_does: "client_does opt w tr c (sub_failed s code dlv c)"
  unfolding sub_failed_def Let_def by (rule cd_trans [OF stop_sub_does [where s = s]], rule tells_does) simp_all

lemma subscribe_does: "client_does opt w tr c (subscribe opt c)"
proof -
  have "client_does opt w tr c (c\<lparr>c_next := Suc (c_next c), c_faults := fs\<rparr>)" for fs by (rule tells_does) simp_all
  moreover have "client_does opt w tr c (set_sub (c_next c) v (c\<lparr>c_next := Suc (c_next c), c_subscriptions := c_subscriptions c @ [c_next c]\<rparr>))"
    if "\<not> length (c_subscriptions c) \<ge> maximumSubscriptions opt" for v
    by (rule cd_change, rule client_change.subscribes) (use that in simp)
  ultimately show ?thesis unfolding subscribe_def Let_def by simp
qed

lemma set_up_does:
  "client_does opt w tr c d \<Longrightarrow> client_does opt w tr c (case sub_of d s of None \<Rightarrow> d
     | Some u \<Rightarrow> let e = set_sub s (u\<lparr>s_settingUp := False\<rparr>) d in if \<not> s_active u \<or> c_disposed d then stop_sub s e else e)"
  by (auto simp: Let_def split: option.split intro: cd_trans [OF _ set_sub_does] cd_trans [OF _ stop_sub_does])

lemma subscribed_does: "client_does opt w tr c (subscribed s raised c)"
proof (cases "sub_of c s")
  case (Some v)
  let ?d = "case raised of None \<Rightarrow> c
      | Some e \<Rightarrow> if s_active v then (case transportFault e of (code, dlv) \<Rightarrow> sub_failed s code dlv c) else c"
  have "client_does opt w tr c ?d" by (auto split: option.split prod.split intro: sub_failed_does)
  from set_up_does [OF this] show ?thesis unfolding subscribed_def using Some by (simp add: Let_def)
qed (simp add: subscribed_def)

lemma sub_frame_does: "client_does opt w tr c (sub_frame valid s frame c)" "client_does opt w tr c (sub_fault s e c)"
  unfolding sub_frame_def sub_fault_def by (auto split: option.split sum.split prod.split intro!: tells_does sub_failed_does)

lemma fold_does: "(\<And>x c. client_does opt w tr c (f x c)) \<Longrightarrow> client_does opt w tr c (fold f xs c)"
  by (induction xs arbitrary: c) (auto intro: cd_trans)

lemma dispose_does: "client_does opt w tr c (dispose c)"
  unfolding dispose_def Let_def
  by (auto intro!: cd_trans [OF cd_change [OF client_change.disposes]] cd_trans [OF fold_does [OF abandon_does] fold_does [OF stop_sub_does]])

text \<open>The steps in which the transport is heard on what it sent.\<close>

definition transport_speaks :: "step \<Rightarrow> bool" where
  "transport_speaks k \<longleftrightarrow> (case k of Exchanged _ (Some _) \<Rightarrow> True | Raised _ _ \<Rightarrow> True | _ \<Rightarrow> False)"

lemma exchanged_quiet: "client_does opt w tr c (exchanged n None c)"
  by (auto simp: exchanged_def stage_fits_def split: option.split intro!: at_stage_does)

lemma client_step_does:
  assumes "stages_ok w c"
  shows "client_does opt w (transport_speaks k) c (client_step opt w k c)"
proof (cases k)
  case (Exchanged n raised)
  then show ?thesis by (cases raised) (simp_all add: transport_speaks_def exchanged_does exchanged_quiet)
next
  case (Digested n)
  then show ?thesis by (simp add: digested_does [OF assms])
qed (simp_all add: transport_speaks_def call_client_does replayCommit_does scheduled_does rejected_does received_does abandon_does
    forget_does subscribe_does subscribed_does sub_frame_does stop_sub_does dispose_does)

end
