(* ===== verification/Client_Custody.thy ===== *)
theory Client_Custody imports Client_Steps begin

text \<open>
  The invariant of the client and the order its state moves in, shown for the elementary changes: which calls are pending, how
  many outcomes a call has, what the latest submission of a replay is, and what may change about a replay.
\<close>

section \<open>The invariant\<close>

abbreviation rid :: "exchange \<Rightarrow> jv" where
  "rid x \<equiv> m_requestId (x_metadata x)"

abbreviation outcome_of :: "client \<Rightarrow> nat \<Rightarrow> jv outcome option" where
  "outcome_of c n \<equiv> map_of (c_outcomes c) n"

definition call_ok :: "client \<Rightarrow> nat \<Rightarrow> exchange \<Rightarrow> bool" where
  "call_ok c n x \<longleftrightarrow> n < c_next c \<and> (x_settled x \<longleftrightarrow> outcome_of c n \<noteq> None)
     \<and> (\<not> x_settled x \<longrightarrow> map_of (c_pending c) (rid x) = Some n) \<and> (x_stage x = Scheduling \<longrightarrow> \<not> x_sent x)"

definition calls_ok :: "client \<Rightarrow> bool" where
  "calls_ok c \<longleftrightarrow> (\<forall>n x. call_of c n = Some x \<longrightarrow> call_ok c n x) \<and> distinct (map fst (c_pending c))
     \<and> (\<forall>i n. map_of (c_pending c) i = Some n \<longrightarrow> (\<exists>x. call_of c n = Some x \<and> \<not> x_settled x \<and> rid x = i))"

definition outcomes_ok :: "client \<Rightarrow> bool" where
  "outcomes_ok c \<longleftrightarrow> distinct (map fst (c_outcomes c)) \<and> (\<forall>n \<in> fst ` set (c_outcomes c). n < c_next c)"

definition sizes_ok :: "options \<Rightarrow> client \<Rightarrow> bool" where
  "sizes_ok opt c \<longleftrightarrow> length (c_pending c) \<le> maximumPending opt \<and> length (c_recent c) \<le> maximumRecentIds opt
     \<and> length (c_replays c) \<le> maximumReplays opt \<and> length (c_subscriptions c) \<le> maximumSubscriptions opt"

definition owner_of :: "client \<Rightarrow> nat \<Rightarrow> nat option" where
  "owner_of c n = (case call_of c n of None \<Rightarrow> None | Some x \<Rightarrow> x_owner x)"

definition submission_ok :: "client \<Rightarrow> nat \<Rightarrow> submission \<Rightarrow> bool" where
  "submission_ok c i s \<longleftrightarrow> i < c_next c \<and> owner_of c (sb_latest s) = Some i
     \<and> (\<forall>m. owner_of c m = Some i \<longrightarrow> i \<le> m \<and> m \<le> sb_latest s)
     \<and> (sb_delivery s = Some Not_Sent \<longrightarrow> map_option outcome_delivery (outcome_of c (sb_latest s)) = Some Not_Sent)"

definition custody_ok :: "client \<Rightarrow> bool" where
  "custody_ok c \<longleftrightarrow> (\<forall>k p. map_of (c_replays c) k = Some p \<longrightarrow> map_of (c_submissions c) (rp_request p) \<noteq> None)
     \<and> (\<forall>n i. owner_of c n = Some i \<longrightarrow> map_of (c_submissions c) i \<noteq> None)
     \<and> (\<forall>i s. map_of (c_submissions c) i = Some s \<longrightarrow> submission_ok c i s)"

definition client_inv :: "options \<Rightarrow> world \<Rightarrow> client \<Rightarrow> bool" where
  "client_inv opt w c \<longleftrightarrow> calls_ok c \<and> outcomes_ok c \<and> sizes_ok opt c \<and> custody_ok c \<and> stages_ok w c"

section \<open>The order\<close>

definition call_grows :: "exchange \<Rightarrow> exchange \<Rightarrow> bool" where
  "call_grows x y \<longleftrightarrow> x_request y = x_request x \<and> x_metadata y = x_metadata x \<and> x_owner y = x_owner x \<and> x_key y = x_key x
     \<and> (x_settled x \<longrightarrow> x_settled y \<and> x_sent y = x_sent x) \<and> (x_sent x \<longrightarrow> x_sent y)"

definition replay_grows :: "replay \<Rightarrow> replay \<Rightarrow> bool" where
  "replay_grows p q \<longleftrightarrow> rp_input q = rp_input p \<and> rp_request q = rp_request p \<and> (rp_operationId p \<noteq> None \<longrightarrow> rp_operationId q = rp_operationId p)"

definition client_le :: "client \<Rightarrow> client \<Rightarrow> bool" where
  "client_le c d \<longleftrightarrow> c_next c \<le> c_next d \<and> (\<exists>new. c_outcomes d = c_outcomes c @ new)
     \<and> (\<forall>n x. call_of c n = Some x \<longrightarrow> (\<exists>y. call_of d n = Some y \<and> call_grows x y))
     \<and> (\<forall>n < c_next c. call_of c n = None \<longrightarrow> call_of d n = None)
     \<and> (\<forall>k q. map_of (c_replays d) k = Some q \<longrightarrow> c_next c \<le> rp_request q \<or> (\<exists>p. map_of (c_replays c) k = Some p \<and> replay_grows p q))
     \<and> (c_disposed c \<longrightarrow> c_disposed d \<and> set (c_pending d) \<subseteq> set (c_pending c))"

lemma call_grows_refl [simp]: "call_grows x x"
  by (simp add: call_grows_def)

lemma call_grows_trans: "call_grows x y \<Longrightarrow> call_grows y z \<Longrightarrow> call_grows x z"
  by (simp add: call_grows_def)

lemma replay_grows_refl [simp]: "replay_grows p p"
  by (simp add: replay_grows_def)

lemma replay_grows_trans: "replay_grows p q \<Longrightarrow> replay_grows q r \<Longrightarrow> replay_grows p r"
  by (auto simp: replay_grows_def)

lemma client_le_refl [simp]: "client_le c c"
  by (simp add: client_le_def)

lemma client_le_trans:
  assumes "client_le a b" "client_le b c"
  shows "client_le a c"
proof -
  have "c_next a \<le> rp_request r \<or> (\<exists>p. map_of (c_replays a) k = Some p \<and> replay_grows p r)"
    if "map_of (c_replays c) k = Some r" for k r
  proof -
    have ab: "c_next a \<le> c_next b" using assms(1) by (simp add: client_le_def)
    from that assms(2) consider "c_next b \<le> rp_request r" | q where "map_of (c_replays b) k = Some q" "replay_grows q r"
      unfolding client_le_def by blast
    then show ?thesis
    proof cases
      case 2
      then have "c_next a \<le> rp_request q \<or> (\<exists>p. map_of (c_replays a) k = Some p \<and> replay_grows p q)"
        using assms(1) unfolding client_le_def by blast
      then show ?thesis using 2 replay_grows_trans by (metis replay_grows_def)
    qed (use ab in simp)
  qed
  moreover have "\<exists>z. call_of c n = Some z \<and> call_grows x z" if "call_of a n = Some x" for n x
    using that assms call_grows_trans unfolding client_le_def by metis
  ultimately show ?thesis using assms unfolding client_le_def by (auto intro: le_trans)
qed

section \<open>Fields after a change\<close>

lemma custody_submissions: "c_submissions (custody n x r (set_call m y c)) = c_submissions (custody n x r c)"
  by (simp add: custody_def split: option.split)

lemma finish_settles:
  assumes "call_of c n = Some x" "\<not> x_settled x"
  shows "c_outcomes (finish n r c) = c_outcomes c @ [(n, r)]" "c_pending (finish n r c) = AList.delete (rid x) (c_pending c)"
    "c_replays (finish n r c) = c_replays c" "c_recent (finish n r c) = c_recent c" "c_subscriptions (finish n r c) = c_subscriptions c"
    "c_disposed (finish n r c) = c_disposed c" "c_next (finish n r c) = c_next c"
    "call_of (finish n r c) m = (if m = n then Some (x\<lparr>x_settled := True\<rparr>) else call_of c m)"
    "c_submissions (finish n r c) = c_submissions (custody n x r c)"
  using assms by (simp_all add: finish_def Let_def custody_submissions)

lemma enter_fields [simp]:
  "c_next (enter opt req m w k c) = Suc (c_next c)" "c_outcomes (enter opt req m w k c) = c_outcomes c"
  "c_replays (enter opt req m w k c) = c_replays c" "c_submissions (enter opt req m w k c) = c_submissions c"
  "c_pending (enter opt req m w k c) = AList.update (m_requestId m) (c_next c) (c_pending c)"
  "c_recent (enter opt req m w k c) = remember_id opt (m_requestId m) (c_recent c)"
  "c_subscriptions (enter opt req m w k c) = c_subscriptions c" "c_disposed (enter opt req m w k c) = c_disposed c"
  "call_of (enter opt req m w k c) n = (if n = c_next c then Some \<lparr>x_request = req, x_metadata = m, x_owner = w, x_key = k,
      x_settled = False, x_sent = False, x_aborted = False, x_stage = Scheduling\<rparr> else call_of c n)"
  by (simp_all add: enter_def)

lemma reserve_fields [simp]:
  "c_next (reserve i c) = c_next c" "c_outcomes (reserve i c) = c_outcomes c" "c_replays (reserve i c) = c_replays c"
  "c_pending (reserve i c) = c_pending c" "c_recent (reserve i c) = c_recent c" "c_subscriptions (reserve i c) = c_subscriptions c"
  "c_disposed (reserve i c) = c_disposed c" "call_of (reserve i c) n = call_of c n"
  "c_submissions (reserve i c) = AList.update i \<lparr>sb_latest = c_next c, sb_delivery = None\<rparr> (c_submissions c)"
  by (simp_all add: reserve_def)

lemma keep_replay_fields [simp]:
  "c_next (keep_replay k v c) = c_next c" "c_outcomes (keep_replay k v c) = c_outcomes c" "c_pending (keep_replay k v c) = c_pending c"
  "c_recent (keep_replay k v c) = c_recent c" "c_subscriptions (keep_replay k v c) = c_subscriptions c"
  "c_disposed (keep_replay k v c) = c_disposed c" "call_of (keep_replay k v c) n = call_of c n"
  "c_submissions (keep_replay k v c) = c_submissions c"
  "c_replays (keep_replay k v c) = AList.update k \<lparr>rp_input = v, rp_request = c_next c, rp_operationId = None\<rparr> (c_replays c)"
  by (simp_all add: keep_replay_def)

lemma at_once_fields [simp]:
  "c_next (fst (at_once code m c)) = Suc (c_next c)" "c_outcomes (fst (at_once code m c)) = c_outcomes c @ [(c_next c, mk_fault code Not_Sent m)]"
  "c_pending (fst (at_once code m c)) = c_pending c" "c_recent (fst (at_once code m c)) = c_recent c"
  "c_subscriptions (fst (at_once code m c)) = c_subscriptions c" "c_disposed (fst (at_once code m c)) = c_disposed c"
  "call_of (fst (at_once code m c)) n = call_of c n" "c_submissions (fst (at_once code m c)) = c_submissions c"
  "c_replays (fst (at_once code m c)) = c_replays c"
  by (simp_all add: at_once_def Let_def)

lemma set_sub_fields [simp]:
  "c_next (set_sub s v c) = c_next c" "c_outcomes (set_sub s v c) = c_outcomes c" "c_pending (set_sub s v c) = c_pending c"
  "c_recent (set_sub s v c) = c_recent c" "c_subscriptions (set_sub s v c) = c_subscriptions c" "c_disposed (set_sub s v c) = c_disposed c"
  "call_of (set_sub s v c) n = call_of c n" "c_submissions (set_sub s v c) = c_submissions c" "c_replays (set_sub s v c) = c_replays c"
  by (simp_all add: set_sub_def)

lemma longer_update: "length (AList.update k v xs) = (if k \<in> fst ` set xs then length xs else Suc (length xs))"
  by (induction xs) auto

lemma length_delete: "length (AList.delete k xs) \<le> length xs"
  by (simp add: AList.delete_eq)

lemma length_remember: "0 < maximumRecentIds opt \<Longrightarrow> length ids \<le> maximumRecentIds opt \<Longrightarrow> length (remember_id opt i ids) \<le> maximumRecentIds opt"
  by (auto simp: remember_id_def Let_def set_add_def)

section \<open>The order holds\<close>

lemma call_known: "calls_ok c \<Longrightarrow> call_of c n = Some x \<Longrightarrow> n < c_next c"
  by (simp add: calls_ok_def call_ok_def)

lemma change_le: "client_change opt w tr c d \<Longrightarrow> calls_ok c \<Longrightarrow> client_le c d"
proof (induction rule: client_change.induct)
  case (settles c n x r)
  then show ?case unfolding client_le_def finish_settles [OF settles(1,2)]
    by (auto simp: call_grows_def AList.delete_eq)
next
  case (learns c key p oid)
  then show ?case by (auto simp: client_le_def update_conv replay_grows_def)
next
  case (forgets c key)
  then show ?case by (auto simp: client_le_def delete_conv split: if_splits)
next
  case (enters_first m c key request commit)
  then show ?case by (auto simp: client_le_def may_enter_def update_conv dest: call_known split: if_splits)
qed (auto simp: client_le_def call_grows_def may_enter_def dest: call_known)

section \<open>The invariant holds\<close>

lemma change_outcomes: "client_change opt w tr c d \<Longrightarrow> calls_ok c \<Longrightarrow> outcomes_ok c \<Longrightarrow> outcomes_ok d"
proof (induction rule: client_change.induct)
  case (settles c n x r)
  then have "n \<notin> fst ` set (c_outcomes c)" "n < c_next c"
    by (auto simp: calls_ok_def call_ok_def map_of_eq_None_iff)
  then show ?case using settles(5) by (simp add: outcomes_ok_def finish_settles [OF settles(1,2)])
qed (auto simp: outcomes_ok_def less_Suc_eq intro: less_trans)

lemma change_sizes: "client_change opt w tr c d \<Longrightarrow> 0 < maximumRecentIds opt \<Longrightarrow> sizes_ok opt c \<Longrightarrow> sizes_ok opt d"
proof (induction rule: client_change.induct)
  case (settles c n x r)
  then show ?case using length_delete [of "rid x" "c_pending c"] by (simp add: sizes_ok_def finish_settles [OF settles(1,2)])
next
  case (forgets c key)
  then show ?case using length_delete [of key "c_replays c"] by (simp add: sizes_ok_def)
next
  case (learns c key p oid)
  then have "key \<in> fst ` set (c_replays c)" by (metis domI dom_map_of_conv_image_fst)
  then show ?case using learns by (simp add: sizes_ok_def longer_update)
next
  case (unsubscribes c s)
  then show ?case by (auto simp: sizes_ok_def length_remove1)
qed (auto simp: sizes_ok_def may_enter_def longer_update length_remember)

lemma change_stages: "client_change opt w tr c d \<Longrightarrow> stages_ok w c \<Longrightarrow> stages_ok w d"
proof (induction rule: client_change.induct)
  case (settles c n x r)
  then show ?case by (auto simp: stages_ok_def finish_settles [OF settles(1,2)] stage_fits_def)
qed (auto simp: stages_ok_def stage_fits_def)

lemma calls_ok_fields:
  "calls_ok c \<Longrightarrow> (\<And>n. call_of d n = call_of c n) \<Longrightarrow> c_pending d = c_pending c \<Longrightarrow> c_outcomes d = c_outcomes c \<Longrightarrow> c_next c \<le> c_next d
   \<Longrightarrow> calls_ok d"
proof -
  assume a: "calls_ok c" "\<And>n. call_of d n = call_of c n" "c_pending d = c_pending c" "c_outcomes d = c_outcomes c" "c_next c \<le> c_next d"
  have "call_ok d n x" if "call_ok c n x" for n x using that a by (auto simp: call_ok_def)
  with a(1) show "calls_ok d" unfolding calls_ok_def a by blast
qed

lemma calls_ok_set:
  assumes "calls_ok c" "call_of c n = Some x" "x_settled y = x_settled x" "rid y = rid x" "x_stage y = Scheduling \<longrightarrow> \<not> x_sent y"
  shows "calls_ok (set_call n y c)"
proof -
  have "call_ok c n x" using assms(1,2) by (simp add: calls_ok_def)
  then have "call_ok (set_call n y c) n y" using assms(3-5) by (auto simp: call_ok_def)
  moreover have "call_ok (set_call n y c) m z = call_ok c m z" for m z by (simp add: call_ok_def)
  moreover have "\<exists>z. call_of (set_call n y c) m = Some z \<and> \<not> x_settled z \<and> rid z = i" if p: "map_of (c_pending c) i = Some m" for i m
  proof -
    obtain z where z: "call_of c m = Some z" "\<not> x_settled z" "rid z = i" using p assms(1) unfolding calls_ok_def by blast
    then show ?thesis using assms(2-4) by (cases "m = n") auto
  qed
  ultimately show ?thesis using assms(1) unfolding calls_ok_def by simp
qed

lemma calls_ok_enter:
  assumes "calls_ok c" "outcomes_ok c" "m_requestId m \<notin> fst ` set (c_pending c)"
  shows "calls_ok (enter opt request m ow key c)"
proof -
  let ?d = "enter opt request m ow key c"
  have no: "outcome_of c (c_next c) = None" using assms(2) by (auto simp: outcomes_ok_def map_of_eq_None_iff)
  have "call_ok ?d n x" if "call_of ?d n = Some x" for n x
  proof (cases "n = c_next c")
    case True
    then show ?thesis using that no by (auto simp: call_ok_def update_conv)
  next
    case False
    then have x: "call_ok c n x" using that assms(1) by (simp add: calls_ok_def)
    then have "x_settled x \<or> rid x \<noteq> m_requestId m"
      using assms(3) by (metis call_ok_def domI dom_map_of_conv_image_fst)
    with x show ?thesis by (auto simp: call_ok_def update_conv)
  qed
  moreover have "\<exists>x. call_of ?d n = Some x \<and> \<not> x_settled x \<and> rid x = i" if "map_of (c_pending ?d) i = Some n" for i n
    using that assms(1) call_known [OF assms(1)] by (fastforce simp: update_conv calls_ok_def split: if_splits)
  ultimately show ?thesis using assms(1) distinct_update [of "c_pending c"] unfolding calls_ok_def by simp
qed

lemma calls_ok_finish:
  assumes "calls_ok c" "call_of c n = Some x" "\<not> x_settled x"
  shows "calls_ok (finish n r c)"
proof -
  note f = finish_settles [OF assms(2,3)]
  have "call_ok c n x" using assms(1,2) by (simp add: calls_ok_def)
  with assms(3) have x: "call_ok c n x" "map_of (c_pending c) (rid x) = Some n" by (simp_all add: call_ok_def)
  have "call_ok (finish n r c) m y" if "call_of (finish n r c) m = Some y" for m y
  proof (cases "m = n")
    case True
    then show ?thesis using that x by (auto simp: f call_ok_def)
  next
    case False
    then have y: "call_ok c m y" using that assms(1) by (simp add: f calls_ok_def)
    then have "x_settled y \<or> rid y \<noteq> rid x" using x(2) False by (auto simp: call_ok_def)
    with y False show ?thesis by (auto simp: f call_ok_def delete_conv map_add_def)
  qed
  moreover have "\<exists>y. call_of (finish n r c) m = Some y \<and> \<not> x_settled y \<and> rid y = i"
    if "map_of (c_pending (finish n r c)) i = Some m" for i m
  proof -
    from that have i: "i \<noteq> rid x" "map_of (c_pending c) i = Some m" by (auto simp: f delete_conv split: if_splits)
    then obtain y where y: "call_of c m = Some y" "\<not> x_settled y" "rid y = i" using assms(1) unfolding calls_ok_def by blast
    with i(1) assms(2) have "m \<noteq> n" by auto
    with y show ?thesis by (auto simp: f)
  qed
  ultimately show ?thesis using assms(1) distinct_delete [of "c_pending c"] unfolding calls_ok_def by (simp add: f)
qed

lemma change_calls: "client_change opt w tr c d \<Longrightarrow> outcomes_ok c \<Longrightarrow> calls_ok c \<Longrightarrow> calls_ok d"
proof (induction rule: client_change.induct)
  case (settles c n x r)
  then show ?case by (simp add: calls_ok_finish)
next
  case (stages c n x s)
  then show ?case by (intro calls_ok_set) auto
next
  case (sends c n x)
  then show ?case by (intro calls_ok_set) auto
next
  case (aborts c n x)
  then have "x_stage x = Scheduling \<longrightarrow> \<not> x_sent x" by (auto simp: calls_ok_def call_ok_def)
  with aborts show ?case by (intro calls_ok_set) auto
next
  case (refuses c code m)
  have "call_ok (fst (at_once code m c)) n x" if "call_ok c n x" for n and x :: exchange
    using that by (auto simp: call_ok_def map_add_def)
  then show ?case using refuses unfolding calls_ok_def by simp
next
  case (enters m c request)
  then show ?case by (intro calls_ok_enter) (simp_all add: may_enter_def)
next
  case (enters_again m c key p request)
  then show ?case
    by (intro calls_ok_enter) (simp_all add: may_enter_def outcomes_ok_def calls_ok_fields [of c "reserve i c" for i])
next
  case (enters_first m c key request commit)
  then show ?case
    by (intro calls_ok_enter) (simp_all add: may_enter_def outcomes_ok_def calls_ok_fields [of c "reserve i (keep_replay k v c)" for i k v])
qed (erule calls_ok_fields; simp)+

lemma owner_set: "call_of c n = Some x \<Longrightarrow> x_owner y = x_owner x \<Longrightarrow> owner_of (set_call n y c) m = owner_of c m"
  by (simp add: owner_of_def)

lemma owner_finish: "call_of c n = Some x \<Longrightarrow> \<not> x_settled x \<Longrightarrow> owner_of (finish n r c) m = owner_of c m"
  by (simp add: owner_of_def finish_settles)

lemma owner_enter: "owner_of (enter opt request m ow key c) n = (if n = c_next c then ow else owner_of c n)"
  by (simp add: owner_of_def)

lemma owner_same: "(\<And>n. call_of d n = call_of c n) \<Longrightarrow> owner_of d n = owner_of c n"
  by (simp add: owner_of_def)

lemma owner_next: "calls_ok c \<Longrightarrow> owner_of c n = Some i \<Longrightarrow> n < c_next c"
  by (auto simp: owner_of_def dest: call_known split: option.splits)

lemma submission_ok_more:
  assumes "submission_ok c i s" "c_next c \<le> c_next d" "\<And>m. owner_of d m = owner_of c m"
    and "\<And>n r. outcome_of c n = Some r \<Longrightarrow> outcome_of d n = Some r"
  shows "submission_ok d i s"
proof -
  have "map_option outcome_delivery (outcome_of d (sb_latest s)) = Some Not_Sent" if "sb_delivery s = Some Not_Sent"
    using assms(1,4) that unfolding submission_ok_def by fastforce
  then show ?thesis using assms(1-3) unfolding submission_ok_def by auto
qed

lemma custody_ok_same:
  assumes "custody_ok c" "c_next c \<le> c_next d" "\<And>m. owner_of d m = owner_of c m" "c_submissions d = c_submissions c"
    and "\<And>n r. outcome_of c n = Some r \<Longrightarrow> outcome_of d n = Some r"
    and "\<And>k p. map_of (c_replays d) k = Some p \<Longrightarrow> \<exists>k' q. map_of (c_replays c) k' = Some q \<and> rp_request q = rp_request p"
  shows "custody_ok d"
proof -
  have "map_of (c_submissions c) (rp_request p) \<noteq> None" if "map_of (c_replays d) k = Some p" for k p
    using assms(1) assms(6) [OF that] unfolding custody_ok_def by metis
  moreover have "submission_ok d i s" if "map_of (c_submissions c) i = Some s" for i s
    using assms(1) that by (intro submission_ok_more [OF _ assms(2,3,5)]) (simp_all add: custody_ok_def)
  ultimately show ?thesis using assms(1,3,4) unfolding custody_ok_def by simp
qed

text \<open>A new call of a replay that has a submission already, or a first one.\<close>

lemma custody_ok_enter:
  assumes "custody_ok c" "calls_ok c" "outcomes_ok c" "d = enter opt request m (Some i) key e"
    and "c_next e = c_next c" "\<And>n. call_of e n = call_of c n" "c_outcomes e = c_outcomes c"
    and "c_submissions e = AList.update i \<lparr>sb_latest = c_next c, sb_delivery = None\<rparr> (c_submissions c)"
    and "map_of (c_submissions c) i \<noteq> None \<or> i = c_next c"
    and "\<And>k p. map_of (c_replays e) k = Some p \<Longrightarrow> rp_request p = i \<or> (\<exists>k' q. map_of (c_replays c) k' = Some q \<and> rp_request q = rp_request p)"
  shows "custody_ok d"
proof -
  have own: "owner_of d n = (if n = c_next c then Some i else owner_of c n)" for n
    using owner_same [of e c] assms(5,6) by (simp add: assms(4) owner_enter)
  have subs: "map_of (c_submissions d) j = (if j = i then Some \<lparr>sb_latest = c_next c, sb_delivery = None\<rparr> else map_of (c_submissions c) j)" for j
    by (simp add: assms(4,8) update_conv)
  have nx: "c_next d = Suc (c_next c)" "c_outcomes d = c_outcomes c" by (simp_all add: assms(4,5,7))
  have le: "i \<le> n \<and> n < c_next c" if o': "owner_of c n = Some i" for n
  proof -
    obtain s where "map_of (c_submissions c) i = Some s" using o' assms(1) unfolding custody_ok_def by blast
    then have "submission_ok c i s" using assms(1) by (simp add: custody_ok_def)
    then show ?thesis using o' owner_next [OF assms(2) o'] by (simp add: submission_ok_def)
  qed
  have i: "i \<le> c_next c"
    using assms(1,9) by (auto simp: custody_ok_def submission_ok_def intro: less_imp_le)
  have "submission_ok d j s" if s: "map_of (c_submissions d) j = Some s" for j s
  proof (cases "j = i")
    case True
    then show ?thesis using s i le by (auto simp: subs submission_ok_def own nx intro: less_imp_le)
  next
    case False
    then have "submission_ok c j s" using s assms(1) by (simp add: subs custody_ok_def)
    moreover have "sb_latest s \<noteq> c_next c" using calculation owner_next [OF assms(2), of "sb_latest s" j] by (auto simp: submission_ok_def)
    ultimately show ?thesis using False by (simp add: submission_ok_def own nx)
  qed
  moreover have "map_of (c_submissions d) j \<noteq> None" if "owner_of d n = Some j" for n j
    using that assms(1) by (auto simp: own subs custody_ok_def split: if_splits)
  moreover have "map_of (c_submissions d) (rp_request p) \<noteq> None" if p: "map_of (c_replays d) k = Some p" for k p
  proof (cases "rp_request p = i")
    case False
    then obtain k' q where "map_of (c_replays c) k' = Some q" "rp_request q = rp_request p"
      using p assms(10) [of k p] by (auto simp: assms(4))
    then have "map_of (c_submissions c) (rp_request p) \<noteq> None" using assms(1) unfolding custody_ok_def by metis
    then show ?thesis by (simp add: subs)
  qed (simp add: subs)
  ultimately show ?thesis unfolding custody_ok_def by blast
qed

lemma custody_ok_finish:
  assumes "custody_ok c" "calls_ok c" "call_of c n = Some x" "\<not> x_settled x"
  shows "custody_ok (finish n r c)"
proof -
  let ?d = "finish n r c"
  note f = finish_settles [OF assms(3,4)]
  have "call_ok c n x" using assms(2,3) by (simp add: calls_ok_def)
  then have new: "outcome_of c n = None" using assms(4) by (simp add: call_ok_def)
  have outs: "outcome_of ?d m = (if m = n then Some r else outcome_of c m)" for m
    using new by (auto simp: f map_add_def split: option.split)
  have more: "submission_ok ?d i s" if "submission_ok c i s" for i s
    by (rule submission_ok_more [OF that]) (use new in \<open>auto simp: f(7) owner_finish [OF assms(3,4)] outs\<close>)
  have told: "submission_ok ?d i (s\<lparr>sb_delivery := Some (outcome_delivery r)\<rparr>)" if "submission_ok c i s" "sb_latest s = n" for i s
    using more [OF that(1)] that(2) by (simp add: submission_ok_def outs)
  have "submission_ok ?d i s" if s: "map_of (c_submissions ?d) i = Some s" for i s
    using s assms(1) more told unfolding f(9)
    by (auto simp: custody_def custody_ok_def update_conv split: option.splits if_splits)
  moreover have "map_of (c_submissions ?d) i \<noteq> None \<longleftrightarrow> map_of (c_submissions c) i \<noteq> None" for i
    by (auto simp: f(9) custody_def update_conv split: option.splits)
  ultimately show ?thesis using assms(1) unfolding custody_ok_def f(3) owner_finish [OF assms(3,4)] by blast
qed

lemma change_custody: "client_change opt w tr c d \<Longrightarrow> outcomes_ok c \<Longrightarrow> calls_ok c \<Longrightarrow> custody_ok c \<Longrightarrow> custody_ok d"
proof (induction rule: client_change.induct)
  case (settles c n x r)
  then show ?case by (simp add: custody_ok_finish)
next
  case (refuses c code m)
  have "n < c_next c" if "outcome_of c n = Some r" for n r
    using that refuses(1) by (auto simp: outcomes_ok_def dest: map_of_SomeD)
  then show ?case by (intro custody_ok_same [OF refuses(3)]) (auto simp: owner_of_def map_add_def split: option.splits)
next
  case (enters m c request)
  have none: "owner_of c (c_next c) = None" using owner_next [OF enters(3)] by fastforce
  then show ?case
    by (intro custody_ok_same [OF enters(4)]) (auto simp: owner_enter)
next
  case (enters_again m c key p request)
  then show ?case
    by (intro custody_ok_enter [OF enters_again(5,4,3) refl]) (auto simp: custody_ok_def)
next
  case (enters_first m c key request commit)
  show ?case
    by (rule custody_ok_enter [OF enters_first(6,5,4) refl]) (auto simp: update_conv split: if_splits)
next
  case (learns c key p oid)
  have "\<exists>k' q. map_of (c_replays c) k' = Some q \<and> rp_request q = rp_request p" using learns(1) by blast
  with learns show ?case by (intro custody_ok_same [OF learns(5)]) (auto simp: owner_of_def update_conv split: if_splits, blast)
next
  case (forgets c key)
  then show ?case by (intro custody_ok_same [OF forgets(3)]) (auto simp: owner_of_def delete_conv split: if_splits)
qed ((erule custody_ok_same, auto simp: owner_of_def)[1])+

section \<open>Runs\<close>

lemma new_client_inv: "client_inv opt w new_client"
  by (simp add: client_inv_def calls_ok_def outcomes_ok_def sizes_ok_def custody_ok_def stages_ok_def new_client_def call_of_def owner_of_def)

lemma change_inv:
  assumes "client_change opt w tr c d" "client_inv opt w c" "0 < maximumRecentIds opt"
  shows "client_inv opt w d"
proof -
  have c: "calls_ok c" "outcomes_ok c" "sizes_ok opt c" "custody_ok c" "stages_ok w c" using assms(2) by (simp_all add: client_inv_def)
  show ?thesis unfolding client_inv_def
    using change_calls [OF assms(1) c(2,1)] change_outcomes [OF assms(1) c(1,2)] change_sizes [OF assms(1,3) c(3)]
      change_custody [OF assms(1) c(2,1,4)] change_stages [OF assms(1) c(5)] by simp
qed

interpretation served: monotone_machine "\<lambda>c tr d. 0 < maximumRecentIds opt \<and> client_change opt w tr c d" "client_inv opt w" client_le
  for opt w
proof unfold_locales
  fix c tr d
  assume a: "0 < maximumRecentIds opt \<and> client_change opt w tr c d" and inv: "client_inv opt w c"
  then show "client_inv opt w d" using change_inv by blast
  show "client_le c d" using a inv change_le by (auto simp: client_inv_def)
qed (auto intro: client_le_trans)

lemma does_run:
  assumes "client_does opt w tr c d" "0 < maximumRecentIds opt"
  shows "\<exists>ls. run (\<lambda>c tr d. 0 < maximumRecentIds opt \<and> client_change opt w tr c d) c ls d"
  using assms(1) unfolding client_does_def
proof (induction rule: rtranclp_induct)
  case base
  then show ?case by (intro exI [of _ "[]"]) simp
next
  case (step d e)
  then obtain ls where "run (\<lambda>c tr d. 0 < maximumRecentIds opt \<and> client_change opt w tr c d) c ls d" by blast
  then show ?case using step(2) assms(2) by (intro exI [of _ "ls @ [tr]"]) (auto simp: run_append)
qed

lemma does_inv:
  assumes "client_does opt w tr c d" "client_inv opt w c" "0 < maximumRecentIds opt"
  shows "client_inv opt w d" "client_le c d"
  using does_run [OF assms(1,3)] served.run_inv served.run_le assms(2) by blast+

lemma step_inv:
  assumes "client_inv opt w c" "0 < maximumRecentIds opt"
  shows "client_inv opt w (client_step opt w k c)" "client_le c (client_step opt w k c)"
  using does_inv [OF client_step_does assms] assms(1) by (simp_all add: client_inv_def)

abbreviation client_run :: "options \<Rightarrow> world \<Rightarrow> step list \<Rightarrow> client \<Rightarrow> client" where
  "client_run opt w ks c \<equiv> fold (client_step opt w) ks c"

lemma run_steps_inv:
  assumes "client_inv opt w c" "0 < maximumRecentIds opt"
  shows "client_inv opt w (client_run opt w ks c) \<and> client_le c (client_run opt w ks c)"
  using assms(1)
proof (induction ks arbitrary: c)
  case (Cons k ks)
  have "client_inv opt w (client_step opt w k c)" "client_le c (client_step opt w k c)" using step_inv Cons(2) assms(2) by blast+
  with Cons.IH show ?case using client_le_trans by fastforce
qed simp

lemmas reached = run_steps_inv [OF new_client_inv]

end
