(* ===== verification/Client_Claims.thy ===== *)
theory Client_Claims imports Client_Custody begin

text \<open>
  The properties of the client, over any order of steps from a new client.
\<close>

section \<open>What an outcome says\<close>

text \<open>What a settled call's outcome may say, and that this is so for every outcome added between two states.\<close>

definition honest :: "world \<Rightarrow> bool \<Rightarrow> client \<Rightarrow> client \<Rightarrow> bool" where
  "honest w tr c d \<longleftrightarrow> (\<forall>n r. outcome_of c n = None \<longrightarrow> outcome_of d n = Some r \<longrightarrow>
     (\<forall>x. call_of d n = Some x \<longrightarrow> outcome_delivery r = Not_Sent \<longrightarrow> x_sent x \<longrightarrow> tr)
   \<and> (\<forall>v m. r = Returned v m \<longrightarrow> (\<exists>x result. call_of d n = Some x \<and> approved w x result \<and> v = result_output result)))"

lemma honest_same: "(\<And>n. outcome_of d n = outcome_of c n) \<Longrightarrow> honest w tr c d"
  by (simp add: honest_def)

lemma outcome_kept:
  assumes "client_le c d" "outcome_of c n = Some r"
  shows "outcome_of d n = Some r"
proof -
  obtain new where "c_outcomes d = c_outcomes c @ new" using assms(1) by (auto simp: client_le_def)
  then show ?thesis using assms(2) by (simp add: map_add_def)
qed

lemma approved_grows: "call_grows x y \<Longrightarrow> approved w x result \<Longrightarrow> approved w y result"
  using replyVerdict_cong [of y x] by (simp add: approved_def answers_def call_grows_def)

lemma honest_trans:
  assumes cd: "honest w tr c d" and de: "honest w tr d e" "client_le d e" and inv: "calls_ok d" "outcomes_ok d"
  shows "honest w tr c e"
  unfolding honest_def
proof (intro allI impI)
  fix n r assume c: "outcome_of c n = None" and e: "outcome_of e n = Some r"
  show "(\<forall>x. call_of e n = Some x \<longrightarrow> outcome_delivery r = Not_Sent \<longrightarrow> x_sent x \<longrightarrow> tr)
    \<and> (\<forall>v m. r = Returned v m \<longrightarrow> (\<exists>x result. call_of e n = Some x \<and> approved w x result \<and> v = result_output result))"
  proof (cases "outcome_of d n")
    case None
    then show ?thesis using de(1) e unfolding honest_def by blast
  next
    case (Some r')
    have "r' = r" using outcome_kept [OF de(2) Some] e by simp
    with cd c Some have told: "\<forall>x. call_of d n = Some x \<longrightarrow> outcome_delivery r = Not_Sent \<longrightarrow> x_sent x \<longrightarrow> tr"
      "\<forall>v m. r = Returned v m \<longrightarrow> (\<exists>x result. call_of d n = Some x \<and> approved w x result \<and> v = result_output result)"
      unfolding honest_def by blast+
    have known: "n < c_next d" using inv(2) Some by (auto simp: outcomes_ok_def dest: map_of_SomeD)
    show ?thesis
    proof (cases "call_of d n")
      case None
      then have "call_of e n = None" using de(2) known by (simp add: client_le_def)
      then show ?thesis using told None by simp
    next
      case (Some x)
      then have "x_settled x" using inv(1) \<open>outcome_of d n = Some r'\<close> by (auto simp: calls_ok_def call_ok_def)
      moreover obtain y where y: "call_of e n = Some y" "call_grows x y" using de(2) Some unfolding client_le_def by blast
      ultimately have "x_sent y = x_sent x" by (simp add: call_grows_def)
      then show ?thesis using told y Some approved_grows [OF y(2)] by fastforce
    qed
  qed
qed

lemma change_honest:
  assumes "client_change opt w tr c d" "calls_ok c"
  shows "honest w tr c d"
  using assms
proof (induction rule: client_change.induct)
  case (settles c n x r)
  have "call_ok c n x" using settles by (simp add: calls_ok_def)
  then have none: "outcome_of c n = None" using settles(2) by (simp add: call_ok_def)
  have "approved w (x\<lparr>x_settled := True\<rparr>) result" if "approved w x result" for result
    by (rule approved_grows [OF _ that]) (simp add: call_grows_def)
  then show ?case using settles(3) none
    by (fastforce simp: honest_def may_settle_def finish_settles [OF settles(1,2)] map_add_def)
next
  case (refuses c code m)
  have "call_of c (c_next c) = None" using call_known [OF refuses] by fastforce
  then show ?case by (auto simp: honest_def map_add_def mk_fault_def)
qed (rule honest_same, simp)+

lemma does_honest:
  assumes "client_does opt w tr c d" "client_inv opt w c" "0 < maximumRecentIds opt"
  shows "honest w tr c d"
  using assms(1) unfolding client_does_def
proof (induction rule: rtranclp_induct)
  case base
  then show ?case by (rule honest_same) simp
next
  case (step d e)
  have d: "client_inv opt w d" using does_inv(1) [OF _ assms(2,3)] step(1) by (simp add: client_does_def)
  then have "calls_ok d" "outcomes_ok d" by (simp_all add: client_inv_def)
  then show ?case using honest_trans [OF step.IH change_honest [OF step(2)] change_le [OF step(2)]] by blast
qed

lemma step_honest: "client_inv opt w c \<Longrightarrow> 0 < maximumRecentIds opt \<Longrightarrow> honest w (transport_speaks k) c (client_step opt w k c)"
  using does_honest [OF client_step_does] by (simp add: client_inv_def)

lemma honest_any: "honest w tr c d \<Longrightarrow> honest w True c d"
  by (auto simp: honest_def)

lemma run_honest:
  assumes "client_inv opt w c" "0 < maximumRecentIds opt"
  shows "honest w True c (client_run opt w ks c)"
  using assms(1)
proof (induction ks arbitrary: c)
  case (Cons k ks)
  let ?d = "client_step opt w k c"
  have d: "client_inv opt w ?d" using step_inv Cons(2) assms(2) by blast
  then have "client_le ?d (client_run opt w ks ?d)" "calls_ok ?d" "outcomes_ok ?d"
    using run_steps_inv [OF d assms(2)] by (simp_all add: client_inv_def)
  then show ?case using honest_trans [OF honest_any [OF step_honest [OF Cons(2) assms(2)]] Cons.IH [OF d]] by simp
qed (simp add: honest_same)

section \<open>Disposal\<close>

text \<open>After the loop over the pending calls none is pending.\<close>

lemma finish_pending: "call_of c n = Some x \<Longrightarrow> \<not> x_settled x \<Longrightarrow> c_pending (finish n r c) = AList.delete (rid x) (c_pending c)"
  by (rule finish_settles)

lemma abandon_fields:
  assumes "call_of c n = Some x" "\<not> x_settled x"
  shows "c_pending (abandon code n c) = AList.delete (rid x) (c_pending c)"
    "outcome_of (abandon code n c) m = outcome_of (finish n (mk_fault code (if x_sent x then May_Have_Reached_Backend else Not_Sent) (Some (x_metadata x))) c) m"
    "call_of (abandon code n c) m = (if m = n then Some (x\<lparr>x_settled := True, x_aborted := True\<rparr>) else call_of c m)"
    "c_disposed (abandon code n c) = c_disposed c"
  using assms finish_settles [OF assms] by (simp_all add: abandon_def failed_def Let_def)

lemma abandon_all_pending:
  assumes "client_inv opt w c" "0 < maximumRecentIds opt" "c_disposed c"
  shows "c_pending (fold (abandon code) (map snd (c_pending c)) c) = []"
  using assms
proof (induction "length (c_pending c)" arbitrary: c rule: less_induct)
  case less
  show ?case
  proof (cases "c_pending c")
    case (Cons p ps)
    obtain i n where p: "p = (i, n)" by (cases p)
    have ok: "calls_ok c" using less(2) by (simp add: client_inv_def)
    have "map_of (c_pending c) i = Some n" by (simp add: Cons p)
    then obtain x where x: "call_of c n = Some x" "\<not> x_settled x" "rid x = i" using ok unfolding calls_ok_def by blast
    let ?d = "abandon code n c"
    have "i \<notin> fst ` set ps" using ok Cons p by (auto simp: calls_ok_def)
    then have ps: "c_pending ?d = ps" by (simp add: abandon_fields(1) [OF x(1,2)] x(3) Cons p)
    have "client_does opt w True c ?d" by (rule abandon_does)
    then have d: "client_inv opt w ?d" using does_inv less(2,3) by blast
    show ?thesis
      using less(1) [OF _ d less(3)] abandon_fields(4) [OF x(1,2)] less(4) by (simp add: ps Cons p)
  qed simp
qed

lemma stop_fields [simp]: "c_pending (stop_sub s c) = c_pending c" "c_disposed (stop_sub s c) = c_disposed c" "c_outcomes (stop_sub s c) = c_outcomes c"
  "call_of (stop_sub s c) n = call_of c n"
  by (simp_all add: stop_sub_def split: option.split)

lemma stop_all [simp]: "c_pending (fold stop_sub ss c) = c_pending c" "c_disposed (fold stop_sub ss c) = c_disposed c"
  by (induction ss arbitrary: c) simp_all

lemma dispose_pending:
  assumes "client_inv opt w c" "0 < maximumRecentIds opt" "c_disposed c \<Longrightarrow> c_pending c = []"
  shows "c_pending (dispose c) = []" "c_disposed (dispose c)"
proof -
  let ?c = "c\<lparr>c_disposed := True\<rparr>"
  have inv: "client_inv opt w ?c" by (rule change_inv [OF client_change.disposes assms(1,2)])
  have none: "c_pending (fold (abandon Disposed) (map snd (c_pending ?c)) ?c) = []"
    by (rule abandon_all_pending [OF inv assms(2)]) simp
  have "client_does opt w True ?c (fold (abandon Disposed) ns ?c)" for ns by (rule fold_does) (rule abandon_does)
  then have "client_le ?c (fold (abandon Disposed) ns ?c)" for ns using does_inv(2) inv assms(2) by blast
  then have still: "c_disposed (fold (abandon Disposed) ns ?c)" for ns by (simp add: client_le_def)
  show "c_pending (dispose c) = []" using none assms(3) by (simp add: dispose_def Let_def)
  show "c_disposed (dispose c)" using still by (simp add: dispose_def Let_def)
qed

text \<open>Nothing but disposal disposes.\<close>

lemma disposed_calls [simp]:
  "c_disposed (finish n r c) = c_disposed c" "c_disposed (at_stage n s c) = c_disposed c" "c_disposed (failed n code dlv c) = c_disposed c"
  "c_disposed (abandon code n c) = c_disposed c"
  by (simp_all add: finish_def at_stage_def failed_def abandon_def Let_def split: option.split)

lemma disposed_start [simp]: "c_disposed (fst (start opt a request m ow key c)) = c_disposed c"
  by (simp add: start_def Let_def)

lemma disposed_call_client [simp]: "c_disposed (fst (call_client opt valid a c)) = c_disposed c"
  by (simp add: call_client_def Let_def split: sum.split option.split bool.split prod.split)

lemma disposed_replay [simp]: "c_disposed (fst (replayCommit opt valid key a c)) = c_disposed c"
  by (simp add: replayCommit_def split: option.split)

lemma disposed_replies [simp]:
  "c_disposed (scheduled n b c) = c_disposed c" "c_disposed (exchanged n raised c) = c_disposed c" "c_disposed (rejected n v c) = c_disposed c"
  by (simp_all add: scheduled_def exchanged_def rejected_def split: option.split prod.split)

lemma disposed_answered [simp]: "c_disposed (answered n result c) = c_disposed c"
  by (simp add: answered_def Let_def split: option.split sum.split bool.split)

lemma disposed_received [simp]: "c_disposed (received sha valid n frame c) = c_disposed c" "c_disposed (digested n c) = c_disposed c"
  by (simp_all add: received_def digested_def split: option.split sum.split verdict.split stage.split prod.split)

lemma disposed_subs [simp]: "c_disposed (sub_failed s code dlv c) = c_disposed c" "c_disposed (subscribe opt c) = c_disposed c"
  "c_disposed (subscribed s raised c) = c_disposed c" "c_disposed (sub_frame valid s frame c) = c_disposed c" "c_disposed (sub_fault s e c) = c_disposed c"
  by (simp_all add: sub_failed_def subscribe_def subscribed_def sub_frame_def sub_fault_def Let_def split: option.split sum.split prod.split)

lemma disposed_step: "k \<noteq> Dispose \<Longrightarrow> c_disposed (client_step opt w k c) = c_disposed c"
  by (cases k) (simp_all add: forgetReplay_def forgetUnsentReplay_def split: option.split)

lemma disposed_reached:
  assumes "0 < maximumRecentIds opt"
  shows "c_disposed (client_run opt w ks new_client) \<Longrightarrow> c_pending (client_run opt w ks new_client) = []"
proof (induction ks rule: rev_induct)
  case Nil
  then show ?case by (simp add: new_client_def)
next
  case (snoc k ks)
  let ?c = "client_run opt w ks new_client"
  have inv: "client_inv opt w ?c" using reached assms by blast
  show ?case
  proof (cases "c_disposed ?c")
    case True
    have "client_le ?c (client_step opt w k ?c)" by (rule step_inv(2) [OF inv assms])
    then show ?thesis using True snoc.IH by (simp add: client_le_def)
  next
    case False
    then have "k = Dispose" using snoc.prems disposed_step by fastforce
    then show ?thesis using dispose_pending(1) [OF inv assms] False by simp
  qed
qed

section \<open>An example\<close>

definition example_options :: options where
  "example_options = \<lparr>op_timeout = 30000, maximumPending = 2, maximumReplays = 2, maximumRecentIds = 4, maximumSubscriptions = 1\<rparr>"

definition example_world :: world where
  "example_world = \<lparr>sha_256 = (\<lambda>b. b), request_schema = (\<lambda>_. True), reply_schema = (\<lambda>_. True), event_schema = (\<lambda>_. True)\<rparr>"

definition example_query :: call_args where
  "example_query = \<lparr>a_kind = Query, a_method = U ''hello'', a_input = JObj [], a_timeout = None, a_aborted = False,
     a_requestId = Inr (S ''r''), a_abortedNow = False\<rparr>"

definition example_commit :: call_args where
  "example_commit = \<lparr>a_kind = Command, a_method = U ''commit'', a_input = JObj [(U ''idempotencyKey'', S ''k'')], a_timeout = None, a_aborted = False,
     a_requestId = Inr (S ''r''), a_abortedNow = False\<rparr>"

definition example_reply :: jv where
  "example_reply = JObj [(U ''requestId'', S ''r''), (U ''body'', JObj [(U ''type'', S ''result''), (U ''result'',
     JObj [(U ''type'', S ''query''), (U ''query'', JObj [(U ''name'', S ''hello''), (U ''output'', JObj [])])])])]"

lemmas listed_eval = listed_entries_def own_entries_def index_key_def counter_syntax_def digit_def U_def
lemmas example_call_defs = example_options_def example_world_def example_query_def example_commit_def

lemma example_limit: "0 < maximumRecentIds example_options"
  by (simp add: example_options_def)

lemma example_requests:
  "requestOf (request_schema example_world) (envelope Query (U ''hello'') (JObj []) (S ''r''))
     = Inr (envelope Query (U ''hello'') (JObj []) (S ''r''), encodeData False (envelope Query (U ''hello'') (JObj []) (S ''r'')))"
  "requestOf (request_schema example_world) (envelope Command (U ''commit'') (JObj [(U ''idempotencyKey'', S ''k'')]) (S ''r''))
     = Inr (envelope Command (U ''commit'') (JObj [(U ''idempotencyKey'', S ''k'')]) (S ''r''),
         encodeData False (envelope Command (U ''commit'') (JObj [(U ''idempotencyKey'', S ''k'')]) (S ''r'')))"
proof -
  have fits: "wire_fits (envelope Query (U ''hello'') (JObj []) (S ''r''))"
    "wire_fits (envelope Command (U ''commit'') (JObj [(U ''idempotencyKey'', S ''k'')]) (S ''r''))"
    by (rule small_fits; simp add: envelope_def kind_text_def small_eval)+
  have listed: "listed False (envelope Query (U ''hello'') (JObj []) (S ''r'')) = envelope Query (U ''hello'') (JObj []) (S ''r'')"
    "listed False (envelope Command (U ''commit'') (JObj [(U ''idempotencyKey'', S ''k'')]) (S ''r''))
      = envelope Command (U ''commit'') (JObj [(U ''idempotencyKey'', S ''k'')]) (S ''r'')"
    by (simp_all add: envelope_def kind_text_def listed_eval)
  have version: "strict_eq (fld (envelope k m i r) ''protocolVersion'') (JInt 1)" for k m i r by (simp add: envelope_def)
  show "requestOf (request_schema example_world) (envelope Query (U ''hello'') (JObj []) (S ''r''))
     = Inr (envelope Query (U ''hello'') (JObj []) (S ''r''), encodeData False (envelope Query (U ''hello'') (JObj []) (S ''r'')))"
    "requestOf (request_schema example_world) (envelope Command (U ''commit'') (JObj [(U ''idempotencyKey'', S ''k'')]) (S ''r''))
     = Inr (envelope Command (U ''commit'') (JObj [(U ''idempotencyKey'', S ''k'')]) (S ''r''),
         encodeData False (envelope Command (U ''commit'') (JObj [(U ''idempotencyKey'', S ''k'')]) (S ''r'')))"
    by (simp_all add: requestOf_def capture_def fits decode_encoded [OF fits(1)] decode_encoded [OF fits(2)] listed version example_world_def)
qed

lemma example_reply_decodes: "decode (reply_schema example_world) (TextInput (encodeData False example_reply)) = Inr example_reply"
proof -
  have fits: "wire_fits example_reply" by (rule small_fits; simp add: example_reply_def small_eval)
  have "listed False example_reply = example_reply" by (simp add: example_reply_def listed_eval)
  then show ?thesis using decode_encoded [OF fits] by (simp add: example_world_def example_reply_def)
qed

definition example_metadata :: "request_kind \<Rightarrow> string \<Rightarrow> metadata" where
  "example_metadata k m = \<lparr>m_requestId = S ''r'', m_kind = k, m_method = U m\<rparr>"

lemma example_paths:
  "fld (envelope k m i r) ''requestId'' = r"
  by (simp add: envelope_def U_def)

lemma example_calls:
  "client_step example_options example_world (Call example_query) new_client
     = enter example_options (envelope Query (U ''hello'') (JObj []) (S ''r'')) (example_metadata Query ''hello'') None None new_client"
  "client_step example_options example_world (Call example_commit) new_client
     = enter example_options (envelope Command (U ''commit'') (JObj [(U ''idempotencyKey'', S ''k'')]) (S ''r'')) (example_metadata Command ''commit'')
         (Some 0) (Some (S ''k'')) (reserve 0 (keep_replay (S ''k'') (JObj [(U ''idempotencyKey'', S ''k'')]) new_client))"
   apply (simp add: call_client_def start_def new_client_def client_bounded_def example_query_def example_options_def
      example_metadata_def Let_def example_requests example_paths)
  apply (simp add: call_client_def start_def new_client_def client_bounded_def example_commit_def example_options_def
      example_metadata_def Let_def example_requests example_paths)
  apply (simp add: envelope_def kind_text_def U_def isS_def)
  done


lemmas run_eval = enter_def set_call_def call_of_def new_client_def example_metadata_def scheduled_def exchanged_def
  at_stage_def failed_def finish_def custody_def abandon_def mk_fault_def outcome_delivery_def Let_def


definition example_asked :: "bool \<Rightarrow> stage \<Rightarrow> client" where
  "example_asked sent st = set_call 0 \<lparr>x_request = envelope Query (U ''hello'') (JObj []) (S ''r''), x_metadata = example_metadata Query ''hello'',
       x_owner = None, x_key = None, x_settled = False, x_sent = sent, x_aborted = False, x_stage = st\<rparr>
     (new_client\<lparr>c_next := 1, c_recent := [S ''r''], c_pending := [(S ''r'', 0)]\<rparr>)"

lemma example_asks:
  "client_step example_options example_world (Call example_query) new_client = example_asked False Scheduling"
  "scheduled 0 True (example_asked False Scheduling) = example_asked True Exchanging"
  "exchanged 0 None (example_asked True Exchanging) = example_asked True Awaiting"
  "call_of (example_asked sent st) 0 = Some \<lparr>x_request = envelope Query (U ''hello'') (JObj []) (S ''r''), x_metadata = example_metadata Query ''hello'',
       x_owner = None, x_key = None, x_settled = False, x_sent = sent, x_aborted = False, x_stage = st\<rparr>"
  unfolding example_calls by (simp_all add: example_asked_def run_eval example_options_def remember_id_def set_add_def)

lemma example_result:
  "digestCheck h (envelope Query (U ''hello'') (JObj []) (S ''r'')) (path example_reply [''body'', ''result'']) = None"
  "result_output (path example_reply [''body'', ''result'']) = JObj []"
  by (simp_all add: digestCheck_def result_output_def example_reply_def envelope_def kind_text_def U_def isS_def)

lemma example_verdict:
  assumes "x_request x = envelope Query (U ''hello'') (JObj []) (S ''r'')" "x_metadata x = example_metadata Query ''hello''"
  shows "replyVerdict (reply_schema example_world) x (TextInput (encodeData False example_reply)) = Inr (Answers (path example_reply [''body'', ''result'']))"
  unfolding replyVerdict_def example_reply_decodes
  by (simp add: assms refused_def queryRefused_def example_reply_def envelope_def example_metadata_def kind_text_def U_def isS_def)

lemma example_not_sent: "(outcome_of (client_run example_options example_world
    [Call example_query, Scheduled 0 True, Exchanged 0 (Some (Some [(U ''code'', DataProperty (FStr (U ''disconnected'')) True),
       (U ''delivery'', DataProperty (FStr (U ''not_sent'')) True)]))] new_client) 0) = Some (mk_fault Disconnected Not_Sent (Some (example_metadata Query ''hello'')))"
  apply (simp add: example_asks del: client_step.simps(1))
  apply (simp add: exchanged_def example_asks transportFault_def data_value_def transport_code_def transport_delivery_def U_def)
  apply (simp add: failed_def example_asks finish_def custody_def at_stage_def Let_def example_asked_def mk_fault_def outcome_delivery_def new_client_def)
  done

lemma example_returned: "outcome_of (client_run example_options example_world
    [Call example_query, Scheduled 0 True, Exchanged 0 None, Received 0 (TextInput (encodeData False example_reply))] new_client) 0
  = Some (Returned (JObj []) (example_metadata Query ''hello''))"
  apply (simp add: example_asks del: client_step.simps(1))
  apply (simp add: received_def example_asks example_verdict example_result del: path.simps)
  apply (simp add: answered_def example_asks example_result Let_def del: path.simps)
  apply (simp add: example_asked_def finish_def set_call_def call_of_def custody_def at_stage_def new_client_def envelope_def kind_text_def U_def isS_def example_metadata_def)
  done

lemma example_unsent: "snd (forgetUnsentReplay (S ''k'') 0 (client_run example_options example_world [Call example_commit, CallerAborts 0] new_client))"
  apply (simp add: example_calls del: client_step.simps(1))
  apply (simp add: run_eval forgetUnsentReplay_def reserve_def keep_replay_def U_def forgetReplay_def)
  done

lemma example_kept: "map_of (c_replays (client_run example_options example_world [Call example_commit] new_client)) (S ''k'') =
   Some \<lparr>rp_input = JObj [(U ''idempotencyKey'', S ''k'')], rp_request = 0, rp_operationId = None\<rparr>"
  apply (simp add: example_calls del: client_step.simps(1))
  apply (simp add: run_eval reserve_def keep_replay_def U_def)
  done


section \<open>Properties\<close>

text \<open>
  Whatever steps a client takes, at most the configured numbers of calls are pending, of replays and of recent request
  numbers are kept and of subscriptions are held (limits that the constructor accepted).
\<close>

theorem client_stays_bounded:
  assumes "client_options t p r i s = Inr opt"
  shows "sizes_ok opt (client_run opt w ks new_client)"
proof -
  have "0 < maximumRecentIds opt"
    using assms by (auto simp: client_options_def client_bounded_def Let_def bindE_Inr split: if_splits)
  then show ?thesis using reached by (simp add: client_inv_def)
qed

theorem client_stays_bounded_witness:
  "length (c_pending (client_run \<lparr>op_timeout = 30000, maximumPending = 1, maximumReplays = 64, maximumRecentIds = 1024,
     maximumSubscriptions = 16\<rparr> example_world [Call example_query, Call example_commit] new_client)) \<le> 1"
proof -
  have "client_options None (Some 1) None None None = Inr \<lparr>op_timeout = 30000, maximumPending = 1, maximumReplays = 64, maximumRecentIds = 1024,
     maximumSubscriptions = 16\<rparr>" by (simp add: client_options_def client_bounded_def)
  from client_stays_bounded [OF this, unfolded sizes_ok_def, THEN conjunct1] show ?thesis by (simp only: options.simps)
qed





text \<open>
  C26: Once the client is disposed, whatever else happens, no call is pending, every call that was made is settled, and it has exactly one outcome.
\<close>

theorem disposal_settles_every_call:
  assumes "c = client_run opt w (ks @ Dispose # ks') new_client" "0 < maximumRecentIds opt"
  shows "c_pending c = [] \<and> distinct (map fst (c_outcomes c)) \<and> list_all (\<lambda>n. n \<in> fst ` set (c_outcomes c)) (map fst (c_calls c))"
proof -
  let ?b = "client_run opt w ks new_client" and ?d = "client_run opt w (ks @ [Dispose]) new_client"
  have b: "client_inv opt w ?b" "client_inv opt w ?d" and inv: "client_inv opt w c" using reached assms by blast+
  have "c_disposed ?d" using dispose_pending(2) [OF b(1) assms(2)] disposed_reached [OF assms(2)] by simp
  moreover have "client_le ?d c" using run_steps_inv [OF b(2) assms(2), of ks'] by (simp add: assms(1))
  ultimately have "c_disposed c" by (simp add: client_le_def)
  then have none: "c_pending c = []" using disposed_reached [OF assms(2)] assms(1) by blast
  have "n \<in> fst ` set (c_outcomes c)" if n: "n \<in> set (map fst (c_calls c))" for n
  proof -
    from n have "n \<in> dom (map_of (c_calls c))" by (simp add: dom_map_of_conv_image_fst)
    then obtain x where x: "call_of c n = Some x" unfolding call_of_def by blast
    then have ok: "call_ok c n x" using inv by (simp add: client_inv_def calls_ok_def)
    then have "x_settled x" using none by (auto simp: call_ok_def)
    then have "n \<in> dom (map_of (c_outcomes c))" using ok by (auto simp: call_ok_def)
    then show ?thesis by (simp add: dom_map_of_conv_image_fst)
  qed
  then show ?thesis using none inv by (simp add: list_all_iff client_inv_def outcomes_ok_def)
qed

theorem disposal_settles_every_call_witness:
  "c_pending (client_run example_options example_world ([Call example_query] @ Dispose # [Scheduled 0 True]) new_client) = []"
  by (rule conjunct1 [OF disposal_settles_every_call [OF refl example_limit]])

text \<open>
  C28: A replay is immutable: over any further steps, what is kept under a key for the same original capture has the
  same input, and an operation it has learnt stays. A key that is released can only be taken by a new capture.
\<close>

theorem replays_are_immutable:
  assumes "c = client_run opt w ks new_client" "0 < maximumRecentIds opt"
    and "map_of (c_replays (client_run opt w ks' c)) key = Some q" "rp_request q < c_next c"
  shows "\<exists>p. map_of (c_replays c) key = Some p \<and> replay_grows p q"
proof -
  have "client_inv opt w c" using reached assms(1,2) by blast
  then have "client_le c (client_run opt w ks' c)" using run_steps_inv assms(2) by blast
  then have "c_next c \<le> rp_request q \<or> (\<exists>p. map_of (c_replays c) key = Some p \<and> replay_grows p q)"
    using assms(3) unfolding client_le_def by blast
  then show ?thesis using assms(4) by simp
qed

theorem replays_are_immutable_witness:
  "\<exists>p. map_of (c_replays (client_run example_options example_world [Call example_commit] new_client)) (S ''k'') = Some p
     \<and> replay_grows p \<lparr>rp_input = JObj [(U ''idempotencyKey'', S ''k'')], rp_request = 0, rp_operationId = None\<rparr>"
proof (rule replays_are_immutable [OF refl])
  show "map_of (c_replays (client_run example_options example_world [] (client_run example_options example_world [Call example_commit] new_client))) (S ''k'')
    = Some \<lparr>rp_input = JObj [(U ''idempotencyKey'', S ''k'')], rp_request = 0, rp_operationId = None\<rparr>"
    using example_kept by simp
  have "c_next (client_run example_options example_world [Call example_commit] new_client) = 1"
    by (simp add: example_calls del: client_step.simps(1)) (simp add: run_eval reserve_def keep_replay_def)
  then show "rp_request \<lparr>rp_input = JObj [(U ''idempotencyKey'', S ''k'')], rp_request = 0, rp_operationId = None\<rparr>
    < c_next (client_run example_options example_world [Call example_commit] new_client)" by simp
qed (simp add: example_options_def)

text \<open>
  C27: A replay is released as unsent only if nothing can have been sent for it: the original call is the only one ever made for it,
  it is settled, and its outcome says that it was not sent.
\<close>

theorem released_replay_was_not_sent:
  assumes "c = client_run opt w ks new_client" "0 < maximumRecentIds opt" "snd (forgetUnsentReplay key n c)"
  shows "owner_of c n = Some n \<and> (\<forall>m. owner_of c m = Some n \<longrightarrow> m = n)
    \<and> map_option outcome_delivery (outcome_of c n) = Some Not_Sent"
proof -
  have inv: "custody_ok c" using reached [of opt w ks] assms(1,2) by (simp add: client_inv_def)
  from assms(3) obtain s where s: "map_of (c_submissions c) n = Some s" "sb_latest s = n" "sb_delivery s = Some Not_Sent"
    by (auto simp: forgetUnsentReplay_def split: option.splits if_splits)
  then have "submission_ok c n s" using inv by (simp add: custody_ok_def)
  then show ?thesis using s(2,3) by (auto simp: submission_ok_def)
qed

theorem released_replay_was_not_sent_witness:
  "owner_of (client_run example_options example_world [Call example_commit, CallerAborts 0] new_client) 0 = Some 0"
  using released_replay_was_not_sent [OF refl _ example_unsent] by (simp add: example_options_def)

end
