(* ===== verification/Session_Claims.thy ===== *)
theory Session_Claims imports Observation_Session Js_Kept Client_Claims begin

text \<open>
  At any time at most one subscription can write to the store, whatever the order of the steps and whatever the
  listeners of the store do in the meantime.
\<close>

definition live :: "'w session_scheme \<Rightarrow> nat \<Rightarrow> bool" where
  "live d s \<longleftrightarrow> \<not> se_disposed d \<and> (\<exists>l. map_of (se_listening d) s = Some l \<and> l_active l \<and> l_generation l = se_generation d)"

definition session_ok :: "session_world \<Rightarrow> world \<Rightarrow> 'w session_scheme \<Rightarrow> bool" where
  "session_ok sw w d \<longleftrightarrow> client_inv (sw_options sw) w (d_client d)
     \<and> (\<forall>s l. map_of (se_listening d) s = Some l \<longrightarrow> s < c_next (d_client d) \<and> l_generation l \<le> se_generation d)
     \<and> (se_subscribing d \<longleftrightarrow> se_starting d \<noteq> None)
     \<and> (\<forall>s. se_starting d = Some s \<longrightarrow> se_stop d = None)
     \<and> (\<forall>s. live d s \<longrightarrow> se_stop d = Some s \<or> se_starting d = Some s)"

text \<open>Listeners keep this, and leave a start that waits for its adapter waiting.\<close>

definition hearing_ok :: "session_world \<Rightarrow> world \<Rightarrow> (view \<Rightarrow> 'w session_scheme \<Rightarrow> 'w session_scheme) \<Rightarrow> bool" where
  "hearing_ok sw w hear \<longleftrightarrow> (\<forall>v d. session_ok sw w d \<longrightarrow> session_ok sw w (hear v d) \<and> (\<forall>s. se_starting d = Some s \<longrightarrow> se_starting (hear v d) = Some s))"

definition starts_kept :: "'w session_scheme \<Rightarrow> 'w session_scheme \<Rightarrow> bool" where
  "starts_kept d e \<longleftrightarrow> (\<forall>s. se_starting d = Some s \<longrightarrow> se_starting e = Some s)"

abbreviation kept :: "session_world \<Rightarrow> world \<Rightarrow> 'w session_scheme \<Rightarrow> 'w session_scheme \<Rightarrow> bool" where
  "kept sw w d e \<equiv> session_ok sw w e \<and> starts_kept d e"

abbreviation keeps_session :: "session_world \<Rightarrow> world \<Rightarrow> ('w, 'a) in_session \<Rightarrow> bool" where
  "keeps_session sw w m \<equiv> keeps (session_ok sw w) starts_kept m"

interpretation session: keeping "session_ok sw w" starts_kept for sw w
  by unfold_locales (auto simp: starts_kept_def)

lemma kept_refl: "session_ok sw w d \<Longrightarrow> kept sw w d d"
  by (simp add: session.le_refl)

lemma kept_trans: "kept sw w d e \<Longrightarrow> kept sw w e f \<Longrightarrow> kept sw w d f"
  using session.le_trans by blast

lemma kept_ok: "kept sw w d e \<Longrightarrow> session_ok sw w e"
  by simp

text \<open>Fields the invariant does not speak of, and steps of the client.\<close>

lemma session_ok_same:
  assumes "session_ok sw w d" "d_client e = d_client d" "se_listening e = se_listening d" "se_generation e = se_generation d"
    "se_subscribing e = se_subscribing d" "se_starting e = se_starting d" "se_stop e = se_stop d" "se_disposed e = se_disposed d"
  shows "kept sw w d e"
  using assms by (simp add: session_ok_def starts_kept_def live_def)

lemma session_ok_client:
  assumes "session_ok sw w d" "client_inv (sw_options sw) w c" "c_next (d_client d) \<le> c_next c"
  shows "kept sw w d (d\<lparr>d_client := c\<rparr>)"
  using assms by (fastforce simp: session_ok_def starts_kept_def live_def)

lemma kept_hear: "hearing_ok sw w hear \<Longrightarrow> session_ok sw w d \<Longrightarrow> kept sw w d (hear v d)"
  by (simp add: hearing_ok_def starts_kept_def)

lemma kept_ctx: "session_ok sw w d \<Longrightarrow> kept sw w d (d\<lparr>d_ctx := c\<rparr>)"
  by (rule session_ok_same) simp_all

lemma kept_heard: "hearing_ok sw w hear \<Longrightarrow> session_ok sw w d \<Longrightarrow> kept sw w d (fold (heard_by hear) news d)"
proof (induction news arbitrary: d)
  case (Cons v news)
  have "kept sw w d (heard_by hear v d)"
    unfolding heard_by_def using kept_trans [OF kept_ctx kept_hear] kept_ok [OF kept_ctx] Cons.prems by blast
  then show ?case using kept_trans [OF _ Cons.IH [OF Cons.prems(1)]] kept_ok by fastforce
qed (simp add: kept_refl)

lemma keeps_store:
  fixes hear :: "view \<Rightarrow> 'w session_scheme \<Rightarrow> 'w session_scheme"
  assumes "hearing_ok sw w hear"
  shows "keeps_session sw w (storeS hear f)"
  unfolding storeS_def
proof (rule keeps_at)
  fix d :: "'w session_scheme" assume d: "session_ok sw w d"
  obtain st ok where f: "f (d_store d) = (st, ok)" by (cases "f (d_store d)")
  let ?d = "d\<lparr>d_ctx := (d_ctx d)\<lparr>w_store := st\<rparr>\<rparr>"
  have "kept sw w d ?d" by (rule session_ok_same [OF d]) simp_all
  then have "kept sw w d (fold (heard_by hear) news ?d)" for news
    using kept_heard [OF assms kept_ok] kept_trans by blast
  then show "wp (let (st, ok) = f (d_store d); news = drop (length (published (d_store d))) (published st)
      in next_act (upd (\<lambda>d. fold (heard_by hear) news (d\<lparr>d_ctx := (d_ctx d)\<lparr>w_store := st\<rparr>\<rparr>))) (ret ok)) (\<lambda>r e. kept sw w d e) d"
    by (simp add: f Let_def wp_rules)
qed

lemma keeps_storeU: "hearing_ok sw w hear \<Longrightarrow> keeps_session sw w (storeU hear f)"
  by (intro session.keeps_forms keeps_store)

lemma keeps_client:
  assumes "\<And>c. client_inv (sw_options sw) w c \<Longrightarrow> client_inv (sw_options sw) w (f c) \<and> c_next c \<le> c_next (f c)"
  shows "keeps_session sw w (clientU f)"
  unfolding clientU_def
  by (rule session.keeps_upd, rule session_ok_client) (use assms in \<open>auto simp: session_ok_def\<close>)

lemma client_served:
  assumes "client_does opt w tr c c'" "client_inv opt w c" "0 < maximumRecentIds opt"
  shows "client_inv opt w c' \<and> c_next c \<le> c_next c'"
  using does_inv [OF assms] by (simp add: client_le_def)

text \<open>The invariants that a number of recent requests is remembered for.\<close>

definition world_ok :: "session_world \<Rightarrow> bool" where
  "world_ok sw \<longleftrightarrow> 0 < maximumRecentIds (sw_options sw)"

lemma keeps_stop_sub: "world_ok sw \<Longrightarrow> keeps_session sw w (clientU (stop_sub s))"
  by (rule keeps_client) (rule client_served [OF stop_sub_does], simp_all add: world_ok_def)

text \<open>Once the generation is over, or the session disposed, the subscription can be let go.\<close>

lemma kept_stopped:
  assumes "session_ok sw w d" "world_ok sw" "\<And>s. \<not> live e s"
    and "d_client e = (case se_stop d of None \<Rightarrow> d_client d | Some s \<Rightarrow> stop_sub s (d_client d))"
    and "se_listening e = se_listening d" "se_generation d \<le> se_generation e" "se_subscribing e = se_subscribing d"
    and "se_starting e = se_starting d" "se_stop e = None"
  shows "kept sw w d e"
proof -
  have "client_inv (sw_options sw) w (d_client e) \<and> c_next (d_client d) \<le> c_next (d_client e)"
    using assms(1,2,4) client_served [OF stop_sub_does] by (auto simp: session_ok_def world_ok_def split: option.split)
  then show ?thesis using assms(1,3,5-9) by (fastforce simp: session_ok_def starts_kept_def)
qed

lemma deliveryFault_keeps:
  fixes hear :: "view \<Rightarrow> 'w session_scheme \<Rightarrow> 'w session_scheme"
  assumes "hearing_ok sw w hear" "world_ok sw"
  shows "keeps_session sw w (deliveryFault hear code)"
proof -
  let ?fell = "next_act (upd (\<lambda>d. d\<lparr>se_generation := Suc (se_generation d), se_refresh := None\<rparr>)) stop_session :: ('w, unit) in_session"
  have "keeps_session sw w ?fell"
    unfolding keeps_def
  proof (intro allI impI)
    fix d :: "'w session_scheme" assume d: "session_ok sw w d"
    then have "l_generation l \<le> se_generation d" if "map_of (se_listening d) s = Some l" for s l
      using that by (simp add: session_ok_def)
    then have old: "l_generation l \<noteq> Suc (se_generation d)" if "map_of (se_listening d) s = Some l" for s l
      using that by fastforce
    show "wp ?fell (\<lambda>r e. kept sw w d e) d"
      by (auto simp: stop_session_def clientU_def wp_rules live_def split: option.split
        intro!: kept_stopped [OF d assms(2), THEN conjunct1] kept_stopped [OF d assms(2), THEN conjunct2] dest: old)
  qed
  moreover have "deliveryFault hear code = next_act ?fell (next_act (storeU hear abandonSnapshot) (storeU hear (\<lambda>st. fst (invalidate (fault_reason code) st))))"
    by (auto simp: deliveryFault_def seq_def upd_def split: prod.split sum.split intro!: ext)
  moreover have "keeps_session sw w (next_act (storeU hear abandonSnapshot) (storeU hear (\<lambda>st. fst (invalidate (fault_reason code) st))))"
    by (intro session.keeps_forms keeps_store assms(1))
  ultimately show ?thesis by (simp only: session.keeps_seq)
qed

lemma callS_keeps:
  assumes "world_ok sw"
  shows "keeps_session sw w (callS (sw_options sw) valid k m input a :: ('w, nat) in_session)"
  unfolding callS_def
proof (rule keeps_at)
  fix d :: "'w session_scheme" assume d: "session_ok sw w d"
  let ?a = "a\<lparr>a_kind := k, a_method := U m, a_input := input\<rparr>"
  obtain c r where c: "call_client (sw_options sw) valid ?a (d_client d) = (c, r)" by (cases "call_client (sw_options sw) valid ?a (d_client d)")
  have "client_inv (sw_options sw) w c \<and> c_next (d_client d) \<le> c_next c"
    using client_served [OF call_client_does [of "sw_options sw" w True "d_client d" valid ?a]] d assms
    by (simp add: c session_ok_def world_ok_def)
  then have "kept sw w d (d\<lparr>d_client := c\<rparr>)" using session_ok_client [OF d] by blast
  then show "wp (case call_client (sw_options sw) valid ?a (d_client d) of
       (c, Threw e) \<Rightarrow> next_act (upd (\<lambda>d. d\<lparr>d_client := c\<rparr>)) (ask (\<lambda>_. Inl e))
     | (c, _) \<Rightarrow> next_act (upd (\<lambda>d. d\<lparr>d_client := c\<rparr>)) (ret (c_next (d_client d)))) (\<lambda>r e. kept sw w d e) d"
    by (simp add: c wp_rules split: call_result.split)
qed

lemma kept_waits: "session_ok sw w d \<Longrightarrow> kept sw w d (d\<lparr>se_waits := ws\<rparr>)" "session_ok sw w d \<Longrightarrow> kept sw w d (d\<lparr>se_results := rs\<rparr>)"
  "session_ok sw w d \<Longrightarrow> kept sw w d (d\<lparr>se_refresh := n, se_waits := ws\<rparr>)"
  by (rule session_ok_same, simp_all)+

lemma keeps_outcome:
  "(\<And>v m. keeps ok le (f v m)) \<Longrightarrow> (\<And>e m. keeps ok le (g e m)) \<Longrightarrow> (\<And>x. keeps ok le (h x))
    \<Longrightarrow> keeps ok le (case r of Returned v m \<Rightarrow> f v m | Rejected e m \<Rightarrow> g e m | Faulted x \<Rightarrow> h x)"
  by (simp split: outcome.split)

lemma keeps_done:
  "keeps_session sw w (upd (\<lambda>d. d\<lparr>se_waits := f d, se_refresh := g d\<rparr>))" "keeps_session sw w (upd (\<lambda>d. d\<lparr>se_waits := f d\<rparr>))"
  by (rule session.keeps_upd, rule session_ok_same, simp_all)+

lemmas keeps_rules = keeps_done session.keeps_forms keeps_outcome session.keeps_upd keeps_store keeps_storeU callS_keeps
  kept_waits deliveryFault_keeps keeps_stop_sub

lemma requestSnapshot_keeps: "hearing_ok sw w hear \<Longrightarrow> world_ok sw \<Longrightarrow> keeps_session sw w (requestSnapshot sw hear a b)"
  unfolding requestSnapshot_def by (intro keeps_rules)

lemma session_refresh_keeps: "hearing_ok sw w hear \<Longrightarrow> world_ok sw \<Longrightarrow> keeps_session sw w (session_refresh sw hear a)"
  unfolding session_refresh_def by (rule requestSnapshot_keeps)

lemma readDraft_keeps: "world_ok sw \<Longrightarrow> keeps_session sw w (readDraft sw input a)"
  unfolding readDraft_def Let_def by (intro keeps_rules)

lemma session_resume_keeps: "world_ok sw \<Longrightarrow> keeps_session sw w (session_resume sw m a)"
  unfolding session_resume_def Let_def by (intro keeps_rules)

lemma resolve_keeps: "keeps_session sw w (resolve n r)"
  unfolding resolve_def by (intro keeps_rules)

lemma snapshot_arrives_keeps: "hearing_ok sw w hear \<Longrightarrow> keeps_session sw w (snapshot_arrives sw hear g r)"
  unfolding snapshot_arrives_def by (intro keeps_rules)

lemma events_arrive_keeps: "hearing_ok sw w hear \<Longrightarrow> world_ok sw \<Longrightarrow> keeps_session sw w (events_arrive sw hear after m r)"
  unfolding events_arrive_def by (intro keeps_rules)

lemma session_settle_keeps: "hearing_ok sw w hear \<Longrightarrow> world_ok sw \<Longrightarrow> keeps_session sw w (session_settle sw hear n)"
  unfolding session_settle_def
  by (rule keeps_withS) (auto split: option.split session_wait.split
      intro!: keeps_rules resolve_keeps snapshot_arrives_keeps events_arrive_keeps keeps_done)

lemma onEvent_keeps: "hearing_ok sw w hear \<Longrightarrow> keeps_session sw w (onEvent sw hear s e)"
  unfolding onEvent_def by (intro keeps_rules)

lemma kept_deaf:
  assumes "session_ok sw w d" "map_of (se_listening d) s = Some l"
  shows "kept sw w d (d\<lparr>se_listening := AList.update s (l\<lparr>l_active := False, l_fault := f\<rparr>) (se_listening d)\<rparr>)"
proof -
  have "live d t" if "live (d\<lparr>se_listening := AList.update s (l\<lparr>l_active := False, l_fault := f\<rparr>) (se_listening d)\<rparr>) t" for t
    using that by (auto simp: live_def split: if_splits)
  then show ?thesis using assms by (auto simp: session_ok_def starts_kept_def split: if_splits)
qed

lemma wp_kept:
  assumes "keeps_session sw w m" "kept sw w d e"
  shows "wp m (\<lambda>r f. kept sw w d f) e"
  by (rule wp_mono [OF keepsD [OF assms(1) kept_ok [OF assms(2)]]]) (rule kept_trans [OF assms(2)])

lemma onFault_keeps:
  fixes hear :: "view \<Rightarrow> 'w session_scheme \<Rightarrow> 'w session_scheme"
  assumes "hearing_ok sw w hear" "world_ok sw"
  shows "keeps_session sw w (onFault hear s f)"
  unfolding onFault_def
proof (rule keeps_at)
  fix d :: "'w session_scheme" assume d: "session_ok sw w d"
  show "wp (case map_of (se_listening d) s of None \<Rightarrow> ret ()
     | Some l \<Rightarrow> next_act (upd (\<lambda>d. d\<lparr>se_listening := AList.update s (l\<lparr>l_active := False, l_fault := Some f\<rparr>) (se_listening d)\<rparr>))
         (deliveryFault hear (fst f))) (\<lambda>r e. kept sw w d e) d"
    using kept_deaf [OF d] wp_kept [OF deliveryFault_keeps [OF assms]] d by (auto simp: wp_rules kept_refl split: option.split)
qed

lemma in_turn_keeps: "(\<And>x. keeps_session sw w (f x)) \<Longrightarrow> keeps_session sw w (in_turn f xs)"
  by (induction xs) (auto intro: keeps_rules)

abbreviation handlers :: "session_world \<Rightarrow> (view \<Rightarrow> 'w session_scheme \<Rightarrow> 'w session_scheme) \<Rightarrow> client \<Rightarrow> client \<Rightarrow> ('w, unit) in_session" where
  "handlers sw hear b c \<equiv> next_act (in_turn (\<lambda>(s, event). onEvent sw hear s event) (drop (length (c_events b)) (c_events c)))
     (in_turn (\<lambda>(s, x). onFault hear s x) (drop (length (c_faults b)) (c_faults c)))"

lemma handlers_keep: "hearing_ok sw w hear \<Longrightarrow> world_ok sw \<Longrightarrow> keeps_session sw w (handlers sw hear b c)"
  by (intro session.keeps_seq in_turn_keeps) (auto split: prod.split intro: onEvent_keeps onFault_keeps)

lemma wp_delivering:
  "wp (delivering sw hear f) Q d \<longleftrightarrow> wp (handlers sw hear (d_client d) (f (d_client d))) Q (d\<lparr>d_client := f (d_client d)\<rparr>)"
  unfolding delivering_def Let_def clientU_def by (simp only: wp_basic(3) wp_after_upd)

lemma delivering_keeps:
  fixes hear :: "view \<Rightarrow> 'w session_scheme \<Rightarrow> 'w session_scheme"
  assumes "hearing_ok sw w hear" "world_ok sw"
    and "\<And>c. client_inv (sw_options sw) w c \<Longrightarrow> client_inv (sw_options sw) w (f c) \<and> c_next c \<le> c_next (f c)"
  shows "keeps_session sw w (delivering sw hear f)"
  unfolding keeps_def wp_delivering
proof (intro allI impI)
  fix d :: "'w session_scheme" assume d: "session_ok sw w d"
  have "kept sw w d (d\<lparr>d_client := f (d_client d)\<rparr>)"
    by (rule session_ok_client [OF d]) (use d assms(3) in \<open>auto simp: session_ok_def\<close>)
  then show "wp (handlers sw hear (d_client d) (f (d_client d))) (\<lambda>r e. kept sw w d e) (d\<lparr>d_client := f (d_client d)\<rparr>)"
    by (rule wp_kept [OF handlers_keep [OF assms(1,2)]])
qed

lemma session_dispose_keeps:
  fixes hear :: "view \<Rightarrow> 'w session_scheme \<Rightarrow> 'w session_scheme"
  assumes "hearing_ok sw w hear" "world_ok sw"
  shows "keeps_session sw w (session_dispose hear)"
proof -
  let ?gone = "next_act (upd (\<lambda>d. d\<lparr>se_disposed := True\<rparr>)) stop_session :: ('w, unit) in_session"
  have "keeps_session sw w ?gone"
    unfolding keeps_def
  proof (intro allI impI)
    fix d :: "'w session_scheme" assume d: "session_ok sw w d"
    show "wp ?gone (\<lambda>r e. kept sw w d e) d"
      by (auto simp: stop_session_def clientU_def wp_rules live_def split: option.split intro!: kept_stopped [OF d assms(2), THEN conjunct1] kept_stopped [OF d assms(2), THEN conjunct2])
  qed
  moreover have "session_dispose hear = next_act ?gone (storeU hear abandonSnapshot)"
    by (auto simp: session_dispose_def seq_def upd_def split: prod.split sum.split intro!: ext)
  ultimately show ?thesis using keeps_storeU [OF assms(1)] by (simp only: session.keeps_seq)
qed

lemma live_started: "live (d\<lparr>se_subscribing := b, se_starting := x\<rparr>) t = live d t" "live (d\<lparr>se_subscribing := b, se_starting := x, se_stop := y\<rparr>) t = live d t"
  by (simp_all add: live_def)

lemma session_ok_started: "session_ok sw w d \<Longrightarrow> (\<And>t. \<not> live d t) \<Longrightarrow> session_ok sw w (d\<lparr>se_subscribing := False, se_starting := None\<rparr>)"
  by (simp add: session_ok_def live_started)

lemma session_subscribed_ok:
  fixes hear :: "view \<Rightarrow> 'w session_scheme \<Rightarrow> 'w session_scheme"
  assumes "hearing_ok sw w hear" "world_ok sw" "session_ok sw w d" "se_starting d = Some s"
  shows "wp (session_subscribed sw hear a s) (\<lambda>r e. session_ok sw w e) d"
proof -
  let ?d = "d\<lparr>se_subscribing := False, se_starting := None\<rparr>"
  have stop: "se_stop d = None" "\<And>t. live d t \<Longrightarrow> t = s" using assms(3,4) by (auto simp: session_ok_def)
  have other: "\<not> live d t" if "\<not> live d s" for t using stop(2) that by blast
  show ?thesis
  proof (cases "map_of (se_listening d) s")
    case None
    have "\<not> live d t" for t by (rule other) (use None in \<open>simp add: live_def\<close>)
    then have "session_ok sw w ?d" by (rule session_ok_started [OF assms(3)])
    then show ?thesis by (simp add: session_subscribed_def wp_rules None)
  next
    case (Some l)
    show ?thesis
    proof (cases "\<not> l_active l \<or> se_disposed d \<or> l_generation l \<noteq> se_generation d")
      case True
      have "\<not> live d t" for t by (rule other) (use Some True in \<open>auto simp: live_def\<close>)
      then have "session_ok sw w ?d" by (rule session_ok_started [OF assms(3)])
      from keepsD [OF keeps_stop_sub [OF assms(2)] this, of s] have "wp (clientU (stop_sub s)) (\<lambda>r e. session_ok sw w e) ?d"
        by (rule wp_mono) (simp add: kept_ok)
      then show ?thesis using True by (simp add: session_subscribed_def wp_rules Some clientU_def)
    next
      case False
      have "session_ok sw w (?d\<lparr>se_stop := Some s\<rparr>)" using assms(3) stop by (auto simp: session_ok_def live_started)
      from keepsD [OF requestSnapshot_keeps [OF assms(1,2)] this, of a True]
      have "wp (requestSnapshot sw hear a True) (\<lambda>r e. session_ok sw w e) (?d\<lparr>se_stop := Some s\<rparr>)"
        by (rule wp_mono) (simp add: kept_ok)
      then show ?thesis using False by (simp add: session_subscribed_def wp_rules Some)
    qed
  qed
qed

lemma client_served_fun: "world_ok sw \<Longrightarrow> (\<And>c. client_does (sw_options sw) w True c (f c))
    \<Longrightarrow> client_inv (sw_options sw) w c \<Longrightarrow> client_inv (sw_options sw) w (f c) \<and> c_next c \<le> c_next (f c)"
  using client_served [of "sw_options sw" w True c "f c"] by (simp add: world_ok_def)

lemma session_adapter_ok:
  fixes hear :: "view \<Rightarrow> 'w session_scheme \<Rightarrow> 'w session_scheme"
  assumes "hearing_ok sw w hear" "world_ok sw" "session_ok sw w d"
  shows "wp (session_adapter sw hear a s raised) (\<lambda>r e. session_ok sw w e) d"
proof (cases "se_starting d = Some s")
  case True
  have "wp (delivering sw hear (subscribed s raised)) (\<lambda>r e. kept sw w d e) d"
    by (rule keepsD [OF delivering_keeps [OF assms(1,2)] assms(3)]) (rule client_served_fun [OF assms(2) subscribed_does])
  then have "wp (delivering sw hear (subscribed s raised)) (\<lambda>r e. (\<forall>x. r = Inl x \<longrightarrow> session_ok sw w e)
      \<and> (\<forall>x. r = Inr x \<longrightarrow> wp (session_subscribed sw hear a s) (\<lambda>r e. session_ok sw w e) e)) d"
    by (rule wp_mono) (use True session_subscribed_ok [OF assms(1,2)] in \<open>auto simp: starts_kept_def\<close>)
  then show ?thesis using True by (simp add: session_adapter_def wp_rules)
qed (simp add: session_adapter_def wp_rules assms(3))

lemma begin_quiet: "wp (storeU hear beginSnapshot) Q d \<longleftrightarrow> Q (Inr ()) (d\<lparr>d_ctx := (d_ctx d)\<lparr>w_store := beginSnapshot (d_store d)\<rparr>\<rparr>)"
  by (simp add: storeS_def wp_rules beginSnapshot_def ex_bool_eq)

lemma subscribe_next: "c_next (subscribe opt c) = Suc (c_next c)"
  by (simp add: subscribe_def set_sub_def Let_def)

lemma session_start_ok:
  fixes hear :: "view \<Rightarrow> 'w session_scheme \<Rightarrow> 'w session_scheme"
  assumes "hearing_ok sw w hear" "world_ok sw" "session_ok sw w d"
  shows "wp (session_start sw hear a) (\<lambda>r e. session_ok sw w e) d"
proof (cases "se_disposed d \<or> se_subscribing d \<or> se_stop d \<noteq> None")
  case True
  have "wp (session_refresh sw hear a) (\<lambda>r e. session_ok sw w e) d"
    by (rule wp_mono [OF keepsD [OF session_refresh_keeps [OF assms(1,2)] assms(3)]]) (rule kept_ok)
  then show ?thesis using True assms(3) by (auto simp: session_start_def wp_rules)
next
  case False
  let ?c = "d_client d" and ?s = "c_next (d_client d)"
  let ?c' = "subscribe (sw_options sw) ?c"
  let ?d = "d\<lparr>se_subscribing := True, d_ctx := (d_ctx d)\<lparr>w_store := beginSnapshot (d_store d)\<rparr>, se_starting := Some ?s,
     se_listening := AList.update ?s \<lparr>l_generation = se_generation d, l_active = True, l_fault = None\<rparr> (se_listening d), d_client := ?c'\<rparr>"
  have none: "se_starting d = None" "\<And>t. \<not> live d t" using False assms(3) by (auto simp: session_ok_def)
  have "client_inv (sw_options sw) w ?c' \<and> ?s \<le> c_next ?c'"
    using client_served_fun [OF assms(2) subscribe_does [of "sw_options sw" w True], of ?c] assms(3) by (simp add: session_ok_def)
  moreover have "t = ?s" if "live ?d t" for t using that none(2) [of t] by (auto simp: live_def split: if_splits)
  ultimately have "session_ok sw w ?d" using assms(3) False by (auto simp: session_ok_def subscribe_next less_Suc_eq split: if_splits)
  from keepsD [OF handlers_keep [OF assms(1,2)] this, of ?c ?c']
  have fact: "wp (handlers sw hear ?c ?c') (\<lambda>r e. session_ok sw w e \<and> se_starting e = Some ?s)
    ?d"
    by (simp add: starts_kept_def conj_commute)
  show ?thesis using False
    by (simp add: session_start_def Let_def wp_seq [of "storeU hear beginSnapshot"] wp_seq [of "delivering sw hear f" for f] wp_basic wp_after_upd begin_quiet wp_delivering)
      (rule wp_mono [OF fact], auto simp: wp_basic session_subscribed_ok [OF assms(1,2)])
qed

lemma session_step_ok:
  fixes hear :: "view \<Rightarrow> 'w session_scheme \<Rightarrow> 'w session_scheme"
  assumes "hearing_ok sw w hear" "world_ok sw" "session_ok sw w d"
  shows "session_ok sw w (session_step sw w hear k d)"
proof -
  have ok: "session_ok sw w (snd (m d))" if "keeps_session sw w m" for m :: "('w, 'b) in_session"
    using keepsD [OF that assms(3)] by (simp add: wp_after kept_ok)
  have ok': "session_ok sw w (snd (m d))" if "wp m (\<lambda>r e. session_ok sw w e) d" for m :: "('w, 'b) in_session"
    using that by (simp add: wp_after)
  show ?thesis
  proof (cases k)
    case (Session_Client k')
    have "client_inv (sw_options sw) w c \<Longrightarrow> client_inv (sw_options sw) w (client_step (sw_options sw) w k' c) \<and> c_next c \<le> c_next (client_step (sw_options sw) w k' c)" for c
      using step_inv [of "sw_options sw" w c k'] assms(2) by (simp add: world_ok_def client_le_def)
    then show ?thesis using ok [OF delivering_keeps [OF assms(1,2)]] assms(3) by (simp add: Session_Client)
  qed (simp_all add: ok' session_start_ok session_adapter_ok assms ok session_refresh_keeps readDraft_keeps session_resume_keeps
      session_settle_keeps session_dispose_keeps)
qed

section \<open>Property\<close>

definition new_session :: "client \<Rightarrow> ctx \<Rightarrow> session" where
  "new_session c x = \<lparr>d_client = c, d_ctx = x, se_stop = None, se_refresh = None, se_disposed = False, se_subscribing = False,
     se_starting = None, se_generation = 0, se_listening = [], se_waits = [], se_results = []\<rparr>"

lemma session_run_ok:
  assumes "hearing_ok sw w hear" "world_ok sw"
  shows "session_ok sw w d \<Longrightarrow> session_ok sw w (fold (session_step sw w hear) ks d)"
  by (induction ks arbitrary: d) (simp_all add: session_step_ok [OF assms])

lemma new_session_ok: "world_ok sw \<Longrightarrow> session_ok sw w (new_session (client_run (sw_options sw) w js new_client) x)"
  using reached [of "sw_options sw" w js] by (simp add: session_ok_def new_session_def world_ok_def live_def)

lemma live_unique:
  assumes "session_ok sw w d" "live d s" "live d t"
  shows "t = s"
proof -
  have "se_stop d = Some s \<or> se_starting d = Some s" "se_stop d = Some t \<or> se_starting d = Some t"
    "\<And>u. se_starting d = Some u \<Longrightarrow> se_stop d = None"
    using assms unfolding session_ok_def by blast+
  then show ?thesis by (metis option.distinct(1) option.inject)
qed

lemma dead_event: "\<not> live d s \<Longrightarrow> snd (onEvent sw hear s event d) = d"
  by (auto simp: onEvent_def live_def withS_def ret_def split: option.split)

lemma overtaken_snapshot:
  "map_of (se_waits d) n = Some (Snapshot_Wait g) \<Longrightarrow> g \<noteq> se_generation d \<Longrightarrow> d_ctx (snd (session_settle sw hear n d)) = d_ctx d"
  by (auto simp: session_settle_def snapshot_arrives_def withS_def seq_def upd_def ret_def split: option.split)


definition example_session_world :: session_world where
  "example_session_world = \<lparr>sw_options = example_options,
     sw_limits = \<lparr>maximumRecentEvents = 2, maximumBufferedEvents = 2, maximumOperations = 2, maximumDrafts = 1\<rparr>,
     sw_request = (\<lambda>_. True), sw_event = (\<lambda>_. True)\<rparr>"

definition example_session :: session where
  "example_session = fold (session_step example_session_world example_world (\<lambda>v d. d))
     [Session_Start example_query, Session_Adapter example_query 0 None] (new_session (client_run example_options example_world [] new_client) initial_ctx)"


end
