(* ===== verification/Manual_Clock.thy ===== *)
theory Manual_Clock imports Js_State begin

text \<open>
  The manually advanced clock of the development transports, \<^verbatim>\<open>ManualClock\<close> of \<^verbatim>\<open>ui/src/mocks/clock.ts\<close>.

  A callback is a number, the parameter \<open>run\<close> says what the callback of that number does; it may throw, and
  the state may hold more than the clock, so a callback can schedule, cancel, dispose and do anything else. Times are
  integers; the safe-integer checks remain as bounds. The loops of the code count their turns and stop at a limit, so they
  are recursions on the turns that are left.
\<close>

section \<open>The state\<close>

record task =
  tk_due :: int
  tk_callback :: nat

record clock =
  ck_maxTasks :: nat
  ck_now :: int
  ck_sequence :: int
  ck_disposed :: bool
  ck_advancing :: bool
  ck_tasks :: "(int \<times> task) list"

definition clock_error :: "string \<Rightarrow> 'a res" where
  "clock_error code = Inl (PlainError (''mock_clock_'' @ code))"

definition clock_elapsed :: "int \<Rightarrow> unit res" where
  "clock_elapsed v = (if v < 0 \<or> v > MAX_SAFE then clock_error ''invalid_time'' else Inr ())"

definition positiveInteger :: "int \<Rightarrow> unit res" where
  "positiveInteger v = (if v < 1 \<or> v > MAX_SAFE then clock_error ''invalid_limit'' else Inr ())"

definition new_clock :: "int option \<Rightarrow> clock res" where
  "new_clock maxTasks =
     (let m = (case maxTasks of None \<Rightarrow> 1024 | Some n \<Rightarrow> n) in
      bindE (positiveInteger m) (\<lambda>_.
        if m > 65536 then clock_error ''invalid_limit''
        else Inr \<lparr>ck_maxTasks = nat m, ck_now = 0, ck_sequence = 0, ck_disposed = False, ck_advancing = False, ck_tasks = []\<rparr>))"

type_synonym ('w, 'a) clocked = "('w clock_scheme, 'a) act"

abbreviation throwS :: "string \<Rightarrow> ('w, 'a) clocked" where
  "throwS code \<equiv> ask (\<lambda>_. clock_error code)"

section \<open>Tasks\<close>

definition assertActive :: "('w, 'a) clocked \<Rightarrow> ('w, 'a) clocked" where
  "assertActive rest = withS (\<lambda>s. if ck_disposed s then throwS ''disposed'' else rest)"

text \<open>A task is named by its number, and the handle that cancels it is that number.\<close>

definition clock_schedule :: "int \<Rightarrow> nat \<Rightarrow> ('w, int) clocked" where
  "clock_schedule delayMs callback =
     assertActive (checkS (\<lambda>_. clock_elapsed delayMs) (withS (\<lambda>s.
       if length (ck_tasks s) \<ge> ck_maxTasks s then throwS ''task_limit''
       else let due = ck_now s + delayMs; i = ck_sequence s + 1 in
         checkS (\<lambda>_. clock_elapsed due)
         (next_act (upd (\<lambda>s. s\<lparr>ck_sequence := i\<rparr>))
         (if i > MAX_SAFE then throwS ''sequence_limit''
          else next_act (upd (\<lambda>s. s\<lparr>ck_tasks := AList.update i \<lparr>tk_due = due, tk_callback = callback\<rparr> (ck_tasks s)\<rparr>)) (ret i))))))"

definition clock_cancel :: "int \<Rightarrow> ('w, unit) clocked" where
  "clock_cancel i = upd (\<lambda>s. s\<lparr>ck_tasks := AList.delete i (ck_tasks s)\<rparr>)"

definition earlier :: "int \<times> task \<Rightarrow> int \<times> task \<Rightarrow> bool" where
  "earlier a b \<longleftrightarrow> tk_due (snd a) < tk_due (snd b) \<or> (tk_due (snd a) = tk_due (snd b) \<and> fst a < fst b)"

definition clock_next :: "'w clock_scheme \<Rightarrow> (int \<times> task) option" where
  "clock_next s = foldl (\<lambda>best t. case best of None \<Rightarrow> Some t | Some b \<Rightarrow> if earlier t b then Some t else best) None (ck_tasks s)"

section \<open>Advancing\<close>

text \<open>The loop of \<^verbatim>\<open>advanceTo\<close>, with the turns that are left.\<close>

primrec advance_loop :: "(nat \<Rightarrow> ('w, unit) clocked) \<Rightarrow> int \<Rightarrow> nat \<Rightarrow> ('w, unit) clocked" where
  "advance_loop run deadline 0 = withS (\<lambda>s. case clock_next s of
       None \<Rightarrow> upd (\<lambda>s. s\<lparr>ck_now := deadline\<rparr>)
     | Some (_, t) \<Rightarrow> if tk_due t > deadline then upd (\<lambda>s. s\<lparr>ck_now := deadline\<rparr>) else throwS ''turn_limit'')"
| "advance_loop run deadline (Suc turns) = withS (\<lambda>s. case clock_next s of
       None \<Rightarrow> upd (\<lambda>s. s\<lparr>ck_now := deadline\<rparr>)
     | Some (i, t) \<Rightarrow>
         if tk_due t > deadline then upd (\<lambda>s. s\<lparr>ck_now := deadline\<rparr>)
         else next_act (upd (\<lambda>s. s\<lparr>ck_tasks := AList.delete i (ck_tasks s), ck_now := tk_due t\<rparr>))
           (next_act (run (tk_callback t)) (advance_loop run deadline turns)))"

definition advanceTo :: "(nat \<Rightarrow> ('w, unit) clocked) \<Rightarrow> int \<Rightarrow> ('w, unit) clocked" where
  "advanceTo run deadline =
     assertActive (checkS (\<lambda>_. clock_elapsed deadline) (withS (\<lambda>s.
       if deadline < ck_now s then throwS ''backwards''
       else if ck_advancing s then throwS ''reentrant_advance''
       else next_act (upd (\<lambda>s. s\<lparr>ck_advancing := True\<rparr>))
         (finallyS (advance_loop run deadline (ck_maxTasks s)) (upd (\<lambda>s. s\<lparr>ck_advancing := False\<rparr>))))))"

definition advanceBy :: "(nat \<Rightarrow> ('w, unit) clocked) \<Rightarrow> int \<Rightarrow> ('w, unit) clocked" where
  "advanceBy run milliseconds = checkS (\<lambda>_. clock_elapsed milliseconds) (withS (\<lambda>s. advanceTo run (ck_now s + milliseconds)))"

definition runNext :: "(nat \<Rightarrow> ('w, unit) clocked) \<Rightarrow> ('w, bool) clocked" where
  "runNext run = assertActive (withS (\<lambda>s. case clock_next s of
       None \<Rightarrow> ret False
     | Some (_, t) \<Rightarrow> next_act (advanceTo run (tk_due t)) (ret True)))"

primrec run_loop :: "(nat \<Rightarrow> ('w, unit) clocked) \<Rightarrow> nat \<Rightarrow> ('w, unit) clocked" where
  "run_loop run 0 = withS (\<lambda>s. if ck_tasks s = [] then ret () else throwS ''run_limit'')"
| "run_loop run (Suc turns) = withS (\<lambda>s. if ck_tasks s = [] then ret () else seq (runNext run) (\<lambda>_. run_loop run turns))"

definition runAll :: "(nat \<Rightarrow> ('w, unit) clocked) \<Rightarrow> int option \<Rightarrow> ('w, unit) clocked" where
  "runAll run maxTasks = withS (\<lambda>s.
     let m = (case maxTasks of None \<Rightarrow> int (ck_maxTasks s) | Some n \<Rightarrow> n) in
     checkS (\<lambda>_. positiveInteger m) (if m > 65536 then throwS ''invalid_limit'' else run_loop run (nat m)))"

definition clock_reset :: "('w, unit) clocked" where
  "clock_reset = assertActive (withS (\<lambda>s. if ck_advancing s then throwS ''reset_during_advance''
     else upd (\<lambda>s. s\<lparr>ck_tasks := [], ck_now := 0\<rparr>)))"

definition clock_dispose :: "('w, unit) clocked" where
  "clock_dispose = upd (\<lambda>s. s\<lparr>ck_tasks := [], ck_disposed := True\<rparr>)"

section \<open>The clock stays in order\<close>

definition clock_ok :: "'w clock_scheme \<Rightarrow> bool" where
  "clock_ok s \<longleftrightarrow> 0 \<le> ck_now s \<and> ck_now s \<le> MAX_SAFE \<and> distinct (map fst (ck_tasks s)) \<and> length (ck_tasks s) \<le> ck_maxTasks s
     \<and> (\<forall>(i, t) \<in> set (ck_tasks s). i \<le> ck_sequence s \<and> ck_now s \<le> tk_due t \<and> tk_due t \<le> MAX_SAFE)"

text \<open>The task picked is one that no other task is to run before.\<close>

lemma best_of_fold:
  "foldl (\<lambda>best t. case best of None \<Rightarrow> Some t | Some b \<Rightarrow> if earlier t b then Some t else best) (Some b) ts = Some x
    \<Longrightarrow> (x = b \<or> x \<in> set ts) \<and> (\<forall>t \<in> insert b (set ts). \<not> earlier t x)"
proof (induction ts arbitrary: b)
  case (Cons t ts)
  show ?case
  proof (cases "earlier t b")
    case True
    then have "(x = t \<or> x \<in> set ts) \<and> (\<forall>u \<in> insert t (set ts). \<not> earlier u x)" using Cons by simp
    moreover have "\<not> earlier b x" if "\<not> earlier t x" using that True by (auto simp: earlier_def)
    ultimately show ?thesis by auto
  next
    case False
    then have "(x = b \<or> x \<in> set ts) \<and> (\<forall>u \<in> insert b (set ts). \<not> earlier u x)" using Cons by simp
    moreover have "\<not> earlier t x" if "\<not> earlier b x" using that False by (auto simp: earlier_def)
    ultimately show ?thesis by auto
  qed
qed (auto simp: earlier_def)

lemma clock_next_Some:
  assumes "clock_next s = Some x"
  shows "x \<in> set (ck_tasks s)" "\<forall>t \<in> set (ck_tasks s). \<not> earlier t x"
proof -
  obtain t ts where "ck_tasks s = t # ts" using assms by (cases "ck_tasks s") (auto simp: clock_next_def)
  then show "x \<in> set (ck_tasks s)" "\<forall>t \<in> set (ck_tasks s). \<not> earlier t x"
    using assms best_of_fold [of t ts x] by (auto simp: clock_next_def)
qed

lemma clock_next_None: "clock_next s = None \<longleftrightarrow> ck_tasks s = []"
proof -
  have "foldl (\<lambda>best t. case best of None \<Rightarrow> Some t | Some b \<Rightarrow> if earlier t b then Some t else best) (Some b) ts \<noteq> None" for b ts
    by (induction ts arbitrary: b) auto
  then show ?thesis by (cases "ck_tasks s") (simp_all add: clock_next_def)
qed

lemma new_task: "k \<notin> fst ` set m \<Longrightarrow> AList.update k v m = m @ [(k, v)]"
  by (induction m) auto

definition same_time :: "'w clock_scheme \<Rightarrow> 'w clock_scheme \<Rightarrow> bool" where
  "same_time s t \<longleftrightarrow> clock_ok t \<and> ck_now t = ck_now s \<and> ck_advancing t = ck_advancing s \<and> ck_maxTasks t = ck_maxTasks s"

lemma clock_schedule_ok:
  assumes "clock_ok s"
  shows "wp (clock_schedule d n) (\<lambda>r t. same_time s t) s"
proof -
  have "ck_sequence s + 1 \<notin> fst ` set (ck_tasks s)" using assms by (force simp: clock_ok_def)
  with assms show ?thesis
    by (auto simp: clock_schedule_def assertActive_def wp_rules clock_elapsed_def clock_error_def Let_def clock_ok_def new_task same_time_def
       split: if_splits)
qed

lemma set_delete: "distinct (map fst m) \<Longrightarrow> set (AList.delete k m) = {x \<in> set m. fst x \<noteq> k}"
  by (auto simp: AList.delete_eq)

lemma clock_cancel_ok: "clock_ok s \<Longrightarrow> wp (clock_cancel i) (\<lambda>r t. same_time s t) s"
  using length_delete_le [of i "ck_tasks s"]
  by (auto simp: clock_cancel_def wp_rules clock_ok_def same_time_def distinct_delete set_delete)

lemma clock_dispose_ok: "clock_ok s \<Longrightarrow> wp clock_dispose (\<lambda>r t. same_time s t) s"
  by (simp add: clock_dispose_def wp_rules clock_ok_def same_time_def)

section \<open>Advancing\<close>

text \<open>
  A clock whose callbacks are recorded with the time they ran at. Its callbacks may do what the clock's own operations can do
  while it is being advanced.
\<close>

record traced = clock +
  ck_log :: "int list"

definition recorded :: "(nat \<Rightarrow> (traced, unit) act) \<Rightarrow> nat \<Rightarrow> (traced, unit) act" where
  "recorded run n = next_act (upd (\<lambda>s. s\<lparr>ck_log := ck_log s @ [ck_now s]\<rparr>)) (run n)"

lemma wp_recorded: "wp (recorded run n) Q s = wp (run n) Q (s\<lparr>ck_log := ck_log s @ [ck_now s]\<rparr>)"
  by (simp add: recorded_def wp_rules)

definition callbacks_ok :: "(nat \<Rightarrow> (traced, unit) act) \<Rightarrow> bool" where
  "callbacks_ok run \<longleftrightarrow> (\<forall>n s. clock_ok s \<longrightarrow> ck_advancing s \<longrightarrow> wp (run n) (\<lambda>r t. same_time s t \<and> ck_log t = ck_log s) s)"

lemma nothing_due:
  assumes "case clock_next s of None \<Rightarrow> True | Some (i, t) \<Rightarrow> deadline < tk_due t"
  shows "\<forall>(i, t) \<in> set (ck_tasks s). deadline < tk_due t"
proof (cases "clock_next s")
  case (Some x)
  then show ?thesis using assms clock_next_Some(2) [OF Some] by (cases x) (fastforce simp: earlier_def)
qed (simp add: clock_next_None)

definition advanced :: "traced \<Rightarrow> int \<Rightarrow> nat \<Rightarrow> unit res \<Rightarrow> traced \<Rightarrow> bool" where
  "advanced s deadline k r t \<longleftrightarrow> clock_ok t \<and> ck_advancing t \<and> ck_maxTasks t = ck_maxTasks s
     \<and> (\<exists>times. ck_log t = ck_log s @ times \<and> sorted times \<and> length times \<le> k \<and> set times \<subseteq> {ck_now s .. deadline})
     \<and> (r = Inr () \<longrightarrow> ck_now t = deadline \<and> (\<forall>(i, t) \<in> set (ck_tasks t). deadline < tk_due t))"

lemma advanced_here:
  assumes "clock_ok s" "ck_advancing s" "ck_now s \<le> deadline" "deadline \<le> MAX_SAFE"
    and "case clock_next s of None \<Rightarrow> True | Some (i, t) \<Rightarrow> deadline < tk_due t"
  shows "advanced s deadline k (Inr ()) (s\<lparr>ck_now := deadline\<rparr>)"
  using nothing_due [OF assms(5)] assms(1-4) by (fastforce simp: advanced_def clock_ok_def)

lemma advanced_after:
  assumes "advanced s' deadline k r t" "ck_log s' = ck_log s @ [ck_now s']" "ck_now s \<le> ck_now s'" "ck_now s' \<le> deadline" "ck_maxTasks s' = ck_maxTasks s"
  shows "advanced s deadline (Suc k) r t"
proof -
  obtain times where "ck_log t = ck_log s' @ times" "sorted times" "length times \<le> k" "set times \<subseteq> {ck_now s' .. deadline}"
    using assms(1) by (auto simp: advanced_def)
  then have "ck_log t = ck_log s @ (ck_now s' # times)" "sorted (ck_now s' # times)" "length (ck_now s' # times) \<le> Suc k"
    "set (ck_now s' # times) \<subseteq> {ck_now s .. deadline}" using assms(2-4) by auto
  then show ?thesis using assms(1,5) unfolding advanced_def by metis
qed

lemma advance_loop_ok:
  assumes "callbacks_ok run" "clock_ok s" "ck_advancing s" "ck_now s \<le> deadline" "deadline \<le> MAX_SAFE"
  shows "wp (advance_loop (recorded run) deadline k) (advanced s deadline k) s"
  using assms(2-4)
proof (induction k arbitrary: s)
  case 0
  then show ?case using advanced_here [OF 0 assms(5), of 0]
    by (auto simp: wp_rules clock_error_def advanced_def clock_ok_def split: option.split)
next
  case (Suc k)
  show ?case
  proof (cases "case clock_next s of None \<Rightarrow> True | Some (i, t) \<Rightarrow> deadline < tk_due t")
    case True
    then show ?thesis using advanced_here [OF Suc.prems assms(5) True] by (auto simp: wp_rules split: option.splits)
  next
    case False
    then obtain i t where t: "clock_next s = Some (i, t)" "tk_due t \<le> deadline" by (auto split: option.splits)
    let ?s = "s\<lparr>ck_tasks := AList.delete i (ck_tasks s), ck_now := tk_due t, ck_log := ck_log s @ [tk_due t]\<rparr>"
    have now: "ck_now s \<le> tk_due t" "tk_due t \<le> MAX_SAFE" using clock_next_Some(1) [OF t(1)] Suc.prems(1) by (auto simp: clock_ok_def)
    have ok: "clock_ok ?s"
      using Suc.prems(1) now length_delete_le [of i "ck_tasks s"] clock_next_Some(2) [OF t(1)]
      by (fastforce simp: clock_ok_def distinct_delete set_delete earlier_def)
    have "ck_advancing ?s" using Suc.prems(2) by simp
    with assms(1) ok have "wp (run (tk_callback t)) (\<lambda>r u. same_time ?s u \<and> ck_log u = ck_log ?s) ?s"
      unfolding callbacks_ok_def by blast
    then have "wp (run (tk_callback t)) (\<lambda>r u. (\<forall>e. r = Inl e \<longrightarrow> advanced s deadline (Suc k) (Inl e) u)
        \<and> (\<forall>x. r = Inr x \<longrightarrow> wp (advance_loop (recorded run) deadline k) (advanced s deadline (Suc k)) u)) ?s"
    proof (rule wp_mono)
      fix r u assume u: "same_time ?s u \<and> ck_log u = ck_log ?s"
      then have u': "clock_ok u" "ck_advancing u" "ck_now u = tk_due t" "ck_maxTasks u = ck_maxTasks s" "ck_log u = ck_log s @ [ck_now u]"
        using Suc.prems(2) by (auto simp: same_time_def)
      have next_turn: "wp (advance_loop (recorded run) deadline k) (advanced u deadline k) u"
        using Suc.IH u' t(2) by simp
      have "advanced s deadline (Suc k) r' v" if "advanced u deadline k r' v" for r' v
        using advanced_after [OF that u'(5)] u' now t(2) by simp
      moreover have "advanced u deadline k (Inl e) u" for e using u' by (auto simp: advanced_def)
      ultimately show "(\<forall>e. r = Inl e \<longrightarrow> advanced s deadline (Suc k) (Inl e) u)
        \<and> (\<forall>x. r = Inr x \<longrightarrow> wp (advance_loop (recorded run) deadline k) (advanced s deadline (Suc k)) u)"
        using wp_mono [OF next_turn] by blast
    qed
    then show ?thesis using t by (simp add: wp_rules wp_recorded)
  qed
qed


definition example_clock :: traced where
  "example_clock = \<lparr>ck_maxTasks = 4, ck_now = 0, ck_sequence = 2, ck_disposed = False, ck_advancing = False,
     ck_tasks = [(1, \<lparr>tk_due = 5, tk_callback = 0\<rparr>), (2, \<lparr>tk_due = 3, tk_callback = 0\<rparr>)], ck_log = []\<rparr>"


end
