(* ===== verification/Screen_Controllers.thy ===== *)
theory Screen_Controllers imports Js_State Decimal begin

text \<open>
  Announcements and focus, \<^verbatim>\<open>ui/src/state/controllers.ts\<close>. The listeners of the announcements are the page; what they are
  told is the current pair. An element is a number, and which elements are connected to the page is an argument.
\<close>

record announcement =
  n_id :: nat
  n_message :: ustr

record announcer =
  an_sequence :: nat
  an_polite :: announcement
  an_assertive :: announcement

definition new_announcer :: announcer where
  "new_announcer = \<lparr>an_sequence = 0, an_polite = \<lparr>n_id = 0, n_message = []\<rparr>, an_assertive = \<lparr>n_id = 0, n_message = []\<rparr>\<rparr>"

definition announce :: "ustr \<Rightarrow> bool \<Rightarrow> announcer \<Rightarrow> announcer" where
  "announce message urgent a =
     (if js_trim message = [] \<or> length message > 512 then a
      else let n = Suc (an_sequence a); entry = \<lparr>n_id = n, n_message = message\<rparr> in
        if urgent then a\<lparr>an_sequence := n, an_assertive := entry\<rparr> else a\<lparr>an_sequence := n, an_polite := entry\<rparr>)"

record focus =
  fc_targets :: "(ustr \<times> nat) list"
  fc_focused :: "nat list"

definition new_focus :: focus where
  "new_focus = \<lparr>fc_targets = [], fc_focused = []\<rparr>"

definition focus_register :: "ustr \<Rightarrow> nat \<Rightarrow> (focus, unit) act" where
  "focus_register key target = withS (\<lambda>f.
     if key = [] \<or> length key > 128 \<or> map_of (fc_targets f) key = None \<and> length (fc_targets f) \<ge> 128
     then ask (\<lambda>_. Inl (RangeError ''focus_limit''))
     else upd (\<lambda>f. f\<lparr>fc_targets := AList.update key target (fc_targets f)\<rparr>))"

definition focus_unregister :: "ustr \<Rightarrow> nat \<Rightarrow> (focus, unit) act" where
  "focus_unregister key target = upd (\<lambda>f. if map_of (fc_targets f) key = Some target then f\<lparr>fc_targets := AList.delete key (fc_targets f)\<rparr> else f)"

definition focus_restore :: "(nat \<Rightarrow> bool) \<Rightarrow> ustr option \<Rightarrow> (focus, bool) act" where
  "focus_restore connected key = withS (\<lambda>f. case key of
       None \<Rightarrow> ret False
     | Some k \<Rightarrow>
         if k = [] then ret False
         else case map_of (fc_targets f) k of
           None \<Rightarrow> ret False
         | Some target \<Rightarrow>
             if connected target then next_act (upd (\<lambda>f. f\<lparr>fc_focused := fc_focused f @ [target]\<rparr>)) (ret True) else ret False)"

lemma focus_stays_bounded: "length (fc_targets f) \<le> 128 \<Longrightarrow> wp (focus_register key target) (\<lambda>_ g. length (fc_targets g) \<le> 128) f"
  by (auto simp: focus_register_def wp_rules length_update map_of_eq_None_iff)

end
