(* ===== verification/Action_Review.thy ===== *)
theory Action_Review imports Observation_Session Screen_Controllers begin

text \<open>
  The review of an action, \<^verbatim>\<open>ActionReviewController\<close> of \<^verbatim>\<open>ui/src/state/action-review.ts\<close>: prepare a plan, show it, submit exactly
  that plan, and follow the operation until it is completed or needs recovery.

  An attempt is a mutable object that the controller, its recoveries and its suspended methods share, so attempts are
  kept in a store of their own under a number, and \<^verbatim>\<open>===\<close> on attempts is equality of numbers. A method that awaits
  an outcome leaves an entry with its local variables; when the outcome is there one step runs the rest. The listeners of the
  controller's own publications are the parameter \<open>rv_tell\<close>; they may call back.
\<close>

section \<open>The state\<close>

datatype review_transition = Idle | Preparing | Admitting | Uncertain | Reviewing jv | Observing jv

record attempt =
  at_intent :: jv
  at_focusKey :: "ustr option"
  at_epoch :: jv
  at_plan :: "jv option"
  at_commit :: "jv option"
  at_operationId :: "jv option"
  at_request :: "metadata option"
  at_ownsReplay :: bool
  at_capture :: "nat option"
  at_provedUnsent :: bool
  at_priorUncertain :: bool

datatype review_wait =
    Prepare_Wait nat
  | Commit_Wait nat bool jv confidence
  | Reconcile_Wait nat jv jv confidence
  | Cancel_Wait jv ustr jv

text \<open>Where the outcome comes from: a call of the client, or a promise that is resolved already.\<close>

datatype outcome_source = From_Call nat | Already "jv outcome"

record review_view =
  rs_transition :: review_transition
  rs_notice :: string
  rs_cancelling :: "jv list"
  rs_recovery :: "jv list"
  rs_plan :: "jv option"

record reviewer = session +
  rv_transition :: review_transition
  rv_notice :: string
  rv_attempts :: "(nat \<times> attempt) list"
  rv_attempt :: "nat option"
  rv_disposed :: bool
  rv_settling :: bool
  rv_cancelling :: "jv list"
  rv_recovery :: "(jv \<times> nat) list"
  rv_publication :: nat
  rv_fresh :: nat
  rv_waits :: "(nat \<times> review_wait \<times> outcome_source) list"
  rv_announcer :: announcer
  rv_focus :: focus

record 's review_world =
  rw_options :: options
  rw_limits :: limits
  rw_request :: "jv \<Rightarrow> bool"
  rw_connected :: "nat \<Rightarrow> bool"
  rw_canPrepare :: "'s \<Rightarrow> bool"
  rw_work :: "'s \<Rightarrow> 's"
  rw_hear :: "view \<Rightarrow> 's \<Rightarrow> 's"
  rw_tell :: "review_view \<Rightarrow> 's \<Rightarrow> 's"

type_synonym ('w, 'a) in_review = "('w reviewer_scheme, 'a) act"
type_synonym 'w review_env = "'w reviewer_scheme review_world"

definition attempt_of :: "'w reviewer_scheme \<Rightarrow> nat \<Rightarrow> attempt option" where
  "attempt_of d n = map_of (rv_attempts d) n"

definition set_attempt :: "nat \<Rightarrow> (attempt \<Rightarrow> attempt) \<Rightarrow> ('w, unit) in_review" where
  "set_attempt n f = upd (\<lambda>d. case attempt_of d n of None \<Rightarrow> d | Some x \<Rightarrow> d\<lparr>rv_attempts := AList.update n (f x) (rv_attempts d)\<rparr>)"

definition review_state :: "'w reviewer_scheme \<Rightarrow> review_view" where
  "review_state d = \<lparr>rs_transition = rv_transition d, rs_notice = rv_notice d, rs_cancelling = rv_cancelling d,
     rs_recovery = map fst (rv_recovery d), rs_plan = (case rv_attempt d of None \<Rightarrow> None | Some n \<Rightarrow> Option.bind (attempt_of d n) at_plan)\<rparr>"

definition review_blocks :: "'w reviewer_scheme \<Rightarrow> bool" where
  "review_blocks d = (case rv_transition d of Preparing \<Rightarrow> True | Reviewing _ \<Rightarrow> True | Admitting \<Rightarrow> True | Uncertain \<Rightarrow> True | _ \<Rightarrow> False)"

definition publishV :: "'w review_env \<Rightarrow> ('w, unit) in_review" where
  "publishV rw = withS (\<lambda>d. if rv_disposed d then ret ()
     else upd (\<lambda>d. let e = d\<lparr>rv_publication := Suc (rv_publication d)\<rparr> in rw_tell rw (review_state e) e))"

definition announceV :: "string \<Rightarrow> bool \<Rightarrow> ('w, unit) in_review" where
  "announceV message urgent = upd (\<lambda>d. d\<lparr>rv_announcer := announce (U message) urgent (rv_announcer d)\<rparr>)"

definition sayV :: "'w review_env \<Rightarrow> string \<Rightarrow> bool \<Rightarrow> ('w, unit) in_review" where
  "sayV rw message urgent =
     next_act (upd (\<lambda>d. d\<lparr>rv_notice := message\<rparr>)) (next_act (announceV message urgent) (publishV rw))"

abbreviation becomes :: "review_transition \<Rightarrow> ('w, unit) in_review" where
  "becomes t \<equiv> upd (\<lambda>d. d\<lparr>rv_transition := t\<rparr>)"

abbreviation drops_attempt :: "('w, unit) in_review" where
  "drops_attempt \<equiv> upd (\<lambda>d. d\<lparr>rv_attempt := None, rv_transition := Idle\<rparr>)"

text \<open>The signal of a call is that of the caller and of the controller's own life.\<close>

definition observing :: "call_args \<Rightarrow> 'w reviewer_scheme \<Rightarrow> call_args" where
  "observing a d = a\<lparr>a_aborted := (a_aborted a \<or> rv_disposed d)\<rparr>"

definition await :: "review_wait \<Rightarrow> outcome_source \<Rightarrow> ('w, unit) in_review" where
  "await k src = upd (\<lambda>d. d\<lparr>rv_fresh := Suc (rv_fresh d), rv_waits := rv_waits d @ [(rv_fresh d, k, src)]\<rparr>)"

definition command_then :: "'w review_env \<Rightarrow> request_kind \<Rightarrow> string \<Rightarrow> jv \<Rightarrow> call_args \<Rightarrow> review_wait \<Rightarrow> ('w, unit) in_review" where
  "command_then rw k name input a wait = withS (\<lambda>d.
     seq (callS (rw_options rw) (rw_request rw) k name input (observing a d)) (\<lambda>n. await wait (From_Call n)))"

section \<open>Operations and replays\<close>

definition same_plan :: "jv \<Rightarrow> jv \<Rightarrow> bool res" where
  "same_plan a b = bindE (semanticPlanKey a) (\<lambda>x. bindE (semanticPlanKey b) (\<lambda>y. Inr (x = y)))"

definition operation_by_id :: "jv \<Rightarrow> store \<Rightarrow> jv option" where
  "operation_by_id i st = find (\<lambda>v. strict_eq (fld v ''operationId'') i) (map snd (o_operations st))"

abbreviation status_of :: "jv \<Rightarrow> jv" where
  "status_of operation \<equiv> path operation [''state'', ''status'']"

definition getReplay :: "client \<Rightarrow> jv \<Rightarrow> replay option" where
  "getReplay c key = map_of (c_replays c) key"

text \<open>A replay is given back only if the attempt made it, it is still that replay, and it carries the attempt's own submission.\<close>

definition releaseOwnedReplay :: "nat \<Rightarrow> bool \<Rightarrow> ('w, bool) in_review" where
  "releaseOwnedReplay n unsent = withS (\<lambda>d. case attempt_of d n of
       None \<Rightarrow> ret True
     | Some x \<Rightarrow>
         (case (at_ownsReplay x, at_capture x, at_commit x) of
            (True, Some capt, Some sent) \<Rightarrow>
              (let key = fld sent ''idempotencyKey'' in
               case getReplay (d_client d) key of
                 None \<Rightarrow> ret True
               | Some p \<Rightarrow>
                   if rp_request p \<noteq> capt then ret True
                   else unlessS (\<lambda>_. negE (same_input (rp_input p) sent)) (ret True)
                     (seq (clientB (if unsent then forgetUnsentReplay key capt else forgetReplay key)) (\<lambda>released.
                       if released then next_act (set_attempt n (\<lambda>x. x\<lparr>at_ownsReplay := False\<rparr>)) (ret True) else ret False)))
          | _ \<Rightarrow> ret True))"

section \<open>What the store says of operations\<close>

definition settleRecovery :: "jv \<times> nat \<Rightarrow> ('w, bool) in_review" where
  "settleRecovery held = withS (\<lambda>d. case (operation_by_id (fst held) (d_store d), attempt_of d (snd held)) of
       (Some operation, Some x) \<Rightarrow>
         (if \<not> isS (status_of operation) ''completed'' then ret False
          else case at_plan x of
            None \<Rightarrow> ret False
          | Some plan \<Rightarrow>
              unlessS (\<lambda>_. negE (same_plan (fld operation ''semantics'') (fld plan ''semantics''))) (ret False)
                (next_act (seq (releaseOwnedReplay (snd held) False) (\<lambda>_. ret ()))
                (next_act (upd (\<lambda>d. d\<lparr>rv_recovery := AList.delete (fst held) (rv_recovery d)\<rparr>)) (ret True))))
     | _ \<Rightarrow> ret False)"

primrec settleRecoveries :: "(jv \<times> nat) list \<Rightarrow> bool \<Rightarrow> ('w, bool) in_review" where
  "settleRecoveries [] released = ret released"
| "settleRecoveries (h # hs) released = seq (settleRecovery h) (\<lambda>b. settleRecoveries hs (released \<or> b))"

definition outcome_message :: "jv \<Rightarrow> string" where
  "outcome_message kind =
     (if isS kind ''changed'' then ''Action completed.''
      else if isS kind ''no_change'' then ''Action completed. Already satisfied.''
      else if isS kind ''cancelled_before_commit'' then ''Action cancelled before commit.''
      else if isS kind ''rolled_back'' then ''Action rolled back.''
      else ''Action failed. Review the operation details.'')"

definition followOperation :: "'w review_env \<Rightarrow> ('w, unit) in_review" where
  "followOperation rw = withS (\<lambda>d. case rv_attempt d of
       None \<Rightarrow> ret ()
     | Some n \<Rightarrow>
         (case attempt_of d n of
            None \<Rightarrow> ret ()
          | Some x \<Rightarrow>
              (case (at_operationId x, at_plan x) of
                 (Some i, Some plan) \<Rightarrow>
                   if \<not> truthy i then ret ()
                   else (case operation_by_id i (d_store d) of
                     None \<Rightarrow> ret ()
                   | Some operation \<Rightarrow>
                       unlessS (\<lambda>_. negE (same_plan (fld operation ''semantics'') (fld plan ''semantics''))) (ret ())
                       (if isS (status_of operation) ''recovery_required'' then
                          next_act (upd (\<lambda>d. d\<lparr>rv_recovery := AList.update i n (rv_recovery d), rv_attempt := None, rv_transition := Idle\<rparr>))
                            (sayV rw ''Action requires recovery. Its exact submission is retained for the recorded operation.'' True)
                        else if \<not> isS (status_of operation) ''completed'' then ret ()
                        else next_act (upd (\<lambda>d. d\<lparr>rv_settling := True\<rparr>))
                          (finallyS
                             (next_act (seq (releaseOwnedReplay n False) (\<lambda>_. ret ()))
                             (next_act drops_attempt
                             (let kind = path operation [''state'', ''outcome'', ''kind''] in
                              sayV rw (outcome_message kind) (isS kind ''failed''))))
                             (upd (\<lambda>d. d\<lparr>rv_settling := False\<rparr>)))))
               | _ \<Rightarrow> ret ())))"

definition reconcileObserved :: "'w review_env \<Rightarrow> ('w, unit) in_review" where
  "reconcileObserved rw = withS (\<lambda>d. if rv_disposed d \<or> rv_settling d then ret ()
     else seq (settleRecoveries (rv_recovery d) False) (\<lambda>released.
       next_act (if released then publishV rw else ret ()) (followOperation rw)))"

text \<open>A method of the store: after the context and those whom the context tells, the controller hears of it, then the others.\<close>

definition review_hears :: "'w review_env \<Rightarrow> view \<Rightarrow> 'w reviewer_scheme \<Rightarrow> 'w reviewer_scheme" where
  "review_hears rw v d = (let e = rw_work rw d in rw_hear rw v (if rv_disposed e then e else snd (reconcileObserved rw e)))"

abbreviation storeV :: "'w review_env \<Rightarrow> (store \<Rightarrow> store \<times> bool) \<Rightarrow> ('w, bool) in_review" where
  "storeV rw f \<equiv> storeS (review_hears rw) f"

section \<open>Preparing\<close>

datatype 'v review_reply = Nothing | Answer "'v outcome" | Awaits nat

text \<open>\<^verbatim>\<open>epoch ? !hostEpochCurrent(epoch) : reason === 'epoch_changed'\<close>.\<close>

definition epochLost :: "jv \<Rightarrow> 'w reviewer_scheme \<Rightarrow> bool" where
  "epochLost epoch d = (if truthy epoch then \<not> hostEpochCurrent epoch (d_ctx d) else o_reason (d_store d) = Some ''epoch_changed'')"

abbreviation aborted_reply :: "jv review_reply" where
  "aborted_reply \<equiv> Answer (plain_fault Observational_Abort Not_Sent)"

abbreviation awaiting :: "('w, unit) in_review \<Rightarrow> ('w, jv review_reply) in_review" where
  "awaiting m \<equiv> withS (\<lambda>d. next_act m (ret (Awaits (rv_fresh d))))"

abbreviation gone :: "'w reviewer_scheme \<Rightarrow> nat \<Rightarrow> bool" where
  "gone d n \<equiv> rv_disposed d \<or> rv_attempt d \<noteq> Some n"

definition new_attempt :: "jv \<Rightarrow> ustr option \<Rightarrow> jv \<Rightarrow> attempt" where
  "new_attempt captured focusKey epoch = \<lparr>at_intent = captured, at_focusKey = focusKey, at_epoch = epoch, at_plan = None, at_commit = None,
     at_operationId = None, at_request = None, at_ownsReplay = False, at_capture = None, at_provedUnsent = False, at_priorUncertain = False\<rparr>"

text \<open>What follows the publication of the new attempt, up to the call.\<close>

definition prepare_asks :: "'w review_env \<Rightarrow> nat \<Rightarrow> jv \<Rightarrow> jv \<Rightarrow> call_args \<Rightarrow> ('w, jv review_reply) in_review" where
  "prepare_asks rw n captured epoch a = withS (\<lambda>d.
     if gone d n then ret aborted_reply
     else if epochLost epoch d then
       next_act drops_attempt (next_act (sayV rw ''Action review was not confirmed. Refresh and review again.'' True) (ret Nothing))
     else awaiting (command_then rw Command ''prepare'' (JObj [(U ''intent'', captured)]) a (Prepare_Wait n)))"

definition review_prepare :: "'w review_env \<Rightarrow> jv \<Rightarrow> ustr option \<Rightarrow> call_args \<Rightarrow> ('w, jv review_reply) in_review" where
  "review_prepare rw intent focusKey a = withS (\<lambda>d.
     if rv_disposed d \<or> rv_transition d \<noteq> Idle \<or> \<not> rw_canPrepare rw d then ret Nothing
     else let epoch = cursor_host (d_store d) in
       if epochLost epoch d then ret Nothing
       else case capture intent of
         Inl _ \<Rightarrow> next_act (sayV rw ''Action review is unavailable.'' True) (ret Nothing)
       | Inr captured \<Rightarrow>
           let n = rv_fresh d in
           next_act (upd (\<lambda>d. d\<lparr>rv_fresh := Suc n, rv_attempts := AList.update n (new_attempt captured focusKey epoch) (rv_attempts d),
              rv_attempt := Some n, rv_transition := Preparing\<rparr>))
           (next_act (publishV rw) (prepare_asks rw n captured epoch a)))"

text \<open>Why a plan is not shown.\<close>

definition prepare_message :: "jv outcome \<Rightarrow> string" where
  "prepare_message r = (case r of
       Rejected e _ \<Rightarrow>
         if isS (fld e ''code'') ''artifact_unrecognized'' then ''The runtime is not recognized. Review the consent choice for this attempt.''
         else if isS (fld e ''code'') ''operation_busy'' then ''Another operation is using this target. Refresh its status.''
         else if isS (fld e ''retryDisposition'') ''after_user_choice'' then ''Action review needs a new choice. The current target is retained.''
         else ''Action review was not confirmed. Refresh and review again.''
     | _ \<Rightarrow> ''Action review was not confirmed. Refresh and review again.'')"

definition planRefused :: "attempt \<Rightarrow> jv \<Rightarrow> 'w reviewer_scheme \<Rightarrow> bool res" where
  "planRefused x plan d =
     (let planHost = path plan [''planRef'', ''hostEpoch'']; current = cursor_host (d_store d) in
      if \<not> hostEpochCurrent planHost (d_ctx d) \<or> truthy (at_epoch x) \<and> \<not> strict_eq current (at_epoch x)
         \<or> truthy current \<and> \<not> strict_eq planHost current then Inr True
      else negE (preparationMatches (at_intent x) (fld plan ''semantics'')))"

definition prepared :: "'w review_env \<Rightarrow> nat \<Rightarrow> jv outcome \<Rightarrow> ('w, unit) in_review" where
  "prepared rw n r = withS (\<lambda>d. if gone d n then ret ()
     else case attempt_of d n of
       None \<Rightarrow> ret ()
     | Some x \<Rightarrow>
         let refuse = next_act drops_attempt (sayV rw (prepare_message r) True) in
         (case r of
            Returned plan _ \<Rightarrow>
              unlessS (planRefused x plan) refuse
                (next_act (set_attempt n (\<lambda>x. x\<lparr>at_plan := Some plan\<rparr>))
                (next_act (becomes (Reviewing plan)) (sayV rw ''Review the captured action before confirming.'' False)))
          | _ \<Rightarrow> refuse))"

section \<open>Submitting\<close>

abbreviation retained_message :: string where
  "retained_message \<equiv> ''Action outcome is unconfirmed. The exact submission is retained.''"

abbreviation earlier_message :: string where
  "earlier_message \<equiv> ''This review belongs to an earlier connection. Review again.''"

text \<open>The call of a first submission: whose replay it is is decided around it.\<close>

definition submit :: "'w review_env \<Rightarrow> nat \<Rightarrow> jv \<Rightarrow> call_args \<Rightarrow> review_wait \<Rightarrow> ('w, unit) in_review" where
  "submit rw n sent a wait = withS (\<lambda>d.
     let key = fld sent ''idempotencyKey''; prior = getReplay (d_client d) key in
     next_act (set_attempt n (\<lambda>x. x\<lparr>at_ownsReplay := (prior = None), at_capture := None\<rparr>))
     (seq (ask (\<lambda>_. case prior of None \<Rightarrow> Inr False | Some p \<Rightarrow> same_input (rp_input p) sent)) (\<lambda>same.
      next_act (set_attempt n (\<lambda>x. x\<lparr>at_priorUncertain := same\<rparr>))
      (seq (callS (rw_options rw) (rw_request rw) Command ''commit'' sent (observing a d)) (\<lambda>call.
       withS (\<lambda>d.
         (let retained = (if prior = None then getReplay (d_client d) key else None) in
          seq (ask (\<lambda>_. case retained of None \<Rightarrow> Inr False | Some p \<Rightarrow> same_input (rp_input p) sent)) (\<lambda>mine.
          next_act (if mine then set_attempt n (\<lambda>x. x\<lparr>at_capture := map_option rp_request retained\<rparr>) else ret ())
            (await wait (From_Call call))))))))))"

definition superseded :: "'w review_env \<Rightarrow> ('w, jv review_reply) in_review" where
  "superseded rw = next_act drops_attempt (next_act (sayV rw earlier_message True) (ret Nothing))"

text \<open>What follows the publication of the submission, up to the call.\<close>

definition confirm_asks :: "'w review_env \<Rightarrow> nat \<Rightarrow> jv \<Rightarrow> jv \<Rightarrow> call_args \<Rightarrow> review_wait \<Rightarrow> ('w, jv review_reply) in_review" where
  "confirm_asks rw n planHost sent a wait = withS (\<lambda>d.
     if gone d n then ret aborted_reply
     else if \<not> hostEpochCurrent planHost (d_ctx d) then superseded rw
     else awaiting (submit rw n sent a wait))"

definition confirm_plan :: "'w review_env \<Rightarrow> nat \<Rightarrow> jv \<Rightarrow> jv res \<Rightarrow> call_args \<Rightarrow> review_wait \<Rightarrow> ('w, jv review_reply) in_review" where
  "confirm_plan rw n plan idempotencyKey a wait =
     (let planHost = path plan [''planRef'', ''hostEpoch''] in
      withS (\<lambda>d. if \<not> hostEpochCurrent planHost (d_ctx d) then superseded rw
      else case bindE idempotencyKey (\<lambda>key. capture (JObj [(U ''idempotencyKey'', key), (U ''planRef'', fld plan ''planRef'')])) of
        Inl _ \<Rightarrow> next_act (sayV rw ''Action submission is unavailable.'' True) (ret Nothing)
      | Inr sent \<Rightarrow>
          next_act (set_attempt n (\<lambda>x. x\<lparr>at_commit := Some sent, at_provedUnsent := False\<rparr>))
          (next_act (becomes Admitting) (next_act (publishV rw) (confirm_asks rw n planHost sent a wait)))))"

definition review_confirm :: "'w review_env \<Rightarrow> jv res \<Rightarrow> call_args \<Rightarrow> ('w, jv review_reply) in_review" where
  "review_confirm rw idempotencyKey a = withS (\<lambda>d. case rv_attempt d of
       None \<Rightarrow> ret Nothing
     | Some n \<Rightarrow>
         (case (rv_disposed d, rv_transition d, attempt_of d n) of
            (False, Reviewing _, Some x) \<Rightarrow>
              (case at_plan x of
                 None \<Rightarrow> ret Nothing
               | Some plan \<Rightarrow>
                   let wait = Commit_Wait n False (cursor_host (d_store d)) (o_confidence (d_store d)) in
                   seq (if at_provedUnsent x then releaseOwnedReplay n True else ret True) (\<lambda>released.
                   if released then confirm_plan rw n plan idempotencyKey a wait
                   else next_act (set_attempt n (\<lambda>x. x\<lparr>at_provedUnsent := False\<rparr>))
                     (next_act (becomes Uncertain) (next_act (sayV rw retained_message True) (ret Nothing)))))
          | _ \<Rightarrow> ret Nothing))"

definition review_replay :: "'w review_env \<Rightarrow> call_args \<Rightarrow> ('w, jv review_reply) in_review" where
  "review_replay rw a = withS (\<lambda>d. case rv_attempt d of
       None \<Rightarrow> ret Nothing
     | Some n \<Rightarrow>
         (case Option.bind (attempt_of d n) at_commit of
            None \<Rightarrow> ret Nothing
          | Some sent \<Rightarrow>
              if rv_disposed d \<or> rv_transition d \<noteq> Uncertain then ret Nothing
              else let wait = Commit_Wait n True (cursor_host (d_store d)) (o_confidence (d_store d));
                  refuse = (\<lambda>code. await wait (Already (plain_fault code Not_Sent))) in
                next_act (becomes Admitting) (next_act (publishV rw)
                (withS (\<lambda>d. awaiting (case getReplay (d_client d) (fld sent ''idempotencyKey'') of
                     None \<Rightarrow> refuse Replay_Missing
                   | Some p \<Rightarrow> unlessS (\<lambda>_. negE (same_input (rp_input p) sent)) (refuse Replay_Conflict)
                       (command_then rw Command ''commit'' sent a wait)))))))"

text \<open>The request number of an original capture.\<close>

definition captured_requestId :: "nat \<Rightarrow> 'w reviewer_scheme \<Rightarrow> jv" where
  "captured_requestId n d = (case call_of (d_client d) n of None \<Rightarrow> JUndef | Some x \<Rightarrow> fld (x_request x) ''requestId'')"

definition other_request :: "'w reviewer_scheme \<Rightarrow> nat option \<Rightarrow> jv outcome \<Rightarrow> bool" where
  "other_request d capt r = (case capt of None \<Rightarrow> False
     | Some k \<Rightarrow> \<not> strict_eq (captured_requestId k d) (case outcome_request r of None \<Rightarrow> JUndef | Some m \<Rightarrow> m_requestId m))"

definition admissionRefused :: "attempt \<Rightarrow> jv \<Rightarrow> jv \<Rightarrow> confidence \<Rightarrow> 'w reviewer_scheme \<Rightarrow> bool res" where
  "admissionRefused x operation epoch confidence d =
     (if \<not> strict_eq (cursor_host (d_store d)) epoch \<or> o_confidence (d_store d) \<noteq> confidence then Inr True
      else case at_plan x of
        None \<Rightarrow> Inr True
      | Some plan \<Rightarrow>
          orE (negE (same_plan (fld operation ''semantics'') (fld plan ''semantics'')))
            (Inr (case at_operationId x of None \<Rightarrow> False
               | Some i \<Rightarrow> truthy i \<and> \<not> strict_eq (fld operation ''operationId'') i)))"

text \<open>A replay is the attempt's own only if the answer is to the call that made it.\<close>

definition owns_answer :: "nat \<Rightarrow> jv outcome \<Rightarrow> bool \<Rightarrow> ('w, unit) in_review" where
  "owns_answer n r again = withS (\<lambda>d. if \<not> again \<and> other_request d (Option.bind (attempt_of d n) at_capture) r
     then set_attempt n (\<lambda>x. x\<lparr>at_capture := None\<rparr>) else ret ())"

definition unconfirmed :: "'w review_env \<Rightarrow> ('w, unit) in_review" where
  "unconfirmed rw = next_act (becomes Uncertain) (sayV rw retained_message True)"

definition not_submitted :: "'w review_env \<Rightarrow> nat \<Rightarrow> jv \<Rightarrow> ('w, unit) in_review" where
  "not_submitted rw n plan =
     next_act (set_attempt n (\<lambda>x. x\<lparr>at_provedUnsent := True\<rparr>))
     (next_act (becomes (Reviewing plan)) (sayV rw ''Action was not submitted. The review is retained.'' True))"

definition admitted :: "'w review_env \<Rightarrow> nat \<Rightarrow> jv \<Rightarrow> metadata \<Rightarrow> ('w, unit) in_review" where
  "admitted rw n operation m =
     (let i = fld operation ''operationId'' in
      next_act (set_attempt n (\<lambda>x. x\<lparr>at_operationId := Some i, at_request := Some m\<rparr>))
      (next_act (becomes (Observing i))
      (seq (storeV rw (store_observeOperation (rw_limits rw) operation)) (\<lambda>ok.
       if \<not> ok then next_act (becomes Uncertain) (sayV rw ''Action observation needs reconciliation.'' True)
       else next_act (reconcileObserved rw)
         (withS (\<lambda>d. if rv_attempt d = Some n then sayV rw ''Action admitted. Waiting for the operation outcome.'' False else ret ()))))))"

definition acceptCommit :: "'w review_env \<Rightarrow> nat \<Rightarrow> jv outcome \<Rightarrow> bool \<Rightarrow> jv \<Rightarrow> confidence \<Rightarrow> ('w, unit) in_review" where
  "acceptCommit rw n r again epoch confidence =
     next_act (owns_answer n r again)
     (withS (\<lambda>d. case attempt_of d n of
        None \<Rightarrow> ret ()
      | Some x \<Rightarrow>
          (case r of
             Faulted f \<Rightarrow>
               (case at_plan x of
                  Some plan \<Rightarrow>
                    if \<not> again \<and> \<not> at_priorUncertain x \<and> f_delivery f = Not_Sent then not_submitted rw n plan else unconfirmed rw
                | None \<Rightarrow> unconfirmed rw)
           | Rejected _ _ \<Rightarrow> unconfirmed rw
           | Returned operation m \<Rightarrow> unlessS (admissionRefused x operation epoch confidence) (unconfirmed rw) (admitted rw n operation m))))"

section \<open>Observing\<close>

definition review_reconcile :: "'w review_env \<Rightarrow> call_args \<Rightarrow> ('w, unit) in_review" where
  "review_reconcile rw a = withS (\<lambda>d. case rv_attempt d of
       None \<Rightarrow> ret ()
     | Some n \<Rightarrow>
         (case Option.bind (attempt_of d n) at_operationId of
            None \<Rightarrow> ret ()
          | Some i \<Rightarrow>
              if rv_disposed d \<or> \<not> truthy i then ret ()
              else command_then rw Query ''get_operation'' (JObj [(U ''operationId'', i)]) a
                (Reconcile_Wait n i (cursor_host (d_store d)) (o_confidence (d_store d)))))"

definition reconciled :: "'w review_env \<Rightarrow> nat \<Rightarrow> jv \<Rightarrow> jv \<Rightarrow> confidence \<Rightarrow> jv outcome \<Rightarrow> ('w, unit) in_review" where
  "reconciled rw n i epoch confidence r = withS (\<lambda>d. if gone d n then ret ()
     else let unavailable = sayV rw ''Action observation is unavailable. The captured submission is retained.'' True in
       (case r of
          Returned answer _ \<Rightarrow>
            if strict_eq (cursor_host (d_store d)) epoch \<and> o_confidence (d_store d) = confidence
            then seq (storeV rw (observeOperationResult (rw_limits rw) i answer)) (\<lambda>_. ret ()) else unavailable
        | _ \<Rightarrow> unavailable))"

text \<open>The recovery intent that a recorded operation gives.\<close>

definition recovery_intent :: "jv \<Rightarrow> jv option" where
  "recovery_intent operation =
     (let target = path operation [''state'', ''recovery'', ''target''];
          intent = (\<lambda>kind. Some (JObj [(U ''kind'', S kind), (U ''input'', JObj [(U ''recovery'', fld target ''recovery'')])])) in
      if is_kind target ''game'' then intent ''recover_game_update''
      else if is_kind target ''bridge'' then intent ''recover_bridge_update'' else None)"

definition same_observation :: "jv \<Rightarrow> jv \<Rightarrow> bool res" where
  "same_observation current captured =
     andE (Inr (strict_eq (fld current ''operationRevision'') (fld captured ''operationRevision'')))
    (andE (same_plan (fld current ''semantics'') (fld captured ''semantics''))
      (bindingEquivalent (fld current ''state'') (fld captured ''state'')))"

definition recovery_of :: "jv \<Rightarrow> 'w reviewer_scheme \<Rightarrow> jv option res" where
  "recovery_of operation d =
     bindE (capture operation) (\<lambda>captured. case operation_by_id (fld captured ''operationId'') (d_store d) of
       None \<Rightarrow> Inr None
     | Some current \<Rightarrow>
         bindE (andE (Inr (isS (status_of current) ''recovery_required'' \<and> isS (status_of captured) ''recovery_required''))
             (same_observation current captured)) (\<lambda>ok. Inr (if ok then recovery_intent captured else None)))"

definition prepareRecovery :: "'w review_env \<Rightarrow> jv \<Rightarrow> ustr option \<Rightarrow> call_args \<Rightarrow> ('w, jv review_reply) in_review" where
  "prepareRecovery rw operation focusKey a = withS (\<lambda>d.
     if rv_disposed d \<or> rv_transition d \<noteq> Idle \<or> o_confidence (d_store d) \<noteq> Authoritative then ret Nothing
     else case recovery_of operation d of
       Inr (Some intent) \<Rightarrow> review_prepare rw intent focusKey a
     | _ \<Rightarrow> ret Nothing)"

section \<open>Cancelling\<close>

definition cancellable :: "jv \<Rightarrow> 'w reviewer_scheme \<Rightarrow> (jv \<times> ustr) option res" where
  "cancellable operation d =
     bindE (capture operation) (\<lambda>captured.
     bindE (semanticPlanKey (fld captured ''semantics'')) (\<lambda>key.
     case operation_by_id (fld captured ''operationId'') (d_store d) of
       None \<Rightarrow> Inr None
     | Some current \<Rightarrow>
         bindE (andE (Inr (fld captured ''operationId'' \<notin> set (rv_cancelling d)
               \<and> strict_eq (fld current ''operationRevision'') (fld captured ''operationRevision'')))
             (andE (bindE (semanticPlanKey (fld current ''semantics'')) (\<lambda>k. Inr (k = key)))
             (andE (bindingEquivalent (fld current ''state'') (fld captured ''state''))
               (Inr (isS (status_of current) ''admitted'' \<or> isS (status_of current) ''running'')))))
           (\<lambda>ok. Inr (if ok then Some (captured, key) else None))))"

definition cancelOperation :: "'w review_env \<Rightarrow> jv \<Rightarrow> call_args \<Rightarrow> ('w, jv review_reply) in_review" where
  "cancelOperation rw operation a = withS (\<lambda>d.
     if rv_disposed d \<or> o_confidence (d_store d) \<noteq> Authoritative then ret Nothing
     else case cancellable operation d of
       Inr (Some (captured, key)) \<Rightarrow>
         let i = fld captured ''operationId''; epoch = cursor_host (d_store d) in
         next_act (upd (\<lambda>d. d\<lparr>rv_cancelling := set_add i (rv_cancelling d)\<rparr>))
         (next_act (publishV rw)
           (awaiting (command_then rw Command ''cancel_operation''
             (JObj [(U ''operationId'', i), (U ''expectedOperationRevision'', fld captured ''operationRevision'')]) a (Cancel_Wait captured key epoch))))
     | _ \<Rightarrow> ret Nothing)"

definition cancel_message :: "jv \<Rightarrow> string" where
  "cancel_message kind =
     (if isS kind ''requested'' then ''Cancellation requested. Waiting for the operation outcome.''
      else if isS kind ''cancelled_before_commit'' then ''Action cancelled before commit.''
      else if isS kind ''too_late'' then ''The operation has passed its cancellation boundary. Its outcome is still observed.''
      else if isS kind ''recovery_required'' then ''Cancellation requires recovery. Review the captured operation.''
      else ''The operation was already complete. Its recorded outcome is shown.'')"

definition cancelConfirmed :: "jv \<Rightarrow> ustr \<Rightarrow> jv \<Rightarrow> jv \<Rightarrow> 'w reviewer_scheme \<Rightarrow> jv option res" where
  "cancelConfirmed captured key epoch answer d =
     (if o_confidence (d_store d) \<noteq> Authoritative \<or> \<not> strict_eq (cursor_host (d_store d)) epoch then Inr None
      else case operation_by_id (fld captured ''operationId'') (d_store d) of
        None \<Rightarrow> Inr None
      | Some current \<Rightarrow>
          bindE (andE (bindE (semanticPlanKey (fld current ''semantics'')) (\<lambda>k. Inr (k = key)))
              (bindE (semanticPlanKey (path answer [''operation'', ''semantics''])) (\<lambda>k. Inr (k = key))))
            (\<lambda>ok. Inr (if ok then Some current else None)))"

definition cancelled :: "'w review_env \<Rightarrow> jv \<Rightarrow> ustr \<Rightarrow> jv \<Rightarrow> jv outcome \<Rightarrow> ('w, unit) in_review" where
  "cancelled rw captured key epoch r = finallyS
     (withS (\<lambda>d. if rv_disposed d then ret ()
       else let unknown = sayV rw ''Cancellation outcome is unconfirmed. Refresh the captured operation.'' True in
         (case r of
            Returned answer _ \<Rightarrow>
              seq (ask (cancelConfirmed captured key epoch answer)) (\<lambda>found. case found of
                None \<Rightarrow> unknown
              | Some current \<Rightarrow>
                  let got = fld answer ''operation'' in
                  if big (fld current ''operationRevision'') > big (fld got ''operationRevision'') then
                    sayV rw ''Cancellation response received. A newer operation observation is shown.'' False
                  else seq (storeV rw (store_observeOperation (rw_limits rw) got)) (\<lambda>ok.
                    if \<not> ok then sayV rw ''Cancellation observation needs reconciliation. Refresh the captured operation.'' True
                    else sayV rw (cancel_message (fld answer ''kind'')) (isS (fld answer ''kind'') ''recovery_required'')))
          | _ \<Rightarrow> unknown)))
     (next_act (upd (\<lambda>d. d\<lparr>rv_cancelling := remove1 (fld captured ''operationId'') (rv_cancelling d)\<rparr>)) (publishV rw))"

section \<open>Leaving\<close>

definition review_stay :: "'w review_env \<Rightarrow> ('w, bool) in_review" where
  "review_stay rw = withS (\<lambda>d. case rv_attempt d of
       None \<Rightarrow> ret False
     | Some n \<Rightarrow>
         (case (rv_disposed d, rv_transition d, attempt_of d n) of
            (False, Reviewing _, Some x) \<Rightarrow>
              seq (if at_provedUnsent x then releaseOwnedReplay n True else ret True) (\<lambda>released.
              if \<not> released then
                next_act (set_attempt n (\<lambda>x. x\<lparr>at_provedUnsent := False\<rparr>))
                (next_act (becomes Uncertain) (next_act (sayV rw retained_message True) (ret False)))
              else next_act drops_attempt
                (next_act (upd (\<lambda>d. d\<lparr>rv_focus := snd (focus_restore (rw_connected rw) (at_focusKey x) (rv_focus d))\<rparr>))
                (next_act (sayV rw ''Action review closed.'' False) (ret True))))
          | _ \<Rightarrow> ret False))"

text \<open>The end of the controller's life aborts the calls that it still awaits, in the client, at once.\<close>

definition abandon_awaited :: "(nat \<times> review_wait \<times> outcome_source) list \<Rightarrow> client \<Rightarrow> client" where
  "abandon_awaited ws = fold (\<lambda>(_, _, src) c. case src of
       From_Call n \<Rightarrow> if map_of (c_outcomes c) n = None then abandon Observational_Abort n c else c
     | Already _ \<Rightarrow> c) ws"

definition review_dispose :: "('w, unit) in_review" where
  "review_dispose = withS (\<lambda>d. if rv_disposed d then ret ()
     else next_act (upd (\<lambda>d. d\<lparr>rv_disposed := True\<rparr>))
       (next_act (clientU (abandon_awaited (rv_waits d)))
       (next_act (withS (\<lambda>d. case rv_attempt d of
            None \<Rightarrow> ret ()
          | Some n \<Rightarrow> (case attempt_of d n of
                None \<Rightarrow> ret ()
              | Some x \<Rightarrow> if at_provedUnsent x then seq (releaseOwnedReplay n True) (\<lambda>_. ret ()) else ret ())))
         (upd (\<lambda>d. d\<lparr>rv_attempt := None, rv_cancelling := [], rv_recovery := []\<rparr>)))))"

section \<open>When an outcome is there\<close>

definition source_outcome :: "outcome_source \<Rightarrow> client \<Rightarrow> jv outcome option" where
  "source_outcome src c = (case src of From_Call n \<Rightarrow> map_of (c_outcomes c) n | Already r \<Rightarrow> Some r)"

definition review_settle :: "'w review_env \<Rightarrow> nat \<Rightarrow> ('w, unit) in_review" where
  "review_settle rw k = withS (\<lambda>d. case map_of (rv_waits d) k of
       None \<Rightarrow> ret ()
     | Some (wait, src) \<Rightarrow>
         (case source_outcome src (d_client d) of
            None \<Rightarrow> ret ()
          | Some r \<Rightarrow>
              next_act (upd (\<lambda>d. d\<lparr>rv_waits := AList.delete k (rv_waits d)\<rparr>))
                (case wait of
                   Prepare_Wait n \<Rightarrow> prepared rw n r
                 | Commit_Wait n again epoch confidence \<Rightarrow>
                     withS (\<lambda>d. if gone d n then ret () else acceptCommit rw n r again epoch confidence)
                 | Reconcile_Wait n i epoch confidence \<Rightarrow> reconciled rw n i epoch confidence r
                 | Cancel_Wait captured key epoch \<Rightarrow> cancelled rw captured key epoch r)))"

definition new_reviewer :: "session \<Rightarrow> announcer \<Rightarrow> focus \<Rightarrow> reviewer" where
  "new_reviewer s a f = session.extend s (reviewer.fields Idle [] [] None False False [] [] 0 0 [] a f)"

text \<open>The moves: the controller's methods, an outcome that has arrived, and between them any method of the store and any step of the client.\<close>

datatype review_move =
    Review_Prepare jv "ustr option" call_args
  | Review_Confirm "jv res" call_args
  | Review_Replay call_args
  | Review_Reconcile call_args
  | Prepare_Recovery jv "ustr option" call_args
  | Cancel_Operation jv call_args
  | Review_Stay
  | Review_Settle nat
  | Review_Dispose
  | Store_Call "store \<Rightarrow> store \<times> bool"
  | Client_Move "client \<Rightarrow> client"

fun review_step :: "'w review_env \<Rightarrow> review_move \<Rightarrow> 'w reviewer_scheme \<Rightarrow> 'w reviewer_scheme" where
  "review_step rw (Review_Prepare intent focusKey a) d = snd (review_prepare rw intent focusKey a d)"
| "review_step rw (Review_Confirm key a) d = snd (review_confirm rw key a d)"
| "review_step rw (Review_Replay a) d = snd (review_replay rw a d)"
| "review_step rw (Review_Reconcile a) d = snd (review_reconcile rw a d)"
| "review_step rw (Prepare_Recovery operation focusKey a) d = snd (prepareRecovery rw operation focusKey a d)"
| "review_step rw (Cancel_Operation operation a) d = snd (cancelOperation rw operation a d)"
| "review_step rw Review_Stay d = snd (review_stay rw d)"
| "review_step rw (Review_Settle k) d = snd (review_settle rw k d)"
| "review_step rw (Client_Move g) d = snd (clientU g d)"
| "review_step rw (Store_Call f) d = snd (storeV rw f d)"
| "review_step rw Review_Dispose d = snd (review_dispose d)"

end
