(* ===== verification/Work_Phases.thy ===== *)
theory Work_Phases imports Work_Context begin

text \<open>
  The three methods of the context that call the store, in two parts around that call. A listener of the store that belongs to a screen
  can change more than the context, so the screens run the parts themselves with the store's call in between; the
  lemmas say that the parts are the methods.
\<close>

section \<open>Save\<close>

text \<open>\<open>Some b\<close> when the method ends before the store is called.\<close>

definition save_checks :: "review \<Rightarrow> jv outcome \<Rightarrow> bool option work" where
  "save_checks r result =
     unlessS (\<lambda>c. negE (matchesReview r c)) (ret (Some False))
     (withS (\<lambda>c. if w_inputs c \<noteq> [] then failedReview (Some False)
       else case result of
         Returned operation _ \<Rightarrow> unlessS (\<lambda>_. negE (saveMatches r operation)) (failedReview (Some False)) (ret None)
       | _ \<Rightarrow> failedReview (Some False)))"

definition save_ends :: "review \<Rightarrow> jv \<Rightarrow> bool \<Rightarrow> bool work" where
  "save_ends r operation ok =
     (if \<not> ok then failedReview False
      else unlessS (\<lambda>c. negE (matchesReview r c)) (ret False)
       (withS (\<lambda>c.
         if \<not> hostEpochCurrent (host_of (r_draft r)) c then completeReview r After_Save (savedDocument r operation)
         else seq (ask (\<lambda>c. findE (\<lambda>draft. bindE (savedCompletion (r_draft r) draft (Some (fld operation ''operationId'')) (w_store c))
                (\<lambda>found. Inr (found \<noteq> None))) (map snd (o_drafts (w_store c))))) (\<lambda>successor.
           case successor of None \<Rightarrow> ret False
           | Some draft \<Rightarrow> completeReview r After_Save (document_of draft)))))"

text \<open>Both parts, on the state \<open>'s\<close> that holds the context.\<close>

definition finishing_save :: "(bool option work \<Rightarrow> ('s, bool option) act) \<Rightarrow> (bool work \<Rightarrow> ('s, bool) act) \<Rightarrow> (jv \<Rightarrow> ('s, bool) act) \<Rightarrow> review \<Rightarrow> jv outcome \<Rightarrow> ('s, bool) act" where
  "finishing_save checks ends observe r result = seq (checks (save_checks r result)) (\<lambda>x. case x of
       Some b \<Rightarrow> ret b
     | None \<Rightarrow> (case result of Returned operation _ \<Rightarrow> seq (observe operation) (\<lambda>ok. ends (save_ends r operation ok)) | _ \<Rightarrow> ret False))"

section \<open>Reconciliation\<close>

definition reconcile_input :: "reconciliation \<Rightarrow> jv" where
  "reconcile_input k = JObj [(U ''hostEpoch'', host_of (k_draft k)), (U ''draftId'', path (k_draft k) [''draft'', ''draftId''])]"

text \<open>\<open>Inr\<close> the read and the empty stage when the store is to be called.\<close>

definition reconcile_checks :: "reconciliation \<Rightarrow> jv outcome \<Rightarrow> (bool + jv \<times> jv) work" where
  "reconcile_checks k result = withS (\<lambda>c. case result of
       Returned answer _ \<Rightarrow>
         if \<not> hostEpochCurrent (host_of (k_draft k)) c then seq (conflictW k) (\<lambda>b. ret (Inl b))
         else seq (ask (\<lambda>_. capture answer)) (\<lambda>read.
           unlessS (\<lambda>c. negE (captureCurrent k c)) (seq (conflictW k) (\<lambda>b. ret (Inl b))) (ret (Inr (read, emptyStage k c))))
     | _ \<Rightarrow> seq (conflictW k) (\<lambda>b. ret (Inl b)))"

definition reconcile_ends :: "reconciliation \<Rightarrow> jv \<Rightarrow> jv \<Rightarrow> bool \<Rightarrow> bool work" where
  "reconcile_ends k read emptied ok =
     (let draft = path read [''draft'', ''value''] in
      if \<not> ok then conflictW k
      else unlessS (\<lambda>c. Inr (\<not> retained k c)) (ret False)
        (unlessS (\<lambda>c. negE (captureCurrent k c)) (conflictW k)
        (if \<not> isS (path read [''draft'', ''status'']) ''observed'' then conflictW k
         else unlessS (\<lambda>c. negE (storeHolds read draft (w_store c))) (conflictW k)
           (reconcileRead k (emptied \<noteq> JUndef) draft))))"

definition finishing_reconciliation :: "(bool work \<Rightarrow> ('s, bool) act) \<Rightarrow> ((bool + jv \<times> jv) work \<Rightarrow> ('s, bool + jv \<times> jv) act)
    \<Rightarrow> (jv \<Rightarrow> jv \<Rightarrow> ('s, bool) act) \<Rightarrow> reconciliation \<Rightarrow> jv outcome \<Rightarrow> ('s, bool) act" where
  "finishing_reconciliation lift checks observe k result = seq (lift (withS (\<lambda>c. ret (retained k c)))) (\<lambda>b.
     if \<not> b then ret False
     else catchS (seq (checks (reconcile_checks k result)) (\<lambda>x. case x of
            Inl b \<Rightarrow> ret b
          | Inr (read, emptied) \<Rightarrow> seq (observe read emptied) (\<lambda>ok. lift (reconcile_ends k read emptied ok))))
        (lift (conflictW k)))"

section \<open>The baseline\<close>

definition reopen_refused :: "reopen \<Rightarrow> ctx \<Rightarrow> bool res" where
  "reopen_refused t c = orE (Inr (w_token c \<noteq> Some t \<or> w_reopen c = None \<or> \<not> w_busy c \<or> w_draft c \<noteq> None \<or> w_inputs c \<noteq> []
     \<or> t_generation t \<noteq> w_generation c)) (negE (same_data (or_undefined (w_selector c)) (t_selector t)))"

definition reopen_checks :: "reopen \<Rightarrow> jv outcome \<Rightarrow> jv option work" where
  "reopen_checks t result = (case result of
       Returned answer _ \<Rightarrow> seq (ask (\<lambda>_. capture answer)) (\<lambda>d. unlessS (\<lambda>c. negE (baselineFits t d c)) (ret None) (ret (Some d)))
     | _ \<Rightarrow> ret None)"

definition reopen_ends :: "reopen \<Rightarrow> jv \<Rightarrow> bool \<Rightarrow> bool work" where
  "reopen_ends t d ok =
     (if \<not> ok then ret False
      else unlessS (\<lambda>c. negE (tokenHolds t c)) (ret False)
        (next_act (upd (\<lambda>c. (adopted d False c)\<lparr>w_reopen := None, w_reopened := None\<rparr>)) (ret True)))"

definition finishing_reopen :: "(bool work \<Rightarrow> ('s, bool) act) \<Rightarrow> (jv option work \<Rightarrow> ('s, jv option) act) \<Rightarrow> (unit work \<Rightarrow> ('s, unit) act)
    \<Rightarrow> (jv \<Rightarrow> ('s, bool) act) \<Rightarrow> reopen \<Rightarrow> jv outcome \<Rightarrow> ('s, bool) act" where
  "finishing_reopen lift checks ends observe t result = seq (lift (ask (reopen_refused t))) (\<lambda>refused.
     if refused then ret False
     else finallyS (seq (checks (reopen_checks t result)) (\<lambda>x. case x of
            None \<Rightarrow> ret False
          | Some d \<Rightarrow> seq (observe d) (\<lambda>ok. lift (reopen_ends t d ok))))
        (ends (releaseToken t)))"

section \<open>The parts are the methods\<close>

lemma seq_assoc: "seq (seq m f) g = seq m (\<lambda>x. seq (f x) g)"
  by (rule ext) (simp add: seq_def split: prod.split sum.split)

lemma seq_ret: "seq (ret x) f = f x"
  by (rule ext) (simp add: seq_def ret_def)

lemma seq_ret_same: "seq m ret = m"
  by (rule ext) (simp add: seq_def ret_def split: prod.split sum.split)

lemma seq_withS: "seq (withS h) f = withS (\<lambda>s. seq (h s) f)"
  by (rule ext) (simp add: seq_def withS_def)

lemma seq_unless: "seq (unlessS c m n) f = unlessS c (seq m f) (seq n f)"
  by (rule ext) (simp add: unlessS_def seq_def split: prod.split sum.split)

lemma seq_if: "seq (if b then m else n) f = (if b then seq m f else seq n f)"
  by simp

lemma seq_ask_if: "seq (ask c) (\<lambda>b. if b then m else n) = unlessS c m n"
  by (simp add: unlessS_def)

lemmas seq_forms = seq_assoc seq_ret seq_ret_same seq_withS seq_unless seq_if

lemma catch_withS: "catchS (withS h) m = withS (\<lambda>s. catchS (h s) m)"
  by (rule ext) (simp add: catchS_def withS_def)

lemma withS_at: "withS f s = f s s"
  by (simp add: withS_def)

lemma withS_same: "withS (\<lambda>s. m) = m"
  by (rule ext) (simp add: withS_def)

lemma finishSave_parts:
  "finishSave lim react r result = finishing_save (\<lambda>m. m) (\<lambda>m. m) (\<lambda>operation. storeCall react (store_observeOperation lim operation)) r result"
proof -
  have f: "seq (failedReview (Some False)) (\<lambda>x. case x of None \<Rightarrow> m | Some b \<Rightarrow> ret b) = failedReview False" for m :: "bool work"
    by (simp add: failedReview_def commit_def seq_forms)
  show ?thesis
    by (cases result) (simp_all add: finishSave_def finishing_save_def save_checks_def save_ends_def [abs_def] seq_forms f if_distrib [of "\<lambda>m. seq m _"] cong: if_cong)
qed

lemma finishDraftReconciliation_parts:
  "finishDraftReconciliation lim react k result
     = finishing_reconciliation (\<lambda>m. m) (\<lambda>m. m) (\<lambda>read emptied. storeCall react (observeDraftResult lim (reconcile_input k) read emptied)) k result"
proof (cases result)
  case (Returned answer m)
  have "finishDraftReconciliation lim react k result c
     = finishing_reconciliation (\<lambda>m. m) (\<lambda>m. m) (\<lambda>read emptied. storeCall react (observeDraftResult lim (reconcile_input k) read emptied)) k result c" for c
    by (cases "retained k c")
      (simp_all add: Returned finishDraftReconciliation_def finishing_reconciliation_def reconcile_checks_def reconcile_ends_def [abs_def] reconcile_input_def
        seq_forms catch_withS Let_def withS_at cong: if_cong)
  then show ?thesis by blast
qed (simp_all add: finishDraftReconciliation_def finishing_reconciliation_def reconcile_checks_def seq_forms catch_withS withS_same cong: if_cong)

lemma finishBaselineReopen_parts:
  "finishBaselineReopen lim react t result = finishing_reopen (\<lambda>m. m) (\<lambda>m. m) (\<lambda>m. m) (\<lambda>d. storeCall react (observeDraft lim d)) t result"
  by (cases result) (simp_all add: finishBaselineReopen_def finishing_reopen_def reopen_checks_def reopen_ends_def [abs_def] reopen_refused_def [abs_def]
    seq_ask_if seq_forms cong: if_cong)

end
