(* ===== verification/Bridge_Facade.thy ===== *)
theory Bridge_Facade imports Action_Review Work_Phases begin

text \<open>
  The facade that the screens use, \<^verbatim>\<open>BridgeFacade\<close> of \<^verbatim>\<open>ui/src/state/bridge-facade.ts\<close>: connection, the navigation and the
  edits of the work context, the review and the submission of a save, the discard of a draft, and the
  reload of the baseline after either.

  The facade's state extends that of its reviewer, so that store and context, client, session, reviewer and facade are
  one record. A method that returns a promise takes the number \<open>p\<close> of that promise; each await leaves an entry with
  the local variables, one step goes on when the outcome is there, and the end of the method records what the promise resolves to.
  Listeners of the facade's publications are the parameter \<open>fw_tell\<close>.
\<close>

section \<open>The state\<close>

datatype screen_transition = Screen_Idle | Screen_Preparing | Screen_Admitting | Screen_Uncertain | Discard_Review | Screen_Reopening
  | Save_Review jv | Save_Observing jv

record save_attempt =
  sa_review :: review
  sa_plan :: "jv option"
  sa_commit :: "jv option"
  sa_operationId :: "jv option"
  sa_request :: "metadata option"
  sa_ownsReplay :: bool
  sa_capture :: "nat option"
  sa_provedUnsent :: bool
  sa_priorUncertain :: bool

datatype facade_wait =
    Connect_Wait "reconciliation option" bool
  | Draft_Wait_For reconciliation "jv outcome"
  | Protected_Wait input_binding jv jv
  | Open_Wait
  | Sync_Wait nat review
  | Plan_Wait nat review
  | Save_Wait nat bool
  | Completion_Starts nat nat
  | Completion_Wait nat nat
  | Operation_Wait nat jv
  | Discard_Wait review
  | Discarded_Wait nat
  | Configuration_Wait reopen
  | Reopen_Wait reopen

text \<open>What is awaited: a call of the client, a promise of the session, a start that waits for its adapter, another promise of the facade, or what is there already.\<close>

datatype facade_source = Of_Call nat | Of_Session nat | Of_Start nat | Of_Promise nat | Settled "jv outcome"

datatype facade_result = Undefined | Outcome "jv outcome" | Flag bool | Ended | Thrown_Out exn

record screen_state =
  sc_work :: work_state
  sc_observations :: view
  sc_transition :: screen_transition
  sc_notice :: string
  sc_review :: "review option"

record facade = reviewer +
  fa_transition :: screen_transition
  fa_notice :: string
  fa_connection :: "(bool \<times> confidence) option"
  fa_attempts :: "(nat \<times> save_attempt) list"
  fa_attempt :: "nat option"
  fa_discard :: "review option"
  fa_reopening :: "reopen option"
  fa_completion :: "(nat \<times> nat) option"
  fa_cut :: "nat list"
  fa_settling :: bool
  fa_disposed :: bool
  fa_publication :: nat
  fa_seen :: nat
  fa_fresh :: nat
  fa_waits :: "(nat \<times> nat \<times> facade_wait \<times> facade_source) list"
  fa_results :: "(nat \<times> facade_result) list"

record 's facade_world =
  fw_options :: options
  fw_limits :: limits
  fw_request :: "jv \<Rightarrow> bool"
  fw_event :: "jv \<Rightarrow> bool"
  fw_connected :: "nat \<Rightarrow> bool"
  fw_args :: "nat \<Rightarrow> call_args"
  fw_tell :: "screen_state \<Rightarrow> 's \<Rightarrow> 's"

type_synonym ('w, 'a) in_facade = "('w facade_scheme, 'a) act"
type_synonym 'w facade_env = "'w facade_scheme facade_world"

definition save_of :: "'w facade_scheme \<Rightarrow> nat \<Rightarrow> save_attempt option" where
  "save_of d n = map_of (fa_attempts d) n"

definition set_save :: "nat \<Rightarrow> (save_attempt \<Rightarrow> save_attempt) \<Rightarrow> ('w, unit) in_facade" where
  "set_save n f = upd (\<lambda>d. case save_of d n of None \<Rightarrow> d | Some x \<Rightarrow> d\<lparr>fa_attempts := AList.update n (f x) (fa_attempts d)\<rparr>)"

abbreviation turns :: "screen_transition \<Rightarrow> ('w, unit) in_facade" where
  "turns t \<equiv> upd (\<lambda>d. d\<lparr>fa_transition := t\<rparr>)"

abbreviation drops_save :: "('w, unit) in_facade" where
  "drops_save \<equiv> upd (\<lambda>d. d\<lparr>fa_attempt := None, fa_transition := Screen_Idle\<rparr>)"

abbreviation abandoned :: "jv outcome" where
  "abandoned \<equiv> plain_fault Observational_Abort Not_Sent"

abbreviation in_place :: "review \<Rightarrow> bool" where
  "in_place r \<equiv> (case r_purpose r of At_Place _ _ \<Rightarrow> True | For_Navigation _ \<Rightarrow> False)"

section \<open>Publishing\<close>

text \<open>The review of the attempt at hand, or else of the discard.\<close>

definition shown_review :: "'w facade_scheme \<Rightarrow> review option" where
  "shown_review d = (case Option.bind (fa_attempt d) (save_of d) of Some x \<Rightarrow> Some (sa_review x) | None \<Rightarrow> fa_discard d)"

definition facade_state :: "'w facade_scheme \<Rightarrow> screen_state res" where
  "facade_state d = bindE (work_view (d_ctx d)) (\<lambda>w. Inr \<lparr>sc_work = w, sc_observations = store_view (d_store d),
     sc_transition = fa_transition d, sc_notice = fa_notice d, sc_review = shown_review d\<rparr>)"

definition publishF :: "'w facade_env \<Rightarrow> ('w, unit) in_facade" where
  "publishF fw = withS (\<lambda>d. if fa_disposed d then ret ()
     else next_act (upd (\<lambda>d. d\<lparr>fa_publication := Suc (fa_publication d)\<rparr>))
       (seq (ask facade_state) (\<lambda>v. upd (fw_tell fw v))))"

definition sayF :: "'w facade_env \<Rightarrow> string \<Rightarrow> bool \<Rightarrow> ('w, unit) in_facade" where
  "sayF fw message urgent =
     next_act (upd (\<lambda>d. d\<lparr>fa_notice := message\<rparr>)) (next_act (announceV message urgent) (publishF fw))"

text \<open>The context's publications that its subscribers have not been told yet; a disposed facade is no subscriber.\<close>

definition told :: "'w facade_env \<Rightarrow> 'w facade_scheme \<Rightarrow> 'w facade_scheme" where
  "told fw d = (let n = length (w_published (d_ctx d)) in
     ((\<lambda>d. snd (publishF fw d)) ^^ (n - fa_seen d)) (d\<lparr>fa_seen := n\<rparr>))"

text \<open>A method of the context that does not call the store.\<close>

definition ctxF :: "'w facade_env \<Rightarrow> 'a work \<Rightarrow> ('w, 'a) in_facade" where
  "ctxF fw m = (\<lambda>d. case ctxS m d of (r, e) \<Rightarrow> (r, told fw e))"

text \<open>The reviewer as the facade makes it, with the facade as its subscriber and as a later listener of the store.\<close>

definition facade_canPrepare :: "'w facade_scheme \<Rightarrow> bool" where
  "facade_canPrepare d \<longleftrightarrow> \<not> fa_disposed d \<and> fa_transition d = Screen_Idle \<and> \<not> w_busy (d_ctx d) \<and> w_navigation (d_ctx d) = None"

definition review_with :: "'w facade_env \<Rightarrow> (view \<Rightarrow> 'w facade_scheme \<Rightarrow> 'w facade_scheme) \<Rightarrow> 'w facade_scheme review_world" where
  "review_with fw hear = \<lparr>rw_options = fw_options fw, rw_limits = fw_limits fw, rw_request = fw_request fw, rw_connected = fw_connected fw,
     rw_canPrepare = facade_canPrepare, rw_work = told fw, rw_hear = hear, rw_tell = (\<lambda>_ d. snd (publishF fw d))\<rparr>"

text \<open>While a completed save is being settled the facade only publishes.\<close>

abbreviation hears_settling :: "'w facade_env \<Rightarrow> view \<Rightarrow> 'w facade_scheme \<Rightarrow> 'w facade_scheme" where
  "hears_settling fw \<equiv> review_hears (review_with fw (\<lambda>_ d. snd (publishF fw d)))"

section \<open>Awaiting\<close>

definition observingF :: "call_args \<Rightarrow> 'w facade_scheme \<Rightarrow> call_args" where
  "observingF a d = a\<lparr>a_aborted := (a_aborted a \<or> fa_disposed d)\<rparr>"

definition awaitF :: "nat \<Rightarrow> facade_wait \<Rightarrow> facade_source \<Rightarrow> ('w, unit) in_facade" where
  "awaitF p wait src = upd (\<lambda>d. d\<lparr>fa_fresh := Suc (fa_fresh d), fa_waits := fa_waits d @ [(fa_fresh d, p, wait, src)]\<rparr>)"

definition callF :: "'w facade_env \<Rightarrow> nat \<Rightarrow> request_kind \<Rightarrow> string \<Rightarrow> jv \<Rightarrow> call_args \<Rightarrow> facade_wait \<Rightarrow> ('w, unit) in_facade" where
  "callF fw p k name input a wait = withS (\<lambda>d.
     seq (callS (fw_options fw) (fw_request fw) k name input (observingF a d)) (\<lambda>n. awaitF p wait (Of_Call n)))"

definition answerF :: "nat \<Rightarrow> facade_result \<Rightarrow> ('w, unit) in_facade" where
  "answerF p x = upd (\<lambda>d. d\<lparr>fa_results := fa_results d @ [(p, x)]\<rparr>)"

text \<open>A method's promise is rejected with what its body throws.\<close>

definition promising :: "nat \<Rightarrow> ('w, unit) in_facade \<Rightarrow> ('w, unit) in_facade" where
  "promising p m = (\<lambda>d. case m d of (Inl e, e') \<Rightarrow> answerF p (Thrown_Out e) e' | (Inr _, e') \<Rightarrow> (Inr (), e'))"

definition says_then :: "'w facade_env \<Rightarrow> string \<Rightarrow> bool \<Rightarrow> nat \<Rightarrow> facade_result \<Rightarrow> ('w, unit) in_facade" where
  "says_then fw message urgent p x = next_act (sayF fw message urgent) (answerF p x)"

section \<open>Replays\<close>

definition releaseSaveReplay :: "nat \<Rightarrow> bool \<Rightarrow> ('w, bool) in_facade" where
  "releaseSaveReplay n unsent = withS (\<lambda>d. case save_of d n of
       None \<Rightarrow> ret True
     | Some x \<Rightarrow>
         (case (sa_ownsReplay x, sa_capture x, sa_commit x) of
            (True, Some capt, Some sent) \<Rightarrow>
              (let key = fld sent ''idempotencyKey'' in
               case getReplay (d_client d) key of
                 None \<Rightarrow> ret True
               | Some replay \<Rightarrow>
                   if rp_request replay \<noteq> capt then ret True
                   else unlessS (\<lambda>_. negE (same_input (rp_input replay) sent)) (ret True)
                     (seq (clientB (if unsent then forgetUnsentReplay key capt else forgetReplay key)) (\<lambda>released.
                       if released then next_act (set_save n (\<lambda>x. x\<lparr>sa_ownsReplay := False\<rparr>)) (ret True) else ret False)))
          | _ \<Rightarrow> ret True))"

section \<open>Reloading the baseline\<close>

definition guarded :: "'w facade_scheme \<Rightarrow> bool" where
  "guarded d \<longleftrightarrow> fa_disposed d \<or> review_blocks d \<or> fa_transition d \<noteq> Screen_Idle"

text \<open>An outcome that is no result never reaches the store.\<close>

definition give_up_reopen :: "'w facade_env \<Rightarrow> reopen \<Rightarrow> ('w, unit) in_facade" where
  "give_up_reopen fw t = seq (ctxF fw (finishBaselineReopen (fw_limits fw) (\<lambda>c. c) t abandoned)) (\<lambda>_. ret ())"

definition completed_notice :: "reopen \<Rightarrow> string" where
  "completed_notice t = (case t_reason t of After_Save \<Rightarrow> ''Changes saved.'' | After_Discard \<Rightarrow> ''Changes discarded.'')"

definition stays_open :: "'w facade_scheme \<Rightarrow> reopen \<Rightarrow> bool" where
  "stays_open d t \<longleftrightarrow> \<not> fa_disposed d \<and> fa_reopening d = Some t"

definition reloadBaseline :: "'w facade_env \<Rightarrow> nat \<Rightarrow> call_args \<Rightarrow> ('w, unit) in_facade" where
  "reloadBaseline fw p a = withS (\<lambda>d. if guarded d then answerF p (Flag False)
     else seq (ctxF fw beginBaselineReopen) (\<lambda>reopen. case reopen of
       None \<Rightarrow> answerF p (Flag False)
     | Some t \<Rightarrow> withS (\<lambda>d.
         if fa_disposed d then next_act (give_up_reopen fw t) (answerF p (Flag False))
         else next_act (upd (\<lambda>d. d\<lparr>fa_reopening := Some t, fa_transition := Screen_Reopening\<rparr>))
           (next_act (sayF fw (completed_notice t @ '' Reloading current settings.'') False)
           (withS (\<lambda>d.
             if \<not> stays_open d t \<or> \<not> hostEpochCurrent (t_host t) (d_ctx d) then awaitF p (Configuration_Wait t) (Settled abandoned)
             else callF fw p Query ''read_configuration'' (JObj [(U ''target'', t_selector t)]) a (Configuration_Wait t)))))))"

definition configurationRefused :: "reopen \<Rightarrow> jv outcome \<Rightarrow> 'w facade_scheme \<Rightarrow> bool res" where
  "configurationRefused t r d = (case r of
       Returned v _ \<Rightarrow>
         let epoch = cursor_host (d_store d); binding = path v [''value'', ''binding''] in
         if \<not> isS (fld v ''status'') ''observed'' \<or> epoch \<noteq> JUndef \<and> \<not> strict_eq epoch (t_host t)
            \<or> \<not> hostEpochCurrent (t_host t) (d_ctx d)
            \<or> \<not> strict_eq (fld binding ''documentId'') (fld (t_document t) ''documentId'') then Inr True
         else negE (bindingEquivalent (obj_put (t_document t) ''target'' (fld binding ''target'')) (t_document t))
     | _ \<Rightarrow> Inr True)"

definition reopen_ended :: "('w, unit) in_facade" where
  "reopen_ended = upd (\<lambda>d. d\<lparr>fa_reopening := None, fa_transition := Screen_Idle\<rparr>)"

definition configuration_read :: "'w facade_env \<Rightarrow> nat \<Rightarrow> reopen \<Rightarrow> jv outcome \<Rightarrow> call_args \<Rightarrow> ('w, unit) in_facade" where
  "configuration_read fw p t r a = withS (\<lambda>d. if \<not> stays_open d t then answerF p (Flag False)
     else unlessS (configurationRefused t r)
       (next_act (give_up_reopen fw t) (next_act reopen_ended
         (says_then fw (completed_notice t @ '' Current settings are unavailable. Refresh the baseline.'') True p (Flag False))))
       (withS (\<lambda>d. case r of
          Returned v _ \<Rightarrow>
            if \<not> stays_open d t \<or> \<not> hostEpochCurrent (t_host t) (d_ctx d) then awaitF p (Reopen_Wait t) (Settled abandoned)
            else callF fw p Command ''open_draft'' (JObj [(U ''document'', path v [''value'', ''binding''])]) a (Reopen_Wait t)
        | _ \<Rightarrow> ret ())))"

section \<open>A completed save\<close>

text \<open>The read of the current draft after a save; its end is kept even if it was cut off.\<close>

definition completion_call :: "nat \<Rightarrow> (nat \<times> nat \<times> facade_wait \<times> facade_source) list \<Rightarrow> nat option" where
  "completion_call c ws = (case find (\<lambda>(_, _, wait, _). case wait of Completion_Wait _ c' \<Rightarrow> c' = c | _ \<Rightarrow> False) ws of
       Some (_, _, _, Of_Call n) \<Rightarrow> Some n
     | _ \<Rightarrow> None)"

definition abandon_unsettled :: "nat \<Rightarrow> client \<Rightarrow> client" where
  "abandon_unsettled n c = (if map_of (c_outcomes c) n = None then abandon Observational_Abort n c else c)"

definition cut_completion :: "('w, unit) in_facade" where
  "cut_completion = withS (\<lambda>d. case fa_completion d of
       None \<Rightarrow> ret ()
     | Some (_, c) \<Rightarrow>
         next_act (upd (\<lambda>d. d\<lparr>fa_cut := c # fa_cut d\<rparr>))
           (case completion_call c (fa_waits d) of None \<Rightarrow> ret () | Some n \<Rightarrow> clientU (abandon_unsettled n)))"

definition readCompletionDraft :: "nat \<Rightarrow> ('w, unit) in_facade" where
  "readCompletionDraft n = withS (\<lambda>d. if map_option fst (fa_completion d) = Some n then ret ()
     else next_act cut_completion
       (withS (\<lambda>d. let c = fa_fresh d in
          next_act (awaitF c (Completion_Starts n c) (Settled abandoned)) (upd (\<lambda>d. d\<lparr>fa_completion := Some (n, c)\<rparr>)))))"

abbreviation save_gone :: "'w facade_scheme \<Rightarrow> nat \<Rightarrow> bool" where
  "save_gone d n \<equiv> fa_disposed d \<or> fa_attempt d \<noteq> Some n"

definition completion_ends :: "nat \<Rightarrow> ('w, unit) in_facade" where
  "completion_ends c = upd (\<lambda>d. if map_option snd (fa_completion d) = Some c then d\<lparr>fa_completion := None\<rparr> else d)"

definition draft_input :: "review \<Rightarrow> jv" where
  "draft_input r = JObj [(U ''hostEpoch'', host_of (r_draft r)), (U ''draftId'', path (r_draft r) [''draft'', ''draftId''])]"

definition completion_starts :: "'w facade_env \<Rightarrow> nat \<Rightarrow> nat \<Rightarrow> nat \<Rightarrow> call_args \<Rightarrow> ('w, unit) in_facade" where
  "completion_starts fw p n c a = withS (\<lambda>d. case save_of d n of
       None \<Rightarrow> completion_ends c
     | Some x \<Rightarrow>
         if save_gone d n then completion_ends c
         else callF fw p Query ''get_draft'' (draft_input (sa_review x)) (a\<lparr>a_aborted := c \<in> set (fa_cut d)\<rparr>) (Completion_Wait n c))"

text \<open>What the facade does when an observed operation completes its save.\<close>

definition finishSaveF :: "'w facade_env \<Rightarrow> (view \<Rightarrow> 'w facade_scheme \<Rightarrow> 'w facade_scheme) \<Rightarrow> review \<Rightarrow> jv outcome \<Rightarrow> ('w, bool) in_facade" where
  "finishSaveF fw hear r result =
     finishing_save (ctxF fw) (ctxF fw) (\<lambda>operation. storeS hear (store_observeOperation (fw_limits fw) operation)) r result"

definition settle_save :: "'w facade_env \<Rightarrow> nat \<Rightarrow> save_attempt \<Rightarrow> jv \<Rightarrow> metadata \<Rightarrow> ('w, bool) in_facade" where
  "settle_save fw n x operation m = seq (finishSaveF fw (hears_settling fw) (sa_review x) (Returned operation m)) (\<lambda>saved. withS (\<lambda>d.
     if \<not> saved \<and> w_busy (d_ctx d) then
       next_act (readCompletionDraft n)
       (next_act (sayF fw ''Save completed. Waiting for its current draft observation.'' False) (ret False))
     else
       next_act (if map_option fst (fa_completion d) = Some n then cut_completion else ret ())
       (next_act (seq (releaseSaveReplay n False) (\<lambda>_. ret ()))
       (next_act drops_save
       (next_act (sayF fw (if saved then ''Changes saved.'' else ''Save did not apply the reviewed changes. Changes retained.'') (\<not> saved))
         (ret (saved \<and> in_place (sa_review x))))))))"

definition saves_observed :: "'w facade_env \<Rightarrow> ('w, unit) in_facade" where
  "saves_observed fw = withS (\<lambda>d. case fa_attempt d of
       None \<Rightarrow> ret ()
     | Some n \<Rightarrow>
         if fa_disposed d \<or> fa_settling d then ret ()
         else case save_of d n of
           None \<Rightarrow> ret ()
         | Some x \<Rightarrow>
             (case (sa_operationId x, sa_request x, sa_plan x) of
                (Some i, Some m, Some plan) \<Rightarrow>
                  if \<not> truthy i then ret ()
                  else (case operation_by_id i (d_store d) of
                    None \<Rightarrow> ret ()
                  | Some operation \<Rightarrow>
                      if \<not> isS (status_of operation) ''completed'' then ret ()
                      else unlessS (\<lambda>_. negE (same_plan (fld operation ''semantics'') (fld plan ''semantics''))) (ret ())
                        (next_act (upd (\<lambda>d. d\<lparr>fa_settling := True\<rparr>))
                        (seq (finallyS (settle_save fw n x operation m) (upd (\<lambda>d. d\<lparr>fa_settling := False\<rparr>))) (\<lambda>reopen.
                         if reopen then withS (\<lambda>d. next_act (upd (\<lambda>d. d\<lparr>fa_fresh := Suc (fa_fresh d)\<rparr>))
                           (promising (fa_fresh d) (reloadBaseline fw (fa_fresh d) (fw_args fw (fa_fresh d))))) else ret ()))))
              | _ \<Rightarrow> ret ()))"

text \<open>A publication of the store: first those whom the context tells, then the reviewer, then the facade.\<close>

definition facade_review :: "'w facade_env \<Rightarrow> 'w facade_scheme review_world" where
  "facade_review fw = review_with fw (\<lambda>_ d. if fa_disposed d then d else snd (publishF fw (snd (saves_observed fw d))))"

abbreviation hears :: "'w facade_env \<Rightarrow> view \<Rightarrow> 'w facade_scheme \<Rightarrow> 'w facade_scheme" where
  "hears fw \<equiv> review_hears (facade_review fw)"

abbreviation storeF :: "'w facade_env \<Rightarrow> (store \<Rightarrow> store \<times> bool) \<Rightarrow> ('w, bool) in_facade" where
  "storeF fw f \<equiv> storeS (hears fw) f"

definition completion_read :: "'w facade_env \<Rightarrow> nat \<Rightarrow> nat \<Rightarrow> jv outcome \<Rightarrow> ('w, unit) in_facade" where
  "completion_read fw n c r = finallyS
     (withS (\<lambda>d. case save_of d n of
        None \<Rightarrow> ret ()
      | Some x \<Rightarrow>
          if save_gone d n \<or> c \<in> set (fa_cut d) then ret ()
          else let unknown = sayF fw ''Save completed, but its current draft could not be confirmed. Changes are retained.'' True in
            (case r of
               Returned v _ \<Rightarrow>
                 seq (storeF fw (observeDraftResult (fw_limits fw) (draft_input (sa_review x)) v JUndef)) (\<lambda>ok. if ok then ret () else unknown)
             | _ \<Rightarrow> unknown)))
     (completion_ends c)"

definition draft_reopened :: "'w facade_env \<Rightarrow> nat \<Rightarrow> reopen \<Rightarrow> jv outcome \<Rightarrow> ('w, unit) in_facade" where
  "draft_reopened fw p t r = withS (\<lambda>d. if \<not> stays_open d t then answerF p (Flag False)
     else seq (finishing_reopen (ctxF fw) (ctxF fw) (ctxF fw) (\<lambda>draft. storeF fw (observeDraft (fw_limits fw) draft)) t r) (\<lambda>accepted.
       next_act reopen_ended
         (says_then fw (if accepted then completed_notice t else completed_notice t @ '' Current settings are unavailable. Refresh the baseline.'')
           (\<not> accepted) p (Flag accepted))))"

section \<open>Connecting and refreshing\<close>

definition session_of :: "'w facade_env \<Rightarrow> session_world" where
  "session_of fw = \<lparr>sw_options = fw_options fw, sw_limits = fw_limits fw, sw_request = fw_request fw, sw_event = fw_event fw\<rparr>"

definition source_of :: "promised \<Rightarrow> 'w facade_scheme \<Rightarrow> facade_source" where
  "source_of pr d = (case pr of Resolved r \<Rightarrow> Settled r | Promised n \<Rightarrow> Of_Session n
     | Suspended \<Rightarrow> Of_Start (case se_starting d of Some s \<Rightarrow> s | None \<Rightarrow> 0))"

definition awaits_session :: "nat \<Rightarrow> facade_wait \<Rightarrow> ('w, promised) in_facade \<Rightarrow> ('w, unit) in_facade" where
  "awaits_session p wait m = seq m (\<lambda>pr. withS (\<lambda>d. awaitF p wait (source_of pr d)))"

definition facade_connect :: "'w facade_env \<Rightarrow> nat \<Rightarrow> call_args \<Rightarrow> ('w, unit) in_facade" where
  "facade_connect fw p a = withS (\<lambda>d. awaits_session p (Connect_Wait (captureDraftReconciliation (d_ctx d)) False)
     (session_start (session_of fw) (hears fw) (observingF a d)))"

definition facade_refresh :: "'w facade_env \<Rightarrow> nat \<Rightarrow> call_args \<Rightarrow> bool \<Rightarrow> ('w, unit) in_facade" where
  "facade_refresh fw p a background = withS (\<lambda>d. awaits_session p (Connect_Wait (captureDraftReconciliation (d_ctx d)) background)
     (session_refresh (session_of fw) (hears fw) (observingF a d)))"

definition announceConnection :: "'w facade_env \<Rightarrow> bool \<Rightarrow> bool \<Rightarrow> ('w, unit) in_facade" where
  "announceConnection fw got onlyChanged = withS (\<lambda>d.
     let confidence = o_confidence (d_store d) in
     if onlyChanged \<and> fa_connection d = Some (got, confidence) then ret ()
     else next_act (upd (\<lambda>d. d\<lparr>fa_connection := Some (got, confidence)\<rparr>))
       (sayF fw (if got \<and> confidence = Authoritative then ''Observations updated.''
          else if got \<and> confidence = Partial then ''Some observations are unavailable. Refresh is required.''
          else ''Observations are unavailable. Refresh is required.'') (\<not> got \<or> confidence \<noteq> Authoritative)))"

definition is_result :: "jv outcome \<Rightarrow> bool" where
  "is_result r = (case r of Returned _ _ \<Rightarrow> True | _ \<Rightarrow> False)"

definition facade_connected :: "'w facade_env \<Rightarrow> nat \<Rightarrow> reconciliation option \<Rightarrow> bool \<Rightarrow> jv outcome \<Rightarrow> call_args \<Rightarrow> ('w, unit) in_facade" where
  "facade_connected fw p draft onlyChanged r a = withS (\<lambda>d. if fa_disposed d then answerF p (Outcome r)
     else next_act (announceConnection fw (is_result r) onlyChanged)
       (withS (\<lambda>d. case draft of
          Some k \<Rightarrow>
            if fa_disposed d \<or> \<not> is_result r then answerF p (Outcome r)
            else awaits_session p (Draft_Wait_For k r) (readDraft (session_of fw) (reconcile_input k) (observingF a d))
        | None \<Rightarrow> answerF p (Outcome r))))"

definition reconcileDraft :: "'w facade_env \<Rightarrow> nat \<Rightarrow> reconciliation \<Rightarrow> jv outcome \<Rightarrow> jv outcome \<Rightarrow> ('w, unit) in_facade" where
  "reconcileDraft fw p k connected r = withS (\<lambda>d. if fa_disposed d then answerF p (Outcome connected)
     else seq (finishing_reconciliation (ctxF fw) (ctxF fw)
         (\<lambda>read emptied. storeF fw (observeDraftResult (fw_limits fw) (reconcile_input k) read emptied)) k r) (\<lambda>ok.
       if ok then answerF p (Outcome connected)
       else says_then fw ''Current draft could not be reconciled. Changes and unfinished input are retained.'' True p (Outcome connected)))"

section \<open>Navigation, edits and inputs\<close>

definition facade_navigate :: "'w facade_env \<Rightarrow> workspace_view \<Rightarrow> ustr option \<Rightarrow> ('w, unit) in_facade" where
  "facade_navigate fw v focus = withS (\<lambda>d. if fa_disposed d then ret () else ctxF fw (navigate v focus))"

definition facade_requestTarget :: "'w facade_env \<Rightarrow> jv \<Rightarrow> ustr option \<Rightarrow> ('w, bool) in_facade" where
  "facade_requestTarget fw target focus = withS (\<lambda>d. if fa_disposed d \<or> review_blocks d then ret False else ctxF fw (requestTarget target focus))"

definition facade_requestClose :: "'w facade_env \<Rightarrow> ustr option \<Rightarrow> ('w, bool) in_facade" where
  "facade_requestClose fw focus = withS (\<lambda>d. if fa_disposed d \<or> review_blocks d then ret False else ctxF fw (requestClose focus))"

definition facade_stage :: "'w facade_env \<Rightarrow> jv list \<Rightarrow> ('w, bool) in_facade" where
  "facade_stage fw edits = withS (\<lambda>d. if fa_disposed d then ret False else ctxF fw (stage edits))"

definition facade_cancelOperation :: "'w facade_env \<Rightarrow> jv \<Rightarrow> call_args \<Rightarrow> ('w, jv review_reply) in_facade" where
  "facade_cancelOperation fw operation a = withS (\<lambda>d. if fa_disposed d then ret Nothing else cancelOperation (facade_review fw) operation a)"

definition facade_capturePublicInput :: "'w facade_env \<Rightarrow> jv \<Rightarrow> ('w, input_binding option) in_facade" where
  "facade_capturePublicInput fw fieldId = withS (\<lambda>d. if guarded d then ret None else ctxF fw (ask (capturePublicInput fieldId)))"

definition facade_setPublicInput :: "'w facade_env \<Rightarrow> input_binding \<Rightarrow> ustr \<Rightarrow> ('w, bool) in_facade" where
  "facade_setPublicInput fw binding text = withS (\<lambda>d. if guarded d then ret False else ctxF fw (setPublicInput binding text))"

definition facade_stagePublicInput :: "'w facade_env \<Rightarrow> input_binding \<Rightarrow> ustr \<Rightarrow> jv list \<Rightarrow> ('w, bool) in_facade" where
  "facade_stagePublicInput fw binding text edits = withS (\<lambda>d. if guarded d then ret False
     else ctxF fw (stagePublicInput (fw_request fw) binding text edits))"

definition facade_resetPublicInput :: "'w facade_env \<Rightarrow> input_binding \<Rightarrow> ustr \<Rightarrow> ('w, bool) in_facade" where
  "facade_resetPublicInput fw binding text = withS (\<lambda>d. if guarded d then ret False else ctxF fw (resetPublicInput binding text))"

section \<open>Protected input\<close>

definition captureProtected :: "'w facade_env \<Rightarrow> nat \<Rightarrow> jv \<Rightarrow> call_args \<Rightarrow> ('w, unit) in_facade" where
  "captureProtected fw p fieldId a = withS (\<lambda>d. if guarded d then answerF p (Flag False)
     else seq (ctxF fw (ask (captureProtectedInput fieldId))) (\<lambda>found. case found of
       None \<Rightarrow> answerF p (Flag False)
     | Some b \<Rightarrow>
         let sensitivity = fld (b_field b) ''sensitivity'' in
         if isS sensitivity ''public'' then answerF p (Flag False)
         else let input = JObj [(U ''draft'', b_draft b), (U ''fieldId'', fld (b_field b) ''fieldId''), (U ''sensitivity'', sensitivity)] in
           callF fw p Command ''request_sensitive_input'' input a (Protected_Wait b input fieldId)))"

text \<open>The edit that a captured value gives.\<close>

definition protected_edit :: "input_binding \<Rightarrow> jv \<Rightarrow> jv \<Rightarrow> jv option" where
  "protected_edit b fieldId captured =
     (let status = fld captured ''status''; sensitivity = fld (b_field b) ''sensitivity'';
          edit = (\<lambda>kind. Some (JObj [(U ''kind'', S kind), (U ''fieldId'', fieldId), (U ''reference'', fld captured ''reference'')])) in
      if isS status ''captured_private'' \<and> isS sensitivity ''private'' then edit ''set_private''
      else if isS status ''captured_secret'' \<and> isS sensitivity ''secret'' then edit ''replace_secret'' else None)"

definition protected_captured :: "'w facade_env \<Rightarrow> nat \<Rightarrow> input_binding \<Rightarrow> jv \<Rightarrow> jv \<Rightarrow> jv outcome \<Rightarrow> ('w, unit) in_facade" where
  "protected_captured fw p b input fieldId r = withS (\<lambda>d. if guarded d then answerF p (Flag False)
     else unlessS (\<lambda>_. case r of Returned v _ \<Rightarrow> negE (bindingEquivalent input (fld v ''binding'')) | _ \<Rightarrow> Inr True)
       (says_then fw ''Protected entry could not be confirmed. Your draft is retained.'' True p (Flag False))
       (case r of
          Returned v _ \<Rightarrow>
            (let captured = fld v ''outcome'' in
             case protected_edit b fieldId captured of
               None \<Rightarrow> says_then fw (if isS (fld captured ''status'') ''cancelled'' then ''Protected entry cancelled.''
                   else ''Protected entry is unavailable. Your draft is retained.'') False p (Flag False)
             | Some edit \<Rightarrow> seq (ctxF fw (stageProtectedInput b edit)) (\<lambda>staged.
                 if staged then says_then fw ''Protected value staged.'' False p (Flag True)
                 else says_then fw ''The draft changed during protected entry. Capture the value again.'' True p (Flag False)))
        | _ \<Rightarrow> ret ()))"

section \<open>Staying\<close>

text \<open>What the attempt and the discard at hand leave: whether a review in place was given up, and the focus; \<open>None\<close> when the attempt cannot be left.\<close>

definition leave_save :: "'w facade_env \<Rightarrow> ustr option \<Rightarrow> ('w, (bool \<times> ustr option) option) in_facade" where
  "leave_save fw key = withS (\<lambda>d. case fa_attempt d of
       None \<Rightarrow> ret (Some (False, key))
     | Some n \<Rightarrow>
         (case save_of d n of
            None \<Rightarrow> ret (Some (False, key))
          | Some x \<Rightarrow>
              let r = sa_review x; k = (if in_place r then r_focus r else key) in
              seq (if sa_provedUnsent x then releaseSaveReplay n True else ret True) (\<lambda>released.
              if \<not> released then
                next_act (set_save n (\<lambda>x. x\<lparr>sa_provedUnsent := False\<rparr>)) (next_act (turns Screen_Uncertain)
                (next_act (sayF fw ''Save outcome is unconfirmed. Changes and exact submission are retained.'' True) (ret None)))
              else seq (ctxF fw (abandonReview r)) (\<lambda>gone.
                next_act drops_save (ret (Some (gone \<and> in_place r, k)))))))"

definition leave_discard :: "'w facade_env \<Rightarrow> bool \<times> ustr option \<Rightarrow> ('w, bool \<times> ustr option) in_facade" where
  "leave_discard fw left = withS (\<lambda>d. case fa_discard d of
       None \<Rightarrow> ret left
     | Some r \<Rightarrow> seq (ctxF fw (abandonReview r)) (\<lambda>gone.
         next_act (upd (\<lambda>d. d\<lparr>fa_discard := None, fa_transition := Screen_Idle\<rparr>))
           (ret (gone \<and> in_place r, if in_place r then r_focus r else snd left))))"

definition facade_stay :: "'w facade_env \<Rightarrow> ('w, bool) in_facade" where
  "facade_stay fw = withS (\<lambda>d.
     if fa_disposed d \<or> \<not> (case fa_transition d of Screen_Idle \<Rightarrow> True | Save_Review _ \<Rightarrow> True | Discard_Review \<Rightarrow> True | _ \<Rightarrow> False) then ret False
     else seq (leave_save fw (w_focus (d_ctx d))) (\<lambda>left. case left of
       None \<Rightarrow> ret False
     | Some left \<Rightarrow> seq (leave_discard fw left) (\<lambda>(inPlace, key).
         seq (ctxF fw stay) (\<lambda>stayed.
         if stayed \<or> inPlace then
           next_act (upd (\<lambda>d. d\<lparr>rv_focus := snd (focus_restore (fw_connected fw) key (rv_focus d))\<rparr>))
           (next_act (sayF fw ''Changes retained.'' False) (ret True))
         else ret False))))"

definition facade_openDraft :: "'w facade_env \<Rightarrow> nat \<Rightarrow> jv \<Rightarrow> call_args \<Rightarrow> ('w, unit) in_facade" where
  "facade_openDraft fw p document a = withS (\<lambda>d. if w_reopen (d_ctx d) \<noteq> None then answerF p (Outcome abandoned)
     else callF fw p Command ''open_draft'' (JObj [(U ''document'', document)]) a Open_Wait)"

definition draft_opened :: "'w facade_env \<Rightarrow> nat \<Rightarrow> jv outcome \<Rightarrow> ('w, unit) in_facade" where
  "draft_opened fw p r = withS (\<lambda>d. case r of
       Returned v _ \<Rightarrow>
         if fa_disposed d then answerF p (Outcome r)
         else seq (storeF fw (observeDraft (fw_limits fw) v)) (\<lambda>ok.
           if ok then seq (ctxF fw (work_observeDraft v)) (\<lambda>_. answerF p (Outcome r))
           else says_then fw ''Draft observation needs reconciliation. Changes retained.'' True p (Outcome r))
     | _ \<Rightarrow> answerF p (Outcome r))"

end
