(* ===== verification/Facade_Saves.thy ===== *)
theory Facade_Saves imports Bridge_Facade begin

text \<open>
  The facade's saves and discards (\<^verbatim>\<open>ui/src/state/bridge-facade.ts\<close>): a save is synchronized, prepared, shown, submitted
  exactly as shown and followed to its completion; a discard is confirmed first. At the end the facade's disposal and its steps.
\<close>

section \<open>Preparing a save\<close>

definition give_up_review :: "'w facade_env \<Rightarrow> review \<Rightarrow> ('w, unit) in_facade" where
  "give_up_review fw r = seq (ctxF fw (abandonReview r)) (\<lambda>_. ret ())"

text \<open>A save that ends without an operation: the outcome is no result, so the store is not called.\<close>

definition give_up_save :: "'w facade_env \<Rightarrow> review \<Rightarrow> jv outcome \<Rightarrow> ('w, unit) in_facade" where
  "give_up_save fw r result = seq (ctxF fw (finishSave (fw_limits fw) (\<lambda>c. c) r result)) (\<lambda>_. ret ())"

definition new_save :: "review \<Rightarrow> save_attempt" where
  "new_save r = \<lparr>sa_review = r, sa_plan = None, sa_commit = None, sa_operationId = None, sa_request = None, sa_ownsReplay = False,
     sa_capture = None, sa_provedUnsent = False, sa_priorUncertain = False\<rparr>"

definition prepareSaveFor :: "'w facade_env \<Rightarrow> nat \<Rightarrow> review_kind \<Rightarrow> ustr option \<Rightarrow> call_args \<Rightarrow> ('w, unit) in_facade" where
  "prepareSaveFor fw p purpose focus a = withS (\<lambda>d.
     if guarded d then answerF p Undefined
     else if w_inputs (d_ctx d) \<noteq> [] then
       says_then fw ''Changes retained. Resolve or reset the unfinished numeric fields before Save.'' True p Undefined
     else seq (ctxF fw (beginReview purpose focus)) (\<lambda>begun. case begun of
       None \<Rightarrow> answerF p Undefined
     | Some r \<Rightarrow> withS (\<lambda>d.
         if fa_disposed d \<or> \<not> hostEpochCurrent (host_of (r_draft r)) (d_ctx d) then next_act (give_up_review fw r) (answerF p Undefined)
         else let n = fa_fresh d in
           next_act (upd (\<lambda>d. d\<lparr>fa_fresh := Suc n, fa_attempts := AList.update n (new_save r) (fa_attempts d), fa_attempt := Some n,
              fa_transition := Screen_Preparing\<rparr>))
           (next_act (publishF fw)
           (withS (\<lambda>d.
             if save_gone d n \<or> \<not> hostEpochCurrent (host_of (r_draft r)) (d_ctx d) then awaitF p (Sync_Wait n r) (Settled abandoned)
             else callF fw p Command ''set_draft_changes''
               (JObj [(U ''draft'', fld (r_draft r) ''draft''), (U ''edits'', JArr (r_edits r))]) a (Sync_Wait n r)))))))"

text \<open>The end of an attempt that prepared no plan.\<close>

definition save_dropped :: "'w facade_env \<Rightarrow> string \<Rightarrow> nat \<Rightarrow> facade_result \<Rightarrow> ('w, unit) in_facade" where
  "save_dropped fw message p x = next_act drops_save (says_then fw message True p x)"

definition synchronized :: "'w facade_env \<Rightarrow> nat \<Rightarrow> nat \<Rightarrow> review \<Rightarrow> call_args \<Rightarrow> ('w, unit) in_facade" where
  "synchronized fw p n r a =
     (let draft = r_draft r in
      seq (storeF fw (observeDraft (fw_limits fw) draft)) (\<lambda>ok.
      if \<not> ok then next_act (give_up_save fw r abandoned) (save_dropped fw ''Draft observation needs reconciliation. Changes retained.'' p Undefined)
      else if arr_items (fld draft ''validation'') \<noteq> [] \<or> isS (fld draft ''state'') ''invalid'' then
        next_act (give_up_save fw r abandoned) (save_dropped fw ''Changes retained. Review the field validation.'' p Undefined)
      else withS (\<lambda>d.
        if save_gone d n \<or> \<not> hostEpochCurrent (host_of draft) (d_ctx d) then awaitF p (Plan_Wait n r) (Settled abandoned)
        else callF fw p Command ''prepare'' (JObj [(U ''intent'', JObj [(U ''kind'', S ''save_configuration''),
           (U ''input'', JObj [(U ''draft'', fld draft ''draft'')])])]) a (Plan_Wait n r))))"

definition save_synchronized :: "'w facade_env \<Rightarrow> nat \<Rightarrow> nat \<Rightarrow> review \<Rightarrow> jv outcome \<Rightarrow> call_args \<Rightarrow> ('w, unit) in_facade" where
  "save_synchronized fw p n r ack a = withS (\<lambda>d. if save_gone d n then answerF p Undefined
     else seq (ctxF fw (finishDraftSynchronization r ack)) (\<lambda>updated.
       next_act (case updated of None \<Rightarrow> ret () | Some u \<Rightarrow> set_save n (\<lambda>x. x\<lparr>sa_review := u\<rparr>))
       (withS (\<lambda>d.
         if save_gone d n then next_act (case updated of None \<Rightarrow> ret () | Some u \<Rightarrow> give_up_review fw u) (answerF p Undefined)
         else case updated of
           None \<Rightarrow> save_dropped fw ''Changes retained. Draft synchronization was not confirmed.'' p Undefined
         | Some u \<Rightarrow> synchronized fw p n u a))))"

definition save_prepared :: "'w facade_env \<Rightarrow> nat \<Rightarrow> nat \<Rightarrow> review \<Rightarrow> jv outcome \<Rightarrow> ('w, unit) in_facade" where
  "save_prepared fw p n r outcome = withS (\<lambda>d.
     if save_gone d n then answerF p (Outcome outcome)
     else if \<not> hostEpochCurrent (host_of (r_draft r)) (d_ctx d) then
       next_act (give_up_review fw r)
         (save_dropped fw ''Changes retained. The Bridge host changed during Save review. Refresh the draft baseline.'' p (Outcome abandoned))
     else case outcome of
       Returned plan _ \<Rightarrow>
         (let capt = path plan [''semantics'', ''capture''] in
          unlessS (\<lambda>_. orE (Inr (\<not> is_kind capt ''save_configuration''))
              (negE (same_data (path capt [''input'', ''draft'', ''edits'']) (JArr (r_edits r)))))
            (next_act (give_up_save fw r abandoned) (save_dropped fw ''Save review does not match the captured changes.'' p (Outcome outcome)))
            (next_act (set_save n (\<lambda>x. x\<lparr>sa_plan := Some plan\<rparr>))
            (next_act (turns (Save_Review plan)) (says_then fw ''Save is ready for your review.'' False p (Outcome outcome)))))
     | _ \<Rightarrow> next_act (give_up_save fw r outcome) (save_dropped fw ''Changes retained. Save review is unavailable.'' p (Outcome outcome)))"

section \<open>Submitting a save\<close>

abbreviation save_retained :: string where
  "save_retained \<equiv> ''Save outcome is unconfirmed. Changes and exact submission are retained.''"

definition submit_save :: "'w facade_env \<Rightarrow> nat \<Rightarrow> nat \<Rightarrow> jv \<Rightarrow> call_args \<Rightarrow> ('w, unit) in_facade" where
  "submit_save fw p n sent a = withS (\<lambda>d.
     let key = fld sent ''idempotencyKey''; prior = getReplay (d_client d) key in
     next_act (set_save n (\<lambda>x. x\<lparr>sa_ownsReplay := (prior = None), sa_capture := None\<rparr>))
     (seq (ask (\<lambda>_. case prior of None \<Rightarrow> Inr False | Some replay \<Rightarrow> same_input (rp_input replay) sent)) (\<lambda>same.
      next_act (set_save n (\<lambda>x. x\<lparr>sa_priorUncertain := same\<rparr>))
      (seq (callS (fw_options fw) (fw_request fw) Command ''commit'' sent (observingF a d)) (\<lambda>call.
       withS (\<lambda>d.
         (let retained = (if prior = None then getReplay (d_client d) key else None) in
          seq (ask (\<lambda>_. case retained of None \<Rightarrow> Inr False | Some replay \<Rightarrow> same_input (rp_input replay) sent)) (\<lambda>mine.
          next_act (if mine then set_save n (\<lambda>x. x\<lparr>sa_capture := map_option rp_request retained\<rparr>) else ret ())
            (awaitF p (Save_Wait n False) (Of_Call call))))))))))"

definition save_submission :: "'w facade_env \<Rightarrow> nat \<Rightarrow> nat \<Rightarrow> save_attempt \<Rightarrow> jv \<Rightarrow> jv res \<Rightarrow> call_args \<Rightarrow> ('w, unit) in_facade" where
  "save_submission fw p n x plan idempotencyKey a = withS (\<lambda>d.
     let host = host_of (r_draft (sa_review x)) in
     if \<not> hostEpochCurrent host (d_ctx d) then
       says_then fw ''Changes retained. The Bridge host changed before Save submission. Refresh the draft baseline.'' True p Undefined
     else case idempotencyKey of
       Inl _ \<Rightarrow> says_then fw ''Changes retained. Save submission is unavailable.'' True p Undefined
     | Inr key \<Rightarrow>
         let sent = JObj [(U ''idempotencyKey'', key), (U ''planRef'', fld plan ''planRef'')] in
         next_act (set_save n (\<lambda>x. x\<lparr>sa_commit := Some sent, sa_provedUnsent := False\<rparr>))
         (next_act (turns Screen_Admitting) (next_act (publishF fw)
         (withS (\<lambda>d.
           if save_gone d n \<or> \<not> hostEpochCurrent host (d_ctx d) then awaitF p (Save_Wait n False) (Settled abandoned)
           else submit_save fw p n sent a)))))"

definition commitSave :: "'w facade_env \<Rightarrow> nat \<Rightarrow> jv res \<Rightarrow> call_args \<Rightarrow> ('w, unit) in_facade" where
  "commitSave fw p idempotencyKey a = withS (\<lambda>d.
     case (fa_disposed d, fa_transition d, fa_attempt d, Option.bind (fa_attempt d) (save_of d)) of
       (False, Save_Review _, Some n, Some x) \<Rightarrow>
         (case sa_plan x of
            None \<Rightarrow> answerF p Undefined
          | Some plan \<Rightarrow>
              seq (if sa_provedUnsent x then releaseSaveReplay n True else ret True) (\<lambda>released.
              if released then save_submission fw p n x plan idempotencyKey a
              else next_act (set_save n (\<lambda>x. x\<lparr>sa_provedUnsent := False\<rparr>))
                (next_act (turns Screen_Uncertain) (says_then fw save_retained True p Undefined))))
     | _ \<Rightarrow> answerF p Undefined)"

definition replaySave :: "'w facade_env \<Rightarrow> nat \<Rightarrow> call_args \<Rightarrow> ('w, unit) in_facade" where
  "replaySave fw p a = withS (\<lambda>d.
     case (fa_disposed d, fa_transition d, fa_attempt d, Option.bind (Option.bind (fa_attempt d) (save_of d)) sa_commit) of
       (False, Screen_Uncertain, Some n, Some sent) \<Rightarrow>
         next_act (turns Screen_Admitting) (next_act (publishF fw)
         (withS (\<lambda>d. case getReplay (d_client d) (fld sent ''idempotencyKey'') of
            None \<Rightarrow> awaitF p (Save_Wait n True) (Settled (plain_fault Replay_Missing Not_Sent))
          | Some replay \<Rightarrow>
              unlessS (\<lambda>_. negE (same_input (rp_input replay) sent))
                (awaitF p (Save_Wait n True) (Settled (plain_fault Replay_Conflict Not_Sent)))
                (callF fw p Command ''commit'' sent a (Save_Wait n True)))))
     | _ \<Rightarrow> answerF p Undefined)"

definition save_uncertain :: "'w facade_env \<Rightarrow> ('w, unit) in_facade" where
  "save_uncertain fw = next_act (turns Screen_Uncertain) (sayF fw save_retained True)"

definition save_refused :: "'w facade_env \<Rightarrow> nat \<Rightarrow> jv \<Rightarrow> ('w, unit) in_facade" where
  "save_refused fw n plan = next_act (set_save n (\<lambda>x. x\<lparr>sa_provedUnsent := True\<rparr>))
     (next_act (turns (Save_Review plan)) (sayF fw ''Save was not submitted. Changes retained.'' True))"

definition save_admitted :: "'w facade_env \<Rightarrow> nat \<Rightarrow> jv \<Rightarrow> metadata \<Rightarrow> ('w, unit) in_facade" where
  "save_admitted fw n operation m =
     (let i = fld operation ''operationId'' in
      next_act (set_save n (\<lambda>x. x\<lparr>sa_operationId := Some i, sa_request := Some m\<rparr>))
      (next_act (turns (Save_Observing i))
      (seq (storeF fw (store_observeOperation (fw_limits fw) operation)) (\<lambda>ok.
       if \<not> ok then next_act (turns Screen_Uncertain) (sayF fw ''Save observation needs reconciliation.'' True)
       else next_act (saves_observed fw)
         (withS (\<lambda>d. if fa_attempt d = Some n then sayF fw ''Save admitted. Waiting for the operation outcome.'' False else ret ()))))))"

definition acceptSave :: "'w facade_env \<Rightarrow> nat \<Rightarrow> jv outcome \<Rightarrow> bool \<Rightarrow> ('w, unit) in_facade" where
  "acceptSave fw n r again =
     next_act (withS (\<lambda>d. if \<not> again \<and> other_request d (Option.bind (save_of d n) sa_capture) r
       then set_save n (\<lambda>x. x\<lparr>sa_capture := None\<rparr>) else ret ()))
     (withS (\<lambda>d. case save_of d n of
        None \<Rightarrow> ret ()
      | Some x \<Rightarrow>
          (case r of
             Faulted f \<Rightarrow>
               (case sa_plan x of
                  Some plan \<Rightarrow> if \<not> again \<and> \<not> sa_priorUncertain x \<and> f_delivery f = Not_Sent then save_refused fw n plan else save_uncertain fw
                | None \<Rightarrow> save_uncertain fw)
           | Rejected _ _ \<Rightarrow> save_uncertain fw
           | Returned operation m \<Rightarrow> save_admitted fw n operation m)))"

definition save_answered :: "'w facade_env \<Rightarrow> nat \<Rightarrow> nat \<Rightarrow> bool \<Rightarrow> jv outcome \<Rightarrow> ('w, unit) in_facade" where
  "save_answered fw p n again r = withS (\<lambda>d.
     next_act (if save_gone d n then ret () else acceptSave fw n r again) (answerF p (Outcome r)))"

definition reconcileSave :: "'w facade_env \<Rightarrow> nat \<Rightarrow> call_args \<Rightarrow> ('w, unit) in_facade" where
  "reconcileSave fw p a = withS (\<lambda>d.
     case (fa_attempt d, Option.bind (Option.bind (fa_attempt d) (save_of d)) sa_operationId) of
       (Some n, Some i) \<Rightarrow>
         if fa_disposed d \<or> \<not> truthy i then answerF p Ended
         else callF fw p Query ''get_operation'' (JObj [(U ''operationId'', i)]) a (Operation_Wait n i)
     | _ \<Rightarrow> answerF p Ended)"

definition save_reconciled :: "'w facade_env \<Rightarrow> nat \<Rightarrow> nat \<Rightarrow> jv \<Rightarrow> jv outcome \<Rightarrow> ('w, unit) in_facade" where
  "save_reconciled fw p n i r = withS (\<lambda>d. if save_gone d n then answerF p Ended
     else case r of
       Returned v _ \<Rightarrow> seq (storeF fw (observeOperationResult (fw_limits fw) i v)) (\<lambda>_. answerF p Ended)
     | _ \<Rightarrow> says_then fw ''Save observation is unavailable. Changes retained.'' True p Ended)"

section \<open>Discarding\<close>

definition prepareDiscardInPlace :: "'w facade_env \<Rightarrow> ustr option \<Rightarrow> ('w, bool) in_facade" where
  "prepareDiscardInPlace fw focus = withS (\<lambda>d. if guarded d then ret False
     else seq (ctxF fw (beginReview In_Place focus)) (\<lambda>begun. case begun of
       None \<Rightarrow> ret False
     | Some r \<Rightarrow> withS (\<lambda>d.
         if fa_disposed d \<or> \<not> hostEpochCurrent (host_of (r_draft r)) (d_ctx d) then next_act (give_up_review fw r) (ret False)
         else next_act (upd (\<lambda>d. d\<lparr>fa_discard := Some r, fa_transition := Discard_Review\<rparr>))
           (next_act (sayF fw ''Discard is ready for your review.'' False) (ret True)))))"

definition submitDiscard :: "'w facade_env \<Rightarrow> nat \<Rightarrow> review \<Rightarrow> call_args \<Rightarrow> ('w, unit) in_facade" where
  "submitDiscard fw p r a =
     next_act (turns Screen_Preparing) (next_act (publishF fw)
     (withS (\<lambda>d.
       if fa_disposed d \<or> fa_discard d \<noteq> Some r \<or> \<not> hostEpochCurrent (host_of (r_draft r)) (d_ctx d) then awaitF p (Discard_Wait r) (Settled abandoned)
       else callF fw p Command ''discard_draft'' (JObj [(U ''draft'', fld (r_draft r) ''draft'')]) a (Discard_Wait r))))"

definition confirmDiscard :: "'w facade_env \<Rightarrow> nat \<Rightarrow> call_args \<Rightarrow> ('w, unit) in_facade" where
  "confirmDiscard fw p a = withS (\<lambda>d. case (fa_disposed d, fa_transition d, fa_discard d) of
       (False, Discard_Review, Some r) \<Rightarrow>
         if \<not> in_place r then answerF p (Flag False)
         else if \<not> hostEpochCurrent (host_of (r_draft r)) (d_ctx d) then
           says_then fw ''Changes retained. The Bridge host changed before Discard. Refresh the draft baseline.'' True p (Flag False)
         else submitDiscard fw p r a
     | _ \<Rightarrow> answerF p (Flag False))"

definition facade_discard :: "'w facade_env \<Rightarrow> nat \<Rightarrow> call_args \<Rightarrow> ('w, unit) in_facade" where
  "facade_discard fw p a = withS (\<lambda>d. if guarded d then answerF p (Flag False)
     else seq (ctxF fw (beginReview In_Navigation None)) (\<lambda>begun. case begun of
       None \<Rightarrow> answerF p (Flag False)
     | Some r \<Rightarrow> withS (\<lambda>d.
         if fa_disposed d \<or> \<not> hostEpochCurrent (host_of (r_draft r)) (d_ctx d) then next_act (give_up_review fw r) (answerF p (Flag False))
         else next_act (upd (\<lambda>d. d\<lparr>fa_discard := Some r\<rparr>)) (submitDiscard fw p r a))))"

definition discard_answered :: "'w facade_env \<Rightarrow> nat \<Rightarrow> review \<Rightarrow> jv outcome \<Rightarrow> call_args \<Rightarrow> ('w, unit) in_facade" where
  "discard_answered fw p r outcome a = withS (\<lambda>d. if fa_disposed d \<or> fa_discard d \<noteq> Some r then answerF p (Flag False)
     else seq (case outcome of
         Returned v _ \<Rightarrow> if hostEpochCurrent (host_of (r_draft r)) (d_ctx d) then storeF fw (observeDiscard v) else ret False
       | _ \<Rightarrow> ret True) (\<lambda>observed.
       seq (ctxF fw (finishDiscard r (if observed then outcome else abandoned))) (\<lambda>discarded.
       next_act (upd (\<lambda>d. d\<lparr>fa_discard := None, fa_transition := Screen_Idle\<rparr>))
       (next_act (sayF fw (if discarded then ''Changes discarded.'' else ''Discard was not confirmed. Changes retained.'') (\<not> discarded))
         (if discarded \<and> in_place r then
            withS (\<lambda>d. let q = fa_fresh d in
              next_act (upd (\<lambda>d. d\<lparr>fa_fresh := Suc (fa_fresh d)\<rparr>))
              (next_act (promising q (reloadBaseline fw q a)) (awaitF p (Discarded_Wait q) (Of_Promise q))))
          else answerF p (Flag discarded))))))"

definition discard_ended :: "nat \<Rightarrow> nat \<Rightarrow> ('w, unit) in_facade" where
  "discard_ended p q = withS (\<lambda>d. case map_of (fa_results d) q of
       Some (Thrown_Out e) \<Rightarrow> answerF p (Thrown_Out e)
     | _ \<Rightarrow> answerF p (Flag True))"

section \<open>Disposal\<close>

text \<open>The end of the facade's life aborts every call that it still awaits.\<close>

definition abandon_all :: "(nat \<times> nat \<times> facade_wait \<times> facade_source) list \<Rightarrow> client \<Rightarrow> client" where
  "abandon_all ws = fold (\<lambda>(_, _, _, src). case src of Of_Call n \<Rightarrow> abandon_unsettled n | Of_Session n \<Rightarrow> abandon_unsettled n | _ \<Rightarrow> (\<lambda>c. c)) ws"

definition dispose_save :: "'w facade_env \<Rightarrow> ('w, unit) in_facade" where
  "dispose_save fw = withS (\<lambda>d. case fa_attempt d of
       None \<Rightarrow> ret ()
     | Some n \<Rightarrow>
         (case save_of d n of
            None \<Rightarrow> ret ()
          | Some x \<Rightarrow>
              next_act (if sa_provedUnsent x then seq (releaseSaveReplay n True) (\<lambda>_. ret ()) else ret ())
              (next_act (give_up_save fw (sa_review x) abandoned)
                (seq (ctxF fw (abandonBaselineReservation (sa_review x))) (\<lambda>_. ret ())))))"

definition dispose_discard :: "'w facade_env \<Rightarrow> ('w, unit) in_facade" where
  "dispose_discard fw = withS (\<lambda>d. case fa_discard d of
       None \<Rightarrow> ret ()
     | Some r \<Rightarrow> seq (ctxF fw (finishDiscard r abandoned)) (\<lambda>_.
         seq (ctxF fw (abandonBaselineReservation r)) (\<lambda>_. ret ())))"

definition facade_dispose :: "'w facade_env \<Rightarrow> ('w, unit) in_facade" where
  "facade_dispose fw = withS (\<lambda>d. if fa_disposed d then ret ()
     else next_act (upd (\<lambda>d. d\<lparr>fa_disposed := True\<rparr>))
       (next_act (clientU (abandon_all (fa_waits d)))
       (next_act review_dispose
       (next_act (dispose_save fw)
       (next_act (dispose_discard fw)
       (next_act (withS (\<lambda>d. case fa_reopening d of None \<Rightarrow> ret () | Some t \<Rightarrow> give_up_reopen fw t))
       (next_act (upd (\<lambda>d. d\<lparr>fa_reopening := None, fa_attempt := None\<rparr>))
         (session_dispose (hears fw)))))))))"

section \<open>When an outcome is there\<close>

definition facade_outcome :: "facade_source \<Rightarrow> 'w facade_scheme \<Rightarrow> jv outcome option" where
  "facade_outcome src d = (case src of
       Of_Call n \<Rightarrow> map_of (c_outcomes (d_client d)) n
     | Of_Session n \<Rightarrow> map_of (se_results d) n
     | Of_Start _ \<Rightarrow> None
     | Of_Promise q \<Rightarrow> map_option (\<lambda>_. abandoned) (map_of (fa_results d) q)
     | Settled r \<Rightarrow> Some r)"

fun goes_on :: "'w facade_env \<Rightarrow> nat \<Rightarrow> jv outcome \<Rightarrow> call_args \<Rightarrow> facade_wait \<Rightarrow> ('w, unit) in_facade" where
  "goes_on fw p r a (Connect_Wait draft onlyChanged) = facade_connected fw p draft onlyChanged r a"
| "goes_on fw p r a (Draft_Wait_For k answer) = reconcileDraft fw p k answer r"
| "goes_on fw p r a (Protected_Wait b input fieldId) = protected_captured fw p b input fieldId r"
| "goes_on fw p r a Open_Wait = draft_opened fw p r"
| "goes_on fw p r a (Sync_Wait n review) = save_synchronized fw p n review r a"
| "goes_on fw p r a (Plan_Wait n review) = save_prepared fw p n review r"
| "goes_on fw p r a (Save_Wait n again) = save_answered fw p n again r"
| "goes_on fw p r a (Completion_Starts n c) = completion_starts fw p n c a"
| "goes_on fw p r a (Completion_Wait n c) = completion_read fw n c r"
| "goes_on fw p r a (Operation_Wait n i) = save_reconciled fw p n i r"
| "goes_on fw p r a (Discard_Wait review) = discard_answered fw p review r a"
| "goes_on fw p r a (Discarded_Wait q) = discard_ended p q"
| "goes_on fw p r a (Configuration_Wait t) = configuration_read fw p t r a"
| "goes_on fw p r a (Reopen_Wait t) = draft_reopened fw p t r"

definition facade_settle :: "'w facade_env \<Rightarrow> nat \<Rightarrow> call_args \<Rightarrow> ('w, unit) in_facade" where
  "facade_settle fw k a = withS (\<lambda>d. case map_of (fa_waits d) k of
       None \<Rightarrow> ret ()
     | Some (p, wait, src) \<Rightarrow>
         (case facade_outcome src d of
            None \<Rightarrow> ret ()
          | Some r \<Rightarrow>
              next_act (upd (\<lambda>d. d\<lparr>fa_waits := AList.delete k (fa_waits d)\<rparr>)) (promising p (goes_on fw p r a wait))))"

text \<open>The return of the adapter that a start waits for; the start's promise is from then on that of the snapshot.\<close>

definition facade_adapter :: "'w facade_env \<Rightarrow> call_args \<Rightarrow> nat \<Rightarrow> thrown option \<Rightarrow> ('w, unit) in_facade" where
  "facade_adapter fw a s raised = withS (\<lambda>d.
     seq (session_adapter (session_of fw) (hears fw) (observingF a d) s raised) (\<lambda>pr. case pr of
       Suspended \<Rightarrow> ret ()
     | _ \<Rightarrow> upd (\<lambda>d. d\<lparr>fa_waits := map (\<lambda>(k, p, wait, src). (k, p, wait, if src = Of_Start s then source_of pr d else src)) (fa_waits d)\<rparr>)))"

section \<open>Steps\<close>

text \<open>The promise of a method is numbered when the method is called.\<close>

definition numbered :: "(nat \<Rightarrow> ('w, unit) in_facade) \<Rightarrow> ('w, unit) in_facade" where
  "numbered m = withS (\<lambda>d. next_act (upd (\<lambda>d. d\<lparr>fa_fresh := Suc (fa_fresh d)\<rparr>)) (promising (fa_fresh d) (m (fa_fresh d))))"

datatype facade_move =
    Facade_Connect call_args
  | Facade_Refresh call_args bool
  | Facade_Adapter call_args nat "thrown option"
  | Facade_Navigate workspace_view "ustr option"
  | Facade_Target jv "ustr option"
  | Facade_Close "ustr option"
  | Facade_Stage "jv list"
  | Facade_Protected jv call_args
  | Facade_Capture_Public jv
  | Facade_Set_Public input_binding ustr
  | Facade_Stage_Public input_binding ustr "jv list"
  | Facade_Reset_Public input_binding ustr
  | Facade_Stay
  | Facade_Open jv call_args
  | Facade_Prepare_Save review_kind "ustr option" call_args
  | Facade_Commit_Save "jv res" call_args
  | Facade_Replay_Save call_args
  | Facade_Reconcile_Save call_args
  | Facade_Prepare_Discard "ustr option"
  | Facade_Confirm_Discard call_args
  | Facade_Discard call_args
  | Facade_Reload call_args
  | Facade_Settle nat call_args
  | Facade_Dispose
  | Facade_Actions review_move
  | Facade_Session nat
  | Facade_Client step

fun facade_step :: "'w facade_env \<Rightarrow> world \<Rightarrow> facade_move \<Rightarrow> 'w facade_scheme \<Rightarrow> 'w facade_scheme" where
  "facade_step fw w (Facade_Connect a) d = snd (numbered (\<lambda>p. facade_connect fw p a) d)"
| "facade_step fw w (Facade_Refresh a background) d = snd (numbered (\<lambda>p. facade_refresh fw p a background) d)"
| "facade_step fw w (Facade_Adapter a s raised) d = snd (facade_adapter fw a s raised d)"
| "facade_step fw w (Facade_Navigate v focus) d = snd (facade_navigate fw v focus d)"
| "facade_step fw w (Facade_Target target focus) d = snd (facade_requestTarget fw target focus d)"
| "facade_step fw w (Facade_Close focus) d = snd (facade_requestClose fw focus d)"
| "facade_step fw w (Facade_Stage edits) d = snd (facade_stage fw edits d)"
| "facade_step fw w (Facade_Protected fieldId a) d = snd (numbered (\<lambda>p. captureProtected fw p fieldId a) d)"
| "facade_step fw w (Facade_Capture_Public fieldId) d = snd (facade_capturePublicInput fw fieldId d)"
| "facade_step fw w (Facade_Set_Public b txt) d = snd (facade_setPublicInput fw b txt d)"
| "facade_step fw w (Facade_Stage_Public b txt edits) d = snd (facade_stagePublicInput fw b txt edits d)"
| "facade_step fw w (Facade_Reset_Public b txt) d = snd (facade_resetPublicInput fw b txt d)"
| "facade_step fw w Facade_Stay d = snd (facade_stay fw d)"
| "facade_step fw w (Facade_Open document a) d = snd (numbered (\<lambda>p. facade_openDraft fw p document a) d)"
| "facade_step fw w (Facade_Prepare_Save purpose focus a) d = snd (numbered (\<lambda>p. prepareSaveFor fw p purpose focus a) d)"
| "facade_step fw w (Facade_Commit_Save key a) d = snd (numbered (\<lambda>p. commitSave fw p key a) d)"
| "facade_step fw w (Facade_Replay_Save a) d = snd (numbered (\<lambda>p. replaySave fw p a) d)"
| "facade_step fw w (Facade_Reconcile_Save a) d = snd (numbered (\<lambda>p. reconcileSave fw p a) d)"
| "facade_step fw w (Facade_Prepare_Discard focus) d = snd (prepareDiscardInPlace fw focus d)"
| "facade_step fw w (Facade_Confirm_Discard a) d = snd (numbered (\<lambda>p. confirmDiscard fw p a) d)"
| "facade_step fw w (Facade_Discard a) d = snd (numbered (\<lambda>p. facade_discard fw p a) d)"
| "facade_step fw w (Facade_Reload a) d = snd (numbered (\<lambda>p. reloadBaseline fw p a) d)"
| "facade_step fw w (Facade_Settle k a) d = snd (facade_settle fw k a d)"
| "facade_step fw w Facade_Dispose d = snd (facade_dispose fw d)"
| "facade_step fw w (Facade_Actions m) d = review_step (facade_review fw) m d"
| "facade_step fw w (Facade_Session n) d = snd (session_settle (session_of fw) (hears fw) n d)"
| "facade_step fw w (Facade_Client k) d =
     (if started_by_session d k then d else snd (delivering (session_of fw) (hears fw) (client_step (fw_options fw) w k) d))"

end
