(* ===== verification/Review_Beneath.thy ===== *)
theory Review_Beneath imports Action_Review Js_Kept begin

text \<open>
  What lies beneath an object that extends the reviewer's state: whatever speaks only of the object's own fields is kept by every
  method of the reviewer and of the session, if the listeners keep it. The object interprets the locale once.
\<close>

lemma keeps_bool': "(b \<Longrightarrow> keeps ok le m) \<Longrightarrow> (\<not> b \<Longrightarrow> keeps ok le n) \<Longrightarrow> keeps ok le (case b of True \<Rightarrow> m | False \<Rightarrow> n)"
  by (cases b) simp_all

lemma keeps_transition':
  "(\<And>p. keeps ok le (f p)) \<Longrightarrow> keeps ok le m
    \<Longrightarrow> keeps ok le (case v of Idle \<Rightarrow> m | Preparing \<Rightarrow> m | Admitting \<Rightarrow> m | Uncertain \<Rightarrow> m | Reviewing p \<Rightarrow> f p | Observing i \<Rightarrow> m)"
  by (cases v) simp_all

lemma keeps_outcome':
  "(\<And>v m. keeps ok le (f v m)) \<Longrightarrow> (\<And>e m. keeps ok le (g e m)) \<Longrightarrow> (\<And>x. keeps ok le (h x))
    \<Longrightarrow> keeps ok le (case r of Returned v m \<Rightarrow> f v m | Rejected e m \<Rightarrow> g e m | Faulted x \<Rightarrow> h x)"
  by (cases r) simp_all

lemma keeps_promised:
  "(\<And>r. keeps ok le (f r)) \<Longrightarrow> (\<And>n. keeps ok le (g n)) \<Longrightarrow> keeps ok le h
    \<Longrightarrow> keeps ok le (case v of Resolved r \<Rightarrow> f r | Promised n \<Rightarrow> g n | Suspended \<Rightarrow> h)"
  by (cases v) simp_all

lemma keeps_wait:
  "(\<And>g. keeps ok le (f g)) \<Longrightarrow> keeps ok le h \<Longrightarrow> (\<And>g. keeps ok le (i g)) \<Longrightarrow> (\<And>g x y. keeps ok le (j g x y))
    \<Longrightarrow> keeps ok le (case v of Snapshot_Wait g \<Rightarrow> f g | Snapshot_Ends \<Rightarrow> h | Draft_Wait g \<Rightarrow> i g | Resume_Wait g x y \<Rightarrow> j g x y)"
  by (cases v) simp_all

text \<open>The listeners keep it.\<close>

definition listens :: "('w reviewer_scheme \<Rightarrow> bool) \<Rightarrow> ('w reviewer_scheme \<Rightarrow> 'w reviewer_scheme \<Rightarrow> bool) \<Rightarrow> 'w review_env \<Rightarrow> bool" where
  "listens ok le rw \<longleftrightarrow> (\<forall>v d. ok d \<longrightarrow> ok (rw_tell rw v d) \<and> le d (rw_tell rw v d))
     \<and> (\<forall>v d. ok d \<longrightarrow> ok (rw_hear rw v d) \<and> le d (rw_hear rw v d)) \<and> (\<forall>d. ok d \<longrightarrow> ok (rw_work rw d) \<and> le d (rw_work rw d))"

locale beneath = keeping ok le for ok :: "'w reviewer_scheme \<Rightarrow> bool" and le +
  assumes beneath_more: "ok d \<Longrightarrow> reviewer.more e = reviewer.more d \<Longrightarrow> ok e \<and> le d e"
begin

abbreviation kept :: "('w, 'a) in_review \<Rightarrow> bool" where
  "kept m \<equiv> keeps ok le m"

lemma kept_upd: "(\<And>d. reviewer.more (g d) = reviewer.more d) \<Longrightarrow> kept (upd g)"
  by (rule keeps_upd) (rule beneath_more)

lemma kept_set_attempt: "kept (set_attempt n f)"
  unfolding set_attempt_def by (rule kept_upd) (simp split: option.split)

lemma kept_client: "kept (clientU k)"
  unfolding clientU_def by (rule kept_upd) simp

lemma kept_clientB: "kept (clientB f)"
  unfolding keeps_def wp_def clientB_def using beneath_more by (auto split: prod.split)

lemma kept_callS: "kept (callS opt valid k m input a)"
  unfolding callS_def
  by (rule keeps_withS) (auto split: prod.split call_result.split intro!: keeps_seq keeps_ret keeps_ask kept_upd)

lemma kept_publishV: "listens ok le rw \<Longrightarrow> kept (publishV rw)"
  unfolding publishV_def
proof (intro keeps_withS keeps_if keeps_ret keeps_upd)
  assume rw: "listens ok le rw"
  fix d :: "'w reviewer_scheme" assume d: "ok d"
  let ?e = "d\<lparr>rv_publication := Suc (rv_publication d)\<rparr>"
  have "ok ?e \<and> le d ?e" by (rule beneath_more [OF d]) simp
  then show "ok (let e = ?e in rw_tell rw (review_state e) e) \<and> le d (let e = ?e in rw_tell rw (review_state e) e)"
    using rw le_trans unfolding Let_def listens_def by blast
qed

lemma kept_await: "kept (await k src)"
  unfolding await_def by (rule kept_upd) simp

lemma kept_announceV: "kept (announceV message urgent)"
  unfolding announceV_def by (rule kept_upd) simp

lemma kept_sayV: "listens ok le rw \<Longrightarrow> kept (sayV rw message urgent)"
  unfolding sayV_def by (intro keeps_seq kept_publishV kept_announceV kept_upd) simp_all

lemma kept_command_then: "listens ok le rw \<Longrightarrow> kept (command_then rw k name input a wait)"
  unfolding command_then_def by (intro keeps_withS keeps_seq kept_callS kept_await)

lemmas kept_rules = keeps_forms keeps_bool' keeps_outcome' keeps_transition' keeps_promised keeps_wait kept_set_attempt kept_client kept_clientB kept_callS
  kept_publishV kept_await kept_announceV kept_sayV kept_command_then

lemma kept_releaseOwnedReplay: "kept (releaseOwnedReplay n unsent)"
  unfolding releaseOwnedReplay_def Let_def by (intro kept_rules)

lemma kept_settleRecovery: "kept (settleRecovery held)"
  unfolding settleRecovery_def by (intro kept_rules kept_releaseOwnedReplay kept_upd) simp_all

lemma kept_settleRecoveries: "kept (settleRecoveries hs b)"
  by (induction hs arbitrary: b) (auto intro!: kept_rules kept_settleRecovery)

lemma kept_followOperation: "listens ok le rw \<Longrightarrow> kept (followOperation rw)"
  unfolding followOperation_def Let_def by (intro kept_rules kept_releaseOwnedReplay kept_upd) simp_all

lemma kept_reconcileObserved: "listens ok le rw \<Longrightarrow> kept (reconcileObserved rw)"
  unfolding reconcileObserved_def by (intro kept_rules kept_settleRecoveries kept_followOperation)

lemma hears_kept:
  assumes "listens ok le rw" "ok d"
  shows "ok (review_hears rw v d) \<and> le d (review_hears rw v d)"
proof -
  let ?c = "rw_work rw d"
  have c: "ok ?c \<and> le d ?c" using assms by (simp add: listens_def)
  let ?e = "if rv_disposed ?c then ?c else snd (reconcileObserved rw ?c)"
  have "ok ?e \<and> le ?c ?e" using keeps_snd [OF kept_reconcileObserved [OF assms(1)], of ?c] c le_refl [of ?c] by simp
  then have e: "ok ?e \<and> le d ?e" using c le_trans by blast
  then have "ok (rw_hear rw v ?e) \<and> le ?e (rw_hear rw v ?e)" using assms(1) by (simp add: listens_def)
  then show ?thesis unfolding review_hears_def Let_def using e le_trans by blast
qed

lemma heard_kept: "listens ok le rw \<Longrightarrow> ok d \<Longrightarrow> ok (fold (heard_by (review_hears rw)) news d) \<and> le d (fold (heard_by (review_hears rw)) news d)"
proof (induction news arbitrary: d)
  case (Cons v news)
  let ?c = "d\<lparr>d_ctx := snd (onObservation v (d_ctx d))\<rparr>"
  have c: "ok ?c \<and> le d ?c" by (rule beneath_more [OF Cons.prems(2)]) simp
  then have "ok (heard_by (review_hears rw) v d) \<and> le d (heard_by (review_hears rw) v d)"
    unfolding heard_by_def using hears_kept [OF Cons.prems(1), of ?c v] le_trans by blast
  then show ?case using Cons.IH [OF Cons.prems(1), of "heard_by (review_hears rw) v d"] le_trans by auto
qed (simp add: le_refl)

lemma kept_storeS: "listens ok le rw \<Longrightarrow> kept (storeS (review_hears rw) f)"
  unfolding storeS_def
proof (rule keeps_at)
  assume rw: "listens ok le rw"
  fix d :: "'w reviewer_scheme" assume d: "ok d"
  obtain st b where f: "f (d_store d) = (st, b)" by (cases "f (d_store d)")
  let ?d = "d\<lparr>d_ctx := (d_ctx d)\<lparr>w_store := st\<rparr>\<rparr>"
  have "ok ?d \<and> le d ?d" by (rule beneath_more [OF d]) simp
  then have "ok (fold (heard_by (review_hears rw)) news ?d) \<and> le d (fold (heard_by (review_hears rw)) news ?d)" for news
    using heard_kept [OF rw, of ?d news] le_trans by blast
  then show "wp (let (st, ok) = f (d_store d); news = drop (length (published (d_store d))) (published st)
      in next_act (upd (\<lambda>d. fold (heard_by (review_hears rw)) news (d\<lparr>d_ctx := (d_ctx d)\<lparr>w_store := st\<rparr>\<rparr>))) (ret ok)) (\<lambda>_ e. ok e \<and> le d e) d"
    by (simp add: f Let_def wp_rules)
qed

lemma kept_ctxS: "kept (ctxS m)"
  unfolding keeps_def wp_def ctxS_def using beneath_more by (auto split: prod.split)

text \<open>The methods of the reviewer.\<close>

lemma kept_prepare_asks: "listens ok le rw \<Longrightarrow> kept (prepare_asks rw n captured epoch a)"
  unfolding prepare_asks_def by (intro kept_rules kept_upd) simp_all

lemma kept_review_prepare: "listens ok le rw \<Longrightarrow> kept (review_prepare rw intent focusKey a)"
  unfolding review_prepare_def Let_def by (intro kept_rules kept_prepare_asks kept_upd) simp_all

lemma kept_prepared: "listens ok le rw \<Longrightarrow> kept (prepared rw n r)"
  unfolding prepared_def Let_def by (intro kept_rules kept_upd) simp_all

lemma kept_superseded: "listens ok le rw \<Longrightarrow> kept (superseded rw)"
  unfolding superseded_def by (intro kept_rules kept_upd) simp_all

lemma kept_submit: "listens ok le rw \<Longrightarrow> kept (submit rw n sent a wait)"
  unfolding submit_def Let_def by (intro kept_rules)

lemma kept_confirm_asks: "listens ok le rw \<Longrightarrow> kept (confirm_asks rw n planHost sent a wait)"
  unfolding confirm_asks_def by (intro kept_rules kept_superseded kept_submit)

lemma kept_confirm_plan: "listens ok le rw \<Longrightarrow> kept (confirm_plan rw n plan key a wait)"
  unfolding confirm_plan_def Let_def by (intro kept_rules kept_superseded kept_confirm_asks kept_upd) simp_all

lemma kept_review_confirm: "listens ok le rw \<Longrightarrow> kept (review_confirm rw key a)"
  unfolding review_confirm_def Let_def by (intro kept_rules kept_releaseOwnedReplay kept_confirm_plan kept_upd) simp_all

lemma kept_review_replay: "listens ok le rw \<Longrightarrow> kept (review_replay rw a)"
  unfolding review_replay_def Let_def by (intro kept_rules kept_upd) simp_all

lemma kept_acceptCommit: "listens ok le rw \<Longrightarrow> kept (acceptCommit rw n r again epoch confidence)"
  unfolding acceptCommit_def owns_answer_def not_submitted_def unconfirmed_def admitted_def Let_def
  by (intro kept_rules kept_storeS kept_reconcileObserved kept_upd) simp_all

lemma kept_review_reconcile: "listens ok le rw \<Longrightarrow> kept (review_reconcile rw a)"
  unfolding review_reconcile_def by (intro kept_rules)

lemma kept_reconciled: "listens ok le rw \<Longrightarrow> kept (reconciled rw n i epoch confidence r)"
  unfolding reconciled_def Let_def by (intro kept_rules kept_storeS)

lemma kept_prepareRecovery: "listens ok le rw \<Longrightarrow> kept (prepareRecovery rw operation focusKey a)"
  unfolding prepareRecovery_def by (intro kept_rules kept_review_prepare)

lemma kept_cancelOperation: "listens ok le rw \<Longrightarrow> kept (cancelOperation rw operation a)"
  unfolding cancelOperation_def Let_def by (intro kept_rules kept_upd) simp_all

lemma kept_cancelled: "listens ok le rw \<Longrightarrow> kept (cancelled rw captured key epoch r)"
  unfolding cancelled_def Let_def by (intro kept_rules kept_storeS kept_upd) simp_all

lemma kept_review_stay: "listens ok le rw \<Longrightarrow> kept (review_stay rw)"
  unfolding review_stay_def by (intro kept_rules kept_releaseOwnedReplay kept_upd) simp_all

lemma kept_review_dispose: "kept review_dispose"
  unfolding review_dispose_def by (intro kept_rules kept_releaseOwnedReplay kept_upd) simp_all

lemma kept_review_settle: "listens ok le rw \<Longrightarrow> kept (review_settle rw k)"
  unfolding review_settle_def
  by (rule keeps_withS) (auto split: option.split prod.split review_wait.split
    intro!: kept_rules kept_prepared kept_acceptCommit kept_reconciled kept_cancelled kept_upd)

lemma kept_snd: "kept m \<Longrightarrow> ok d \<Longrightarrow> ok (snd (m d))" "kept m \<Longrightarrow> ok d \<Longrightarrow> le d (snd (m d))"
  using keeps_snd [of ok le m d] by simp_all

lemmas kept_moves = kept_review_prepare kept_review_confirm kept_review_replay kept_review_reconcile kept_prepareRecovery
  kept_cancelOperation kept_review_stay kept_review_settle kept_review_dispose kept_storeS kept_client

lemma kept_review_step: "listens ok le rw \<Longrightarrow> ok d \<Longrightarrow> ok (review_step rw move d) \<and> le d (review_step rw move d)"
  by (cases move) (simp_all add: kept_snd kept_moves)

text \<open>The methods of the session.\<close>

lemma kept_stop_session: "kept stop_session"
  unfolding stop_session_def by (intro kept_rules kept_upd) simp_all

lemma kept_storeU: "listens ok le rw \<Longrightarrow> kept (storeU (review_hears rw) f)"
  by (intro kept_rules kept_storeS)

lemma kept_deliveryFault: "listens ok le rw \<Longrightarrow> kept (deliveryFault (review_hears rw) code)"
  unfolding deliveryFault_def by (intro keeps_seq kept_stop_session kept_storeU kept_upd) simp_all

lemma kept_requestSnapshot: "listens ok le rw \<Longrightarrow> kept (requestSnapshot sw (review_hears rw) a buffered)"
  unfolding requestSnapshot_def by (intro kept_rules kept_storeS kept_upd) simp_all

lemma kept_onEvent: "listens ok le rw \<Longrightarrow> kept (onEvent sw (review_hears rw) s event)"
  unfolding onEvent_def by (intro kept_rules kept_storeS)

lemma kept_onFault: "listens ok le rw \<Longrightarrow> kept (onFault (review_hears rw) s f)"
  unfolding onFault_def by (intro kept_rules kept_deliveryFault kept_upd) simp_all

lemma kept_in_turn: "(\<And>x. kept (f x)) \<Longrightarrow> kept (in_turn f xs)"
  by (induction xs) (auto intro: keeps_ret keeps_seq)

lemma kept_delivering: "listens ok le rw \<Longrightarrow> kept (delivering sw (review_hears rw) f)"
  unfolding delivering_def Let_def by (intro kept_rules kept_in_turn kept_onEvent kept_onFault)

lemma kept_session_refresh: "listens ok le rw \<Longrightarrow> kept (session_refresh sw (review_hears rw) a)"
  unfolding session_refresh_def by (rule kept_requestSnapshot)

lemma kept_session_subscribed: "listens ok le rw \<Longrightarrow> kept (session_subscribed sw (review_hears rw) a s)"
  unfolding session_subscribed_def by (intro kept_rules kept_requestSnapshot kept_upd) simp_all

lemma kept_session_start: "listens ok le rw \<Longrightarrow> kept (session_start sw (review_hears rw) a)"
  unfolding session_start_def Let_def
  by (intro kept_rules kept_storeS kept_session_refresh kept_delivering kept_session_subscribed kept_upd) simp_all

lemma kept_session_adapter: "listens ok le rw \<Longrightarrow> kept (session_adapter sw (review_hears rw) a s raised)"
  unfolding session_adapter_def by (intro kept_rules kept_delivering kept_session_subscribed)

lemma kept_readDraft: "kept (readDraft sw input a)"
  unfolding readDraft_def Let_def by (intro kept_rules kept_upd) simp_all

lemma kept_resolve: "kept (resolve n r)"
  unfolding resolve_def by (rule kept_upd) simp

lemma kept_session_settle: "listens ok le rw \<Longrightarrow> kept (session_settle sw (review_hears rw) n)"
  unfolding session_settle_def snapshot_arrives_def events_arrive_def
  by (intro kept_rules kept_storeS kept_deliveryFault kept_resolve kept_upd) simp_all

lemma kept_session_dispose: "listens ok le rw \<Longrightarrow> kept (session_dispose (review_hears rw))"
  unfolding session_dispose_def by (intro keeps_seq kept_stop_session kept_storeU kept_upd) simp_all

end

end
