(* ===== verification/Facade_Kept.thy ===== *)
theory Facade_Kept imports Facade_Saves Review_Beneath begin

text \<open>
  What every step of the facade keeps: the plan of a save captures the edits of the review for which it was prepared, the submission
  names that plan, what is shown for review is the plan of the attempt at hand, and once disposed the facade tells nobody anything.
\<close>

section \<open>Invariant and order\<close>

definition save_ok :: "save_attempt \<Rightarrow> bool" where
  "save_ok x \<longleftrightarrow> (\<forall>plan. sa_plan x = Some plan \<longrightarrow> is_kind (path plan [''semantics'', ''capture'']) ''save_configuration''
       \<and> same_data (path plan [''semantics'', ''capture'', ''input'', ''draft'', ''edits'']) (JArr (r_edits (sa_review x))) = Inr True)
     \<and> (\<forall>sent. sa_commit x = Some sent \<longrightarrow> (\<exists>plan. sa_plan x = Some plan \<and> fld sent ''planRef'' = fld plan ''planRef''))"

text \<open>The synchronizations and preparations of an attempt that are on their way.\<close>

definition prepares_for :: "nat \<Rightarrow> nat \<times> nat \<times> facade_wait \<times> facade_source \<Rightarrow> bool" where
  "prepares_for n w = (case fst (snd (snd w)) of Sync_Wait m _ \<Rightarrow> m = n | Plan_Wait m _ \<Rightarrow> m = n | _ \<Rightarrow> False)"

definition preparing :: "'w facade_scheme \<Rightarrow> nat \<Rightarrow> nat" where
  "preparing d n = length (filter (prepares_for n) (fa_waits d))"

definition planned :: "'w facade_scheme \<Rightarrow> nat \<Rightarrow> review \<Rightarrow> bool" where
  "planned d n u \<longleftrightarrow> (\<exists>w \<in> set (fa_waits d). fst (snd (snd w)) = Plan_Wait n u)"

definition facade_ok :: "'w facade_scheme \<Rightarrow> bool" where
  "facade_ok d \<longleftrightarrow> (\<forall>n x. save_of d n = Some x \<longrightarrow> n < fa_fresh d \<and> save_ok x \<and> preparing d n \<le> 1 \<and> (sa_plan x \<noteq> None \<longrightarrow> preparing d n = 0))
     \<and> (\<forall>n. save_of d n = None \<longrightarrow> preparing d n = 0)
     \<and> (\<forall>n u. planned d n u \<longrightarrow> (\<exists>x. save_of d n = Some x \<and> sa_review x = u))
     \<and> (\<forall>p. fa_transition d = Save_Review p \<longrightarrow> fa_disposed d \<or> (\<exists>n x. fa_attempt d = Some n \<and> save_of d n = Some x \<and> sa_plan x = Some p))"

definition facade_le :: "'w facade_scheme \<Rightarrow> 'w facade_scheme \<Rightarrow> bool" where
  "facade_le d e \<longleftrightarrow> fa_fresh d \<le> fa_fresh e \<and> (fa_disposed d \<longrightarrow> fa_disposed e \<and> fa_publication e = fa_publication d)
     \<and> (\<forall>n x. save_of d n = Some x \<longrightarrow> preparing e n \<le> preparing d n
          \<and> (\<exists>y. save_of e n = Some y \<and> (preparing d n = 0 \<longrightarrow> sa_plan y = sa_plan x \<and> sa_review y = sa_review x)))"

lemma facade_le_trans:
  assumes "facade_le a b" "facade_le b c"
  shows "facade_le a c"
proof -
  have "preparing c n \<le> preparing a n \<and> (\<exists>z. save_of c n = Some z \<and> (preparing a n = 0 \<longrightarrow> sa_plan z = sa_plan x \<and> sa_review z = sa_review x))"
    if x: "save_of a n = Some x" for n x
  proof -
    obtain y where y: "save_of b n = Some y" "preparing a n = 0 \<longrightarrow> sa_plan y = sa_plan x \<and> sa_review y = sa_review x" "preparing b n \<le> preparing a n"
      using assms(1) x unfolding facade_le_def by blast
    obtain z where "save_of c n = Some z" "preparing b n = 0 \<longrightarrow> sa_plan z = sa_plan y \<and> sa_review z = sa_review y" "preparing c n \<le> preparing b n"
      using assms(2) y(1) unfolding facade_le_def by blast
    then show ?thesis using y by auto
  qed
  then show ?thesis using assms unfolding facade_le_def by auto
qed

text \<open>Both speak of the facade's own fields only.\<close>

lemma facade_same:
  assumes "facade_ok d" "fa_attempts e = fa_attempts d" "fa_waits e = fa_waits d" "fa_fresh e = fa_fresh d" "fa_transition e = fa_transition d"
    "fa_attempt e = fa_attempt d" "fa_disposed e = fa_disposed d" "fa_publication e = fa_publication d"
  shows "facade_ok e \<and> facade_le d e"
proof -
  have "preparing e = preparing d" "planned e = planned d" "save_of e = save_of d"
    using assms(2,3) by (simp_all add: preparing_def planned_def save_of_def fun_eq_iff)
  then show ?thesis using assms by (simp add: facade_ok_def facade_le_def)
qed

lemma facade_more:
  fixes d :: "'w facade_scheme"
  assumes "facade_ok d" "reviewer.more e = reviewer.more d"
  shows "facade_ok e \<and> facade_le d e"
proof -
  have "fa_attempts e = fa_attempts d" "fa_waits e = fa_waits d" "fa_fresh e = fa_fresh d" "fa_transition e = fa_transition d"
    "fa_attempt e = fa_attempt d" "fa_disposed e = fa_disposed d" "fa_publication e = fa_publication d"
    using assms(2) by (cases d; cases e; simp)+
  then show ?thesis by (rule facade_same [OF assms(1)])
qed

interpretation facade: beneath "facade_ok" facade_le
proof unfold_locales
  show "facade_le d d" for d :: "'w facade_scheme" by (simp add: facade_le_def)
  show "facade_le a c" if "facade_le a b" "facade_le b c" for a b c :: "'w facade_scheme" by (rule facade_le_trans [OF that])
  show "facade_ok e \<and> facade_le d e" if "facade_ok d" "reviewer.more e = reviewer.more d" for d e :: "'w facade_scheme"
    by (rule facade_more [OF that])
qed

abbreviation keeps_facade :: "('w, 'a) in_facade \<Rightarrow> bool" where
  "keeps_facade m \<equiv> keeps facade_ok facade_le m"

text \<open>The screens, which may call back, keep it too.\<close>

definition screens_ok :: "'w facade_env \<Rightarrow> bool" where
  "screens_ok fw \<longleftrightarrow> (\<forall>v d. facade_ok d \<longrightarrow> facade_ok (fw_tell fw v d) \<and> facade_le d (fw_tell fw v d))"

section \<open>Statements\<close>

lemma facade_upd:
  assumes "\<And>d. fa_attempts (g d) = fa_attempts d \<and> fa_waits (g d) = fa_waits d \<and> fa_fresh (g d) = fa_fresh d \<and> fa_transition (g d) = fa_transition d
    \<and> fa_attempt (g d) = fa_attempt d \<and> fa_disposed (g d) = fa_disposed d \<and> fa_publication (g d) = fa_publication d"
  shows "keeps_facade (upd g)"
  by (rule facade.keeps_upd, rule facade_same) (simp_all add: assms)

text \<open>A change of the transition that shows no plan, or gives up the attempt at hand.\<close>

lemma facade_turns:
  assumes "facade_ok d" "fa_attempts e = fa_attempts d" "fa_waits e = fa_waits d" "fa_fresh d \<le> fa_fresh e" "\<And>p. fa_transition e = Save_Review p \<Longrightarrow> fa_disposed e"
    "fa_disposed d \<Longrightarrow> fa_disposed e \<and> fa_publication e = fa_publication d"
  shows "facade_ok e \<and> facade_le d e"
proof -
  have "preparing e = preparing d" "planned e = planned d" "save_of e = save_of d"
    using assms(2,3) by (simp_all add: preparing_def planned_def save_of_def fun_eq_iff)
  then show ?thesis using assms(1,4-6) unfolding facade_ok_def facade_le_def by (auto intro: less_le_trans)
qed

lemma turns_keeps: "(\<And>p. t \<noteq> Save_Review p) \<Longrightarrow> keeps_facade (turns t)"
  by (rule facade.keeps_upd, rule facade_turns) simp_all

lemma drops_save_keeps: "keeps_facade drops_save"
  by (rule facade.keeps_upd, rule facade_turns) simp_all

lemma publishF_keeps:
  fixes fw :: "'w facade_env"
  assumes "screens_ok fw"
  shows "keeps_facade (publishF fw)"
  unfolding publishF_def
proof (rule keeps_at)
  fix d :: "'w facade_scheme" assume d: "facade_ok d"
  let ?tell = "seq (ask facade_state) (\<lambda>v. upd (fw_tell fw v))"
  let ?e = "d\<lparr>fa_publication := Suc (fa_publication d)\<rparr>"
  have tell: "keeps_facade ?tell"
    by (rule facade.keeps_seq [OF facade.keeps_ask], rule facade.keeps_upd) (use assms in \<open>simp add: screens_ok_def\<close>)
  have "wp ?tell (\<lambda>_ f. facade_ok f \<and> facade_le d f) ?e" if "\<not> fa_disposed d"
  proof (rule facade.wp_later [OF tell])
    have "preparing ?e = preparing d" "planned ?e = planned d" "save_of ?e = save_of d"
      by (simp_all add: preparing_def planned_def save_of_def fun_eq_iff)
    then show "facade_ok ?e \<and> facade_le d ?e" using d that by (simp add: facade_ok_def facade_le_def)
  qed
  then show "wp (if fa_disposed d then ret () else next_act (upd (\<lambda>d. d\<lparr>fa_publication := Suc (fa_publication d)\<rparr>)) ?tell)
    (\<lambda>_ f. facade_ok f \<and> facade_le d f) d"
    using d facade.le_refl [of d] by (simp add: wp_after_upd wp_basic)
qed

lemma announceF_keeps: "keeps_facade (announceV message urgent)"
  by (rule facade.kept_announceV)

lemma sayF_keeps: "screens_ok fw \<Longrightarrow> keeps_facade (sayF fw message urgent)"
  unfolding sayF_def by (intro facade.keeps_seq publishF_keeps announceF_keeps facade_upd) simp_all

lemma published_keeps: "screens_ok fw \<Longrightarrow> facade_ok d \<Longrightarrow> facade_ok (snd (publishF fw d)) \<and> facade_le d (snd (publishF fw d))"
  by (rule keeps_snd [OF publishF_keeps])

lemma told_keeps:
  fixes d :: "'w facade_scheme"
  assumes "screens_ok fw" "facade_ok d"
  shows "facade_ok (told fw d) \<and> facade_le d (told fw d)"
proof -
  have "facade_ok (((\<lambda>d. snd (publishF fw d)) ^^ k) e) \<and> facade_le e (((\<lambda>d. snd (publishF fw d)) ^^ k) e)" if "facade_ok e" for k and e :: "'w facade_scheme"
    using that by (induction k) (use published_keeps [OF assms(1)] facade.le_trans facade.le_refl in \<open>auto 4 4\<close>)
  moreover have "facade_ok (d\<lparr>fa_seen := n\<rparr>) \<and> facade_le d (d\<lparr>fa_seen := n\<rparr>)" for n by (rule facade_same [OF assms(2)]) simp_all
  ultimately show ?thesis unfolding told_def Let_def using facade.le_trans by blast
qed

lemma ctxF_keeps:
  fixes fw :: "'w facade_env"
  assumes "screens_ok fw"
  shows "keeps_facade (ctxF fw m)"
  unfolding keeps_def wp_def ctxF_def
proof (intro allI impI)
  fix d :: "'w facade_scheme" assume d: "facade_ok d"
  obtain r e where e: "ctxS m d = (r, e)" by (cases "ctxS m d")
  then have "facade_ok e \<and> facade_le d e" using keeps_snd [OF facade.kept_ctxS d, of m] by simp
  then have "facade_ok (told fw e) \<and> facade_le d (told fw e)" using told_keeps [OF assms] facade.le_trans by blast
  then show "case case ctxS m d of (r, e) \<Rightarrow> (r, told fw e) of (r, e) \<Rightarrow> facade_ok e \<and> facade_le d e" by (simp add: e)
qed

lemma save_of_update: "save_of (d\<lparr>fa_attempts := AList.update n x (fa_attempts d)\<rparr>) m = (if m = n then Some x else save_of d m)"
  by (simp add: save_of_def)

lemma set_save_same:
  fixes d :: "'w facade_scheme"
  assumes "facade_ok d" "save_of d n = Some x" "save_ok y" "sa_plan y = sa_plan x" "sa_review y = sa_review x"
  shows "facade_ok (d\<lparr>fa_attempts := AList.update n y (fa_attempts d)\<rparr>) \<and> facade_le d (d\<lparr>fa_attempts := AList.update n y (fa_attempts d)\<rparr>)"
proof -
  let ?e = "d\<lparr>fa_attempts := AList.update n y (fa_attempts d)\<rparr>"
  have p: "preparing ?e = preparing d" "planned ?e = planned d" by (simp_all add: preparing_def planned_def fun_eq_iff)
  have first: "m < fa_fresh d \<and> save_ok z \<and> preparing d m \<le> 1 \<and> (sa_plan z \<noteq> None \<longrightarrow> preparing d m = 0)" if "save_of ?e m = Some z" for m z
    using that assms by (auto simp: save_of_update facade_ok_def split: if_splits)
  have second: "preparing d m = 0" if "save_of ?e m = None" for m
    using that assms(1) by (auto simp: save_of_update facade_ok_def split: if_splits)
  have third: "\<exists>z. save_of ?e m = Some z \<and> sa_review z = u" if u: "planned d m u" for m u
  proof -
    obtain z where "save_of d m = Some z" "sa_review z = u" using assms(1) u unfolding facade_ok_def by blast
    then show ?thesis using assms(2,5) by (auto simp: save_of_update)
  qed
  have "fa_disposed d \<or> (\<exists>n' z. fa_attempt d = Some n' \<and> save_of ?e n' = Some z \<and> sa_plan z = Some q)"
    if t: "fa_transition d = Save_Review q" for q
  proof (cases "fa_disposed d")
    case False
    then obtain n' z where "fa_attempt d = Some n'" "save_of d n' = Some z" "sa_plan z = Some q" using assms(1) t unfolding facade_ok_def by blast
    then show ?thesis using assms(2,4) by (auto simp: save_of_update)
  qed simp
  with first second third have "facade_ok ?e" unfolding facade_ok_def p by simp
  moreover have "facade_le d ?e" using assms unfolding facade_le_def p by (auto simp: save_of_update)
  ultimately show ?thesis by blast
qed

lemma set_save_keeps:
  assumes "\<And>x. save_ok x \<Longrightarrow> save_ok (f x) \<and> sa_plan (f x) = sa_plan x \<and> sa_review (f x) = sa_review x"
  shows "keeps_facade (set_save n f)"
  unfolding set_save_def
proof (rule facade.keeps_upd)
  fix d :: "'a facade_scheme" assume d: "facade_ok d"
  let ?e = "case save_of d n of None \<Rightarrow> d | Some x \<Rightarrow> d\<lparr>fa_attempts := AList.update n (f x) (fa_attempts d)\<rparr>"
  show "facade_ok ?e \<and> facade_le d ?e"
  proof (cases "save_of d n")
    case (Some x)
    then have "save_ok x" using d by (simp add: facade_ok_def)
    then show ?thesis using set_save_same [OF d Some] assms [of x] by (simp add: Some)
  qed (simp add: d facade.le_refl)
qed

lemma save_custody_keeps:
  "keeps_facade (set_save n (\<lambda>x. x\<lparr>sa_ownsReplay := b\<rparr>))" "keeps_facade (set_save n (\<lambda>x. x\<lparr>sa_provedUnsent := b\<rparr>))"
  "keeps_facade (set_save n (\<lambda>x. x\<lparr>sa_ownsReplay := b, sa_capture := v\<rparr>))" "keeps_facade (set_save n (\<lambda>x. x\<lparr>sa_priorUncertain := b\<rparr>))"
  "keeps_facade (set_save n (\<lambda>x. x\<lparr>sa_capture := v\<rparr>))" "keeps_facade (set_save n (\<lambda>x. x\<lparr>sa_operationId := i, sa_request := m\<rparr>))"
  by (rule set_save_keeps, simp add: save_ok_def)+

text \<open>The waits: fewer preparations on their way, or none more.\<close>

lemma facade_waits:
  fixes d :: "'w facade_scheme"
  assumes "facade_ok d" "fa_attempts e = fa_attempts d" "fa_attempt e = fa_attempt d" "fa_transition e = fa_transition d" "fa_disposed e = fa_disposed d"
    "fa_publication e = fa_publication d" "fa_fresh d \<le> fa_fresh e" "\<And>n. preparing e n \<le> preparing d n" "\<And>n u. planned e n u \<Longrightarrow> planned d n u"
  shows "facade_ok e \<and> facade_le d e"
proof -
  have less: "preparing e n \<le> preparing d n" "preparing d n = 0 \<Longrightarrow> preparing e n = 0" for n using assms(8) [of n] by simp_all
  have s: "save_of e = save_of d" using assms(2) by (simp add: save_of_def fun_eq_iff)
  have "n < fa_fresh e \<and> save_ok x \<and> preparing e n \<le> 1 \<and> (sa_plan x \<noteq> None \<longrightarrow> preparing e n = 0)" if "save_of d n = Some x" for n x
    using assms(1,7) that less [of n] by (fastforce simp: facade_ok_def)
  moreover have "\<exists>x. save_of d n = Some x \<and> sa_review x = u" if "planned e n u" for n u
    using assms(1) assms(9) [OF that] by (simp add: facade_ok_def)
  ultimately have "facade_ok e" using assms(1,3-5) less(2) unfolding facade_ok_def s by simp
  moreover have "facade_le d e" using assms(5-7) less(1) unfolding facade_le_def s by simp
  ultimately show ?thesis by blast
qed

definition other_wait :: "facade_wait \<Rightarrow> bool" where
  "other_wait wait = (case wait of Sync_Wait _ _ \<Rightarrow> False | Plan_Wait _ _ \<Rightarrow> False | _ \<Rightarrow> True)"

lemma other_waits [simp]:
  "other_wait (Connect_Wait draft b)" "other_wait (Draft_Wait_For k r)" "other_wait (Protected_Wait bb i f)" "other_wait Open_Wait"
  "other_wait (Save_Wait n again)" "other_wait (Completion_Starts n c)" "other_wait (Completion_Wait n c)" "other_wait (Operation_Wait n i')"
  "other_wait (Discard_Wait rr)" "other_wait (Discarded_Wait q)" "other_wait (Configuration_Wait t)" "other_wait (Reopen_Wait t)"
  by (simp_all add: other_wait_def)

lemma awaitF_keeps: "other_wait wait \<Longrightarrow> keeps_facade (awaitF p wait src)"
  unfolding awaitF_def
  by (rule facade.keeps_upd, rule facade_waits) (auto simp: preparing_def planned_def prepares_for_def other_wait_def split: facade_wait.splits)

lemma callF_keeps: "other_wait wait \<Longrightarrow> keeps_facade (callF fw p k name input a wait)"
  unfolding callF_def by (intro keeps_withS facade.keeps_seq facade.kept_callS awaitF_keeps)

lemma answerF_keeps: "keeps_facade (answerF p x)"
  unfolding answerF_def by (rule facade_upd) simp

lemma says_then_keeps: "screens_ok fw \<Longrightarrow> keeps_facade (says_then fw message urgent p x)"
  unfolding says_then_def by (intro facade.keeps_seq sayF_keeps answerF_keeps)

lemma promising_keeps:
  assumes "keeps_facade m"
  shows "keeps_facade (promising p m)"
  unfolding keeps_def
proof (intro allI impI)
  fix d :: "'a facade_scheme" assume d: "facade_ok d"
  obtain r e where e: "m d = (r, e)" by (cases "m d")
  then have k: "facade_ok e \<and> facade_le d e" using keeps_snd [OF assms d] by simp
  then have "facade_ok (snd (answerF p x e)) \<and> facade_le d (snd (answerF p x e))" for x
    using keeps_snd [OF answerF_keeps [of p x], of e] facade.le_trans by blast
  with k show "wp (promising p m) (\<lambda>_ f. facade_ok f \<and> facade_le d f) d"
    by (cases r) (simp_all add: promising_def wp_def e case_prod_beta)
qed

lemma keeps_purpose: "(\<And>s t. keeps ok le (f s t)) \<Longrightarrow> (\<And>n. keeps ok le (g n)) \<Longrightarrow> keeps ok le (case v of At_Place s t \<Rightarrow> f s t | For_Navigation n \<Rightarrow> g n)"
  by (cases v) simp_all

lemmas facade_rules = facade.keeps_forms keeps_bool' keeps_outcome' keeps_promised publishF_keeps sayF_keeps says_then_keeps answerF_keeps ctxF_keeps
  awaitF_keeps callF_keeps save_custody_keeps drops_save_keeps turns_keeps promising_keeps facade.kept_client facade.kept_clientB facade.kept_callS

section \<open>Beneath the store's listeners\<close>

lemma releaseSaveReplay_keeps: "keeps_facade (releaseSaveReplay n unsent)"
  unfolding releaseSaveReplay_def Let_def by (intro facade_rules)

lemma quiet_listens:
  assumes "screens_ok fw" "\<And>v d. facade_ok d \<Longrightarrow> facade_ok (hear v d) \<and> facade_le d (hear v d)"
  shows "listens facade_ok facade_le (review_with fw hear)"
  using assms(2) published_keeps [OF assms(1)] told_keeps [OF assms(1)] by (simp add: listens_def review_with_def)

lemma settling_listens: "screens_ok fw \<Longrightarrow> listens facade_ok facade_le (review_with fw (\<lambda>_ d. snd (publishF fw d)))"
  by (rule quiet_listens) (simp_all add: published_keeps)

lemma finishing_save_keeps:
  assumes "screens_ok fw" "\<And>operation. keeps_facade (observe operation)"
  shows "keeps_facade (finishing_save (ctxF fw) (ctxF fw) observe r result)"
  unfolding finishing_save_def by (intro facade_rules assms)

lemma completion_keeps: "keeps_facade (upd (\<lambda>d. d\<lparr>fa_completion := f d\<rparr>))" "keeps_facade (upd (\<lambda>d. d\<lparr>fa_cut := g d\<rparr>))"
  "keeps_facade (upd (\<lambda>d. d\<lparr>fa_settling := b\<rparr>))" "keeps_facade (upd (\<lambda>d. d\<lparr>fa_connection := c\<rparr>))"
  "keeps_facade (upd (\<lambda>d. d\<lparr>rv_focus := h d\<rparr>))"
  by (rule facade_upd, simp)+

lemma fresh_keeps: "keeps_facade (upd (\<lambda>d. d\<lparr>fa_fresh := Suc (fa_fresh d)\<rparr>))"
  by (rule facade.keeps_upd, rule facade_waits) (simp_all add: preparing_def planned_def)

lemma cut_completion_keeps: "keeps_facade cut_completion"
  unfolding cut_completion_def by (intro facade_rules completion_keeps)

lemma readCompletionDraft_keeps: "keeps_facade (readCompletionDraft n)"
  unfolding readCompletionDraft_def Let_def by (intro facade_rules cut_completion_keeps completion_keeps) simp

lemma settle_save_keeps: "screens_ok fw \<Longrightarrow> keeps_facade (settle_save fw n x operation m)"
  unfolding settle_save_def finishSaveF_def
  by (intro facade_rules finishing_save_keeps facade.kept_storeS settling_listens readCompletionDraft_keeps cut_completion_keeps releaseSaveReplay_keeps)

lemma reopening_keeps: "keeps_facade (upd (\<lambda>d. d\<lparr>fa_reopening := t, fa_transition := Screen_Reopening\<rparr>))" "keeps_facade reopen_ended"
  unfolding reopen_ended_def by (rule facade.keeps_upd, rule facade_turns, simp_all)+

lemma give_up_keeps: "screens_ok fw \<Longrightarrow> keeps_facade (give_up_reopen fw t)" "screens_ok fw \<Longrightarrow> keeps_facade (give_up_review fw r)"
  "screens_ok fw \<Longrightarrow> keeps_facade (give_up_save fw r result)"
  unfolding give_up_reopen_def give_up_review_def give_up_save_def by (intro facade_rules, assumption)+

lemma reloadBaseline_keeps: "screens_ok fw \<Longrightarrow> keeps_facade (reloadBaseline fw p a)"
  unfolding reloadBaseline_def by (intro facade_rules give_up_keeps reopening_keeps) simp_all

lemma saves_observed_keeps: "screens_ok fw \<Longrightarrow> keeps_facade (saves_observed fw)"
  unfolding saves_observed_def by (intro facade_rules settle_save_keeps reloadBaseline_keeps completion_keeps fresh_keeps)

lemma facade_listens:
  fixes fw :: "'w facade_env"
  assumes "screens_ok fw"
  shows "listens facade_ok facade_le (facade_review fw)"
  unfolding facade_review_def
proof (rule quiet_listens [OF assms])
  fix d :: "'w facade_scheme" assume d: "facade_ok d"
  then have "facade_ok (snd (saves_observed fw d)) \<and> facade_le d (snd (saves_observed fw d))" by (rule keeps_snd [OF saves_observed_keeps [OF assms]])
  then have "facade_ok (snd (publishF fw (snd (saves_observed fw d)))) \<and> facade_le d (snd (publishF fw (snd (saves_observed fw d))))"
    using published_keeps [OF assms] facade.le_trans by blast
  then show "facade_ok (if fa_disposed d then d else snd (publishF fw (snd (saves_observed fw d))))
    \<and> facade_le d (if fa_disposed d then d else snd (publishF fw (snd (saves_observed fw d))))"
    using d facade.le_refl [of d] by simp
qed

lemma storeF_keeps: "screens_ok fw \<Longrightarrow> keeps_facade (storeF fw f)"
  by (rule facade.kept_storeS [OF facade_listens])

section \<open>Methods\<close>

lemma configuration_read_keeps: "screens_ok fw \<Longrightarrow> keeps_facade (configuration_read fw p t r a)"
  unfolding configuration_read_def by (intro facade_rules give_up_keeps reopening_keeps) simp_all

lemma draft_reopened_keeps: "screens_ok fw \<Longrightarrow> keeps_facade (draft_reopened fw p t r)"
  unfolding draft_reopened_def finishing_reopen_def by (intro facade_rules reopening_keeps storeF_keeps)

lemma completion_ends_keeps: "keeps_facade (completion_ends c)"
  unfolding completion_ends_def by (rule facade_upd) simp

lemma completion_starts_keeps: "keeps_facade (completion_starts fw p n c a)"
  unfolding completion_starts_def by (intro facade_rules completion_ends_keeps) simp

lemma completion_read_keeps: "screens_ok fw \<Longrightarrow> keeps_facade (completion_read fw n c r)"
  unfolding completion_read_def Let_def by (intro facade_rules storeF_keeps completion_ends_keeps)

lemma awaits_session_keeps: "other_wait wait \<Longrightarrow> keeps_facade m \<Longrightarrow> keeps_facade (awaits_session p wait m)"
  unfolding awaits_session_def by (intro facade_rules)

lemma facade_connect_keeps: "screens_ok fw \<Longrightarrow> keeps_facade (facade_connect fw p a)"
  unfolding facade_connect_def by (intro facade_rules awaits_session_keeps facade.kept_session_start facade_listens) simp

lemma facade_refresh_keeps: "screens_ok fw \<Longrightarrow> keeps_facade (facade_refresh fw p a background)"
  unfolding facade_refresh_def by (intro facade_rules awaits_session_keeps facade.kept_session_refresh facade_listens) simp

lemma announceConnection_keeps: "screens_ok fw \<Longrightarrow> keeps_facade (announceConnection fw got onlyChanged)"
  unfolding announceConnection_def Let_def by (intro facade_rules completion_keeps)

lemma facade_connected_keeps: "screens_ok fw \<Longrightarrow> keeps_facade (facade_connected fw p draft onlyChanged r a)"
  unfolding facade_connected_def by (intro facade_rules awaits_session_keeps facade.kept_readDraft announceConnection_keeps) simp_all

lemma reconcileDraft_keeps: "screens_ok fw \<Longrightarrow> keeps_facade (reconcileDraft fw p k connected r)"
  unfolding reconcileDraft_def finishing_reconciliation_def by (intro facade_rules storeF_keeps)

lemma input_moves_keep:
  assumes "screens_ok fw"
  shows "keeps_facade (facade_navigate fw v focus)" "keeps_facade (facade_requestTarget fw target focus)" "keeps_facade (facade_requestClose fw focus)"
    "keeps_facade (facade_stage fw edits)" "keeps_facade (facade_capturePublicInput fw fieldId)" "keeps_facade (facade_setPublicInput fw b txt)"
    "keeps_facade (facade_stagePublicInput fw b txt edits)" "keeps_facade (facade_resetPublicInput fw b txt)"
  unfolding facade_navigate_def facade_requestTarget_def facade_requestClose_def facade_stage_def facade_capturePublicInput_def
    facade_setPublicInput_def facade_stagePublicInput_def facade_resetPublicInput_def
  by (intro facade_rules assms)+

lemma captureProtected_keeps: "screens_ok fw \<Longrightarrow> keeps_facade (captureProtected fw p fieldId a)"
  unfolding captureProtected_def Let_def by (intro facade_rules) simp_all

lemma protected_captured_keeps: "screens_ok fw \<Longrightarrow> keeps_facade (protected_captured fw p b input fieldId r)"
  unfolding protected_captured_def Let_def by (intro facade_rules)

lemma leave_keeps: "screens_ok fw \<Longrightarrow> keeps_facade (leave_save fw key)" "screens_ok fw \<Longrightarrow> keeps_facade (leave_discard fw left)"
proof -
  assume fw: "screens_ok fw"
  have gone: "keeps_facade (upd (\<lambda>d. d\<lparr>fa_discard := x, fa_transition := Screen_Idle\<rparr>))" for x
    by (rule facade.keeps_upd, rule facade_turns) simp_all
  show "keeps_facade (leave_save fw key)"
    unfolding leave_save_def Let_def by (intro facade_rules releaseSaveReplay_keeps fw) simp_all
  show "keeps_facade (leave_discard fw left)"
    unfolding leave_discard_def by (intro facade_rules fw gone)
qed

lemma facade_stay_keeps: "screens_ok fw \<Longrightarrow> keeps_facade (facade_stay fw)"
  unfolding facade_stay_def by (intro facade_rules leave_keeps completion_keeps)

lemma facade_openDraft_keeps: "keeps_facade (facade_openDraft fw p document a)"
  unfolding facade_openDraft_def by (intro facade_rules) simp

lemma draft_opened_keeps: "screens_ok fw \<Longrightarrow> keeps_facade (draft_opened fw p r)"
  unfolding draft_opened_def by (intro facade_rules storeF_keeps)

lemma submit_save_keeps: "keeps_facade (submit_save fw p n sent a)"
  unfolding submit_save_def Let_def by (intro facade_rules) simp

lemma replaySave_keeps: "screens_ok fw \<Longrightarrow> keeps_facade (replaySave fw p a)"
  unfolding replaySave_def
  by (rule keeps_withS) (auto split: bool.split screen_transition.split option.split intro!: facade_rules)

lemma discarding_keeps: "keeps_facade (upd (\<lambda>d. d\<lparr>fa_discard := x, fa_transition := Discard_Review\<rparr>))"
  "keeps_facade (upd (\<lambda>d. d\<lparr>fa_discard := x, fa_transition := Screen_Idle\<rparr>))" "keeps_facade (upd (\<lambda>d. d\<lparr>fa_discard := x\<rparr>))"
    apply (rule facade.keeps_upd, rule facade_turns, simp_all)
   apply (rule facade.keeps_upd, rule facade_turns, simp_all)
  by (rule facade_upd, simp)

lemma prepareDiscard_keeps: "screens_ok fw \<Longrightarrow> keeps_facade (prepareDiscardInPlace fw focus)"
  unfolding prepareDiscardInPlace_def by (intro facade_rules give_up_keeps discarding_keeps)

lemma submitDiscard_keeps: "screens_ok fw \<Longrightarrow> keeps_facade (submitDiscard fw p r a)"
  unfolding submitDiscard_def by (intro facade_rules) simp_all

lemma confirmDiscard_keeps: "screens_ok fw \<Longrightarrow> keeps_facade (confirmDiscard fw p a)"
  unfolding confirmDiscard_def
  by (rule keeps_withS) (auto split: bool.split screen_transition.split option.split intro!: facade_rules submitDiscard_keeps)

lemma facade_discard_keeps: "screens_ok fw \<Longrightarrow> keeps_facade (facade_discard fw p a)"
  unfolding facade_discard_def by (intro facade_rules give_up_keeps discarding_keeps submitDiscard_keeps)

lemma discard_answered_keeps: "screens_ok fw \<Longrightarrow> keeps_facade (discard_answered fw p r outcome a)"
  unfolding discard_answered_def Let_def by (intro facade_rules storeF_keeps discarding_keeps fresh_keeps reloadBaseline_keeps) simp_all

lemma keeps_result: "(\<And>e. keeps ok le (f e)) \<Longrightarrow> keeps ok le m \<Longrightarrow> keeps ok le (case v of Some (Thrown_Out e) \<Rightarrow> f e | _ \<Rightarrow> m)"
  by (auto split: option.split facade_result.split)

lemma discard_ended_keeps: "keeps_facade (discard_ended p q)"
  unfolding discard_ended_def by (intro keeps_withS keeps_result answerF_keeps)

lemma save_admitted_keeps: "screens_ok fw \<Longrightarrow> keeps_facade (save_admitted fw n operation m)"
  unfolding save_admitted_def Let_def by (intro facade_rules storeF_keeps saves_observed_keeps) simp_all

lemma reconcileSave_keeps: "keeps_facade (reconcileSave fw p a)"
  unfolding reconcileSave_def by (intro facade_rules) simp

lemma save_reconciled_keeps: "screens_ok fw \<Longrightarrow> keeps_facade (save_reconciled fw p n i r)"
  unfolding save_reconciled_def by (intro facade_rules storeF_keeps)

lemma facade_adapter_keeps:
  fixes fw :: "'w facade_env"
  assumes "screens_ok fw"
  shows "keeps_facade (facade_adapter fw a s raised)"
proof -
  have "prepares_for n (case w of (k, p, wait, src) \<Rightarrow> (k, p, wait, f src)) = prepares_for n w" for n f and w :: "nat \<times> nat \<times> facade_wait \<times> facade_source"
    by (cases w) (simp add: prepares_for_def)
  then have moved: "facade_ok (d\<lparr>fa_waits := map (\<lambda>(k, p, wait, src). (k, p, wait, f src)) (fa_waits d)\<rparr>)
    \<and> facade_le d (d\<lparr>fa_waits := map (\<lambda>(k, p, wait, src). (k, p, wait, f src)) (fa_waits d)\<rparr>)" if "facade_ok d" for d :: "'w facade_scheme" and f
    by (intro facade_waits [OF that]) (auto simp: preparing_def planned_def filter_map comp_def case_prod_unfold)
  have "keeps_facade (upd (\<lambda>d. d\<lparr>fa_waits := map (\<lambda>(k, p, wait, src). (k, p, wait, if src = Of_Start s then source_of pr d else src)) (fa_waits d)\<rparr>) :: ('w, unit) in_facade)" for pr
    by (rule facade.keeps_upd) (rule moved)
  then show ?thesis unfolding facade_adapter_def
    by (intro facade_rules facade.kept_session_adapter facade_listens assms)
qed

end
