(* ===== verification/Facade_Steps.thy ===== *)
theory Facade_Steps imports Facade_Kept begin

text \<open>
  The methods of the facade that make, plan and submit a save, and with them every step: the attempt that a method works on stays the
  one whose preparation it took over, whatever the screens do in between.
\<close>

section \<open>The attempt that is being prepared\<close>

text \<open>The attempt has the review \<open>u\<close> and no plan, and nothing else is on its way for it.\<close>

definition open_in :: "'w facade_scheme \<Rightarrow> nat \<Rightarrow> review \<Rightarrow> 'w facade_scheme \<Rightarrow> bool" where
  "open_in d n u e \<longleftrightarrow> facade_ok e \<and> facade_le d e \<and> (save_of d n = None \<or> preparing d n \<noteq> 0) \<and> preparing e n = 0
     \<and> (\<exists>x. save_of e n = Some x \<and> sa_plan x = None \<and> sa_review x = u)"

lemma open_later:
  assumes "open_in d n u e" "facade_ok f" "facade_le e f"
  shows "open_in d n u f"
proof -
  obtain x where x: "save_of e n = Some x" "sa_plan x = None" "sa_review x = u" "preparing e n = 0" using assms(1) unfolding open_in_def by blast
  then obtain y where "save_of f n = Some y" "sa_plan y = sa_plan x" "sa_review y = sa_review x" "preparing f n \<le> preparing e n"
    using assms(3) unfolding facade_le_def by blast
  moreover have "facade_le d f" using assms(1,3) facade.le_trans unfolding open_in_def by blast
  ultimately show ?thesis using assms(1,2) x by (simp add: open_in_def)
qed

lemma open_starts:
  fixes d :: "'w facade_scheme"
  assumes d: "facade_ok d"
  shows "open_in d (fa_fresh d) r (d\<lparr>fa_fresh := Suc (fa_fresh d), fa_attempts := AList.update (fa_fresh d) (new_save r) (fa_attempts d),
    fa_attempt := Some (fa_fresh d), fa_transition := Screen_Preparing\<rparr>)" (is "open_in d ?n r ?e")
proof -
  have none: "save_of d ?n = None" using d unfolding facade_ok_def by (metis less_irrefl not_None_eq)
  have p: "preparing ?e = preparing d" "planned ?e = planned d" by (simp_all add: preparing_def planned_def fun_eq_iff)
  have a: "save_of ?e m = (if m = ?n then Some (new_save r) else save_of d m)" for m by (simp add: save_of_def)
  have zero: "preparing d ?n = 0" using d none by (simp add: facade_ok_def)
  have "facade_ok ?e" unfolding facade_ok_def a p
  proof (intro conjI allI impI)
    fix m x assume "(if m = ?n then Some (new_save r) else save_of d m) = Some x"
    then show "m < fa_fresh ?e" "save_ok x" "preparing d m \<le> 1" "sa_plan x \<noteq> None \<Longrightarrow> preparing d m = 0"
      using d zero unfolding facade_ok_def by (fastforce simp: save_ok_def new_save_def split: if_splits)+
  next
    fix m assume "(if m = ?n then Some (new_save r) else save_of d m) = None"
    then show "preparing d m = 0" using d by (simp add: facade_ok_def split: if_splits)
  next
    fix m u assume "planned d m u"
    then obtain x where "save_of d m = Some x" "sa_review x = u" using d unfolding facade_ok_def by blast
    then show "\<exists>x. (if m = ?n then Some (new_save r) else save_of d m) = Some x \<and> sa_review x = u" using none by (cases "m = ?n") auto
  qed simp_all
  moreover have "facade_le d ?e" using none unfolding facade_le_def p by (auto simp: a)
  ultimately show ?thesis using none zero by (simp only: open_in_def p a) (simp add: new_save_def)
qed

lemma unplanned: "preparing d n = 0 \<Longrightarrow> \<not> planned d n u"
  unfolding preparing_def planned_def by (auto simp: prepares_for_def filter_empty_conv split: facade_wait.splits)

lemma open_awaits:
  fixes e :: "'w facade_scheme"
  assumes "open_in d n u e" "wait = Sync_Wait n r \<or> wait = Plan_Wait n u"
  shows "wp (awaitF p wait src) (\<lambda>_ f. facade_ok f \<and> facade_le d f) e"
proof -
  let ?f = "e\<lparr>fa_fresh := Suc (fa_fresh e), fa_waits := fa_waits e @ [(fa_fresh e, p, wait, src)]\<rparr>"
  have p: "preparing ?f m = (if m = n then Suc (preparing e m) else preparing e m)" for m
    using assms(2) by (auto simp: preparing_def prepares_for_def)
  have q: "planned ?f m v \<Longrightarrow> planned e m v \<or> m = n \<and> v = u" for m v using assms(2) by (auto simp: planned_def)
  have a: "save_of ?f m = save_of e m" for m by (simp add: save_of_def)
  obtain x where x: "save_of e n = Some x" "sa_plan x = None" "sa_review x = u" "preparing e n = 0" "facade_ok e" "facade_le d e"
    "save_of d n = None \<or> preparing d n \<noteq> 0" using assms(1) unfolding open_in_def by blast
  have "facade_ok ?f" unfolding facade_ok_def a p
  proof (intro conjI allI impI)
    fix m y assume "save_of e m = Some y"
    then show "m < fa_fresh ?f" "save_ok y" "(if m = n then Suc (preparing e m) else preparing e m) \<le> 1"
      "sa_plan y \<noteq> None \<Longrightarrow> (if m = n then Suc (preparing e m) else preparing e m) = 0"
      using x unfolding facade_ok_def by (fastforce split: if_splits)+
  next
    fix m v assume "planned ?f m v"
    then show "\<exists>y. save_of e m = Some y \<and> sa_review y = v" using q [of m v] x unfolding facade_ok_def by blast
  qed (use x in \<open>auto simp: facade_ok_def\<close>)
  moreover have "facade_le d ?f" unfolding facade_le_def a p
  proof (intro conjI allI impI)
    show "fa_fresh d \<le> fa_fresh ?f" "fa_disposed d \<Longrightarrow> fa_disposed ?f" "fa_disposed d \<Longrightarrow> fa_publication ?f = fa_publication d"
      using x(6) by (auto simp: facade_le_def)
    fix m y assume m: "save_of d m = Some y"
    then obtain z where z: "preparing e m \<le> preparing d m" "save_of e m = Some z" "preparing d m = 0 \<longrightarrow> sa_plan z = sa_plan y \<and> sa_review z = sa_review y"
      using x(6) unfolding facade_le_def by blast
    show "\<exists>z. save_of e m = Some z \<and> (preparing d m = 0 \<longrightarrow> sa_plan z = sa_plan y \<and> sa_review z = sa_review y)"
      by (rule exI [of _ z]) (use z in simp)
    show "(if m = n then Suc (preparing e m) else preparing e m) \<le> preparing d m" using z(1) x(4,7) m by auto
  qed
  ultimately show ?thesis by (simp add: awaitF_def wp_rules)
qed

lemma wp_open_step:
  fixes e :: "'w facade_scheme"
  assumes "keeps_facade m" "open_in d n u e" "\<And>x f. open_in d n u f \<Longrightarrow> wp (g x) (\<lambda>_ h. facade_ok h \<and> facade_le d h) f"
  shows "wp (seq m g) (\<lambda>_ h. facade_ok h \<and> facade_le d h) e"
proof -
  have "facade_ok e" using assms(2) by (simp add: open_in_def)
  from keepsD [OF assms(1) this] have "wp m (\<lambda>_ f. open_in d n u f) e" by (rule wp_mono) (use open_later [OF assms(2)] in blast)
  then show ?thesis unfolding wp_seq by (rule wp_mono) (use assms(3) in \<open>auto simp: open_in_def\<close>)
qed

lemma wp_open:
  fixes e :: "'w facade_scheme"
  assumes "keeps_facade m" "open_in d n u e"
  shows "wp m (\<lambda>_ h. facade_ok h \<and> facade_le d h) e"
  by (rule facade.wp_later [OF assms(1)]) (use assms(2) in \<open>simp add: open_in_def\<close>)

lemma open_calls:
  fixes e :: "'w facade_scheme"
  assumes "open_in d n u e" "wait = Sync_Wait n r \<or> wait = Plan_Wait n u"
  shows "wp (callF fw p k name input a wait) (\<lambda>_ f. facade_ok f \<and> facade_le d f) e"
  unfolding callF_def wp_basic by (rule wp_open_step [OF facade.kept_callS assms(1)]) (rule open_awaits [OF _ assms(2)])

lemma open_review:
  fixes e :: "'w facade_scheme"
  assumes "open_in d n u e" "save_of e n = Some x"
  shows "open_in d n v (e\<lparr>fa_attempts := AList.update n (x\<lparr>sa_review := v\<rparr>) (fa_attempts e)\<rparr>)" (is "open_in d n v ?f")
proof -
  have e: "facade_ok e" "facade_le d e" "save_of d n = None \<or> preparing d n \<noteq> 0" "preparing e n = 0" "sa_plan x = None"
    using assms by (auto simp: open_in_def)
  have p: "preparing ?f = preparing e" "planned ?f = planned e" by (simp_all add: preparing_def planned_def fun_eq_iff)
  have "save_ok x" "n < fa_fresh e" using e(1) assms(2) by (auto simp: facade_ok_def)
  then have s: "save_ok (x\<lparr>sa_review := v\<rparr>)" using e(5) by (simp add: save_ok_def)
  have "fa_disposed e \<or> (\<exists>n' z. fa_attempt e = Some n' \<and> save_of ?f n' = Some z \<and> sa_plan z = Some q)"
    if t: "fa_transition e = Save_Review q" for q
  proof (cases "fa_disposed e")
    case False
    then obtain n' z where "fa_attempt e = Some n'" "save_of e n' = Some z" "sa_plan z = Some q" using e(1) t unfolding facade_ok_def by blast
    then show ?thesis using assms(2) e(5) by (auto simp: save_of_update)
  qed simp
  moreover have "\<exists>z. save_of ?f m = Some z \<and> sa_review z = w" if pl: "planned e m w" for m w
  proof -
    have "m \<noteq> n" using unplanned [OF e(4)] pl by blast
    then show ?thesis using e(1) pl by (auto simp: save_of_update facade_ok_def)
  qed
  moreover have "m < fa_fresh e \<and> save_ok z \<and> preparing e m \<le> 1 \<and> (sa_plan z \<noteq> None \<longrightarrow> preparing e m = 0)" if "save_of ?f m = Some z" for m z
    using that e(1,4,5) s \<open>n < fa_fresh e\<close> by (auto simp: save_of_update facade_ok_def split: if_splits)
  moreover have "preparing e m = 0" if "save_of ?f m = None" for m using that e(1) by (auto simp: save_of_update facade_ok_def split: if_splits)
  ultimately have "facade_ok ?f" unfolding facade_ok_def p by simp
  moreover have "facade_le d ?f" using e(2,3) assms(2) unfolding facade_le_def p by (auto simp: save_of_update)
  ultimately show ?thesis using e(3-5) by (simp add: open_in_def p save_of_update)
qed

text \<open>A plan that captures the reviewed edits.\<close>

lemma plan_given:
  fixes e :: "'w facade_scheme"
  assumes "open_in d n u e" "fa_attempt e = Some n" "save_of e n = Some x"
    "is_kind (path plan [''semantics'', ''capture'']) ''save_configuration''"
    "same_data (path plan [''semantics'', ''capture'', ''input'', ''draft'', ''edits'']) (JArr (r_edits u)) = Inr True"
  defines "f \<equiv> e\<lparr>fa_attempts := AList.update n (x\<lparr>sa_plan := Some plan\<rparr>) (fa_attempts e), fa_transition := Save_Review plan\<rparr>"
  shows "facade_ok f \<and> facade_le d f"
proof -
  have p: "preparing f = preparing e" "planned f = planned e" by (simp_all add: f_def preparing_def planned_def fun_eq_iff)
  have a: "save_of f m = (if m = n then Some (x\<lparr>sa_plan := Some plan\<rparr>) else save_of e m)" for m by (simp add: f_def save_of_def)
  have e: "facade_ok e" "facade_le d e" "save_of d n = None \<or> preparing d n \<noteq> 0" "preparing e n = 0" "sa_plan x = None" "sa_review x = u"
    using assms(1,3) by (auto simp: open_in_def)
  then have x: "save_ok x" "n < fa_fresh e" using assms(3) by (auto simp: facade_ok_def)
  have "save_ok (x\<lparr>sa_plan := Some plan\<rparr>)" using x(1) e(5,6) assms(4,5) by (auto simp: save_ok_def)
  moreover have "fa_fresh f = fa_fresh e" "fa_attempt f = Some n" "fa_transition f = Save_Review plan" using assms(2) by (simp_all add: f_def)
  moreover have "\<exists>z. save_of f m = Some z \<and> sa_review z = w" if pl: "planned e m w" for m w
    using unplanned [OF e(4)] pl e(1) by (auto simp: a facade_ok_def)
  ultimately have "facade_ok f" using e x unfolding facade_ok_def a p by (auto split: if_splits)
  moreover have "facade_le d f" unfolding facade_le_def a p using e(2,3) assms(3) by (auto simp: facade_le_def f_def)
  ultimately show ?thesis by blast
qed

section \<open>Preparing\<close>

lemma save_dropped_keeps: "screens_ok fw \<Longrightarrow> keeps_facade (save_dropped fw message p x)"
  unfolding save_dropped_def by (intro facade_rules)

lemma prepareSaveFor_keeps:
  fixes fw :: "'w facade_env"
  assumes "screens_ok fw"
  shows "keeps_facade (prepareSaveFor fw p purpose focus a)"
  unfolding prepareSaveFor_def
proof (rule keeps_withS, rule keeps_if [OF answerF_keeps], rule keeps_if [OF says_then_keeps [OF assms]],
    rule facade.keeps_seq [OF ctxF_keeps [OF assms]], rule keeps_option [OF answerF_keeps], rule keeps_at)
  fix r and d :: "'w facade_scheme" assume d: "facade_ok d"
  let ?Q = "\<lambda>_ f. facade_ok f \<and> facade_le d f"
  let ?e = "d\<lparr>fa_fresh := Suc (fa_fresh d), fa_attempts := AList.update (fa_fresh d) (new_save r) (fa_attempts d),
    fa_attempt := Some (fa_fresh d), fa_transition := Screen_Preparing\<rparr>"
  have quit: "wp (next_act (give_up_review fw r) (answerF p Undefined)) ?Q d"
    by (rule keepsD [where ok = facade_ok and le = facade_le and d = d, OF _ d]) (intro facade_rules give_up_keeps assms)
  have go: "wp (next_act (publishF fw) (withS (\<lambda>d'.
      if save_gone d' (fa_fresh d) \<or> \<not> hostEpochCurrent (host_of (r_draft r)) (d_ctx d') then awaitF p (Sync_Wait (fa_fresh d) r) (Settled abandoned)
      else callF fw p Command ''set_draft_changes'' input a (Sync_Wait (fa_fresh d) r)))) ?Q ?e" for input
    by (rule wp_open_step [OF publishF_keeps [OF assms] open_starts [OF d, of r]])
      (simp add: wp_basic open_awaits open_calls)
  show "wp (if fa_disposed d \<or> \<not> hostEpochCurrent (host_of (r_draft r)) (d_ctx d) then next_act (give_up_review fw r) (answerF p Undefined)
     else let n = fa_fresh d in
       next_act (upd (\<lambda>d. d\<lparr>fa_fresh := Suc n, fa_attempts := AList.update n (new_save r) (fa_attempts d), fa_attempt := Some n, fa_transition := Screen_Preparing\<rparr>))
       (next_act (publishF fw)
       (withS (\<lambda>d.
         if save_gone d n \<or> \<not> hostEpochCurrent (host_of (r_draft r)) (d_ctx d) then awaitF p (Sync_Wait n r) (Settled abandoned)
         else callF fw p Command ''set_draft_changes'' (JObj [(U ''draft'', fld (r_draft r) ''draft''), (U ''edits'', JArr (r_edits r))]) a (Sync_Wait n r))))) ?Q d"
    using quit go by (simp add: Let_def wp_after_upd)
qed

lemma synchronized_ok:
  fixes e :: "'w facade_scheme"
  assumes "screens_ok fw" "open_in d n u e"
  shows "wp (synchronized fw p n u a) (\<lambda>_ f. facade_ok f \<and> facade_le d f) e"
  unfolding synchronized_def Let_def
proof (rule wp_open_step [OF storeF_keeps [OF assms(1)] assms(2)])
  fix ok and f :: "'w facade_scheme" assume f: "open_in d n u f"
  have quit: "wp (next_act (give_up_save fw u abandoned) (save_dropped fw m p Undefined)) (\<lambda>_ f. facade_ok f \<and> facade_le d f) f" for m
    by (rule wp_open [OF _ f]) (intro facade_rules give_up_keeps save_dropped_keeps assms(1))
  show "wp (if \<not> ok then next_act (give_up_save fw u abandoned) (save_dropped fw ''Draft observation needs reconciliation. Changes retained.'' p Undefined)
      else if arr_items (fld (r_draft u) ''validation'') \<noteq> [] \<or> isS (fld (r_draft u) ''state'') ''invalid'' then
        next_act (give_up_save fw u abandoned) (save_dropped fw ''Changes retained. Review the field validation.'' p Undefined)
      else withS (\<lambda>d.
        if save_gone d n \<or> \<not> hostEpochCurrent (host_of (r_draft u)) (d_ctx d) then awaitF p (Plan_Wait n u) (Settled abandoned)
        else callF fw p Command ''prepare'' (JObj [(U ''intent'', JObj [(U ''kind'', S ''save_configuration''),
           (U ''input'', JObj [(U ''draft'', fld (r_draft u) ''draft'')])])]) a (Plan_Wait n u))) (\<lambda>_ f. facade_ok f \<and> facade_le d f) f"
    using quit open_awaits [OF f] open_calls [OF f] by (simp add: wp_basic)
qed

lemma save_synchronized_ok:
  fixes e :: "'w facade_scheme"
  assumes "screens_ok fw" "open_in d n u e"
  shows "wp (save_synchronized fw p n r ack a) (\<lambda>_ f. facade_ok f \<and> facade_le d f) e"
proof -
  let ?Q = "\<lambda>_ f. facade_ok f \<and> facade_le d f"
  let ?last = "\<lambda>updated. withS (\<lambda>d.
     if save_gone d n then next_act (case updated of None \<Rightarrow> ret () | Some u \<Rightarrow> give_up_review fw u) (answerF p Undefined)
     else case updated of
       None \<Rightarrow> save_dropped fw ''Changes retained. Draft synchronization was not confirmed.'' p Undefined
     | Some u \<Rightarrow> synchronized fw p n u a)"
  have last: "wp (?last updated) ?Q f" if f: "open_in d n v f" and v: "\<And>w. updated = Some w \<Longrightarrow> w = v" for updated v and f :: "'w facade_scheme"
  proof -
    have quit: "wp (next_act (case updated of None \<Rightarrow> ret () | Some u \<Rightarrow> give_up_review fw u) (answerF p Undefined)) ?Q f"
      by (rule wp_open [OF _ f]) (intro facade_rules give_up_keeps assms(1))
    have "wp (save_dropped fw m p Undefined) ?Q f" for m by (rule wp_open [OF save_dropped_keeps [OF assms(1)] f])
    then show ?thesis using quit synchronized_ok [OF assms(1) f] v by (cases updated) (simp_all add: wp_basic)
  qed
  have middle: "wp (next_act (case updated of None \<Rightarrow> ret () | Some v \<Rightarrow> set_save n (\<lambda>x. x\<lparr>sa_review := v\<rparr>)) (?last updated)) ?Q f"
    if f: "open_in d n u f" for updated and f :: "'w facade_scheme"
  proof (cases updated)
    case None
    show ?thesis using last [OF f, of None] unfolding None option.case seq_ret by simp
  next
    case (Some v)
    obtain x where x: "save_of f n = Some x" using f unfolding open_in_def by blast
    from last [OF open_review [OF f x, of v], of updated] show ?thesis by (simp add: Some set_save_def wp_after_upd x)
  qed
  have "facade_ok e" "facade_le d e" using assms(2) by (simp_all add: open_in_def)
  then have gone: "wp (answerF p Undefined) ?Q e" by (intro facade.wp_later [OF answerF_keeps]) simp
  have "wp (seq (ctxF fw (finishDraftSynchronization r ack)) (\<lambda>updated.
      next_act (case updated of None \<Rightarrow> ret () | Some v \<Rightarrow> set_save n (\<lambda>x. x\<lparr>sa_review := v\<rparr>)) (?last updated))) ?Q e"
    by (rule wp_open_step [OF ctxF_keeps [OF assms(1)] assms(2)]) (rule middle)
  then show ?thesis unfolding save_synchronized_def using gone by (simp add: wp_basic)
qed

lemma save_prepared_ok:
  fixes e :: "'w facade_scheme"
  assumes "screens_ok fw" "open_in d n r e"
  shows "wp (save_prepared fw p n r outcome) (\<lambda>_ f. facade_ok f \<and> facade_le d f) e"
proof -
  let ?Q = "\<lambda>_ f. facade_ok f \<and> facade_le d f"
  have e: "facade_ok e \<and> facade_le d e" using assms(2) by (simp add: open_in_def)
  obtain x where x: "save_of e n = Some x" using assms(2) unfolding open_in_def by blast
  have simple: "wp (answerF p v) ?Q e" "wp (next_act (give_up_review fw r) (save_dropped fw m p v)) ?Q e"
    "wp (next_act (give_up_save fw r result) (save_dropped fw m p v)) ?Q e" for v m result
    by (rule wp_open [OF _ assms(2)], intro facade_rules give_up_keeps save_dropped_keeps assms(1))+
  have "wp (next_act (set_save n (\<lambda>x. x\<lparr>sa_plan := Some plan\<rparr>)) (next_act (turns (Save_Review plan)) (says_then fw m False p v))) ?Q e"
    if "fa_attempt e = Some n" "is_kind (path plan [''semantics'', ''capture'']) ''save_configuration''"
      "same_data (path plan [''semantics'', ''capture'', ''input'', ''draft'', ''edits'']) (JArr (r_edits r)) = Inr True" for plan m v
    using facade.wp_later [OF says_then_keeps [OF assms(1)] plan_given [OF assms(2) that(1) x that(2,3)]]
    by (simp add: set_save_def wp_after_upd x)
  then show ?thesis
    using e simple by (auto simp: save_prepared_def wp_basic Let_def wp_unless res_simps split: outcome.split)
qed

section \<open>Submitting\<close>

lemma save_committed:
  fixes e :: "'w facade_scheme"
  assumes "facade_ok e \<and> facade_le d e" "save_of e n = Some x" "sa_plan x = Some plan" "fld sent ''planRef'' = fld plan ''planRef''"
  defines "f \<equiv> e\<lparr>fa_attempts := AList.update n (x\<lparr>sa_commit := Some sent, sa_provedUnsent := False\<rparr>) (fa_attempts e)\<rparr>"
  shows "facade_ok f \<and> facade_le d f"
proof -
  have "save_ok x" using assms(1,2) by (auto simp: facade_ok_def)
  then have "save_ok (x\<lparr>sa_commit := Some sent, sa_provedUnsent := False\<rparr>)" using assms(3,4) by (simp add: save_ok_def)
  then have "facade_ok f \<and> facade_le e f" unfolding f_def using set_save_same [OF _ assms(2)] assms(1) by simp
  then show ?thesis using assms(1) facade.le_trans by blast
qed

lemma save_submission_ok:
  fixes e :: "'w facade_scheme"
  assumes "screens_ok fw" "facade_ok e \<and> facade_le d e" "save_of e n = Some y" "sa_plan y = Some plan"
  shows "wp (save_submission fw p n x plan key a) (\<lambda>_ f. facade_ok f \<and> facade_le d f) e"
proof -
  let ?Q = "\<lambda>_ f. facade_ok f \<and> facade_le d f"
  have stop: "wp (says_then fw m u p v) ?Q e" for m u v
    by (rule facade.wp_later [OF says_then_keeps [OF assms(1)] assms(2)])
  have "wp (next_act (set_save n (\<lambda>x. x\<lparr>sa_commit := Some (JObj [(U ''idempotencyKey'', k), (U ''planRef'', fld plan ''planRef'')]), sa_provedUnsent := False\<rparr>))
      (next_act (turns Screen_Admitting) (next_act (publishF fw) (withS (\<lambda>d.
         if save_gone d n \<or> \<not> hostEpochCurrent host (d_ctx d) then awaitF p (Save_Wait n False) (Settled abandoned)
         else submit_save fw p n (JObj [(U ''idempotencyKey'', k), (U ''planRef'', fld plan ''planRef'')]) a))))) ?Q e" for k host
  proof -
    let ?sent = "JObj [(U ''idempotencyKey'', k), (U ''planRef'', fld plan ''planRef'')]"
    have "keeps_facade (next_act (turns Screen_Admitting) (next_act (publishF fw) (withS (\<lambda>d.
         if save_gone d n \<or> \<not> hostEpochCurrent host (d_ctx d) then awaitF p (Save_Wait n False) (Settled abandoned)
         else submit_save fw p n ?sent a))))"
      by (intro facade_rules submit_save_keeps assms(1)) simp_all
    from facade.wp_later [OF this save_committed [OF assms(2-4), of ?sent]]
    show ?thesis by (simp add: set_save_def wp_after_upd assms(3))
  qed
  then show ?thesis using stop by (simp add: save_submission_def Let_def wp_basic split: sum.split)
qed

lemma commitSave_keeps:
  fixes fw :: "'w facade_env"
  assumes "screens_ok fw"
  shows "keeps_facade (commitSave fw p key a)"
  unfolding commitSave_def
proof (rule keeps_at)
  fix d :: "'w facade_scheme" assume d: "facade_ok d"
  let ?Q = "\<lambda>_ f. facade_ok f \<and> facade_le d f"
  let ?go = "\<lambda>n x plan. seq (if sa_provedUnsent x then releaseSaveReplay n True else ret True) (\<lambda>released.
    if released then save_submission fw p n x plan key a
    else next_act (set_save n (\<lambda>x. x\<lparr>sa_provedUnsent := False\<rparr>)) (next_act (turns Screen_Uncertain) (says_then fw save_retained True p Undefined)))"
  have go: "wp (?go n x plan) ?Q d" if x: "save_of d n = Some x" "sa_plan x = Some plan" for n x plan
  proof (rule facade.wp_step)
    show "keeps_facade (if sa_provedUnsent x then releaseSaveReplay n True else ret True)"
      by (intro facade_rules releaseSaveReplay_keeps)
    show "facade_ok d \<and> facade_le d d" using d by (simp add: facade.le_refl)
    fix released and f :: "'w facade_scheme" assume f: "facade_ok f" "facade_le d f"
    have "preparing d n = 0" using d x unfolding facade_ok_def by (metis option.distinct(1))
    then obtain y where "save_of f n = Some y" "sa_plan y = Some plan" using f(2) x unfolding facade_le_def by metis
    then have "wp (save_submission fw p n x plan key a) ?Q f" using save_submission_ok [OF assms] f by blast
    moreover have "wp (next_act (set_save n (\<lambda>x. x\<lparr>sa_provedUnsent := False\<rparr>)) (next_act (turns Screen_Uncertain)
        (says_then fw save_retained True p Undefined))) ?Q f"
      by (rule facade.wp_later) (intro facade_rules assms, simp, use f in simp)
    ultimately show "wp (if released then save_submission fw p n x plan key a
      else next_act (set_save n (\<lambda>x. x\<lparr>sa_provedUnsent := False\<rparr>)) (next_act (turns Screen_Uncertain)
        (says_then fw save_retained True p Undefined))) ?Q f" by simp
  qed
  have stop: "wp (answerF p Undefined) ?Q d" by (rule keepsD [OF answerF_keeps d])
  show "wp (case (fa_disposed d, fa_transition d, fa_attempt d, Option.bind (fa_attempt d) (save_of d)) of
       (False, Save_Review _, Some n, Some x) \<Rightarrow> (case sa_plan x of None \<Rightarrow> answerF p Undefined | Some plan \<Rightarrow> ?go n x plan)
     | _ \<Rightarrow> answerF p Undefined) ?Q d"
    by (cases "fa_attempt d"; cases "fa_disposed d"; cases "fa_transition d"; cases "save_of d (the (fa_attempt d))";
        cases "sa_plan (the (save_of d (the (fa_attempt d))))") (use stop go in simp_all)
qed

lemma shows_save:
  fixes d :: "'w facade_scheme"
  assumes "facade_ok d" "fa_attempt d = Some n" "save_of d n = Some x" "sa_plan x = Some plan"
  shows "facade_ok (d\<lparr>fa_transition := Save_Review plan\<rparr>) \<and> facade_le d (d\<lparr>fa_transition := Save_Review plan\<rparr>)"
proof -
  let ?e = "d\<lparr>fa_transition := Save_Review plan\<rparr>"
  have "preparing ?e = preparing d" "planned ?e = planned d" "save_of ?e = save_of d"
    by (simp_all add: preparing_def planned_def save_of_def fun_eq_iff)
  then show ?thesis using assms by (auto simp: facade_ok_def facade_le_def)
qed

lemma save_refused_ok:
  fixes d :: "'w facade_scheme"
  assumes "screens_ok fw" "facade_ok d" "fa_attempt d = Some n" "save_of d n = Some x" "sa_plan x = Some plan"
  shows "wp (save_refused fw n plan) (\<lambda>_ e. facade_ok e \<and> facade_le d e) d"
proof -
  let ?y = "x\<lparr>sa_provedUnsent := True\<rparr>"
  let ?e = "d\<lparr>fa_attempts := AList.update n ?y (fa_attempts d)\<rparr>"
  have "save_ok x" using assms(2,4) by (simp add: facade_ok_def)
  then have "save_ok ?y" by (simp add: save_ok_def)
  then have e: "facade_ok ?e \<and> facade_le d ?e" using set_save_same [OF assms(2,4), of ?y] by simp
  have "facade_ok (?e\<lparr>fa_transition := Save_Review plan\<rparr>) \<and> facade_le ?e (?e\<lparr>fa_transition := Save_Review plan\<rparr>)"
    by (rule shows_save [where n = n and x = ?y]) (use e assms(3,5) in \<open>simp_all add: save_of_update\<close>)
  then have "facade_ok (?e\<lparr>fa_transition := Save_Review plan\<rparr>) \<and> facade_le d (?e\<lparr>fa_transition := Save_Review plan\<rparr>)"
    using e facade.le_trans by blast
  from facade.wp_later [OF sayF_keeps [OF assms(1)] this] show ?thesis
    by (simp add: save_refused_def set_save_def wp_after_upd assms(4))
qed

lemma save_uncertain_keeps: "screens_ok fw \<Longrightarrow> keeps_facade (save_uncertain fw)"
  unfolding save_uncertain_def by (intro facade_rules) simp

lemma acceptSave_ok:
  fixes d :: "'w facade_scheme"
  assumes "screens_ok fw" "facade_ok d" "fa_attempt d = Some n"
  shows "wp (acceptSave fw n r again) (\<lambda>_ e. facade_ok e \<and> facade_le d e) d"
proof -
  let ?A = "withS (\<lambda>d. if \<not> again \<and> other_request d (Option.bind (save_of d n) sa_capture) r
     then set_save n (\<lambda>x. x\<lparr>sa_capture := None\<rparr>) else ret ()) :: ('w, unit) in_facade"
  have k: "keeps_facade ?A" by (intro facade_rules)
  have A: "wp ?A (\<lambda>_ e. (facade_ok e \<and> facade_le d e) \<and> fa_attempt e = Some n) d"
    using keepsD [OF k assms(2)] assms(3) by (auto simp: wp_conj wp_rules set_save_def split: option.split)
  show ?thesis unfolding acceptSave_def wp_seq [of ?A]
  proof (rule wp_mono [OF A])
    fix r' and e :: "'w facade_scheme" assume e: "(facade_ok e \<and> facade_le d e) \<and> fa_attempt e = Some n"
    have now: "wp (save_uncertain fw) (\<lambda>_ f. facade_ok f \<and> facade_le d f) e" "wp (save_admitted fw n operation m) (\<lambda>_ f. facade_ok f \<and> facade_le d f) e"
      "wp (ret ()) (\<lambda>_ f. facade_ok f \<and> facade_le d f) e" for operation m
      by (rule facade.wp_later, intro facade_rules save_uncertain_keeps save_admitted_keeps assms(1), use e in blast)+
    have refused: "wp (save_refused fw n plan) (\<lambda>_ f. facade_ok f \<and> facade_le d f) e" if "save_of e n = Some x" "sa_plan x = Some plan" for x plan
      by (rule wp_mono [OF save_refused_ok [OF assms(1) _ _ that]]) (use e facade.le_trans in auto)
    show "(\<forall>x. r' = Inl x \<longrightarrow> facade_ok e \<and> facade_le d e) \<and> (\<forall>x. r' = Inr x \<longrightarrow> wp (withS (\<lambda>d. case save_of d n of
        None \<Rightarrow> ret ()
      | Some x \<Rightarrow>
          (case r of
             Faulted f \<Rightarrow>
               (case sa_plan x of
                  Some plan \<Rightarrow> if \<not> again \<and> \<not> sa_priorUncertain x \<and> f_delivery f = Not_Sent then save_refused fw n plan else save_uncertain fw
                | None \<Rightarrow> save_uncertain fw)
           | Rejected _ _ \<Rightarrow> save_uncertain fw
           | Returned operation m \<Rightarrow> save_admitted fw n operation m))) (\<lambda>_ f. facade_ok f \<and> facade_le d f) e)"
      using e now refused by (simp add: wp_basic(3) split: option.split outcome.split)
  qed
qed

lemma save_answered_keeps:
  fixes fw :: "'w facade_env"
  assumes "screens_ok fw"
  shows "keeps_facade (save_answered fw p n again r)"
  unfolding save_answered_def
proof (rule keeps_at)
  fix d :: "'w facade_scheme" assume d: "facade_ok d"
  have answer: "wp (answerF p (Outcome r)) (\<lambda>_ f. facade_ok f \<and> facade_le d f) e" if "facade_ok e \<and> facade_le d e" for e
    by (rule facade.wp_later [OF answerF_keeps that])
  have "wp (if save_gone d n then ret () else acceptSave fw n r again) (\<lambda>_ e. facade_ok e \<and> facade_le d e) d"
    using acceptSave_ok [OF assms d, of n r again] d facade.le_refl [of d] by (simp add: wp_basic)
  then show "wp (next_act (if save_gone d n then ret () else acceptSave fw n r again) (answerF p (Outcome r))) (\<lambda>_ e. facade_ok e \<and> facade_le d e) d"
    unfolding wp_seq by (rule wp_mono) (use answer in blast)
qed

section \<open>Disposal\<close>

lemma dispose_parts_keep: "screens_ok fw \<Longrightarrow> keeps_facade (dispose_save fw)" "screens_ok fw \<Longrightarrow> keeps_facade (dispose_discard fw)"
  unfolding dispose_save_def dispose_discard_def by (intro facade_rules releaseSaveReplay_keeps give_up_keeps, assumption+)+

text \<open>From a disposed state on.\<close>

lemma facade_disposed_step:
  fixes e :: "'w facade_scheme"
  assumes "keeps_facade m" "\<And>f. facade_ok f \<Longrightarrow> fa_disposed f \<Longrightarrow> wp m' (\<lambda>_ g. facade_ok g \<and> facade_le f g) f" "facade_ok e" "fa_disposed e"
  shows "wp (next_act m m') (\<lambda>_ g. facade_ok g \<and> facade_le e g) e"
proof (rule facade.wp_step [OF assms(1)])
  show "facade_ok e \<and> facade_le e e" using assms(3) by (simp add: facade.le_refl)
  fix f :: "'w facade_scheme" assume f: "facade_ok f" "facade_le e f"
  then have "fa_disposed f" using assms(4) by (simp add: facade_le_def)
  from assms(2) [OF f(1) this] show "wp m' (\<lambda>_ g. facade_ok g \<and> facade_le e g) f" by (rule wp_mono) (use f facade.le_trans in blast)
qed

lemma dispose_tells_nobody:
  fixes fw :: "'w facade_env"
  assumes "screens_ok fw" "facade_ok d"
  shows "wp (facade_dispose fw) (\<lambda>_ f. facade_ok f \<and> facade_le (d\<lparr>fa_disposed := True\<rparr>) f) d"
proof -
  let ?reopen = "withS (\<lambda>d. case fa_reopening d of None \<Rightarrow> ret () | Some t \<Rightarrow> give_up_reopen fw t)"
  let ?clear = "upd (\<lambda>d. d\<lparr>fa_reopening := None, fa_attempt := None\<rparr>) :: ('w, unit) in_facade"
  have reopen: "keeps_facade ?reopen" by (intro facade_rules give_up_keeps assms)
  have clear: "wp (next_act ?clear (session_dispose (hears fw))) (\<lambda>_ g. facade_ok g \<and> facade_le f g) f"
    if "facade_ok f" "fa_disposed f" for f :: "'w facade_scheme"
    unfolding wp_after_upd
  proof (rule facade.wp_later [OF facade.kept_session_dispose [OF facade_listens [OF assms(1)]]])
    show "facade_ok (f\<lparr>fa_reopening := None, fa_attempt := None\<rparr>) \<and> facade_le f (f\<lparr>fa_reopening := None, fa_attempt := None\<rparr>)"
      by (rule facade_turns [OF that(1)]) (simp_all add: that(2))
  qed
  let ?rest = "\<lambda>ws. next_act (clientU (abandon_all ws)) (next_act review_dispose (next_act (dispose_save fw) (next_act (dispose_discard fw)
    (next_act ?reopen (next_act ?clear (session_dispose (hears fw)))))))"
  have rest: "wp (?rest ws) (\<lambda>_ g. facade_ok g \<and> facade_le f g) f" if "facade_ok f" "fa_disposed f" for ws and f :: "'w facade_scheme"
    by (rule facade_disposed_step [OF facade.kept_client _ that], rule facade_disposed_step [OF facade.kept_review_dispose], rule facade_disposed_step [OF dispose_parts_keep(1) [OF assms(1)]],
        rule facade_disposed_step [OF dispose_parts_keep(2) [OF assms(1)]], rule facade_disposed_step [OF reopen], rule clear)
  have "facade_ok (d\<lparr>fa_disposed := True\<rparr>)" using facade_turns [OF assms(2), of "d\<lparr>fa_disposed := True\<rparr>"] by simp
  then have "wp (?rest ws) (\<lambda>_ g. facade_ok g \<and> facade_le (d\<lparr>fa_disposed := True\<rparr>) g) (d\<lparr>fa_disposed := True\<rparr>)" for ws
    by (rule rest) simp
  note dispose = this
  show ?thesis
  proof (cases "fa_disposed d")
    case True
    then have same: "d\<lparr>fa_disposed := True\<rparr> = d" by (cases d) simp
    show ?thesis unfolding same using True assms(2) facade.le_refl [of d] by (simp add: facade_dispose_def wp_basic)
  qed (simp add: facade_dispose_def wp_after_upd wp_basic dispose)
qed

lemma facade_dispose_keeps: "screens_ok fw \<Longrightarrow> keeps_facade (facade_dispose fw)"
  unfolding keeps_def
proof (intro allI impI)
  fix d :: "'a facade_scheme" assume fw: "screens_ok fw" and d: "facade_ok d"
  have "facade_le d (d\<lparr>fa_disposed := True\<rparr>)" using facade_turns [OF d, of "d\<lparr>fa_disposed := True\<rparr>"] by simp
  then show "wp (facade_dispose fw) (\<lambda>_ f. facade_ok f \<and> facade_le d f) d"
    by (intro wp_mono [OF dispose_tells_nobody [OF fw d]]) (use facade.le_trans in blast)
qed

section \<open>Going on\<close>

lemma waits_deleted:
  fixes d :: "'w facade_scheme"
  assumes "facade_ok d"
  shows "facade_ok (d\<lparr>fa_waits := AList.delete k (fa_waits d)\<rparr>) \<and> facade_le d (d\<lparr>fa_waits := AList.delete k (fa_waits d)\<rparr>)"
proof -
  have "length (filter P (AList.delete k ys)) \<le> length (filter P ys)" for P and ys :: "(nat \<times> nat \<times> facade_wait \<times> facade_source) list"
    by (induction ys) (auto simp: delete_simps)
  then show ?thesis by (intro facade_waits [OF assms]) (auto simp: preparing_def planned_def AList.delete_eq intro: bexI [rotated])
qed

lemma filter_deleted: "(k, w) \<in> set xs \<Longrightarrow> P (k, w) \<Longrightarrow> length (filter P (AList.delete k xs)) < length (filter P xs)"
proof (induction xs)
  case (Cons y ys)
  have le: "length (filter P (AList.delete k ys)) \<le> length (filter P ys)" for ys :: "('a \<times> 'b) list"
    by (induction ys) (auto simp: delete_simps)
  show ?case using Cons le [of ys] by (auto simp: delete_simps less_Suc_eq_le)
qed simp

text \<open>The step that takes over the preparation of an attempt.\<close>

lemma preparation_taken:
  fixes d :: "'w facade_scheme"
  assumes "facade_ok d" "map_of (fa_waits d) k = Some (p, wait, src)" "wait = Sync_Wait n r \<or> wait = Plan_Wait n r"
  obtains x where "save_of d n = Some x" "open_in d n (sa_review x) (d\<lparr>fa_waits := AList.delete k (fa_waits d)\<rparr>)" "wait = Plan_Wait n r \<longrightarrow> sa_review x = r"
proof -
  let ?e = "d\<lparr>fa_waits := AList.delete k (fa_waits d)\<rparr>"
  have here: "(k, p, wait, src) \<in> set (fa_waits d)" by (rule map_of_SomeD [OF assms(2)])
  then have less: "preparing ?e n < preparing d n"
    using filter_deleted [OF here, of "prepares_for n"] assms(3) by (auto simp: preparing_def prepares_for_def)
  then obtain x where x: "save_of d n = Some x" "preparing d n \<le> 1" "sa_plan x = None"
    using assms(1) unfolding facade_ok_def by (metis less_nat_zero_code not_None_eq)
  have "open_in d n (sa_review x) ?e" using waits_deleted [OF assms(1), of k] less x by (simp add: open_in_def save_of_def)
  moreover have "sa_review x = r" if "wait = Plan_Wait n r"
  proof -
    have "planned d n r" unfolding planned_def by (rule bexI [OF _ here]) (simp add: that)
    then obtain z where "save_of d n = Some z" "sa_review z = r" using assms(1) unfolding facade_ok_def by blast
    then show ?thesis using x(1) by simp
  qed
  ultimately show ?thesis using that x(1) by blast
qed

lemma promised_ok:
  fixes e :: "'w facade_scheme"
  assumes "wp m (\<lambda>_ f. facade_ok f \<and> facade_le d f) e"
  shows "wp (promising p m) (\<lambda>_ f. facade_ok f \<and> facade_le d f) e"
proof -
  obtain r f where f: "m e = (r, f)" by (cases "m e")
  then have k: "facade_ok f \<and> facade_le d f" using assms by (simp add: wp_def)
  then have "facade_ok (snd (answerF p x f)) \<and> facade_le d (snd (answerF p x f))" for x
    using keeps_snd [OF answerF_keeps [of p x], of f] facade.le_trans by blast
  with k show ?thesis by (cases r) (simp_all add: promising_def wp_def f case_prod_beta)
qed

lemmas moves_keep = facade_connected_keeps reconcileDraft_keeps protected_captured_keeps draft_opened_keeps save_answered_keeps completion_starts_keeps
  completion_read_keeps save_reconciled_keeps discard_answered_keeps discard_ended_keeps configuration_read_keeps draft_reopened_keeps

lemma other_goes_on: "screens_ok fw \<Longrightarrow> other_wait wait \<Longrightarrow> keeps_facade (goes_on fw p r a wait)"
  by (cases wait) (simp_all add: moves_keep other_wait_def)

lemma facade_settle_keeps:
  fixes fw :: "'w facade_env"
  assumes "screens_ok fw"
  shows "keeps_facade (facade_settle fw k a)"
  unfolding facade_settle_def
proof (rule keeps_at)
  fix d :: "'w facade_scheme" assume d: "facade_ok d"
  let ?Q = "\<lambda>_ f. facade_ok f \<and> facade_le d f"
  let ?e = "d\<lparr>fa_waits := AList.delete k (fa_waits d)\<rparr>"
  have stop: "wp (ret ()) ?Q d" using d by (simp add: wp_basic facade.le_refl)
  have rest: "wp (promising p (goes_on fw p r a wait)) ?Q ?e" if w: "map_of (fa_waits d) k = Some (p, wait, src)" for p wait src r
  proof (rule promised_ok, cases "other_wait wait")
    case True
    show "wp (goes_on fw p r a wait) ?Q ?e" by (rule facade.wp_later [OF other_goes_on [OF assms True] waits_deleted [OF d]])
  next
    case False
    then obtain n u where n: "wait = Sync_Wait n u \<or> wait = Plan_Wait n u" by (cases wait) (auto simp: other_wait_def)
    obtain x where "save_of d n = Some x" and x: "open_in d n (sa_review x) ?e" "wait = Plan_Wait n u \<longrightarrow> sa_review x = u"
      by (rule preparation_taken [OF d w n])
    from n show "wp (goes_on fw p r a wait) ?Q ?e"
    proof
      assume "wait = Sync_Wait n u"
      then show ?thesis using save_synchronized_ok [OF assms x(1)] by simp
    next
      assume "wait = Plan_Wait n u"
      then show ?thesis using save_prepared_ok [OF assms] x by simp
    qed
  qed
  show "wp (case map_of (fa_waits d) k of None \<Rightarrow> ret ()
     | Some (p, wait, src) \<Rightarrow> (case facade_outcome src d of None \<Rightarrow> ret ()
          | Some r \<Rightarrow> next_act (upd (\<lambda>d. d\<lparr>fa_waits := AList.delete k (fa_waits d)\<rparr>)) (promising p (goes_on fw p r a wait)))) ?Q d"
    using stop rest by (auto simp: wp_after_upd split: option.split)
qed

section \<open>Every step\<close>

lemma numbered_keeps: "(\<And>p. keeps_facade (m p)) \<Longrightarrow> keeps_facade (numbered m)"
  unfolding numbered_def by (intro keeps_withS facade.keeps_seq fresh_keeps promising_keeps)

lemma facade_cancelOperation_keeps: "screens_ok fw \<Longrightarrow> keeps_facade (facade_cancelOperation fw operation a)"
  unfolding facade_cancelOperation_def by (intro facade_rules facade.kept_cancelOperation facade_listens)

lemmas entries_keep = numbered_keeps facade_connect_keeps facade_refresh_keeps facade_adapter_keeps input_moves_keep captureProtected_keeps facade_stay_keeps
  facade_openDraft_keeps prepareSaveFor_keeps commitSave_keeps replaySave_keeps reconcileSave_keeps prepareDiscard_keeps confirmDiscard_keeps
  facade_discard_keeps reloadBaseline_keeps facade_settle_keeps facade_dispose_keeps facade.kept_session_settle [OF facade_listens]
  facade.kept_delivering [OF facade_listens] facade.kept_review_step [OF facade_listens] facade_cancelOperation_keeps

lemma facade_step_keeps:
  fixes d :: "'w facade_scheme"
  assumes "screens_ok fw" "facade_ok d"
  shows "facade_ok (facade_step fw w move d) \<and> facade_le d (facade_step fw w move d)"
  by (cases move) (simp_all add: facade.kept_snd entries_keep assms facade.le_refl)

lemma facade_runs:
  fixes d :: "'w facade_scheme"
  assumes "screens_ok fw" "facade_ok d"
  shows "facade_ok (fold (facade_step fw w) moves d) \<and> facade_le d (fold (facade_step fw w) moves d)"
  using assms(2)
proof (induction moves arbitrary: d)
  case (Cons m moves)
  then show ?case using facade_step_keeps [OF assms(1) Cons.prems, of w m] facade.le_trans by auto
qed (simp add: facade.le_refl)

end
