(* ===== verification/Review_Kept.thy ===== *)
theory Review_Kept imports Action_Review Js_Kept Session_Claims begin

text \<open>
  What every step of the review keeps: an attempt's plan is a preparation of its intent, its submission names that plan, and what is
  shown for review is the plan of the attempt at hand.
\<close>

section \<open>Invariant and order\<close>

definition attempt_ok :: "attempt \<Rightarrow> bool" where
  "attempt_ok x \<longleftrightarrow> (\<forall>plan. at_plan x = Some plan \<longrightarrow> preparationMatches (at_intent x) (fld plan ''semantics'') = Inr True)
     \<and> (\<forall>sent. at_commit x = Some sent \<longrightarrow> (\<exists>plan. at_plan x = Some plan \<and> fld sent ''planRef'' = fld plan ''planRef''))"

text \<open>The preparations of an attempt that are on their way.\<close>

definition prepares :: "'w reviewer_scheme \<Rightarrow> nat \<Rightarrow> nat" where
  "prepares d n = length (filter (\<lambda>w. fst (snd w) = Prepare_Wait n) (rv_waits d))"

definition review_ok :: "'w reviewer_scheme \<Rightarrow> bool" where
  "review_ok d \<longleftrightarrow> (\<forall>n x. attempt_of d n = Some x \<longrightarrow> n < rv_fresh d \<and> attempt_ok x \<and> prepares d n \<le> 1 \<and> (at_plan x \<noteq> None \<longrightarrow> prepares d n = 0))
     \<and> (\<forall>n. attempt_of d n = None \<longrightarrow> prepares d n = 0)
     \<and> (\<forall>n. rv_attempt d = Some n \<longrightarrow> (\<exists>x. attempt_of d n = Some x))
     \<and> (\<forall>p. rv_transition d = Reviewing p \<longrightarrow> rv_disposed d \<or> (\<exists>n x. rv_attempt d = Some n \<and> attempt_of d n = Some x \<and> at_plan x = Some p))"

text \<open>An attempt keeps its intent, and its plan comes only from a preparation on its way.\<close>

definition review_le :: "'w reviewer_scheme \<Rightarrow> 'w reviewer_scheme \<Rightarrow> bool" where
  "review_le d e \<longleftrightarrow> rv_fresh d \<le> rv_fresh e \<and> (rv_disposed d \<longrightarrow> rv_disposed e)
     \<and> (\<forall>n x. attempt_of d n = Some x \<longrightarrow> prepares e n \<le> prepares d n
          \<and> (\<exists>y. attempt_of e n = Some y \<and> at_intent y = at_intent x \<and> (prepares d n = 0 \<longrightarrow> at_plan y = at_plan x)))"

lemma review_le_trans:
  assumes "review_le a b" "review_le b c"
  shows "review_le a c"
proof -
  have "prepares c n \<le> prepares a n \<and> (\<exists>z. attempt_of c n = Some z \<and> at_intent z = at_intent x \<and> (prepares a n = 0 \<longrightarrow> at_plan z = at_plan x))"
    if x: "attempt_of a n = Some x" for n x
  proof -
    obtain y where y: "attempt_of b n = Some y" "at_intent y = at_intent x" "prepares a n = 0 \<longrightarrow> at_plan y = at_plan x" "prepares b n \<le> prepares a n"
      using assms(1) x unfolding review_le_def by blast
    obtain z where "attempt_of c n = Some z" "at_intent z = at_intent y" "prepares b n = 0 \<longrightarrow> at_plan z = at_plan y" "prepares c n \<le> prepares b n"
      using assms(2) y(1) unfolding review_le_def by blast
    then show ?thesis using y by auto
  qed
  then show ?thesis using assms unfolding review_le_def by auto
qed

interpretation review: keeping "review_ok" review_le
  by unfold_locales (simp add: review_le_def, rule review_le_trans)

abbreviation keeps_review :: "('w, 'a) in_review \<Rightarrow> bool" where
  "keeps_review m \<equiv> keeps review_ok review_le m"

text \<open>The listeners of the store and of the controller keep it too.\<close>

definition listeners_ok :: "'w review_env \<Rightarrow> bool" where
  "listeners_ok rw \<longleftrightarrow> (\<forall>v d. review_ok d \<longrightarrow> review_ok (rw_hear rw v d) \<and> review_le d (rw_hear rw v d))
     \<and> (\<forall>v d. review_ok d \<longrightarrow> review_ok (rw_tell rw v d) \<and> review_le d (rw_tell rw v d))
     \<and> (\<forall>d. review_ok d \<longrightarrow> review_ok (rw_work rw d) \<and> review_le d (rw_work rw d))"

section \<open>Statements\<close>

text \<open>Writes to fields of which the invariant does not speak.\<close>

lemma prepares_fields: "rv_waits e = rv_waits d \<Longrightarrow> prepares e = prepares d"
  by (rule ext) (simp add: prepares_def)

lemma review_same:
  assumes "review_ok d" "rv_attempts e = rv_attempts d" "rv_attempt e = rv_attempt d" "rv_transition e = rv_transition d"
    "rv_disposed e = rv_disposed d" "rv_waits e = rv_waits d" "rv_fresh e = rv_fresh d"
  shows "review_ok e \<and> review_le d e"
  using assms prepares_fields [OF assms(6)] by (auto simp: review_ok_def review_le_def attempt_of_def)

lemma review_now: "keeps_review m \<Longrightarrow> review_ok d \<Longrightarrow> wp m (\<lambda>_ f. review_ok f \<and> review_le d f) d"
  by (rule keepsD)

lemma keeps_same:
  assumes "\<And>d. rv_attempts (g d) = rv_attempts d \<and> rv_attempt (g d) = rv_attempt d \<and> rv_transition (g d) = rv_transition d
    \<and> rv_disposed (g d) = rv_disposed d \<and> rv_waits (g d) = rv_waits d \<and> rv_fresh (g d) = rv_fresh d"
  shows "keeps_review (upd g)"
  by (rule review.keeps_upd, rule review_same) (simp_all add: assms)

lemma publishV_keeps:
  assumes "listeners_ok rw"
  shows "keeps_review (publishV rw)"
  unfolding publishV_def
proof (intro keeps_withS keeps_if review.keeps_ret review.keeps_upd)
  fix d :: "'a reviewer_scheme" assume d: "review_ok d"
  let ?e = "d\<lparr>rv_publication := Suc (rv_publication d)\<rparr>"
  have e: "review_ok ?e \<and> review_le d ?e" by (rule review_same [OF d]) simp_all
  then have "review_ok (rw_tell rw (review_state ?e) ?e) \<and> review_le ?e (rw_tell rw (review_state ?e) ?e)"
    using assms by (simp add: listeners_ok_def)
  then show "review_ok (let e = ?e in rw_tell rw (review_state e) e) \<and> review_le d (let e = ?e in rw_tell rw (review_state e) e)"
    using e review.le_trans by (auto simp: Let_def)
qed

lemma sayV_keeps: "listeners_ok rw \<Longrightarrow> keeps_review (sayV rw message urgent)"
  unfolding sayV_def announceV_def by (intro review.keeps_seq publishV_keeps keeps_same) simp_all

lemma idle_keeps:
  assumes "review_ok d" "rv_attempts e = rv_attempts d" "rv_attempt e = rv_attempt d \<or> rv_attempt e = None" "\<And>p. rv_transition e = Reviewing p \<Longrightarrow> rv_disposed e"
    "rv_disposed e = rv_disposed d" "rv_waits e = rv_waits d" "rv_fresh e = rv_fresh d"
  shows "review_ok e \<and> review_le d e"
  using assms prepares_fields [OF assms(6)] by (auto simp: review_ok_def review_le_def attempt_of_def)

lemma drops_keeps: "keeps_review drops_attempt"
  by (rule review.keeps_upd, rule idle_keeps) simp_all

lemma becomes_keeps: "(\<And>p. t \<noteq> Reviewing p) \<Longrightarrow> keeps_review (becomes t)"
  by (rule review.keeps_upd, rule idle_keeps) simp_all

text \<open>A change of one attempt that leaves its intent and its plan alone.\<close>

lemma attempt_of_update: "attempt_of (d\<lparr>rv_attempts := AList.update n x (rv_attempts d)\<rparr>) m = (if m = n then Some x else attempt_of d m)"
  by (simp add: attempt_of_def)

lemma set_attempt_same:
  assumes "review_ok d" "attempt_of d n = Some x" "attempt_ok y" "at_intent y = at_intent x" "at_plan y = at_plan x"
  shows "review_ok (d\<lparr>rv_attempts := AList.update n y (rv_attempts d)\<rparr>) \<and> review_le d (d\<lparr>rv_attempts := AList.update n y (rv_attempts d)\<rparr>)"
proof -
  let ?e = "d\<lparr>rv_attempts := AList.update n y (rv_attempts d)\<rparr>"
  have p: "prepares ?e = prepares d" by (rule prepares_fields) simp
  have first: "m < rv_fresh d \<and> attempt_ok z \<and> prepares d m \<le> 1 \<and> (at_plan z \<noteq> None \<longrightarrow> prepares d m = 0)" if "attempt_of ?e m = Some z" for m z
    using that assms by (auto simp: attempt_of_update review_ok_def split: if_splits)
  have second: "prepares d m = 0" if "attempt_of ?e m = None" for m
    using that assms(1) by (auto simp: attempt_of_update review_ok_def split: if_splits)
  have third: "\<exists>z. attempt_of ?e m = Some z" if "rv_attempt d = Some m" for m
    using that assms(1) by (auto simp: attempt_of_update review_ok_def)
  have "rv_disposed d \<or> (\<exists>n' z. rv_attempt d = Some n' \<and> attempt_of ?e n' = Some z \<and> at_plan z = Some p)"
    if t: "rv_transition d = Reviewing p" for p
  proof (cases "rv_disposed d")
    case False
    then obtain n' z where "rv_attempt d = Some n'" "attempt_of d n' = Some z" "at_plan z = Some p" using assms(1) t unfolding review_ok_def by blast
    then show ?thesis using assms(2,5) by (auto simp: attempt_of_update)
  qed simp
  with first second third have "review_ok ?e" unfolding review_ok_def p by simp
  moreover have "review_le d ?e" using assms unfolding review_le_def p by (auto simp: attempt_of_update)
  ultimately show ?thesis by blast
qed

lemma set_attempt_keeps:
  assumes "\<And>x. attempt_ok x \<Longrightarrow> attempt_ok (f x) \<and> at_intent (f x) = at_intent x \<and> at_plan (f x) = at_plan x"
  shows "keeps_review (set_attempt n f)"
  unfolding set_attempt_def
proof (rule review.keeps_upd)
  fix d :: "'a reviewer_scheme" assume d: "review_ok d"
  let ?e = "case attempt_of d n of None \<Rightarrow> d | Some x \<Rightarrow> d\<lparr>rv_attempts := AList.update n (f x) (rv_attempts d)\<rparr>"
  show "review_ok ?e \<and> review_le d ?e"
  proof (cases "attempt_of d n")
    case (Some x)
    then have "attempt_ok x" using d by (simp add: review_ok_def)
    then show ?thesis using set_attempt_same [OF d Some] assms [of x] by (simp add: Some)
  qed (simp add: d review.le_refl)
qed

text \<open>A store method is heard by the controller, which must keep the invariant too.\<close>

lemma callS_review: "keeps_review (callS opt valid k m input a)"
  unfolding callS_def
  by (rule keeps_withS) (auto split: prod.split call_result.split intro!: review.keeps_seq review.keeps_ret review.keeps_ask keeps_same)

lemma waits_keep:
  assumes "review_ok d" "rv_attempts e = rv_attempts d" "rv_attempt e = rv_attempt d" "rv_transition e = rv_transition d"
    "rv_disposed e = rv_disposed d" "rv_fresh d \<le> rv_fresh e" "\<And>n. prepares e n \<le> prepares d n"
  shows "review_ok e \<and> review_le d e"
proof -
  have less: "prepares e n \<le> prepares d n" "prepares d n = 0 \<Longrightarrow> prepares e n = 0" for n using assms(7) [of n] by simp_all
  have of': "attempt_of e = attempt_of d" using assms(2) by (simp add: attempt_of_def fun_eq_iff)
  have "n < rv_fresh e \<and> attempt_ok x \<and> prepares e n \<le> 1 \<and> (at_plan x \<noteq> None \<longrightarrow> prepares e n = 0)" if "attempt_of d n = Some x" for n x
    using assms(1,6) that less [of n] by (fastforce simp: review_ok_def)
  then have "review_ok e" using assms(1,3-5) less(2) unfolding review_ok_def of' by simp
  moreover have "review_le d e" using assms(5,6) less(1) unfolding review_le_def of' by simp
  ultimately show ?thesis by blast
qed

lemma await_keeps: "(\<And>n. k \<noteq> Prepare_Wait n) \<Longrightarrow> keeps_review (await k src)"
  unfolding await_def by (rule review.keeps_upd, rule waits_keep) (simp_all add: prepares_def)

lemma command_then_keeps: "(\<And>n. wait \<noteq> Prepare_Wait n) \<Longrightarrow> keeps_review (command_then rw k name input a wait)"
  unfolding command_then_def by (intro keeps_withS review.keeps_seq callS_review await_keeps)

lemma clientB_review: "keeps_review (clientB f)"
  unfolding keeps_def wp_def clientB_def
proof (intro allI impI)
  fix d :: "'a reviewer_scheme" assume d: "review_ok d"
  obtain c b where f: "f (d_client d) = (c, b)" by (cases "f (d_client d)")
  have "review_ok (d\<lparr>d_client := c\<rparr>) \<and> review_le d (d\<lparr>d_client := c\<rparr>)" by (rule review_same [OF d]) simp_all
  then show "case case f (d_client d) of (c, b) \<Rightarrow> (Inr b, d\<lparr>d_client := c\<rparr>) of (r, e) \<Rightarrow> review_ok e \<and> review_le d e" by (simp add: f)
qed

lemma set_custody_keeps:
  "keeps_review (set_attempt n (\<lambda>x. x\<lparr>at_ownsReplay := b\<rparr>))" "keeps_review (set_attempt n (\<lambda>x. x\<lparr>at_provedUnsent := b\<rparr>))"
  "keeps_review (set_attempt n (\<lambda>x. x\<lparr>at_ownsReplay := b, at_capture := v\<rparr>))" "keeps_review (set_attempt n (\<lambda>x. x\<lparr>at_priorUncertain := b\<rparr>))"
  "keeps_review (set_attempt n (\<lambda>x. x\<lparr>at_capture := v\<rparr>))" "keeps_review (set_attempt n (\<lambda>x. x\<lparr>at_operationId := i, at_request := m\<rparr>))"
  by (rule set_attempt_keeps, simp add: attempt_ok_def)+

lemma keeps_bool: "(b \<Longrightarrow> keeps ok le m) \<Longrightarrow> (\<not> b \<Longrightarrow> keeps ok le n) \<Longrightarrow> keeps ok le (case b of True \<Rightarrow> m | False \<Rightarrow> n)"
  by (cases b) simp_all

lemma keeps_transition:
  "(\<And>p. v = Reviewing p \<Longrightarrow> keeps ok le (f p)) \<Longrightarrow> keeps ok le m
    \<Longrightarrow> keeps ok le (case v of Idle \<Rightarrow> m | Preparing \<Rightarrow> m | Admitting \<Rightarrow> m | Uncertain \<Rightarrow> m | Reviewing p \<Rightarrow> f p | Observing i \<Rightarrow> m)"
  by (cases v) simp_all

lemmas review_rules = review.keeps_forms keeps_bool keeps_outcome keeps_transition publishV_keeps sayV_keeps drops_keeps becomes_keeps
  await_keeps command_then_keeps clientB_review callS_review set_custody_keeps

lemma releaseOwnedReplay_keeps: "keeps_review (releaseOwnedReplay n unsent)"
  unfolding releaseOwnedReplay_def Let_def by (intro review_rules)

lemma settleRecovery_keeps: "keeps_review (settleRecovery held)"
  unfolding settleRecovery_def by (intro review_rules releaseOwnedReplay_keeps keeps_same) simp_all

lemma settleRecoveries_keeps: "keeps_review (settleRecoveries hs b)"
  by (induction hs arbitrary: b) (auto intro!: review_rules settleRecovery_keeps)

lemma recovery_keeps: "keeps_review (upd (\<lambda>d. d\<lparr>rv_recovery := f d, rv_attempt := None, rv_transition := Idle\<rparr>))"
  by (rule review.keeps_upd, rule idle_keeps) simp_all

lemma plain_writes:
  "keeps_review (upd (\<lambda>d. d\<lparr>rv_settling := b\<rparr>))" "keeps_review (upd (\<lambda>d. d\<lparr>rv_cancelling := f d\<rparr>))"
  "keeps_review (upd (\<lambda>d. d\<lparr>rv_focus := g d\<rparr>))" "keeps_review (upd (\<lambda>d. d\<lparr>rv_recovery := h d\<rparr>))"
  "keeps_review (clientU k)"
  unfolding clientU_def by (rule keeps_same, simp)+

lemma followOperation_keeps: "listeners_ok rw \<Longrightarrow> keeps_review (followOperation rw)"
  unfolding followOperation_def Let_def by (intro review_rules releaseOwnedReplay_keeps recovery_keeps plain_writes)

lemma reconcileObserved_keeps: "listeners_ok rw \<Longrightarrow> keeps_review (reconcileObserved rw)"
  unfolding reconcileObserved_def by (intro review_rules settleRecoveries_keeps followOperation_keeps)

lemma review_hears_ok:
  assumes "listeners_ok rw" "review_ok d"
  shows "review_ok (review_hears rw v d) \<and> review_le d (review_hears rw v d)"
proof -
  let ?c = "rw_work rw d"
  have c: "review_ok ?c \<and> review_le d ?c" using assms by (simp add: listeners_ok_def)
  let ?e = "if rv_disposed ?c then ?c else snd (reconcileObserved rw ?c)"
  have "review_ok ?e \<and> review_le ?c ?e"
    using keeps_snd [OF reconcileObserved_keeps [OF assms(1)], of ?c] c review.le_refl [of ?c] by simp
  then have e: "review_ok ?e \<and> review_le d ?e" using c review.le_trans by blast
  then have "review_ok (rw_hear rw v ?e) \<and> review_le ?e (rw_hear rw v ?e)" using assms(1) by (simp add: listeners_ok_def)
  then show ?thesis unfolding review_hears_def Let_def using e review.le_trans by blast
qed

lemma review_heard:
  assumes "listeners_ok rw" "review_ok d"
  shows "review_ok (fold (heard_by (review_hears rw)) news d) \<and> review_le d (fold (heard_by (review_hears rw)) news d)"
  using assms(2)
proof (induction news arbitrary: d)
  case (Cons v news)
  let ?c = "d\<lparr>d_ctx := snd (onObservation v (d_ctx d))\<rparr>"
  have c: "review_ok ?c \<and> review_le d ?c" by (rule review_same [OF Cons.prems]) simp_all
  then have e: "review_ok (heard_by (review_hears rw) v d) \<and> review_le d (heard_by (review_hears rw) v d)"
    unfolding heard_by_def using review_hears_ok [OF assms(1)] review.le_trans by blast
  then show ?case using Cons.IH [of "heard_by (review_hears rw) v d"] review.le_trans by auto
qed (simp add: review.le_refl)

lemma storeV_keeps:
  assumes "listeners_ok rw"
  shows "keeps_review (storeV rw f)"
  unfolding storeS_def
proof (rule keeps_at)
  fix d :: "'a reviewer_scheme" assume d: "review_ok d"
  obtain st b where f: "f (d_store d) = (st, b)" by (cases "f (d_store d)")
  let ?d = "d\<lparr>d_ctx := (d_ctx d)\<lparr>w_store := st\<rparr>\<rparr>"
  have "review_ok ?d \<and> review_le d ?d" by (rule review_same [OF d]) simp_all
  then have "review_ok (fold (heard_by (review_hears rw)) news ?d) \<and> review_le d (fold (heard_by (review_hears rw)) news ?d)" for news
    using review_heard [OF assms] review.le_trans by blast
  then show "wp (let (st, ok) = f (d_store d); news = drop (length (published (d_store d))) (published st)
      in next_act (upd (\<lambda>d. fold (heard_by (review_hears rw)) news (d\<lparr>d_ctx := (d_ctx d)\<lparr>w_store := st\<rparr>\<rparr>))) (ret ok)) (\<lambda>_ e. review_ok e \<and> review_le d e) d"
    by (simp add: f Let_def wp_rules)
qed

lemma shows_plan:
  assumes "review_ok d" "rv_attempt d = Some n" "attempt_of d n = Some x" "at_plan x = Some plan"
  shows "review_ok (d\<lparr>rv_transition := Reviewing plan\<rparr>) \<and> review_le d (d\<lparr>rv_transition := Reviewing plan\<rparr>)"
proof -
  have p: "prepares (d\<lparr>rv_transition := Reviewing plan\<rparr>) = prepares d" by (rule prepares_fields) simp
  have a: "attempt_of (d\<lparr>rv_transition := Reviewing plan\<rparr>) = attempt_of d" by (simp add: attempt_of_def fun_eq_iff)
  show ?thesis using assms by (auto simp: review_ok_def review_le_def p a)
qed

lemma to_review:
  fixes d :: "'w reviewer_scheme"
  assumes "listeners_ok rw" "review_ok d" "rv_attempt d = Some n" "attempt_of d n = Some x" "at_plan x = Some plan"
  shows "wp (not_submitted rw n plan) (\<lambda>_ e. review_ok e \<and> review_le d e) d"
proof -
  let ?y = "x\<lparr>at_provedUnsent := True\<rparr>"
  let ?e = "d\<lparr>rv_attempts := AList.update n ?y (rv_attempts d)\<rparr>"
  have "attempt_ok x" using assms(2,4) by (simp add: review_ok_def)
  then have "attempt_ok ?y" by (simp add: attempt_ok_def)
  then have e: "review_ok ?e \<and> review_le d ?e" using set_attempt_same [OF assms(2,4), of ?y] by simp
  have "review_ok (?e\<lparr>rv_transition := Reviewing plan\<rparr>) \<and> review_le ?e (?e\<lparr>rv_transition := Reviewing plan\<rparr>)"
    by (rule shows_plan [where n = n and x = ?y]) (use e assms(3,5) in \<open>simp_all add: attempt_of_update\<close>)
  then have "review_ok (?e\<lparr>rv_transition := Reviewing plan\<rparr>) \<and> review_le d (?e\<lparr>rv_transition := Reviewing plan\<rparr>)"
    using e review.le_trans by blast
  from review.wp_later [OF sayV_keeps [OF assms(1)] this] show ?thesis
    by (simp add: not_submitted_def set_attempt_def wp_after_upd assms(4))
qed

lemma unconfirmed_keeps: "listeners_ok rw \<Longrightarrow> keeps_review (unconfirmed rw)"
  unfolding unconfirmed_def by (intro review_rules) simp

lemma owns_answer_keeps: "keeps_review (owns_answer n r again)"
  unfolding owns_answer_def by (intro review_rules)

lemma admitted_keeps: "listeners_ok rw \<Longrightarrow> keeps_review (admitted rw n operation m)"
  unfolding admitted_def Let_def by (intro review_rules storeV_keeps reconcileObserved_keeps) simp_all

lemma owns_answer_attempt: "wp (owns_answer n r again) (\<lambda>_ e. rv_attempt e = rv_attempt d) d"
  by (simp add: owns_answer_def wp_rules set_attempt_def split: option.split)

text \<open>What follows an action that keeps the invariant and the attempt at hand.\<close>

lemma wp_next_at:
  fixes d :: "'w reviewer_scheme"
  assumes "keeps_review m" "wp m (\<lambda>_ e. rv_attempt e = rv_attempt d) d" "review_ok d"
    and m': "\<And>e. review_ok e \<Longrightarrow> rv_attempt e = rv_attempt d \<Longrightarrow> wp m' (\<lambda>_ f. review_ok f \<and> review_le e f) e"
  shows "wp (next_act m m') (\<lambda>_ f. review_ok f \<and> review_le d f) d"
proof -
  have "wp m (\<lambda>_ e. (review_ok e \<and> review_le d e) \<and> rv_attempt e = rv_attempt d) d"
    using keepsD [OF assms(1) assms(3)] assms(2) by (simp only: wp_conj)
  then show ?thesis unfolding wp_seq
  proof (rule wp_mono)
    fix r e assume e: "(review_ok e \<and> review_le d e) \<and> rv_attempt e = rv_attempt d"
    then have "wp m' (\<lambda>_ f. review_ok f \<and> review_le e f) e" using m' by blast
    then have "wp m' (\<lambda>_ f. review_ok f \<and> review_le d f) e" by (rule wp_mono) (use e review.le_trans in blast)
    with e show "(\<forall>x. r = Inl x \<longrightarrow> review_ok e \<and> review_le d e) \<and> (\<forall>x. r = Inr x \<longrightarrow> wp m' (\<lambda>_ f. review_ok f \<and> review_le d f) e)" by blast
  qed
qed

lemma acceptCommit_ok:
  fixes d :: "'w reviewer_scheme"
  assumes "listeners_ok rw" "review_ok d" "rv_attempt d = Some n"
  shows "wp (acceptCommit rw n r again epoch confidence) (\<lambda>_ e. review_ok e \<and> review_le d e) d"
  unfolding acceptCommit_def
proof (rule wp_next_at [OF owns_answer_keeps owns_answer_attempt assms(2)])
  fix e :: "'w reviewer_scheme" assume e: "review_ok e" "rv_attempt e = rv_attempt d"
  note now = keepsD [OF unconfirmed_keeps [OF assms(1)] e(1)] keepsD [OF admitted_keeps [OF assms(1)] e(1)]
    keepsD [OF review.keeps_unless [OF unconfirmed_keeps [OF assms(1)] admitted_keeps [OF assms(1)]] e(1)]
    keepsD [OF review.keeps_ret e(1)]
  show "wp (withS (\<lambda>d. case attempt_of d n of
        None \<Rightarrow> ret ()
      | Some x \<Rightarrow>
          (case r of
             Faulted f \<Rightarrow>
               (case at_plan x of
                  Some plan \<Rightarrow>
                    if \<not> again \<and> \<not> at_priorUncertain x \<and> f_delivery f = Not_Sent then not_submitted rw n plan else unconfirmed rw
                | None \<Rightarrow> unconfirmed rw)
           | Rejected _ _ \<Rightarrow> unconfirmed rw
           | Returned operation m \<Rightarrow> unlessS (admissionRefused x operation epoch confidence) (unconfirmed rw) (admitted rw n operation m))))
     (\<lambda>_ f. review_ok f \<and> review_le e f) e"
    using now to_review [OF assms(1) e(1)] e(2) assms(3) by (simp add: wp_basic split: option.split outcome.split)
qed

lemma reconciled_keeps: "listeners_ok rw \<Longrightarrow> keeps_review (reconciled rw n i epoch confidence r)"
  unfolding reconciled_def Let_def by (intro review_rules storeV_keeps)

lemma review_reconcile_keeps: "keeps_review (review_reconcile rw a)"
  unfolding review_reconcile_def by (intro review_rules) simp_all

lemma cancelOperation_keeps: "listeners_ok rw \<Longrightarrow> keeps_review (cancelOperation rw operation a)"
  unfolding cancelOperation_def Let_def by (intro review_rules plain_writes) simp_all

lemma cancelled_keeps: "listeners_ok rw \<Longrightarrow> keeps_review (cancelled rw captured key epoch r)"
  unfolding cancelled_def Let_def by (intro review_rules storeV_keeps plain_writes)

lemma review_replay_keeps: "listeners_ok rw \<Longrightarrow> keeps_review (review_replay rw a)"
  unfolding review_replay_def Let_def by (intro review_rules) simp_all

lemma review_stay_keeps: "listeners_ok rw \<Longrightarrow> keeps_review (review_stay rw)"
  unfolding review_stay_def by (intro review_rules releaseOwnedReplay_keeps plain_writes) simp_all

lemma submit_keeps: "(\<And>n. wait \<noteq> Prepare_Wait n) \<Longrightarrow> keeps_review (submit rw n sent a wait)"
  unfolding submit_def Let_def by (intro review_rules) assumption

section \<open>A new attempt\<close>

text \<open>The attempt has no plan and nothing is on its way for it yet.\<close>

definition fresh_in :: "'w reviewer_scheme \<Rightarrow> nat \<Rightarrow> 'w reviewer_scheme \<Rightarrow> bool" where
  "fresh_in d n e \<longleftrightarrow> review_ok e \<and> review_le d e \<and> attempt_of d n = None \<and> prepares e n = 0 \<and> (\<exists>x. attempt_of e n = Some x \<and> at_plan x = None)"

lemma fresh_later:
  assumes "fresh_in d n e" "review_ok f" "review_le e f"
  shows "fresh_in d n f"
proof -
  obtain x where x: "attempt_of e n = Some x" "at_plan x = None" "prepares e n = 0" using assms(1) unfolding fresh_in_def by blast
  then obtain y where "attempt_of f n = Some y" "at_plan y = at_plan x" "prepares f n \<le> prepares e n" using assms(3) unfolding review_le_def by blast
  moreover have "review_le d f" using assms(1,3) review.le_trans unfolding fresh_in_def by blast
  ultimately show ?thesis using assms(1,2) x by (simp add: fresh_in_def)
qed

lemma fresh_starts:
  fixes d :: "'w reviewer_scheme"
  assumes d: "review_ok d"
  shows "fresh_in d (rv_fresh d) (d\<lparr>rv_fresh := Suc (rv_fresh d), rv_attempts := AList.update (rv_fresh d) (new_attempt i k p) (rv_attempts d),
    rv_attempt := Some (rv_fresh d), rv_transition := Preparing\<rparr>)" (is "fresh_in d ?n ?e")
proof -
  have none: "attempt_of d ?n = None" using d unfolding review_ok_def by (metis less_irrefl not_None_eq)
  have p: "prepares ?e = prepares d" by (rule prepares_fields) simp
  have a: "attempt_of ?e m = (if m = ?n then Some (new_attempt i k p) else attempt_of d m)" for m by (simp add: attempt_of_def)
  have zero: "prepares d ?n = 0" using d none by (simp add: review_ok_def)
  have "review_ok ?e" unfolding review_ok_def a p
  proof (intro conjI allI impI)
    fix m x assume "(if m = ?n then Some (new_attempt i k p) else attempt_of d m) = Some x"
    then show "m < rv_fresh ?e" "attempt_ok x" "prepares d m \<le> 1" "at_plan x \<noteq> None \<Longrightarrow> prepares d m = 0"
      using d zero unfolding review_ok_def by (fastforce simp: attempt_ok_def new_attempt_def split: if_splits)+
  next
    fix m assume "(if m = ?n then Some (new_attempt i k p) else attempt_of d m) = None"
    then show "prepares d m = 0" using d by (simp add: review_ok_def split: if_splits)
  qed simp_all
  moreover have "review_le d ?e" using none unfolding review_le_def p by (auto simp: a)
  ultimately show ?thesis using none zero by (simp only: fresh_in_def p a) (simp add: new_attempt_def)
qed

lemma fresh_awaits:
  fixes e :: "'w reviewer_scheme"
  assumes "fresh_in d n e"
  shows "wp (await (Prepare_Wait n) src) (\<lambda>_ f. review_ok f \<and> review_le d f) e"
proof -
  let ?f = "e\<lparr>rv_fresh := Suc (rv_fresh e), rv_waits := rv_waits e @ [(rv_fresh e, Prepare_Wait n, src)]\<rparr>"
  have p: "prepares ?f m = (if m = n then Suc (prepares e m) else prepares e m)" for m by (simp add: prepares_def)
  have a: "attempt_of ?f m = attempt_of e m" for m by (simp add: attempt_of_def)
  obtain x where x: "attempt_of e n = Some x" "at_plan x = None" "prepares e n = 0" "review_ok e" "review_le d e" "attempt_of d n = None"
    using assms unfolding fresh_in_def by blast
  have "review_ok ?f" unfolding review_ok_def a p
  proof (intro conjI allI impI)
    fix m y assume "attempt_of e m = Some y"
    then show "m < rv_fresh ?f" "attempt_ok y" "(if m = n then Suc (prepares e m) else prepares e m) \<le> 1"
      "at_plan y \<noteq> None \<Longrightarrow> (if m = n then Suc (prepares e m) else prepares e m) = 0"
      using x unfolding review_ok_def by (fastforce split: if_splits)+
  qed (use x in \<open>auto simp: review_ok_def\<close>)
  moreover have "review_le d ?f" using x(5,6) unfolding review_le_def a p by auto
  ultimately show ?thesis by (simp add: await_def wp_rules)
qed

lemma wp_fresh_seq:
  fixes e :: "'w reviewer_scheme"
  assumes "keeps_review m" "fresh_in d n e" "\<And>x f. fresh_in d n f \<Longrightarrow> wp (g x) (\<lambda>_ h. review_ok h \<and> review_le d h) f"
  shows "wp (seq m g) (\<lambda>_ h. review_ok h \<and> review_le d h) e"
proof -
  have "review_ok e" using assms(2) by (simp add: fresh_in_def)
  from keepsD [OF assms(1) this] have "wp m (\<lambda>_ f. fresh_in d n f) e" by (rule wp_mono) (use fresh_later [OF assms(2)] in blast)
  then show ?thesis unfolding wp_seq by (rule wp_mono) (use assms(3) in \<open>auto simp: fresh_in_def\<close>)
qed

lemma wp_fresh:
  fixes e :: "'w reviewer_scheme"
  assumes "keeps_review m" "fresh_in d n e"
  shows "wp m (\<lambda>_ h. review_ok h \<and> review_le d h) e"
  by (rule review.wp_later [OF assms(1)]) (use assms(2) in \<open>simp add: fresh_in_def\<close>)

lemma prepare_asks_ok:
  fixes e :: "'w reviewer_scheme"
  assumes "listeners_ok rw" "fresh_in d n e"
  shows "wp (prepare_asks rw n captured epoch a) (\<lambda>_ f. review_ok f \<and> review_le d f) e"
proof -
  have drop: "wp (next_act drops_attempt (next_act (sayV rw m u) (ret (Nothing :: jv review_reply)))) (\<lambda>_ f. review_ok f \<and> review_le d f) e" for m u
    by (rule wp_fresh [OF _ assms(2)]) (intro review_rules assms(1))
  have ask: "wp (command_then rw Command ''prepare'' i a (Prepare_Wait n)) (\<lambda>_ f. review_ok f \<and> review_le d f) e" for i
    unfolding command_then_def wp_basic by (rule wp_fresh_seq [OF callS_review assms(2)]) (rule fresh_awaits)
  have next_ret: "wp (next_act m (ret x)) Q e" if "wp m (\<lambda>_ f. Q (Inr x) f \<and> (\<forall>y. Q (Inl y) f)) e" for m :: "('w, unit) in_review" and x :: "jv review_reply" and Q
    unfolding wp_seq by (rule wp_mono [OF that]) (simp add: wp_rules)
  show ?thesis unfolding prepare_asks_def wp_basic
    using drop next_ret [OF wp_mono [OF ask]] assms(2) by (simp add: wp_basic fresh_in_def)
qed

lemma review_prepare_keeps:
  fixes rw :: "'w review_env"
  assumes "listeners_ok rw"
  shows "keeps_review (review_prepare rw intent focusKey a)"
  unfolding review_prepare_def Let_def
proof (rule keeps_at)
  fix d :: "'w reviewer_scheme" assume d: "review_ok d"
  let ?Q = "\<lambda>_ f. review_ok f \<and> review_le d f"
  have stop: "wp (ret (Nothing :: jv review_reply)) ?Q d" using d by (simp add: wp_basic review.le_refl)
  have fails: "wp (next_act (sayV rw m u) (ret (Nothing :: jv review_reply))) ?Q d" for m u
    by (rule review_now [OF _ d]) (intro review_rules assms)
  have go: "wp (next_act (publishV rw) (prepare_asks rw (rv_fresh d) captured epoch a)) ?Q
      (d\<lparr>rv_fresh := Suc (rv_fresh d), rv_attempts := AList.update (rv_fresh d) (new_attempt captured focusKey epoch) (rv_attempts d),
         rv_attempt := Some (rv_fresh d), rv_transition := Preparing\<rparr>)" for captured epoch
    by (rule wp_fresh_seq [OF publishV_keeps [OF assms] fresh_starts [OF d]]) (rule prepare_asks_ok [OF assms])
  show "wp (if rv_disposed d \<or> rv_transition d \<noteq> Idle \<or> \<not> rw_canPrepare rw d then ret Nothing
     else if epochLost (cursor_host (d_store d)) d then ret Nothing
       else case capture intent of
         Inl _ \<Rightarrow> next_act (sayV rw ''Action review is unavailable.'' True) (ret Nothing)
       | Inr captured \<Rightarrow>
           next_act (upd (\<lambda>e. e\<lparr>rv_fresh := Suc (rv_fresh d), rv_attempts := AList.update (rv_fresh d) (new_attempt captured focusKey (cursor_host (d_store d))) (rv_attempts e),
              rv_attempt := Some (rv_fresh d), rv_transition := Preparing\<rparr>))
           (next_act (publishV rw) (prepare_asks rw (rv_fresh d) captured (cursor_host (d_store d)) a))) ?Q d"
    using stop fails go by (simp add: wp_after_upd split: sum.split)
qed

lemma prepareRecovery_keeps: "listeners_ok rw \<Longrightarrow> keeps_review (prepareRecovery rw operation focusKey a)"
  unfolding prepareRecovery_def by (intro review_rules review_prepare_keeps)

section \<open>A plan arrives\<close>

lemma filter_delete: "(k, w) \<in> set xs \<Longrightarrow> P (k, w) \<Longrightarrow> length (filter P (AList.delete k xs)) < length (filter P xs)"
proof (induction xs)
  case (Cons y ys)
  have le: "length (filter P (AList.delete k ys)) \<le> length (filter P ys)" for ys :: "('a \<times> 'b) list"
    by (induction ys) (auto simp: delete_simps)
  show ?case using Cons le [of ys] by (auto simp: delete_simps less_Suc_eq_le)
qed simp

lemma delete_prepares: "prepares (d\<lparr>rv_waits := AList.delete k (rv_waits d)\<rparr>) n \<le> prepares d n"
proof -
  have "length (filter P (AList.delete k ys)) \<le> length (filter P ys)" for P and ys :: "(nat \<times> review_wait \<times> outcome_source) list"
    by (induction ys) (auto simp: delete_simps)
  then show ?thesis by (simp add: prepares_def)
qed

lemma wait_deleted:
  assumes "review_ok d"
  shows "review_ok (d\<lparr>rv_waits := AList.delete k (rv_waits d)\<rparr>) \<and> review_le d (d\<lparr>rv_waits := AList.delete k (rv_waits d)\<rparr>)"
  by (rule waits_keep [OF assms]) (simp_all add: delete_prepares)

text \<open>The attempt whose only preparation has been taken out gets its plan.\<close>

definition arrived_at :: "'w reviewer_scheme \<Rightarrow> nat \<Rightarrow> 'w reviewer_scheme \<Rightarrow> bool" where
  "arrived_at d n e \<longleftrightarrow> review_ok e \<and> review_le d e \<and> prepares d n \<noteq> 0 \<and> prepares e n = 0 \<and> (\<forall>x. attempt_of e n = Some x \<longrightarrow> at_plan x = None)"

lemma prepare_arrives:
  assumes "review_ok d" "map_of (rv_waits d) k = Some (Prepare_Wait n, src)"
  shows "arrived_at d n (d\<lparr>rv_waits := AList.delete k (rv_waits d)\<rparr>)"
proof -
  let ?e = "d\<lparr>rv_waits := AList.delete k (rv_waits d)\<rparr>"
  have "prepares ?e n < prepares d n"
    using filter_delete [OF map_of_SomeD [OF assms(2)], of "\<lambda>w. fst (snd w) = Prepare_Wait n"] by (simp add: prepares_def)
  moreover obtain x where x: "attempt_of d n = Some x" "prepares d n \<le> 1" "at_plan x = None"
    using assms(1) \<open>prepares ?e n < prepares d n\<close> unfolding review_ok_def by (metis less_nat_zero_code not_None_eq)
  ultimately show ?thesis using wait_deleted [OF assms(1), of k] by (simp add: arrived_at_def attempt_of_def)
qed

lemma plan_shown:
  fixes d :: "'w reviewer_scheme"
  assumes "arrived_at d n e" "rv_attempt e = Some n" "attempt_of e n = Some x" "preparationMatches (at_intent x) (fld plan ''semantics'') = Inr True"
  defines "f \<equiv> e\<lparr>rv_attempts := AList.update n (x\<lparr>at_plan := Some plan\<rparr>) (rv_attempts e), rv_transition := Reviewing plan\<rparr>"
  shows "review_ok f \<and> review_le d f"
proof -
  have p: "prepares f = prepares e" unfolding f_def by (rule prepares_fields) simp
  have a: "attempt_of f m = (if m = n then Some (x\<lparr>at_plan := Some plan\<rparr>) else attempt_of e m)" for m by (simp add: f_def attempt_of_def)
  have e: "review_ok e" "review_le d e" "prepares d n \<noteq> 0" "prepares e n = 0" "at_plan x = None" using assms(1,3) by (auto simp: arrived_at_def)
  then have x: "attempt_ok x" "n < rv_fresh e" using assms(3) by (auto simp: review_ok_def)
  have "attempt_ok (x\<lparr>at_plan := Some plan\<rparr>)" using x(1) e(5) assms(4) by (auto simp: attempt_ok_def)
  moreover have "rv_fresh f = rv_fresh e" "rv_attempt f = Some n" "rv_transition f = Reviewing plan" using assms(2) by (simp_all add: f_def)
  ultimately have "review_ok f" using e x unfolding review_ok_def a p by (auto split: if_splits)
  moreover have "review_le d f" unfolding review_le_def a p
  proof (intro conjI allI impI)
    show "rv_fresh d \<le> rv_fresh f" "rv_disposed d \<Longrightarrow> rv_disposed f" using e(2) by (simp_all add: review_le_def f_def)
    fix m y assume m: "attempt_of d m = Some y"
    then obtain z where z: "prepares e m \<le> prepares d m" "attempt_of e m = Some z" "at_intent z = at_intent y" "prepares d m = 0 \<longrightarrow> at_plan z = at_plan y"
      using e(2) unfolding review_le_def by blast
    then show "prepares e m \<le> prepares d m" by simp
    show "\<exists>z. (if m = n then Some (x\<lparr>at_plan := Some plan\<rparr>) else attempt_of e m) = Some z \<and> at_intent z = at_intent y \<and> (prepares d m = 0 \<longrightarrow> at_plan z = at_plan y)"
      using z e(3) assms(3) by auto
  qed
  ultimately show ?thesis by blast
qed

lemma prepared_ok:
  fixes d :: "'w reviewer_scheme"
  assumes "listeners_ok rw" "arrived_at d n e"
  shows "wp (prepared rw n r) (\<lambda>_ f. review_ok f \<and> review_le d f) e"
proof -
  have e: "review_ok e \<and> review_le d e" using assms(2) by (simp add: arrived_at_def)
  have refuse: "wp (next_act drops_attempt (sayV rw m True)) (\<lambda>_ f. review_ok f \<and> review_le d f) e" for m
    by (rule review.wp_later [OF _ e]) (intro review_rules assms(1))
  have "wp (next_act (set_attempt n (\<lambda>x. x\<lparr>at_plan := Some plan\<rparr>)) (next_act (becomes (Reviewing plan)) (sayV rw m False)))
      (\<lambda>_ f. review_ok f \<and> review_le d f) e"
    if "rv_attempt e = Some n" "attempt_of e n = Some x" "planRefused x plan e = Inr False" for x plan m
  proof -
    have "preparationMatches (at_intent x) (fld plan ''semantics'') = Inr True"
      using that(3) by (auto simp: planRefused_def Let_def res_simps split: if_splits)
    from review.wp_later [OF sayV_keeps [OF assms(1)] plan_shown [OF assms(2) that(1,2) this]]
    show ?thesis by (simp add: set_attempt_def wp_after_upd that(2))
  qed
  then show ?thesis using e refuse by (auto simp: prepared_def wp_basic Let_def wp_unless split: option.split outcome.split)
qed

section \<open>A submission\<close>

lemma commit_named:
  fixes e :: "'w reviewer_scheme"
  assumes "review_ok e \<and> review_le d e" "attempt_of e n = Some x" "at_plan x = Some plan" "fld sent ''planRef'' = fld plan ''planRef''"
  defines "f \<equiv> e\<lparr>rv_attempts := AList.update n (x\<lparr>at_commit := Some sent, at_provedUnsent := False\<rparr>) (rv_attempts e)\<rparr>"
  shows "review_ok f \<and> review_le d f"
proof -
  have "attempt_ok x" using assms(1,2) by (auto simp: review_ok_def)
  then have "attempt_ok (x\<lparr>at_commit := Some sent, at_provedUnsent := False\<rparr>)" using assms(3,4) by (simp add: attempt_ok_def)
  then have "review_ok f \<and> review_le e f" unfolding f_def using set_attempt_same [OF _ assms(2)] assms(1) by simp
  then show ?thesis using assms(1) review.le_trans by blast
qed

lemma superseded_keeps: "listeners_ok rw \<Longrightarrow> keeps_review (superseded rw)"
  unfolding superseded_def by (intro review_rules)

lemma confirm_asks_keeps: "listeners_ok rw \<Longrightarrow> (\<And>m. wait \<noteq> Prepare_Wait m) \<Longrightarrow> keeps_review (confirm_asks rw n planHost sent a wait)"
  unfolding confirm_asks_def by (intro review_rules superseded_keeps submit_keeps)

lemma confirm_plan_ok:
  fixes e :: "'w reviewer_scheme"
  assumes "listeners_ok rw" "\<And>m. wait \<noteq> Prepare_Wait m" "review_ok e \<and> review_le d e" "attempt_of e n = Some x" "at_plan x = Some plan"
  shows "wp (confirm_plan rw n plan key a wait) (\<lambda>_ f. review_ok f \<and> review_le d f) e"
proof -
  have stop: "wp (superseded rw) (\<lambda>_ f. review_ok f \<and> review_le d f) e"
    by (rule review.wp_later [OF superseded_keeps [OF assms(1)] assms(3)])
  have fails: "wp (next_act (sayV rw m u) (ret (Nothing :: jv review_reply))) (\<lambda>_ f. review_ok f \<and> review_le d f) e" for m u
    by (rule review.wp_later [OF _ assms(3)]) (intro review_rules assms(1))
  have "wp (next_act (set_attempt n (\<lambda>x. x\<lparr>at_commit := Some sent, at_provedUnsent := False\<rparr>))
      (next_act (becomes Admitting) (next_act (publishV rw) (confirm_asks rw n planHost sent a wait)))) (\<lambda>_ f. review_ok f \<and> review_le d f) e"
    if key: "bindE key (\<lambda>key. capture (JObj [(U ''idempotencyKey'', key), (U ''planRef'', fld plan ''planRef'')])) = Inr sent" for sent planHost
  proof -
    obtain v where "sent = JObj [(U ''idempotencyKey'', v), (U ''planRef'', fld plan ''planRef'')]" using key by (cases key) (auto simp: res_simps)
    then have named: "fld sent ''planRef'' = fld plan ''planRef''" by simp
    have "keeps_review (next_act (becomes Admitting) (next_act (publishV rw) (confirm_asks rw n planHost sent a wait)))"
      by (intro review_rules confirm_asks_keeps assms(1,2)) simp
    from review.wp_later [OF this commit_named [OF assms(3-5) named]]
    show ?thesis by (simp add: set_attempt_def wp_after_upd assms(4))
  qed
  then show ?thesis using stop fails by (simp add: confirm_plan_def Let_def wp_basic split: sum.split)
qed

lemma review_confirm_keeps:
  fixes rw :: "'w review_env"
  assumes "listeners_ok rw"
  shows "keeps_review (review_confirm rw key a)"
  unfolding review_confirm_def Let_def
proof (rule keeps_at)
  fix d :: "'w reviewer_scheme" assume d: "review_ok d"
  let ?Q = "\<lambda>_ f. review_ok f \<and> review_le d f"
  let ?wait = "\<lambda>n. Commit_Wait n False (cursor_host (d_store d)) (o_confidence (d_store d))"
  let ?go = "\<lambda>n x plan. seq (if at_provedUnsent x then releaseOwnedReplay n True else ret True) (\<lambda>released.
    if released then confirm_plan rw n plan key a (?wait n)
    else next_act (set_attempt n (\<lambda>x. x\<lparr>at_provedUnsent := False\<rparr>)) (next_act (becomes Uncertain) (next_act (sayV rw retained_message True) (ret (Nothing :: jv review_reply)))))"
  have go: "wp (?go n x plan) ?Q d" if x: "attempt_of d n = Some x" "at_plan x = Some plan" for n x plan
  proof (rule review.wp_step)
    show "keeps_review (if at_provedUnsent x then releaseOwnedReplay n True else ret True)"
      by (intro review_rules releaseOwnedReplay_keeps)
    show "review_ok d \<and> review_le d d" using d by (simp add: review.le_refl)
    fix released and f :: "'w reviewer_scheme" assume f: "review_ok f" "review_le d f"
    have "prepares d n = 0" using d x unfolding review_ok_def by (metis option.distinct(1))
    then obtain y where "attempt_of f n = Some y" "at_plan y = Some plan" using f(2) x unfolding review_le_def by metis
    then have "wp (confirm_plan rw n plan key a (?wait n)) ?Q f"
      using confirm_plan_ok [OF assms, of "?wait n" f d n y plan key a] f by simp
    moreover have "wp (next_act (set_attempt n (\<lambda>x. x\<lparr>at_provedUnsent := False\<rparr>)) (next_act (becomes Uncertain)
        (next_act (sayV rw retained_message True) (ret (Nothing :: jv review_reply))))) ?Q f"
      by (rule review.wp_later) (intro review_rules assms, simp, use f in simp)
    ultimately show "wp (if released then confirm_plan rw n plan key a (?wait n)
      else next_act (set_attempt n (\<lambda>x. x\<lparr>at_provedUnsent := False\<rparr>)) (next_act (becomes Uncertain)
        (next_act (sayV rw retained_message True) (ret (Nothing :: jv review_reply))))) ?Q f" by simp
  qed
  have stop: "wp (ret (Nothing :: jv review_reply)) ?Q d" using d by (simp add: wp_basic review.le_refl)
  show "wp (case rv_attempt d of None \<Rightarrow> ret Nothing
     | Some n \<Rightarrow> (case (rv_disposed d, rv_transition d, attempt_of d n) of
            (False, Reviewing _, Some x) \<Rightarrow> (case at_plan x of None \<Rightarrow> ret Nothing | Some plan \<Rightarrow> ?go n x plan)
          | _ \<Rightarrow> ret Nothing)) ?Q d"
    by (cases "rv_attempt d"; cases "rv_disposed d"; cases "rv_transition d"; cases "attempt_of d (the (rv_attempt d))";
        cases "at_plan (the (attempt_of d (the (rv_attempt d))))") (use stop go in simp_all)
qed

section \<open>Every step\<close>

lemma review_dispose_keeps: "keeps_review (review_dispose :: ('w, unit) in_review)"
  unfolding review_dispose_def
proof (intro keeps_withS keeps_if review.keeps_ret)
  fix d :: "'w reviewer_scheme" assume d: "review_ok d"
  let ?release = "\<lambda>d. case rv_attempt d of None \<Rightarrow> ret ()
    | Some n \<Rightarrow> (case attempt_of d n of None \<Rightarrow> ret ()
      | Some x \<Rightarrow> if at_provedUnsent x then seq (releaseOwnedReplay n True) (\<lambda>_. ret ()) else ret ())"
  let ?clear = "upd (\<lambda>d. d\<lparr>rv_attempt := None, rv_cancelling := [], rv_recovery := []\<rparr>) :: ('w, unit) in_review"
  have release: "keeps_review (withS ?release :: ('w, unit) in_review)" by (intro review_rules releaseOwnedReplay_keeps)
  have clear: "wp ?clear (\<lambda>_ g. review_ok g \<and> review_le e g) f" if "review_ok f" "review_le e f" "rv_disposed f" for e f
  proof -
    let ?g = "f\<lparr>rv_attempt := None, rv_cancelling := [], rv_recovery := []\<rparr>"
    have "review_ok ?g \<and> review_le f ?g" by (rule idle_keeps) (simp_all add: that)
    then show ?thesis using that(2) review.le_trans [of e f ?g] by (simp add: wp_upd)
  qed
  have "wp (next_act (clientU (abandon_awaited ws)) (next_act (withS ?release) ?clear)) (\<lambda>_ g. review_ok g \<and> review_le e g) e"
    if e: "review_ok e" "rv_disposed e" for e :: "'w reviewer_scheme" and ws
  proof (rule review.wp_step [OF plain_writes(5)])
    fix f :: "'w reviewer_scheme" assume f: "review_ok f" "review_le e f"
    then have "rv_disposed f" using e(2) by (simp add: review_le_def)
    show "wp (next_act (withS ?release) ?clear) (\<lambda>_ g. review_ok g \<and> review_le e g) f"
    proof (rule review.wp_step [OF release])
      fix g :: "'w reviewer_scheme" assume "review_ok g" "review_le f g" "review_le e g"
      then show "wp ?clear (\<lambda>_ g. review_ok g \<and> review_le e g) g" using clear [of g e] \<open>rv_disposed f\<close> by (simp add: review_le_def)
    qed (use f in simp)
  qed (use e in \<open>simp add: review.le_refl\<close>)
  note dispose = this
  show "keeps_review (next_act (upd (\<lambda>d. d\<lparr>rv_disposed := True\<rparr>)) (next_act (clientU (abandon_awaited (rv_waits d)))
    (next_act (withS ?release) ?clear)))"
    unfolding keeps_def wp_after_upd
  proof (intro allI impI)
    fix c :: "'w reviewer_scheme" assume "review_ok c"
    then have c: "review_ok (c\<lparr>rv_disposed := True\<rparr>) \<and> review_le c (c\<lparr>rv_disposed := True\<rparr>)"
      by (auto simp: review_ok_def review_le_def attempt_of_def prepares_def)
    then have "wp (next_act (clientU (abandon_awaited (rv_waits d))) (next_act (withS ?release) ?clear))
      (\<lambda>_ g. review_ok g \<and> review_le (c\<lparr>rv_disposed := True\<rparr>) g) (c\<lparr>rv_disposed := True\<rparr>)"
      using dispose by simp
    then show "wp (next_act (clientU (abandon_awaited (rv_waits d))) (next_act (withS ?release) ?clear))
      (\<lambda>_ g. review_ok g \<and> review_le c g) (c\<lparr>rv_disposed := True\<rparr>)"
      by (rule wp_mono) (use c review.le_trans in blast)
  qed
qed

lemma review_settle_keeps:
  fixes rw :: "'w review_env"
  assumes "listeners_ok rw"
  shows "keeps_review (review_settle rw k)"
  unfolding review_settle_def
proof (rule keeps_at)
  fix d :: "'w reviewer_scheme" assume d: "review_ok d"
  let ?Q = "\<lambda>_ f. review_ok f \<and> review_le d f"
  let ?e = "d\<lparr>rv_waits := AList.delete k (rv_waits d)\<rparr>"
  have e: "review_ok ?e \<and> review_le d ?e" by (rule wait_deleted [OF d])
  let ?rest = "\<lambda>wait r. (case wait of
       Prepare_Wait n \<Rightarrow> prepared rw n r
     | Commit_Wait n again epoch confidence \<Rightarrow> withS (\<lambda>d. if gone d n then ret () else acceptCommit rw n r again epoch confidence)
     | Reconcile_Wait n i epoch confidence \<Rightarrow> reconciled rw n i epoch confidence r
     | Cancel_Wait captured key epoch \<Rightarrow> cancelled rw captured key epoch r)"
  have stop: "wp (ret ()) ?Q d" using d by (simp add: wp_basic review.le_refl)
  have rest: "wp (?rest wait r) ?Q ?e" if "map_of (rv_waits d) k = Some (wait, src)" for wait src r
  proof (cases wait)
    case (Prepare_Wait n)
    then show ?thesis using prepared_ok [OF assms prepare_arrives [OF d]] that by simp
  next
    case (Commit_Wait n again epoch confidence)
    have "wp (acceptCommit rw n r again epoch confidence) ?Q ?e" if "rv_attempt ?e = Some n"
      by (rule wp_mono [OF acceptCommit_ok [OF assms _ that]]) (use e review.le_trans in blast)+
    then show ?thesis using e by (simp add: Commit_Wait wp_basic)
  next
    case (Reconcile_Wait n i epoch confidence)
    then show ?thesis using review.wp_later [OF reconciled_keeps [OF assms] e] by simp
  next
    case (Cancel_Wait captured key epoch)
    then show ?thesis using review.wp_later [OF cancelled_keeps [OF assms] e] by simp
  qed
  show "wp (case map_of (rv_waits d) k of None \<Rightarrow> ret ()
     | Some (wait, src) \<Rightarrow> (case source_outcome src (d_client d) of None \<Rightarrow> ret ()
          | Some r \<Rightarrow> next_act (upd (\<lambda>d. d\<lparr>rv_waits := AList.delete k (rv_waits d)\<rparr>)) (?rest wait r))) ?Q d"
    using stop rest by (auto simp: wp_after_upd split: option.split)
qed

lemma review_step_keeps:
  fixes d :: "'w reviewer_scheme"
  assumes "listeners_ok rw" "review_ok d"
  shows "review_ok (review_step rw move d) \<and> review_le d (review_step rw move d)"
proof (cases move)
  case (Review_Prepare intent focusKey a)
  then show ?thesis using keeps_snd [OF review_prepare_keeps [OF assms(1)] assms(2)] by simp
next
  case (Review_Confirm key a)
  then show ?thesis using keeps_snd [OF review_confirm_keeps [OF assms(1)] assms(2)] by simp
next
  case (Review_Replay a)
  then show ?thesis using keeps_snd [OF review_replay_keeps [OF assms(1)] assms(2)] by simp
next
  case (Review_Reconcile a)
  then show ?thesis using keeps_snd [OF review_reconcile_keeps assms(2)] by simp
next
  case (Prepare_Recovery operation focusKey a)
  then show ?thesis using keeps_snd [OF prepareRecovery_keeps [OF assms(1)] assms(2)] by simp
next
  case (Cancel_Operation operation a)
  then show ?thesis using keeps_snd [OF cancelOperation_keeps [OF assms(1)] assms(2)] by simp
next
  case Review_Stay
  then show ?thesis using keeps_snd [OF review_stay_keeps [OF assms(1)] assms(2)] by simp
next
  case (Review_Settle k)
  then show ?thesis using keeps_snd [OF review_settle_keeps [OF assms(1)] assms(2)] by simp
next
  case (Client_Move g)
  then show ?thesis using keeps_snd [OF plain_writes(5) assms(2)] by simp
next
  case (Store_Call f)
  then show ?thesis using keeps_snd [OF storeV_keeps [OF assms(1)] assms(2)] by simp
next
  case Review_Dispose
  then show ?thesis using keeps_snd [OF review_dispose_keeps assms(2)] by simp
qed

lemma review_runs:
  fixes d :: "'w reviewer_scheme"
  assumes "listeners_ok rw" "review_ok d"
  shows "review_ok (fold (review_step rw) moves d) \<and> review_le d (fold (review_step rw) moves d)"
  using assms(2)
proof (induction moves arbitrary: d)
  case (Cons m moves)
  then show ?case using review_step_keeps [OF assms(1) Cons.prems, of m] review.le_trans by auto
qed (simp add: review.le_refl)

section \<open>Listeners that call back\<close>

definition untouched :: "'w reviewer_scheme \<Rightarrow> 'w reviewer_scheme \<Rightarrow> bool" where
  "untouched d e \<longleftrightarrow> rv_attempts e = rv_attempts d \<and> rv_attempt e = rv_attempt d \<and> rv_transition e = rv_transition d
     \<and> rv_disposed e = rv_disposed d \<and> rv_waits e = rv_waits d \<and> rv_fresh e = rv_fresh d"

text \<open>Listeners touch the review only by its own methods, which may publish to listeners again; the calls nest finitely often.\<close>

inductive polite :: "'w review_env \<Rightarrow> bool" where
  quiet: "(\<And>v d. untouched d (rw_hear rw v d)) \<Longrightarrow> (\<And>v d. untouched d (rw_tell rw v d)) \<Longrightarrow> (\<And>d. untouched d (rw_work rw d)) \<Longrightarrow> polite rw"
| calls_back: "polite inner \<Longrightarrow> (\<And>v d. \<exists>moves. untouched (fold (review_step inner) moves d) (rw_hear rw v d))
    \<Longrightarrow> (\<And>v d. \<exists>moves. untouched (fold (review_step inner) moves d) (rw_tell rw v d))
    \<Longrightarrow> (\<And>d. \<exists>moves. untouched (fold (review_step inner) moves d) (rw_work rw d)) \<Longrightarrow> polite rw"

lemma untouched_ok: "review_ok d \<Longrightarrow> untouched d e \<Longrightarrow> review_ok e \<and> review_le d e"
  by (rule review_same) (simp_all add: untouched_def)

lemma called_back:
  assumes "listeners_ok rw" "review_ok d" "untouched (fold (review_step rw) moves d) e"
  shows "review_ok e \<and> review_le d e"
  using review_runs [OF assms(1,2), of moves] untouched_ok [OF _ assms(3)] review.le_trans by blast

lemma polite_listeners: "polite rw \<Longrightarrow> listeners_ok rw"
proof (induction rule: polite.induct)
  case (quiet rw)
  then show ?case using untouched_ok unfolding listeners_ok_def by blast
next
  case (calls_back inner rw)
  then show ?case using called_back [OF calls_back.IH] unfolding listeners_ok_def by blast
qed

end
