(* ===== verification/Review_Claims.thy ===== *)
theory Review_Claims imports Review_Kept Observation_Claims begin

text \<open>What is submitted is what was prepared and shown.\<close>

text \<open>
  C31: Over any steps of the controller, the client and the store from a new controller, with listeners that call back at will: an
  attempt's submission names the plan that was prepared for the attempt, the plan's semantics are a preparation of the captured
  intent, and what is shown for review is the plan of the attempt at hand.
\<close>

theorem reviewed_plan_is_submitted:
  fixes rw :: "'w review_env"
  assumes "polite rw" "rv_attempts d = []" "rv_waits d = []" "rv_attempt d = None" "rv_transition d = Idle"
    and "e = fold (review_step rw) moves d"
  shows "(\<forall>n x sent. attempt_of e n = Some x \<and> at_commit x = Some sent \<longrightarrow>
      (\<exists>plan. at_plan x = Some plan \<and> fld sent ''planRef'' = fld plan ''planRef''))
    \<and> (\<forall>n x plan. attempt_of e n = Some x \<and> at_plan x = Some plan \<longrightarrow> preparationMatches (at_intent x) (fld plan ''semantics'') = Inr True)
    \<and> (\<forall>plan. rv_transition e = Reviewing plan \<and> \<not> rv_disposed e \<longrightarrow> rs_plan (review_state e) = Some plan)"
proof -
  have "review_ok d" using assms(2-5) by (simp add: review_ok_def attempt_of_def prepares_def)
  then have e: "review_ok e" unfolding assms(6) using review_runs [OF polite_listeners [OF assms(1)]] by blast
  then have attempts: "attempt_ok x" if "attempt_of e n = Some x" for n x using that by (simp add: review_ok_def)
  have "rs_plan (review_state e) = Some plan" if "rv_transition e = Reviewing plan" "\<not> rv_disposed e" for plan
    using e that unfolding review_ok_def by (auto simp: review_state_def)
  then show ?thesis using attempts unfolding attempt_ok_def by blast
qed

definition example_review :: "unit review_env" where
  "example_review = \<lparr>rw_options = example_options, rw_limits = example_limits, rw_request = (\<lambda>_. True), rw_connected = (\<lambda>_. False),
     rw_canPrepare = (\<lambda>_. True), rw_work = (\<lambda>d. d), rw_hear = (\<lambda>v d. d), rw_tell = (\<lambda>v d. d)\<rparr>"

definition example_intent :: jv where
  "example_intent = JObj [(U ''kind'', S ''register_installation''), (U ''input'', JObj [(U ''name'', S ''n''), (U ''expectedCatalogRevision'', S ''1'')])]"

definition example_prepared :: jv where
  "example_prepared = JObj [(U ''planRef'', JObj [(U ''hostEpoch'', S ''h'')]), (U ''semantics'', JObj [(U ''action'', S ''register_installation''),
     (U ''capture'', JObj [(U ''kind'', S ''register_installation''), (U ''input'', JObj [(U ''name'', S ''n''), (U ''catalogRevision'', S ''1'')])])])]"

definition example_moves :: "review_move list" where
  "example_moves = [Review_Prepare example_intent None example_query,
     Client_Move (\<lambda>c. c\<lparr>c_outcomes := [(0, Returned example_prepared \<lparr>m_requestId = S ''r'', m_kind = Command, m_method = U ''prepare''\<rparr>)]\<rparr>),
     Review_Settle 1, Review_Confirm (Inr (S ''k'')) example_query]"

definition example_reviewer :: reviewer where
  "example_reviewer = new_reviewer (new_session new_client initial_ctx) new_announcer new_focus"

theorem reviewed_plan_is_submitted_witness:
  "polite example_review \<and> (let e = fold (review_step example_review) (take 3 example_moves) example_reviewer in
     (case rv_transition e of Reviewing plan \<Rightarrow> rv_disposed e \<or> rs_plan (review_state e) = Some plan | _ \<Rightarrow> True))"
proof -
  define e where "e = fold (review_step example_review) (take 3 example_moves) example_reviewer"
  have p: "polite example_review" by (rule polite.quiet) (simp_all add: example_review_def untouched_def)
  have start: "rv_attempts example_reviewer = []" "rv_waits example_reviewer = []" "rv_attempt example_reviewer = None" "rv_transition example_reviewer = Idle"
    by (simp_all add: example_reviewer_def new_reviewer_def session.defs reviewer.defs)
  note shown = reviewed_plan_is_submitted [OF p start e_def, THEN conjunct2, THEN conjunct2, rule_format]
  have "case rv_transition e of Reviewing plan \<Rightarrow> rv_disposed e \<or> rs_plan (review_state e) = Some plan | _ \<Rightarrow> True"
  proof (cases "rv_transition e")
    case (Reviewing plan)
    then show ?thesis using shown [of plan] by (cases "rv_disposed e") simp_all
  qed simp_all
  then show ?thesis using p unfolding e_def [symmetric] Let_def by (rule conjI [rotated])
qed

end
