(* ===== verification/Facade_Claims.thy ===== *)
theory Facade_Claims imports Facade_Steps Review_Claims begin

text \<open>What is saved is what was reviewed, and a disposed facade is silent; screens may call back at will.\<close>

section \<open>Screens that call back\<close>

definition same_facade :: "'w facade_scheme \<Rightarrow> 'w facade_scheme \<Rightarrow> bool" where
  "same_facade d e \<longleftrightarrow> fa_attempts e = fa_attempts d \<and> fa_waits e = fa_waits d \<and> fa_fresh e = fa_fresh d \<and> fa_transition e = fa_transition d
     \<and> fa_attempt e = fa_attempt d \<and> fa_disposed e = fa_disposed d \<and> fa_publication e = fa_publication d"

text \<open>A screen that is told of a state may call the facade's methods, which may tell the screens again; the calls nest finitely often.\<close>

inductive polite_screens :: "'w facade_env \<Rightarrow> bool" where
  only_show: "(\<And>v d. same_facade d (fw_tell fw v d)) \<Longrightarrow> polite_screens fw"
| call_back: "polite_screens inner \<Longrightarrow> (\<And>v d. \<exists>w moves. same_facade (fold (facade_step inner w) moves d) (fw_tell fw v d)) \<Longrightarrow> polite_screens fw"

lemma same_facade_ok: "facade_ok d \<Longrightarrow> same_facade d e \<Longrightarrow> facade_ok e \<and> facade_le d e"
  by (rule facade_same) (simp_all add: same_facade_def)

lemma polite_screens_ok: "polite_screens fw \<Longrightarrow> screens_ok fw"
proof (induction rule: polite_screens.induct)
  case (only_show fw)
  then show ?case using same_facade_ok unfolding screens_ok_def by blast
next
  case (call_back inner fw)
  have "facade_ok e \<and> facade_le d e" if d: "facade_ok d" and e: "same_facade (fold (facade_step inner w) moves d) e" for d e w moves
    using facade_runs [OF call_back.IH d, of w moves] same_facade_ok [OF _ e] facade.le_trans by blast
  then show ?case using call_back.hyps(2) unfolding screens_ok_def by blast
qed

definition new_facade :: "reviewer \<Rightarrow> facade" where
  "new_facade r = reviewer.extend r (facade.fields Screen_Idle [] None [] None None None None [] False False 0 0 0 [] [])"

text \<open>A facade that has begun no save.\<close>

definition without_saves :: "'w facade_scheme \<Rightarrow> bool" where
  "without_saves d \<longleftrightarrow> fa_attempts d = [] \<and> fa_waits d = [] \<and> fa_attempt d = None \<and> fa_transition d = Screen_Idle"

lemma without_saves_ok: "without_saves d \<Longrightarrow> facade_ok d"
  by (simp add: without_saves_def facade_ok_def save_of_def preparing_def planned_def)

section \<open>The properties\<close>

text \<open>
  C32: Over any steps of the facade, its reviewer, its session, the store and the client, with screens that call back at will: the plan of
  a save captures exactly the edits of the draft that the attempt reviewed, the submission names that plan, and what is shown for review
  is the plan of the attempt at hand.
\<close>

theorem saved_plan_is_reviewed:
  fixes fw :: "'w facade_env"
  assumes "polite_screens fw" "without_saves d" "e = fold (facade_step fw w) moves d"
  shows "(\<forall>n x plan. save_of e n = Some x \<and> sa_plan x = Some plan \<longrightarrow>
      same_data (path plan [''semantics'', ''capture'', ''input'', ''draft'', ''edits'']) (JArr (r_edits (sa_review x))) = Inr True)
    \<and> (\<forall>n x sent. save_of e n = Some x \<and> sa_commit x = Some sent \<longrightarrow>
      (\<exists>plan. sa_plan x = Some plan \<and> fld sent ''planRef'' = fld plan ''planRef''))
    \<and> (\<forall>plan. fa_transition e = Save_Review plan \<and> \<not> fa_disposed e \<longrightarrow> (\<exists>n x. fa_attempt e = Some n \<and> save_of e n = Some x \<and> sa_plan x = Some plan))"
proof -
  have e: "facade_ok e" unfolding assms(3) using facade_runs [OF polite_screens_ok [OF assms(1)] without_saves_ok [OF assms(2)]] by blast
  then have "save_ok x" if "save_of e n = Some x" for n x using that by (simp add: facade_ok_def)
  with e show ?thesis unfolding save_ok_def facade_ok_def by blast
qed

text \<open>
  C33: Once disposed the facade tells its screens nothing: neither the disposal itself nor any later step of anyone publishes, whatever
  outcomes still arrive.
\<close>

theorem disposed_facade_is_silent:
  fixes fw :: "'w facade_env"
  assumes "polite_screens fw" "without_saves d" "e = fold (facade_step fw w) moves d"
  shows "fa_publication (fold (facade_step fw w) later (facade_step fw w Facade_Dispose e)) = fa_publication e
    \<and> fa_disposed (fold (facade_step fw w) later (facade_step fw w Facade_Dispose e))"
proof -
  note fw = polite_screens_ok [OF assms(1)]
  let ?g = "facade_step fw w Facade_Dispose e"
  have e: "facade_ok e" unfolding assms(3) using facade_runs [OF fw without_saves_ok [OF assms(2)]] by blast
  then have g: "facade_ok ?g" "facade_le (e\<lparr>fa_disposed := True\<rparr>) ?g"
    using dispose_tells_nobody [OF fw, of e] by (simp_all add: wp_after)
  have "facade_le ?g (fold (facade_step fw w) later ?g)" using facade_runs [OF fw g(1)] by blast
  then show ?thesis using g(2) by (simp add: facade_le_def)
qed

definition example_facade_world :: "unit facade_env" where
  "example_facade_world = \<lparr>fw_options = example_options, fw_limits = example_limits, fw_request = (\<lambda>_. True), fw_event = (\<lambda>_. True),
     fw_connected = (\<lambda>_. False), fw_args = (\<lambda>_. example_query), fw_tell = (\<lambda>_ d. d)\<rparr>"

definition example_facade :: facade where
  "example_facade = new_facade example_reviewer"

definition facade_moves :: "facade_move list" where
  "facade_moves = [Facade_Connect example_query, Facade_Prepare_Save In_Place None example_query, Facade_Stay]"

lemma example_facade_starts: "polite_screens example_facade_world" "without_saves example_facade"
  by (rule polite_screens.only_show, simp add: example_facade_world_def same_facade_def)
    (simp add: without_saves_def example_facade_def new_facade_def reviewer.defs facade.defs)

theorem saved_plan_is_reviewed_witness:
  "polite_screens example_facade_world \<and> (let e = fold (facade_step example_facade_world example_world) facade_moves example_facade in
     (case fa_transition e of Save_Review plan \<Rightarrow> fa_disposed e \<or> fa_attempt e \<noteq> None | _ \<Rightarrow> True))"
proof -
  define e where "e = fold (facade_step example_facade_world example_world) facade_moves example_facade"
  note shown = saved_plan_is_reviewed [OF example_facade_starts e_def, THEN conjunct2, THEN conjunct2, rule_format]
  have "case fa_transition e of Save_Review plan \<Rightarrow> fa_disposed e \<or> fa_attempt e \<noteq> None | _ \<Rightarrow> True"
  proof (cases "fa_transition e")
    case (Save_Review plan)
    then show ?thesis using shown [of plan] by (cases "fa_disposed e") auto
  qed simp_all
  then show ?thesis using example_facade_starts(1) unfolding e_def [symmetric] Let_def by (rule conjI [rotated])
qed

theorem disposed_facade_is_silent_witness:
  "(let e = fold (facade_step example_facade_world example_world) facade_moves example_facade in
     fa_publication (fold (facade_step example_facade_world example_world) facade_moves (facade_step example_facade_world example_world Facade_Dispose e)) = fa_publication e)"
  using disposed_facade_is_silent [OF example_facade_starts refl] unfolding Let_def by blast

end
