(* ===== verification/Home_View.thy ===== *)
theory Home_View imports Work_Context begin

text \<open>
  What the start screen shows of an observation, \<^verbatim>\<open>ui/src/views/home/presentation.ts\<close>: texts for availability and inventories,
  the labels of installations, profiles, targets and sessions, the selector that two chosen rows make, and the test that a
  resolved target is the one selected.

  Arguments are validated messages and views of the store, so a property read is \<open>fld\<close>; an absent argument
  is \<^verbatim>\<open>undefined\<close>. What a template puts into a text is a string of the message or an integer.
\<close>

section \<open>Texts\<close>

text \<open>\<^verbatim>\<open>String(v)\<close> of a primitive value; \<open>dot\<close> is the middle dot between blanks; a text of lines joined by a separator.\<close>

fun shown :: "jv \<Rightarrow> ustr" where
  "shown (JStr s) = s"
| "shown (JInt n) = int_text n"
| "shown (JBool b) = (if b then U ''true'' else U ''false'')"
| "shown JNull = U ''null''"
| "shown JUndef = U ''undefined''"
| "shown _ = []"

definition dot :: ustr where
  "dot = [32, 183, 32]"

fun join_with :: "ustr \<Rightarrow> ustr list \<Rightarrow> ustr" where
  "join_with sep [] = []"
| "join_with sep [t] = t"
| "join_with sep (t # u # ts) = t @ sep @ join_with sep (u # ts)"

text \<open>\<^verbatim>\<open>replaceAll('_', ' ')\<close>, and \<^verbatim>\<open>toLowerCase\<close> of a name in ASCII letters.\<close>

definition spaced :: "ustr \<Rightarrow> ustr" where
  "spaced s = map (\<lambda>c. if c = 95 then 32 else c) s"

definition lower_ascii :: "ustr \<Rightarrow> ustr" where
  "lower_ascii s = map (\<lambda>c. if 65 \<le> c \<and> c \<le> 90 then c + 32 else c) s"

text \<open>An index into a list, the number of the first row that qualifies.\<close>

fun position :: "('a \<Rightarrow> bool) \<Rightarrow> 'a list \<Rightarrow> nat option" where
  "position p [] = None"
| "position p (x # xs) = (if p x then Some 0 else map_option Suc (position p xs))"

text \<open>The confidence of a view, as the text that the screens' keys contain.\<close>

definition confidence_text :: "confidence \<Rightarrow> string" where
  "confidence_text c = (case c of Uninitialized \<Rightarrow> ''uninitialized'' | Authoritative \<Rightarrow> ''authoritative'' | Partial \<Rightarrow> ''partial'' | Stale \<Rightarrow> ''stale'')"

section \<open>Availability\<close>

definition availabilityCopy :: "(string \<times> string) list" where
  "availabilityCopy =
    [(''missing_target'', ''Choose an installation and profile.''), (''unknown_identity'', ''The target identity is not confirmed.''),
     (''wrong_profile_kind'', ''This action needs a different profile mode.''), (''archived_profile'', ''This profile is archived.''),
     (''wrong_owner'', ''The current user does not own this target.''), (''active_session'', ''An active session affects this action.''),
     (''busy'', ''Another operation holds this resource.''), (''stale_revision'', ''The target changed. Refresh before reviewing.''),
     (''unrecognized_runtime'', ''The installed runtime is not recognized.''), (''unsupported_schema'', ''The configuration schema is unsupported.''),
     (''unavailable_native_route'', ''This action is currently unavailable.''), (''unqualified_isolation'', ''Isolation is not available for this target.''),
     (''offline'', ''This action needs a connection.''), (''interrupted_transaction'', ''An interrupted operation needs recovery.''),
     (''dirty_draft'', ''Review the unsaved changes first.''), (''unsupported_platform'', ''This action is unsupported on this platform.'')]"

text \<open>A table indexed by a string of the message; \<^verbatim>\<open>join\<close> writes nothing for what is not there.\<close>

definition copy_for :: "(string \<times> string) list \<Rightarrow> jv \<Rightarrow> ustr" where
  "copy_for table v = (case map_of (map (\<lambda>(k, t). (S k, U t)) table) v of Some t \<Rightarrow> t | None \<Rightarrow> [])"

definition availabilityText :: "jv \<Rightarrow> ustr" where
  "availabilityText v =
     (let status = fld v ''status'' in
      if \<not> truthy v then U ''Availability has not been checked.''
      else if isS status ''available'' then U ''Available for review. Confirmation is still required.''
      else
       (let reasons = (if isS status ''blocked'' then arr_items (fld v ''reasons'') else [fld v ''reason'']);
            told = join_with [32] (map (\<lambda>reason. copy_for availabilityCopy (fld reason ''code'')) reasons) in
        U (if isS status ''blocked'' then ''Blocked. '' else if isS status ''unknown'' then ''Unknown. '' else ''Unavailable. '')
        @ (if told \<noteq> [] then told else U ''Refresh for the current reason.'')))"

section \<open>Inventories\<close>

definition observationReason :: "jv \<Rightarrow> ustr" where
  "observationReason reason =
     (if isS reason ''access_denied'' then U ''Access was denied.''
      else if isS reason ''incomplete_inventory'' then U ''The observation is incomplete.''
      else if isS reason ''unrecognized_identity'' then U ''The identity is not recognized.''
      else if isS reason ''conflicting_evidence'' then U ''The observations conflict.''
      else if isS reason ''unsupported_platform'' then U ''This platform is unsupported.''
      else U ''Refresh when Bridge is available.'')"

definition inventoryText :: "jv \<Rightarrow> string \<Rightarrow> ustr" where
  "inventoryText v name =
     (let status = fld v ''status''; lowered = lower_ascii (U name) in
      if \<not> truthy v then U name @ U '' have not been observed.''
      else if isS status ''observed'' then
        (if isS (path v [''value'', ''completeness'']) ''partial'' then U ''Some '' @ lowered @ U '' are unavailable. This list is incomplete.''
         else if truthy (path v [''value'', ''items'', ''length'']) then U name @ U '' observed.''
         else U ''No '' @ lowered @ U '' were reported.'')
      else if isS status ''missing'' then U ''No '' @ lowered @ U '' observation was reported.''
      else U name @ [32] @ U (if isS status ''unknown'' then ''are unknown'' else ''are unavailable'') @ U ''. ''
        @ observationReason (fld v ''reason''))"

definition inventory_rows :: "string \<Rightarrow> view \<Rightarrow> jv list" where
  "inventory_rows name observations =
     (let inventory = fld (or_undefined (v_snapshot observations)) name in
      if isS (fld inventory ''status'') ''observed'' then arr_items (path inventory [''value'', ''items'']) else [])"

definition installations :: "view \<Rightarrow> jv list" where
  "installations = inventory_rows ''installations''"

definition profiles :: "view \<Rightarrow> jv list" where
  "profiles = inventory_rows ''profiles''"

definition sessions :: "view \<Rightarrow> jv list" where
  "sessions = inventory_rows ''sessions''"

section \<open>Labels\<close>

definition installationLabel :: "jv \<Rightarrow> ustr" where
  "installationLabel installation =
     (let binding = fld installation ''binding'' in
      shown (fld installation ''name'') @ dot
      @ shown (fld binding (if is_kind binding ''registered'' then ''registrationId'' else ''physicalId'')))"

definition profileKey :: "jv \<Rightarrow> jv" where
  "profileKey profile = (if is_kind profile ''ordinary'' then S ''ordinary'' else path profile [''reference'', ''id''])"

definition home_profileLabel :: "jv \<Rightarrow> int \<Rightarrow> ustr" where
  "home_profileLabel profile index =
     (if is_kind profile ''ordinary'' then U ''Ordinary'' @ dot @ U ''current user''
      else shown (fld profile ''name'') @ dot @ U ''isolated '' @ int_text (index + 1)
        @ (if isS (path profile [''reference'', ''state'']) ''archived'' then dot @ U ''archived'' else []))"

section \<open>Targets\<close>

definition selectorFor :: "jv \<Rightarrow> jv \<Rightarrow> view \<Rightarrow> jv option" where
  "selectorFor installationId profileId observations =
     (case (find (\<lambda>row. is_kind (fld row ''binding'') ''registered''
                    \<and> strict_eq (path row [''binding'', ''registrationId'']) installationId) (installations observations),
            find (\<lambda>row. strict_eq (profileKey row) profileId) (profiles observations)) of
       (Some installation, Some profile) \<Rightarrow>
         Some (JObj [(U ''installation'', JObj [(U ''kind'', S ''registered''), (U ''id'', path installation [''binding'', ''registrationId'']),
             (U ''revisionAssertion'', path installation [''binding'', ''registrationRevision''])]),
           (U ''profile'', if is_kind profile ''ordinary'' then JObj [(U ''kind'', S ''ordinary'')]
             else JObj [(U ''kind'', S ''isolated''), (U ''id'', path profile [''reference'', ''id'']),
               (U ''revisionAssertion'', path profile [''reference'', ''revision''])])])
     | _ \<Rightarrow> None)"

definition targetMatches :: "jv \<Rightarrow> jv \<Rightarrow> bool" where
  "targetMatches selector target =
     (let si = fld selector ''installation''; ti = fld target ''installation''; sp = fld selector ''profile''; tp = fld target ''profile'' in
      if is_kind si ''registered'' \<and> (\<not> is_kind ti ''registered'' \<or> \<not> strict_eq (fld si ''id'') (fld ti ''registrationId'')
          \<or> \<not> nullish (fld si ''revisionAssertion'') \<and> \<not> strict_eq (fld si ''revisionAssertion'') (fld ti ''registrationRevision''))
      then False
      else if is_kind sp ''ordinary'' then
        is_kind tp ''ordinary'' \<and> (nullish (fld sp ''catalogIdAssertion'') \<or> strict_eq (fld sp ''catalogIdAssertion'') (fld tp ''ordinaryId''))
      else is_kind tp ''isolated'' \<and> strict_eq (fld sp ''id'') (fld tp ''id'')
        \<and> (nullish (fld sp ''revisionAssertion'') \<or> strict_eq (fld sp ''revisionAssertion'') (fld tp ''revision'')))"

text \<open>The rows that a target, or else a selector, names.\<close>

definition names_installation :: "jv \<Rightarrow> jv \<Rightarrow> jv \<Rightarrow> bool" where
  "names_installation target selector row =
     (let binding = fld row ''binding''; ti = fld target ''installation''; si = fld selector ''installation'' in
      if truthy target then strict_eq (fld binding ''physicalId'') (fld ti ''physicalId'')
        \<and> (\<not> is_kind ti ''registered'' \<or> is_kind binding ''registered'' \<and> strict_eq (fld binding ''registrationId'') (fld ti ''registrationId''))
      else is_kind si ''registered'' \<and> is_kind binding ''registered'' \<and> strict_eq (fld binding ''registrationId'') (fld si ''id''))"

definition names_profile :: "jv \<Rightarrow> jv \<Rightarrow> jv \<Rightarrow> bool" where
  "names_profile target selector row =
     (let wanted = (if truthy target then fld target ''profile'' else fld selector ''profile'') in
      strict_eq (fld wanted ''kind'') (fld row ''kind'')
      \<and> (is_kind wanted ''ordinary'' \<or> is_kind row ''isolated'' \<and> strict_eq (fld wanted ''id'') (path row [''reference'', ''id''])))"

definition targetLabels :: "jv \<Rightarrow> jv \<Rightarrow> view \<Rightarrow> ustr \<times> ustr" where
  "targetLabels target selector observations =
     (let ti = fld target ''installation''; si = fld selector ''installation''; tp = fld target ''profile''; sp = fld selector ''profile'';
          installation = find (names_installation target selector) (installations observations);
          at = position (names_profile target selector) (profiles observations);
          installationId = (if is_kind ti ''registered'' then fld ti ''registrationId''
            else coalesce (fld ti ''physicalId'') (if is_kind si ''registered'' then fld si ''id'' else JUndef));
          profileId = (if is_kind tp ''isolated'' then fld tp ''id'' else if is_kind sp ''isolated'' then fld sp ''id'' else JUndef) in
      (case installation of
         Some row \<Rightarrow> shown (fld row ''name'') @ dot @ shown installationId
       | None \<Rightarrow> if truthy installationId then U ''Installation '' @ shown installationId @ dot @ U ''observation unavailable''
           else if truthy selector \<or> truthy target then U ''Explicit directory installation'' @ dot @ U ''observation unavailable''
           else U ''Not selected'',
       case at of
         Some i \<Rightarrow> home_profileLabel (profiles observations ! i) (int i) @ (if truthy profileId then dot @ shown profileId else [])
       | None \<Rightarrow> if is_kind sp ''ordinary'' \<or> is_kind tp ''ordinary'' then U ''Ordinary'' @ dot @ U ''current user''
           else if truthy profileId then U ''Isolated profile '' @ shown profileId @ dot @ U ''observation unavailable''
           else U ''Not selected''))"

section \<open>Sessions\<close>

definition sessionStatus :: "jv \<Rightarrow> ustr" where
  "sessionStatus session =
     (let live = fld session ''liveIdentity''; readiness = fld session ''readiness'';
          identity = (if isS (fld live ''status'') ''observed'' then
              (if truthy (fld live ''value'') then ''Live identity matched'' else ''Live identity not matched'')
            else if isS (fld live ''status'') ''unknown'' then ''Live identity unknown''
            else if isS (fld live ''status'') ''unavailable'' then ''Live identity unavailable'' else ''Live identity not observed'');
          status = (if \<not> isS (fld readiness ''status'') ''observed'' then ''Readiness not confirmed''
            else if isS (fld readiness ''value'') ''isolated_ready'' then ''Isolation ready''
            else if isS (fld readiness ''value'') ''isolated_initializing'' then ''Isolation initializing''
            else if isS (fld readiness ''value'') ''isolation_failed'' then ''Isolation failed'' else ''Ordinary session spawned'') in
      U identity @ U ''. '' @ U status @ U ''.'')"

end
