(* ===== verification/Management_View.thy ===== *)
theory Management_View imports Home_View begin

text \<open>
  What the management screen shows, \<^verbatim>\<open>ui/src/views/management/presentation.ts\<close>: labels, inventories, the summary of a
  prepared plan that a review lists, and the states of an operation. The summary is an allowlist over
  the kinds of a plan's capture: a path or a protected reference of the plan is never among its lines.
\<close>

section \<open>Labels\<close>

definition sections :: "(string \<times> string) list" where
  "sections = [(''profiles'', ''Profiles''), (''installations'', ''Installations''), (''runtime'', ''Community Mod''),
     (''game'', ''Game update''), (''bridge'', ''Bridge update''), (''history'', ''History'')]"

definition profileLabel :: "jv \<Rightarrow> ustr" where
  "profileLabel profile = (if is_kind profile ''ordinary'' then U ''Ordinary profile'' else shown (fld profile ''name''))"

definition profileIdentity :: "jv \<Rightarrow> jv" where
  "profileIdentity profile = (if is_kind profile ''ordinary'' then path profile [''reference'', ''catalogId''] else path profile [''reference'', ''id''])"

definition observedProfiles :: "view \<Rightarrow> jv list" where
  "observedProfiles v = (let inventory = fld (or_undefined (v_snapshot v)) ''profiles'' in
     if isS (fld inventory ''status'') ''observed'' then arr_items (path inventory [''value'', ''items'']) else [])"

definition observedInstallations :: "view \<Rightarrow> jv list" where
  "observedInstallations v = (let inventory = fld (or_undefined (v_snapshot v)) ''installations'' in
     if isS (fld inventory ''status'') ''observed'' then arr_items (path inventory [''value'', ''items'']) else [])"

definition inventoryStatus :: "jv \<Rightarrow> ustr" where
  "inventoryStatus observation =
     (let status = fld observation ''status'' in
      if \<not> truthy observation then U ''Not yet observed.''
      else if isS status ''observed'' then
        (if isS (path observation [''value'', ''completeness'']) ''partial'' then U ''Some entries are unavailable. Refresh before relying on a complete list.''
         else U ''Observed inventory.'')
      else if isS status ''missing'' then U ''The backend reports no catalog.''
      else if isS status ''unknown'' then U ''Catalog state is unknown.''
      else U ''Catalog is unavailable.'')"

definition available :: "jv \<Rightarrow> bool" where
  "available projection = isS (path projection [''availability'', ''status'']) ''available''"

definition availabilityReason :: "jv \<Rightarrow> ustr" where
  "availabilityReason projection =
     (if \<not> truthy projection then U ''Action availability has not been checked.''
      else if isS (path projection [''availability'', ''status'']) ''available'' then U ''Available for review.''
      else availabilityText (fld projection ''availability''))"

definition titles :: "(string \<times> string) list" where
  "titles =
    [(''launch_ordinary'', ''Launch ordinary game''), (''launch_isolated'', ''Launch isolated game''),
     (''focus_session'', ''Focus captured session''), (''create_profile'', ''Create profile''),
     (''edit_ordinary_profile'', ''Change ordinary profile preference''), (''edit_isolated_profile'', ''Edit profile''),
     (''archive_profile'', ''Archive profile''), (''restore_profile'', ''Restore archived profile''),
     (''delete_profile'', ''Delete entire owned profile''), (''register_installation'', ''Register installation''),
     (''edit_installation'', ''Rename installation''), (''save_configuration'', ''Save configuration''),
     (''restore_configuration'', ''Restore configuration backup''), (''runtime_install'', ''Install Community Mod''),
     (''runtime_update'', ''Update Community Mod''), (''runtime_repair'', ''Repair Community Mod''),
     (''runtime_adopt'', ''Adopt exact recognized runtime''), (''runtime_remove'', ''Remove managed Community Mod''),
     (''runtime_stop_managing'', ''Stop managing Community Mod''), (''runtime_switch_source'', ''Switch runtime and configuration source''),
     (''game_update'', ''Update game client''), (''recover_game_update'', ''Recover recorded game update''),
     (''bridge_update'', ''Update Bridge''), (''recover_bridge_update'', ''Recover recorded Bridge update''),
     (''export_diagnostics'', ''Export reviewed diagnostics''), (''save_application_preferences'', ''Save application preferences'')]"

definition actionTitle :: "jv \<Rightarrow> ustr" where
  "actionTitle kind = copy_for titles kind"

section \<open>The summary of a plan\<close>

text \<open>A line of a label and the value at a path.\<close>

definition line :: "string \<Rightarrow> jv \<Rightarrow> string list \<Rightarrow> ustr" where
  "line name v ks = U name @ U '': '' @ shown (path v ks)"

definition installationLines :: "jv \<Rightarrow> ustr list" where
  "installationLines installation =
     [if is_kind installation ''registered''
        then line ''Installation'' installation [''registrationId''] @ dot @ U ''revision '' @ shown (fld installation ''registrationRevision'')
      else U ''Explicit directory installation'',
      line ''Physical installation'' installation [''physicalId'']]"

definition targetLines :: "jv \<Rightarrow> ustr list" where
  "targetLines target =
     (let profile = fld target ''profile'' in
      installationLines (fld target ''installation'') @
      [if is_kind profile ''isolated'' then line ''Profile'' profile [''id''] @ dot @ U ''revision '' @ shown (fld profile ''revision'')
       else if truthy (fld profile ''ordinaryId'') then line ''Ordinary profile'' profile [''ordinaryId'']
       else U ''Owner-scoped ordinary profile''])"

text \<open>The kinds about profiles, installations and configurations.\<close>

definition catalog_lines :: "jv \<Rightarrow> jv \<Rightarrow> ustr list" where
  "catalog_lines capt input =
     (if is_kind capt ''create_profile'' then
        [line ''Name'' input [''name''],
         U ''Setup: '' @ U (if isS (path input [''setup'', ''kind'']) ''new'' then ''New isolated store'' else ''Reviewed native import''),
         line ''Preferred installation'' input [''preferredInstallation'', ''registrationId''],
         line ''Catalog revision'' input [''catalogRevision'']]
        @ (if isS (path input [''setup'', ''kind'']) ''windows_user_import'' then
             [line ''Import source'' input [''setup'', ''source'', ''sourceId''] @ dot @ U ''revision '' @ shown (path input [''setup'', ''source'', ''sourceRevision'']),
              U ''Approval choice: '' @ spaced (shown (path input [''setup'', ''approval'']))]
           else [])
      else if is_kind capt ''edit_ordinary_profile'' then
        [line ''Ordinary profile'' input [''profile'', ''catalogId''], line ''Preference'' input [''preferredInstallation'', ''kind'']]
      else if is_kind capt ''edit_isolated_profile'' then
        [line ''Profile'' input [''profile'', ''id''], line ''Preference'' input [''preferredInstallation'', ''kind'']]
        @ (if truthy (fld input ''name'') then [line ''Name'' input [''name'']] else [])
      else if kind_in capt [''archive_profile'', ''restore_profile'', ''delete_profile''] then
        [line ''Profile'' input [''profile'', ''id''], line ''Captured revision'' input [''profile'', ''revision'']]
      else if is_kind capt ''register_installation'' then
        [line ''Name'' input [''name''], line ''Physical installation'' input [''physicalId''], line ''Catalog revision'' input [''catalogRevision'']]
      else if is_kind capt ''edit_installation'' then
        line ''Name'' input [''name''] # installationLines (fld input ''installation'')
      else if is_kind capt ''save_configuration'' then
        targetLines (path input [''draft'', ''draft'', ''document'', ''target''])
        @ [line ''Document'' input [''draft'', ''draft'', ''document'', ''documentId''],
           int_text (int (length (arr_items (path input [''draft'', ''edits''])))) @ U '' configuration edits'']
        @ map (\<lambda>v. U ''Apply: '' @ spaced (shown v)) (arr_items (path input [''draft'', ''apply'']))
      else
        targetLines (path input [''document'', ''target''])
        @ [line ''Document'' input [''document'', ''documentId''], line ''Backup'' input [''backup'', ''backupId''],
           line ''Backup created'' input [''backup'', ''createdAt''],
           U ''The current document will receive a recoverable backup before replacement.''])"

text \<open>The kinds about the managed runtime.\<close>

definition runtime_lines :: "jv \<Rightarrow> jv \<Rightarrow> ustr list" where
  "runtime_lines capt input =
     (if kind_in capt [''runtime_install'', ''runtime_update'', ''runtime_repair''] then
        targetLines (fld input ''target'')
        @ [line ''Provider'' input [''selectedRelease'', ''providerId''], line ''Distribution'' input [''selectedRelease'', ''distributionId''],
           line ''Release'' input [''selectedRelease'', ''releaseVersion''], line ''Channel'' input [''selectedRelease'', ''channelId''],
           line ''Configuration'' capt [''preparedConfiguration'', ''kind'']]
      else if is_kind capt ''runtime_switch_source'' then
        targetLines (path input [''current'', ''target''])
        @ [line ''Current provider'' input [''current'', ''binding'', ''providerId''], line ''Selected provider'' input [''selectedRelease'', ''providerId''],
           line ''Selected distribution'' input [''selectedRelease'', ''distributionId''], line ''Release'' input [''selectedRelease'', ''releaseVersion''],
           line ''Configuration'' capt [''preparedConfiguration'', ''kind'']]
      else if is_kind capt ''runtime_adopt'' then
        targetLines (fld input ''target'')
        @ [line ''Provider'' input [''recognizedBinding'', ''providerId''], line ''Artifact'' input [''observedArtifactDigest''],
           U ''Only the exact recognized artifact is adopted.'']
      else
        targetLines (path input [''reference'', ''target''])
        @ [line ''Provider'' input [''reference'', ''binding'', ''providerId''],
           U (if is_kind capt ''runtime_remove'' then ''Managed runtime is removed through the captured ownership transaction.''
              else ''Runtime ownership is released; reviewed runtime bytes remain installed.'')])"

text \<open>The updates of the game and of Bridge, exports and preferences.\<close>

definition update_lines :: "jv \<Rightarrow> jv \<Rightarrow> ustr list" where
  "update_lines capt input =
     (if is_kind capt ''game_update'' then
        installationLines (path input [''checkedUpdate'', ''installation''])
        @ [line ''Current client'' input [''checkedUpdate'', ''currentClient'', ''version''],
           line ''Offered client'' input [''checkedUpdate'', ''offeredClient'', ''version'']]
      else if is_kind capt ''recover_game_update'' then
        installationLines (path input [''recovery'', ''installation''])
        @ [U ''Only the recorded native game-update transaction is recovered.'']
      else if is_kind capt ''bridge_update'' then
        [line ''Application'' input [''selectedRelease'', ''current'', ''applicationId''],
         line ''Current package'' input [''selectedRelease'', ''current'', ''packageDigest''],
         line ''Offered package'' input [''selectedRelease'', ''offered'', ''packageDigest''],
         line ''Offered release'' input [''selectedRelease'', ''releaseVersion''],
         line ''Channel'' input [''selectedRelease'', ''offered'', ''channelId'']]
      else if is_kind capt ''recover_bridge_update'' then
        [line ''Application'' input [''recovery'', ''application'', ''applicationId''],
         U ''Only the recorded Bridge package transaction is recovered.'']
      else if is_kind capt ''export_diagnostics'' then
        targetLines (path input [''preview'', ''target''])
        @ [U (if isS (path input [''preview'', ''disclosure'']) ''include_paths'' then ''Reviewed export includes private paths.''
              else ''Reviewed export excludes private paths.''),
           U ''Account contents and protected values are excluded.'']
      else
        [line ''Theme'' input [''values'', ''theme''], line ''Motion'' input [''values'', ''motion''],
         U ''Application preferences are separate from runtime TOML.''])"

definition catalog_kinds :: "string list" where
  "catalog_kinds = [''create_profile'', ''edit_ordinary_profile'', ''edit_isolated_profile'', ''archive_profile'', ''restore_profile'',
     ''delete_profile'', ''register_installation'', ''edit_installation'', ''save_configuration'', ''restore_configuration'']"

definition runtime_kinds :: "string list" where
  "runtime_kinds = [''runtime_install'', ''runtime_update'', ''runtime_repair'', ''runtime_switch_source'', ''runtime_adopt'',
     ''runtime_remove'', ''runtime_stop_managing'']"

definition update_kinds :: "string list" where
  "update_kinds = [''game_update'', ''recover_game_update'', ''bridge_update'', ''recover_bridge_update'', ''export_diagnostics'',
     ''save_application_preferences'']"

definition session_lines :: "jv \<Rightarrow> ustr list" where
  "session_lines capt =
     targetLines (fld capt ''target'')
     @ (if is_kind capt ''focus_session'' then
          [line ''Session'' capt [''session'', ''sessionId''] @ dot @ U ''PID '' @ shown (path capt [''session'', ''process'', ''pid'']),
           line ''Process creation'' capt [''session'', ''process'', ''startIdentity'', ''value'']]
        else [])"

text \<open>The preferred installation of an edited profile.\<close>

definition preference_lines :: "jv \<Rightarrow> ustr list" where
  "preference_lines capt =
     (let preference = path capt [''input'', ''preferredInstallation''] in
      if \<not> kind_in capt [''edit_ordinary_profile'', ''edit_isolated_profile''] then []
      else if is_kind preference ''set'' then
        [line ''Preferred installation'' preference [''installation'', ''registrationId''] @ dot @ U ''revision ''
          @ shown (path preference [''installation'', ''registrationRevision''])]
      else if is_kind preference ''keep'' then
        [if isS (path preference [''expected'', ''kind'']) ''registered'' then line ''Keep expected installation'' preference [''expected'', ''id'']
         else U ''Keep expected empty preference'']
      else [])"

record review_summary =
  rs_title :: ustr
  rs_lines :: "ustr list"
  rs_warning :: "ustr option"

definition captureSummary :: "jv \<Rightarrow> review_summary" where
  "captureSummary plan =
     (let capt = path plan [''semantics'', ''capture'']; input = fld capt ''input'' in
      \<lparr>rs_title = actionTitle (fld capt ''kind''),
       rs_lines = (if kind_in capt catalog_kinds then catalog_lines capt input
          else if kind_in capt runtime_kinds then runtime_lines capt input
          else if kind_in capt update_kinds then update_lines capt input
          else session_lines capt) @ preference_lines capt,
       rs_warning = (if is_kind capt ''delete_profile'' then
            Some (U ''Deletes the entire owned profile after explicit confirmation. This includes its owned data.'')
          else if is_kind capt ''runtime_switch_source'' then
            Some (U ''Changes runtime source and the reviewed configuration participant together.'')
          else None)\<rparr>)"

section \<open>Operations\<close>

definition outcome_label :: "jv \<Rightarrow> string option" where
  "outcome_label kind = map_option snd (find (\<lambda>(k, _). isS kind k)
     [(''changed'', ''Completed with changes''), (''no_change'', ''Already satisfied''), (''cancelled_before_commit'', ''Cancelled before commit''),
      (''rolled_back'', ''Rolled back''), (''failed'', ''Failed; review recovery choices'')])"

definition operationStatus :: "jv \<Rightarrow> ustr" where
  "operationStatus operation =
     (let state = fld operation ''state''; status = fld state ''status'' in
      case (if isS status ''completed'' then outcome_label (path state [''outcome'', ''kind'']) else None) of
        Some text \<Rightarrow> U text
      | None \<Rightarrow> U (if isS status ''recovery_required'' then ''Recovery required''
          else if isS status ''cancellation_requested'' then ''Cancellation requested''
          else if isS status ''running'' then ''Running'' else ''Admitted''))"

definition recoveryLabel :: "jv \<Rightarrow> ustr" where
  "recoveryLabel operation =
     (if \<not> isS (path operation [''state'', ''status'']) ''recovery_required'' then []
      else let kind = path operation [''state'', ''recovery'', ''target'', ''kind''] in
        if isS kind ''game'' \<or> isS kind ''bridge'' then U ''The recorded updater has a modeled recovery route. Review that exact transaction.''
        else U ''Recorded ownership is unresolved. Refresh observations; this operation has no generic recovery command.'')"

definition backupMatches :: "jv \<Rightarrow> jv \<Rightarrow> bool res" where
  "backupMatches document backup =
     andE (Inr (strict_eq (fld document ''documentId'') (path backup [''document'', ''documentId''])))
     (andE (bindingEquivalent (fld document ''target'') (path backup [''document'', ''target'']))
       (Inr (strict_eq (path document [''schema'', ''providerId'']) (path backup [''document'', ''schema'', ''providerId'']))))"

section \<open>Every kind has a title\<close>

lemma titled: "set catalog_kinds \<union> set runtime_kinds \<union> set update_kinds \<subseteq> fst ` set titles"
  by (simp add: catalog_kinds_def runtime_kinds_def update_kinds_def titles_def)

end
