(* ===== verification/Management.thy ===== *)
theory Management imports Facade_Saves Management_View begin

text \<open>
  The controller of the management screen, \<^verbatim>\<open>ManagementController\<close> of \<^verbatim>\<open>ui/src/views/management/controller.ts\<close>: what it has read
  about updates, releases, backups, imports and the availability of actions, and the intents it proposes
  to the shared review.

  Its state extends that of the facade, which is its only source: it subscribes to the facade's publications and
  starts afresh (a new generation, its reads aborted) whenever the selected target, the open document, the host, the confidence or an
  observed inventory changes. An await leaves an entry with the local variables and the
  call's number; one step goes on when the outcome is there. The set of the controller's own listeners is one
  function, \<open>mw_tell\<close>. An absent value is \<^verbatim>\<open>undefined\<close>. The context's state getter compares captured data, which
  does not throw, so a read of that state is a read of the fields.
\<close>

section \<open>The state\<close>

record management_state =
  ms_busy :: bool
  ms_notice :: string
  ms_availability :: "(ustr \<times> jv) list"
  ms_game :: jv
  ms_runtimeRelease :: jv
  ms_bridgeRelease :: jv
  ms_backups :: "jv list option"
  ms_historyComplete :: "bool option"
  ms_imports :: "jv list option"

definition empty_management :: management_state where
  "empty_management = \<lparr>ms_busy = False, ms_notice = [], ms_availability = [], ms_game = JUndef, ms_runtimeRelease = JUndef,
     ms_bridgeRelease = JUndef, ms_backups = None, ms_historyComplete = None, ms_imports = None\<rparr>"

text \<open>What the page passes: the metadata of one host, an observed ownership and a recognized runtime, as messages.\<close>

record management_inputs =
  mi_hostEpoch :: jv
  mi_catalogRevision :: jv
  mi_application :: jv
  mi_runtime :: jv
  mi_recognition :: jv

datatype management_wait =
    Actions_Wait nat jv "jv list" "(ustr \<times> nat) list" nat
  | Imports_Wait nat jv
  | Game_Wait nat
  | Release_Wait nat jv jv jv
  | Package_Wait nat jv
  | History_Wait nat jv
  | Operation_Read jv jv

record management = facade +
  mg_inputs :: management_inputs
  mg_state :: management_state
  mg_generation :: nat
  mg_disposed :: bool
  mg_key :: ustr
  mg_reads :: "(ustr \<times> nat) list"
  mg_noticeRead :: "nat option"
  mg_fresh :: nat
  mg_waits :: "(nat \<times> management_wait \<times> nat) list"

type_synonym ('w, 'a) in_management = "('w management_scheme, 'a) act"

record 's management_world =
  mw_facade :: "'s facade_world"
  mw_tell :: "management_state \<Rightarrow> 's \<Rightarrow> 's"

definition mg_epoch :: "'w management_scheme \<Rightarrow> jv" where
  "mg_epoch d = cursor_host (d_store d)"

definition observed_view :: "'w management_scheme \<Rightarrow> view" where
  "observed_view d = store_view (d_store d)"

definition target_of :: "'w management_scheme \<Rightarrow> jv" where
  "target_of d = or_undefined (w_binding (d_ctx d))"

section \<open>Publishing and invalidation\<close>

definition setM :: "'w management_scheme management_world \<Rightarrow> (management_state \<Rightarrow> management_state) \<Rightarrow> ('w, unit) in_management" where
  "setM mw f = next_act (upd (\<lambda>d. d\<lparr>mg_state := f (mg_state d)\<rparr>))
     (withS (\<lambda>d. if mg_disposed d then ret () else upd (mw_tell mw (mg_state d))))"

text \<open>The abort of the reads of a generation: those that have no outcome yet.\<close>

definition abort_reads :: "('w, unit) in_management" where
  "abort_reads = withS (\<lambda>d. clientU (fold (\<lambda>(_, _, n). abandon_unsettled n) (mg_waits d)))"

definition invalidateM :: "'w management_scheme management_world \<Rightarrow> ('w, unit) in_management" where
  "invalidateM mw =
     next_act (upd (\<lambda>d. d\<lparr>mg_generation := Suc (mg_generation d)\<rparr>))
     (next_act abort_reads
     (next_act (upd (\<lambda>d. d\<lparr>mg_reads := [], mg_noticeRead := None\<rparr>))
       (setM mw (\<lambda>_. empty_management))))"

definition management_key :: "screen_state \<Rightarrow> ustr res" where
  "management_key v =
     (let work = sc_work v; observations = sc_observations v; snapshot = or_undefined (v_snapshot observations) in
      canonicalData (JArr [or_null (ws_selector work), or_null (ws_binding work),
        coalesce (path (or_undefined (ws_draft work)) [''draft'', ''document'']) JNull,
        coalesce (fld (or_undefined (v_cursor observations)) ''hostEpoch'') JNull, S (confidence_text (v_confidence observations)),
        coalesce (fld snapshot ''profiles'') JNull, coalesce (fld snapshot ''installations'') JNull, coalesce (fld snapshot ''preferences'') JNull]))"

text \<open>What the constructor subscribes to the facade; \<open>stop\<close> takes it out.\<close>

definition management_hears :: "'w management_scheme management_world \<Rightarrow> screen_state \<Rightarrow> ('w, unit) in_management" where
  "management_hears mw v = withS (\<lambda>d. if mg_disposed d then ret ()
     else seq (ask (\<lambda>_. management_key v)) (\<lambda>key.
       if key = mg_key d then ret ()
       else next_act (upd (\<lambda>d. d\<lparr>mg_key := key\<rparr>)) (invalidateM mw)))"

text \<open>The facade with the controller after its other subscribers.\<close>

definition managed_facade :: "'w management_scheme management_world \<Rightarrow> 'w management_scheme facade_world" where
  "managed_facade mw = (mw_facade mw)\<lparr>fw_tell := \<lambda>v d. snd (management_hears mw v (fw_tell (mw_facade mw) v d))\<rparr>"

section \<open>What may be used\<close>

definition draft_conflicts :: "ctx \<Rightarrow> bool" where
  "draft_conflicts c \<longleftrightarrow> w_conflict c \<or> (case w_draft c of None \<Rightarrow> False | Some d \<Rightarrow> \<not> hostEpochCurrent (host_of d) c)"

definition usable :: "'w management_scheme \<Rightarrow> bool" where
  "usable d \<longleftrightarrow> \<not> mg_disposed d \<and> o_confidence (d_store d) = Authoritative \<and> \<not> draft_conflicts (d_ctx d)"

definition currentGeneration :: "nat \<Rightarrow> 'w management_scheme \<Rightarrow> bool" where
  "currentGeneration generation d \<longleftrightarrow> \<not> mg_disposed d \<and> generation = mg_generation d"

definition metadataCurrent :: "'w management_scheme \<Rightarrow> bool" where
  "metadataCurrent d \<longleftrightarrow> usable d \<and> truthy (mi_hostEpoch (mg_inputs d)) \<and> strict_eq (mi_hostEpoch (mg_inputs d)) (mg_epoch d)"

definition mg_catalogRevision :: "'w management_scheme \<Rightarrow> jv" where
  "mg_catalogRevision d = (if metadataCurrent d then mi_catalogRevision (mg_inputs d) else JUndef)"

definition mg_application :: "'w management_scheme \<Rightarrow> jv" where
  "mg_application d = (if metadataCurrent d then mi_application (mg_inputs d) else JUndef)"

definition mg_runtime :: "'w management_scheme \<Rightarrow> jv res" where
  "mg_runtime d =
     (let observed = mi_runtime (mg_inputs d); target = target_of d; ownership = fld observed ''value'' in
      if \<not> usable d \<or> \<not> truthy observed \<or> \<not> truthy target \<or> \<not> strict_eq (fld observed ''hostEpoch'') (mg_epoch d) then Inr JUndef
      else bindE (orE (negE (bindingEquivalent (fld observed ''target'') target))
            (andE (Inr (is_kind ownership ''managed'')) (negE (bindingEquivalent (path ownership [''reference'', ''target'']) target))))
        (\<lambda>refused. Inr (if refused then JUndef else ownership)))"

definition scopeKey :: "jv \<Rightarrow> jv \<Rightarrow> ustr res" where
  "scopeKey scope action = canonicalData (JArr [scope, action])"

definition scopeCurrent :: "jv \<Rightarrow> 'w management_scheme \<Rightarrow> bool res" where
  "scopeCurrent scope d =
     (if is_kind scope ''catalog'' then Inr (truthy (mg_catalogRevision d) \<and> strict_eq (fld scope ''revision'') (mg_catalogRevision d))
      else if is_kind scope ''application'' then
        andE (Inr (truthy (mg_application d))) (bindingEquivalent (fld scope ''application'') (mg_application d))
      else if is_kind scope ''target'' then andE (Inr (truthy (target_of d))) (bindingEquivalent (fld scope ''target'') (target_of d))
      else if is_kind scope ''document'' then (case w_draft (d_ctx d) of
          None \<Rightarrow> Inr False | Some draft \<Rightarrow> bindingEquivalent (fld scope ''document'') (path draft [''draft'', ''document'']))
      else if is_kind scope ''profile'' then
        someE (\<lambda>row. andE (Inr (is_kind row ''isolated'')) (bindingEquivalent (fld row ''reference'') (fld scope ''profile''))) (observedProfiles (observed_view d))
      else if is_kind scope ''session'' then
        someE (\<lambda>row. same_data (fld row ''binding'') (fld scope ''session'')) (sessions (observed_view d))
      else Inr False)"

definition projection :: "jv \<Rightarrow> jv \<Rightarrow> management_state \<Rightarrow> jv res" where
  "projection scope action s = bindE (scopeKey scope action) (\<lambda>key. Inr (or_undefined (map_of (ms_availability s) key)))"

section \<open>Awaiting\<close>

definition callM :: "'w management_scheme management_world \<Rightarrow> request_kind \<Rightarrow> string \<Rightarrow> jv \<Rightarrow> call_args \<Rightarrow> management_wait \<Rightarrow> ('w, unit) in_management" where
  "callM mw k name input a wait = withS (\<lambda>d.
     seq (callS (fw_options (mw_facade mw)) (fw_request (mw_facade mw)) k name input (a\<lparr>a_aborted := (a_aborted a \<or> mg_disposed d)\<rparr>)) (\<lambda>n.
       upd (\<lambda>d. d\<lparr>mg_fresh := Suc (mg_fresh d), mg_waits := mg_waits d @ [(mg_fresh d, wait, n)]\<rparr>)))"

text \<open>Publish, and go on only if no listener has started a new generation.\<close>

definition set_then :: "'w management_scheme management_world \<Rightarrow> nat \<Rightarrow> (management_state \<Rightarrow> management_state) \<Rightarrow> ('w, unit) in_management \<Rightarrow> ('w, unit) in_management" where
  "set_then mw generation f rest = next_act (setM mw f) (withS (\<lambda>d. if currentGeneration generation d then rest else ret ()))"

section \<open>The availability of actions\<close>

definition count_read :: "ustr \<Rightarrow> (ustr \<times> nat) list \<times> (ustr \<times> nat) list \<Rightarrow> (ustr \<times> nat) list \<times> (ustr \<times> nat) list" where
  "count_read key = (\<lambda>(mine, all). let n = Suc (case map_of all key of None \<Rightarrow> 0 | Some k \<Rightarrow> k) in (AList.update key n mine, AList.update key n all))"

definition ownsRead :: "(ustr \<times> nat) list \<Rightarrow> 'w management_scheme \<Rightarrow> bool" where
  "ownsRead mine d \<longleftrightarrow> (\<exists>(key, n) \<in> set mine. map_of (mg_reads d) key = Some n)"

definition inspectActions :: "'w management_scheme management_world \<Rightarrow> jv \<Rightarrow> jv list \<Rightarrow> call_args \<Rightarrow> ('w, unit) in_management" where
  "inspectActions mw scope actions a = unlessS (\<lambda>d. orE (Inr (\<not> usable d)) (orE (negE (scopeCurrent scope d)) (Inr (actions = [])))) (ret ())
     (seq (ask (\<lambda>_. capture scope)) (\<lambda>captured.
      seq (ask (\<lambda>_. mapE (scopeKey captured) actions)) (\<lambda>keys. withS (\<lambda>d.
        let generation = mg_generation d; token = mg_fresh d; (mine, all) = fold count_read keys ([], mg_reads d) in
        next_act (upd (\<lambda>d. d\<lparr>mg_reads := all, mg_noticeRead := Some token, mg_fresh := Suc token\<rparr>))
        (set_then mw generation (\<lambda>s. s\<lparr>ms_availability := filter (\<lambda>(k, _). k \<notin> set keys) (ms_availability s)\<rparr>)
          (withS (\<lambda>d. if ownsRead mine d
             then callM mw Query ''get_actions'' (JObj [(U ''scope'', captured), (U ''actions'', JArr actions)]) a (Actions_Wait generation captured actions mine token)
             else ret ())))))))"

text \<open>The answer counts for the keys whose last read it is: the one row of the action, or none.\<close>

definition answered_action :: "jv outcome \<Rightarrow> jv \<Rightarrow> jv option" where
  "answered_action r action = (case r of
       Returned v _ \<Rightarrow> (case filter (\<lambda>row. strict_eq (fld row ''action'') action) (arr_items v) of [row] \<Rightarrow> Some row | _ \<Rightarrow> None)
     | _ \<Rightarrow> None)"

definition answered_actions :: "jv \<Rightarrow> jv list \<Rightarrow> (ustr \<times> nat) list \<Rightarrow> jv outcome \<Rightarrow> 'w management_scheme \<Rightarrow> (ustr \<times> jv) list res" where
  "answered_actions captured actions mine r d = foldE (\<lambda>rows action. bindE (scopeKey captured action) (\<lambda>key. Inr
       (if map_of (mg_reads d) key \<noteq> map_of mine key then rows
        else case answered_action r action of None \<Rightarrow> AList.delete key rows | Some row \<Rightarrow> AList.update key row (AList.delete key rows))))
     (ms_availability (mg_state d)) actions"

definition actions_read :: "'w management_scheme management_world \<Rightarrow> nat \<Rightarrow> jv \<Rightarrow> jv list \<Rightarrow> (ustr \<times> nat) list \<Rightarrow> nat \<Rightarrow> jv outcome \<Rightarrow> ('w, unit) in_management" where
  "actions_read mw generation captured actions mine token r = withS (\<lambda>d.
     if \<not> currentGeneration generation d \<or> \<not> ownsRead mine d then ret ()
     else seq (ask (answered_actions captured actions mine r)) (\<lambda>rows.
       setM mw (\<lambda>s. s\<lparr>ms_availability := rows, ms_notice := (if mg_noticeRead d \<noteq> Some token then ms_notice s
         else case r of Returned _ _ \<Rightarrow> [] | _ \<Rightarrow> ''Action availability is unavailable. Refresh the captured scope.'')\<rparr>)))"

section \<open>Proposing an intent for review\<close>

definition same_input_part :: "jv \<Rightarrow> string list \<Rightarrow> jv \<Rightarrow> string list \<Rightarrow> bool res" where
  "same_input_part scope ks intent js = bindingEquivalent (path scope ks) (path intent js)"

definition intentScopeMatches :: "jv \<Rightarrow> jv \<Rightarrow> 'w management_scheme \<Rightarrow> bool res" where
  "intentScopeMatches intent scope d =
     (let at = (\<lambda>kind m. andE (Inr (is_kind scope kind)) m) in
      if kind_in intent [''create_profile'', ''register_installation''] then
        Inr (is_kind scope ''catalog'' \<and> strict_eq (fld scope ''revision'') (path intent [''input'', ''expectedCatalogRevision'']))
      else if is_kind intent ''edit_ordinary_profile'' then
        at ''catalog'' (someE (\<lambda>row. andE (Inr (is_kind row ''ordinary'')) (bindingEquivalent (fld row ''reference'') (path intent [''input'', ''profile''])))
          (observedProfiles (observed_view d)))
      else if kind_in intent [''edit_isolated_profile'', ''archive_profile'', ''restore_profile'', ''delete_profile''] then
        at ''profile'' (same_input_part scope [''profile''] intent [''input'', ''profile''])
      else if is_kind intent ''edit_installation'' then
        at ''target'' (same_data (path scope [''target'', ''installation'']) (path intent [''input'', ''installation'']))
      else if is_kind intent ''restore_configuration'' then
        at ''document'' (same_input_part scope [''document''] intent [''input'', ''document''])
      else if kind_in intent [''runtime_install'', ''runtime_update'', ''runtime_repair'', ''runtime_adopt''] then
        at ''target'' (same_input_part scope [''target''] intent [''input'', ''target''])
      else if kind_in intent [''runtime_remove'', ''runtime_stop_managing''] then
        at ''target'' (same_input_part scope [''target''] intent [''input'', ''reference'', ''target''])
      else if is_kind intent ''runtime_switch_source'' then
        at ''target'' (same_input_part scope [''target''] intent [''input'', ''current'', ''target''])
      else if is_kind intent ''game_update'' then
        at ''target'' (same_data (path scope [''target'', ''installation'']) (path intent [''input'', ''checkedUpdate'', ''installation'']))
      else if is_kind intent ''bridge_update'' then
        at ''application'' (same_input_part scope [''application''] intent [''input'', ''selectedRelease'', ''current''])
      else Inr False)"

definition review_refused :: "jv \<Rightarrow> jv \<Rightarrow> 'w management_scheme \<Rightarrow> bool res" where
  "review_refused intent scope d =
     orE (Inr (\<not> usable d)) (orE (negE (scopeCurrent scope d)) (orE (negE (intentScopeMatches intent scope d))
       (orE (dirty (d_ctx d)) (orE (Inr (w_busy (d_ctx d)))
         (bindE (projection scope (fld intent ''kind'') (mg_state d)) (\<lambda>p. Inr (\<not> available p)))))))"

text \<open>The promise is that of the shared review's \<^verbatim>\<open>prepare\<close>; a refusal is \<^verbatim>\<open>false\<close> at once.\<close>

definition reviewM :: "'w management_scheme management_world \<Rightarrow> jv \<Rightarrow> jv \<Rightarrow> ustr \<Rightarrow> call_args \<Rightarrow> ('w, jv review_reply) in_management" where
  "reviewM mw intent scope focusKey a = unlessS (review_refused intent scope) (ret Nothing)
     (review_prepare (facade_review (managed_facade mw)) intent (Some focusKey) a)"

end
