(* ===== verification/Management_Intents.thy ===== *)
theory Management_Intents imports Management begin

text \<open>
  The intents that the management screen proposes, each a function of what has been read and of the observed
  state: profiles, catalog entries, updates, the managed runtime, a restored backup and the recovery of an operation
  (\<^verbatim>\<open>ui/src/views/management/controller.ts\<close>). \<^verbatim>\<open>undefined\<close> is \<open>None\<close>: there is nothing to propose.
\<close>

definition intent :: "string \<Rightarrow> (string \<times> jv) list \<Rightarrow> jv" where
  "intent kind members = JObj [(U ''kind'', S kind), (U ''input'', JObj (map (\<lambda>(k, v). (U k, v)) members))]"

text \<open>Propose unless a condition that can throw says no.\<close>

definition unless_refused :: "bool res \<Rightarrow> jv option \<Rightarrow> jv option res" where
  "unless_refused c x = bindE c (\<lambda>refused. Inr (if refused then None else x))"

section \<open>Profiles\<close>

definition profileObserved :: "jv \<Rightarrow> 'w management_scheme \<Rightarrow> bool res" where
  "profileObserved profile d = someE (\<lambda>row.
     if \<not> strict_eq (coalesce (fld row ''preferredInstallation'') JNull) (coalesce (fld profile ''preferredInstallation'') JNull) then Inr False
     else if is_kind row ''ordinary'' \<and> is_kind profile ''ordinary'' then bindingEquivalent (fld row ''reference'') (fld profile ''reference'')
     else andE (Inr (is_kind row ''isolated'' \<and> is_kind profile ''isolated'' \<and> strict_eq (fld row ''name'') (fld profile ''name'')))
       (andE (bindingEquivalent (fld row ''reference'') (fld profile ''reference'')) (same_data (fld row ''store'') (fld profile ''store''))))
     (observedProfiles (observed_view d))"

definition profileScope :: "jv \<Rightarrow> 'w management_scheme \<Rightarrow> jv option res" where
  "profileScope profile d = unless_refused (orE (Inr (\<not> is_kind profile ''isolated'')) (negE (profileObserved profile d)))
     (Some (JObj [(U ''kind'', S ''profile''), (U ''profile'', fld profile ''reference'')]))"

definition expected_preference :: "jv \<Rightarrow> jv" where
  "expected_preference profile = (let p = fld profile ''preferredInstallation'' in
     if truthy p then JObj [(U ''kind'', S ''registered''), (U ''id'', p)] else JObj [(U ''kind'', S ''none'')])"

definition kept_preference :: "jv \<Rightarrow> jv" where
  "kept_preference profile = JObj [(U ''kind'', S ''keep''), (U ''expected'', expected_preference profile)]"

definition preference_refused :: "jv \<Rightarrow> jv \<Rightarrow> 'w management_scheme \<Rightarrow> bool res" where
  "preference_refused profile preference d =
     orE (andE (Inr (is_kind preference ''set''))
           (negE (someE (\<lambda>row. andE (Inr (is_kind (fld row ''binding'') ''registered'')) (bindingEquivalent (fld row ''binding'') (fld preference ''installation'')))
             (installations (observed_view d)))))
         (andE (Inr (is_kind preference ''keep'')) (negE (same_data (fld preference ''expected'') (expected_preference profile))))"

datatype profile_action = Edit | Archive | Restore | Delete

definition edited_profile :: "jv \<Rightarrow> ustr option \<Rightarrow> jv \<Rightarrow> jv" where
  "edited_profile profile named preference =
     (let common = [(''profile'', fld profile ''reference''), (''preferredInstallation'', preference)] in
      if is_kind profile ''ordinary'' then intent ''edit_ordinary_profile'' common
      else intent ''edit_isolated_profile'' (common @ (case named of
          Some n \<Rightarrow> if js_trim n \<noteq> [] then [(''name'', JStr (js_trim n))] else [] | None \<Rightarrow> [])))"

definition profileIntent :: "jv \<Rightarrow> profile_action \<Rightarrow> ustr option \<Rightarrow> jv option \<Rightarrow> 'w management_scheme \<Rightarrow> jv option res" where
  "profileIntent profile action named given_preference d =
     (let preference = (case given_preference of Some p \<Rightarrow> p | None \<Rightarrow> kept_preference profile);
          reference = fld profile ''reference'' in
      unless_refused (orE (Inr (\<not> usable d)) (orE (negE (profileObserved profile d))
        (andE (Inr (action = Edit)) (preference_refused profile preference d))))
      (if action = Edit then Some (edited_profile profile named preference)
       else if \<not> is_kind profile ''isolated'' then None
       else if action = Archive \<and> isS (fld reference ''state'') ''active'' then Some (intent ''archive_profile'' [(''profile'', reference)])
       else if action = Restore \<and> isS (fld reference ''state'') ''archived'' then Some (intent ''restore_profile'' [(''profile'', reference)])
       else if action = Delete then Some (intent ''delete_profile'' [(''profile'', reference), (''confirmation'', S ''delete_entire_owned_profile'')])
       else None))"

section \<open>The catalog\<close>

definition preferred_observed :: "jv \<Rightarrow> 'w management_scheme \<Rightarrow> bool" where
  "preferred_observed wanted d \<longleftrightarrow> (\<exists>row \<in> set (installations (observed_view d)). let b = fld row ''binding'' in
     is_kind b ''registered'' \<and> strict_eq (fld b ''registrationId'') (fld wanted ''id'')
     \<and> (nullish (fld wanted ''revisionAssertion'') \<or> strict_eq (fld b ''registrationRevision'') (fld wanted ''revisionAssertion'')))"

definition import_observed :: "jv \<Rightarrow> 'w management_scheme \<Rightarrow> bool res" where
  "import_observed source d = someE (\<lambda>row. andE (same_data (fld row ''reference'') source)
       (Inr (isS (path row [''accessibility'', ''status'']) ''observed'' \<and> truthy (path row [''accessibility'', ''value'']))))
     (case ms_imports (mg_state d) of Some rows \<Rightarrow> rows | None \<Rightarrow> [])"

definition for_revision :: "string \<Rightarrow> jv \<Rightarrow> jv \<Rightarrow> jv" where
  "for_revision kind input revision = JObj [(U ''kind'', S kind), (U ''input'', obj_put input ''expectedCatalogRevision'' revision)]"

definition createIntent :: "jv \<Rightarrow> 'w management_scheme \<Rightarrow> jv option res" where
  "createIntent input d =
     (let revision = mg_catalogRevision d; setup = fld input ''setup'' in
      unless_refused (orE (Inr (\<not> truthy revision \<or> \<not> preferred_observed (fld input ''preferredInstallation'') d))
          (andE (Inr (is_kind setup ''windows_user_import'')) (negE (import_observed (fld setup ''source'') d))))
        (Some (for_revision ''create_profile'' input revision)))"

definition registerIntent :: "jv \<Rightarrow> 'w management_scheme \<Rightarrow> jv option" where
  "registerIntent input d = (let revision = mg_catalogRevision d in
     if \<not> truthy revision then None else Some (for_revision ''register_installation'' input revision))"

section \<open>Updates\<close>

definition gameIntent :: "'w management_scheme \<Rightarrow> jv option res" where
  "gameIntent d =
     (let v = ms_game (mg_state d); update = fld v ''value'' in
      unless_refused (orE (Inr (\<not> usable d \<or> \<not> isS (fld v ''status'') ''observed'' \<or> \<not> strict_eq (fld update ''hostEpoch'') (mg_epoch d)))
          (negE (same_data (fld update ''installation'') (coalesce (fld (target_of d) ''installation'') JNull))))
        (Some (intent ''game_update'' [(''checkedUpdate'', update)])))"

definition bridgeIntent :: "'w management_scheme \<Rightarrow> jv option res" where
  "bridgeIntent d =
     (let v = ms_bridgeRelease (mg_state d); release = fld v ''value'' in
      unless_refused (orE (Inr (\<not> truthy (mg_application d) \<or> \<not> isS (fld v ''status'') ''observed''))
          (orE (negE (bindingEquivalent (fld release ''current'') (mg_application d))) (Inr (\<not> strict_eq (fld release ''hostEpoch'') (mg_epoch d)))))
        (Some (intent ''bridge_update'' [(''selectedRelease'', release)])))"

section \<open>The managed runtime\<close>

definition configurationCurrent :: "jv \<Rightarrow> 'w management_scheme \<Rightarrow> bool res" where
  "configurationCurrent configuration d = (case w_draft (d_ctx d) of
       None \<Rightarrow> Inr False
     | Some draft \<Rightarrow>
         if is_kind configuration ''save_reviewed_draft'' then bindingEquivalent (fld configuration ''draft'') (fld draft ''draft'')
         else bindingEquivalent (fld configuration ''document'') (path draft [''draft'', ''document'']))"

text \<open>A migration must lead to the schema of the selected release.\<close>

definition migration_refused :: "jv \<Rightarrow> jv \<Rightarrow> bool res" where
  "migration_refused configuration release =
     andE (Inr (is_kind configuration ''compatible_migration''))
       (negE (same_data (fld configuration ''destination'') (fld release ''configurationSchema'')))"

definition same_distribution :: "jv \<Rightarrow> jv \<Rightarrow> bool" where
  "same_distribution ownership release \<longleftrightarrow>
     strict_eq (path ownership [''reference'', ''binding'', ''providerId'']) (fld release ''providerId'')
     \<and> strict_eq (path ownership [''reference'', ''binding'', ''distributionId'']) (fld release ''distributionId'')"

definition runtimeIntent :: "string \<Rightarrow> jv \<Rightarrow> 'w management_scheme \<Rightarrow> jv option res" where
  "runtimeIntent kind configuration d =
     (let selected = ms_runtimeRelease (mg_state d); release = fld selected ''value''; target = target_of d in
      bindE (mg_runtime d) (\<lambda>ownership.
      unless_refused (orE (Inr (\<not> isS (fld selected ''status'') ''observed'' \<or> \<not> truthy target \<or> \<not> truthy ownership))
          (orE (negE (bindingEquivalent (fld release ''target'') target)) (orE (Inr (\<not> strict_eq (fld release ''hostEpoch'') (mg_epoch d)))
          (orE (negE (configurationCurrent configuration d)) (orE (migration_refused configuration release)
          (Inr ((kind = ''runtime_install'' \<and> \<not> is_kind ownership ''absent'') \<or> (kind \<noteq> ''runtime_install'' \<and> \<not> is_kind ownership ''managed'')
            \<or> (is_kind ownership ''managed'' \<and> \<not> same_distribution ownership release)))))))
        )
        (Some (intent kind [(''target'', target), (''configuration'', configuration), (''expectedOwnership'', ownership), (''selectedRelease'', release)]))))"

definition managedRuntimeIntent :: "string \<Rightarrow> 'w management_scheme \<Rightarrow> jv option res" where
  "managedRuntimeIntent kind d = bindE (mg_runtime d) (\<lambda>ownership.
     Inr (if \<not> is_kind ownership ''managed'' then None else Some (intent kind [(''reference'', fld ownership ''reference'')])))"

definition switchRuntimeIntent :: "jv \<Rightarrow> 'w management_scheme \<Rightarrow> jv option res" where
  "switchRuntimeIntent configuration d =
     (let selected = ms_runtimeRelease (mg_state d); release = fld selected ''value''; target = target_of d in
      bindE (mg_runtime d) (\<lambda>ownership.
      unless_refused (orE (Inr (\<not> is_kind ownership ''managed'' \<or> \<not> isS (fld selected ''status'') ''observed'' \<or> \<not> truthy target
             \<or> \<not> strict_eq (fld release ''hostEpoch'') (mg_epoch d)))
          (orE (negE (bindingEquivalent (fld release ''target'') target)) (orE (negE (configurationCurrent configuration d))
          (orE (migration_refused configuration release) (Inr (same_distribution ownership release))))))
        (Some (intent ''runtime_switch_source'' [(''current'', fld ownership ''reference''), (''selectedRelease'', release), (''configuration'', configuration),
           (''confirmation'', S ''switch_runtime_and_configuration_source'')]))))"

definition adoptionIntent :: "'w management_scheme \<Rightarrow> jv option res" where
  "adoptionIntent d =
     (let recognition = mi_recognition (mg_inputs d); input = fld recognition ''input''; target = target_of d in
      bindE (mg_runtime d) (\<lambda>ownership.
      unless_refused (orE (Inr (\<not> is_kind ownership ''unmanaged'' \<or> \<not> truthy recognition \<or> \<not> strict_eq (fld recognition ''hostEpoch'') (mg_epoch d)
             \<or> \<not> truthy target))
          (orE (negE (bindingEquivalent (fld input ''target'') target))
            (Inr (\<not> strict_eq (fld input ''observedArtifactDigest'') (fld ownership ''artifactDigest'')))))
        (Some (JObj [(U ''kind'', S ''runtime_adopt''), (U ''input'', input)]))))"

section \<open>Backups and recorded operations\<close>

definition document_scope :: "jv \<Rightarrow> jv" where
  "document_scope document = JObj [(U ''kind'', S ''document''), (U ''document'', document)]"

definition restoreIntent :: "jv \<Rightarrow> jv \<Rightarrow> 'w management_scheme \<Rightarrow> jv option res" where
  "restoreIntent document backup d =
     unless_refused (orE (Inr (\<not> usable d)) (orE (negE (scopeCurrent (document_scope document) d)) (orE (dirty (d_ctx d))
       (orE (negE (someE (\<lambda>v. same_data v backup) (case ms_backups (mg_state d) of Some rows \<Rightarrow> rows | None \<Rightarrow> [])))
         (negE (backupMatches document backup))))))
     (Some (intent ''restore_configuration'' [(''document'', document), (''backup'', backup)]))"

definition operationCurrent :: "jv \<Rightarrow> 'w management_scheme \<Rightarrow> bool res" where
  "operationCurrent operation d = (case operation_by_id (fld operation ''operationId'') (d_store d) of
       None \<Rightarrow> Inr False
     | Some current \<Rightarrow> same_observation current operation)"

definition recoveryIntent :: "jv \<Rightarrow> 'w management_scheme \<Rightarrow> jv option res" where
  "recoveryIntent operation d =
     unless_refused (orE (Inr (\<not> usable d)) (orE (negE (operationCurrent operation d)) (Inr (\<not> isS (status_of operation) ''recovery_required''))))
       (recovery_intent operation)"

end
