(* ===== verification/Management_Reads.thy ===== *)
theory Management_Reads imports Management_Intents begin

text \<open>
  The reads of the management screen (\<^verbatim>\<open>ui/src/views/management/controller.ts\<close>): each takes the generation with it, asks,
  and writes what came back only if no new generation has begun and the answer is about what was asked. Then the
  recovery of a recorded operation, the disposal, and the controller's steps together with those of the facade.
\<close>

section \<open>Before the answer\<close>

definition discoverImports :: "'w management_scheme management_world \<Rightarrow> jv \<Rightarrow> call_args \<Rightarrow> ('w, unit) in_management" where
  "discoverImports mw ownerScope a = withS (\<lambda>d.
     if \<not> usable d \<or> ms_busy (mg_state d)
        \<or> \<not> (\<exists>p \<in> set (observedProfiles (observed_view d)). is_kind p ''ordinary'' \<and> strict_eq (path p [''reference'', ''ownerScope'']) ownerScope) then ret ()
     else set_then mw (mg_generation d) (\<lambda>s. s\<lparr>ms_busy := True, ms_imports := None\<rparr>)
       (callM mw Command ''request_import_discovery'' (JObj [(U ''expectedDestinationOwner'', ownerScope), (U ''approval'', S ''request_native_approval'')]) a
         (Imports_Wait (mg_generation d) ownerScope)))"

definition checkGame :: "'w management_scheme management_world \<Rightarrow> call_args \<Rightarrow> ('w, unit) in_management" where
  "checkGame mw a = withS (\<lambda>d. case w_selector (d_ctx d) of
       None \<Rightarrow> ret ()
     | Some selector \<Rightarrow>
         if \<not> usable d \<or> ms_busy (mg_state d) then ret ()
         else set_then mw (mg_generation d) (\<lambda>s. s\<lparr>ms_busy := True, ms_game := JUndef\<rparr>)
           (callM mw Query ''check_game_update'' (JObj [(U ''installation'', fld selector ''installation'')]) a (Game_Wait (mg_generation d))))"

definition provider_preferred :: "jv \<Rightarrow> jv \<Rightarrow> 'w management_scheme \<Rightarrow> bool" where
  "provider_preferred providerId channelId d =
     (let preference = fld (or_undefined (o_snapshot (d_store d))) ''preferences''; provider = path preference [''value'', ''values'', ''provider''] in
      isS (fld preference ''status'') ''observed'' \<and> strict_eq (fld provider ''providerId'') providerId \<and> strict_eq (fld provider ''channelId'') channelId)"

definition checkRuntime :: "'w management_scheme management_world \<Rightarrow> jv \<Rightarrow> jv \<Rightarrow> call_args \<Rightarrow> ('w, unit) in_management" where
  "checkRuntime mw providerId channelId a = withS (\<lambda>d. case (w_binding (d_ctx d), w_selector (d_ctx d)) of
       (Some target, Some selector) \<Rightarrow>
         if \<not> usable d \<or> \<not> targetMatches selector target \<or> ms_busy (mg_state d) \<or> \<not> provider_preferred providerId channelId d then ret ()
         else set_then mw (mg_generation d) (\<lambda>s. s\<lparr>ms_busy := True, ms_runtimeRelease := JUndef\<rparr>)
           (callM mw Query ''check_runtime_release'' (JObj [(U ''target'', target), (U ''providerId'', providerId), (U ''channelId'', channelId)]) a
             (Release_Wait (mg_generation d) target providerId channelId))
     | _ \<Rightarrow> ret ())"

definition checkBridge :: "'w management_scheme management_world \<Rightarrow> call_args \<Rightarrow> ('w, unit) in_management" where
  "checkBridge mw a = withS (\<lambda>d. if \<not> truthy (mg_application d) \<or> ms_busy (mg_state d) then ret ()
     else seq (ask (\<lambda>_. capture (mg_application d))) (\<lambda>application.
       set_then mw (mg_generation d) (\<lambda>s. s\<lparr>ms_busy := True, ms_bridgeRelease := JUndef\<rparr>)
         (callM mw Query ''check_bridge_update'' (JObj [(U ''application'', application)]) a (Package_Wait (mg_generation d) application))))"

definition historyM :: "'w management_scheme management_world \<Rightarrow> jv \<Rightarrow> call_args \<Rightarrow> ('w, unit) in_management" where
  "historyM mw document a = unlessS (\<lambda>d. orE (Inr (\<not> usable d \<or> ms_busy (mg_state d))) (negE (scopeCurrent (document_scope document) d))) (ret ())
     (seq (ask (\<lambda>_. capture document)) (\<lambda>captured. withS (\<lambda>d.
       set_then mw (mg_generation d) (\<lambda>s. s\<lparr>ms_busy := True, ms_backups := None\<rparr>)
         (callM mw Query ''configuration_history'' (JObj [(U ''document'', captured)]) a (History_Wait (mg_generation d) captured)))))"

text \<open>The refresh of an operation belongs to no generation; it is fenced by the host and by the operation's plan.\<close>

definition refreshOperation :: "'w management_scheme management_world \<Rightarrow> jv \<Rightarrow> call_args \<Rightarrow> ('w, unit) in_management" where
  "refreshOperation mw operation a = unlessS (\<lambda>d. orE (Inr (mg_disposed d)) (negE (operationCurrent operation d))) (ret ())
     (seq (ask (\<lambda>_. capture operation)) (\<lambda>captured. withS (\<lambda>d.
       callM mw Query ''get_operation'' (JObj [(U ''operationId'', fld captured ''operationId'')]) a (Operation_Read captured (mg_epoch d)))))"

section \<open>After the answer\<close>

definition answer_of :: "jv outcome \<Rightarrow> jv" where
  "answer_of r = (case r of Returned v _ \<Rightarrow> v | _ \<Rightarrow> JUndef)"

definition imports_found :: "jv \<Rightarrow> jv outcome \<Rightarrow> bool" where
  "imports_found ownerScope r = (let v = answer_of r in isS (fld v ''status'') ''observed''
     \<and> (\<forall>row \<in> set (arr_items (path v [''value'', ''items''])). strict_eq (path row [''reference'', ''destinationOwner'']) ownerScope))"

definition imports_read :: "'w management_scheme management_world \<Rightarrow> nat \<Rightarrow> jv \<Rightarrow> jv outcome \<Rightarrow> ('w, unit) in_management" where
  "imports_read mw generation ownerScope r = withS (\<lambda>d. if \<not> currentGeneration generation d then ret ()
     else if imports_found ownerScope r
       then setM mw (\<lambda>s. s\<lparr>ms_busy := False, ms_imports := Some (arr_items (path (answer_of r) [''value'', ''items''])),
          ms_notice := ''Native import sources observed. Review an explicit source before creating a profile.''\<rparr>)
     else setM mw (\<lambda>s. s\<lparr>ms_busy := False, ms_notice := ''Native import discovery is unavailable, conflicting or was cancelled.''\<rparr>))"

text \<open>An observation that is there is kept if it is about what was asked; one that is not observed is kept as it is.\<close>

definition observation_valid :: "jv \<Rightarrow> bool res \<Rightarrow> bool res" where
  "observation_valid observation about = orE (Inr (\<not> isS (fld observation ''status'') ''observed'')) about"

definition game_about :: "jv \<Rightarrow> 'w management_scheme \<Rightarrow> bool res" where
  "game_about v d = andE (Inr (truthy (target_of d)))
     (andE (same_data (fld v ''installation'') (fld (target_of d) ''installation'')) (Inr (strict_eq (fld v ''hostEpoch'') (mg_epoch d))))"

definition release_about :: "jv \<Rightarrow> jv \<Rightarrow> jv \<Rightarrow> jv \<Rightarrow> 'w management_scheme \<Rightarrow> bool res" where
  "release_about v target providerId channelId d = andE (bindingEquivalent (fld v ''target'') target)
     (Inr (strict_eq (fld v ''providerId'') providerId \<and> strict_eq (fld v ''channelId'') channelId \<and> strict_eq (fld v ''hostEpoch'') (mg_epoch d)))"

definition package_about :: "jv \<Rightarrow> jv \<Rightarrow> 'w management_scheme \<Rightarrow> bool res" where
  "package_about v application d = andE (bindingEquivalent (fld v ''current'') application) (Inr (strict_eq (fld v ''hostEpoch'') (mg_epoch d)))"

definition kept :: "bool \<Rightarrow> jv \<Rightarrow> jv" where
  "kept ok observation = (if ok then observation else JUndef)"

definition notice_unless :: "bool \<Rightarrow> jv \<Rightarrow> string \<Rightarrow> string" where
  "notice_unless ok observation notice = (if ok \<and> truthy observation then [] else notice)"

definition game_read :: "'w management_scheme management_world \<Rightarrow> nat \<Rightarrow> jv outcome \<Rightarrow> ('w, unit) in_management" where
  "game_read mw generation r = withS (\<lambda>d. if \<not> currentGeneration generation d then ret ()
     else let v = answer_of r in
       seq (ask (\<lambda>d. observation_valid v (game_about (fld v ''value'') d))) (\<lambda>ok.
         setM mw (\<lambda>s. s\<lparr>ms_busy := False, ms_game := kept ok v,
           ms_notice := notice_unless ok v ''Game update observation was not confirmed for this installation.''\<rparr>)))"

definition release_read :: "'w management_scheme management_world \<Rightarrow> nat \<Rightarrow> jv \<Rightarrow> jv \<Rightarrow> jv \<Rightarrow> jv outcome \<Rightarrow> ('w, unit) in_management" where
  "release_read mw generation target providerId channelId r = withS (\<lambda>d. if \<not> currentGeneration generation d then ret ()
     else let v = answer_of r in
       seq (ask (\<lambda>d. observation_valid v (release_about (fld v ''value'') target providerId channelId d))) (\<lambda>ok.
         setM mw (\<lambda>s. s\<lparr>ms_busy := False, ms_runtimeRelease := kept ok v,
           ms_notice := notice_unless ok v ''Runtime release observation conflicts with the requested scope.''\<rparr>)))"

definition package_read :: "'w management_scheme management_world \<Rightarrow> nat \<Rightarrow> jv \<Rightarrow> jv outcome \<Rightarrow> ('w, unit) in_management" where
  "package_read mw generation application r = withS (\<lambda>d. if \<not> currentGeneration generation d then ret ()
     else let v = answer_of r in
       seq (ask (\<lambda>d. observation_valid v (package_about (fld v ''value'') application d))) (\<lambda>ok.
         setM mw (\<lambda>s. s\<lparr>ms_busy := False, ms_bridgeRelease := kept ok v,
           ms_notice := notice_unless ok v ''Bridge package binding is unavailable or changed.''\<rparr>)))"

definition history_found :: "jv \<Rightarrow> jv \<Rightarrow> bool res" where
  "history_found document v = andE (Inr (isS (fld v ''status'') ''observed'' \<and> truthy (fld v ''value'')))
     (everyE (backupMatches document) (arr_items (path v [''value'', ''items''])))"

definition history_read :: "'w management_scheme management_world \<Rightarrow> nat \<Rightarrow> jv \<Rightarrow> jv outcome \<Rightarrow> ('w, unit) in_management" where
  "history_read mw generation document r = withS (\<lambda>d. if \<not> currentGeneration generation d then ret ()
     else let v = answer_of r in
       seq (ask (\<lambda>_. history_found document v)) (\<lambda>ok.
         if ok then setM mw (\<lambda>s. s\<lparr>ms_busy := False, ms_backups := Some (arr_items (path v [''value'', ''items''])),
            ms_historyComplete := Some (isS (path v [''value'', ''completeness'']) ''complete''), ms_notice := []\<rparr>)
         else setM mw (\<lambda>s. s\<lparr>ms_busy := False, ms_notice := ''Backup history is unavailable for the exact document.''\<rparr>)))"

definition operation_superseded :: "jv \<Rightarrow> 'w management_scheme \<Rightarrow> bool res" where
  "operation_superseded captured d = (case operation_by_id (fld captured ''operationId'') (d_store d) of
       None \<Rightarrow> Inr True
     | Some current \<Rightarrow> negE (same_plan (fld current ''semantics'') (fld captured ''semantics'')))"

definition operation_older :: "jv \<Rightarrow> jv \<Rightarrow> 'w management_scheme \<Rightarrow> bool" where
  "operation_older captured v d = (case operation_by_id (fld captured ''operationId'') (d_store d) of
       None \<Rightarrow> False
     | Some current \<Rightarrow> let operation = fld v ''operation'' in
         isS (fld operation ''status'') ''observed'' \<and> big (path operation [''value'', ''operationRevision'']) < big (fld current ''operationRevision''))"

definition operation_read :: "'w management_scheme management_world \<Rightarrow> jv \<Rightarrow> jv \<Rightarrow> jv outcome \<Rightarrow> ('w, unit) in_management" where
  "operation_read mw captured epoch r = withS (\<lambda>d. if mg_disposed d \<or> mg_epoch d \<noteq> epoch then ret ()
     else unlessS (operation_superseded captured) (ret ())
       (case r of
          Returned v _ \<Rightarrow>
            if operation_older captured v d then ret ()
            else seq (storeF (managed_facade mw) (observeOperationResult (fw_limits (mw_facade mw)) (fld captured ''operationId'') v)) (\<lambda>_. ret ())
        | _ \<Rightarrow> setM mw (\<lambda>s. s\<lparr>ms_notice := ''The recorded operation could not be refreshed. Its captured state remains retained.''\<rparr>)))"

section \<open>Recovery and disposal\<close>

definition recoverOperation :: "'w management_scheme management_world \<Rightarrow> jv \<Rightarrow> call_args \<Rightarrow> ('w, unit) in_management" where
  "recoverOperation mw operation a = seq (ask (recoveryIntent operation)) (\<lambda>proposed.
     if proposed = None then ret ()
     else unlessS (\<lambda>d. dirty (d_ctx d)) (ret ())
       (seq (prepareRecovery (facade_review (managed_facade mw)) operation
           (Some (U ''management-operation-recovery-'' @ shown (fld operation ''operationId''))) a) (\<lambda>reply. case reply of
          Nothing \<Rightarrow> setM mw (\<lambda>s. s\<lparr>ms_notice := ''The original operation remains retained. Recovery review waits for the shared operation lifecycle.''\<rparr>)
        | _ \<Rightarrow> ret ())))"

definition management_dispose :: "('w, unit) in_management" where
  "management_dispose = withS (\<lambda>d. if mg_disposed d then ret ()
     else next_act (upd (\<lambda>d. d\<lparr>mg_disposed := True, mg_generation := Suc (mg_generation d)\<rparr>)) abort_reads)"

section \<open>Steps\<close>

fun management_goes_on :: "'w management_scheme management_world \<Rightarrow> jv outcome \<Rightarrow> management_wait \<Rightarrow> ('w, unit) in_management" where
  "management_goes_on mw r (Actions_Wait generation captured actions mine token) = actions_read mw generation captured actions mine token r"
| "management_goes_on mw r (Imports_Wait generation ownerScope) = imports_read mw generation ownerScope r"
| "management_goes_on mw r (Game_Wait generation) = game_read mw generation r"
| "management_goes_on mw r (Release_Wait generation target providerId channelId) = release_read mw generation target providerId channelId r"
| "management_goes_on mw r (Package_Wait generation application) = package_read mw generation application r"
| "management_goes_on mw r (History_Wait generation document) = history_read mw generation document r"
| "management_goes_on mw r (Operation_Read captured epoch) = operation_read mw captured epoch r"

definition management_settle :: "'w management_scheme management_world \<Rightarrow> nat \<Rightarrow> ('w, unit) in_management" where
  "management_settle mw k = withS (\<lambda>d. case map_of (mg_waits d) k of
       None \<Rightarrow> ret ()
     | Some (wait, n) \<Rightarrow>
         (case map_of (c_outcomes (d_client d)) n of
            None \<Rightarrow> ret ()
          | Some r \<Rightarrow> next_act (upd (\<lambda>d. d\<lparr>mg_waits := AList.delete k (mg_waits d)\<rparr>)) (management_goes_on mw r wait)))"

text \<open>The constructor: the fields, then what the subscription tells at once.\<close>

definition new_management :: "'w management_scheme management_world \<Rightarrow> management_inputs \<Rightarrow> ('w, unit) in_management" where
  "new_management mw inputs =
     next_act (upd (\<lambda>d. d\<lparr>mg_inputs := inputs, mg_state := empty_management, mg_generation := 0, mg_disposed := False, mg_key := [],
       mg_reads := [], mg_noticeRead := None\<rparr>))
     (seq (ask facade_state) (\<lambda>v. management_hears mw v))"

datatype management_move =
    Inspect_Actions jv "jv list" call_args
  | Propose jv jv ustr call_args
  | Discover_Imports jv call_args
  | Check_Game call_args
  | Check_Runtime jv jv call_args
  | Check_Bridge call_args
  | Read_History jv call_args
  | Refresh_Operation jv call_args
  | Recover_Operation jv call_args
  | Management_Settle nat
  | Management_Dispose
  | Management_Facade facade_move

fun management_step :: "'w management_scheme management_world \<Rightarrow> world \<Rightarrow> management_move \<Rightarrow> 'w management_scheme \<Rightarrow> 'w management_scheme" where
  "management_step mw w (Inspect_Actions scope actions a) d = snd (inspectActions mw scope actions a d)"
| "management_step mw w (Propose i scope focusKey a) d = snd (reviewM mw i scope focusKey a d)"
| "management_step mw w (Discover_Imports ownerScope a) d = snd (discoverImports mw ownerScope a d)"
| "management_step mw w (Check_Game a) d = snd (checkGame mw a d)"
| "management_step mw w (Check_Runtime providerId channelId a) d = snd (checkRuntime mw providerId channelId a d)"
| "management_step mw w (Check_Bridge a) d = snd (checkBridge mw a d)"
| "management_step mw w (Read_History document a) d = snd (historyM mw document a d)"
| "management_step mw w (Refresh_Operation operation a) d = snd (refreshOperation mw operation a d)"
| "management_step mw w (Recover_Operation operation a) d = snd (recoverOperation mw operation a d)"
| "management_step mw w (Management_Settle k) d = snd (management_settle mw k d)"
| "management_step mw w Management_Dispose d = snd (management_dispose d)"
| "management_step mw w (Management_Facade m) d = facade_step (managed_facade mw) w m d"

end
