(* ===== verification/Management_Claims.thy ===== *)
theory Management_Claims imports Management_Reads Facade_Claims begin

text \<open>
  What the management screen promises: it hands the shared review only an intent that is about what is open now, and an
  answer that arrives after the screen has started afresh writes nothing.
\<close>

section \<open>Bindings\<close>

lemma bindingEquivalent_encoded: "wire_fits a \<Longrightarrow> wire_fits b \<Longrightarrow>
    same_binding a b \<longleftrightarrow> encodeData True (omitNone a) = encodeData True (omitNone b)"
  by (simp add: same_binding_def encoded_eq_iff omitNone_fits)

lemma bindingEquivalent_via:
  "bindingEquivalent s a = Inr True \<Longrightarrow> bindingEquivalent s b = Inr True \<Longrightarrow> bindingEquivalent a b = Inr True"
  by (auto simp: bindingEquivalent_True bindingEquivalent_encoded)

section \<open>Proposals\<close>

text \<open>What each intent must name to be about the target, the document, the application or the catalog that the screen shows.\<close>

definition about_what_is_open :: "jv \<Rightarrow> 'w management_scheme \<Rightarrow> bool" where
  "about_what_is_open i d =
     (if kind_in i [''runtime_install'', ''runtime_update'', ''runtime_repair'', ''runtime_adopt'']
        then bindingEquivalent (path i [''input'', ''target'']) (target_of d) = Inr True
      else if kind_in i [''runtime_remove'', ''runtime_stop_managing'']
        then bindingEquivalent (path i [''input'', ''reference'', ''target'']) (target_of d) = Inr True
      else if is_kind i ''runtime_switch_source''
        then bindingEquivalent (path i [''input'', ''current'', ''target'']) (target_of d) = Inr True
      else if is_kind i ''bridge_update''
        then bindingEquivalent (path i [''input'', ''selectedRelease'', ''current'']) (mg_application d) = Inr True
      else if is_kind i ''restore_configuration''
        then bindingEquivalent (path i [''input'', ''document'']) (path (or_undefined (w_draft (d_ctx d))) [''draft'', ''document'']) = Inr True
      else if kind_in i [''create_profile'', ''register_installation'']
        then path i [''input'', ''expectedCatalogRevision''] = mg_catalogRevision d
      else True)"

lemma strict_eq_truthy: "strict_eq x a \<Longrightarrow> strict_eq x b \<Longrightarrow> truthy b \<Longrightarrow> a = b"
  by (cases x; cases b) auto

lemma scope_current:
  assumes "scopeCurrent s d = Inr True"
  shows "is_kind s ''target'' \<Longrightarrow> bindingEquivalent (fld s ''target'') (target_of d) = Inr True"
    and "is_kind s ''application'' \<Longrightarrow> bindingEquivalent (fld s ''application'') (mg_application d) = Inr True"
    and "is_kind s ''document'' \<Longrightarrow>
      bindingEquivalent (fld s ''document'') (path (or_undefined (w_draft (d_ctx d))) [''draft'', ''document'']) = Inr True"
    and "is_kind s ''catalog'' \<Longrightarrow> strict_eq (fld s ''revision'') (mg_catalogRevision d) \<and> truthy (mg_catalogRevision d)"
  using assms by (auto simp: scopeCurrent_def isS_def res_simps split: option.splits)

lemma intent_of_scope:
  assumes current: "scopeCurrent s d = Inr True" and fits: "intentScopeMatches i s d = Inr True"
  shows "about_what_is_open i d"
proof -
  note via = bindingEquivalent_via [OF _ scope_current(1) [OF current]] bindingEquivalent_via [OF _ scope_current(2) [OF current]]
    bindingEquivalent_via [OF _ scope_current(3) [OF current, simplified]]
  have revision: "is_kind s ''catalog'' \<Longrightarrow> strict_eq (fld s ''revision'') x \<Longrightarrow> x = mg_catalogRevision d" for x
    using scope_current(4) [OF current] strict_eq_truthy by blast
  show ?thesis
    using fits unfolding intentScopeMatches_def about_what_is_open_def Let_def same_input_part_def
    by (auto simp: isS_def andE_True intro: via revision split: if_splits)
qed


section \<open>Late answers\<close>

fun generation_of :: "management_wait \<Rightarrow> nat option" where
  "generation_of (Actions_Wait generation _ _ _ _) = Some generation"
| "generation_of (Imports_Wait generation _) = Some generation"
| "generation_of (Game_Wait generation) = Some generation"
| "generation_of (Release_Wait generation _ _ _) = Some generation"
| "generation_of (Package_Wait generation _) = Some generation"
| "generation_of (History_Wait generation _) = Some generation"
| "generation_of (Operation_Read _ _) = None"

lemma stale_answer: "generation_of wait = Some g \<Longrightarrow> g \<noteq> mg_generation d \<Longrightarrow> management_goes_on mw r wait d = (Inr (), d)"
  by (cases wait) (simp_all add: actions_read_def imports_read_def game_read_def release_read_def package_read_def history_read_def
      currentGeneration_def withS_def ret_def)

text \<open>The screen's listeners may do anything but take a generation back.\<close>

definition forward_tell :: "'w management_scheme management_world \<Rightarrow> bool" where
  "forward_tell mw \<longleftrightarrow> (\<forall>s d. mg_generation d \<le> mg_generation (mw_tell mw s d))"

lemma setM_forward: "forward_tell mw \<Longrightarrow> mg_generation d \<le> mg_generation (snd (setM mw f d))"
proof -
  assume "forward_tell mw"
  then have "mg_generation (d\<lparr>mg_state := f (mg_state d)\<rparr>) \<le> mg_generation (mw_tell mw (f (mg_state d)) (d\<lparr>mg_state := f (mg_state d)\<rparr>))"
    unfolding forward_tell_def by blast
  then show ?thesis by (simp add: setM_def seq_def upd_def withS_def ret_def)
qed

lemma invalidate_forward: "forward_tell mw \<Longrightarrow> Suc (mg_generation d) \<le> mg_generation (snd (invalidateM mw d))"
proof -
  assume fw: "forward_tell mw"
  let ?e = "(snd (abort_reads (d\<lparr>mg_generation := Suc (mg_generation d)\<rparr>)))\<lparr>mg_reads := [], mg_noticeRead := None\<rparr>"
  have "mg_generation ?e = Suc (mg_generation d)" by (simp add: abort_reads_def withS_def clientU_def upd_def)
  moreover have "snd (invalidateM mw d) = snd (setM mw (\<lambda>_. empty_management) ?e)"
    by (simp add: invalidateM_def seq_def upd_def abort_reads_def withS_def clientU_def)
  ultimately show ?thesis using setM_forward [OF fw, of ?e] by metis
qed


section \<open>Examples\<close>

definition example_inputs :: management_inputs where
  "example_inputs = \<lparr>mi_hostEpoch = S ''h1'', mi_catalogRevision = S ''c1'', mi_application = JUndef, mi_runtime = JUndef, mi_recognition = JUndef\<rparr>"

definition example_management :: management where
  "example_management = facade.extend example_facade (management.fields example_inputs empty_management 0 False [] [] None 0 [])"

definition example_management_world :: "unit management_scheme management_world" where
  "example_management_world = \<lparr>mw_facade = \<lparr>fw_options = example_options, fw_limits = example_limits, fw_request = (\<lambda>_. True), fw_event = (\<lambda>_. True),
     fw_connected = (\<lambda>_. False), fw_args = (\<lambda>_. example_query), fw_tell = (\<lambda>_ d. d)\<rparr>, mw_tell = (\<lambda>_ d. d)\<rparr>"

definition example_screen :: screen_state where
  "example_screen = \<lparr>sc_work = \<lparr>ws_view = Home, ws_selector = None, ws_binding = None, ws_draft = None, ws_edits = [], ws_inputs = [], ws_dirty = False,
       ws_conflict = False, ws_hostChanged = False, ws_navigation = None, ws_busy = False, ws_closing = False, ws_refresh = False, ws_focus = None\<rparr>,
     sc_observations = \<lparr>v_confidence = Authoritative, v_resnapshotRequired = False, v_reason = None, v_cursor = None, v_snapshot = None,
       v_operations = [], v_drafts = []\<rparr>,
     sc_transition = Screen_Idle, sc_notice = [], sc_review = None\<rparr>"

definition example_key :: jv where
  "example_key = JArr [JNull, JNull, JNull, JNull, S ''authoritative'', JNull, JNull, JNull]"

lemma example_key_fits: "wire_fits example_key"
  by (rule small_fits; simp add: example_key_def small_eval)+

lemma example_screen_key: "management_key example_screen = Inr (encodeData True example_key)"
proof -
  have "management_key example_screen = canonicalData example_key"
    by (simp add: management_key_def example_screen_def example_key_def confidence_text_def Let_def coalesce_def)
  then show ?thesis using canonicalData_fits [OF example_key_fits] by simp
qed

lemma example_key_new: "encodeData True example_key \<noteq> mg_key example_management"
  by (simp add: example_key_def example_management_def facade.defs management.defs)


end
