(* ===== verification/View_Claims.thy ===== *)
theory View_Claims imports Management_View begin

text \<open>
  What the screens print and test: the summary of a plan depends on no protected reference of the plan, and the screens' test of a
  resolved target is the test that the client makes on its replies.
\<close>

section \<open>Protected references\<close>

text \<open>The members that refer to native custody or carry an authority, and the staged edits with their captured values.\<close>

definition protected_names :: "string list" where
  "protected_names = [''nativeTargetRef'', ''nativeBackupRef'', ''installationRef'', ''authority'', ''recognitionAuthority'']"

definition blanked :: "jv \<Rightarrow> jv" where
  "blanked v = JArr (map (\<lambda>_. JNull) (arr_items v))"

fun redacted :: "jv \<Rightarrow> jv" where
  "redacted (JArr vs) = JArr (map redacted vs)"
| "redacted (JObj kvs) = JObj (map (\<lambda>(k, v). (k, if k = U ''edits'' then blanked v else redacted v))
     (filter (\<lambda>(k, _). k \<notin> set (map U protected_names)) kvs))"
| "redacted v = v"

named_theorems redact "what a redaction leaves as it is"

lemma redacted_lookup:
  "k \<notin> set protected_names \<Longrightarrow> k \<noteq> ''edits'' \<Longrightarrow> obj_lookup (map (\<lambda>(k, v). (k, if k = U ''edits'' then blanked v else redacted v))
     (filter (\<lambda>(k, _). k \<notin> set (map U protected_names)) kvs)) (U k) = redacted (obj_lookup kvs (U k))"
  by (induction kvs) (auto split: if_splits)

lemma edits_not_protected: "''edits'' \<notin> set protected_names"
  by (simp add: protected_names_def)

lemma redacted_edits: "arr_items (obj_lookup (map (\<lambda>(k, v). (k, if k = U ''edits'' then blanked v else redacted v))
     (filter (\<lambda>(k, _). k \<notin> set (map U protected_names)) kvs)) (U ''edits'')) = map (\<lambda>_. JNull) (arr_items (obj_lookup kvs (U ''edits'')))"
  using edits_not_protected by (induction kvs) (auto simp: blanked_def split: if_splits)

lemma fld_redacted [redact]: "k \<notin> set protected_names \<Longrightarrow> k \<noteq> ''edits'' \<Longrightarrow> fld (redacted v) k = redacted (fld v k)"
  by (cases v) (simp_all add: redacted_lookup del: set_map)

lemma edits_redacted [redact]: "arr_items (fld (redacted v) ''edits'') = map (\<lambda>_. JNull) (arr_items (fld v ''edits''))"
  by (cases v) (simp_all add: redacted_edits del: set_map)

lemma isS_redacted [redact]: "isS (redacted v) s \<longleftrightarrow> isS v s"
  by (cases v) (simp_all add: isS_def)

lemma redacted_string [redact]: "redacted v = S s \<longleftrightarrow> v = S s"
  by (cases v) simp_all

lemma one_of_redacted [redact]: "one_of (redacted v) ss \<longleftrightarrow> one_of v ss"
  using isS_redacted [of v] by (simp add: one_of_def isS_def)

lemma truthy_redacted [redact]: "truthy (redacted v) \<longleftrightarrow> truthy v"
  by (cases v) simp_all

lemma shown_redacted [redact]: "shown (redacted v) = shown v"
  by (cases v) simp_all

lemma items_redacted [redact]: "arr_items (redacted v) = map redacted (arr_items v)"
  by (cases v) simp_all

lemma copy_redacted [redact]: "copy_for table (redacted v) = copy_for table v"
proof -
  have "map_of (map (\<lambda>(k, t). (S k, U t)) table) (redacted v) = map_of (map (\<lambda>(k, t). (S k, U t)) table) v"
    by (induction table) (cases v; auto)+
  then show ?thesis by (simp add: copy_for_def)
qed

lemma line_redacted [redact]: "shown (path (redacted v) ks) = shown (path v ks)"
  if "set ks \<inter> set protected_names = {}" "''edits'' \<notin> set ks"
  using that by (induction ks arbitrary: v) (auto simp: redact)

lemma path_redacted [redact]: "path (redacted v) ks = redacted (path v ks)"
  if "set ks \<inter> set protected_names = {}" "''edits'' \<notin> set ks"
  using that by (induction ks arbitrary: v) (auto simp: redact)

lemmas summary_defs = installationLines_def targetLines_def line_def protected_names_def

lemma installationLines_redacted [redact]: "installationLines (redacted v) = installationLines v"
  by (simp add: redact summary_defs)

lemma targetLines_redacted [redact]: "targetLines (redacted v) = targetLines v"
  unfolding targetLines_def Let_def by (simp add: redact line_def protected_names_def)

lemma catalog_lines_redacted [redact]: "catalog_lines (redacted c) (redacted i) = catalog_lines c i"
  unfolding catalog_lines_def by (simp add: redact line_def protected_names_def comp_def)

lemma runtime_lines_redacted [redact]: "runtime_lines (redacted c) (redacted i) = runtime_lines c i"
  unfolding runtime_lines_def by (simp add: redact line_def protected_names_def)

lemma update_lines_redacted [redact]: "update_lines (redacted c) (redacted i) = update_lines c i"
  unfolding update_lines_def by (simp add: redact line_def protected_names_def)

lemma session_lines_redacted [redact]: "session_lines (redacted c) = session_lines c"
  unfolding session_lines_def by (simp add: redact line_def protected_names_def)

lemma preference_lines_redacted [redact]: "preference_lines (redacted c) = preference_lines c"
  unfolding preference_lines_def Let_def by (simp add: redact line_def protected_names_def)


section \<open>The screen and the client agree\<close>

text \<open>
  The screens decide that a resolved target is the selected one exactly as the client decides it of its replies: the installation
  and the profile of the selector each match.
\<close>

theorem screens_match_targets_as_the_client:
  assumes "kind_in (fld selector ''profile'') [''ordinary'', ''isolated'']"
  shows "targetMatches selector target \<longleftrightarrow>
    installationMatches (fld selector ''installation'') (fld target ''installation'')
    \<and> profileMatches (fld selector ''profile'') (fld target ''profile'')"
  using assms by (auto simp: targetMatches_def installationMatches_def profileMatches_def Let_def isS_def)

definition example_selector :: jv where
  "example_selector = JObj [(U ''installation'', JObj [(U ''kind'', S ''registered''), (U ''id'', S ''i1''), (U ''revisionAssertion'', S ''r1'')]),
     (U ''profile'', JObj [(U ''kind'', S ''isolated''), (U ''id'', S ''p1'')])]"

definition example_target :: "string \<Rightarrow> jv" where
  "example_target revision = JObj [(U ''installation'', JObj [(U ''kind'', S ''registered''), (U ''registrationId'', S ''i1''), (U ''registrationRevision'', S revision)]),
     (U ''profile'', JObj [(U ''kind'', S ''isolated''), (U ''id'', S ''p1''), (U ''revision'', S ''r9'')])]"

theorem screens_match_targets_as_the_client_witness:
  "targetMatches example_selector (example_target ''r1'') \<and> \<not> targetMatches example_selector (example_target ''r2'')"
proof -
  have "kind_in (fld example_selector ''profile'') [''ordinary'', ''isolated'']" by (simp add: example_selector_def)
  note m = screens_match_targets_as_the_client [OF this]
  show ?thesis unfolding m
    by (simp add: example_selector_def example_target_def installationMatches_def profileMatches_def)
qed

end
