(* ===== verification/Settings_View.thy ===== *)
theory Settings_View imports Home_View begin

text \<open>
  What the configuration screens show of the open draft and of an observed document: fields and staged edits
  (\<^verbatim>\<open>ui/src/views/settings/presentation.ts\<close>), the rows of Data Sync (\<^verbatim>\<open>ui/src/views/sync/presentation.ts\<close>), the progress and the edits that a
  review prints (\<^verbatim>\<open>ui/src/navigation/action-presentation.ts\<close>), and the settings that the local collector is configured with
  (\<^verbatim>\<open>ui/src/views/astrometrics/connection.ts\<close>).

  Upper case of a code unit and the locale's lower case of a text are tables of the platform: the arguments \<open>upper\<close> and
  \<open>lower\<close>. The comparisons of documents can throw, so what depends on them is a sum.
\<close>

section \<open>Labels\<close>

text \<open>The non-empty pieces between separators; a run of separators leaves only empty pieces.\<close>

fun pieces :: "(nat \<Rightarrow> bool) \<Rightarrow> ustr \<Rightarrow> ustr list" where
  "pieces sep [] = [[]]"
| "pieces sep (c # cs) = (if sep c then [] # pieces sep cs
     else case pieces sep cs of [] \<Rightarrow> [[c]] | p # ps \<Rightarrow> (c # p) # ps)"

definition words_of :: "(nat \<Rightarrow> bool) \<Rightarrow> ustr \<Rightarrow> ustr list" where
  "words_of sep s = filter (\<lambda>p. p \<noteq> []) (pieces sep s)"

definition label :: "(nat \<Rightarrow> ustr) \<Rightarrow> ustr \<Rightarrow> ustr" where
  "label upper value = join_with [32] (map (\<lambda>part. upper (hd part) @ tl part) (words_of (\<lambda>c. c \<in> {46, 95, 45}) value))"

definition fieldLabel :: "(nat \<Rightarrow> ustr) \<Rightarrow> jv \<Rightarrow> ustr" where
  "fieldLabel upper field =
     (let named = label upper (join_with [46] (map shown (arr_items (fld field ''path'')))) in
      if named \<noteq> [] then named else label upper (shown (fld field ''fieldId'')))"

definition applyLabel :: "jv \<Rightarrow> ustr" where
  "applyLabel v = copy_for [(''immediate'', ''Applies immediately''), (''next_launch'', ''Applies on the next launch''),
     (''restart_required'', ''Requires a game restart'')] v"

definition violationLabel :: "jv \<Rightarrow> ustr" where
  "violationLabel code =
     (let told = copy_for [(''unknown_field'', ''This field is no longer in the schema.''), (''invalid_type'', ''Choose the required value type.''),
        (''constraint_violation'', ''This value is outside the schema constraints.''), (''private_value_required'', ''Capture a protected private value.''),
        (''secret_reference_required'', ''Capture a protected secret.''), (''unsupported_sync_field'', ''This Data Sync field is unavailable for this mode.''),
        (''stale_schema'', ''The configuration schema changed. Changes are retained.'')] code in
      if told \<noteq> [] then told else U ''The backend could not validate this field.'')"

section \<open>Fields\<close>

text \<open>An edit of a given field; edits of Data Sync have no \<^verbatim>\<open>fieldId\<close>.\<close>

definition edits_field :: "jv \<Rightarrow> jv \<Rightarrow> bool" where
  "edits_field fieldId edit \<longleftrightarrow> own edit ''fieldId'' \<and> strict_eq (fld edit ''fieldId'') fieldId"

definition replaceField :: "jv list \<Rightarrow> jv \<Rightarrow> jv option \<Rightarrow> jv list" where
  "replaceField edits fieldId edit = filter (\<lambda>v. \<not> edits_field fieldId v) edits @ (case edit of Some e \<Rightarrow> [e] | None \<Rightarrow> [])"

definition documentMatches :: "work_state \<Rightarrow> jv option \<Rightarrow> bool res" where
  "documentMatches work document = (case (ws_draft work, document) of
       (Some draft, Some d) \<Rightarrow> andE (bindingEquivalent (path draft [''draft'', ''document'']) (fld d ''binding''))
         (same_data (path draft [''schema'', ''binding'']) (path d [''schema'', ''binding'']))
     | _ \<Rightarrow> Inr False)"

definition draftTargetDrift :: "work_state \<Rightarrow> bool res" where
  "draftTargetDrift work = (case (ws_draft work, ws_binding work) of
       (Some draft, Some target) \<Rightarrow> (let document = path draft [''draft'', ''document''] in
         negE (bindingEquivalent (obj_put document ''target'' target) document))
     | _ \<Rightarrow> Inr False)"

definition draftHostDrift :: "work_state \<Rightarrow> jv \<Rightarrow> bool" where
  "draftHostDrift work observedEpoch = (case ws_draft work of
       Some draft \<Rightarrow> ws_hostChanged work \<or> observedEpoch \<noteq> JUndef \<and> \<not> strict_eq (path draft [''draft'', ''hostEpoch'']) observedEpoch
     | None \<Rightarrow> False)"

definition baselineField :: "work_state \<Rightarrow> jv option \<Rightarrow> jv \<Rightarrow> jv option res" where
  "baselineField work document fieldId = bindE (documentMatches work document) (\<lambda>m. Inr
     (if m then (case filter (\<lambda>v. strict_eq (fld v ''fieldId'') fieldId) (arr_items (fld (or_undefined document) ''fields'')) of
        [row] \<Rightarrow> Some row | _ \<Rightarrow> None)
      else None))"

datatype override = Staged | Saved | Default | Unknown_Override

record field_presentation =
  fp_value :: jv
  fp_override :: override
  fp_state :: string
  fp_protected :: bool
  fp_error :: ustr
  fp_supported :: bool
  fp_numericText :: "ustr option"

text \<open>The value shown: that of the one edit, else the saved one, else the default where nothing is saved.\<close>

definition field_value :: "jv \<Rightarrow> jv option \<Rightarrow> jv option \<Rightarrow> bool \<Rightarrow> jv" where
  "field_value defaults edit saved known =
     (let e = or_undefined edit; s = or_undefined saved in
      if is_kind e ''set_public'' then fld e ''value''
      else if is_kind e ''remove_override'' then defaults
      else if isS (path s [''value'', ''kind'']) ''public'' then path s [''value'', ''value'']
      else if isS (path s [''value'', ''kind'']) ''absent'' then defaults
      else if known \<and> saved = None then defaults else JUndef)"

definition field_override :: "jv option \<Rightarrow> jv option \<Rightarrow> bool \<Rightarrow> override" where
  "field_override edit saved known =
     (if is_kind (or_undefined edit) ''remove_override'' then Default
      else if edit \<noteq> None then Staged
      else if truthy (fld (or_undefined saved) ''overridden'') then Saved
      else if known then Default else Unknown_Override)"

definition field_protected :: "jv option \<Rightarrow> jv option \<Rightarrow> bool" where
  "field_protected edit saved =
     (let e = or_undefined edit; s = or_undefined saved in
      kind_in e [''replace_secret'', ''set_private'']
      \<or> edit = None \<and> (isS (path s [''value'', ''kind'']) ''private''
          \<or> isS (path s [''value'', ''kind'']) ''secret'' \<and> truthy (path s [''value'', ''configured''])))"

definition override_text :: "override \<Rightarrow> string" where
  "override_text s = (case s of Staged \<Rightarrow> ''Override staged'' | Saved \<Rightarrow> ''Saved override''
     | Default \<Rightarrow> ''Using the provider default'' | Unknown_Override \<Rightarrow> ''Saved value is not observed'')"

definition presentField :: "jv \<Rightarrow> work_state \<Rightarrow> jv option \<Rightarrow> jv \<Rightarrow> field_presentation res" where
  "presentField field work document platform =
     (let fieldId = fld field ''fieldId'';
          edits = filter (edits_field fieldId) (ws_edits work);
          edit = (case edits of [e] \<Rightarrow> Some e | _ \<Rightarrow> None);
          defaults = coalesce (fld field ''defaultValue'') JUndef;
          violations = (case ws_draft work of
             Some draft \<Rightarrow> filter (\<lambda>v. strict_eq (fld v ''fieldId'') fieldId) (arr_items (fld draft ''validation'')) | None \<Rightarrow> []);
          platforms = arr_items (fld field ''platforms'') in
      bindE (baselineField work document fieldId) (\<lambda>saved.
      bindE (documentMatches work document) (\<lambda>known.
      let override = field_override edit saved known; v = field_value defaults edit saved known in
      Inr \<lparr>fp_value = (if truthy v then v else JUndef), fp_override = override, fp_state = override_text override,
        fp_protected = field_protected edit saved,
        fp_error = (if length edits > 1 then U ''Conflicting staged edits require reconciliation.''
          else join_with [32] (map (\<lambda>row. violationLabel (fld row ''code'')) violations)),
        fp_supported = (if truthy platform then (\<exists>v \<in> set platforms. strict_eq v platform) else length platforms = 2),
        fp_numericText = map_option p_text (find (\<lambda>row. strict_eq (fld (b_field (p_binding row)) ''fieldId'') fieldId) (ws_inputs work))\<rparr>)))"

definition fieldText :: "jv \<Rightarrow> ustr" where
  "fieldText v = (if truthy v \<and> kind_in v [''integer'', ''number'', ''string'', ''enum''] then shown (fld v ''value'') else [])"

definition categories :: "jv list \<Rightarrow> jv list" where
  "categories rows = fold (\<lambda>field. set_add (fld field ''category'')) rows []"

fun contains_text :: "ustr \<Rightarrow> ustr \<Rightarrow> bool" where
  "contains_text [] term = (term = [])"
| "contains_text (c # cs) term = (take (length term) (c # cs) = term \<or> contains_text cs term)"

definition search_text :: "(nat \<Rightarrow> ustr) \<Rightarrow> jv \<Rightarrow> ustr" where
  "search_text upper field = join_with [32]
     ([fieldLabel upper field, shown (fld field ''fieldId''), shown (fld field ''category'')]
      @ map shown (arr_items (fld field ''searchTerms''))
      @ map (\<lambda>v. join_with [32] (map shown (arr_items v))) (arr_items (fld field ''aliases'')))"

definition filterFields :: "(nat \<Rightarrow> ustr) \<Rightarrow> (ustr \<Rightarrow> ustr) \<Rightarrow> jv list \<Rightarrow> ustr \<Rightarrow> ustr \<Rightarrow> jv list" where
  "filterFields upper lower rows search category =
     (let terms = words_of js_space (js_trim (lower search)) in
      filter (\<lambda>field. (category = [] \<or> strict_eq (fld field ''category'') (JStr category))
        \<and> (\<forall>t \<in> set terms. contains_text (lower (search_text upper field)) t)) rows)"

definition edit_timings :: "jv \<Rightarrow> jv \<Rightarrow> jv list" where
  "edit_timings draft edit =
     (if own edit ''fieldId'' then
        map (\<lambda>field. fld field ''apply'') (filter (\<lambda>field. strict_eq (fld field ''fieldId'') (fld edit ''fieldId'')) (arr_items (path draft [''schema'', ''fields''])))
      else [S ''next_launch''])"

definition stagedApply :: "work_state \<Rightarrow> jv list" where
  "stagedApply work = (case ws_draft work of
       None \<Rightarrow> []
     | Some draft \<Rightarrow> (let timings = concat (map (edit_timings draft) (ws_edits work)) in
         filter (\<lambda>v. v \<in> set timings) [S ''immediate'', S ''next_launch'', S ''restart_required'']))"

section \<open>Data Sync\<close>

record destination_row =
  dr_destination :: jv
  dr_added :: bool
  dr_removed :: bool
  dr_definition :: "jv option"

definition sync_type :: "jv \<Rightarrow> jv \<Rightarrow> jv option" where
  "sync_type draft mode = find (\<lambda>type. strict_eq (fld type ''mode'') mode) (arr_items (path draft [''schema'', ''sync'']))"

abbreviation unresolved :: jv where
  "unresolved \<equiv> JObj [(U ''status'', S ''unavailable''), (U ''reason'', S ''native_unavailable'')]"

text \<open>A destination that a staged edit adds, as the screen shows it.\<close>

definition added_destination :: "jv \<Rightarrow> jv \<Rightarrow> jv" where
  "added_destination draft edit =
     (let d = fld edit ''destination''; definition' = sync_type draft (fld d ''mode'') in
      JObj [(U ''id'', fld d ''id''), (U ''mode'', fld d ''mode''),
        (U ''exposure'', coalesce (fld (or_undefined definition') ''exposure'') (S ''hidden'')), (U ''endpoint'', fld d ''endpoint''),
        (U ''secretConfigured'', JBool True), (U ''desiredProxy'', fld d ''proxy''),
        (U ''feeds'', JArr (map (\<lambda>feed. JObj [(U ''feedId'', fld feed ''feedId''), (U ''desired'', fld feed ''desired''), (U ''resolved'', unresolved)])
           (arr_items (fld d ''feeds'')))),
        (U ''resolvedProxy'', unresolved)])"

definition destination_row_of :: "work_state \<Rightarrow> jv \<Rightarrow> bool \<Rightarrow> jv \<Rightarrow> destination_row" where
  "destination_row_of work draft added destination =
     \<lparr>dr_destination = destination, dr_added = added,
      dr_removed = (\<exists>edit \<in> set (ws_edits work). is_kind edit ''remove_sync_destination'' \<and> strict_eq (fld edit ''destinationId'') (fld destination ''id'')),
      dr_definition = sync_type draft (fld destination ''mode'')\<rparr>"

definition destinationRows :: "work_state \<Rightarrow> jv option \<Rightarrow> destination_row list res" where
  "destinationRows work document = (case ws_draft work of
       None \<Rightarrow> Inr []
     | Some draft \<Rightarrow> bindE (documentMatches work document) (\<lambda>m. Inr
         (map (destination_row_of work draft False) (if m then arr_items (fld (or_undefined document) ''sync'') else [])
          @ map (\<lambda>edit. destination_row_of work draft True (added_destination draft edit))
              (filter (\<lambda>edit. is_kind edit ''add_sync_destination'') (ws_edits work)))))"

text \<open>The last staged change of a feed or of a proxy, or else what the destination has.\<close>

definition desiredFeed :: "work_state \<Rightarrow> destination_row \<Rightarrow> jv \<Rightarrow> jv" where
  "desiredFeed work row feedId =
     (let changes = filter (\<lambda>edit. is_kind edit ''set_sync_feed'' \<and> strict_eq (fld edit ''destinationId'') (fld (dr_destination row) ''id'')
            \<and> strict_eq (fld edit ''feedId'') feedId) (ws_edits work) in
      if changes \<noteq> [] then fld (last changes) ''value''
      else coalesce (fld (or_undefined (find (\<lambda>feed. strict_eq (fld feed ''feedId'') feedId) (arr_items (fld (dr_destination row) ''feeds'')))) ''desired'') (S ''inherit''))"

definition desiredProxy :: "work_state \<Rightarrow> destination_row \<Rightarrow> jv" where
  "desiredProxy work row =
     (let changes = filter (\<lambda>edit. is_kind edit ''set_sync_proxy'' \<and> strict_eq (fld edit ''destinationId'') (fld (dr_destination row) ''id'')) (ws_edits work) in
      if changes \<noteq> [] then fld (last changes) ''value'' else fld (dr_destination row) ''desiredProxy'')"

definition resolvedFeed :: "destination_row \<Rightarrow> jv \<Rightarrow> string" where
  "resolvedFeed row feedId =
     (let observation = fld (or_undefined (find (\<lambda>feed. strict_eq (fld feed ''feedId'') feedId) (arr_items (fld (dr_destination row) ''feeds'')))) ''resolved'' in
      if isS (fld observation ''status'') ''observed'' then (if truthy (fld observation ''value'') then ''Observed enabled'' else ''Observed disabled'')
      else if isS (fld observation ''status'') ''unknown'' then ''Effective state unknown'' else ''Effective state unavailable'')"

definition syncCaptureKey :: "work_state \<Rightarrow> ustr res" where
  "syncCaptureKey work = (let draft = or_undefined (ws_draft work) in
     canonicalData (JArr [coalesce (fld draft ''draft'') JNull, coalesce (fld draft ''schema'') JNull]))"

section \<open>Progress and edits of a review\<close>

datatype progress_confidence = Progress_Current | Progress_Unknown | Progress_Stale

record progress_view =
  pv_label :: ustr
  pv_detail :: ustr
  pv_confidence :: progress_confidence
  pv_range :: "(int \<times> int) option"

definition unmeasured :: "confidence \<Rightarrow> progress_confidence" where
  "unmeasured c = (if c = Stale then Progress_Stale else Progress_Unknown)"

definition progress_detail :: "jv \<Rightarrow> ustr" where
  "progress_detail measured = shown (fld measured ''completed'')
     @ (if nullish (fld measured ''total'') then [] else U '' of '' @ shown (fld measured ''total'')) @ [32]
     @ shown (fld measured ''unit'') @ U '' observed.''"

definition actionProgress :: "jv \<Rightarrow> confidence \<Rightarrow> progress_view res" where
  "actionProgress operation c =
     (let progress = (if one_of (path operation [''state'', ''status'']) [''running'', ''cancellation_requested''] then path operation [''state'', ''progress''] else JUndef);
          measured = fld progress ''measurement''; named = spaced (shown (fld progress ''phase'')) in
      if \<not> truthy progress then Inr \<lparr>pv_label = U ''Operation progress'', pv_detail = U ''Progress has not been observed.'',
          pv_confidence = unmeasured c, pv_range = None\<rparr>
      else if isS (fld measured ''unit'') ''unknown'' then Inr \<lparr>pv_label = named, pv_detail = U ''The backend has not reported a measured total.'',
          pv_confidence = unmeasured c, pv_range = None\<rparr>
      else if c = Stale then Inr \<lparr>pv_label = named, pv_detail = progress_detail measured, pv_confidence = Progress_Stale, pv_range = None\<rparr>
      else bindE (client_counter (fld measured ''completed'')) (\<lambda>completed.
        bindE (if nullish (fld measured ''total'') then Inr None else bindE (client_counter (fld measured ''total'')) (\<lambda>n. Inr (Some n))) (\<lambda>total.
        Inr (case total of
            None \<Rightarrow> \<lparr>pv_label = named, pv_detail = progress_detail measured, pv_confidence = Progress_Unknown, pv_range = None\<rparr>
          | Some t \<Rightarrow> if t < 1 \<or> completed > t \<or> completed > MAX_SAFE \<or> t > MAX_SAFE
              then \<lparr>pv_label = named, pv_detail = progress_detail measured, pv_confidence = Progress_Unknown, pv_range = None\<rparr>
              else \<lparr>pv_label = named, pv_detail = progress_detail measured, pv_confidence = Progress_Current, pv_range = Some (completed, t)\<rparr>))))"

definition editSummary :: "jv \<Rightarrow> ustr" where
  "editSummary edit =
     (let v = fld edit ''value'' in
      if is_kind edit ''set_public'' then
        (if is_kind v ''boolean'' then U (if truthy (fld v ''value'') then ''On'' else ''Off'')
         else if kind_in v [''integer'', ''number''] then U ''Set to '' @ shown (fld v ''value'') else U ''Public value updated'')
      else copy_for [(''remove_override'', ''Override removed''), (''set_private'', ''Private value updated''),
        (''replace_secret'', ''Protected value replaced''), (''clear_secret'', ''Protected value cleared''),
        (''add_sync_destination'', ''Sync destination added''), (''remove_sync_destination'', ''Sync destination removed''),
        (''set_sync_feed'', ''Sync feed preference updated''), (''set_sync_proxy'', ''Sync proxy preference updated'')] (fld edit ''kind''))"

section \<open>The collector's settings\<close>

definition quoted :: "jv \<Rightarrow> ustr" where
  "quoted v = 34 # shown v @ [34]"

definition connectionSettings :: "jv \<Rightarrow> ustr" where
  "connectionSettings v =
     (if \<not> truthy (fld v ''enabled'') \<or> \<not> truthy (fld v ''endpoint'') \<or> \<not> truthy (fld v ''syncToken'') then []
      else join_with [10] [U ''[sync.targets.astrometrics]'', U ''url = '' @ quoted (fld v ''endpoint''),
          U ''token = '' @ quoted (fld v ''syncToken''), U ''proxy = '' @ quoted (JStr []), U ''diagnostics = true'', []]
        @ join_with [10] (map (\<lambda>key. U key @ U '' = false'')
          [''away_assignments'', ''battlelogs'', ''buffs'', ''buildings'', ''haven'', ''inventory'', ''jobs'', ''missions'', ''officers'', ''research'',
           ''resources'', ''ships'', ''slots'', ''tech'', ''traits'']))"

end
