(* ===== verification/Settings.thy ===== *)
theory Settings imports Facade_Saves Settings_View begin

text \<open>
  The controller of the configuration screen, \<^verbatim>\<open>SettingsController\<close> of \<^verbatim>\<open>ui/src/views/settings/controller.ts\<close>: it reads the document
  of the selected target, opens the draft, and proposes edits to the facade, which alone owns them.

  Its state extends that of the facade. It subscribes to the facade's publications; a change of target or of host aborts what it reads
  and begins a new generation. An await leaves an entry with the promise of the method, the local variables and what is
  awaited: a call of the client, a promise of the facade, or a microtask. The controller's listeners are one function, \<open>sw_tell\<close>.
\<close>

section \<open>The state\<close>

record settings_state =
  ss_busy :: bool
  ss_capturing :: ustr
  ss_notice :: ustr
  ss_document :: "jv option"

datatype settings_wait =
    Configuration_Read nat jv
  | Draft_Opening nat jv
  | Capturing nat
  | Refresh_Later nat

datatype settings_source = Of_Client nat | Of_Facade nat | At_Microtask

record settings = facade +
  st_platform :: jv
  st_state :: settings_state
  st_generation :: nat
  st_disposed :: bool
  st_target :: ustr
  st_needs :: bool
  st_fresh :: nat
  st_waits :: "(nat \<times> nat \<times> settings_wait \<times> settings_source) list"
  st_results :: "(nat \<times> bool) list"

type_synonym ('w, 'a) in_settings = "('w settings_scheme, 'a) act"

record 's settings_world =
  sw_facade :: "'s facade_world"
  sw_tell :: "settings_state \<Rightarrow> 's \<Rightarrow> 's"

definition empty_settings :: settings_state where
  "empty_settings = \<lparr>ss_busy = False, ss_capturing = [], ss_notice = [], ss_document = None\<rparr>"

definition st_epoch :: "'w settings_scheme \<Rightarrow> jv" where
  "st_epoch d = cursor_host (d_store d)"

definition work_of :: "'w settings_scheme \<Rightarrow> work_state res" where
  "work_of d = work_view (d_ctx d)"

section \<open>Publishing\<close>

definition setT :: "'w settings_scheme settings_world \<Rightarrow> (settings_state \<Rightarrow> settings_state) \<Rightarrow> ('w, unit) in_settings" where
  "setT sw f = next_act (upd (\<lambda>d. d\<lparr>st_state := f (st_state d)\<rparr>))
     (withS (\<lambda>d. if st_disposed d then ret () else upd (sw_tell sw (st_state d))))"

definition noticeT :: "'w settings_scheme settings_world \<Rightarrow> ustr \<Rightarrow> ('w, unit) in_settings" where
  "noticeT sw message = next_act (setT sw (\<lambda>s. s\<lparr>ss_notice := message\<rparr>))
     (upd (\<lambda>d. d\<lparr>rv_announcer := announce message False (rv_announcer d)\<rparr>))"

definition resolves :: "nat \<Rightarrow> bool \<Rightarrow> ('w, unit) in_settings" where
  "resolves p b = upd (\<lambda>d. d\<lparr>st_results := st_results d @ [(p, b)]\<rparr>)"

text \<open>Publish, announce, and resolve the promise of a method.\<close>

definition ends_with :: "'w settings_scheme settings_world \<Rightarrow> (settings_state \<Rightarrow> settings_state) \<Rightarrow> string \<Rightarrow> nat \<Rightarrow> bool \<Rightarrow> ('w, unit) in_settings" where
  "ends_with sw f message p b = next_act (setT sw f) (next_act (noticeT sw (U message)) (resolves p b))"

definition waitT :: "nat \<Rightarrow> settings_wait \<Rightarrow> settings_source \<Rightarrow> ('w, unit) in_settings" where
  "waitT p wait src = upd (\<lambda>d. d\<lparr>st_fresh := Suc (st_fresh d), st_waits := st_waits d @ [(st_fresh d, p, wait, src)]\<rparr>)"

text \<open>The abort of what is read: calls of the client, and the calls behind promises of the facade.\<close>

definition calls_behind :: "nat \<Rightarrow> (nat \<times> nat \<times> facade_wait \<times> facade_source) list \<Rightarrow> nat list" where
  "calls_behind p ws = concat (map (\<lambda>(_, q, _, src). case src of Of_Call n \<Rightarrow> if q = p then [n] else [] | _ \<Rightarrow> []) ws)"

definition abort_settings :: "('w, unit) in_settings" where
  "abort_settings = withS (\<lambda>d. clientU (fold abandon_unsettled (concat (map (\<lambda>(_, _, _, src). case src of
       Of_Client n \<Rightarrow> [n] | Of_Facade p \<Rightarrow> calls_behind p (fa_waits d) | At_Microtask \<Rightarrow> []) (st_waits d)))))"

section \<open>What the facade tells\<close>

abbreviation drift_notice :: string where
  "drift_notice \<equiv> ''The Bridge host changed. Your draft and changes are retained. Reconcile the current connection before editing or Save.''"

definition settings_target :: "screen_state \<Rightarrow> ustr res" where
  "settings_target v = canonicalData (JArr [or_null (ws_selector (sc_work v)), coalesce (fld (or_undefined (v_cursor (sc_observations v))) ''hostEpoch'') JNull])"

definition target_changed :: "'w settings_scheme settings_world \<Rightarrow> screen_state \<Rightarrow> ustr \<Rightarrow> ('w, unit) in_settings" where
  "target_changed sw v target =
     next_act (upd (\<lambda>d. d\<lparr>st_target := target, st_needs := False, st_generation := Suc (st_generation d)\<rparr>))
     (next_act abort_settings
       (setT sw (\<lambda>_. empty_settings\<lparr>ss_notice := (if draftHostDrift (sc_work v) (fld (or_undefined (v_cursor (sc_observations v))) ''hostEpoch'')
          then U drift_notice else [])\<rparr>)))"

definition document_changed :: "'w settings_scheme settings_world \<Rightarrow> screen_state \<Rightarrow> ('w, unit) in_settings" where
  "document_changed sw v = withS (\<lambda>d. if ss_document (st_state d) = None then ret ()
     else seq (ask (\<lambda>d. documentMatches (sc_work v) (ss_document (st_state d)))) (\<lambda>m.
       if m then ret ()
       else next_act (upd (\<lambda>d. d\<lparr>st_needs := True\<rparr>)) (setT sw (\<lambda>s. s\<lparr>ss_document := None\<rparr>))))"

definition observes_again :: "screen_state \<Rightarrow> 'w settings_scheme \<Rightarrow> bool" where
  "observes_again v d \<longleftrightarrow> st_needs d \<and> ws_draft (sc_work v) \<noteq> None \<and> \<not> ws_dirty (sc_work v) \<and> \<not> ws_conflict (sc_work v)
     \<and> sc_transition v = Screen_Idle \<and> \<not> ws_busy (sc_work v) \<and> \<not> ss_busy (st_state d)"

definition settings_hears :: "'w settings_scheme settings_world \<Rightarrow> screen_state \<Rightarrow> ('w, unit) in_settings" where
  "settings_hears sw v = withS (\<lambda>d. if st_disposed d then ret ()
     else seq (ask (\<lambda>_. settings_target v)) (\<lambda>target.
       next_act (if target \<noteq> st_target d then target_changed sw v target else document_changed sw v)
         (withS (\<lambda>d. if \<not> observes_again v d then ret ()
            else next_act (upd (\<lambda>d. d\<lparr>st_needs := False\<rparr>)) (waitT 0 (Refresh_Later (st_generation d)) At_Microtask)))))"

definition settings_facade :: "'w settings_scheme settings_world \<Rightarrow> 'w settings_scheme facade_world" where
  "settings_facade sw = (sw_facade sw)\<lparr>fw_tell := \<lambda>v d. snd (settings_hears sw v (fw_tell (sw_facade sw) v d))\<rparr>"

definition settings_blocked :: "'w settings_scheme \<Rightarrow> bool res" where
  "settings_blocked d = bindE (work_of d) (\<lambda>work.
     orE (Inr (st_disposed d \<or> ws_busy work \<or> ws_refresh work \<or> ws_conflict work)) (orE (draftTargetDrift work)
       (Inr (draftHostDrift work (st_epoch d) \<or> isS (fld (or_undefined (ws_draft work)) ''state'') ''stale'' \<or> fa_transition d \<noteq> Screen_Idle
          \<or> review_blocks d \<or> ss_capturing (st_state d) \<noteq> []))))"

section \<open>Refreshing the document\<close>

definition settings_refresh :: "'w settings_scheme settings_world \<Rightarrow> nat \<Rightarrow> call_args \<Rightarrow> ('w, unit) in_settings" where
  "settings_refresh sw p a = withS (\<lambda>d. case w_selector (d_ctx d) of
       None \<Rightarrow> resolves p False
     | Some selector \<Rightarrow>
         if st_disposed d \<or> ss_busy (st_state d) \<or> w_busy (d_ctx d) then resolves p False
         else let generation = st_generation d in
           next_act (setT sw (\<lambda>s. s\<lparr>ss_busy := True, ss_notice := []\<rparr>))
           (withS (\<lambda>d. seq (callS (fw_options (sw_facade sw)) (fw_request (sw_facade sw)) Query ''read_configuration'' (JObj [(U ''target'', selector)])
                (a\<lparr>a_aborted := (generation \<noteq> st_generation d)\<rparr>))
              (\<lambda>n. waitT p (Configuration_Read generation selector) (Of_Client n)))))"

definition stale_settings :: "nat \<Rightarrow> 'w settings_scheme \<Rightarrow> bool" where
  "stale_settings generation d \<longleftrightarrow> st_disposed d \<or> generation \<noteq> st_generation d"

text \<open>The document that the answer observes, and why it is not taken.\<close>

definition observed_document :: "jv outcome \<Rightarrow> jv option" where
  "observed_document r = (case r of
       Returned v _ \<Rightarrow> if isS (fld v ''status'') ''observed'' then Some (fld v ''value'') else None
     | _ \<Rightarrow> None)"

definition document_conflicts :: "jv \<Rightarrow> jv \<Rightarrow> bool res" where
  "document_conflicts selector document = orE (Inr (\<not> targetMatches selector (path document [''binding'', ''target''])))
     (negE (same_data (path document [''schema'', ''binding'']) (path document [''binding'', ''schema''])))"

definition open_document :: "'w settings_scheme settings_world \<Rightarrow> nat \<Rightarrow> nat \<Rightarrow> jv \<Rightarrow> call_args \<Rightarrow> ('w, unit) in_settings" where
  "open_document sw p generation document a = withS (\<lambda>d.
     next_act (numbered (\<lambda>q. facade_openDraft (settings_facade sw) q (fld document ''binding'') (a\<lparr>a_aborted := (generation \<noteq> st_generation d)\<rparr>)))
       (waitT p (Draft_Opening generation document) (Of_Facade (fa_fresh d))))"

definition document_observed :: "'w settings_scheme settings_world \<Rightarrow> nat \<Rightarrow> nat \<Rightarrow> jv \<Rightarrow> call_args \<Rightarrow> ('w, unit) in_settings" where
  "document_observed sw p generation document a = seq (ask work_of) (\<lambda>work. withS (\<lambda>d.
     let drift = draftHostDrift work (st_epoch d) in
     if drift \<and> ws_dirty work
     then ends_with sw (\<lambda>s. s\<lparr>ss_busy := False, ss_document := None\<rparr>) drift_notice p False
     else seq (ask (\<lambda>_. documentMatches work (Some document))) (\<lambda>m.
       if m \<and> \<not> drift
       then ends_with sw (\<lambda>s. s\<lparr>ss_busy := False, ss_document := Some document\<rparr>) ''Configuration observed. Your existing draft and staged changes are retained.'' p True
       else next_act (if ws_dirty work then ret () else ctxF (settings_facade sw) (bindTarget (path document [''binding'', ''target''])))
         (open_document sw p generation document a))))"

definition settings_configuration :: "'w settings_scheme settings_world \<Rightarrow> nat \<Rightarrow> nat \<Rightarrow> jv \<Rightarrow> jv outcome \<Rightarrow> call_args \<Rightarrow> ('w, unit) in_settings" where
  "settings_configuration sw p generation selector r a = withS (\<lambda>d. if stale_settings generation d then resolves p False
     else case observed_document r of
       None \<Rightarrow> ends_with sw (\<lambda>s. s\<lparr>ss_busy := False\<rparr>) ''Configuration observation is unavailable. Changes are retained.'' p False
     | Some document \<Rightarrow> unlessS (\<lambda>_. document_conflicts selector document)
         (ends_with sw (\<lambda>s. s\<lparr>ss_busy := False\<rparr>) ''Target or schema observation conflicts with this document. Changes are retained.'' p False)
         (document_observed sw p generation document a))"

definition opened_matches :: "jv outcome \<Rightarrow> jv \<Rightarrow> 'w settings_scheme \<Rightarrow> bool res" where
  "opened_matches opened document d = (case opened of
       Returned _ _ \<Rightarrow> bindE (work_of d) (\<lambda>work. andE (documentMatches work (Some document)) (Inr (\<not> draftHostDrift work (st_epoch d))))
     | _ \<Rightarrow> Inr False)"

definition opened_notice :: "bool \<Rightarrow> jv \<Rightarrow> string" where
  "opened_notice m document =
     (if \<not> m then ''An external document or schema change needs reconciliation. Changes are retained.''
      else if isS (fld document ''preservation'') ''supported'' then ''Configuration observed. Edits remain staged until Save.''
      else ''This document cannot be preserved safely. Save is unavailable.'')"

definition settings_opened :: "'w settings_scheme settings_world \<Rightarrow> nat \<Rightarrow> nat \<Rightarrow> jv \<Rightarrow> jv outcome \<Rightarrow> ('w, unit) in_settings" where
  "settings_opened sw p generation document opened = withS (\<lambda>d. if stale_settings generation d then resolves p False
     else seq (ask (opened_matches opened document)) (\<lambda>m.
       ends_with sw (\<lambda>s. s\<lparr>ss_busy := False, ss_document := (if m then Some document else None)\<rparr>) (opened_notice m document) p m))"

end
