(* ===== verification/Settings_Edits.thy ===== *)
theory Settings_Edits imports Settings begin

text \<open>
  The edits that the configuration screens propose: single fields (\<^verbatim>\<open>ui/src/views/settings/controller.ts\<close>) and the participants of
  Data Sync (\<^verbatim>\<open>SyncController\<close> of \<^verbatim>\<open>ui/src/views/sync/controller.ts\<close>). Each proposal is the complete set of edits, checked against the
  contract as the request that would carry it, and staged by the facade. Then the protected entry, the disposal
  and the steps of the controller together with those of the facade.
\<close>

section \<open>Staging\<close>

definition settings_field :: "jv \<Rightarrow> 'w settings_scheme \<Rightarrow> jv option res" where
  "settings_field fieldId d = (case w_draft (d_ctx d) of
       None \<Rightarrow> Inr None
     | Some draft \<Rightarrow> bindE (same_data (path draft [''schema'', ''binding'']) (path draft [''draft'', ''document'', ''schema''])) (\<lambda>m. Inr
         (if \<not> m then None
          else case filter (\<lambda>f. strict_eq (fld f ''fieldId'') fieldId) (arr_items (path draft [''schema'', ''fields''])) of
            [f] \<Rightarrow> (let platforms = arr_items (fld f ''platforms'') in
               if (if truthy (st_platform d) then (\<exists>v \<in> set platforms. strict_eq v (st_platform d)) else length platforms = 2) then Some f else None)
          | _ \<Rightarrow> None)))"

definition stageAll :: "'w settings_scheme settings_world \<Rightarrow> jv list \<Rightarrow> ('w, bool) in_settings" where
  "stageAll sw edits = unlessS settings_blocked (ret False) (withS (\<lambda>d. case w_draft (d_ctx d) of
       None \<Rightarrow> ret False
     | Some draft \<Rightarrow>
         (case decode (fw_request (sw_facade sw)) (TextInput (encodeData False (stagedRequest (fld draft ''draft'') (JArr edits)))) of
            Inl _ \<Rightarrow> next_act (noticeT sw (U ''This change does not match the configuration contract. Existing edits are retained.'')) (ret False)
          | Inr _ \<Rightarrow> facade_stage (settings_facade sw) edits)))"

section \<open>Fields\<close>

definition field_edit :: "string \<Rightarrow> jv \<Rightarrow> (string \<times> jv) list \<Rightarrow> jv" where
  "field_edit kind fieldId members = JObj ([(U ''kind'', S kind), (U ''fieldId'', fieldId)] @ map (\<lambda>(k, v). (U k, v)) members)"

text \<open>\<^verbatim>\<open>BigInt\<close> of a number or of a string.\<close>

definition big_of :: "jv \<Rightarrow> int res" where
  "big_of v = (case v of JInt n \<Rightarrow> Inr n | _ \<Rightarrow> big_int (shown v))"

definition kind_refused :: "jv \<Rightarrow> jv \<Rightarrow> bool" where
  "kind_refused field v \<longleftrightarrow> \<not> isS (fld field ''sensitivity'') ''public'' \<or> \<not> strict_eq (path field [''valueType'', ''kind'']) (fld v ''kind'')
     \<or> kind_in v [''integer'', ''number'']"

definition text_too_long :: "jv \<Rightarrow> jv \<Rightarrow> bool res" where
  "text_too_long field v = (let vtype = fld field ''valueType'' in
     if \<not> is_kind vtype ''string'' \<or> \<not> is_kind v ''string'' then Inr False
     else bindE (big_of (fld vtype ''maximumLength'')) (\<lambda>m. Inr (int (length (code_points (shown (fld v ''value'')))) > m)))"

definition listed_in :: "jv \<Rightarrow> jv \<Rightarrow> bool" where
  "listed_in rows v \<longleftrightarrow> (\<exists>x \<in> set (arr_items rows). strict_eq x v)"

definition choice_refused :: "jv \<Rightarrow> jv \<Rightarrow> bool" where
  "choice_refused field v =
     (let vtype = fld field ''valueType''; given_value = fld v ''value''; both = (\<lambda>k. is_kind vtype k \<and> is_kind v k) in
      both ''enum'' \<and> \<not> listed_in (fld vtype ''values'') given_value
      \<or> both ''keybinding'' \<and> (length (arr_items given_value) > (if truthy (fld vtype ''multiple'') then 8 else 1)
          \<or> (\<exists>chord \<in> set (arr_items given_value). \<not> listed_in (fld vtype ''keys'') (fld chord ''key'')))
      \<or> both ''notification_policy'' \<and> is_kind given_value ''channels'' \<and> \<not> listed_in (fld vtype ''sounds'') (fld given_value ''sound''))"

definition length_notice :: "jv \<Rightarrow> ustr" where
  "length_notice field = U ''This setting allows up to '' @ shown (path field [''valueType'', ''maximumLength''])
     @ U '' characters. The previous value is retained.''"

definition setPublic :: "'w settings_scheme settings_world \<Rightarrow> jv \<Rightarrow> jv \<Rightarrow> ('w, bool) in_settings" where
  "setPublic sw fieldId v = unlessS settings_blocked (ret False) (seq (ask (settings_field fieldId)) (\<lambda>found. case found of
       None \<Rightarrow> ret False
     | Some field \<Rightarrow>
         if kind_refused field v then ret False
         else unlessS (\<lambda>_. text_too_long field v) (next_act (noticeT sw (length_notice field)) (ret False))
           (if choice_refused field v then ret False
            else withS (\<lambda>d. seq (stageAll sw (replaceField (w_edits (d_ctx d)) fieldId (Some (field_edit ''set_public'' fieldId [(''value'', v)])))) (\<lambda>staged.
              next_act (if staged then noticeT sw (U ''Change staged. Save reviews the complete set of changes.'') else ret ()) (ret staged))))))"

definition numeric_value :: "jv \<Rightarrow> ustr \<Rightarrow> jv" where
  "numeric_value kind text = JObj [(U ''kind'', kind), (U ''value'', JStr text)]"

definition setNumeric :: "'w settings_scheme settings_world \<Rightarrow> jv \<Rightarrow> ustr \<Rightarrow> ('w, bool) in_settings" where
  "setNumeric sw fieldId text = unlessS settings_blocked (ret False)
     (seq (facade_capturePublicInput (settings_facade sw) fieldId) (\<lambda>first. case first of
        None \<Rightarrow> ret False
      | Some binding \<Rightarrow> seq (facade_setPublicInput (settings_facade sw) binding text) (\<lambda>kept.
          if \<not> kept then ret False
          else seq (facade_capturePublicInput (settings_facade sw) fieldId) (\<lambda>second. case second of
            None \<Rightarrow> ret False
          | Some after \<Rightarrow>
              let kind = path (b_field after) [''valueType'', ''kind''] in
              if \<not> one_of kind [''integer'', ''number''] then ret False
              else withS (\<lambda>d. seq (facade_stagePublicInput (settings_facade sw) after text
                    (replaceField (w_edits (d_ctx d)) fieldId (Some (field_edit ''set_public'' fieldId [(''value'', numeric_value kind text)])))) (\<lambda>staged.
                next_act (noticeT sw (U (if staged then ''Numeric change staged.''
                    else ''Finish this numeric value or reset it. Save and target changes retain the unfinished input.''))) (ret staged)))))))"

definition resetNumeric :: "'w settings_scheme settings_world \<Rightarrow> jv \<Rightarrow> ('w, bool) in_settings" where
  "resetNumeric sw fieldId = unlessS settings_blocked (ret False) (withS (\<lambda>d.
     let buffer = find (\<lambda>row. strict_eq (fld (b_field (p_binding row)) ''fieldId'') fieldId) (w_inputs (d_ctx d)) in
     seq (facade_capturePublicInput (settings_facade sw) fieldId) (\<lambda>binding. case (buffer, binding) of
       (Some row, Some b) \<Rightarrow> facade_resetPublicInput (settings_facade sw) b (p_text row)
     | _ \<Rightarrow> ret False)))"

definition removeOverride :: "'w settings_scheme settings_world \<Rightarrow> jv \<Rightarrow> ('w, bool) in_settings" where
  "removeOverride sw fieldId = seq (ask (settings_field fieldId)) (\<lambda>field.
     if field = None then ret False
     else withS (\<lambda>d. stageAll sw (replaceField (w_edits (d_ctx d)) fieldId (Some (field_edit ''remove_override'' fieldId [])))))"

definition clearSecret :: "'w settings_scheme settings_world \<Rightarrow> jv \<Rightarrow> ('w, bool) in_settings" where
  "clearSecret sw fieldId = seq (ask (settings_field fieldId)) (\<lambda>field.
     if \<not> isS (fld (or_undefined field) ''sensitivity'') ''secret'' then ret False
     else withS (\<lambda>d. stageAll sw (replaceField (w_edits (d_ctx d)) fieldId (Some (field_edit ''clear_secret'' fieldId [])))))"

definition undoField :: "'w settings_scheme settings_world \<Rightarrow> jv \<Rightarrow> ('w, bool) in_settings" where
  "undoField sw fieldId = withS (\<lambda>d. stageAll sw (replaceField (w_edits (d_ctx d)) fieldId None))"

section \<open>Protected entry\<close>

definition captureProtectedT :: "'w settings_scheme settings_world \<Rightarrow> nat \<Rightarrow> jv \<Rightarrow> call_args \<Rightarrow> ('w, unit) in_settings" where
  "captureProtectedT sw p fieldId a = seq (ask (settings_field fieldId)) (\<lambda>found. withS (\<lambda>d. let generation = st_generation d in
     unlessS settings_blocked (resolves p False)
     (case found of
        None \<Rightarrow> resolves p False
      | Some field \<Rightarrow>
          if isS (fld field ''sensitivity'') ''public'' then resolves p False
          else next_act (setT sw (\<lambda>s. s\<lparr>ss_capturing := shown fieldId, ss_notice := []\<rparr>))
            (withS (\<lambda>d. next_act (numbered (\<lambda>q. captureProtected (settings_facade sw) q fieldId (a\<lparr>a_aborted := st_disposed d\<rparr>)))
              (waitT p (Capturing generation) (Of_Facade (fa_fresh d))))))))"

definition settings_captured :: "'w settings_scheme settings_world \<Rightarrow> nat \<Rightarrow> nat \<Rightarrow> bool \<Rightarrow> ('w, unit) in_settings" where
  "settings_captured sw p generation staged = withS (\<lambda>d. if stale_settings generation d then resolves p False
     else ends_with sw (\<lambda>s. s\<lparr>ss_capturing := []\<rparr>) (if staged then ''Protected replacement staged. Values stay hidden here.''
       else ''Protected replacement was not staged. Existing edits are retained.'') p staged)"

section \<open>Data Sync\<close>

definition sync_row :: "jv \<Rightarrow> 'w settings_scheme \<Rightarrow> destination_row option res" where
  "sync_row i d = bindE (work_of d) (\<lambda>work. bindE (destinationRows work (ss_document (st_state d))) (\<lambda>rows. Inr
     (case filter (\<lambda>row. strict_eq (fld (dr_destination row) ''id'') i) rows of [row] \<Rightarrow> Some row | _ \<Rightarrow> None)))"

definition replaceScoped :: "'w settings_scheme settings_world \<Rightarrow> (jv \<Rightarrow> bool res) \<Rightarrow> jv option \<Rightarrow> ('w, bool) in_settings" where
  "replaceScoped sw test edit = withS (\<lambda>d.
     seq (ask (\<lambda>_. foldE (\<lambda>kept e. bindE (test e) (\<lambda>b. Inr (if b then kept else kept @ [e]))) [] (w_edits (d_ctx d)))) (\<lambda>kept.
       stageAll sw (kept @ (case edit of Some e \<Rightarrow> [e] | None \<Rightarrow> []))))"

text \<open>A row that can be changed: one, defined, not removed and not hidden.\<close>

definition changeable :: "destination_row option \<Rightarrow> jv option" where
  "changeable found = (case found of
       Some row \<Rightarrow> (case dr_definition row of
           Some df \<Rightarrow> if dr_removed row \<or> isS (fld df ''exposure'') ''hidden'' then None else Some df
         | None \<Rightarrow> None)
     | None \<Rightarrow> None)"

definition sync_edit :: "string \<Rightarrow> jv \<Rightarrow> (string \<times> jv) list \<Rightarrow> jv" where
  "sync_edit kind i members = JObj ([(U ''kind'', S kind), (U ''destinationId'', i)] @ map (\<lambda>(k, v). (U k, v)) members)"

definition setFeed :: "'w settings_scheme settings_world \<Rightarrow> jv \<Rightarrow> jv \<Rightarrow> jv \<Rightarrow> ('w, bool) in_settings" where
  "setFeed sw i feedId v = seq (ask (sync_row i)) (\<lambda>found. case changeable found of
       None \<Rightarrow> ret False
     | Some df \<Rightarrow>
         if \<not> listed_in (fld df ''feeds'') feedId \<or> \<not> one_of v [''inherit'', ''on'', ''off''] then ret False
         else replaceScoped sw (\<lambda>e. Inr (is_kind e ''set_sync_feed'' \<and> strict_eq (fld e ''destinationId'') i \<and> strict_eq (fld e ''feedId'') feedId))
           (Some (sync_edit ''set_sync_feed'' i [(''feedId'', feedId), (''value'', v)])))"

text \<open>A custom proxy must have been captured for this field and this draft.\<close>

definition proxy_refused :: "jv \<Rightarrow> jv \<Rightarrow> 'w settings_scheme \<Rightarrow> bool res" where
  "proxy_refused df v d =
     (if is_kind v ''global'' \<and> \<not> truthy (fld df ''inheritsGlobalProxy'') then Inr True
      else if \<not> is_kind v ''custom'' then Inr False
      else let fieldId = fld df ''proxyFieldId''; reference = fld v ''reference'' in
        if \<not> truthy fieldId \<or> \<not> strict_eq (fld reference ''fieldId'') fieldId then Inr True
        else case w_draft (d_ctx d) of
          None \<Rightarrow> Inr True
        | Some draft \<Rightarrow> negE (same_data (fld reference ''capturedFor'') (fld draft ''draft'')))"

definition proxy_scope :: "jv \<Rightarrow> jv \<Rightarrow> jv \<Rightarrow> jv \<Rightarrow> bool res" where
  "proxy_scope df i v e =
     orE (Inr (is_kind e ''set_sync_proxy'' \<and> strict_eq (fld e ''destinationId'') i))
       (andE (Inr (is_kind v ''custom'' \<and> is_kind e ''set_private'' \<and> strict_eq (fld e ''fieldId'') (fld df ''proxyFieldId'')))
         (same_data (fld e ''reference'') (fld v ''reference'')))"

definition setProxy :: "'w settings_scheme settings_world \<Rightarrow> jv \<Rightarrow> jv \<Rightarrow> ('w, bool) in_settings" where
  "setProxy sw i v = seq (ask (sync_row i)) (\<lambda>found. case changeable found of
       None \<Rightarrow> ret False
     | Some df \<Rightarrow> unlessS (proxy_refused df v) (ret False)
         (replaceScoped sw (proxy_scope df i v) (Some (sync_edit ''set_sync_proxy'' i [(''value'', v)]))))"

definition sync_remove :: "'w settings_scheme settings_world \<Rightarrow> jv \<Rightarrow> ('w, bool) in_settings" where
  "sync_remove sw i = seq (ask (sync_row i)) (\<lambda>found. case found of
       None \<Rightarrow> ret False
     | Some row \<Rightarrow>
         if dr_removed row \<or> isS (fld (or_undefined (dr_definition row)) ''exposure'') ''hidden'' then ret False
         else replaceScoped sw (\<lambda>e. Inr (if is_kind e ''add_sync_destination'' then strict_eq (path e [''destination'', ''id'']) i
              else own e ''destinationId'' \<and> strict_eq (fld e ''destinationId'') i))
           (if dr_added row then None else Some (sync_edit ''remove_sync_destination'' i [])))"

definition undoRemoval :: "'w settings_scheme settings_world \<Rightarrow> jv \<Rightarrow> ('w, bool) in_settings" where
  "undoRemoval sw i = replaceScoped sw (\<lambda>e. Inr (is_kind e ''remove_sync_destination'' \<and> strict_eq (fld e ''destinationId'') i)) None"

text \<open>The one captured value of a field among the staged edits, if it was captured for this draft.\<close>

definition captured_edit :: "string \<Rightarrow> jv \<Rightarrow> string \<Rightarrow> jv \<Rightarrow> jv list \<Rightarrow> jv option res" where
  "captured_edit kind fieldId owner draft edits =
     (case filter (\<lambda>e. is_kind e kind \<and> strict_eq (fld e ''fieldId'') fieldId) edits of
        [e] \<Rightarrow> bindE (same_data (path e [''reference'', owner]) (fld draft ''draft'')) (\<lambda>m. Inr (if m then Some (fld e ''reference'') else None))
      | _ \<Rightarrow> Inr None)"

definition added_sync :: "jv \<Rightarrow> jv \<Rightarrow> jv \<Rightarrow> jv \<Rightarrow> jv \<Rightarrow> jv" where
  "added_sync i mode df endpoint secret = JObj [(U ''kind'', S ''add_sync_destination''), (U ''destination'',
     JObj [(U ''id'', i), (U ''mode'', mode), (U ''endpoint'', endpoint), (U ''secret'', secret),
       (U ''feeds'', JArr (map (\<lambda>f. JObj [(U ''feedId'', f), (U ''desired'', S ''inherit'')]) (arr_items (fld df ''feeds'')))),
       (U ''proxy'', JObj [(U ''kind'', S (if truthy (fld df ''inheritsGlobalProxy'') then ''global'' else ''none''))])])]"

text \<open>The fresh identity \<open>i\<close> comes from the platform.\<close>

definition sync_create :: "'w settings_scheme settings_world \<Rightarrow> jv \<Rightarrow> jv \<Rightarrow> ('w, bool) in_settings" where
  "sync_create sw i mode = seq (ask work_of) (\<lambda>work. case ws_draft work of
       None \<Rightarrow> ret False
     | Some draft \<Rightarrow>
         (case filter (\<lambda>t. strict_eq (fld t ''mode'') mode) (arr_items (path draft [''schema'', ''sync''])) of
            [df] \<Rightarrow>
              if \<not> isS (fld df ''exposure'') ''creatable'' then ret False
              else seq (ask (\<lambda>_. captured_edit ''set_private'' (fld df ''endpointFieldId'') ''capturedFor'' draft (ws_edits work))) (\<lambda>endpoint.
                   seq (ask (\<lambda>_. captured_edit ''replace_secret'' (fld df ''secretFieldId'') ''draft'' draft (ws_edits work))) (\<lambda>secret.
                   case (endpoint, secret) of
                     (Some e, Some s) \<Rightarrow> seq (ask (\<lambda>d. destinationRows work (ss_document (st_state d)))) (\<lambda>rows.
                        if (\<exists>row \<in> set rows. strict_eq (fld (dr_destination row) ''id'') i) then ret False
                        else stageAll sw (filter (\<lambda>x. \<not> own x ''fieldId'' \<or> \<not> (strict_eq (fld x ''fieldId'') (fld df ''endpointFieldId'')
                                \<or> strict_eq (fld x ''fieldId'') (fld df ''secretFieldId''))) (ws_edits work)
                             @ [added_sync i mode df e s]))
                   | _ \<Rightarrow> ret False))
          | _ \<Rightarrow> ret False))"

definition capturedProxy :: "jv \<Rightarrow> 'w settings_scheme \<Rightarrow> jv option res" where
  "capturedProxy mode d = (case w_draft (d_ctx d) of
       None \<Rightarrow> Inr None
     | Some draft \<Rightarrow>
         (let proxyField = fld (or_undefined (sync_type draft mode)) ''proxyFieldId'' in
          case find (\<lambda>e. is_kind e ''set_private'' \<and> strict_eq (fld e ''fieldId'') proxyField) (w_edits (d_ctx d)) of
            None \<Rightarrow> Inr None
          | Some e \<Rightarrow> bindE (same_data (path e [''reference'', ''capturedFor'']) (fld draft ''draft'')) (\<lambda>m. Inr
              (if m then Some (JObj [(U ''kind'', S ''custom''), (U ''reference'', fld e ''reference'')]) else None))))"

section \<open>Steps\<close>

definition settings_dispose :: "('w, unit) in_settings" where
  "settings_dispose = withS (\<lambda>d. if st_disposed d then ret ()
     else next_act (upd (\<lambda>d. d\<lparr>st_disposed := True, st_generation := Suc (st_generation d)\<rparr>)) abort_settings)"

text \<open>What an awaited thing came to: an outcome, or for a protected entry whether it was staged.\<close>

definition settings_outcome :: "settings_source \<Rightarrow> 'w settings_scheme \<Rightarrow> facade_result option" where
  "settings_outcome src d = (case src of
       Of_Client n \<Rightarrow> map_option Outcome (map_of (c_outcomes (d_client d)) n)
     | Of_Facade q \<Rightarrow> map_of (fa_results d) q
     | At_Microtask \<Rightarrow> Some Ended)"

fun settings_goes_on :: "'w settings_scheme settings_world \<Rightarrow> nat \<Rightarrow> facade_result \<Rightarrow> call_args \<Rightarrow> settings_wait \<Rightarrow> ('w, unit) in_settings" where
  "settings_goes_on sw p (Outcome r) a (Configuration_Read generation selector) = settings_configuration sw p generation selector r a"
| "settings_goes_on sw p (Outcome r) a (Draft_Opening generation document) = settings_opened sw p generation document r"
| "settings_goes_on sw p (Flag b) a (Capturing generation) = settings_captured sw p generation b"
| "settings_goes_on sw p x a (Refresh_Later generation) = withS (\<lambda>d. if stale_settings generation d then ret () else settings_refresh sw p a)"
| "settings_goes_on sw p x a wait = ret ()"

definition settings_settle :: "'w settings_scheme settings_world \<Rightarrow> nat \<Rightarrow> call_args \<Rightarrow> ('w, unit) in_settings" where
  "settings_settle sw k a = withS (\<lambda>d. case map_of (st_waits d) k of
       None \<Rightarrow> ret ()
     | Some (p, wait, src) \<Rightarrow>
         (case settings_outcome src d of
            None \<Rightarrow> ret ()
          | Some x \<Rightarrow> next_act (upd (\<lambda>d. d\<lparr>st_waits := AList.delete k (st_waits d)\<rparr>)) (settings_goes_on sw p x a wait)))"

text \<open>The constructor: the fields, then what the subscription tells at once.\<close>

definition new_settings :: "'w settings_scheme settings_world \<Rightarrow> jv \<Rightarrow> ('w, unit) in_settings" where
  "new_settings sw platform =
     next_act (upd (\<lambda>d. d\<lparr>st_platform := platform, st_state := empty_settings, st_generation := 0, st_disposed := False, st_target := [], st_needs := False\<rparr>))
     (seq (ask facade_state) (\<lambda>v. settings_hears sw v))"

datatype settings_move =
    Settings_Refresh nat call_args
  | Stage_All "jv list"
  | Set_Public jv jv
  | Set_Numeric jv ustr
  | Reset_Numeric jv
  | Remove_Override jv
  | Clear_Secret jv
  | Undo_Field jv
  | Capture_Protected nat jv call_args
  | Set_Feed jv jv jv
  | Set_Proxy jv jv
  | Sync_Remove jv
  | Undo_Removal jv
  | Sync_Create jv jv
  | Settings_Settle nat call_args
  | Settings_Dispose
  | Settings_Facade facade_move

fun settings_step :: "'w settings_scheme settings_world \<Rightarrow> world \<Rightarrow> settings_move \<Rightarrow> 'w settings_scheme \<Rightarrow> 'w settings_scheme" where
  "settings_step sw w (Settings_Refresh p a) d = snd (settings_refresh sw p a d)"
| "settings_step sw w (Stage_All edits) d = snd (stageAll sw edits d)"
| "settings_step sw w (Set_Public i v) d = snd (setPublic sw i v d)"
| "settings_step sw w (Set_Numeric i text) d = snd (setNumeric sw i text d)"
| "settings_step sw w (Reset_Numeric i) d = snd (resetNumeric sw i d)"
| "settings_step sw w (Remove_Override i) d = snd (removeOverride sw i d)"
| "settings_step sw w (Clear_Secret i) d = snd (clearSecret sw i d)"
| "settings_step sw w (Undo_Field i) d = snd (undoField sw i d)"
| "settings_step sw w (Capture_Protected p i a) d = snd (captureProtectedT sw p i a d)"
| "settings_step sw w (Set_Feed i feedId v) d = snd (setFeed sw i feedId v d)"
| "settings_step sw w (Set_Proxy i v) d = snd (setProxy sw i v d)"
| "settings_step sw w (Sync_Remove i) d = snd (sync_remove sw i d)"
| "settings_step sw w (Undo_Removal i) d = snd (undoRemoval sw i d)"
| "settings_step sw w (Sync_Create i mode) d = snd (sync_create sw i mode d)"
| "settings_step sw w (Settings_Settle k a) d = snd (settings_settle sw k a d)"
| "settings_step sw w Settings_Dispose d = snd (settings_dispose d)"
| "settings_step sw w (Settings_Facade m) d = facade_step (settings_facade sw) w m d"

end
