(* ===== verification/Home_Screen.thy ===== *)
theory Home_Screen imports Facade_Saves Home_View begin

text \<open>
  The controller of the start screen, \<^verbatim>\<open>HomeController\<close> of \<^verbatim>\<open>ui/src/views/home/controller.ts\<close>: it resolves the selected
  target, asks whether it can be launched and whether a session can be focused, and proposes both intents.

  Its state extends that of the facade. When the target, the host, the confidence or an observed inventory changes it
  aborts its reads and, once started, resolves the target anew. An await leaves an entry with the local variables
  and the call's number; the listeners are the function \<open>hw_tell\<close>.
\<close>

section \<open>The state\<close>

record home_state =
  hs_busy :: bool
  hs_target :: jv
  hs_launch :: jv
  hs_focus :: "(ustr \<times> jv) list"
  hs_notice :: string

datatype home_wait =
    Target_Wait nat jv jv
  | Launch_Wait nat jv jv jv
  | Session_Wait nat jv nat

record home = facade +
  ho_state :: home_state
  ho_generation :: nat
  ho_active :: bool
  ho_disposed :: bool
  ho_key :: ustr
  ho_reads :: "(ustr \<times> nat) list"
  ho_fresh :: nat
  ho_waits :: "(nat \<times> home_wait \<times> nat) list"

type_synonym ('w, 'a) in_home = "('w home_scheme, 'a) act"

text \<open>\<open>hw_args\<close> are the options of the reads that the controller starts by itself.\<close>

record 's home_world =
  hw_facade :: "'s facade_world"
  hw_args :: call_args
  hw_tell :: "home_state \<Rightarrow> 's \<Rightarrow> 's"

definition empty_home :: home_state where
  "empty_home = \<lparr>hs_busy = False, hs_target = JUndef, hs_launch = JUndef, hs_focus = [], hs_notice = []\<rparr>"

definition ho_epoch :: "'w home_scheme \<Rightarrow> jv" where
  "ho_epoch d = cursor_host (d_store d)"

definition home_sessions :: "'w home_scheme \<Rightarrow> jv list" where
  "home_sessions d = sessions (store_view (d_store d))"

definition setH :: "'w home_scheme home_world \<Rightarrow> (home_state \<Rightarrow> home_state) \<Rightarrow> ('w, unit) in_home" where
  "setH hw f = next_act (upd (\<lambda>d. d\<lparr>ho_state := f (ho_state d)\<rparr>))
     (withS (\<lambda>d. if ho_disposed d then ret () else upd (hw_tell hw (ho_state d))))"

definition callH :: "'w home_scheme home_world \<Rightarrow> string \<Rightarrow> jv \<Rightarrow> call_args \<Rightarrow> home_wait \<Rightarrow> ('w, unit) in_home" where
  "callH hw name input a wait = withS (\<lambda>d.
     seq (callS (fw_options (hw_facade hw)) (fw_request (hw_facade hw)) Query name input (a\<lparr>a_aborted := (a_aborted a \<or> ho_disposed d)\<rparr>)) (\<lambda>n.
       upd (\<lambda>d. d\<lparr>ho_fresh := Suc (ho_fresh d), ho_waits := ho_waits d @ [(ho_fresh d, wait, n)]\<rparr>)))"

definition abort_home :: "('w, unit) in_home" where
  "abort_home = withS (\<lambda>d. clientU (fold (\<lambda>(_, _, n). abandon_unsettled n) (ho_waits d)))"

section \<open>The target\<close>

definition inspectTarget :: "'w home_scheme home_world \<Rightarrow> call_args \<Rightarrow> ('w, unit) in_home" where
  "inspectTarget hw a = withS (\<lambda>d. case w_selector (d_ctx d) of
       None \<Rightarrow> ret ()
     | Some selector \<Rightarrow>
         if ho_disposed d \<or> hs_busy (ho_state d) \<or> o_confidence (d_store d) = Stale then ret ()
         else next_act (setH hw (\<lambda>s. s\<lparr>hs_busy := True, hs_launch := JUndef, hs_notice := []\<rparr>))
           (callH hw ''resolve_target'' (JObj [(U ''target'', selector)]) a (Target_Wait (ho_generation d) (ho_epoch d) selector)))"

text \<open>What the constructor subscribes to the facade.\<close>

definition home_key :: "screen_state \<Rightarrow> ustr res" where
  "home_key v = (let observations = sc_observations v; snapshot = or_undefined (v_snapshot observations) in
     canonicalData (JArr [or_null (ws_selector (sc_work v)), coalesce (fld (or_undefined (v_cursor observations)) ''hostEpoch'') JNull, S (confidence_text (v_confidence observations)),
       coalesce (fld snapshot ''installations'') JNull, coalesce (fld snapshot ''profiles'') JNull, coalesce (fld snapshot ''sessions'') JNull]))"

definition home_hears :: "'w home_scheme home_world \<Rightarrow> screen_state \<Rightarrow> ('w, unit) in_home" where
  "home_hears hw v = withS (\<lambda>d. if ho_disposed d then ret ()
     else seq (ask (\<lambda>_. home_key v)) (\<lambda>key.
       if key = ho_key d then ret ()
       else next_act (upd (\<lambda>d. d\<lparr>ho_key := key, ho_generation := Suc (ho_generation d)\<rparr>))
         (next_act abort_home
         (next_act (upd (\<lambda>d. d\<lparr>ho_reads := []\<rparr>))
         (next_act (setH hw (\<lambda>_. empty_home))
           (withS (\<lambda>d. if ho_active d \<and> ws_selector (sc_work v) \<noteq> None \<and> v_confidence (sc_observations v) \<noteq> Stale
              then inspectTarget hw (hw_args hw) else ret ())))))))"

text \<open>The facade with the controller after its other subscribers.\<close>

definition home_facade :: "'w home_scheme home_world \<Rightarrow> 'w home_scheme facade_world" where
  "home_facade hw = (hw_facade hw)\<lparr>fw_tell := \<lambda>v d. snd (home_hears hw v (fw_tell (hw_facade hw) v d))\<rparr>"

definition home_stale :: "nat \<Rightarrow> jv \<Rightarrow> 'w home_scheme \<Rightarrow> bool" where
  "home_stale generation epoch d \<longleftrightarrow> ho_disposed d \<or> generation \<noteq> ho_generation d \<or> epoch \<noteq> ho_epoch d"

definition launch_action :: "jv \<Rightarrow> jv" where
  "launch_action selector = S (if is_kind (fld selector ''profile'') ''ordinary'' then ''launch_ordinary'' else ''launch_isolated'')"

definition target_resolved :: "'w home_scheme home_world \<Rightarrow> nat \<Rightarrow> jv \<Rightarrow> jv \<Rightarrow> jv outcome \<Rightarrow> call_args \<Rightarrow> ('w, unit) in_home" where
  "target_resolved hw generation epoch selector r a = withS (\<lambda>d. if home_stale generation epoch d then ret ()
     else case r of
       Returned v _ \<Rightarrow>
         (let target = fld v ''target''; observed = isS (fld target ''status'') ''observed''; resolved = fld target ''value'' in
          if \<not> observed \<or> \<not> targetMatches selector resolved
          then setH hw (\<lambda>s. s\<lparr>hs_busy := False, hs_target := target, hs_notice := (if observed
             then ''The target observation conflicts with the requested selection.'' else ''The selected target is not confirmed.'')\<rparr>)
          else next_act (ctxF (home_facade hw) (bindTarget resolved))
            (callH hw ''get_actions'' (JObj [(U ''actions'', JArr [launch_action selector]),
                (U ''scope'', JObj [(U ''kind'', S ''target''), (U ''target'', resolved)])]) a
              (Launch_Wait generation epoch target (launch_action selector))))
     | _ \<Rightarrow> setH hw (\<lambda>s. s\<lparr>hs_busy := False, hs_notice := ''Target observation is unavailable. Refresh before reviewing an action.''\<rparr>))"

text \<open>The one row of an action in an answer.\<close>

definition action_row :: "jv outcome \<Rightarrow> jv \<Rightarrow> jv option" where
  "action_row r action = (case r of
       Returned v _ \<Rightarrow> (case filter (\<lambda>row. strict_eq (fld row ''action'') action) (arr_items v) of [row] \<Rightarrow> Some row | _ \<Rightarrow> None)
     | _ \<Rightarrow> None)"

definition launch_read :: "'w home_scheme home_world \<Rightarrow> nat \<Rightarrow> jv \<Rightarrow> jv \<Rightarrow> jv \<Rightarrow> jv outcome \<Rightarrow> ('w, unit) in_home" where
  "launch_read hw generation epoch target action r = withS (\<lambda>d. if home_stale generation epoch d then ret ()
     else setH hw (\<lambda>s. s\<lparr>hs_busy := False, hs_target := target, hs_launch := or_undefined (action_row r action),
       hs_notice := (if action_row r action = None then ''Launch availability was not confirmed.'' else [])\<rparr>))"

section \<open>Sessions\<close>

definition session_key :: "jv \<Rightarrow> ustr" where
  "session_key binding = str_of (fld binding ''sessionId'')"

definition same_session :: "jv \<Rightarrow> jv \<Rightarrow> bool res" where
  "same_session binding row = same_data (fld row ''binding'') binding"

definition inspectSession :: "'w home_scheme home_world \<Rightarrow> jv \<Rightarrow> call_args \<Rightarrow> ('w, unit) in_home" where
  "inspectSession hw binding a = withS (\<lambda>d. if ho_disposed d \<or> o_confidence (d_store d) = Stale then ret ()
     else seq (ask (\<lambda>d. findE (same_session binding) (home_sessions d))) (\<lambda>found. case found of
       None \<Rightarrow> ret ()
     | Some row \<Rightarrow>
         let captured = fld row ''binding''; key = session_key captured;
             n = Suc (case map_of (ho_reads d) key of None \<Rightarrow> 0 | Some k \<Rightarrow> k) in
         next_act (upd (\<lambda>d. d\<lparr>ho_reads := AList.update key n (ho_reads d)\<rparr>))
         (next_act (setH hw (\<lambda>s. s\<lparr>hs_focus := AList.delete key (hs_focus s)\<rparr>))
           (callH hw ''get_actions'' (JObj [(U ''actions'', JArr [S ''focus_session'']), (U ''scope'', JObj [(U ''kind'', S ''session''), (U ''session'', captured)])]) a
             (Session_Wait (ho_generation d) captured n)))))"

definition session_read :: "'w home_scheme home_world \<Rightarrow> nat \<Rightarrow> jv \<Rightarrow> nat \<Rightarrow> jv outcome \<Rightarrow> ('w, unit) in_home" where
  "session_read hw generation captured n r = unlessS (\<lambda>d. orE (Inr (ho_disposed d \<or> generation \<noteq> ho_generation d
        \<or> map_of (ho_reads d) (session_key captured) \<noteq> Some n)) (negE (someE (same_session captured) (home_sessions d)))) (ret ())
     (setH hw (\<lambda>s. case action_row r (S ''focus_session'') of
        Some row \<Rightarrow> s\<lparr>hs_focus := AList.update (session_key captured) row (hs_focus s)\<rparr>
      | None \<Rightarrow> s\<lparr>hs_notice := ''Focus availability was not confirmed.''\<rparr>))"

section \<open>Intents\<close>

definition row_available :: "jv \<Rightarrow> bool" where
  "row_available row \<longleftrightarrow> isS (path row [''availability'', ''status'']) ''available''"

definition launch_input :: "jv \<Rightarrow> (ustr \<times> jv) list \<Rightarrow> jv \<Rightarrow> jv" where
  "launch_input selector extra choice = JObj ([(U ''target'', JObj [(U ''installation'', fld selector ''installation''), (U ''profile'', fld selector ''profile'')])]
     @ extra @ (if isS choice ''reject'' then [] else [(U ''unrecognizedRuntimeChoice'', choice)]))"

definition launchIntent :: "jv option \<Rightarrow> jv \<Rightarrow> 'w home_scheme \<Rightarrow> jv option" where
  "launchIntent storeMode choice d = (case w_selector (d_ctx d) of
       None \<Rightarrow> None
     | Some selector \<Rightarrow>
         if \<not> row_available (hs_launch (ho_state d)) \<or> o_confidence (d_store d) = Stale then None
         else if is_kind (fld selector ''profile'') ''ordinary''
           then Some (JObj [(U ''kind'', S ''launch_ordinary''), (U ''input'', launch_input selector [] choice)])
         else (case storeMode of
             None \<Rightarrow> None
           | Some mode \<Rightarrow> if \<not> truthy mode then None
               else Some (JObj [(U ''kind'', S ''launch_isolated''), (U ''input'', launch_input selector [(U ''storeMode'', mode)] choice)])))"

definition focusIntent :: "jv \<Rightarrow> 'w home_scheme \<Rightarrow> jv option res" where
  "focusIntent binding d =
     bindE (orE (Inr (\<not> row_available (or_undefined (map_of (hs_focus (ho_state d)) (session_key binding))) \<or> o_confidence (d_store d) = Stale))
        (negE (someE (same_session binding) (home_sessions d)))) (\<lambda>refused. Inr
     (if refused then None else Some (JObj [(U ''kind'', S ''focus_session''), (U ''input'', JObj [(U ''session'', binding)])])))"

section \<open>Start and disposal\<close>

definition home_start :: "'w home_scheme home_world \<Rightarrow> ('w, unit) in_home" where
  "home_start hw = withS (\<lambda>d. if ho_disposed d \<or> ho_active d then ret ()
     else next_act (upd (\<lambda>d. d\<lparr>ho_active := True\<rparr>))
       (withS (\<lambda>d. if w_selector (d_ctx d) \<noteq> None then inspectTarget hw (hw_args hw) else ret ())))"

definition home_dispose :: "('w, unit) in_home" where
  "home_dispose = withS (\<lambda>d. if ho_disposed d then ret ()
     else next_act (upd (\<lambda>d. d\<lparr>ho_disposed := True, ho_generation := Suc (ho_generation d)\<rparr>)) abort_home)"

fun home_goes_on :: "'w home_scheme home_world \<Rightarrow> jv outcome \<Rightarrow> call_args \<Rightarrow> home_wait \<Rightarrow> ('w, unit) in_home" where
  "home_goes_on hw r a (Target_Wait generation epoch selector) = target_resolved hw generation epoch selector r a"
| "home_goes_on hw r a (Launch_Wait generation epoch target action) = launch_read hw generation epoch target action r"
| "home_goes_on hw r a (Session_Wait generation captured n) = session_read hw generation captured n r"

definition home_settle :: "'w home_scheme home_world \<Rightarrow> nat \<Rightarrow> call_args \<Rightarrow> ('w, unit) in_home" where
  "home_settle hw k a = withS (\<lambda>d. case map_of (ho_waits d) k of
       None \<Rightarrow> ret ()
     | Some (wait, n) \<Rightarrow>
         (case map_of (c_outcomes (d_client d)) n of
            None \<Rightarrow> ret ()
          | Some r \<Rightarrow> next_act (upd (\<lambda>d. d\<lparr>ho_waits := AList.delete k (ho_waits d)\<rparr>)) (home_goes_on hw r a wait)))"

text \<open>The constructor: the fields, then what the subscription tells at once.\<close>

definition new_home :: "'w home_scheme home_world \<Rightarrow> ('w, unit) in_home" where
  "new_home hw =
     next_act (upd (\<lambda>d. d\<lparr>ho_state := empty_home, ho_generation := 0, ho_active := False, ho_disposed := False, ho_key := [], ho_reads := []\<rparr>))
     (seq (ask facade_state) (\<lambda>v. home_hears hw v))"

datatype home_move =
    Home_Start
  | Inspect_Target call_args
  | Inspect_Session jv call_args
  | Home_Settle nat call_args
  | Home_Dispose
  | Home_Facade facade_move

fun home_step :: "'w home_scheme home_world \<Rightarrow> world \<Rightarrow> home_move \<Rightarrow> 'w home_scheme \<Rightarrow> 'w home_scheme" where
  "home_step hw w Home_Start d = snd (home_start hw d)"
| "home_step hw w (Inspect_Target a) d = snd (inspectTarget hw a d)"
| "home_step hw w (Inspect_Session binding a) d = snd (inspectSession hw binding a d)"
| "home_step hw w (Home_Settle k a) d = snd (home_settle hw k a d)"
| "home_step hw w Home_Dispose d = snd (home_dispose d)"
| "home_step hw w (Home_Facade m) d = facade_step (home_facade hw) w m d"

end
