(* ===== verification/Support_View.thy ===== *)
theory Support_View imports Home_View begin

text \<open>
  The rows of a diagnostic preview, \<^verbatim>\<open>ui/src/views/support/presentation.ts\<close>: an allowlist over the facts, and the paths that a
  preview discloses only when both its content and its reference say so.
\<close>

section \<open>Facts\<close>

definition fact_status :: "jv \<Rightarrow> ustr" where
  "fact_status evidence = (let status = path evidence [''value'', ''status''] in
     U (if isS status ''missing'' then ''Not present'' else if isS status ''unknown'' then ''Unknown''
        else if isS status ''unavailable'' then ''Unavailable'' else ''Observed''))"

text \<open>A evidence that is an observation: the text of its value, or else its status.\<close>

definition observed_fact :: "jv \<Rightarrow> (jv \<Rightarrow> ustr) \<Rightarrow> ustr" where
  "observed_fact evidence text = (if isS (path evidence [''value'', ''status'']) ''observed'' then text (path evidence [''value'', ''value'']) else fact_status evidence)"

definition fact_rows :: "jv \<Rightarrow> (string \<times> ustr) list" where
  "fact_rows evidence =
     (let v = fld evidence ''value'' in
      if is_kind evidence ''target'' then
        [(''Profile'', if is_kind (fld v ''profile'') ''ordinary'' then U ''Ordinary profile'' else U ''Isolated profile '' @ shown (path v [''profile'', ''id''])),
         (''Installation'', if is_kind (fld v ''installation'') ''registered'' then shown (path v [''installation'', ''registrationId''])
            else U ''Explicit directory installation'')]
      else if is_kind evidence ''session'' then
        [(''Session'', observed_fact evidence (\<lambda>x. U ''PID '' @ shown (path x [''process'', ''pid'']) @ dot @ shown (path x [''process'', ''architecture''])))]
      else if is_kind evidence ''runtime'' then
        [(''Runtime ownership'', observed_fact evidence (\<lambda>x. spaced (shown (fld x ''kind''))))]
      else if is_kind evidence ''game'' then
        [(''Game client'', observed_fact evidence (\<lambda>x. shown (fld x ''version'') @ dot @ shown (fld x ''architecture'')))]
      else if is_kind evidence ''bridge'' then
        [(''Bridge application'', observed_fact evidence (\<lambda>x. shown (fld x ''applicationId'') @ dot @ shown (fld x ''channelId'') @ dot @ shown (fld x ''architecture'')))]
      else if is_kind evidence ''capability'' then
        [(''Capability'', shown (fld v ''id'') @ dot @ spaced (shown (path v [''status'', ''status''])))]
      else if is_kind evidence ''issue'' then
        [(''Observed issue'', spaced (shown (fld v ''code'')))]
      else [])"

definition diagnosticRows :: "jv \<Rightarrow> (string \<times> ustr) list" where
  "diagnosticRows preview = concat (map fact_rows (arr_items (path preview [''content'', ''facts''])))"

section \<open>Disclosed paths\<close>

definition disclosedPaths :: "jv \<Rightarrow> (string \<times> ustr) list" where
  "disclosedPaths preview =
     (let paths = path preview [''content'', ''paths''] in
      if \<not> isS (path preview [''content'', ''disclosure'']) ''include_paths'' \<or> \<not> isS (path preview [''reference'', ''disclosure'']) ''include_paths''
        \<or> \<not> truthy paths then []
      else (''Installation path'', shown (path paths [''installation'', ''value'']))
        # (if truthy (fld paths ''profile'') then [(''Profile path'', shown (path paths [''profile'', ''value'']))] else []))"

end
