(* ===== verification/Support_Screen.thy ===== *)
theory Support_Screen imports Facade_Saves Support_View begin

text \<open>
  The controller of the diagnostics screen, \<^verbatim>\<open>SupportController\<close> of \<^verbatim>\<open>ui/src/views/support/controller.ts\<close>: a preview of what an export
  would disclose, a destination chosen for exactly that preview, and the export proposed for review.

  Its state extends that of the facade. A change of the disclosure, of the target, the host or the confidence drops the preview and,
  with it, a review of its export that is still open. An await leaves an entry with the local variables and the call's
  number; the listeners are the function \<open>uw_tell\<close>. A preview is replaced only by a new generation or when nothing
  is awaited, so that equality of previews is identity.
\<close>

section \<open>The state\<close>

record support_state =
  us_busy :: bool
  us_includePaths :: bool
  us_preview :: jv
  us_destination :: jv
  us_notice :: string

datatype support_wait =
    Preview_Wait nat jv
  | Destination_Wait nat jv

record support = facade +
  su_state :: support_state
  su_generation :: nat
  su_disposed :: bool
  su_key :: ustr
  su_fresh :: nat
  su_waits :: "(nat \<times> support_wait \<times> nat) list"

type_synonym ('w, 'a) in_support = "('w support_scheme, 'a) act"

record 's support_world =
  uw_facade :: "'s facade_world"
  uw_tell :: "support_state \<Rightarrow> 's \<Rightarrow> 's"

definition empty_support :: "bool \<Rightarrow> string \<Rightarrow> support_state" where
  "empty_support includePaths notice = \<lparr>us_busy = False, us_includePaths = includePaths, us_preview = JUndef, us_destination = JUndef, us_notice = notice\<rparr>"

definition su_epoch :: "'w support_scheme \<Rightarrow> jv" where
  "su_epoch d = cursor_host (d_store d)"

definition setU :: "'w support_scheme support_world \<Rightarrow> (support_state \<Rightarrow> support_state) \<Rightarrow> ('w, unit) in_support" where
  "setU uw f = next_act (upd (\<lambda>d. d\<lparr>su_state := f (su_state d)\<rparr>))
     (withS (\<lambda>d. if su_disposed d then ret () else upd (uw_tell uw (su_state d))))"

definition abort_support :: "('w, unit) in_support" where
  "abort_support = withS (\<lambda>d. clientU (fold (\<lambda>(_, _, n). abandon_unsettled n) (su_waits d)))"

section \<open>What the facade tells\<close>

text \<open>The open review is that of an export of the preview at hand.\<close>

definition previewed :: "jv \<Rightarrow> jv" where
  "previewed reference = JObj [(U ''preview'', reference)]"

definition reviews_preview :: "'w support_scheme \<Rightarrow> bool res" where
  "reviews_preview d =
     (let previous = us_preview (su_state d); capt = path (or_undefined (rs_plan (review_state d))) [''semantics'', ''capture''] in
      if \<not> truthy previous \<or> \<not> is_kind capt ''export_diagnostics'' then Inr False
      else bindingEquivalent (previewed (path capt [''input'', ''preview''])) (previewed (fld previous ''reference'')))"

definition support_key :: "screen_state \<Rightarrow> ustr res" where
  "support_key v = canonicalData (JArr [or_null (ws_selector (sc_work v)), or_null (ws_binding (sc_work v)),
     coalesce (fld (or_undefined (v_cursor (sc_observations v))) ''hostEpoch'') JNull, S (confidence_text (v_confidence (sc_observations v)))])"

text \<open>
  The controller may leave the review, which publishes through the reviewer and so through the facade it listens to. \<open>uw_facade\<close> is the
  facade as it then behaves: its publications reach the controller again (\<open>support_hears\<close>), whose key is already the new one.
\<close>

definition invalidateU :: "'w support_scheme support_world \<Rightarrow> bool \<Rightarrow> ('w, unit) in_support" where
  "invalidateU uw includePaths = seq (ask reviews_preview) (\<lambda>reviewed.
     seq (if reviewed then seq (review_stay (facade_review (uw_facade uw))) (\<lambda>left. ret (\<not> left)) else ret False) (\<lambda>retained.
     next_act (upd (\<lambda>d. d\<lparr>su_generation := Suc (su_generation d)\<rparr>))
     (next_act abort_support
       (setU uw (\<lambda>_. empty_support includePaths (if retained
          then ''The submitted export retains its original reviewed disclosure. New previews use the new choice.'' else []))))))"

definition support_hears :: "'w support_scheme support_world \<Rightarrow> screen_state \<Rightarrow> ('w, unit) in_support" where
  "support_hears uw v = withS (\<lambda>d. if su_disposed d then ret ()
     else seq (ask (\<lambda>_. support_key v)) (\<lambda>key.
       if key = su_key d then ret ()
       else next_act (upd (\<lambda>d. d\<lparr>su_key := key\<rparr>)) (invalidateU uw False)))"

definition setDisclosure :: "'w support_scheme support_world \<Rightarrow> bool \<Rightarrow> ('w, unit) in_support" where
  "setDisclosure uw includePaths = withS (\<lambda>d. if su_disposed d then ret () else invalidateU uw includePaths)"

section \<open>The preview\<close>

definition callU :: "'w support_scheme support_world \<Rightarrow> request_kind \<Rightarrow> string \<Rightarrow> jv \<Rightarrow> call_args \<Rightarrow> support_wait \<Rightarrow> ('w, unit) in_support" where
  "callU uw k name input a wait = withS (\<lambda>d.
     seq (callS (fw_options (uw_facade uw)) (fw_request (uw_facade uw)) k name input (a\<lparr>a_aborted := (a_aborted a \<or> su_disposed d)\<rparr>)) (\<lambda>n.
       upd (\<lambda>d. d\<lparr>su_fresh := Suc (su_fresh d), su_waits := su_waits d @ [(su_fresh d, wait, n)]\<rparr>)))"

definition support_stale :: "nat \<Rightarrow> 'w support_scheme \<Rightarrow> bool" where
  "support_stale generation d \<longleftrightarrow> su_disposed d \<or> generation \<noteq> su_generation d"

definition preview_input :: "jv \<Rightarrow> bool \<Rightarrow> jv" where
  "preview_input target includePaths = JObj [(U ''target'', target), (U ''disclosure'', S (if includePaths then ''include_paths'' else ''redacted''))]"

definition support_preview :: "'w support_scheme support_world \<Rightarrow> call_args \<Rightarrow> ('w, unit) in_support" where
  "support_preview uw a = withS (\<lambda>d. case w_selector (d_ctx d) of
       None \<Rightarrow> ret ()
     | Some target \<Rightarrow>
         if su_disposed d \<or> us_busy (su_state d) \<or> o_confidence (d_store d) \<noteq> Authoritative then ret ()
         else let generation = su_generation d in
           seq (ask (\<lambda>d. capture (preview_input target (us_includePaths (su_state d))))) (\<lambda>input.
           next_act (setU uw (\<lambda>s. s\<lparr>us_busy := True, us_preview := JUndef, us_destination := JUndef, us_notice := []\<rparr>))
             (withS (\<lambda>d. if support_stale generation d then ret ()
                else callU uw Query ''diagnostic_preview'' input a (Preview_Wait generation input)))))"

text \<open>The preview is about the requested target and discloses what was asked for, and no paths when none were.\<close>

definition preview_unconfirmed :: "jv \<Rightarrow> jv \<Rightarrow> bool res" where
  "preview_unconfirmed input v =
     (let content = fld v ''content''; reference = fld v ''reference''; disclosure = fld input ''disclosure'' in
      orE (Inr (\<not> targetMatches (fld input ''target'') (fld content ''target'')))
      (orE (negE (bindingEquivalent (fld reference ''target'') (fld content ''target'')))
        (Inr (\<not> strict_eq (fld reference ''disclosure'') disclosure \<or> \<not> strict_eq (fld content ''disclosure'') disclosure
           \<or> isS disclosure ''redacted'' \<and> \<not> nullish (fld content ''paths'')))))"

definition preview_elsewhere :: "jv \<Rightarrow> 'w support_scheme \<Rightarrow> bool res" where
  "preview_elsewhere v d =
     (let reference = fld v ''reference'' in
      orE (Inr (truthy (su_epoch d) \<and> \<not> strict_eq (su_epoch d) (fld reference ''hostEpoch'')))
        (case w_binding (d_ctx d) of None \<Rightarrow> Inr False | Some binding \<Rightarrow> negE (bindingEquivalent binding (fld reference ''target''))))"

definition unconfirmed_preview :: "'w support_scheme support_world \<Rightarrow> ('w, unit) in_support" where
  "unconfirmed_preview uw = setU uw (\<lambda>s. s\<lparr>us_busy := False, us_notice := ''Diagnostic preview was not confirmed. No export destination was selected.''\<rparr>)"

definition preview_read :: "'w support_scheme support_world \<Rightarrow> nat \<Rightarrow> jv \<Rightarrow> jv outcome \<Rightarrow> ('w, unit) in_support" where
  "preview_read uw generation input r = withS (\<lambda>d. if support_stale generation d then ret ()
     else case r of
       Returned v _ \<Rightarrow> unlessS (\<lambda>_. preview_unconfirmed input v) (unconfirmed_preview uw)
         (unlessS (preview_elsewhere v)
           (setU uw (\<lambda>s. s\<lparr>us_busy := False, us_notice := ''Diagnostic scope changed. Refresh the preview.''\<rparr>))
           (setU uw (\<lambda>s. s\<lparr>us_busy := False, us_preview := v,
              us_notice := ''Preview verified. Review the disclosure before choosing an export destination.''\<rparr>)))
     | _ \<Rightarrow> unconfirmed_preview uw)"

section \<open>The destination\<close>

definition chooseDestination :: "'w support_scheme support_world \<Rightarrow> call_args \<Rightarrow> ('w, unit) in_support" where
  "chooseDestination uw a = withS (\<lambda>d. let preview = us_preview (su_state d); generation = su_generation d in
     if su_disposed d \<or> \<not> truthy preview \<or> us_busy (su_state d) \<or> o_confidence (d_store d) \<noteq> Authoritative then ret ()
     else next_act (setU uw (\<lambda>s. s\<lparr>us_busy := True, us_destination := JUndef\<rparr>))
       (withS (\<lambda>d. if support_stale generation d then ret ()
          else callU uw Command ''request_export_destination'' (previewed (fld preview ''reference'')) a (Destination_Wait generation preview))))"

definition destination_confirmed :: "jv \<Rightarrow> jv outcome \<Rightarrow> bool res" where
  "destination_confirmed preview r = (case r of
       Returned v _ \<Rightarrow>
         andE (bindingEquivalent (fld v ''binding'') (previewed (fld preview ''reference'')))
           (Inr (isS (path v [''outcome'', ''status'']) ''captured''
              \<and> strict_eq (path v [''outcome'', ''destination'', ''hostEpoch'']) (path preview [''reference'', ''hostEpoch''])))
     | _ \<Rightarrow> Inr False)"

definition destination_read :: "'w support_scheme support_world \<Rightarrow> nat \<Rightarrow> jv \<Rightarrow> jv outcome \<Rightarrow> ('w, unit) in_support" where
  "destination_read uw generation preview r = withS (\<lambda>d. if support_stale generation d \<or> us_preview (su_state d) \<noteq> preview then ret ()
     else seq (ask (\<lambda>_. destination_confirmed preview r)) (\<lambda>ok.
       setU uw (\<lambda>s. case r of
         Returned v _ \<Rightarrow>
           if ok then s\<lparr>us_busy := False, us_destination := path v [''outcome'', ''destination''],
             us_notice := ''Destination selected through the backend. Export still requires review and confirmation.''\<rparr>
           else s\<lparr>us_busy := False, us_notice := (if isS (path v [''outcome'', ''status'']) ''cancelled'' then ''Destination selection cancelled.''
             else ''Export destination is unavailable.'')\<rparr>
       | _ \<Rightarrow> s\<lparr>us_busy := False, us_notice := ''Export destination is unavailable.''\<rparr>)))"

section \<open>The export\<close>

definition exportIntent :: "'w support_scheme \<Rightarrow> jv option" where
  "exportIntent d = (let preview = us_preview (su_state d); destination = us_destination (su_state d) in
     if \<not> truthy preview \<or> \<not> truthy destination \<or> us_busy (su_state d) then None
     else Some (JObj [(U ''kind'', S ''export_diagnostics''), (U ''input'', JObj [(U ''preview'', fld preview ''reference''), (U ''destination'', destination)])]))"

text \<open>The promise is that of the shared review's \<^verbatim>\<open>prepare\<close>; a refusal is \<^verbatim>\<open>false\<close> at once.\<close>

definition reviewExport :: "'w support_scheme support_world \<Rightarrow> call_args \<Rightarrow> ('w, jv review_reply) in_support" where
  "reviewExport uw a = withS (\<lambda>d. case exportIntent d of
       None \<Rightarrow> ret Nothing
     | Some proposed \<Rightarrow>
         if su_disposed d \<or> o_confidence (d_store d) \<noteq> Authoritative then ret Nothing
         else review_prepare (facade_review (uw_facade uw)) proposed (Some (U ''support-review-export'')) a)"

definition support_dispose :: "('w, unit) in_support" where
  "support_dispose = withS (\<lambda>d. if su_disposed d then ret ()
     else next_act (upd (\<lambda>d. d\<lparr>su_disposed := True, su_generation := Suc (su_generation d)\<rparr>)) abort_support)"

fun support_goes_on :: "'w support_scheme support_world \<Rightarrow> jv outcome \<Rightarrow> support_wait \<Rightarrow> ('w, unit) in_support" where
  "support_goes_on uw r (Preview_Wait generation input) = preview_read uw generation input r"
| "support_goes_on uw r (Destination_Wait generation preview) = destination_read uw generation preview r"

definition support_settle :: "'w support_scheme support_world \<Rightarrow> nat \<Rightarrow> ('w, unit) in_support" where
  "support_settle uw k = withS (\<lambda>d. case map_of (su_waits d) k of
       None \<Rightarrow> ret ()
     | Some (wait, n) \<Rightarrow>
         (case map_of (c_outcomes (d_client d)) n of
            None \<Rightarrow> ret ()
          | Some r \<Rightarrow> next_act (upd (\<lambda>d. d\<lparr>su_waits := AList.delete k (su_waits d)\<rparr>)) (support_goes_on uw r wait)))"

text \<open>The constructor: the fields, then what the subscription tells at once.\<close>

definition new_support :: "'w support_scheme support_world \<Rightarrow> ('w, unit) in_support" where
  "new_support uw =
     next_act (upd (\<lambda>d. d\<lparr>su_state := empty_support False [], su_generation := 0, su_disposed := False, su_key := []\<rparr>))
     (seq (ask facade_state) (\<lambda>v. support_hears uw v))"

datatype support_move =
    Set_Disclosure bool
  | Support_Preview call_args
  | Choose_Destination call_args
  | Review_Export call_args
  | Support_Settle nat
  | Support_Dispose
  | Support_Facade facade_move

fun support_step :: "'w support_scheme support_world \<Rightarrow> world \<Rightarrow> support_move \<Rightarrow> 'w support_scheme \<Rightarrow> 'w support_scheme" where
  "support_step uw w (Set_Disclosure includePaths) d = snd (setDisclosure uw includePaths d)"
| "support_step uw w (Support_Preview a) d = snd (support_preview uw a d)"
| "support_step uw w (Choose_Destination a) d = snd (chooseDestination uw a d)"
| "support_step uw w (Review_Export a) d = snd (reviewExport uw a d)"
| "support_step uw w (Support_Settle k) d = snd (support_settle uw k d)"
| "support_step uw w Support_Dispose d = snd (support_dispose d)"
| "support_step uw w (Support_Facade m) d = facade_step (uw_facade uw) w m d"

end
