(* ===== verification/Tauri_Wire.thy ===== *)
theory Tauri_Wire imports Bridge_Client begin

text \<open>
  What the desktop transport, \<^verbatim>\<open>ui/src/client/tauri/transport.ts\<close>, makes of values of the native host: the byte count
  of a frame, the closed control records, the faults that the host reports, and the allocator of registration keys. A value
  of the host is a foreign value over a heap of objects, as at the client's boundary.
\<close>

section \<open>Frames\<close>

type_synonym transport_fault = "fault_code \<times> delivery"

definition MAX_FRAME_BYTES :: nat where
  "MAX_FRAME_BYTES = 262144"

text \<open>The loop of \<^verbatim>\<open>frameBytes\<close>; it ends with nothing where the code throws.\<close>

fun frame_scan :: "nat \<Rightarrow> ustr \<Rightarrow> nat option" where
  "frame_scan b [] = Some b"
| "frame_scan b (c # cs) =
     (if high_surrogate c then
        (case cs of
           [] \<Rightarrow> None
         | d # ds \<Rightarrow> if \<not> low_surrogate d then None else if b + 4 > MAX_FRAME_BYTES then None else frame_scan (b + 4) ds)
      else if low_surrogate c then None
      else let n = b + (if c < 0x80 then 1 else if c < 0x800 then 2 else 3) in
        if n > MAX_FRAME_BYTES then None else frame_scan n cs)"

definition frameBytes :: "fv \<Rightarrow> nat option" where
  "frameBytes v = (case v of
       FStr s \<Rightarrow> if s = [] \<or> length s > MAX_FRAME_BYTES then None else frame_scan 0 s
     | _ \<Rightarrow> None)"

section \<open>Control records\<close>

text \<open>Exactly the given keys, each an enumerable data property of a plain object; nothing where the code throws.\<close>

definition control_record :: "heap \<Rightarrow> fv \<Rightarrow> string list \<Rightarrow> (string \<Rightarrow> fv) option" where
  "control_record h v keys = (case v of
       FRef a \<Rightarrow>
         (let ob = h a in
          if is_arr ob \<or> (proto ob \<noteq> ObjectPrototype \<and> proto ob \<noteq> NullPrototype) then None
          else if length (own_props ob) + symbol_keys ob \<noteq> length keys \<or> symbol_keys ob \<noteq> 0
              \<or> list_ex (\<lambda>(k, _). k \<notin> set (map U keys)) (own_props ob) then None
          else case mapE (\<lambda>k. data_property (own_props ob) (U k)) keys of
            Inl _ \<Rightarrow> None
          | Inr vs \<Rightarrow> Some (\<lambda>k. case map_of (zip keys vs) k of None \<Rightarrow> FUndef | Some w \<Rightarrow> w))
     | _ \<Rightarrow> None)"

text \<open>The three readers end with \<open>False\<close> or nothing where the code throws.\<close>

definition control_acknowledgement :: "heap \<Rightarrow> fv \<Rightarrow> ustr \<Rightarrow> bool" where
  "control_acknowledgement h v key = (case control_record h v [''schemaVersion'', ''registrationKey''] of
       None \<Rightarrow> False
     | Some dto \<Rightarrow> dto ''schemaVersion'' = FInt 1 \<and> dto ''registrationKey'' = FStr key)"

definition frame_in :: "fobject \<Rightarrow> ustr option option" where
  "frame_in ob =
     (let n = data_value (own_props ob) ''length'' in
      if (n \<noteq> FInt 0 \<and> n \<noteq> FInt 1) \<or> length (own_props ob) + symbol_keys ob \<noteq> (if n = FInt 0 then 0 else 1) + 1 then None
      else if n = FInt 0 then Some None
      else case data_property (own_props ob) (U ''0'') of
        Inl _ \<Rightarrow> None
      | Inr w \<Rightarrow> (case frameBytes w of None \<Rightarrow> None | Some _ \<Rightarrow> (case w of FStr s \<Rightarrow> Some (Some s) | _ \<Rightarrow> None)))"

definition pollFrame :: "heap \<Rightarrow> fv \<Rightarrow> ustr \<Rightarrow> ustr option option" where
  "pollFrame h v key = (case control_record h v [''schemaVersion'', ''registrationKey'', ''frames''] of
       None \<Rightarrow> None
     | Some dto \<Rightarrow>
         if dto ''schemaVersion'' \<noteq> FInt 1 \<or> dto ''registrationKey'' \<noteq> FStr key then None
         else (case dto ''frames'' of
             FRef a \<Rightarrow> if \<not> is_arr (h a) \<or> proto (h a) \<noteq> ArrayPrototype then None else frame_in (h a)
           | _ \<Rightarrow> None))"

definition invokeFault :: "heap \<Rightarrow> fv \<Rightarrow> transport_fault" where
  "invokeFault h v = (case control_record h v [''schemaVersion'', ''code'', ''delivery''] of
       None \<Rightarrow> (Delivery_Failed, May_Have_Reached_Backend)
     | Some dto \<Rightarrow>
         if dto ''schemaVersion'' \<noteq> FInt 1 then (Delivery_Failed, May_Have_Reached_Backend)
         else (case (transport_code (dto ''code''), transport_delivery (dto ''delivery'')) of
             (Some code, Some dlv) \<Rightarrow> (code, dlv)
           | _ \<Rightarrow> (Delivery_Failed, May_Have_Reached_Backend)))"

section \<open>Registration keys\<close>

definition hex_digit_in :: "string \<Rightarrow> nat \<Rightarrow> bool" where
  "hex_digit_in s c \<longleftrightarrow> c \<in> set (U s)"

definition is_uuid :: "ustr \<Rightarrow> bool" where
  "is_uuid s \<longleftrightarrow> length s = 36 \<and> list_all (\<lambda>(i, c).
     if i \<in> {8, 13, 18, 23} then c = 45
     else if i = 14 then hex_digit_in ''12345678'' c
     else if i = 19 then hex_digit_in ''89ab'' c
     else hex_digit_in ''0123456789abcdef'' c) (enumerate 0 s)"

record registration_keys =
  tk_epoch :: ustr
  tk_ordinal :: nat
  tk_claimed :: bool

definition new_keys :: "ustr \<Rightarrow> registration_keys res" where
  "new_keys epoch = (if \<not> is_uuid epoch then Inl TypeError else Inr \<lparr>tk_epoch = epoch, tk_ordinal = 0, tk_claimed = False\<rparr>)"

definition claim_keys :: "registration_keys \<Rightarrow> registration_keys res" where
  "claim_keys k = (if tk_claimed k then Inl TypeError else Inr (k\<lparr>tk_claimed := True\<rparr>))"

definition allocate_key :: "registration_keys \<Rightarrow> (ustr \<times> registration_keys) res" where
  "allocate_key k =
     (if int (tk_ordinal k) = U64_MAX then Inl (RangeError ''registration_exhausted'')
      else let n = Suc (tk_ordinal k) in Inr (tk_epoch k @ U '':'' @ nat_string n, k\<lparr>tk_ordinal := n\<rparr>))"

section \<open>The count is the encoded length\<close>

lemma frame_unit:
  assumes "c < 0x10000" "\<not> high_surrogate c"
  shows "validUnicode (c # cs) \<longleftrightarrow> \<not> low_surrogate c \<and> validUnicode cs"
    "bytes (c # cs) = (if c < 0x80 then 1 else if c < 0x800 then 2 else 3) + bytes cs"
  using assms by (auto simp: bytes_def utf8_encode.simps(2) validUnicode.simps(2))

lemma scan_pair: "high_surrogate c \<Longrightarrow> bytes (c # d # ds) = 4 + bytes ds"
  by (auto simp: bytes_def utf8_encode.simps(2) Let_def surrogate_defs)

lemma frame_scan_exact:
  "units s \<Longrightarrow> frame_scan b s = (if validUnicode s \<and> (s = [] \<or> b + bytes s \<le> MAX_FRAME_BYTES) then Some (b + bytes s) else None)"
proof (induction b s rule: frame_scan.induct)
  case (2 b c cs)
  show ?case
  proof (cases "high_surrogate c")
    case True
    then show ?thesis using 2 by (cases cs) (auto simp: scan_pair validUnicode.simps(2) units_def)
  next
    case False
    with 2 have c: "c < 0x10000" "units cs" by (auto simp: units_def)
    let ?k = "if c < 0x80 then 1 else if c < 0x800 then 2 else (3::nat)"
    have "frame_scan b (c # cs) = (if low_surrogate c \<or> b + ?k > MAX_FRAME_BYTES then None else frame_scan (b + ?k) cs)"
      using False by (simp add: Let_def)
    moreover have "\<not> low_surrogate c \<Longrightarrow> b + ?k \<le> MAX_FRAME_BYTES \<Longrightarrow> frame_scan (b + ?k) cs =
        (if validUnicode cs \<and> (cs = [] \<or> b + ?k + bytes cs \<le> MAX_FRAME_BYTES) then Some (b + ?k + bytes cs) else None)"
      by (rule 2(2)) (use False c in auto)
    ultimately show ?thesis unfolding frame_unit [OF c(1) False] by (auto simp del: frame_scan.simps)
  qed
qed simp

text \<open>
  C37: The transport counts the bytes of a frame without encoding it: it accepts exactly the non-empty scalar Unicode texts of
  at most 262144 bytes of UTF-8, and the number it counts is the length of the encoding.
\<close>

theorem frame_count_is_exact:
  "units s \<Longrightarrow> frameBytes (FStr s) = (if s \<noteq> [] \<and> validUnicode s \<and> length (utf8_encode s) \<le> MAX_FRAME_BYTES
     then Some (length (utf8_encode s)) else None)"
  unfolding frameBytes_def using frame_scan_exact [of s 0] utf8_length [of s] by (auto simp: bytes_def)

theorem frame_count_is_exact_witness:
  "units [0x41, 0xD83D, 0xDE00] \<and> frameBytes (FStr [0x41, 0xD83D, 0xDE00]) = Some 5"
proof -
  have u: "units [0x41, 0xD83D, 0xDE00]" by (simp add: units_def)
  have v: "validUnicode [0x41, 0xD83D, 0xDE00]" "length (utf8_encode [0x41, 0xD83D, 0xDE00]) = 5"
    by (simp_all add: validUnicode.simps(2) utf8_encode.simps(2) surrogate_defs)
  show ?thesis using u v frame_count_is_exact [OF u] by (simp add: MAX_FRAME_BYTES_def)
qed

text \<open>What the transport rejects with is what the client reads: the fault as a thrown object.\<close>

definition code_text :: "fault_code \<Rightarrow> string" where
  "code_text c = (case c of Unavailable_Binding \<Rightarrow> ''unavailable_binding'' | Disconnected \<Rightarrow> ''disconnected'' | _ \<Rightarrow> ''delivery_failed'')"

definition transport_rejection :: "transport_fault \<Rightarrow> thrown" where
  "transport_rejection f = Some [(U ''code'', DataProperty (FStr (U (code_text (fst f)))) True),
     (U ''delivery'', DataProperty (FStr (U (if snd f = Not_Sent then ''not_sent'' else ''may_have_reached_backend''))) True)]"

definition transport_codes :: "fault_code set" where
  "transport_codes = {Unavailable_Binding, Disconnected, Delivery_Failed}"

lemma rejection_is_read: "fst f \<in> transport_codes \<Longrightarrow> transportFault (transport_rejection f) = f"
  by (cases f; cases "snd f") (auto simp: transport_codes_def transport_rejection_def transportFault_def data_value_def code_text_def
    transport_code_def transport_delivery_def)

lemma invoke_codes: "fst (invokeFault h v) \<in> transport_codes"
  by (auto simp: invokeFault_def transport_codes_def transport_code_def split: option.split)

text \<open>No key is allocated twice.\<close>

lemma allocated_keys_differ:
  "allocate_key k = Inr (a, k') \<Longrightarrow> allocate_key l = Inr (b, l') \<Longrightarrow> tk_epoch k = tk_epoch l \<Longrightarrow> tk_ordinal k \<noteq> tk_ordinal l \<Longrightarrow> a \<noteq> b"
  by (auto simp: allocate_key_def Let_def split: if_splits)

end
