(* ===== verification/Tauri_Transport.thy ===== *)
theory Tauri_Transport imports Tauri_Wire Js_State begin

text \<open>
  The desktop transport, \<^verbatim>\<open>TauriTransport\<close> of \<^verbatim>\<open>ui/src/client/tauri/transport.ts\<close>: one generation of listeners at a time over a
  registration with the host, exchanges that wait until the registration is acknowledged, one poll in flight, and the cleanup of
  registrations.

  Every object of the code (registration, generation, subscriber, exchange, timer) and every promise has a number, in the order in which they were
  made. A promise of an invocation is a job: the host's answer is one step, which runs the \<^verbatim>\<open>then\<close> or the \<^verbatim>\<open>catch\<close> callback, and the
  \<^verbatim>\<open>finally\<close> callback is a later one. Neither \<^verbatim>\<open>then\<close> callback changes anything before it can throw, and what its \<^verbatim>\<open>catch\<close> tests stays true
  from the first to the second, so both are in the step of the answer. What else the host, a listener and the clock do while they are called is a
  parameter, which may call the transport back. A number is taken before the host is called, and the job of that number is entered when the
  call has returned.
\<close>

section \<open>The state\<close>

definition MAX_REQUESTS :: nat where "MAX_REQUESTS = 32"
definition MAX_REQUEST_BYTES :: nat where "MAX_REQUEST_BYTES = 8 * 1024 * 1024"
definition MAX_SUBSCRIBERS :: nat where "MAX_SUBSCRIBERS = 8"
definition MAX_REGISTRATIONS :: nat where "MAX_REGISTRATIONS = 8"

record subscriber =
  su_active :: bool
  su_generation :: nat

record registration =
  rg_key :: ustr
  rg_retired :: bool
  rg_controls :: nat
  rg_cleanupAttempts :: nat

text \<open>The barrier is the state of its promise.\<close>

datatype barrier = Closed | Opened | Broken transport_fault

record generation =
  gn_registration :: nat
  gn_active :: bool
  gn_ready :: bool
  gn_listeners :: "nat list"
  gn_barrier :: barrier

record pending_exchange =
  pe_generation :: nat
  pe_bytes :: nat
  pe_frame :: "ustr option"
  pe_sent :: bool
  pe_settled :: bool
  pe_released :: bool
  pe_aborted :: bool

record transport_timer =
  tm_generation :: nat
  tm_cancelled :: bool
  tm_cancel :: bool

datatype job =
    Subscribing nat
  | Polling nat
  | Unsubscribing nat
  | Control_Ended nat
  | Poll_Ended nat "nat option"
  | Barrier nat
  | Sending nat
  | Sending_Ended nat

datatype invocation = Bridge_Subscribe ustr | Bridge_Poll ustr | Bridge_Unsubscribe ustr | Bridge_Exchange nat ustr

text \<open>
  The fields, then the objects by their numbers. The last four say what the transport has done: what it invoked, how each exchange ended,
  the faults that the host answered an exchange with, and the events it delivered.
\<close>

record transport =
  tt_keys :: registration_keys
  tt_disposed :: bool
  tt_generation :: "nat option"
  tt_poll :: "nat option"
  tt_timer :: "nat option"
  tt_registrations :: "nat list"
  tt_pending :: "nat list"
  tt_pendingBytes :: nat
  tt_next :: nat
  tt_subscribers :: "(nat \<times> subscriber) list"
  tt_regs :: "(nat \<times> registration) list"
  tt_generations :: "(nat \<times> generation) list"
  tt_exchanges :: "(nat \<times> pending_exchange) list"
  tt_timers :: "(nat \<times> transport_timer) list"
  tt_jobs :: "(nat \<times> job) list"
  tt_invoked :: "invocation list"
  tt_outcomes :: "(nat \<times> (transport_fault + ustr)) list"
  tt_reported :: "(nat \<times> transport_fault) list"
  tt_delivered :: "(nat \<times> ustr) list"

text \<open>What is called: the host's \<^verbatim>\<open>invoke\<close>, a subscriber's two callbacks, the clock and the function that cancels a timer.\<close>

record 'w transport_env =
  te_invoke :: "invocation \<Rightarrow> 'w transport_scheme \<Rightarrow> 'w transport_scheme"
  te_event :: "nat \<Rightarrow> ustr \<Rightarrow> ('w transport_scheme, unit) act"
  te_fault :: "nat \<Rightarrow> transport_fault \<Rightarrow> 'w transport_scheme \<Rightarrow> 'w transport_scheme"
  te_schedule :: "nat \<Rightarrow> nat \<Rightarrow> ('w transport_scheme, unit) act"
  te_cancel :: "nat \<Rightarrow> ('w transport_scheme, unit) act"

type_synonym 'w carried = "('w transport_scheme, unit) act"

definition new_transport :: "registration_keys \<Rightarrow> transport res" where
  "new_transport keys = bindE (claim_keys keys) (\<lambda>k. Inr \<lparr>tt_keys = k, tt_disposed = False, tt_generation = None, tt_poll = None, tt_timer = None,
     tt_registrations = [], tt_pending = [], tt_pendingBytes = 0, tt_next = 0, tt_subscribers = [], tt_regs = [], tt_generations = [],
     tt_exchanges = [], tt_timers = [], tt_jobs = [], tt_invoked = [], tt_outcomes = [], tt_reported = [], tt_delivered = []\<rparr>)"

section \<open>Objects by number\<close>

definition reg_of :: "'w transport_scheme \<Rightarrow> nat \<Rightarrow> registration" where
  "reg_of d r = (case map_of (tt_regs d) r of Some x \<Rightarrow> x | None \<Rightarrow> \<lparr>rg_key = [], rg_retired = True, rg_controls = 0, rg_cleanupAttempts = 0\<rparr>)"

definition gen_of :: "'w transport_scheme \<Rightarrow> nat \<Rightarrow> generation" where
  "gen_of d g = (case map_of (tt_generations d) g of Some x \<Rightarrow> x
     | None \<Rightarrow> \<lparr>gn_registration = 0, gn_active = False, gn_ready = False, gn_listeners = [], gn_barrier = Closed\<rparr>)"

definition set_reg :: "nat \<Rightarrow> (registration \<Rightarrow> registration) \<Rightarrow> 'w transport_scheme \<Rightarrow> 'w transport_scheme" where
  "set_reg r f d = d\<lparr>tt_regs := AList.update r (f (reg_of d r)) (tt_regs d)\<rparr>"

definition set_gen :: "nat \<Rightarrow> (generation \<Rightarrow> generation) \<Rightarrow> 'w transport_scheme \<Rightarrow> 'w transport_scheme" where
  "set_gen g f d = d\<lparr>tt_generations := AList.update g (f (gen_of d g)) (tt_generations d)\<rparr>"

definition subscriber_of :: "'w transport_scheme \<Rightarrow> nat \<Rightarrow> subscriber option" where
  "subscriber_of d n = map_of (tt_subscribers d) n"

definition hears_events :: "'w transport_scheme \<Rightarrow> nat \<Rightarrow> bool" where
  "hears_events d n \<longleftrightarrow> (case subscriber_of d n of None \<Rightarrow> False | Some x \<Rightarrow> su_active x)"

definition silence :: "nat \<Rightarrow> 'w transport_scheme \<Rightarrow> 'w transport_scheme" where
  "silence n d = (case subscriber_of d n of None \<Rightarrow> d
     | Some x \<Rightarrow> d\<lparr>tt_subscribers := AList.update n (x\<lparr>su_active := False\<rparr>) (tt_subscribers d)\<rparr>)"

definition exchange_of :: "'w transport_scheme \<Rightarrow> nat \<Rightarrow> pending_exchange option" where
  "exchange_of d n = map_of (tt_exchanges d) n"

definition set_exchange :: "nat \<Rightarrow> pending_exchange \<Rightarrow> 'w transport_scheme \<Rightarrow> 'w transport_scheme" where
  "set_exchange n x d = d\<lparr>tt_exchanges := AList.update n x (tt_exchanges d)\<rparr>"

definition current :: "'w transport_scheme \<Rightarrow> nat \<Rightarrow> bool" where
  "current d g \<longleftrightarrow> gn_active (gen_of d g) \<and> tt_generation d = Some g"

definition enter_job :: "nat \<Rightarrow> job \<Rightarrow> 'w transport_scheme \<Rightarrow> 'w transport_scheme" where
  "enter_job k j d = d\<lparr>tt_jobs := tt_jobs d @ [(k, j)]\<rparr>"

definition end_job :: "nat \<Rightarrow> 'w transport_scheme \<Rightarrow> 'w transport_scheme" where
  "end_job k d = d\<lparr>tt_jobs := AList.delete k (tt_jobs d)\<rparr>"

text \<open>\<^verbatim>\<open>#call\<close>: a host that throws at once has answered with a rejection.\<close>

definition invokeT :: "'w transport_env \<Rightarrow> invocation \<Rightarrow> job \<Rightarrow> 'w carried" where
  "invokeT te i j = withS (\<lambda>d.
     next_act (upd (\<lambda>d. d\<lparr>tt_invoked := tt_invoked d @ [i], tt_next := Suc (tt_next d)\<rparr>))
       (next_act (upd (te_invoke te i)) (upd (enter_job (tt_next d) j))))"

section \<open>The end of an exchange\<close>

definition release_exchange :: "nat \<Rightarrow> 'w transport_scheme \<Rightarrow> 'w transport_scheme" where
  "release_exchange n d = (case exchange_of d n of
       None \<Rightarrow> d
     | Some x \<Rightarrow> if pe_released x then d
         else set_exchange n (x\<lparr>pe_released := True\<rparr>) (d\<lparr>tt_pending := removeAll n (tt_pending d), tt_pendingBytes := tt_pendingBytes d - pe_bytes x\<rparr>))"

definition outcome_is :: "nat \<Rightarrow> transport_fault + ustr \<Rightarrow> 'w transport_scheme \<Rightarrow> 'w transport_scheme" where
  "outcome_is n r d = d\<lparr>tt_outcomes := tt_outcomes d @ [(n, r)]\<rparr>"

definition finish_exchange :: "nat \<Rightarrow> transport_fault + ustr \<Rightarrow> 'w transport_scheme \<Rightarrow> 'w transport_scheme" where
  "finish_exchange n r d = (case exchange_of d n of
       None \<Rightarrow> d
     | Some x \<Rightarrow> if pe_settled x then d
         else let e = outcome_is n r (set_exchange n (x\<lparr>pe_settled := True, pe_frame := None\<rparr>) d) in
           if pe_sent x then e else release_exchange n e)"

definition where_it_is :: "pending_exchange \<Rightarrow> delivery" where
  "where_it_is x = (if pe_sent x then May_Have_Reached_Backend else Not_Sent)"

text \<open>An exchange's \<^verbatim>\<open>abort\<close>.\<close>

definition abort_exchange :: "nat \<Rightarrow> 'w transport_scheme \<Rightarrow> 'w transport_scheme" where
  "abort_exchange n d = (case exchange_of d n of None \<Rightarrow> d | Some x \<Rightarrow> finish_exchange n (Inl (Disconnected, where_it_is x)) d)"

section \<open>Retirement\<close>

definition cleanup :: "'w transport_env \<Rightarrow> nat \<Rightarrow> 'w carried" where
  "cleanup te r = withS (\<lambda>d.
     if rg_cleanupAttempts (reg_of d r) \<ge> 2 then ret ()
     else next_act (upd (set_reg r (\<lambda>x. x\<lparr>rg_cleanupAttempts := rg_cleanupAttempts x + 1, rg_controls := rg_controls x + 1\<rparr>)))
       (invokeT te (Bridge_Unsubscribe (rg_key (reg_of d r))) (Unsubscribing r)))"

definition forget :: "nat \<Rightarrow> 'w transport_scheme \<Rightarrow> 'w transport_scheme" where
  "forget r d = (if rg_retired (reg_of d r) \<and> rg_controls (reg_of d r) = 0 then d\<lparr>tt_registrations := removeAll r (tt_registrations d)\<rparr> else d)"

text \<open>\<^verbatim>\<open>registration.controls--; this.#forget(registration)\<close>.\<close>

definition control_ends :: "nat \<Rightarrow> 'w transport_scheme \<Rightarrow> 'w transport_scheme" where
  "control_ends r d = forget r (set_reg r (\<lambda>x. x\<lparr>rg_controls := rg_controls x - 1\<rparr>) d)"

fun notify_faults :: "'w transport_env \<Rightarrow> transport_fault \<Rightarrow> nat list \<Rightarrow> 'w carried" where
  "notify_faults te f [] = ret ()"
| "notify_faults te f (n # ns) = next_act (upd (te_fault te n f)) (notify_faults te f ns)"

definition inactive :: "nat \<Rightarrow> 'w transport_scheme \<Rightarrow> 'w transport_scheme" where
  "inactive g d = (let e = set_gen g (\<lambda>x. x\<lparr>gn_active := False\<rparr>) d in if tt_generation e = Some g then e\<lparr>tt_generation := None\<rparr> else e)"

definition cancel_timer :: "'w transport_env \<Rightarrow> nat \<Rightarrow> 'w carried" where
  "cancel_timer te g = withS (\<lambda>d. case tt_timer d of
       None \<Rightarrow> ret ()
     | Some t \<Rightarrow> (case map_of (tt_timers d) t of
           None \<Rightarrow> ret ()
         | Some x \<Rightarrow> if tm_generation x \<noteq> g then ret ()
             else next_act (upd (\<lambda>d. d\<lparr>tt_timer := None, tt_timers := AList.update t (x\<lparr>tm_cancelled := True\<rparr>) (tt_timers d)\<rparr>))
               (if tm_cancel x then catchS (te_cancel te t) (ret ()) else ret ())))"

text \<open>The listeners leave, then the exchanges of the generation end.\<close>

definition break_barrier :: "transport_fault \<Rightarrow> barrier \<Rightarrow> barrier" where
  "break_barrier f b = (if b = Closed then Broken f else b)"

definition end_one :: "nat \<Rightarrow> fault_code \<Rightarrow> nat \<Rightarrow> 'w transport_scheme \<Rightarrow> 'w transport_scheme" where
  "end_one g code n d = (case exchange_of d n of
       None \<Rightarrow> d
     | Some x \<Rightarrow> if pe_generation x = g then finish_exchange n (Inl (code, where_it_is x)) d else d)"

definition leave_generation :: "nat \<Rightarrow> transport_fault option \<Rightarrow> 'w transport_scheme \<Rightarrow> 'w transport_scheme" where
  "leave_generation g reason d =
     (let broken = (case reason of None \<Rightarrow> (Disconnected, Not_Sent) | Some f \<Rightarrow> f);
          e = fold silence (gn_listeners (gen_of d g)) (set_gen g (\<lambda>x. x\<lparr>gn_barrier := break_barrier broken (gn_barrier x), gn_listeners := []\<rparr>) d)
      in fold (end_one g (case reason of None \<Rightarrow> Disconnected | Some f \<Rightarrow> fst f)) (tt_pending e) e)"

definition retire :: "'w transport_env \<Rightarrow> nat \<Rightarrow> transport_fault option \<Rightarrow> 'w carried" where
  "retire te g reason = withS (\<lambda>d.
     if \<not> gn_active (gen_of d g) then ret ()
     else next_act (upd (inactive g)) (next_act (cancel_timer te g) (withS (\<lambda>d.
       let leaving = gn_listeners (gen_of d g); r = gn_registration (gen_of d g) in
       next_act (upd (leave_generation g reason))
       (next_act (upd (set_reg r (\<lambda>x. x\<lparr>rg_retired := True\<rparr>)))
       (next_act (cleanup te r)
         (case reason of None \<Rightarrow> ret () | Some f \<Rightarrow> notify_faults te f leaving)))))))"

section \<open>Polling\<close>

definition pollOnce :: "'w transport_env \<Rightarrow> nat \<Rightarrow> 'w carried" where
  "pollOnce te g = withS (\<lambda>d.
     if tt_poll d \<noteq> None \<or> \<not> current d g \<or> \<not> gn_ready (gen_of d g) then ret ()
     else let r = gn_registration (gen_of d g) in
       next_act (upd (\<lambda>d. set_reg r (\<lambda>x. x\<lparr>rg_controls := rg_controls x + 1\<rparr>) (d\<lparr>tt_poll := Some (tt_next d)\<rparr>)))
         (invokeT te (Bridge_Poll (rg_key (reg_of d r))) (Polling g)))"

definition schedule_poll :: "'w transport_env \<Rightarrow> nat \<Rightarrow> nat \<Rightarrow> 'w carried" where
  "schedule_poll te g delay = withS (\<lambda>d. let t = tt_next d in
     next_act (upd (\<lambda>d. d\<lparr>tt_timers := AList.update t \<lparr>tm_generation = g, tm_cancelled = False, tm_cancel = False\<rparr> (tt_timers d), tt_timer := Some t, tt_next := Suc t\<rparr>))
       (catchS
         (next_act (te_schedule te delay t) (withS (\<lambda>d. case map_of (tt_timers d) t of
             None \<Rightarrow> ret ()
           | Some x \<Rightarrow> next_act (upd (\<lambda>d. d\<lparr>tt_timers := AList.update t (x\<lparr>tm_cancel := True\<rparr>) (tt_timers d)\<rparr>))
               (if tm_cancelled x \<or> tt_timer d \<noteq> Some t then te_cancel te t else ret ()))))
         (retire te g (Some (Delivery_Failed, May_Have_Reached_Backend)))))"

text \<open>The callback of a timer.\<close>

definition timer_fires :: "'w transport_env \<Rightarrow> nat \<Rightarrow> 'w carried" where
  "timer_fires te t = withS (\<lambda>d. case map_of (tt_timers d) t of
       None \<Rightarrow> ret ()
     | Some x \<Rightarrow> if tt_timer d \<noteq> Some t \<or> tm_cancelled x then ret ()
         else next_act (upd (\<lambda>d. d\<lparr>tt_timer := None\<rparr>)) (withS (\<lambda>d. if current d (tm_generation x) then pollOnce te (tm_generation x) else ret ())))"

text \<open>An event goes to the subscribers there are at its start, to each as long as it stays and the generation is current.\<close>

fun deliver :: "'w transport_env \<Rightarrow> nat \<Rightarrow> ustr \<Rightarrow> nat list \<Rightarrow> 'w carried" where
  "deliver te g frame [] = ret ()"
| "deliver te g frame (n # ns) = withS (\<lambda>d.
     if \<not> current d g then ret ()
     else if \<not> hears_events d n \<or> n \<notin> set (gn_listeners (gen_of d g)) then deliver te g frame ns
     else next_act (upd (\<lambda>d. d\<lparr>tt_delivered := tt_delivered d @ [(n, frame)]\<rparr>))
       (seq (catchS (next_act (te_event te n frame) (ret True))
           (next_act (retire te g (Some (Delivery_Failed, May_Have_Reached_Backend))) (ret False)))
         (\<lambda>goes_on. if goes_on then deliver te g frame ns else ret ())))"

section \<open>The answers of the host\<close>

text \<open>An answer is a value or, on the left, a rejection; \<open>control_fault\<close> is the common \<^verbatim>\<open>catch\<close>, where what the callback itself threw is no record.\<close>

type_synonym answer = "fv + fv"

definition control_fault :: "'w transport_env \<Rightarrow> nat \<Rightarrow> transport_fault \<Rightarrow> 'w carried" where
  "control_fault te g f = withS (\<lambda>d. if gn_active (gen_of d g) then retire te g (Some f) else ret ())"

definition start_generation :: "'w transport_env \<Rightarrow> nat \<Rightarrow> 'w carried" where
  "start_generation te g = withS (\<lambda>d. let r = gn_registration (gen_of d g) in
     next_act (upd (set_reg r (\<lambda>x. x\<lparr>rg_controls := rg_controls x + 1\<rparr>)))
       (invokeT te (Bridge_Subscribe (rg_key (reg_of d r))) (Subscribing g)))"

definition open_barrier :: "barrier \<Rightarrow> barrier" where
  "open_barrier b = (if b = Closed then Opened else b)"

definition subscription_answered :: "'w transport_env \<Rightarrow> nat \<Rightarrow> heap \<Rightarrow> answer \<Rightarrow> 'w carried" where
  "subscription_answered te g h a = withS (\<lambda>d. let r = gn_registration (gen_of d g) in
     (case a of
        Inl v \<Rightarrow> control_fault te g (invokeFault h v)
      | Inr v \<Rightarrow>
          if \<not> control_acknowledgement h v (rg_key (reg_of d r)) then control_fault te g (invokeFault h FOther)
          else if \<not> current d g \<or> tt_disposed d then cleanup te r
          else next_act (upd (set_gen g (\<lambda>x. x\<lparr>gn_ready := True, gn_barrier := open_barrier (gn_barrier x)\<rparr>))) (pollOnce te g)))"

text \<open>The result is the \<^verbatim>\<open>nextDelay\<close> of the poll.\<close>

definition poll_answered :: "'w transport_env \<Rightarrow> nat \<Rightarrow> heap \<Rightarrow> answer \<Rightarrow> ('w transport_scheme, nat option) act" where
  "poll_answered te g h a = withS (\<lambda>d.
     (case a of
        Inl v \<Rightarrow> next_act (control_fault te g (invokeFault h v)) (ret None)
      | Inr v \<Rightarrow>
          if \<not> current d g then ret None
          else (case pollFrame h v (rg_key (reg_of d (gn_registration (gen_of d g)))) of
              None \<Rightarrow> next_act (control_fault te g (invokeFault h FOther)) (ret None)
            | Some frame \<Rightarrow>
                next_act (case frame of None \<Rightarrow> ret () | Some f \<Rightarrow> deliver te g f (gn_listeners (gen_of d g)))
                (withS (\<lambda>d. ret (if current d g then Some (if frame = None then 100 else 10) else None))))))"

definition sending_answered :: "nat \<Rightarrow> heap \<Rightarrow> answer \<Rightarrow> 'w transport_scheme \<Rightarrow> 'w transport_scheme" where
  "sending_answered n h a d = (case exchange_of d n of
       None \<Rightarrow> d
     | Some x \<Rightarrow>
       (case a of
          Inl v \<Rightarrow> finish_exchange n (Inl (invokeFault h v)) (d\<lparr>tt_reported := tt_reported d @ [(n, invokeFault h v)]\<rparr>)
        | Inr v \<Rightarrow>
            if pe_settled x then d
            else if \<not> current d (pe_generation x) then abort_exchange n d
            else (case (frameBytes v, v) of
                (Some _, FStr reply) \<Rightarrow> finish_exchange n (Inr reply) d
              | _ \<Rightarrow> finish_exchange n (Inl (Delivery_Failed, May_Have_Reached_Backend)) d)))"

text \<open>The callbacks on the barrier, once it is settled.\<close>

definition barrier_passed :: "'w transport_env \<Rightarrow> nat \<Rightarrow> 'w carried" where
  "barrier_passed te n = withS (\<lambda>d. case exchange_of d n of
       None \<Rightarrow> ret ()
     | Some x \<Rightarrow>
         if pe_settled x then ret ()
         else if tt_disposed d \<or> \<not> current d (pe_generation x) \<or> pe_aborted x then upd (abort_exchange n)
         else (case pe_frame x of
             None \<Rightarrow> ret ()
           | Some frame \<Rightarrow> next_act (upd (set_exchange n (x\<lparr>pe_frame := None, pe_sent := True\<rparr>)))
               (invokeT te (Bridge_Exchange n frame) (Sending n))))"

definition barrier_settles :: "'w transport_env \<Rightarrow> nat \<Rightarrow> nat \<Rightarrow> 'w carried" where
  "barrier_settles te k n = withS (\<lambda>d. case exchange_of d n of
       None \<Rightarrow> ret ()
     | Some x \<Rightarrow> (case gn_barrier (gen_of d (pe_generation x)) of
           Closed \<Rightarrow> ret ()
         | Opened \<Rightarrow> next_act (upd (end_job k)) (barrier_passed te n)
         | Broken f \<Rightarrow> upd (\<lambda>d. finish_exchange n (Inl (fst f, Not_Sent)) (end_job k d))))"

section \<open>The methods\<close>

text \<open>\<open>subscribe\<close> returns the number of the subscriber, or nothing when its result is a function that does nothing.\<close>

definition subscription_refused :: "'w transport_scheme \<Rightarrow> bool" where
  "subscription_refused d \<longleftrightarrow> tt_disposed d
     \<or> (case tt_generation d of None \<Rightarrow> tt_poll d \<noteq> None \<or> length (tt_registrations d) \<ge> MAX_REGISTRATIONS
        | Some g \<Rightarrow> length (gn_listeners (gen_of d g)) \<ge> MAX_SUBSCRIBERS)"

definition begin_generation :: "ustr \<Rightarrow> registration_keys \<Rightarrow> 'w transport_scheme \<Rightarrow> 'w transport_scheme" where
  "begin_generation key keys d = (let r = tt_next d; g = Suc r in
     d\<lparr>tt_keys := keys, tt_next := Suc g, tt_registrations := tt_registrations d @ [r],
       tt_regs := AList.update r \<lparr>rg_key = key, rg_retired = False, rg_controls = 0, rg_cleanupAttempts = 0\<rparr> (tt_regs d),
       tt_generations := AList.update g \<lparr>gn_registration = r, gn_active = True, gn_ready = False, gn_listeners = [], gn_barrier = Closed\<rparr> (tt_generations d),
       tt_generation := Some g\<rparr>)"

definition join_generation :: "nat \<Rightarrow> nat \<Rightarrow> 'w transport_scheme \<Rightarrow> 'w transport_scheme" where
  "join_generation n g d = set_gen g (\<lambda>x. x\<lparr>gn_listeners := gn_listeners x @ [n]\<rparr>)
     (d\<lparr>tt_subscribers := AList.update n \<lparr>su_active = True, su_generation = g\<rparr> (tt_subscribers d), tt_next := Suc n\<rparr>)"

definition listen_to :: "'w transport_env \<Rightarrow> nat \<Rightarrow> ('w transport_scheme, nat option) act" where
  "listen_to te g = withS (\<lambda>d. let n = tt_next d in
     next_act (upd (join_generation n g)) (withS (\<lambda>d. let x = gen_of d g in
     next_act (if length (gn_listeners x) = 1 \<and> \<not> gn_ready x \<and> rg_controls (reg_of d (gn_registration x)) = 0 then start_generation te g else ret ())
       (ret (Some n)))))"

definition transport_subscribe :: "'w transport_env \<Rightarrow> ('w transport_scheme, nat option) act" where
  "transport_subscribe te = withS (\<lambda>d.
     if subscription_refused d then
       next_act (upd (\<lambda>d. te_fault te (tt_next d) (if tt_disposed d then Unavailable_Binding else Disconnected, Not_Sent) (d\<lparr>tt_next := Suc (tt_next d)\<rparr>))) (ret None)
     else (case tt_generation d of
         Some g \<Rightarrow> listen_to te g
       | None \<Rightarrow> (case allocate_key (tt_keys d) of
             Inl _ \<Rightarrow> next_act (upd (\<lambda>d. te_fault te (tt_next d) (Unavailable_Binding, Not_Sent) (d\<lparr>tt_next := Suc (tt_next d)\<rparr>))) (ret None)
           | Inr (key, keys) \<Rightarrow> next_act (upd (begin_generation key keys)) (listen_to te (Suc (tt_next d))))))"

definition transport_unsubscribe :: "'w transport_env \<Rightarrow> nat \<Rightarrow> 'w carried" where
  "transport_unsubscribe te n = withS (\<lambda>d. case subscriber_of d n of
       None \<Rightarrow> ret ()
     | Some x \<Rightarrow> if \<not> su_active x then ret ()
         else next_act (upd (\<lambda>d. set_gen (su_generation x) (\<lambda>y. y\<lparr>gn_listeners := removeAll n (gn_listeners y)\<rparr>) (silence n d)))
           (withS (\<lambda>d. let y = gen_of d (su_generation x) in
             if gn_active y \<and> gn_listeners y = [] then retire te (su_generation x) None else ret ())))"

text \<open>An exchange that is refused has an outcome and nothing else.\<close>

definition refuse_exchange :: "transport_fault \<Rightarrow> 'w transport_scheme \<Rightarrow> 'w transport_scheme" where
  "refuse_exchange f d = outcome_is (tt_next d) (Inl f) (d\<lparr>tt_next := Suc (tt_next d)\<rparr>)"

definition enter_exchange :: "nat \<Rightarrow> nat \<Rightarrow> ustr \<Rightarrow> bool \<Rightarrow> 'w transport_scheme \<Rightarrow> 'w transport_scheme" where
  "enter_exchange g b request aborted d = (let n = tt_next d in
     set_exchange n \<lparr>pe_generation = g, pe_bytes = b, pe_frame = Some request, pe_sent = False, pe_settled = False, pe_released = False, pe_aborted = aborted\<rparr>
       (d\<lparr>tt_pending := tt_pending d @ [n], tt_pendingBytes := tt_pendingBytes d + b, tt_next := Suc n\<rparr>))"

definition transport_exchange :: "ustr \<Rightarrow> bool \<Rightarrow> 'w transport_scheme \<Rightarrow> 'w transport_scheme" where
  "transport_exchange request aborted d = (case tt_generation d of
       None \<Rightarrow> refuse_exchange (Unavailable_Binding, Not_Sent) d
     | Some g \<Rightarrow>
         if tt_disposed d \<or> \<not> gn_active (gen_of d g) then refuse_exchange (Unavailable_Binding, Not_Sent) d
         else if aborted then refuse_exchange (Disconnected, Not_Sent) d
         else (case frameBytes (FStr request) of
             None \<Rightarrow> refuse_exchange (Delivery_Failed, Not_Sent) d
           | Some b \<Rightarrow>
               if length (tt_pending d) \<ge> MAX_REQUESTS \<or> tt_pendingBytes d + b > MAX_REQUEST_BYTES then refuse_exchange (Delivery_Failed, Not_Sent) d
               else let n = tt_next d; e = enter_exchange g b request aborted d in
                 if aborted then abort_exchange n e else enter_job (tt_next e) (Barrier n) (e\<lparr>tt_next := Suc (tt_next e)\<rparr>)))"

text \<open>The caller's signal: its listener is there until the exchange is settled.\<close>

definition signal_aborts :: "nat \<Rightarrow> 'w transport_scheme \<Rightarrow> 'w transport_scheme" where
  "signal_aborts n d = (case exchange_of d n of
       None \<Rightarrow> d
     | Some x \<Rightarrow> if pe_aborted x then d
         else let e = set_exchange n (x\<lparr>pe_aborted := True\<rparr>) d in if pe_settled x then e else abort_exchange n e)"

definition transport_dispose :: "'w transport_env \<Rightarrow> 'w carried" where
  "transport_dispose te = withS (\<lambda>d. if tt_disposed d then ret ()
     else next_act (upd (\<lambda>d. d\<lparr>tt_disposed := True\<rparr>))
       (case tt_generation d of None \<Rightarrow> ret () | Some g \<Rightarrow> retire te g None))"

text \<open>The phase that \<^verbatim>\<open>state\<close> reports; its counts are the sizes of the fields.\<close>

definition transport_phase :: "'w transport_scheme \<Rightarrow> string" where
  "transport_phase d = (if tt_disposed d then ''disposed'' else case tt_generation d of
       None \<Rightarrow> ''idle'' | Some g \<Rightarrow> if gn_ready (gen_of d g) then ''ready'' else ''starting'')"

section \<open>Steps\<close>

datatype transport_move =
    Tauri_Subscribe
  | Tauri_Unsubscribe nat
  | Tauri_Exchange ustr bool
  | Tauri_Abort nat
  | Tauri_Dispose
  | Tauri_Timer nat
  | Tauri_Answer nat heap answer
  | Tauri_Turn nat

definition answer_arrives :: "'w transport_env \<Rightarrow> nat \<Rightarrow> heap \<Rightarrow> answer \<Rightarrow> job \<Rightarrow> 'w carried" where
  "answer_arrives te k h a j = (case j of
       Subscribing g \<Rightarrow> withS (\<lambda>d. next_act (upd (end_job k)) (next_act (subscription_answered te g h a)
         (upd (enter_job k (Control_Ended (gn_registration (gen_of d g)))))))
     | Polling g \<Rightarrow> next_act (upd (end_job k)) (seq (poll_answered te g h a) (\<lambda>delay. upd (enter_job k (Poll_Ended g delay))))
     | Unsubscribing r \<Rightarrow> upd (\<lambda>d. enter_job k (Control_Ended r) (end_job k d))
     | Sending n \<Rightarrow> upd (\<lambda>d. enter_job k (Sending_Ended n) (sending_answered n h a (end_job k d)))
     | _ \<Rightarrow> ret ())"

text \<open>The callbacks that run in a turn of their own: the two of the barrier and the \<^verbatim>\<open>finally\<close> of a job.\<close>

definition turned :: "'w transport_env \<Rightarrow> nat \<Rightarrow> job \<Rightarrow> 'w carried" where
  "turned te k j = (case j of
       Barrier n \<Rightarrow> barrier_settles te k n
     | Control_Ended r \<Rightarrow> upd (\<lambda>d. control_ends r (end_job k d))
     | Sending_Ended n \<Rightarrow> upd (\<lambda>d. release_exchange n (end_job k d))
     | Poll_Ended g delay \<Rightarrow>
         next_act (upd (\<lambda>d. control_ends (gn_registration (gen_of d g))
             (let e = end_job k d in if tt_poll e = Some k then e\<lparr>tt_poll := None\<rparr> else e)))
           (withS (\<lambda>d. case delay of None \<Rightarrow> ret () | Some n \<Rightarrow> if current d g then schedule_poll te g n else ret ()))
     | _ \<Rightarrow> ret ())"

definition transport_act :: "'w transport_env \<Rightarrow> transport_move \<Rightarrow> 'w carried" where
  "transport_act te m = (case m of
       Tauri_Subscribe \<Rightarrow> seq (transport_subscribe te) (\<lambda>_. ret ())
     | Tauri_Unsubscribe n \<Rightarrow> transport_unsubscribe te n
     | Tauri_Exchange request aborted \<Rightarrow> upd (transport_exchange request aborted)
     | Tauri_Abort n \<Rightarrow> upd (signal_aborts n)
     | Tauri_Dispose \<Rightarrow> transport_dispose te
     | Tauri_Timer t \<Rightarrow> timer_fires te t
     | Tauri_Answer k h a \<Rightarrow> withS (\<lambda>d. case map_of (tt_jobs d) k of None \<Rightarrow> ret () | Some j \<Rightarrow> answer_arrives te k h a j)
     | Tauri_Turn k \<Rightarrow> withS (\<lambda>d. case map_of (tt_jobs d) k of None \<Rightarrow> ret () | Some j \<Rightarrow> turned te k j))"

definition transport_step :: "'w transport_env \<Rightarrow> transport_move \<Rightarrow> 'w transport_scheme \<Rightarrow> 'w transport_scheme" where
  "transport_step te m d = snd (transport_act te m d)"

end
