(* ===== verification/Tauri_Kept.thy ===== *)
theory Tauri_Kept imports Tauri_Transport Js_Kept begin

text \<open>
  What every step of the desktop transport keeps: which exchanges are pending and what they weigh, that an outcome that says that
  nothing was sent is true, that one poll is in flight, and that only an active subscriber of the current generation is told of an event.
\<close>

section \<open>The invariant\<close>

text \<open>Jobs: a number stands for one job, and a poll's job for the poll in flight.\<close>

fun poll_job :: "job \<Rightarrow> bool" where
  "poll_job (Polling g) = True"
| "poll_job (Poll_Ended g delay) = True"
| "poll_job _ = False"

definition jobs_ok :: "'w transport_scheme \<Rightarrow> bool" where
  "jobs_ok d \<longleftrightarrow> distinct (map fst (tt_jobs d))
     \<and> (\<forall>k j. (k, j) \<in> set (tt_jobs d) \<longrightarrow> k < tt_next d \<and> (poll_job j \<longrightarrow> tt_poll d = Some k))
     \<and> (\<forall>k. tt_poll d = Some k \<longrightarrow> k < tt_next d)"

definition jobs_le :: "'w transport_scheme \<Rightarrow> 'w transport_scheme \<Rightarrow> bool" where
  "jobs_le d e \<longleftrightarrow> tt_next d \<le> tt_next e
     \<and> (\<forall>k < tt_next d. k \<notin> fst ` set (tt_jobs d) \<longrightarrow> k \<notin> fst ` set (tt_jobs e) \<and> (tt_poll d = Some k \<longrightarrow> tt_poll e = Some k))"

text \<open>Exchanges: those that hold the quota, and what their outcomes say.\<close>

definition exchange_bytes :: "'w transport_scheme \<Rightarrow> nat \<Rightarrow> nat" where
  "exchange_bytes d n = (case exchange_of d n of None \<Rightarrow> 0 | Some x \<Rightarrow> pe_bytes x)"

definition pending_ok :: "'w transport_scheme \<Rightarrow> bool" where
  "pending_ok d \<longleftrightarrow> distinct (tt_pending d) \<and> length (tt_pending d) \<le> MAX_REQUESTS
     \<and> tt_pendingBytes d = sum_list (map (exchange_bytes d) (tt_pending d)) \<and> tt_pendingBytes d \<le> MAX_REQUEST_BYTES
     \<and> (\<forall>n. n \<in> set (tt_pending d) \<longleftrightarrow> (\<exists>x. exchange_of d n = Some x \<and> \<not> pe_released x))"

definition handed :: "'w transport_scheme \<Rightarrow> nat \<Rightarrow> nat" where
  "handed d n = length (filter (\<lambda>i. case i of Bridge_Exchange m _ \<Rightarrow> m = n | _ \<Rightarrow> False) (tt_invoked d))"

definition exchange_ok :: "'w transport_scheme \<Rightarrow> nat \<Rightarrow> pending_exchange \<Rightarrow> bool" where
  "exchange_ok d n x \<longleftrightarrow> n < tt_next d \<and> (pe_released x \<longrightarrow> pe_settled x) \<and> (pe_settled x \<and> \<not> pe_sent x \<longrightarrow> pe_released x)
     \<and> (pe_frame x \<noteq> None \<longrightarrow> \<not> pe_sent x) \<and> (pe_settled x \<longleftrightarrow> n \<in> fst ` set (tt_outcomes d)) \<and> handed d n = (if pe_sent x then 1 else 0)
     \<and> (\<forall>c. pe_sent x \<and> (n, Inl (c, Not_Sent)) \<in> set (tt_outcomes d) \<longrightarrow> (n, (c, Not_Sent)) \<in> set (tt_reported d))"

fun sends :: "job \<Rightarrow> nat option" where
  "sends (Sending n) = Some n"
| "sends (Sending_Ended n) = Some n"
| "sends (Barrier n) = Some n"
| "sends _ = None"

definition exchanges_ok :: "'w transport_scheme \<Rightarrow> bool" where
  "exchanges_ok d \<longleftrightarrow> distinct (map fst (tt_outcomes d)) \<and> (\<forall>n \<in> fst ` set (tt_outcomes d). n < tt_next d)
     \<and> (\<forall>n x. exchange_of d n = Some x \<longrightarrow> exchange_ok d n x) \<and> (\<forall>n. exchange_of d n = None \<longrightarrow> handed d n = 0)
     \<and> (\<forall>k j n. (k, j) \<in> set (tt_jobs d) \<and> sends j = Some n \<longrightarrow> n < tt_next d)
     \<and> (\<forall>k n x. (k, Sending_Ended n) \<in> set (tt_jobs d) \<and> exchange_of d n = Some x \<longrightarrow> pe_settled x)
     \<and> (\<forall>k n. (k, Barrier n) \<in> set (tt_jobs d) \<longrightarrow> k = Suc n \<and> (\<forall>x. exchange_of d n = Some x \<longrightarrow> \<not> pe_sent x))"

text \<open>Exchanges that are not settled although their generation is over; there are some only while a generation retires.\<close>

definition stranded :: "'w transport_scheme \<Rightarrow> nat set" where
  "stranded d = {n. \<exists>x. exchange_of d n = Some x \<and> \<not> pe_settled x \<and> \<not> gn_active (gen_of d (pe_generation x))}"

definition exchanges_le :: "'w transport_scheme \<Rightarrow> 'w transport_scheme \<Rightarrow> bool" where
  "exchanges_le d e \<longleftrightarrow> (\<forall>n < tt_next d. (exchange_of d n = None \<longrightarrow> exchange_of e n = None)
       \<and> (\<forall>x. exchange_of d n = Some x \<longrightarrow> (\<exists>y. exchange_of e n = Some y \<and> pe_generation y = pe_generation x
           \<and> (pe_settled x \<longrightarrow> pe_settled y \<and> pe_sent y = pe_sent x))))
     \<and> (\<exists>zs. tt_outcomes e = tt_outcomes d @ zs)"

text \<open>Generations and their subscribers.\<close>

definition generations_ok :: "'w transport_scheme \<Rightarrow> bool" where
  "generations_ok d \<longleftrightarrow> (\<forall>g. gn_active (gen_of d g) \<longleftrightarrow> tt_generation d = Some g) \<and> (\<forall>g. tt_generation d = Some g \<longrightarrow> g < tt_next d)
     \<and> (tt_disposed d \<longrightarrow> tt_generation d = None) \<and> length (tt_registrations d) \<le> MAX_REGISTRATIONS
     \<and> (\<forall>g. length (gn_listeners (gen_of d g)) \<le> MAX_SUBSCRIBERS)
     \<and> (\<forall>g n. n \<in> set (gn_listeners (gen_of d g)) \<longrightarrow> (\<exists>x. subscriber_of d n = Some x \<and> su_generation x = g))
     \<and> (\<forall>n x. subscriber_of d n = Some x \<longrightarrow> n < tt_next d \<and> su_generation x < tt_next d)"

definition generations_le :: "'w transport_scheme \<Rightarrow> 'w transport_scheme \<Rightarrow> bool" where
  "generations_le d e \<longleftrightarrow> (\<forall>g < tt_next d. \<not> gn_active (gen_of d g) \<longrightarrow> \<not> gn_active (gen_of e g)) \<and> (tt_disposed d \<longrightarrow> tt_disposed e)"

definition events_of :: "'w transport_scheme \<Rightarrow> nat \<Rightarrow> (nat \<times> ustr) list" where
  "events_of d n = filter (\<lambda>p. fst p = n) (tt_delivered d)"

definition subscribers_le :: "'w transport_scheme \<Rightarrow> 'w transport_scheme \<Rightarrow> bool" where
  "subscribers_le d e \<longleftrightarrow> (\<forall>n x. n < tt_next d \<and> subscriber_of d n = Some x \<and> su_generation x < tt_next d \<longrightarrow>
       (\<exists>y. subscriber_of e n = Some y \<and> su_generation y = su_generation x \<and> (su_active y \<longrightarrow> su_active x))
     \<and> (\<not> su_active x \<or> \<not> gn_active (gen_of d (su_generation x)) \<longrightarrow> events_of e n = events_of d n))"

definition transport_ok :: "'w transport_scheme \<Rightarrow> bool" where
  "transport_ok d \<longleftrightarrow> jobs_ok d \<and> pending_ok d \<and> exchanges_ok d \<and> generations_ok d"

text \<open>The order without the last clause is what the parts of a retirement keep.\<close>

definition transport_grows :: "'w transport_scheme \<Rightarrow> 'w transport_scheme \<Rightarrow> bool" where
  "transport_grows d e \<longleftrightarrow> jobs_le d e \<and> exchanges_le d e \<and> generations_le d e \<and> subscribers_le d e"

definition transport_le :: "'w transport_scheme \<Rightarrow> 'w transport_scheme \<Rightarrow> bool" where
  "transport_le d e \<longleftrightarrow> transport_grows d e \<and> stranded e \<subseteq> stranded d"

section \<open>The orders\<close>

lemma grows_refl: "transport_grows d d"
  by (simp add: transport_grows_def jobs_le_def exchanges_le_def generations_le_def subscribers_le_def)

lemma exchanges_le_trans: "tt_next a \<le> tt_next b \<Longrightarrow> exchanges_le a b \<Longrightarrow> exchanges_le b c \<Longrightarrow> exchanges_le a c"
proof -
  assume n: "tt_next a \<le> tt_next b" and ab: "exchanges_le a b" and bc: "exchanges_le b c"
  have each: "(exchange_of a n = None \<longrightarrow> exchange_of c n = None) \<and> (\<forall>x. exchange_of a n = Some x \<longrightarrow> (\<exists>y. exchange_of c n = Some y
      \<and> pe_generation y = pe_generation x \<and> (pe_settled x \<longrightarrow> pe_settled y \<and> pe_sent y = pe_sent x)))" if "n < tt_next a" for n
    using that less_le_trans [OF that n] ab bc unfolding exchanges_le_def by (cases "exchange_of a n") fastforce+
  obtain ys zs where "tt_outcomes b = tt_outcomes a @ ys" "tt_outcomes c = tt_outcomes b @ zs"
    using ab bc unfolding exchanges_le_def by blast
  then have "tt_outcomes c = tt_outcomes a @ (ys @ zs)" by simp
  with each show ?thesis unfolding exchanges_le_def by blast
qed

lemma subscribers_le_trans:
  assumes "tt_next a \<le> tt_next b" "generations_le a b" "subscribers_le a b" "subscribers_le b c"
  shows "subscribers_le a c"
  unfolding subscribers_le_def
proof (intro allI impI)
  fix n x assume n: "n < tt_next a \<and> subscriber_of a n = Some x \<and> su_generation x < tt_next a"
  then obtain y where y: "subscriber_of b n = Some y" "su_generation y = su_generation x" "su_active y \<Longrightarrow> su_active x"
    and hy: "\<not> su_active x \<or> \<not> gn_active (gen_of a (su_generation x)) \<Longrightarrow> events_of b n = events_of a n"
    using assms(3) unfolding subscribers_le_def by blast
  have nb: "n < tt_next b" "su_generation y < tt_next b" using n y(2) assms(1) by auto
  then obtain z where z: "subscriber_of c n = Some z" "su_generation z = su_generation y" "su_active z \<Longrightarrow> su_active y"
    and hz: "\<not> su_active y \<or> \<not> gn_active (gen_of b (su_generation y)) \<Longrightarrow> events_of c n = events_of b n"
    using assms(4) y(1) unfolding subscribers_le_def by blast
  have "\<not> gn_active (gen_of a (su_generation x)) \<Longrightarrow> \<not> gn_active (gen_of b (su_generation y))"
    using assms(2) n y(2) by (simp add: generations_le_def)
  then show "(\<exists>z. subscriber_of c n = Some z \<and> su_generation z = su_generation x \<and> (su_active z \<longrightarrow> su_active x))
      \<and> (\<not> su_active x \<or> \<not> gn_active (gen_of a (su_generation x)) \<longrightarrow> events_of c n = events_of a n)"
    using y z hy hz by auto
qed

lemma grows_trans: "transport_grows a b \<Longrightarrow> transport_grows b c \<Longrightarrow> transport_grows a c"
proof -
  assume g: "transport_grows a b" "transport_grows b c"
  then have n: "tt_next a \<le> tt_next b" by (simp add: transport_grows_def jobs_le_def)
  have "jobs_le a c" using g by (auto simp: transport_grows_def jobs_le_def)
  moreover have "generations_le a c" using g n by (auto simp: transport_grows_def generations_le_def)
  ultimately show ?thesis
    using g n exchanges_le_trans [of a b c] subscribers_le_trans [of a b c] by (simp add: transport_grows_def)
qed

interpretation tauri: keeping transport_ok transport_le
proof
  show "transport_le d d" for d :: "'a transport_scheme" by (simp add: transport_le_def grows_refl)
  show "transport_le a b \<Longrightarrow> transport_le b c \<Longrightarrow> transport_le a c" for a b c :: "'a transport_scheme"
    unfolding transport_le_def using grows_trans by blast
qed

section \<open>What an update leaves alone\<close>

definition same_jobs :: "'w transport_scheme \<Rightarrow> 'w transport_scheme \<Rightarrow> bool" where
  "same_jobs d e \<longleftrightarrow> tt_jobs e = tt_jobs d \<and> tt_poll e = tt_poll d"

definition same_pending :: "'w transport_scheme \<Rightarrow> 'w transport_scheme \<Rightarrow> bool" where
  "same_pending d e \<longleftrightarrow> tt_exchanges e = tt_exchanges d \<and> tt_pending e = tt_pending d \<and> tt_pendingBytes e = tt_pendingBytes d"

definition same_exchanges :: "'w transport_scheme \<Rightarrow> 'w transport_scheme \<Rightarrow> bool" where
  "same_exchanges d e \<longleftrightarrow> tt_exchanges e = tt_exchanges d \<and> tt_outcomes e = tt_outcomes d
     \<and> set (tt_reported d) \<subseteq> set (tt_reported e) \<and> (\<forall>n. handed e n = handed d n)
     \<and> (\<forall>k j n. (k, j) \<in> set (tt_jobs e) \<and> sends j = Some n \<longrightarrow> (k, j) \<in> set (tt_jobs d))"

definition same_generations :: "'w transport_scheme \<Rightarrow> 'w transport_scheme \<Rightarrow> bool" where
  "same_generations d e \<longleftrightarrow> tt_generation e = tt_generation d \<and> (\<forall>g. gn_active (gen_of e g) = gn_active (gen_of d g)
       \<and> gn_listeners (gen_of e g) = gn_listeners (gen_of d g))
     \<and> tt_disposed e = tt_disposed d \<and> length (tt_registrations e) \<le> length (tt_registrations d)
     \<and> tt_subscribers e = tt_subscribers d \<and> tt_delivered e = tt_delivered d"

lemma jobs_same: "same_jobs d e \<Longrightarrow> tt_next d \<le> tt_next e \<Longrightarrow> jobs_ok d \<Longrightarrow> jobs_ok e \<and> jobs_le d e"
  by (auto simp: same_jobs_def jobs_ok_def jobs_le_def dest: less_le_trans)

lemma pending_same: "same_pending d e \<Longrightarrow> pending_ok d \<Longrightarrow> pending_ok e"
  by (simp add: same_pending_def pending_ok_def exchange_of_def exchange_bytes_def [abs_def])

lemma exchange_of_same: "tt_exchanges e = tt_exchanges d \<Longrightarrow> exchange_of e n = exchange_of d n"
  by (simp add: exchange_of_def)

lemma subscriber_of_same: "tt_subscribers e = tt_subscribers d \<Longrightarrow> subscriber_of e n = subscriber_of d n"
  by (simp add: subscriber_of_def)

lemma gen_of_same: "tt_generations e = tt_generations d \<Longrightarrow> gen_of e g = gen_of d g"
  by (simp add: gen_of_def)

lemma exchange_ok_same:
  "exchange_ok d n x \<Longrightarrow> tt_outcomes e = tt_outcomes d \<Longrightarrow> set (tt_reported d) \<subseteq> set (tt_reported e) \<Longrightarrow> handed e n = handed d n
    \<Longrightarrow> tt_next d \<le> tt_next e \<Longrightarrow> exchange_ok e n x"
  by (auto simp: exchange_ok_def)

lemma exchanges_same:
  assumes "same_exchanges d e" "tt_next d \<le> tt_next e" "exchanges_ok d"
  shows "exchanges_ok e \<and> exchanges_le d e"
proof -
  have x: "exchange_of e n = exchange_of d n" for n using assms(1) by (intro exchange_of_same) (simp add: same_exchanges_def)
  have "exchange_ok e n y" if "exchange_of d n = Some y" for n y
    using exchange_ok_same [of d n y e] assms that by (simp add: same_exchanges_def exchanges_ok_def)
  moreover have "pe_settled y" if "(k, Sending_Ended n) \<in> set (tt_jobs e)" "exchange_of d n = Some y" for k n y
    using that assms(1,3) unfolding same_exchanges_def exchanges_ok_def by (meson sends.simps(2))
  moreover have "n < tt_next e" if "(k, j) \<in> set (tt_jobs e)" "sends j = Some n" for k j n
    using that assms unfolding same_exchanges_def exchanges_ok_def by (meson less_le_trans)
  moreover have "k = Suc n \<and> (\<forall>x. exchange_of d n = Some x \<longrightarrow> \<not> pe_sent x)" if "(k, Barrier n) \<in> set (tt_jobs e)" for k n
    using that assms(1,3) unfolding same_exchanges_def exchanges_ok_def by (meson sends.simps(3))
  ultimately have "exchanges_ok e" using assms x unfolding exchanges_ok_def same_exchanges_def by (auto dest: less_le_trans)
  then show ?thesis using assms(1) x by (simp add: exchanges_le_def same_exchanges_def)
qed

lemma generations_same:
  assumes "same_generations d e" "tt_next d \<le> tt_next e" "generations_ok d"
  shows "generations_ok e \<and> generations_le d e \<and> subscribers_le d e"
proof -
  have s: "subscriber_of e n = subscriber_of d n" for n using assms(1) by (intro subscriber_of_same) (simp add: same_generations_def)
  have up: "k < tt_next d \<Longrightarrow> k < tt_next e" for k using assms(2) by simp
  have "generations_ok e" using assms(1,3) s up unfolding generations_ok_def same_generations_def by auto
  then show ?thesis using assms(1) s by (simp add: generations_le_def subscribers_le_def same_generations_def events_of_def)
qed

lemma stranded_same: "tt_exchanges e = tt_exchanges d \<Longrightarrow> (\<And>g. gn_active (gen_of e g) = gn_active (gen_of d g)) \<Longrightarrow> stranded e = stranded d"
  by (simp add: stranded_def exchange_of_same [of e d])

text \<open>An update of none of the fields that the invariant speaks of.\<close>

lemma transport_same:
  assumes "transport_ok d" "tt_next d \<le> tt_next e" "same_jobs d e" "same_pending d e" "same_exchanges d e" "same_generations d e"
  shows "transport_ok e \<and> transport_le d e"
proof -
  have "stranded e = stranded d" using assms(5,6) by (intro stranded_same) (simp_all add: same_exchanges_def same_generations_def)
  then show ?thesis using assms jobs_same [of d e] pending_same [of d e] exchanges_same [of d e] generations_same [of d e]
    by (simp add: transport_ok_def transport_le_def transport_grows_def)
qed

lemmas same_defs = same_jobs_def same_pending_def same_exchanges_def same_generations_def

lemma set_reg_keeps: "transport_ok d \<Longrightarrow> transport_ok (set_reg r f d) \<and> transport_le d (set_reg r f d)"
  by (rule transport_same) (simp_all add: same_defs set_reg_def handed_def gen_of_def)

lemma forget_keeps: "transport_ok d \<Longrightarrow> transport_ok (forget r d) \<and> transport_le d (forget r d)"
  by (rule transport_same) (simp_all add: same_defs forget_def handed_def gen_of_def removeAll_filter_not_eq)

lemma control_ends_keeps: "transport_ok d \<Longrightarrow> transport_ok (control_ends r d) \<and> transport_le d (control_ends r d)"
  unfolding control_ends_def using set_reg_keeps forget_keeps tauri.le_trans by blast

section \<open>Exchanges\<close>

lemma exchange_of_set: "exchange_of (set_exchange n x d) m = (if m = n then Some x else exchange_of d m)"
  by (simp add: exchange_of_def set_exchange_def update_conv)

lemma set_exchange_fields:
  "tt_pending (set_exchange n x d) = tt_pending d" "tt_pendingBytes (set_exchange n x d) = tt_pendingBytes d"
  "tt_outcomes (set_exchange n x d) = tt_outcomes d" "tt_reported (set_exchange n x d) = tt_reported d" "handed (set_exchange n x d) m = handed d m"
  "tt_next (set_exchange n x d) = tt_next d" "tt_jobs (set_exchange n x d) = tt_jobs d" "gen_of (set_exchange n x d) g = gen_of d g"
  by (simp_all add: set_exchange_def handed_def gen_of_def)

lemma pending_set:
  assumes "pending_ok d" "exchange_of d n = Some x" "pe_bytes y = pe_bytes x" "pe_released y = pe_released x"
  shows "pending_ok (set_exchange n y d)"
proof -
  have "exchange_bytes (set_exchange n y d) = exchange_bytes d" using assms(2,3) by (auto simp: exchange_bytes_def exchange_of_set)
  then show ?thesis using assms by (auto simp: pending_ok_def exchange_of_set set_exchange_fields)
qed

lemma pending_release:
  assumes "pending_ok d" "exchange_of d n = Some x"
  shows "pending_ok (release_exchange n d)"
proof (cases "pe_released x")
  case True
  then show ?thesis using assms by (simp add: release_exchange_def)
next
  case False
  let ?e = "release_exchange n d"
  have n: "n \<in> set (tt_pending d)" "distinct (tt_pending d)" using assms False by (auto simp: pending_ok_def)
  have b: "exchange_bytes ?e m = exchange_bytes d m" for m
    using assms(2) False by (simp add: release_exchange_def exchange_bytes_def exchange_of_def set_exchange_def update_conv)
  have sum: "tt_pendingBytes d = pe_bytes x + sum_list (map (exchange_bytes d) (removeAll n (tt_pending d)))"
    using assms sum_list_map_remove1 [OF n(1), of "exchange_bytes d"] distinct_remove1_removeAll [OF n(2), of n]
    by (simp add: pending_ok_def exchange_bytes_def)
  have e: "?e = set_exchange n (x\<lparr>pe_released := True\<rparr>) (d\<lparr>tt_pending := removeAll n (tt_pending d), tt_pendingBytes := tt_pendingBytes d - pe_bytes x\<rparr>)"
    using assms(2) False by (simp add: release_exchange_def)
  have f: "tt_pending ?e = removeAll n (tt_pending d)" "tt_pendingBytes ?e = tt_pendingBytes d - pe_bytes x"
    by (simp_all add: e set_exchange_fields)
  have x: "exchange_of ?e m = (if m = n then Some (x\<lparr>pe_released := True\<rparr>) else exchange_of d m)" for m
    by (simp add: e exchange_of_set) (simp add: exchange_of_def)
  have l: "length (removeAll n (tt_pending d)) \<le> MAX_REQUESTS"
    unfolding removeAll_filter_not_eq by (rule le_trans [OF length_filter_le]) (use assms(1) in \<open>simp add: pending_ok_def\<close>)
  have "exchange_bytes ?e = exchange_bytes d" using b by (rule ext)
  then show ?thesis
    using assms(1) sum l unfolding pending_ok_def f x by (auto simp: distinct_removeAll)
qed

text \<open>Every change of an exchange: its new fields, and the outcome when it settles.\<close>

definition exchange_after :: "nat \<Rightarrow> pending_exchange \<Rightarrow> pending_exchange \<Rightarrow> 'w transport_scheme \<Rightarrow> 'w transport_scheme \<Rightarrow> bool" where
  "exchange_after n x y d e \<longleftrightarrow> exchange_of d n = Some x \<and> (\<forall>m. exchange_of e m = (if m = n then Some y else exchange_of d m))
     \<and> pe_generation y = pe_generation x \<and> (pe_settled x \<longrightarrow> pe_settled y \<and> pe_sent y = pe_sent x)
     \<and> (\<exists>zs. tt_outcomes e = tt_outcomes d @ zs \<and> (\<forall>z \<in> set zs. fst z = n))
     \<and> tt_reported e = tt_reported d \<and> tt_next e = tt_next d \<and> (\<forall>m. m \<noteq> n \<longrightarrow> handed e m = handed d m)"

lemma exchange_after_keeps:
  assumes ok: "transport_ok d" and after: "exchange_after n x y d e" and y: "exchange_ok e n y"
    and "distinct (map fst (tt_outcomes e))" "pending_ok e" "same_jobs d e" "same_generations d e"
    and sent: "pe_sent y \<Longrightarrow> pe_sent x \<or> (\<forall>k. (k, Barrier n) \<notin> set (tt_jobs d))"
  shows "transport_ok e \<and> transport_grows d e \<and> stranded e = (if pe_settled y then stranded d - {n} else stranded d)"
proof -
  obtain zs where zs: "tt_outcomes e = tt_outcomes d @ zs" "\<And>z. z \<in> set zs \<Longrightarrow> fst z = n" using after unfolding exchange_after_def by blast
  have x: "exchange_of d n = Some x" and e: "exchange_of e m = (if m = n then Some y else exchange_of d m)"
    and g: "pe_generation y = pe_generation x" "pe_settled x \<Longrightarrow> pe_settled y \<and> pe_sent y = pe_sent x"
    and r: "tt_reported e = tt_reported d" "tt_next e = tt_next d" "m \<noteq> n \<Longrightarrow> handed e m = handed d m" for m
    using after unfolding exchange_after_def by simp_all
  have ex: "exchanges_ok d" and n: "n < tt_next d" using ok x unfolding transport_ok_def exchanges_ok_def exchange_ok_def by auto
  have "exchange_ok e m z" if "exchange_of d m = Some z" "m \<noteq> n" for m z
    using ex that zs r unfolding exchanges_ok_def exchange_ok_def by (auto simp: image_iff)
  then have "exchange_ok e m z" if "exchange_of e m = Some z" for m z using that y e by (auto split: if_splits)
  moreover have "pe_settled z" if "(k, Sending_Ended m) \<in> set (tt_jobs e)" "exchange_of e m = Some z" for k m z
    using ex that assms(6) x g(2) e unfolding exchanges_ok_def same_jobs_def by (auto split: if_splits)
  moreover have "k = Suc m \<and> (\<forall>z. exchange_of e m = Some z \<longrightarrow> \<not> pe_sent z)" if "(k, Barrier m) \<in> set (tt_jobs e)" for k m
    using that ex assms(6) x sent e unfolding exchanges_ok_def same_jobs_def by auto
  moreover have "m < tt_next e" if "(k, j) \<in> set (tt_jobs e)" "sends j = Some m" for k j m
    using that ex assms(6) r(2) unfolding exchanges_ok_def same_jobs_def by auto
  moreover have "m < tt_next e" if "m \<in> fst ` set (tt_outcomes e)" for m
    using that ex zs n r(2) unfolding exchanges_ok_def by auto
  moreover have "handed e m = 0" if "exchange_of e m = None" for m
    using that ex e r(3) unfolding exchanges_ok_def by (auto split: if_splits)
  ultimately have "exchanges_ok e" using assms(4) unfolding exchanges_ok_def by blast
  moreover have "exchanges_le d e" using x e g zs(1) by (auto simp: exchanges_le_def)
  moreover have "stranded e = (if pe_settled y then stranded d - {n} else stranded d)"
    using x e g assms(7) by (auto simp: stranded_def same_generations_def)
  ultimately show ?thesis
    using ok assms(5) jobs_same [OF assms(6)] generations_same [OF assms(7)] r(2) by (simp add: transport_ok_def transport_grows_def)
qed

lemma exchange_okD:
  assumes "transport_ok d" "exchange_of d n = Some x"
  shows "exchange_ok d n x"
  using assms by (simp add: transport_ok_def exchanges_ok_def)

lemma release_fields:
  "tt_outcomes (release_exchange n d) = tt_outcomes d" "tt_reported (release_exchange n d) = tt_reported d"
  "tt_next (release_exchange n d) = tt_next d" "handed (release_exchange n d) m = handed d m" "tt_jobs (release_exchange n d) = tt_jobs d"
  "tt_poll (release_exchange n d) = tt_poll d" "tt_generation (release_exchange n d) = tt_generation d" "gen_of (release_exchange n d) g = gen_of d g"
  "tt_disposed (release_exchange n d) = tt_disposed d" "tt_registrations (release_exchange n d) = tt_registrations d"
  "tt_subscribers (release_exchange n d) = tt_subscribers d" "tt_delivered (release_exchange n d) = tt_delivered d"
  by (simp_all add: release_exchange_def set_exchange_def handed_def gen_of_def split: option.split)

lemma release_of: "exchange_of d n = Some x \<Longrightarrow> exchange_of (release_exchange n d) m = (if m = n then Some (x\<lparr>pe_released := True\<rparr>) else exchange_of d m)"
  by (auto simp: release_exchange_def exchange_of_set) (auto simp: exchange_of_def)

lemma release_keeps:
  assumes "transport_ok d" "\<And>x. exchange_of d n = Some x \<Longrightarrow> pe_settled x"
  shows "transport_ok (release_exchange n d) \<and> transport_le d (release_exchange n d)"
proof (cases "exchange_of d n")
  case None
  then show ?thesis using assms by (simp add: release_exchange_def tauri.le_refl)
next
  case (Some x)
  note x = exchange_okD [OF assms(1) Some] assms(2) [OF Some]
  have "transport_ok (release_exchange n d) \<and> transport_grows d (release_exchange n d)
      \<and> stranded (release_exchange n d) = (if pe_settled (x\<lparr>pe_released := True\<rparr>) then stranded d - {n} else stranded d)"
  proof (rule exchange_after_keeps [OF assms(1)])
    show "exchange_after n x (x\<lparr>pe_released := True\<rparr>) d (release_exchange n d)"
      using Some by (simp add: exchange_after_def release_fields release_of)
    show "exchange_ok (release_exchange n d) n (x\<lparr>pe_released := True\<rparr>)" using x by (simp add: exchange_ok_def release_fields)
    show "pending_ok (release_exchange n d)" using assms(1) pending_release [OF _ Some] by (simp add: transport_ok_def)
  qed (use assms(1) in \<open>simp_all add: release_fields same_jobs_def same_generations_def transport_ok_def exchanges_ok_def\<close>)
  then show ?thesis by (auto simp: transport_le_def)
qed

text \<open>An exchange that ends is not stranded any more; what it ends with has to be true.\<close>

definition truthful :: "nat \<Rightarrow> transport_fault + ustr \<Rightarrow> 'w transport_scheme \<Rightarrow> bool" where
  "truthful n r d \<longleftrightarrow> (\<forall>c x. exchange_of d n = Some x \<and> pe_sent x \<and> r = Inl (c, Not_Sent) \<longrightarrow> (n, (c, Not_Sent)) \<in> set (tt_reported d))"

definition ended :: "pending_exchange \<Rightarrow> pending_exchange" where
  "ended x = (let y = x\<lparr>pe_settled := True, pe_frame := None\<rparr> in if pe_sent x then y else y\<lparr>pe_released := True\<rparr>)"

lemma finish_unsettled:
  assumes "transport_ok d" "exchange_of d n = Some x" "\<not> pe_settled x" "truthful n r d"
  shows "transport_ok (finish_exchange n r d) \<and> transport_grows d (finish_exchange n r d) \<and> stranded (finish_exchange n r d) = stranded d - {n}"
proof -
  let ?y = "x\<lparr>pe_settled := True, pe_frame := None\<rparr>"
  define e where "e = outcome_is n r (set_exchange n ?y d)"
  have f: "finish_exchange n r d = (if pe_sent x then e else release_exchange n e)" using assms(2,3) by (simp add: finish_exchange_def e_def Let_def)
  have eo: "exchange_of e m = (if m = n then Some ?y else exchange_of d m)" for m
    by (simp add: e_def outcome_is_def) (simp add: exchange_of_def set_exchange_def update_conv)
  have en: "tt_outcomes e = tt_outcomes d @ [(n, r)]" "tt_reported e = tt_reported d" "tt_next e = tt_next d" "handed e m = handed d m"
    "same_jobs d e" "same_generations d e" for m
    by (simp_all add: e_def outcome_is_def set_exchange_def handed_def same_jobs_def same_generations_def gen_of_def)
  have p: "pending_ok e" using pending_set [of d n x ?y] assms(1,2) pending_same [of "set_exchange n ?y d" e]
    by (simp add: transport_ok_def e_def outcome_is_def same_pending_def)
  note x = exchange_okD [OF assms(1,2)]
  let ?f = "finish_exchange n r d"
  have "exchange_after n x (ended x) d ?f \<and> tt_outcomes ?f = tt_outcomes d @ [(n, r)] \<and> pending_ok ?f \<and> same_jobs d ?f \<and> same_generations d ?f"
    using en p assms(2,3) pending_release [OF p] release_of [of e n ?y] unfolding f
    by (auto simp: exchange_after_def ended_def eo release_fields same_jobs_def same_generations_def)
  note after = this [THEN conjunct1] this [THEN conjunct2, THEN conjunct1] this [THEN conjunct2, THEN conjunct2]
  have "tt_next ?f = tt_next d" "tt_reported ?f = tt_reported d" "handed ?f n = handed d n"
    using en by (simp_all add: f release_fields)
  then have y: "exchange_ok ?f n (ended x)"
    using x assms(2-4) after(2) unfolding exchange_ok_def truthful_def ended_def by (auto simp: Let_def)
  have "n \<notin> fst ` set (tt_outcomes d)" "distinct (map fst (tt_outcomes d))"
    using x assms(1,3) by (auto simp: exchange_ok_def transport_ok_def exchanges_ok_def)
  then have "distinct (map fst (tt_outcomes ?f))" by (simp add: after(2))
  moreover have "pe_sent (ended x) = pe_sent x" "pe_settled (ended x)" by (simp_all add: ended_def Let_def)
  ultimately show ?thesis using exchange_after_keeps [OF assms(1) after(1) y] after(3) by simp
qed

lemma finish_ends:
  assumes "transport_ok d" "truthful n r d"
  shows "transport_ok (finish_exchange n r d) \<and> transport_grows d (finish_exchange n r d) \<and> stranded (finish_exchange n r d) = stranded d - {n}"
proof (cases "\<exists>x. exchange_of d n = Some x \<and> \<not> pe_settled x")
  case True
  then show ?thesis using finish_unsettled assms by blast
next
  case False
  then have "finish_exchange n r d = d" "n \<notin> stranded d" by (auto simp: finish_exchange_def stranded_def split: option.split)
  then show ?thesis using assms(1) by (simp add: grows_refl)
qed

lemma finish_keeps: "transport_ok d \<Longrightarrow> truthful n r d \<Longrightarrow> transport_ok (finish_exchange n r d) \<and> transport_le d (finish_exchange n r d)"
  using finish_ends [of d n r] by (auto simp: transport_le_def)

lemma truthful_where: "exchange_of d n = Some x \<Longrightarrow> truthful n (Inl (c, where_it_is x)) d"
  by (simp add: truthful_def where_it_is_def)

lemma abort_keeps: "transport_ok d \<Longrightarrow> transport_ok (abort_exchange n d) \<and> transport_le d (abort_exchange n d)"
  by (cases "exchange_of d n") (simp_all add: abort_exchange_def finish_keeps truthful_where tauri.le_refl)

lemma signal_keeps: "transport_ok d \<Longrightarrow> transport_ok (signal_aborts n d) \<and> transport_le d (signal_aborts n d)"
proof (cases "exchange_of d n")
  case (Some x)
  assume ok: "transport_ok d"
  let ?e = "set_exchange n (x\<lparr>pe_aborted := True\<rparr>) d"
  have "transport_ok ?e \<and> transport_grows d ?e \<and> stranded ?e = (if pe_settled (x\<lparr>pe_aborted := True\<rparr>) then stranded d - {n} else stranded d)"
  proof (rule exchange_after_keeps [OF ok])
    show "exchange_after n x (x\<lparr>pe_aborted := True\<rparr>) d ?e" using Some by (simp add: exchange_after_def exchange_of_set set_exchange_fields)
    show "exchange_ok ?e n (x\<lparr>pe_aborted := True\<rparr>)" using exchange_okD [OF ok Some] by (auto simp: exchange_ok_def set_exchange_fields)
    show "pending_ok ?e" using ok Some pending_set [of d n x] by (simp add: transport_ok_def)
  qed (use ok in \<open>simp_all add: set_exchange_def gen_of_def same_jobs_def same_generations_def transport_ok_def exchanges_ok_def\<close>)
  then have "transport_ok ?e \<and> transport_le d ?e" by (auto simp: transport_le_def)
  then show ?thesis using Some ok abort_keeps [of ?e n] tauri.le_trans by (auto simp: signal_aborts_def Let_def tauri.le_refl)
qed (simp add: signal_aborts_def tauri.le_refl)

text \<open>A new number: nothing of the state has it.\<close>

lemma none_new: "transport_ok d \<Longrightarrow> tt_next d \<le> n \<Longrightarrow> exchange_of d n = None"
  by (cases "exchange_of d n") (auto dest: exchange_okD simp: exchange_ok_def)

lemma jobs_new: "transport_ok d \<Longrightarrow> tt_next d \<le> k \<Longrightarrow> k \<notin> fst ` set (tt_jobs d)"
  by (fastforce simp: transport_ok_def jobs_ok_def)

lemma refuse_keeps: "transport_ok d \<Longrightarrow> transport_ok (refuse_exchange f d) \<and> transport_le d (refuse_exchange f d)"
proof -
  assume ok: "transport_ok d"
  let ?e = "refuse_exchange f d"
  have f: "tt_outcomes ?e = tt_outcomes d @ [(tt_next d, Inl f)]" "tt_reported ?e = tt_reported d" "tt_next ?e = Suc (tt_next d)"
      "handed ?e m = handed d m" "tt_exchanges ?e = tt_exchanges d" "tt_jobs ?e = tt_jobs d" "gen_of ?e g = gen_of d g" for m g
    by (simp_all add: refuse_exchange_def outcome_is_def handed_def gen_of_def)
  have x: "exchange_of ?e n = exchange_of d n" for n by (rule exchange_of_same [OF f(5)])
  have "exchange_ok ?e n y" if "exchange_of d n = Some y" for n y
    using exchange_okD [OF ok that] unfolding exchange_ok_def f by auto
  then have "exchanges_ok ?e" using ok unfolding transport_ok_def exchanges_ok_def f x by (auto intro: less_SucI)
  moreover have "exchanges_le d ?e" unfolding exchanges_le_def x f by auto
  moreover have "jobs_ok ?e \<and> jobs_le d ?e" using ok by (intro jobs_same) (simp_all add: transport_ok_def same_jobs_def refuse_exchange_def outcome_is_def)
  moreover have "pending_ok ?e" using ok pending_same [of d ?e] by (simp add: transport_ok_def same_pending_def refuse_exchange_def outcome_is_def)
  moreover have "generations_ok ?e \<and> generations_le d ?e \<and> subscribers_le d ?e"
    using ok by (intro generations_same) (simp_all add: transport_ok_def same_generations_def refuse_exchange_def outcome_is_def gen_of_def)
  moreover have "stranded ?e = stranded d" by (rule stranded_same) (simp_all add: f)
  ultimately show ?thesis by (simp add: transport_ok_def transport_le_def transport_grows_def)
qed

text \<open>An exchange enters when it fits the quota and its generation is active.\<close>

lemma enter_keeps:
  assumes ok: "transport_ok d" and "gn_active (gen_of d g)" "length (tt_pending d) < MAX_REQUESTS" "tt_pendingBytes d + b \<le> MAX_REQUEST_BYTES"
    and e_def: "e = enter_exchange g b request aborted d"
  shows "transport_ok e \<and> transport_le d e"
proof -
  let ?n = "tt_next d"
  have f: "tt_outcomes e = tt_outcomes d" "tt_reported e = tt_reported d" "tt_next e = Suc ?n" "handed e m = handed d m"
      "tt_jobs e = tt_jobs d" "gen_of e h = gen_of d h" "tt_pending e = tt_pending d @ [?n]" "tt_pendingBytes e = tt_pendingBytes d + b" for m h
    by (simp_all add: e_def enter_exchange_def set_exchange_def handed_def gen_of_def Let_def)
  define y where "y = \<lparr>pe_generation = g, pe_bytes = b, pe_frame = Some request, pe_sent = False, pe_settled = False, pe_released = False, pe_aborted = aborted\<rparr>"
  have y: "pe_generation y = g" "pe_bytes y = b" "\<not> pe_sent y" "\<not> pe_settled y" "\<not> pe_released y" by (simp_all add: y_def)
  have x: "exchange_of e m = (if m = ?n then Some y else exchange_of d m)" for m
    unfolding e_def enter_exchange_def Let_def exchange_of_set y_def by (simp add: exchange_of_def)
  note new = none_new [OF ok order_refl]
  have "exchange_ok e n z" if "exchange_of d n = Some z" for n z using exchange_okD [OF ok that] unfolding exchange_ok_def f by auto
  moreover have "exchange_ok e ?n y" using ok y new by (auto simp: exchange_ok_def f transport_ok_def exchanges_ok_def)
  moreover have "(k, Sending_Ended ?n) \<notin> set (tt_jobs d)" for k using ok unfolding transport_ok_def exchanges_ok_def by (meson less_irrefl sends.simps(2))
  ultimately have "exchanges_ok e" using ok new y(3) unfolding transport_ok_def exchanges_ok_def f by (auto simp: x less_Suc_eq)
  moreover have "exchanges_le d e" unfolding exchanges_le_def f by (auto simp: x)
  moreover have "jobs_ok e \<and> jobs_le d e"
    using ok by (intro jobs_same) (simp_all add: transport_ok_def same_jobs_def e_def enter_exchange_def set_exchange_def Let_def)
  moreover have "generations_ok e \<and> generations_le d e \<and> subscribers_le d e"
    using ok by (intro generations_same) (simp_all add: transport_ok_def same_generations_def e_def enter_exchange_def set_exchange_def gen_of_def Let_def)
  moreover have "stranded e = stranded d" using y(1) assms(2) new by (auto simp: stranded_def x f)
  moreover have "pending_ok e"
  proof -
    have p: "?n \<notin> set (tt_pending d)" using ok new by (auto simp: transport_ok_def pending_ok_def)
    then have b: "sum_list (map (exchange_bytes e) (tt_pending d)) = sum_list (map (exchange_bytes d) (tt_pending d))"
      by (intro arg_cong [where f = sum_list] map_cong) (auto simp: exchange_bytes_def x)
    have "exchange_bytes e ?n = b" using y(2) by (simp add: exchange_bytes_def x)
    then show ?thesis using ok p b y(5) assms(3,4) new unfolding transport_ok_def pending_ok_def f by (auto simp: x)
  qed
  ultimately show ?thesis by (simp add: transport_ok_def transport_le_def transport_grows_def)
qed

section \<open>Jobs and invocations\<close>

lemma next_keeps: "transport_ok d \<Longrightarrow> transport_ok (d\<lparr>tt_next := Suc (tt_next d)\<rparr>) \<and> transport_le d (d\<lparr>tt_next := Suc (tt_next d)\<rparr>)"
  by (rule transport_same) (simp_all add: same_defs handed_def gen_of_def)

text \<open>A job is entered under a number that was free, taken since or given up since.\<close>

lemma enter_job_keeps:
  assumes "transport_ok e" "transport_le d e" "k < tt_next e" "k \<notin> fst ` set (tt_jobs e)"
    and "tt_next d \<le> k \<or> k \<in> fst ` set (tt_jobs d)" "poll_job j \<Longrightarrow> tt_poll e = Some k"
    and "\<And>n x. j = Sending_Ended n \<Longrightarrow> exchange_of e n = Some x \<Longrightarrow> pe_settled x" "\<And>n. sends j = Some n \<Longrightarrow> n < tt_next e"
    and "\<And>n. j = Barrier n \<Longrightarrow> k = Suc n \<and> (\<forall>x. exchange_of e n = Some x \<longrightarrow> \<not> pe_sent x)"
  shows "transport_ok (enter_job k j e) \<and> transport_le d (enter_job k j e)"
proof -
  let ?f = "enter_job k j e"
  have f: "tt_next ?f = tt_next e" "tt_poll ?f = tt_poll e" "handed ?f n = handed e n" "gen_of ?f g = gen_of e g" "exchange_of ?f n = exchange_of e n"
      "subscriber_of ?f n = subscriber_of e n" "events_of ?f n = events_of e n" "tt_outcomes ?f = tt_outcomes e" "tt_disposed ?f = tt_disposed e" for n g
    by (simp_all add: enter_job_def handed_def gen_of_def exchange_of_def subscriber_of_def events_of_def)
  have "jobs_ok ?f" using assms(1,3,4,6) unfolding transport_ok_def jobs_ok_def f by (auto simp: enter_job_def)
  moreover have "jobs_le d ?f" using assms(2,5) unfolding transport_le_def transport_grows_def jobs_le_def f by (auto simp: enter_job_def)
  moreover have "pending_ok ?f" using assms(1) pending_same [of e ?f] by (simp add: transport_ok_def same_pending_def enter_job_def)
  moreover have "exchanges_ok ?f"
  proof -
    have "exchange_ok ?f n x = exchange_ok e n x" for n x by (simp add: exchange_ok_def f) (simp add: enter_job_def)
    then show ?thesis using assms(1,7-9) unfolding transport_ok_def exchanges_ok_def f by (auto simp: enter_job_def)
  qed
  moreover have "generations_ok ?f" using assms(1) unfolding transport_ok_def generations_ok_def f by (simp add: enter_job_def)
  moreover have "exchanges_le d ?f = exchanges_le d e" "generations_le d ?f = generations_le d e" "subscribers_le d ?f = subscribers_le d e" "stranded ?f = stranded e"
    unfolding exchanges_le_def generations_le_def subscribers_le_def stranded_def f by (rule refl)+
  ultimately show ?thesis using assms(2) by (simp add: transport_ok_def transport_le_def transport_grows_def)
qed

lemma end_job_keeps: "transport_ok d \<Longrightarrow> transport_ok (end_job k d) \<and> transport_le d (end_job k d)"
proof -
  assume ok: "transport_ok d"
  let ?e = "end_job k d"
  have j: "set (tt_jobs ?e) \<subseteq> set (tt_jobs d)" by (auto simp: end_job_def AList.delete_eq)
  moreover have "distinct (map fst (tt_jobs ?e))" using ok by (simp add: end_job_def transport_ok_def jobs_ok_def distinct_delete)
  ultimately have "jobs_ok ?e" "jobs_le d ?e" using ok unfolding transport_ok_def jobs_ok_def jobs_le_def by (auto simp: end_job_def)
  moreover have "pending_ok ?e" using ok pending_same [of d ?e] by (simp add: transport_ok_def same_pending_def end_job_def)
  moreover have "exchanges_ok ?e \<and> exchanges_le d ?e"
    using ok j by (intro exchanges_same) (auto simp: transport_ok_def same_exchanges_def handed_def end_job_def)
  moreover have "generations_ok ?e \<and> generations_le d ?e \<and> subscribers_le d ?e"
    using ok by (intro generations_same) (simp_all add: transport_ok_def same_generations_def end_job_def gen_of_def)
  moreover have "stranded ?e = stranded d" by (rule stranded_same) (simp_all add: end_job_def gen_of_def)
  ultimately show ?thesis by (simp add: transport_ok_def transport_le_def transport_grows_def)
qed

lemma exchange_entered:
  assumes ok: "transport_ok d" and a: "gn_active (gen_of d g)" and q: "length (tt_pending d) < MAX_REQUESTS" "tt_pendingBytes d + b \<le> MAX_REQUEST_BYTES"
    and e_def: "e = enter_exchange g b request aborted d"
  shows "transport_ok (enter_job (tt_next e) (Barrier (tt_next d)) (e\<lparr>tt_next := Suc (tt_next e)\<rparr>))
    \<and> transport_le d (enter_job (tt_next e) (Barrier (tt_next d)) (e\<lparr>tt_next := Suc (tt_next e)\<rparr>))"
proof -
  let ?f = "e\<lparr>tt_next := Suc (tt_next e)\<rparr>"
  have e: "transport_ok e \<and> transport_le d e" by (rule enter_keeps [OF ok a q e_def])
  have f: "transport_ok ?f \<and> transport_le d ?f" using next_keeps [of e] e tauri.le_trans by blast
  have n: "tt_next e = Suc (tt_next d)" by (simp add: e_def enter_exchange_def set_exchange_def Let_def)
  moreover have "\<not> pe_sent x" if "exchange_of ?f (tt_next d) = Some x" for x
    using that by (auto simp: e_def enter_exchange_def Let_def exchange_of_def set_exchange_def update_conv)
  ultimately show ?thesis using f jobs_new [OF e [THEN conjunct1] order_refl] n by (intro enter_job_keeps) auto
qed

lemma exchange_cases:
  "(\<exists>f. transport_exchange request aborted d = refuse_exchange f d)
    \<or> (\<exists>g b. gn_active (gen_of d g) \<and> length (tt_pending d) < MAX_REQUESTS \<and> tt_pendingBytes d + b \<le> MAX_REQUEST_BYTES
      \<and> transport_exchange request aborted d = (let e = enter_exchange g b request aborted d in
         enter_job (tt_next e) (Barrier (tt_next d)) (e\<lparr>tt_next := Suc (tt_next e)\<rparr>)))"
proof (cases "tt_generation d")
  case (Some g)
  show ?thesis
  proof (cases "tt_disposed d \<or> \<not> gn_active (gen_of d g) \<or> aborted")
    case False
    then show ?thesis using Some by (cases "frameBytes (FStr request)") (auto simp: transport_exchange_def Let_def not_le not_less)
  qed (use Some in \<open>auto simp: transport_exchange_def\<close>)
qed (auto simp: transport_exchange_def)

lemma exchange_enters_keeps: "transport_ok d \<Longrightarrow> transport_ok (transport_exchange request aborted d) \<and> transport_le d (transport_exchange request aborted d)"
  using exchange_cases [of request aborted d] refuse_keeps [of d] exchange_entered [OF _ _ _ _ refl, of d] by (auto simp: Let_def)

lemma finish_exchange_settles: "exchange_of (finish_exchange n r d) n = Some y \<Longrightarrow> pe_settled y"
  by (auto simp: finish_exchange_def outcome_is_def release_exchange_def Let_def exchange_of_def set_exchange_def update_conv split: option.splits if_splits)

lemma abort_settles: "exchange_of (abort_exchange n d) n = Some y \<Longrightarrow> pe_settled y"
  by (auto simp: abort_exchange_def finish_exchange_settles split: option.splits)

lemma reported_keeps: "transport_ok d \<Longrightarrow> transport_ok (d\<lparr>tt_reported := tt_reported d @ zs\<rparr>) \<and> transport_le d (d\<lparr>tt_reported := tt_reported d @ zs\<rparr>)"
  by (rule transport_same) (simp_all add: same_defs handed_def gen_of_def)

lemma sending_keeps:
  assumes ok: "transport_ok d"
  shows "transport_ok (sending_answered n h a d) \<and> transport_le d (sending_answered n h a d)"
    "exchange_of (sending_answered n h a d) n = Some y \<Longrightarrow> pe_settled y"
proof -
  show "transport_ok (sending_answered n h a d) \<and> transport_le d (sending_answered n h a d)"
  proof (cases "exchange_of d n")
    case (Some x)
    show ?thesis
    proof (cases a)
      case (Inl v)
      let ?e = "d\<lparr>tt_reported := tt_reported d @ [(n, invokeFault h v)]\<rparr>"
      have "truthful n (Inl (invokeFault h v)) ?e" by (simp add: truthful_def)
      then show ?thesis using reported_keeps [OF ok, of "[(n, invokeFault h v)]"] finish_keeps [of ?e n] Some Inl tauri.le_trans
        unfolding sending_answered_def by auto
    next
      case (Inr v)
      have "truthful n (Inr r) d" "truthful n (Inl (c, May_Have_Reached_Backend)) d" for r c by (simp_all add: truthful_def)
      then show ?thesis using ok Some Inr finish_keeps [OF ok, of n] abort_keeps [OF ok, of n] tauri.le_refl [of d]
        unfolding sending_answered_def by (cases "frameBytes v"; cases v) simp_all
    qed
  qed (simp add: sending_answered_def ok tauri.le_refl)
  show "exchange_of (sending_answered n h a d) n = Some y \<Longrightarrow> pe_settled y"
    by (auto simp: sending_answered_def finish_exchange_settles abort_settles split: option.splits sum.splits fv.splits if_splits)
qed

text \<open>What the host, the listeners and the clock do to the transport while they are called.\<close>

definition hosts_ok :: "'w transport_env \<Rightarrow> bool" where
  "hosts_ok te \<longleftrightarrow> (\<forall>i. keeps transport_ok transport_le (upd (te_invoke te i))) \<and> (\<forall>n f. keeps transport_ok transport_le (te_event te n f))
     \<and> (\<forall>n f. keeps transport_ok transport_le (upd (te_fault te n f))) \<and> (\<forall>t k. keeps transport_ok transport_le (te_schedule te t k))
     \<and> (\<forall>t. keeps transport_ok transport_le (te_cancel te t))"

lemma keeps_updD: "keeps ok le (upd f) \<Longrightarrow> ok d \<Longrightarrow> ok (f d) \<and> le d (f d)"
  by (simp add: keeps_def wp_rules)

lemma invoke_from:
  assumes "hosts_ok te" and e1: "e1 = c\<lparr>tt_invoked := tt_invoked c @ [i], tt_next := Suc (tt_next c)\<rparr>"
    and ok: "transport_ok e1" "transport_le d e1" "tt_next d \<le> tt_next c" "tt_next c \<notin> fst ` set (tt_jobs c)"
    and j: "poll_job j \<Longrightarrow> tt_poll c = Some (tt_next c)" "\<And>n. sends j = Some n \<Longrightarrow> n < tt_next c" "\<And>n. j \<noteq> Sending_Ended n \<and> j \<noteq> Barrier n"
  shows "wp (invokeT te i j) (\<lambda>_ e. transport_ok e \<and> transport_le d e) c"
proof -
  let ?k = "tt_next c"
  let ?e = "te_invoke te i e1"
  have "keeps transport_ok transport_le (upd (te_invoke te i))" using assms(1) by (simp add: hosts_ok_def)
  then have e: "transport_ok ?e \<and> transport_le e1 ?e" using ok(1) by (rule keeps_updD)
  then have jobs: "jobs_le e1 ?e" by (simp add: transport_le_def transport_grows_def)
  have "transport_ok (enter_job ?k j ?e) \<and> transport_le d (enter_job ?k j ?e)"
  proof (rule enter_job_keeps)
    show "transport_le d ?e" using ok(2) e tauri.le_trans by blast
    show "?k < tt_next ?e" using jobs by (simp add: jobs_le_def e1)
    show "?k \<notin> fst ` set (tt_jobs ?e)" "poll_job j \<Longrightarrow> tt_poll ?e = Some ?k" using jobs ok(4) j(1) by (auto simp: jobs_le_def e1)
    show "n < tt_next ?e" if "sends j = Some n" for n using j(2) [OF that] jobs by (simp add: jobs_le_def e1)
  qed (use e ok(3) j(3) in auto)
  then show ?thesis by (simp add: invokeT_def wp_rules e1)
qed

lemma invoked_keeps:
  assumes "transport_ok d" "\<And>n f. i \<noteq> Bridge_Exchange n f"
  shows "transport_ok (d\<lparr>tt_invoked := tt_invoked d @ [i], tt_next := Suc (tt_next d)\<rparr>) \<and> transport_le d (d\<lparr>tt_invoked := tt_invoked d @ [i], tt_next := Suc (tt_next d)\<rparr>)"
  using assms by (intro transport_same) (auto simp: same_defs handed_def gen_of_def split: invocation.split)

lemma invoke_keeps:
  assumes "hosts_ok te" "\<And>n f. i \<noteq> Bridge_Exchange n f" "\<not> poll_job j" "sends j = None"
  shows "keeps transport_ok transport_le (invokeT te i j)"
  unfolding keeps_def
proof (intro allI impI)
  fix d :: "'a transport_scheme" assume ok: "transport_ok d"
  show "wp (invokeT te i j) (\<lambda>_ e. transport_ok e \<and> transport_le d e) d"
    using assms jobs_new [OF ok order_refl] invoked_keeps [OF ok] by (intro invoke_from [OF assms(1) refl]) auto
qed

text \<open>An exchange is handed over when its barrier opens, and counted as sent from then on.\<close>

lemma sent_keeps:
  assumes ok: "transport_ok d" and x: "exchange_of d n = Some x" "\<not> pe_settled x" "\<not> pe_sent x" and b: "\<And>k. (k, Barrier n) \<notin> set (tt_jobs d)"
    and e: "e = (set_exchange n (x\<lparr>pe_frame := None, pe_sent := True\<rparr>) d)\<lparr>tt_invoked := tt_invoked d @ [Bridge_Exchange n f]\<rparr>"
  shows "transport_ok e \<and> transport_le d e"
proof -
  let ?y = "x\<lparr>pe_frame := None, pe_sent := True\<rparr>"
  have h: "handed e m = handed d m + (if m = n then 1 else 0)" for m by (simp add: e handed_def set_exchange_def)
  have o: "exchange_of e m = (if m = n then Some ?y else exchange_of d m)" for m by (simp add: e exchange_of_def set_exchange_def update_conv)
  have f: "tt_outcomes e = tt_outcomes d" "tt_reported e = tt_reported d" "tt_next e = tt_next d" by (simp_all add: e set_exchange_def)
  note k = exchange_okD [OF ok x(1)]
  have "n \<notin> fst ` set (tt_outcomes d)" using k x(2) by (simp add: exchange_ok_def)
  then have "(n, r) \<notin> set (tt_outcomes d)" for r by force
  then have "exchange_ok e n ?y" using k x by (simp add: exchange_ok_def f h)
  moreover have "exchange_after n x ?y d e" using x by (simp add: exchange_after_def o f h)
  moreover have "pending_ok e" using ok pending_set [of d n x ?y] x(1) pending_same [of "set_exchange n ?y d" e]
    by (simp add: transport_ok_def same_pending_def e)
  ultimately have "transport_ok e \<and> transport_grows d e \<and> stranded e = (if pe_settled ?y then stranded d - {n} else stranded d)"
    using ok b by (intro exchange_after_keeps) (simp_all add: f transport_ok_def exchanges_ok_def, simp_all add: e same_jobs_def same_generations_def set_exchange_def gen_of_def)
  then show ?thesis using x(2) by (simp add: transport_le_def)
qed

lemma barrier_passed_keeps:
  assumes "hosts_ok te" and ok: "transport_ok d" and free: "\<And>k. (k, Barrier n) \<notin> set (tt_jobs d)"
  shows "wp (barrier_passed te n) (\<lambda>_ e. transport_ok e \<and> transport_le d e) d"
proof -
  have "wp (case exchange_of d n of None \<Rightarrow> ret () | Some x \<Rightarrow> if pe_settled x then ret ()
      else if tt_disposed d \<or> \<not> current d (pe_generation x) \<or> pe_aborted x then upd (abort_exchange n)
      else (case pe_frame x of None \<Rightarrow> ret () | Some frame \<Rightarrow> next_act (upd (set_exchange n (x\<lparr>pe_frame := None, pe_sent := True\<rparr>)))
         (invokeT te (Bridge_Exchange n frame) (Sending n)))) (\<lambda>_ e. transport_ok e \<and> transport_le d e) d"
  proof (cases "exchange_of d n")
    case None
    then show ?thesis using ok by (simp add: wp_rules tauri.le_refl)
  next
    case (Some x)
    show ?thesis
    proof (cases "\<not> pe_settled x \<and> \<not> (tt_disposed d \<or> \<not> current d (pe_generation x) \<or> pe_aborted x) \<and> pe_frame x \<noteq> None")
      case True
      then obtain frame where f: "pe_frame x = Some frame" by blast
      then have ns: "\<not> pe_sent x" using exchange_okD [OF ok Some] by (simp add: exchange_ok_def)
      let ?c = "set_exchange n (x\<lparr>pe_frame := None, pe_sent := True\<rparr>) d"
      let ?e = "?c\<lparr>tt_invoked := tt_invoked d @ [Bridge_Exchange n frame]\<rparr>"
      have e: "transport_ok ?e \<and> transport_le d ?e" using sent_keeps [OF ok Some _ ns free refl] True by blast
      have c: "tt_next ?c = tt_next d" "tt_jobs ?c = tt_jobs d" "tt_invoked ?c = tt_invoked d" "n < tt_next d"
        using exchange_okD [OF ok Some] by (simp_all add: set_exchange_def exchange_ok_def)
      have e1: "transport_ok (?e\<lparr>tt_next := Suc (tt_next ?e)\<rparr>) \<and> transport_le d (?e\<lparr>tt_next := Suc (tt_next ?e)\<rparr>)"
        using next_keeps [of ?e] e tauri.le_trans by blast
      have "wp (invokeT te (Bridge_Exchange n frame) (Sending n)) (\<lambda>_ e. transport_ok e \<and> transport_le d e) ?c"
        using e1 c jobs_new [OF ok order_refl] by (intro invoke_from [OF assms(1) refl]) simp_all
      then show ?thesis using True Some f by (simp add: wp_rules)
    next
      case False
      then show ?thesis using ok Some abort_keeps [OF ok, of n] by (auto simp: wp_rules tauri.le_refl split: option.split)
    qed
  qed
  then show ?thesis by (simp add: barrier_passed_def wp_rules(3))
qed

end
