(* ===== verification/Tauri_Steps.thy ===== *)
theory Tauri_Steps imports Tauri_Kept begin

text \<open>
  The steps of the desktop transport keep its invariant: the retirement of a generation, during which a cancelled timer can call back, and with
  it every method, every answer of the host and every turn of a promise.
\<close>

section \<open>Retirement\<close>

lemma gen_of_set: "gen_of (set_gen g f d) h = (if h = g then f (gen_of d g) else gen_of d h)"
  by (simp add: gen_of_def set_gen_def update_conv)

lemma grows_same:
  assumes "transport_ok d" "tt_next d \<le> tt_next e" "same_jobs d e" "same_pending d e" "same_exchanges d e"
    and "generations_ok e" "generations_le d e" "subscribers_le d e"
  shows "transport_ok e \<and> transport_grows d e"
  using assms jobs_same [of d e] pending_same [of d e] exchanges_same [of d e] by (simp add: transport_ok_def transport_grows_def)

text \<open>The exchanges of a generation.\<close>

definition carried_by :: "nat \<Rightarrow> 'w transport_scheme \<Rightarrow> nat set" where
  "carried_by g d = {n. \<exists>x. exchange_of d n = Some x \<and> pe_generation x = g}"

lemma carried_grows:
  assumes "transport_ok d" "transport_grows d e"
  shows "carried_by g d \<subseteq> carried_by g e"
proof
  fix n assume "n \<in> carried_by g d"
  then obtain x where x: "exchange_of d n = Some x" "pe_generation x = g" by (auto simp: carried_by_def)
  then have "n < tt_next d" using exchange_okD [OF assms(1)] by (auto simp: exchange_ok_def)
  with assms(2) x(1) obtain y where "exchange_of e n = Some y" "pe_generation y = pe_generation x"
    unfolding transport_grows_def exchanges_le_def by blast
  with x(2) show "n \<in> carried_by g e" by (simp add: carried_by_def)
qed

lemma inactive_keeps:
  assumes ok: "transport_ok d" and g: "gn_active (gen_of d g)" and e: "e = inactive g (d\<lparr>tt_disposed := tt_disposed d \<or> b\<rparr>)"
  shows "transport_ok e \<and> transport_grows d e" "stranded e \<subseteq> stranded d \<union> carried_by g d" "\<not> gn_active (gen_of e g)"
proof -
  have t: "tt_generation d = Some g" using ok g by (simp add: transport_ok_def generations_ok_def)
  have f: "gen_of e h = (if h = g then (gen_of d g)\<lparr>gn_active := False\<rparr> else gen_of d h)" for h
    by (simp add: e inactive_def t set_gen_def gen_of_def update_conv)
  have o: "tt_generation e = None" "tt_next e = tt_next d" "tt_subscribers e = tt_subscribers d" "tt_registrations e = tt_registrations d"
      "tt_delivered e = tt_delivered d" "tt_exchanges e = tt_exchanges d" "tt_disposed e = (tt_disposed d \<or> b)"
    by (simp_all add: e inactive_def set_gen_def t)
  have s: "subscriber_of e n = subscriber_of d n" "events_of e n = events_of d n" "exchange_of e n = exchange_of d n" for n
    by (simp_all add: subscriber_of_def events_of_def exchange_of_def o)
  have a: "\<not> gn_active (gen_of e h)" for h using ok t by (auto simp: f transport_ok_def generations_ok_def)
  have l: "gn_listeners (gen_of e h) = gn_listeners (gen_of d h)" for h by (simp add: f)
  have "generations_ok e" using ok unfolding transport_ok_def generations_ok_def o s l by (simp add: a)
  moreover have "generations_le d e" "subscribers_le d e" unfolding generations_le_def subscribers_le_def o s by (auto simp: a)
  ultimately show "transport_ok e \<and> transport_grows d e"
    by (intro grows_same [OF ok]) (simp_all add: o same_jobs_def same_pending_def same_exchanges_def, simp_all add: e inactive_def set_gen_def t handed_def)
  show "stranded e \<subseteq> stranded d \<union> carried_by g d" by (auto simp: stranded_def carried_by_def f s)
  show "\<not> gn_active (gen_of e g)" by (simp add: f)
qed

lemma cancel_timer_keeps: "hosts_ok te \<Longrightarrow> keeps transport_ok transport_le (cancel_timer te g)"
  unfolding cancel_timer_def
proof (rule keeps_withS)
  fix d :: "'a transport_scheme"
  assume h: "hosts_ok te"
  have "keeps transport_ok transport_le (te_cancel te t)" for t using h by (simp add: hosts_ok_def)
  moreover have "keeps transport_ok transport_le (upd (\<lambda>d. d\<lparr>tt_timer := None, tt_timers := AList.update t x (tt_timers d)\<rparr>))" for t x
    by (rule tauri.keeps_upd, rule transport_same) (simp_all add: same_defs handed_def gen_of_def)
  ultimately show "keeps transport_ok transport_le (case tt_timer d of None \<Rightarrow> ret () | Some t \<Rightarrow> (case map_of (tt_timers d) t of None \<Rightarrow> ret ()
      | Some x \<Rightarrow> if tm_generation x \<noteq> g then ret ()
             else next_act (upd (\<lambda>d. d\<lparr>tt_timer := None, tt_timers := AList.update t (x\<lparr>tm_cancelled := True\<rparr>) (tt_timers d)\<rparr>))
               (if tm_cancel x then catchS (te_cancel te t) (ret ()) else ret ())))"
    by (intro tauri.keeps_forms) (simp_all add: tauri.keeps_ret)
qed

lemma cancel_timer_returns: "wp (cancel_timer te g) (\<lambda>r _. r = Inr ()) d"
proof -
  have "wp (te_cancel te t) (\<lambda>r e. (\<forall>x. r = Inr x \<longrightarrow> Inr x = (Inr () :: unit res))) e" for t e by (simp add: wp_after)
  then show ?thesis by (simp add: cancel_timer_def wp_rules split: option.split)
qed

lemma silence_keeps: "transport_ok d \<Longrightarrow> transport_ok (silence n d) \<and> transport_le d (silence n d)"
proof (cases "subscriber_of d n")
  case (Some x)
  assume ok: "transport_ok d"
  let ?e = "silence n d"
  have s: "subscriber_of ?e m = (if m = n then Some (x\<lparr>su_active := False\<rparr>) else subscriber_of d m)" for m
    using Some by (simp add: silence_def) (simp add: subscriber_of_def update_conv)
  have o: "gen_of ?e g = gen_of d g" "tt_generation ?e = tt_generation d" "tt_next ?e = tt_next d" "tt_registrations ?e = tt_registrations d"
      "events_of ?e m = events_of d m" "tt_disposed ?e = tt_disposed d" "tt_exchanges ?e = tt_exchanges d" for g m
    using Some by (simp_all add: silence_def gen_of_def events_of_def)
  have l: "su_generation x = g" if "n \<in> set (gn_listeners (gen_of d g))" for g
    using ok Some that unfolding transport_ok_def generations_ok_def by (metis option.inject)
  have "generations_ok ?e" using ok Some l unfolding transport_ok_def generations_ok_def o s by auto
  moreover have "generations_le d ?e" "subscribers_le d ?e" unfolding generations_le_def subscribers_le_def o s using Some by auto
  ultimately have "transport_ok ?e \<and> transport_grows d ?e"
    using Some by (intro grows_same [OF ok]) (simp_all add: o same_jobs_def same_pending_def same_exchanges_def, simp_all add: silence_def handed_def)
  moreover have "stranded ?e = stranded d" by (rule stranded_same) (simp_all add: o)
  ultimately show ?thesis by (simp add: transport_le_def)
qed (simp add: silence_def tauri.le_refl)

lemma fold_keeps:
  assumes "\<And>n d. transport_ok d \<Longrightarrow> transport_ok (f n d) \<and> transport_le d (f n d)" "transport_ok d"
  shows "transport_ok (fold f ns d) \<and> transport_le d (fold f ns d)"
  using assms(2)
proof (induction ns arbitrary: d)
  case (Cons n ns)
  then show ?case using assms(1) [OF Cons.prems, of n] Cons.IH [of "f n d"] tauri.le_trans [of d "f n d"] by simp
qed (simp add: tauri.le_refl)

text \<open>An update of a generation that leaves it as active as it was, with listeners that it had.\<close>

lemma set_gen_keeps:
  assumes ok: "transport_ok d" and f: "gn_active (f (gen_of d g)) = gn_active (gen_of d g)" "set (gn_listeners (f (gen_of d g))) \<subseteq> set (gn_listeners (gen_of d g))"
    "length (gn_listeners (f (gen_of d g))) \<le> length (gn_listeners (gen_of d g))"
  shows "transport_ok (set_gen g f d) \<and> transport_le d (set_gen g f d)"
proof -
  let ?e = "set_gen g f d"
  have o: "tt_generation ?e = tt_generation d" "tt_next ?e = tt_next d" "tt_registrations ?e = tt_registrations d" "events_of ?e m = events_of d m"
      "tt_disposed ?e = tt_disposed d" "tt_exchanges ?e = tt_exchanges d" "subscriber_of ?e m = subscriber_of d m" for m
    by (simp_all add: set_gen_def events_of_def subscriber_of_def)
  have a: "gn_active (gen_of ?e h) = gn_active (gen_of d h)" for h using f(1) by (simp add: gen_of_set)
  have l: "set (gn_listeners (gen_of ?e h)) \<subseteq> set (gn_listeners (gen_of d h))" "length (gn_listeners (gen_of ?e h)) \<le> length (gn_listeners (gen_of d h))" for h
    using f(2,3) by (simp_all add: gen_of_set)
  have "generations_ok ?e" using ok l unfolding transport_ok_def generations_ok_def a o by (meson le_trans subsetD)
  moreover have "generations_le d ?e" "subscribers_le d ?e" unfolding generations_le_def subscribers_le_def a o by auto
  ultimately have "transport_ok ?e \<and> transport_grows d ?e"
    by (intro grows_same [OF ok]) (simp_all add: o same_jobs_def same_pending_def same_exchanges_def, simp_all add: set_gen_def handed_def)
  moreover have "stranded ?e = stranded d" by (rule stranded_same) (simp_all add: o a)
  ultimately show ?thesis by (simp add: transport_le_def)
qed

lemma end_one_ends:
  assumes "transport_ok d"
  shows "transport_ok (end_one g code n d) \<and> transport_le d (end_one g code n d) \<and> stranded (end_one g code n d) \<subseteq> stranded d - ({n} \<inter> carried_by g d)"
proof (cases "exchange_of d n")
  case (Some x)
  then show ?thesis using finish_ends [OF assms truthful_where [OF Some], of code] assms
    by (auto simp: end_one_def carried_by_def transport_le_def grows_refl)
qed (use assms in \<open>auto simp: end_one_def carried_by_def tauri.le_refl\<close>)

lemma ends_all:
  assumes "transport_ok d"
  shows "transport_ok (fold (end_one g code) ns d) \<and> transport_le d (fold (end_one g code) ns d)
    \<and> stranded (fold (end_one g code) ns d) \<subseteq> stranded d - (set ns \<inter> carried_by g d)"
  using assms
proof (induction ns arbitrary: d)
  case (Cons n ns)
  note one = end_one_ends [OF Cons.prems, of g code n]
  let ?e = "end_one g code n d"
  have ih: "transport_ok (fold (end_one g code) ns ?e) \<and> transport_le ?e (fold (end_one g code) ns ?e)
    \<and> stranded (fold (end_one g code) ns ?e) \<subseteq> stranded ?e - (set ns \<inter> carried_by g ?e)" using Cons.IH one by blast
  moreover have "carried_by g d \<subseteq> carried_by g ?e" using carried_grows [OF Cons.prems] one by (auto simp: transport_le_def)
  ultimately show ?case using one tauri.le_trans by (auto 0 3)
qed (simp add: tauri.le_refl)

lemma leave_generation_keeps:
  assumes ok: "transport_ok d" and e: "e = leave_generation g reason d"
  shows "transport_ok e \<and> transport_le d e" "stranded e \<subseteq> stranded d - carried_by g d"
proof -
  define c where "c = set_gen g (\<lambda>x. x\<lparr>gn_barrier := break_barrier (case reason of None \<Rightarrow> (Disconnected, Not_Sent) | Some f \<Rightarrow> f) (gn_barrier x), gn_listeners := []\<rparr>) d"
  define s where "s = fold silence (gn_listeners (gen_of d g)) c"
  have c: "transport_ok c \<and> transport_le d c" unfolding c_def by (rule set_gen_keeps [OF ok]) simp_all
  have cs: "transport_ok s \<and> transport_le c s" unfolding s_def by (rule fold_keeps [OF silence_keeps]) (use c in auto)
  have s: "transport_ok s" "transport_le d s" using c cs tauri.le_trans by blast+
  obtain code where el: "e = fold (end_one g code) (tt_pending s) s"
    unfolding e leave_generation_def Let_def s_def c_def by blast
  note all = ends_all [OF s(1), of g code "tt_pending s"]
  show "transport_ok e \<and> transport_le d e" using all s tauri.le_trans unfolding el by blast
  have "n \<in> set (tt_pending s)" if "n \<in> stranded s" for n
  proof -
    from that obtain x where x: "exchange_of s n = Some x" "\<not> pe_settled x" by (auto simp: stranded_def)
    then have "\<not> pe_released x" using exchange_okD [OF s(1)] by (auto simp: exchange_ok_def)
    then show ?thesis using x s(1) by (auto simp: transport_ok_def pending_ok_def)
  qed
  moreover have "carried_by g d \<subseteq> carried_by g s" using carried_grows [OF ok] s(2) by (auto simp: transport_le_def)
  ultimately show "stranded e \<subseteq> stranded d - carried_by g d" using all s(2) unfolding el transport_le_def by blast
qed

lemma upd_set_reg: "keeps transport_ok transport_le (upd (set_reg r f))"
  by (rule tauri.keeps_upd) (rule set_reg_keeps)

lemma cleanup_keeps: "hosts_ok te \<Longrightarrow> keeps transport_ok transport_le (cleanup te r)"
  unfolding cleanup_def by (intro tauri.keeps_forms upd_set_reg) (simp_all add: tauri.keeps_ret invoke_keeps)

lemma notify_keeps: "hosts_ok te \<Longrightarrow> keeps transport_ok transport_le (notify_faults te f ns)"
proof (induction ns)
  case (Cons n ns)
  then have "keeps transport_ok transport_le (upd (te_fault te n f))" unfolding hosts_ok_def by blast
  then show ?case using Cons by (simp add: tauri.keeps_seq)
qed (simp add: tauri.keeps_ret)

lemma retire_from:
  assumes h: "hosts_ok te" and ok: "transport_ok d" and g: "gn_active (gen_of d g)" and c: "c = d\<lparr>tt_disposed := tt_disposed d \<or> b\<rparr>"
  shows "wp (retire te g reason) (\<lambda>_ e. transport_ok e \<and> transport_le d e) c"
proof -
  define d1 where "d1 = inactive g c"
  note one = inactive_keeps [OF ok g d1_def [unfolded c]]
  let ?rest = "withS (\<lambda>d. let leaving = gn_listeners (gen_of d g); r = gn_registration (gen_of d g) in
       next_act (upd (leave_generation g reason)) (next_act (upd (set_reg r (\<lambda>x. x\<lparr>rg_retired := True\<rparr>)))
       (next_act (cleanup te r) (case reason of None \<Rightarrow> ret () | Some f \<Rightarrow> notify_faults te f leaving))))"
  have rest: "wp ?rest (\<lambda>_ e. transport_ok e \<and> transport_le d e) d2" if d2: "transport_ok d2" "transport_le d1 d2" for d2
  proof -
    define d3 where "d3 = leave_generation g reason d2"
    note three = leave_generation_keeps [OF d2(1) d3_def]
    have "carried_by g d \<subseteq> carried_by g d2"
      using carried_grows [OF ok one(1) [THEN conjunct2], of g] carried_grows [OF one(1) [THEN conjunct1], of d2 g] d2(2)
      by (auto simp: transport_le_def)
    then have "stranded d3 \<subseteq> stranded d" using three(2) one(2) d2(2) by (auto simp: transport_le_def)
    moreover have "transport_grows d d3" using one(1) d2(2) three(1) grows_trans unfolding transport_le_def by blast
    ultimately have d3: "transport_ok d3 \<and> transport_le d d3" using three(1) by (simp add: transport_le_def)
    have "keeps transport_ok transport_le (next_act (upd (set_reg r (\<lambda>x. x\<lparr>rg_retired := True\<rparr>)))
       (next_act (cleanup te r) (case reason of None \<Rightarrow> ret () | Some f \<Rightarrow> notify_faults te f ns)))" for r ns
      by (intro tauri.keeps_forms upd_set_reg cleanup_keeps [OF h] notify_keeps [OF h])
    from tauri.wp_later [OF this d3] show ?thesis by (simp add: wp_rules(3) Let_def wp_after_upd d3_def)
  qed
  have "wp (next_act (cancel_timer te g) ?rest) (\<lambda>_ e. transport_ok e \<and> transport_le d e) d1"
    unfolding wp_seq
  proof (rule wp_mono)
    show "wp (cancel_timer te g) (\<lambda>r e. r = Inr () \<and> transport_ok e \<and> transport_le d1 e) d1"
      using cancel_timer_returns keepsD [OF cancel_timer_keeps [OF h] one(1) [THEN conjunct1]] unfolding wp_conj by blast
  qed (use rest in auto)
  moreover have "gn_active (gen_of c g)" using g by (simp add: c gen_of_def)
  ultimately show ?thesis by (simp add: retire_def wp_rules(3) wp_after_upd d1_def)
qed

lemma retire_keeps: "hosts_ok te \<Longrightarrow> keeps transport_ok transport_le (retire te g reason)"
  unfolding keeps_def
proof (intro allI impI)
  fix d :: "'a transport_scheme" assume h: "hosts_ok te" and ok: "transport_ok d"
  show "wp (retire te g reason) (\<lambda>_ e. transport_ok e \<and> transport_le d e) d"
  proof (cases "gn_active (gen_of d g)")
    case True
    show ?thesis by (rule retire_from [OF h ok True, where b = False]) simp
  next
    case False
    then show ?thesis using ok by (simp add: retire_def wp_rules tauri.le_refl)
  qed
qed

lemma dispose_keeps: "hosts_ok te \<Longrightarrow> keeps transport_ok transport_le (transport_dispose te)"
  unfolding transport_dispose_def
proof (rule keeps_at)
  fix d :: "'a transport_scheme" assume h: "hosts_ok te" and ok: "transport_ok d"
  let ?c = "d\<lparr>tt_disposed := True\<rparr>"
  have "wp (case tt_generation d of None \<Rightarrow> ret () | Some g \<Rightarrow> retire te g None) (\<lambda>_ e. transport_ok e \<and> transport_le d e) ?c"
  proof (cases "tt_generation d")
    case None
    have "generations_ok ?c" using ok None unfolding transport_ok_def generations_ok_def by (simp add: gen_of_def subscriber_of_def)
    moreover have "generations_le d ?c" "subscribers_le d ?c" by (simp_all add: generations_le_def subscribers_le_def gen_of_def subscriber_of_def events_of_def)
    ultimately have "transport_ok ?c \<and> transport_grows d ?c"
      by (intro grows_same [OF ok]) (simp_all add: same_jobs_def same_pending_def same_exchanges_def handed_def)
    moreover have "stranded ?c = stranded d" by (rule stranded_same) (simp_all add: gen_of_def)
    ultimately show ?thesis using None by (simp add: wp_rules transport_le_def)
  next
    case (Some g)
    then have g: "gn_active (gen_of d g)" using ok by (simp add: transport_ok_def generations_ok_def)
    show ?thesis using retire_from [OF h ok g, where b = True] Some by simp
  qed
  then show "wp (if tt_disposed d then ret () else next_act (upd (\<lambda>d. d\<lparr>tt_disposed := True\<rparr>)) (case tt_generation d of None \<Rightarrow> ret () | Some g \<Rightarrow> retire te g None))
      (\<lambda>_ e. transport_ok e \<and> transport_le d e) d"
    using ok by (simp add: wp_after_upd) (simp add: wp_rules tauri.le_refl)
qed

section \<open>Polls and events\<close>

lemma jobs_moved:
  assumes "transport_ok d" "jobs_ok e" "jobs_le d e" "same_pending d e" "same_exchanges d e" "same_generations d e"
  shows "transport_ok e \<and> transport_le d e"
proof -
  have n: "tt_next d \<le> tt_next e" using assms(3) by (simp add: jobs_le_def)
  have "stranded e = stranded d" using assms(5,6) by (intro stranded_same) (simp_all add: same_exchanges_def same_generations_def)
  then show ?thesis using assms pending_same [of d e] exchanges_same [of d e] generations_same [of d e] n
    by (simp add: transport_ok_def transport_le_def transport_grows_def)
qed

lemma poll_begins:
  assumes ok: "transport_ok d" and p: "tt_poll d = None" and c: "c = set_reg r f (d\<lparr>tt_poll := Some (tt_next d)\<rparr>)"
    and e: "e = c\<lparr>tt_invoked := tt_invoked c @ [Bridge_Poll key], tt_next := Suc (tt_next c)\<rparr>"
  shows "transport_ok e \<and> transport_le d e"
proof (rule jobs_moved [OF ok])
  have j: "tt_jobs e = tt_jobs d" "tt_poll e = Some (tt_next d)" "tt_next e = Suc (tt_next d)" by (simp_all add: e c set_reg_def)
  show "jobs_ok e" using ok p unfolding transport_ok_def jobs_ok_def j by (auto intro: less_SucI)
  show "jobs_le d e" using p unfolding jobs_le_def j by auto
qed (simp_all add: e c set_reg_def same_pending_def same_exchanges_def same_generations_def handed_def gen_of_def)

lemma pollOnce_keeps:
  assumes h: "hosts_ok te"
  shows "keeps transport_ok transport_le (pollOnce te g)"
  unfolding pollOnce_def
proof (rule keeps_at)
  fix d :: "'a transport_scheme" assume ok: "transport_ok d"
  show "wp (if tt_poll d \<noteq> None \<or> \<not> current d g \<or> \<not> gn_ready (gen_of d g) then ret ()
     else let r = gn_registration (gen_of d g) in
       next_act (upd (\<lambda>d. set_reg r (\<lambda>x. x\<lparr>rg_controls := rg_controls x + 1\<rparr>) (d\<lparr>tt_poll := Some (tt_next d)\<rparr>)))
         (invokeT te (Bridge_Poll (rg_key (reg_of d r))) (Polling g))) (\<lambda>_ e. transport_ok e \<and> transport_le d e) d"
  proof (cases "tt_poll d = None \<and> current d g \<and> gn_ready (gen_of d g)")
    case True
    let ?r = "gn_registration (gen_of d g)"
    let ?c = "set_reg ?r (\<lambda>x. x\<lparr>rg_controls := rg_controls x + 1\<rparr>) (d\<lparr>tt_poll := Some (tt_next d)\<rparr>)"
    have c: "tt_next (set_reg r f e) = tt_next e" "tt_jobs (set_reg r f e) = tt_jobs e" "tt_poll (set_reg r f e) = tt_poll e" for r f and e :: "'a transport_scheme"
      by (simp_all add: set_reg_def)
    have "wp (invokeT te (Bridge_Poll (rg_key (reg_of d ?r))) (Polling g)) (\<lambda>_ e. transport_ok e \<and> transport_le d e) ?c"
      using True poll_begins [OF ok _ refl refl] jobs_new [OF ok order_refl] by (intro invoke_from [OF h refl]) (simp_all add: c)
    then show ?thesis using True by (simp add: Let_def wp_after_upd)
  qed (use ok in \<open>auto simp: wp_rules tauri.le_refl\<close>)
qed

lemma timers_keep:
  "keeps transport_ok transport_le (upd (\<lambda>d. d\<lparr>tt_timers := f (tt_timers d)\<rparr>))"
  "keeps transport_ok transport_le (upd (\<lambda>d. d\<lparr>tt_timer := t\<rparr>))"
  by (rule tauri.keeps_upd, rule transport_same, simp_all add: same_defs handed_def gen_of_def)+

lemma schedule_keeps:
  assumes h: "hosts_ok te"
  shows "keeps transport_ok transport_le (schedule_poll te g delay)"
proof -
  have s: "keeps transport_ok transport_le (te_schedule te delay t)" "keeps transport_ok transport_le (te_cancel te t)" for t
    using h by (simp_all add: hosts_ok_def)
  have timers: "keeps transport_ok transport_le (upd (\<lambda>d. d\<lparr>tt_timers := AList.update t x (tt_timers d)\<rparr>))" for t x by (rule timers_keep)
  let ?rest = "\<lambda>t. catchS (next_act (te_schedule te delay t) (withS (\<lambda>d. case map_of (tt_timers d) t of
             None \<Rightarrow> ret ()
           | Some x \<Rightarrow> next_act (upd (\<lambda>d. d\<lparr>tt_timers := AList.update t (x\<lparr>tm_cancel := True\<rparr>) (tt_timers d)\<rparr>))
               (if tm_cancelled x \<or> tt_timer d \<noteq> Some t then te_cancel te t else ret ()))))
         (retire te g (Some (Delivery_Failed, May_Have_Reached_Backend)))"
  have rest: "keeps transport_ok transport_le (?rest t)" for t
    by (intro tauri.keeps_forms s timers retire_keeps [OF h])
  show ?thesis unfolding schedule_poll_def Let_def
  proof (rule keeps_at)
    fix d :: "'a transport_scheme" assume ok: "transport_ok d"
    let ?e = "d\<lparr>tt_timers := AList.update (tt_next d) \<lparr>tm_generation = g, tm_cancelled = False, tm_cancel = False\<rparr> (tt_timers d), tt_timer := Some (tt_next d), tt_next := Suc (tt_next d)\<rparr>"
    have "transport_ok ?e \<and> transport_le d ?e" by (rule transport_same [OF ok]) (simp_all add: same_defs handed_def gen_of_def)
    from tauri.wp_later [OF rest this]
    show "wp (next_act (upd (\<lambda>e. e\<lparr>tt_timers := AList.update (tt_next d) \<lparr>tm_generation = g, tm_cancelled = False, tm_cancel = False\<rparr> (tt_timers e), tt_timer := Some (tt_next d), tt_next := Suc (tt_next d)\<rparr>))
        (?rest (tt_next d))) (\<lambda>_ e. transport_ok e \<and> transport_le d e) d"
      unfolding wp_after_upd by simp
  qed
qed

lemma timer_fires_keeps: "hosts_ok te \<Longrightarrow> keeps transport_ok transport_le (timer_fires te t)"
  unfolding timer_fires_def by (intro tauri.keeps_forms timers_keep pollOnce_keeps)

lemma delivered_keeps:
  assumes ok: "transport_ok d" and c: "current d g" "hears_events d n" "n \<in> set (gn_listeners (gen_of d g))" and e: "e = d\<lparr>tt_delivered := tt_delivered d @ [(n, frame)]\<rparr>"
  shows "transport_ok e \<and> transport_le d e"
proof -
  have o: "gen_of e h = gen_of d h" "subscriber_of e m = subscriber_of d m" "tt_generation e = tt_generation d" "tt_next e = tt_next d"
      "tt_registrations e = tt_registrations d" "tt_disposed e = tt_disposed d" "tt_exchanges e = tt_exchanges d" for h m
    by (simp_all add: e gen_of_def subscriber_of_def)
  have hb: "events_of e m = events_of d m" if "m \<noteq> n" for m using that by (simp add: e events_of_def)
  obtain x where x: "subscriber_of d n = Some x" "su_active x" "su_generation x = g"
    using ok c(2,3) unfolding transport_ok_def generations_ok_def hears_events_def by (metis option.case_eq_if option.collapse option.distinct(1) option.inject)
  have "generations_ok e" using ok unfolding transport_ok_def generations_ok_def o by simp
  moreover have "generations_le d e" by (simp add: generations_le_def o)
  moreover have "subscribers_le d e" unfolding subscribers_le_def o
  proof (intro allI impI conjI)
    fix m y assume m: "m < tt_next d \<and> subscriber_of d m = Some y \<and> su_generation y < tt_next d"
    then show "\<exists>z. subscriber_of d m = Some z \<and> su_generation z = su_generation y \<and> (su_active z \<longrightarrow> su_active y)" by blast
    assume "\<not> su_active y \<or> \<not> gn_active (gen_of d (su_generation y))"
    then have "m \<noteq> n" using m x c(1) by (auto simp: current_def)
    then show "events_of e m = events_of d m" by (rule hb)
  qed
  ultimately have "transport_ok e \<and> transport_grows d e"
    by (intro grows_same [OF ok]) (simp_all add: o same_jobs_def same_pending_def same_exchanges_def, simp_all add: e handed_def)
  moreover have "stranded e = stranded d" by (rule stranded_same) (simp_all add: o)
  ultimately show ?thesis by (simp add: transport_le_def)
qed

lemma deliver_keeps:
  assumes h: "hosts_ok te"
  shows "keeps transport_ok transport_le (deliver te g frame ns)"
proof (induction ns)
  case (Cons n ns)
  have ev: "keeps transport_ok transport_le (te_event te n frame)" using h by (simp add: hosts_ok_def)
  let ?rest = "seq (catchS (next_act (te_event te n frame) (ret True)) (next_act (retire te g (Some (Delivery_Failed, May_Have_Reached_Backend))) (ret False)))
         (\<lambda>goes_on. if goes_on then deliver te g frame ns else ret ())"
  have rest: "keeps transport_ok transport_le ?rest" by (intro tauri.keeps_forms ev Cons retire_keeps [OF h])
  show ?case unfolding deliver.simps
  proof (rule keeps_at)
    fix d :: "'a transport_scheme" assume ok: "transport_ok d"
    show "wp (if \<not> current d g then ret ()
     else if \<not> hears_events d n \<or> n \<notin> set (gn_listeners (gen_of d g)) then deliver te g frame ns
     else next_act (upd (\<lambda>d. d\<lparr>tt_delivered := tt_delivered d @ [(n, frame)]\<rparr>)) ?rest) (\<lambda>_ e. transport_ok e \<and> transport_le d e) d"
    proof (cases "current d g \<and> hears_events d n \<and> n \<in> set (gn_listeners (gen_of d g))")
      case True
      then show ?thesis using tauri.wp_later [OF rest delivered_keeps [OF ok _ _ _ refl, of g n frame]] by (simp add: wp_after_upd)
    next
      case False
      then show ?thesis using keepsD [OF Cons ok] ok by (auto simp: wp_rules tauri.le_refl)
    qed
  qed
qed (simp add: tauri.keeps_ret)

section \<open>Answers, methods and turns\<close>

lemma control_fault_keeps: "hosts_ok te \<Longrightarrow> keeps transport_ok transport_le (control_fault te g f)"
  unfolding control_fault_def by (intro tauri.keeps_forms retire_keeps)

lemma start_keeps: "hosts_ok te \<Longrightarrow> keeps transport_ok transport_le (start_generation te g)"
  unfolding start_generation_def Let_def by (intro tauri.keeps_forms upd_set_reg invoke_keeps) simp_all

lemma subscription_answered_keeps: "hosts_ok te \<Longrightarrow> keeps transport_ok transport_le (subscription_answered te g h a)"
  unfolding subscription_answered_def Let_def
  by (intro tauri.keeps_forms control_fault_keeps cleanup_keeps pollOnce_keeps tauri.keeps_upd set_gen_keeps) simp_all

lemma poll_answered_keeps: "hosts_ok te \<Longrightarrow> keeps transport_ok transport_le (poll_answered te g h a)"
  unfolding poll_answered_def by (intro tauri.keeps_forms control_fault_keeps deliver_keeps)

lemma barrier_settles_keeps:
  assumes h: "hosts_ok te" and ok: "transport_ok d" and k: "map_of (tt_jobs d) k = Some (Barrier n)"
  shows "wp (barrier_settles te k n) (\<lambda>_ e. transport_ok e \<and> transport_le d e) d"
proof (cases "exchange_of d n")
  case (Some x)
  let ?e = "end_job k d"
  note e = end_job_keeps [OF ok, of k]
  have x: "exchange_of ?e n = Some x" using Some by (simp add: end_job_def exchange_of_def)
  have only: "j = Suc m \<and> (\<forall>y. exchange_of d m = Some y \<longrightarrow> \<not> pe_sent y)" if "(j, Barrier m) \<in> set (tt_jobs d)" for j m
    using ok that by (simp add: transport_ok_def exchanges_ok_def)
  note here = only [OF map_of_SomeD [OF k]]
  then have "j = k" if "(j, Barrier n) \<in> set (tt_jobs d)" for j using only [OF that] by simp
  then have free: "(j, Barrier n) \<notin> set (tt_jobs ?e)" for j by (auto simp: end_job_def AList.delete_eq)
  have "\<not> pe_sent x" using here Some by simp
  then have t: "truthful n (Inl f) ?e" for f using x by (simp add: truthful_def)
  have broken: "transport_ok (finish_exchange n (Inl f) ?e) \<and> transport_le d (finish_exchange n (Inl f) ?e)" for f
    using finish_keeps [OF _ t, of f] e tauri.le_trans by blast
  have opened: "wp (barrier_passed te n) (\<lambda>_ f. transport_ok f \<and> transport_le d f) ?e"
    by (rule wp_mono [OF barrier_passed_keeps [OF h _ free]]) (use e tauri.le_trans in blast)+
  show ?thesis
    using Some broken opened ok unfolding barrier_settles_def wp_rules(3) by (cases "gn_barrier (gen_of d (pe_generation x))") (simp_all add: wp_after_upd, simp_all add: wp_rules tauri.le_refl)
qed (use ok in \<open>simp add: barrier_settles_def wp_rules tauri.le_refl\<close>)

text \<open>The methods.\<close>

lemma begin_keeps:
  assumes ok: "transport_ok d" and n: "tt_generation d = None" "\<not> tt_disposed d" "length (tt_registrations d) < MAX_REGISTRATIONS"
    and e: "e = begin_generation key keys d"
  shows "transport_ok e \<and> transport_le d e" "tt_next e = Suc (Suc (tt_next d))" "gn_listeners (gen_of e (Suc (tt_next d))) = []"
proof -
  let ?g = "Suc (tt_next d)"
  have f: "gen_of e h = (if h = ?g then \<lparr>gn_registration = tt_next d, gn_active = True, gn_ready = False, gn_listeners = [], gn_barrier = Closed\<rparr> else gen_of d h)" for h
    by (simp add: e begin_generation_def Let_def gen_of_def update_conv)
  have o: "subscriber_of e m = subscriber_of d m" "exchange_of e m = exchange_of d m" "events_of e m = events_of d m" "tt_generation e = Some ?g" "tt_next e = Suc ?g"
      "tt_registrations e = tt_registrations d @ [tt_next d]" "tt_disposed e = tt_disposed d" for m
    by (simp_all add: e begin_generation_def Let_def subscriber_of_def exchange_of_def events_of_def)
  have a: "\<not> gn_active (gen_of d h)" for h using ok n(1) by (simp add: transport_ok_def generations_ok_def)
  have up: "k < tt_next d \<Longrightarrow> k < Suc ?g" for k by simp
  have "generations_ok e"
    using ok n a unfolding transport_ok_def generations_ok_def f o by (auto simp: MAX_REGISTRATIONS_def intro!: up)
  moreover have "generations_le d e" "subscribers_le d e" unfolding generations_le_def subscribers_le_def f o by auto
  ultimately have "transport_ok e \<and> transport_grows d e"
    by (intro grows_same [OF ok]) (simp_all add: o same_jobs_def same_pending_def same_exchanges_def, simp_all add: e begin_generation_def Let_def handed_def)
  moreover have "stranded e \<subseteq> stranded d" by (auto simp: stranded_def o f split: if_splits)
  ultimately show "transport_ok e \<and> transport_le d e" by (simp add: transport_le_def)
  show "tt_next e = Suc (Suc (tt_next d))" "gn_listeners (gen_of e ?g) = []" by (simp_all add: o f)
qed

lemma join_keeps:
  assumes ok: "transport_ok d" and g: "g < tt_next d" "length (gn_listeners (gen_of d g)) < MAX_SUBSCRIBERS"
    and e: "e = join_generation (tt_next d) g d"
  shows "transport_ok e \<and> transport_le d e"
proof -
  let ?n = "tt_next d"
  have f: "gen_of e h = (if h = g then (gen_of d g)\<lparr>gn_listeners := gn_listeners (gen_of d g) @ [?n]\<rparr> else gen_of d h)" for h
    by (simp add: e join_generation_def gen_of_set) (simp add: gen_of_def)
  have s: "subscriber_of e m = (if m = ?n then Some \<lparr>su_active = True, su_generation = g\<rparr> else subscriber_of d m)" for m
    by (simp add: e join_generation_def subscriber_of_def set_gen_def update_conv)
  have o: "events_of e m = events_of d m" "tt_generation e = tt_generation d" "tt_next e = Suc ?n" "tt_registrations e = tt_registrations d"
      "tt_disposed e = tt_disposed d" "tt_exchanges e = tt_exchanges d" for m
    by (simp_all add: e join_generation_def set_gen_def events_of_def)
  have new: "?n \<notin> set (gn_listeners (gen_of d h))" for h using ok unfolding transport_ok_def generations_ok_def by blast
  have "generations_ok e" using ok g new unfolding transport_ok_def generations_ok_def f o s by (auto intro: less_SucI)
  moreover have "generations_le d e" "subscribers_le d e" unfolding generations_le_def subscribers_le_def f o s by auto
  ultimately have "transport_ok e \<and> transport_grows d e"
    by (intro grows_same [OF ok]) (simp_all add: o same_jobs_def same_pending_def same_exchanges_def, simp_all add: e join_generation_def set_gen_def handed_def)
  moreover have "stranded e = stranded d" by (rule stranded_same) (simp_all add: o f)
  ultimately show ?thesis by (simp add: transport_le_def)
qed

lemma listen_from:
  assumes h: "hosts_ok te" and e: "transport_ok e \<and> transport_le d e" and g: "g < tt_next e" "length (gn_listeners (gen_of e g)) < MAX_SUBSCRIBERS"
  shows "wp (listen_to te g) (\<lambda>_ f. transport_ok f \<and> transport_le d f) e"
proof -
  let ?f = "join_generation (tt_next e) g e"
  have f: "transport_ok ?f \<and> transport_le d ?f" using join_keeps [OF _ g refl] e tauri.le_trans by blast
  have "keeps transport_ok transport_le (withS (\<lambda>d. let x = gen_of d g in
     next_act (if length (gn_listeners x) = 1 \<and> \<not> gn_ready x \<and> rg_controls (reg_of d (gn_registration x)) = 0 then start_generation te g else ret ()) (ret (Some n))))" for n
    unfolding Let_def by (intro tauri.keeps_forms start_keeps [OF h])
  from tauri.wp_later [OF this f, of "tt_next e"] show ?thesis unfolding listen_to_def wp_rules(3) Let_def wp_after_upd .
qed

lemma fault_told_keeps:
  assumes "hosts_ok te"
  shows "keeps transport_ok transport_le (upd (\<lambda>d. te_fault te (tt_next d) (f d) (d\<lparr>tt_next := Suc (tt_next d)\<rparr>)))"
proof (rule tauri.keeps_upd)
  fix d :: "'a transport_scheme" assume ok: "transport_ok d"
  have "keeps transport_ok transport_le (upd (te_fault te (tt_next d) (f d)))" using assms unfolding hosts_ok_def by blast
  from keeps_updD [OF this next_keeps [OF ok, THEN conjunct1]] next_keeps [OF ok]
  show "transport_ok (te_fault te (tt_next d) (f d) (d\<lparr>tt_next := Suc (tt_next d)\<rparr>))
      \<and> transport_le d (te_fault te (tt_next d) (f d) (d\<lparr>tt_next := Suc (tt_next d)\<rparr>))"
    using tauri.le_trans by blast
qed

lemma subscribe_keeps:
  assumes h: "hosts_ok te"
  shows "keeps transport_ok transport_le (transport_subscribe te)"
  unfolding transport_subscribe_def
proof (rule keeps_at)
  fix d :: "'a transport_scheme" assume ok: "transport_ok d"
  have told: "keeps transport_ok transport_le (next_act (upd (\<lambda>d. te_fault te (tt_next d) (f d) (d\<lparr>tt_next := Suc (tt_next d)\<rparr>))) (ret x))" for f and x :: "nat option"
    by (intro tauri.keeps_forms fault_told_keeps [OF h])
  have new: "wp (next_act (upd (begin_generation key keys)) (listen_to te (Suc (tt_next d)))) (\<lambda>_ e. transport_ok e \<and> transport_le d e) d"
    if "\<not> subscription_refused d" "tt_generation d = None" for key keys
  proof -
    have "\<not> tt_disposed d" "length (tt_registrations d) < MAX_REGISTRATIONS" using that by (simp_all add: subscription_refused_def)
    note e = begin_keeps [OF ok that(2) this refl, of key keys]
    show ?thesis unfolding wp_after_upd by (rule listen_from [OF h e(1)]) (simp_all add: e MAX_SUBSCRIBERS_def)
  qed
  have join: "wp (listen_to te g) (\<lambda>_ e. transport_ok e \<and> transport_le d e) d" if "\<not> subscription_refused d" "tt_generation d = Some g" for g
    using that ok by (intro listen_from [OF h]) (simp_all add: tauri.le_refl subscription_refused_def transport_ok_def generations_ok_def)
  show "wp (if subscription_refused d then
       next_act (upd (\<lambda>d. te_fault te (tt_next d) (if tt_disposed d then Unavailable_Binding else Disconnected, Not_Sent) (d\<lparr>tt_next := Suc (tt_next d)\<rparr>))) (ret None)
     else (case tt_generation d of
         Some g \<Rightarrow> listen_to te g
       | None \<Rightarrow> (case allocate_key (tt_keys d) of
             Inl _ \<Rightarrow> next_act (upd (\<lambda>d. te_fault te (tt_next d) (Unavailable_Binding, Not_Sent) (d\<lparr>tt_next := Suc (tt_next d)\<rparr>))) (ret None)
           | Inr (key, keys) \<Rightarrow> next_act (upd (begin_generation key keys)) (listen_to te (Suc (tt_next d))))))
     (\<lambda>_ e. transport_ok e \<and> transport_le d e) d"
  proof (cases "subscription_refused d")
    case True
    then show ?thesis by simp (rule keepsD [OF told ok])
  next
    case False
    show ?thesis
    proof (cases "tt_generation d")
      case None
      then show ?thesis using False new keepsD [OF told ok]
        by (cases "allocate_key (tt_keys d)") (simp, simp split: prod.split)
    next
      case (Some g)
      then show ?thesis using False join by simp
    qed
  qed
qed

lemma unsubscribe_keeps: "hosts_ok te \<Longrightarrow> keeps transport_ok transport_le (transport_unsubscribe te n)"
  unfolding transport_unsubscribe_def Let_def
proof (intro tauri.keeps_forms retire_keeps tauri.keeps_upd)
  fix x and d :: "'a transport_scheme" assume ok: "transport_ok d"
  let ?e = "silence n d"
  have e: "transport_ok ?e" "transport_le d ?e" using silence_keeps [OF ok] by auto
  have l: "length (removeAll n ns) \<le> length ns" for ns :: "nat list" unfolding removeAll_filter_not_eq by (rule length_filter_le)
  show "transport_ok (set_gen (su_generation x) (\<lambda>y. y\<lparr>gn_listeners := removeAll n (gn_listeners y)\<rparr>) ?e)
     \<and> transport_le d (set_gen (su_generation x) (\<lambda>y. y\<lparr>gn_listeners := removeAll n (gn_listeners y)\<rparr>) ?e)"
    using set_gen_keeps [OF e(1), of "\<lambda>y. y\<lparr>gn_listeners := removeAll n (gn_listeners y)\<rparr>" "su_generation x"] l e(2) tauri.le_trans by (simp, blast)
qed

text \<open>A job is given up, its callback runs, and what is left of it is entered under its number.\<close>

lemma answer_with:
  assumes ok: "transport_ok d" and k: "k \<in> fst ` set (tt_jobs d)" and body: "keeps transport_ok transport_le body"
    and j: "\<And>x. poll_job (j x) \<Longrightarrow> tt_poll d = Some k" "\<And>x. sends (j x) = None"
  shows "wp (next_act (upd (end_job k)) (seq body (\<lambda>x. upd (enter_job k (j x))))) (\<lambda>_ e. transport_ok e \<and> transport_le d e) d"
proof -
  let ?c = "end_job k d"
  note c = end_job_keeps [OF ok, of k]
  have kd: "k < tt_next d" using k ok by (auto simp: transport_ok_def jobs_ok_def)
  have kc: "k < tt_next ?c" "k \<notin> fst ` set (tt_jobs ?c)" "tt_poll ?c = tt_poll d" using kd by (simp_all add: end_job_def AList.delete_notin_dom)
  have "transport_ok (enter_job k (j x) e) \<and> transport_le d (enter_job k (j x) e)" if e: "transport_ok e" "transport_le ?c e" for e x
  proof (rule enter_job_keeps)
    have "jobs_le ?c e" using e(2) by (simp add: transport_le_def transport_grows_def)
    then show "k < tt_next e" "k \<notin> fst ` set (tt_jobs e)" "poll_job (j x) \<Longrightarrow> tt_poll e = Some k"
      using kc j(1) by (auto simp: jobs_le_def)
    show "transport_le d e" using c e(2) tauri.le_trans by blast
  qed (use e(1) k j(2) [of x] in auto)
  then have after: "wp (upd (enter_job k (j x))) (\<lambda>_ e. transport_ok e \<and> transport_le d e) e" if "transport_ok e \<and> transport_le ?c e" for e x
    using that by (simp add: wp_rules)
  show ?thesis unfolding wp_after_upd unfolding wp_seq
    by (rule wp_mono [OF keepsD [OF body]]) (use c after tauri.le_trans in blast)+
qed

lemma answers_keep:
  assumes h: "hosts_ok te" and ok: "transport_ok d" and k: "map_of (tt_jobs d) k = Some j"
  shows "wp (answer_arrives te k hp a j) (\<lambda>_ e. transport_ok e \<and> transport_le d e) d"
proof -
  note member = map_of_SomeD [OF k]
  then have dom: "k \<in> fst ` set (tt_jobs d)" by force
  show ?thesis
  proof (cases j)
    case (Subscribing g)
    then show ?thesis unfolding answer_arrives_def
      using answer_with [OF ok dom subscription_answered_keeps [OF h], of "\<lambda>_. Control_Ended (gn_registration (gen_of d g))" g hp a]
      by (simp add: wp_rules(3))
  next
    case (Polling g)
    then have "tt_poll d = Some k" using member ok by (simp add: transport_ok_def jobs_ok_def)
    then show ?thesis using Polling answer_with [OF ok dom poll_answered_keeps [OF h], of "Poll_Ended g" g hp a] by (simp add: answer_arrives_def)
  next
    case (Unsubscribing r)
    then show ?thesis using answer_with [OF ok dom tauri.keeps_ret, of "\<lambda>_. Control_Ended r" "()"] by (simp add: answer_arrives_def wp_rules)
  next
    case (Sending n)
    let ?c = "end_job k d"
    let ?e = "sending_answered n hp a ?c"
    note c = end_job_keeps [OF ok, of k]
    note e = sending_keeps [OF c [THEN conjunct1], of n hp a]
    have le: "jobs_le ?c ?e" using e(1) by (simp add: transport_le_def transport_grows_def)
    have "\<forall>k j n. (k, j) \<in> set (tt_jobs d) \<and> sends j = Some n \<longrightarrow> n < tt_next d" using ok by (simp add: transport_ok_def exchanges_ok_def)
    then have "n < tt_next d" using member Sending sends.simps(1) [of n] by blast
    moreover have "k < tt_next d" using member ok by (auto simp: transport_ok_def jobs_ok_def)
    ultimately have kd: "k < tt_next d" "n < tt_next d" by blast+
    then have kc: "k < tt_next ?c" "k \<notin> fst ` set (tt_jobs ?c)" "n < tt_next ?c" by (simp_all add: end_job_def AList.delete_notin_dom)
    have "transport_ok (enter_job k (Sending_Ended n) ?e) \<and> transport_le d (enter_job k (Sending_Ended n) ?e)"
    proof (rule enter_job_keeps)
      show "transport_le d ?e" using c e(1) tauri.le_trans by blast
      show "k < tt_next ?e" "k \<notin> fst ` set (tt_jobs ?e)" using le kc by (auto simp: jobs_le_def)
      show "m < tt_next ?e" if "sends (Sending_Ended n) = Some m" for m using that le kc(3) by (simp add: jobs_le_def)
    qed (use e dom in auto)
    then show ?thesis using Sending by (simp add: answer_arrives_def wp_rules)
  qed (simp_all add: answer_arrives_def wp_rules ok tauri.le_refl)
qed

lemma poll_ends:
  assumes ok: "transport_ok d" and k: "k \<in> fst ` set (tt_jobs d)" and e: "e = (let c = end_job k d in if tt_poll c = Some k then c\<lparr>tt_poll := None\<rparr> else c)"
  shows "transport_ok e \<and> transport_le d e"
proof (rule jobs_moved [OF ok])
  have f: "tt_jobs e = AList.delete k (tt_jobs d)" "tt_poll e = (if tt_poll d = Some k then None else tt_poll d)" "tt_next e = tt_next d"
    by (simp_all add: e Let_def end_job_def)
  have sub: "set (tt_jobs e) \<subseteq> set (tt_jobs d)" "k \<notin> fst ` set (tt_jobs e)" unfolding f by (auto simp: AList.delete_eq)
  have "distinct (map fst (tt_jobs e))" using ok by (simp add: f transport_ok_def jobs_ok_def distinct_delete)
  moreover have "m < tt_next e \<and> (poll_job j \<longrightarrow> tt_poll e = Some m)" if "(m, j) \<in> set (tt_jobs e)" for m j
  proof -
    from that sub(1) have d: "(m, j) \<in> set (tt_jobs d)" by blast
    have "m \<noteq> k" using that sub(2) by force
    then show ?thesis using d ok by (auto simp: f transport_ok_def jobs_ok_def)
  qed
  ultimately show "jobs_ok e" using ok by (simp add: f(2,3) transport_ok_def jobs_ok_def)
  show "jobs_le d e" using sub k unfolding jobs_le_def f(2,3) by auto
  show "same_exchanges d e" using sub(1) by (auto simp: same_exchanges_def) (simp_all add: e Let_def end_job_def handed_def)
qed (simp_all add: e Let_def end_job_def same_pending_def same_generations_def gen_of_def)

lemma turns_keep:
  assumes h: "hosts_ok te" and ok: "transport_ok d" and k: "map_of (tt_jobs d) k = Some j"
  shows "wp (turned te k j) (\<lambda>_ e. transport_ok e \<and> transport_le d e) d"
proof -
  note member = map_of_SomeD [OF k]
  then have dom: "k \<in> fst ` set (tt_jobs d)" by force
  note c = end_job_keeps [OF ok, of k]
  show ?thesis
  proof (cases j)
    case (Control_Ended r)
    then show ?thesis using control_ends_keeps [OF c [THEN conjunct1]] c tauri.le_trans by (auto simp: turned_def wp_rules)
  next
    case (Sending_Ended n)
    have "pe_settled x" if "exchange_of (end_job k d) n = Some x" for x
      using that member Sending_Ended ok by (auto simp: transport_ok_def exchanges_ok_def end_job_def exchange_of_def)
    then show ?thesis using Sending_Ended release_keeps [OF c [THEN conjunct1], of n] c tauri.le_trans by (auto simp: turned_def wp_rules)
  next
    case (Poll_Ended g delay)
    let ?e = "let e = end_job k d in if tt_poll e = Some k then e\<lparr>tt_poll := None\<rparr> else e"
    have e: "transport_ok ?e \<and> transport_le d ?e" by (rule poll_ends [OF ok dom refl])
    let ?f = "control_ends (gn_registration (gen_of d g)) ?e"
    have f: "transport_ok ?f \<and> transport_le d ?f" using control_ends_keeps e tauri.le_trans by blast
    have "keeps transport_ok transport_le (withS (\<lambda>d. case delay of None \<Rightarrow> ret () | Some n \<Rightarrow> if current d g then schedule_poll te g n else ret ()))"
      by (intro tauri.keeps_forms schedule_keeps [OF h])
    from tauri.wp_later [OF this f] show ?thesis unfolding Poll_Ended turned_def job.case wp_after_upd .
  next
    case (Barrier n)
    then show ?thesis using barrier_settles_keeps [OF h ok] k by (simp add: turned_def)
  qed (simp_all add: turned_def wp_rules ok tauri.le_refl)
qed

section \<open>Every step\<close>

lemma act_keeps:
  assumes h: "hosts_ok te"
  shows "keeps transport_ok transport_le (transport_act te m)"
proof (cases m)
  case (Tauri_Answer k hp a)
  then show ?thesis unfolding transport_act_def
    using answers_keep [OF h] by (auto intro!: keeps_at simp: wp_rules tauri.le_refl split: option.split)
next
  case (Tauri_Turn k)
  then show ?thesis unfolding transport_act_def
    using turns_keep [OF h] by (auto intro!: keeps_at simp: wp_rules tauri.le_refl split: option.split)
qed (simp_all add: transport_act_def tauri.keeps_seq tauri.keeps_ret subscribe_keeps [OF h] unsubscribe_keeps [OF h] dispose_keeps [OF h]
    timer_fires_keeps [OF h] tauri.keeps_upd exchange_enters_keeps signal_keeps)

lemma step_keeps: "hosts_ok te \<Longrightarrow> transport_ok d \<Longrightarrow> transport_ok (transport_step te m d) \<and> transport_le d (transport_step te m d)"
  unfolding transport_step_def by (rule keeps_snd [OF act_keeps])

lemma transport_runs: "hosts_ok te \<Longrightarrow> transport_ok d \<Longrightarrow> transport_ok (fold (transport_step te) ms d) \<and> transport_le d (fold (transport_step te) ms d)"
  by (rule fold_keeps [OF step_keeps])

end
