(* ===== verification/Tauri_Claims.thy ===== *)
theory Tauri_Claims imports Tauri_Steps begin

text \<open>What the desktop transport promises its client, over any steps and with a host, listeners and a clock that may call back.\<close>

section \<open>Hosts that call back\<close>

definition as_it_was :: "'w transport_scheme \<Rightarrow> 'w transport_scheme \<Rightarrow> bool" where
  "as_it_was d e \<longleftrightarrow> transport.truncate e = transport.truncate d"

text \<open>
  Whatever is called touches the transport only by the transport's own methods, the timers' callbacks and the promises, which may call out
  again; the calls nest finitely often. A listener and the clock may throw.
\<close>

inductive polite_host :: "'w transport_env \<Rightarrow> bool" where
  only_answers: "(\<And>i d. as_it_was d (te_invoke te i d)) \<Longrightarrow> (\<And>n f d. as_it_was d (snd (te_event te n f d))) \<Longrightarrow> (\<And>n f d. as_it_was d (te_fault te n f d))
    \<Longrightarrow> (\<And>k t d. as_it_was d (snd (te_schedule te k t d))) \<Longrightarrow> (\<And>t d. as_it_was d (snd (te_cancel te t d))) \<Longrightarrow> polite_host te"
| calls_again: "polite_host inner \<Longrightarrow> (\<And>i d. \<exists>ms. as_it_was (fold (transport_step inner) ms d) (te_invoke te i d))
    \<Longrightarrow> (\<And>n f d. \<exists>ms. as_it_was (fold (transport_step inner) ms d) (snd (te_event te n f d)))
    \<Longrightarrow> (\<And>n f d. \<exists>ms. as_it_was (fold (transport_step inner) ms d) (te_fault te n f d))
    \<Longrightarrow> (\<And>k t d. \<exists>ms. as_it_was (fold (transport_step inner) ms d) (snd (te_schedule te k t d)))
    \<Longrightarrow> (\<And>t d. \<exists>ms. as_it_was (fold (transport_step inner) ms d) (snd (te_cancel te t d))) \<Longrightarrow> polite_host te"

lemma as_it_was_keeps: "transport_ok d \<Longrightarrow> as_it_was d e \<Longrightarrow> transport_ok e \<and> transport_le d e"
  by (rule transport_same) (simp_all add: as_it_was_def transport.truncate_def same_defs handed_def gen_of_def)

lemma keeps_snd_iff: "keeps ok le m \<longleftrightarrow> (\<forall>d. ok d \<longrightarrow> ok (snd (m d)) \<and> le d (snd (m d)))"
  by (simp add: keeps_def wp_after)

lemma hosts_okI:
  assumes "\<And>i d. transport_ok d \<Longrightarrow> transport_ok (te_invoke te i d) \<and> transport_le d (te_invoke te i d)"
    "\<And>n f d. transport_ok d \<Longrightarrow> transport_ok (snd (te_event te n f d)) \<and> transport_le d (snd (te_event te n f d))"
    "\<And>n f d. transport_ok d \<Longrightarrow> transport_ok (te_fault te n f d) \<and> transport_le d (te_fault te n f d)"
    "\<And>k t d. transport_ok d \<Longrightarrow> transport_ok (snd (te_schedule te k t d)) \<and> transport_le d (snd (te_schedule te k t d))"
    "\<And>t d. transport_ok d \<Longrightarrow> transport_ok (snd (te_cancel te t d)) \<and> transport_le d (snd (te_cancel te t d))"
  shows "hosts_ok te"
  using assms by (simp add: hosts_ok_def keeps_snd_iff upd_def)

lemma polite_hosts_ok: "polite_host te \<Longrightarrow> hosts_ok te"
proof (induction rule: polite_host.induct)
  case (only_answers te)
  show ?case by (rule hosts_okI; rule as_it_was_keeps) (simp_all add: only_answers)
next
  case (calls_again inner te)
  have again: "transport_ok e \<and> transport_le d e" if "transport_ok d" "\<exists>ms. as_it_was (fold (transport_step inner) ms d) e" for d e
  proof -
    from that(2) obtain ms where "as_it_was (fold (transport_step inner) ms d) e" ..
    then show ?thesis using transport_runs [OF calls_again.IH that(1), of ms] as_it_was_keeps tauri.le_trans by blast
  qed
  show ?case by (rule hosts_okI; rule again) (simp_all only: calls_again.hyps)
qed

lemma new_transport_ok:
  assumes "new_transport keys = Inr t" "transport.truncate d = t"
  shows "transport_ok d" "stranded d = {}"
proof -
  have d: "tt_jobs d = []" "tt_poll d = None" "tt_exchanges d = []" "tt_pending d = []" "tt_pendingBytes d = 0" "tt_outcomes d = []" "tt_invoked d = []"
      "tt_generations d = []" "tt_generation d = None" "tt_registrations d = []" "tt_subscribers d = []" "tt_disposed d = False"
    using assms by (auto simp: new_transport_def claim_keys_def transport.truncate_def split: if_splits)
  then show "transport_ok d" "stranded d = {}"
    by (auto simp: transport_ok_def jobs_ok_def pending_ok_def exchanges_ok_def generations_ok_def exchange_of_def handed_def gen_of_def subscriber_of_def
      stranded_def)
qed

section \<open>The properties\<close>

text \<open>
  C38: Over any steps of a new transport, with a host, listeners and a clock that call back at will: an exchange is handed to the host at most
  once, and an exchange that was handed over ends with the statement that it was not sent only when the host itself has reported that.
\<close>

theorem unsent_is_true:
  fixes te :: "'w transport_env"
  assumes "polite_host te" "new_transport keys = Inr t" "transport.truncate d = t" "e = fold (transport_step te) moves d"
  shows "handed e n \<le> 1 \<and> ((n, Inl (c, Not_Sent)) \<in> set (tt_outcomes e) \<and> 0 < handed e n \<longrightarrow> (n, (c, Not_Sent)) \<in> set (tt_reported e))"
proof -
  have "transport_ok e" using transport_runs [OF polite_hosts_ok [OF assms(1)] new_transport_ok(1) [OF assms(2,3)]] assms(4) by blast
  then have ok: "exchanges_ok e" by (simp add: transport_ok_def)
  show ?thesis
  proof (cases "exchange_of e n")
    case None
    then show ?thesis using ok by (simp add: exchanges_ok_def)
  next
    case (Some x)
    then have "exchange_ok e n x" using ok by (simp add: exchanges_ok_def)
    then show ?thesis by (auto simp: exchange_ok_def)
  qed
qed

text \<open>
  C39: Over any steps of a new transport, with a host, listeners and a clock that call back at will: at most 32 exchanges hold the
  quota, the bytes counted for them are the sum of theirs and at most eight mebibytes, at most eight registrations are known and eight
  subscribers share a generation, and at most one poll is in flight.
\<close>

theorem transport_stays_bounded:
  fixes te :: "'w transport_env"
  assumes "polite_host te" "new_transport keys = Inr t" "transport.truncate d = t" "e = fold (transport_step te) moves d"
  shows "length (tt_pending e) \<le> 32 \<and> tt_pendingBytes e = sum_list (map (exchange_bytes e) (tt_pending e)) \<and> tt_pendingBytes e \<le> 8388608
    \<and> length (tt_registrations e) \<le> 8 \<and> length (gn_listeners (gen_of e g)) \<le> 8 \<and> length (filter (\<lambda>p. poll_job (snd p)) (tt_jobs e)) \<le> 1"
proof -
  have ok: "transport_ok e" using transport_runs [OF polite_hosts_ok [OF assms(1)] new_transport_ok(1) [OF assms(2,3)]] assms(4) by blast
  let ?polls = "filter (\<lambda>p. poll_job (snd p)) (tt_jobs e)"
  have "distinct (map fst ?polls)" using ok by (simp add: transport_ok_def jobs_ok_def distinct_map_filter)
  moreover have "fst ` set ?polls \<subseteq> set_option (tt_poll e)" using ok by (auto simp: transport_ok_def jobs_ok_def)
  moreover have "card (set (map fst ?polls)) \<le> card (set_option (tt_poll e))" using calculation(2) by (intro card_mono) (cases "tt_poll e"; simp)+
  ultimately have "length ?polls \<le> card (set_option (tt_poll e))" using distinct_card [of "map fst ?polls"] by simp
  then have "length ?polls \<le> 1" by (cases "tt_poll e") auto
  then show ?thesis using ok
    by (auto simp: transport_ok_def pending_ok_def generations_ok_def MAX_REQUESTS_def MAX_REQUEST_BYTES_def MAX_REGISTRATIONS_def MAX_SUBSCRIBERS_def)
qed

text \<open>
  C40: A disposed transport has settled every exchange, each with exactly one outcome, and no subscriber it had is ever told of an event again,
  whatever the host, the listeners and the clock still do.
\<close>

theorem disposed_transport_settles:
  fixes te :: "'w transport_env"
  assumes "polite_host te" "new_transport keys = Inr t" "transport.truncate d = t" "e = fold (transport_step te) moves d" "tt_disposed e"
    and "f = fold (transport_step te) later e"
  shows "(exchange_of e n = Some x \<longrightarrow> (\<exists>!r. (n, r) \<in> set (tt_outcomes e))) \<and> (subscriber_of e m = Some s \<longrightarrow> events_of f m = events_of e m)"
proof -
  note h = polite_hosts_ok [OF assms(1)]
  note start = new_transport_ok [OF assms(2,3)]
  have e: "transport_ok e" "stranded e = {}" using transport_runs [OF h start(1), of moves] start(2) by (auto simp: assms(4) transport_le_def)
  have none: "\<not> gn_active (gen_of e g)" for g using e(1) assms(5) by (simp add: transport_ok_def generations_ok_def)
  have "\<exists>!r. (n, r) \<in> set (tt_outcomes e)" if "exchange_of e n = Some x"
  proof -
    have "pe_settled x" using e(2) that none by (auto simp: stranded_def)
    then have "n \<in> fst ` set (tt_outcomes e)" using exchange_okD [OF e(1) that] by (simp add: exchange_ok_def)
    moreover have "distinct (map fst (tt_outcomes e))" using e(1) by (simp add: transport_ok_def exchanges_ok_def)
    ultimately show ?thesis by (auto dest: map_of_is_SomeI) (metis map_of_is_SomeI option.inject)
  qed
  moreover have "events_of f m = events_of e m" if s: "subscriber_of e m = Some s"
  proof -
    have "subscribers_le e f" using transport_runs [OF h e(1), of later] by (simp add: assms(6) transport_le_def transport_grows_def)
    moreover have "m < tt_next e \<and> su_generation s < tt_next e" using e(1) s by (simp add: transport_ok_def generations_ok_def)
    ultimately show ?thesis using s none unfolding subscribers_le_def by blast
  qed
  ultimately show ?thesis by blast
qed

section \<open>A run\<close>

definition example_host :: "unit transport_env" where
  "example_host = \<lparr>te_invoke = (\<lambda>i d. d), te_event = (\<lambda>n f. ret ()), te_fault = (\<lambda>n f d. d), te_schedule = (\<lambda>k t. ret ()), te_cancel = (\<lambda>t. ret ())\<rparr>"

definition example_keys :: registration_keys where
  "example_keys = \<lparr>tk_epoch = U ''00000000-0000-4000-8000-000000000001'', tk_ordinal = 0, tk_claimed = False\<rparr>"

definition example_transport :: transport where
  "example_transport = (case new_transport example_keys of Inr t \<Rightarrow> t | Inl _ \<Rightarrow> undefined)"

lemma example_host_polite: "polite_host example_host"
  by (rule only_answers) (simp_all add: example_host_def as_it_was_def ret_def)

lemma example_transport_new: "new_transport example_keys = Inr example_transport" "transport.truncate example_transport = example_transport"
  by (simp_all add: example_transport_def new_transport_def claim_keys_def example_keys_def transport.truncate_def)

text \<open>A subscriber, an exchange that waits for the registration, its acknowledgement, and a refusal by the host that says that nothing was sent.\<close>

definition control_object :: "(string \<times> fv) list \<Rightarrow> heap" where
  "control_object kvs = (\<lambda>_. \<lparr>is_arr = False, proto = ObjectPrototype, own_props = map (\<lambda>(k, v). (U k, DataProperty v True)) kvs, symbol_keys = 0\<rparr>)"

definition example_ack :: heap where
  "example_ack = control_object [(''schemaVersion'', FInt 1), (''registrationKey'', FStr (U ''00000000-0000-4000-8000-000000000001:1''))]"

definition example_refusal :: heap where
  "example_refusal = control_object [(''schemaVersion'', FInt 1), (''code'', FStr (U ''disconnected'')), (''delivery'', FStr (U ''not_sent''))]"

definition example_run :: "transport_move list" where
  "example_run = [Tauri_Subscribe, Tauri_Exchange (U ''x'') False, Tauri_Answer 3 example_ack (Inr (FRef 0)), Tauri_Turn 5,
     Tauri_Answer 7 example_refusal (Inl (FRef 0))]"

text \<open>Running an action: the state is evaluated first, and only the branch that is taken.\<close>

lemma run_rules:
  "withS h s = h s s" "seq m f s = (case m s of (Inl e, t) \<Rightarrow> (Inl e, t) | (Inr x, t) \<Rightarrow> f x t)" "upd g s = (Inr (), g s)" "ret y s = (Inr y, s)"
  "(if b then p else q) s = (if b then p s else q s)"
  by (simp_all add: withS_def seq_def upd_def ret_def)

lemma run_congs: "s = s' \<Longrightarrow> withS h s = withS h s'" "s = s' \<Longrightarrow> seq m f s = seq m f s'" "s = s' \<Longrightarrow> upd g s = upd g s'"
  by simp_all

lemmas run_defs = new_transport_def claim_keys_def transport_step_def transport_act_def
    transport_subscribe_def subscription_refused_def allocate_key_def Let_def begin_generation_def listen_to_def join_generation_def start_generation_def
    invokeT_def set_gen_def set_reg_def gen_of_def reg_of_def enter_job_def end_job_def
    transport_exchange_def frameBytes_def surrogate_defs enter_exchange_def set_exchange_def
    transport_dispose_def retire_def inactive_def cancel_timer_def leave_generation_def silence_def subscriber_of_def end_one_def exchange_of_def
    finish_exchange_def outcome_is_def release_exchange_def where_it_is_def cleanup_def answer_arrives_def subscription_answered_def current_def pollOnce_def
    turned_def barrier_settles_def barrier_passed_def sending_answered_def open_barrier_def

lemmas run_values = U64_MAX_def MAX_FRAME_BYTES_def MAX_REQUESTS_def MAX_REQUEST_BYTES_def MAX_REGISTRATIONS_def MAX_SUBSCRIBERS_def U_def
    example_host_def example_transport_def example_keys_def example_run_def

lemma example_ack_reads: "control_acknowledgement example_ack (FRef 0) (U ''00000000-0000-4000-8000-000000000001:1'')"
  by (simp add: control_acknowledgement_def control_record_def example_ack_def control_object_def data_property_def)

lemma example_refused: "invokeFault example_refusal (FRef 0) = (Disconnected, Not_Sent)"
  by (simp add: invokeFault_def control_record_def example_refusal_def control_object_def data_property_def transport_code_def transport_delivery_def)



lemma one_digit: "nat_string (Suc 0) = [49]"
  by (simp add: nat_string.simps)

lemma small_numbers: "(3::nat) = Suc (Suc (Suc 0))" "(4::nat) = Suc (Suc (Suc (Suc 0)))" "(5::nat) = Suc (Suc (Suc (Suc (Suc 0))))"
    "(7::nat) = Suc (Suc (Suc (Suc (Suc (Suc (Suc 0))))))"
  by simp_all



definition example_waiting :: transport where
  "example_waiting = (let key = U ''00000000-0000-4000-8000-000000000001:1'' in
     \<lparr>tt_keys = example_keys\<lparr>tk_ordinal := 1, tk_claimed := True\<rparr>, tt_disposed = False, tt_generation = Some 1, tt_poll = Some 6, tt_timer = None,
       tt_registrations = [0], tt_pending = [4], tt_pendingBytes = 1, tt_next = 7, tt_subscribers = [(2, \<lparr>su_active = True, su_generation = 1\<rparr>)],
       tt_regs = [(0, \<lparr>rg_key = key, rg_retired = False, rg_controls = 2, rg_cleanupAttempts = 0\<rparr>)],
       tt_generations = [(1, \<lparr>gn_registration = 0, gn_active = True, gn_ready = True, gn_listeners = [2], gn_barrier = Opened\<rparr>)],
       tt_exchanges = [(4, \<lparr>pe_generation = 1, pe_bytes = 1, pe_frame = Some (U ''x''), pe_sent = False, pe_settled = False, pe_released = False, pe_aborted = False\<rparr>)],
       tt_timers = [], tt_jobs = [(5, Barrier 4), (6, Polling 1), (3, Control_Ended 0)], tt_invoked = [Bridge_Subscribe key, Bridge_Poll key],
       tt_outcomes = [], tt_reported = [], tt_delivered = []\<rparr>)"

abbreviation example_steps :: "transport_move list \<Rightarrow> transport \<Rightarrow> transport" where
  "example_steps \<equiv> fold (transport_step example_host)"

lemmas run_simps = run_defs run_values run_rules one_digit example_waiting_def

lemma example_registered: "example_steps (take 3 example_run) example_transport = example_waiting"
  using example_ack_reads by (simp add: run_simps cong: run_congs)

lemma example_refusal_ends:
  assumes "e = example_steps [Tauri_Turn 5, Tauri_Answer 7 example_refusal (Inl (FRef 0))] example_waiting"
  shows "tt_outcomes e = [(4, Inl (Disconnected, Not_Sent))]" "handed e 4 = 1"
  using example_refused unfolding assms by (simp_all add: run_simps handed_def cong: run_congs)

lemma example_disposal:
  assumes "e = example_steps [Tauri_Turn 5, Tauri_Dispose] example_waiting"
  shows "tt_disposed e" "exchange_of e 4 \<noteq> None"
  unfolding assms by (simp_all add: run_simps cong: run_congs)

theorem unsent_is_true_witness:
  "polite_host example_host \<and> (let e = example_steps (take 5 example_run) example_transport in
     tt_outcomes e = [(4, Inl (Disconnected, Not_Sent))] \<and> handed e 4 = 1 \<and> (4, (Disconnected, Not_Sent)) \<in> set (tt_reported e))"
proof -
  define e where "e = example_steps (take 5 example_run) example_transport"
  have "e = example_steps [Tauri_Turn 5, Tauri_Answer 7 example_refusal (Inl (FRef 0))] (example_steps (take 3 example_run) example_transport)"
    by (simp add: e_def example_run_def)
  note run = example_refusal_ends [OF this [unfolded example_registered]]
  have "(4, (Disconnected, Not_Sent)) \<in> set (tt_reported e)"
    using unsent_is_true [OF example_host_polite example_transport_new e_def, of 4 Disconnected] by (simp add: run)
  then show ?thesis using run example_host_polite unfolding e_def [symmetric] Let_def by blast
qed

theorem transport_stays_bounded_witness:
  "polite_host example_host \<and> (let e = example_steps (take 3 example_run) example_transport in
     tt_pending e = [4] \<and> tt_pendingBytes e = 1 \<and> length (filter (\<lambda>p. poll_job (snd p)) (tt_jobs e)) \<le> 1)"
proof -
  define e where "e = example_steps (take 3 example_run) example_transport"
  have "tt_pending e = [4]" "tt_pendingBytes e = 1" by (simp_all add: e_def example_registered example_waiting_def Let_def)
  moreover have "length (filter (\<lambda>p. poll_job (snd p)) (tt_jobs e)) \<le> 1"
    using transport_stays_bounded [OF example_host_polite example_transport_new e_def] by blast
  ultimately show ?thesis using example_host_polite unfolding e_def [symmetric] Let_def by blast
qed

theorem disposed_transport_settles_witness:
  "polite_host example_host \<and> (let e = example_steps (take 3 example_run @ [Tauri_Turn 5, Tauri_Dispose]) example_transport in
     tt_disposed e \<and> (\<exists>!r. (4, r) \<in> set (tt_outcomes e)))"
proof -
  define e where "e = example_steps (take 3 example_run @ [Tauri_Turn 5, Tauri_Dispose]) example_transport"
  have "e = example_steps [Tauri_Turn 5, Tauri_Dispose] example_waiting" unfolding e_def fold_append o_apply example_registered ..
  note run = example_disposal [OF this]
  then obtain x where "exchange_of e 4 = Some x" by blast
  then have "\<exists>!r. (4, r) \<in> set (tt_outcomes e)"
    using disposed_transport_settles [OF example_host_polite example_transport_new e_def run(1) refl, where later = "[]" and n = 4 and x = x] by blast
  then show ?thesis using run(1) example_host_polite unfolding e_def [symmetric] Let_def by blast
qed

end
