(* ===== verification/Spec2Isabelle.thy ===== *)
theory Spec2Isabelle imports Transcript_Claims Observation_Claims Work_Claims Decimal_Exact Session_Claims Manual_Clock Facade_Claims Management_Claims View_Claims Settings_Edits Home_Screen Support_Screen Tauri_Claims begin

text \<open>
  A verification library for STFC Mod Bridge: the JavaScript and TypeScript parts that decide something, from the bytes on
  the wire to what a screen proposes to the user.

  \<^bold>\<open>The program.\<close> A native host and a browser page exchange JSON messages: requests with replies, and events on one stream. Under
  \<^verbatim>\<open>contracts/codec/\<close> lie the strict decoder of a message and the checker of a whole transcript. The page, under
  \<^verbatim>\<open>ui/src/\<close>, is built in layers. \<^verbatim>\<open>client/wire.ts\<close>, \<^verbatim>\<open>relations.ts\<close>, \<^verbatim>\<open>draft-acknowledgement.ts\<close> and
  \<^verbatim>\<open>configuration-completion.ts\<close> guard the boundary; \<^verbatim>\<open>client.ts\<close> makes calls over a transport, of which the desktop's is
  \<^verbatim>\<open>client/tauri/transport.ts\<close>; \<^verbatim>\<open>observation.ts\<close> holds what the page knows of the
  host and \<^verbatim>\<open>work-context.ts\<close> what the user is working on; \<^verbatim>\<open>observation-session.ts\<close> keeps the store up to date;
  \<^verbatim>\<open>state/action-review.ts\<close> and \<^verbatim>\<open>state/bridge-facade.ts\<close> take an intent through preparation, review, submission and
  recovery; and the controllers and presentations under \<^verbatim>\<open>views/\<close> turn it into screens. Each layer calls the one below and hears from it
  through a listener.
\<close>

section \<open>How the code is represented\<close>

text \<open>
  Values and effects. Strings are lists of UTF-16 code units, JSON values the type \<open>jv\<close> with members in insertion order, a
  \<^verbatim>\<open>Map\<close> is an association list in insertion order, a thrown exception the left side of a sum (\<open>Js_Prelude\<close>, with the
  loops of \<open>Js_Control\<close>). A method of an object is an action on the object's record (\<open>Js_State\<close>): it ends with a value or an
  error and with the fields as they are then, since a throw undoes no write. \<open>wp\<close> reads an action backwards; \<open>Js_Kept\<close>
  gives, for an invariant and an order, one rule per form of statement, as the locale \<open>keeping\<close>. \<open>Machines\<close> lifts what one step keeps to a
  run, as the locale \<open>monotone_machine\<close>; \<open>Work_Changes\<close> has the locale \<open>kept_order\<close>, \<open>Review_Beneath\<close> the locale \<open>beneath\<close>.
  Every locale is interpreted on the model's own definitions.

  Time. A method that awaits is cut at each await into the part before and the part after, and what it waits for is a numbered promise with
  the local variables that the rest needs. Settling a promise is a step of the machine that may come at any later time, with
  any other steps in between. Of the answer nothing is assumed unless a hypothesis says so.

  Listeners. A store publishes to its listeners in the order in which they subscribed, and a listener can call back. In the client, the store and
  the context the listeners' effect is a sequence of further steps; for the reviewer, the facade and the screens it is a
  parameter, an action that runs at the point at which the code publishes. \<open>polite\<close>, \<open>polite_screens\<close> and, for what the desktop
  transport calls, \<open>polite_host\<close> say what such an action may do: any finite sequence of calls, of methods that publish again. A set of listeners is one function. A facade hears of the store
  after the reviewer beneath it, in the order the code subscribes (\<open>told\<close>, \<open>fa_seen\<close>).

  Bounds and fuel. The decoder recurses on fuel, and \<open>parse_fuel_all\<close> proves that what it is given, twice the length of the text and two, is
  never used up. The copying of objects recurses on the levels that are left, of 32. Loops with a limit of turns recurse on the turns. The limits of the source are the numbers of the
  source: a mebibyte and 32 levels for wire data, 18446744073709551615 for counters, the ranges of the client's and the
  store's options. The integers of the manual clock are HOL integers with the source's safe-integer checks.

  Parameters. The generated validators, SHA-256, fresh identifiers, the case tables of Unicode and the locale's lower case are
  not code of the repository or not read as source; they are arguments of the definitions that use them, and a property that relies on
  one says so and has a witness with a concrete function.
\<close>

section \<open>Theories and sources\<close>

text \<open>
  \<^item> Codec. \<open>Unicode\<close>: scalar Unicode, UTF-8 and base64. \<open>Strict_Json\<close>, \<open>Canonical\<close>: the decoder, the canonical text and
    what the one reads of the other; \<^verbatim>\<open>strict-json.mjs\<close>. A relation \<open>reads_value\<close> is the grammar, and the decoder is
    shown equal to it.
  \<^item> Transcript. \<open>Transcript\<close>: \<^verbatim>\<open>transcript.mjs\<close> whole, each check in its order. \<open>Transcript_Moves\<close>: every accepted step is a sequence of
    elementary moves. \<open>Transcript_Props\<close>, \<open>Transcript_Claims\<close>: invariants of moves, and what an accepted transcript establishes.
  \<^item> Boundary. \<open>Client_Wire\<close>, \<open>Client_Capture\<close>: \<^verbatim>\<open>wire.ts\<close>, copying from a heap of objects with descriptors and getters.
    \<open>Wire_Size\<close>, \<open>Client_Relations\<close>, \<open>Plan_Identity\<close>: \<^verbatim>\<open>relations.ts\<close>. \<open>Client_Drafts\<close>: \<^verbatim>\<open>draft-acknowledgement.ts\<close> and
    \<^verbatim>\<open>configuration-completion.ts\<close>.
  \<^item> Client. \<open>Client_Outcome\<close>, \<open>Bridge_Client\<close>: \<^verbatim>\<open>client.ts\<close>. \<open>Client_Steps\<close>, \<open>Client_Custody\<close>: its elementary changes, its invariant
    and its order. \<open>Client_Claims\<close>: what a caller can rely on.
  \<^item> Desktop transport. \<open>Tauri_Wire\<close>, \<open>Tauri_Transport\<close>: \<^verbatim>\<open>tauri/transport.ts\<close>, what it makes of the host's values and its
    methods, answers and turns. \<open>Tauri_Kept\<close>, \<open>Tauri_Steps\<close>, \<open>Tauri_Claims\<close>: what every step keeps, and what the client relies on.
  \<^item> Store. \<open>Observation\<close>: \<^verbatim>\<open>observation.ts\<close>. \<open>Observation_Changes\<close>, \<open>Observation_Claims\<close>: labelled changes, bounds and
    what is never taken back.
  \<^item> Work. \<open>Decimal\<close>, \<open>Decimal_Exact\<close>: the comparison of decimal strings, against the rationals. \<open>Work_Context\<close>:
    \<^verbatim>\<open>work-context.ts\<close>. \<open>Work_Changes\<close>, \<open>Work_Claims\<close>: unsaved work and generations.
  \<^item> Session. \<open>Desk\<close>, \<open>Observation_Session\<close>, \<open>Session_Claims\<close>: \<^verbatim>\<open>observation-session.ts\<close> over the client and the store.
  \<^item> Review. \<open>Screen_Controllers\<close>: \<^verbatim>\<open>navigation/\<close> and the helpers of \<^verbatim>\<open>state/\<close>. \<open>Action_Review\<close>: \<^verbatim>\<open>action-review.ts\<close>.
    \<open>Review_Kept\<close>, \<open>Review_Claims\<close>: the plan that is submitted is the one reviewed.
  \<^item> Facade. \<open>Work_Phases\<close>, \<open>Bridge_Facade\<close>, \<open>Facade_Saves\<close>: \<^verbatim>\<open>bridge-facade.ts\<close>. \<open>Review_Beneath\<close>, \<open>Facade_Kept\<close>,
    \<open>Facade_Steps\<close>, \<open>Facade_Claims\<close>: what its steps keep, for the facade's own fields over every method of the reviewer.
  \<^item> Screens. \<open>Home_View\<close>, \<open>Management_View\<close>, \<open>Settings_View\<close>, \<open>Support_View\<close>: the presentations. \<open>Home_Screen\<close>;
    \<open>Management\<close>, \<open>Management_Intents\<close>, \<open>Management_Reads\<close>; \<open>Settings\<close>, \<open>Settings_Edits\<close> with the synchronisation
    screen; \<open>Support_Screen\<close>: the controllers. \<open>Management_Claims\<close>, \<open>View_Claims\<close>: what they propose and disclose.
  \<^item> Development. \<open>Manual_Clock\<close>: \<^verbatim>\<open>mocks/clock.ts\<close>.
\<close>

section \<open>What is shown\<close>

text \<open>
  Codec: what the decoder accepts is within the limits of the wire, what is encoded is read back, and it always ends with a value or one of its codes.
  Transcript: operations never regress, an idempotency key is admitted once and for a prepared plan, nothing is admitted after a close, and the
  closing accounts for what is pending. Boundary: whatever object graph is passed, a detached value within the limits comes out, the tree that was passed
  when it is one; canonical texts decide equality; accepted drafts are the drafts acknowledged or saved. Client: a call has one outcome, disposal settles
  every call, \<^verbatim>\<open>not_sent\<close> is true, replays are immutable. Desktop transport: a frame is counted exactly and handed over at most once, \<^verbatim>\<open>not_sent\<close>
  is true there too, quotas hold, and disposal settles every exchange. Store: it stays bounded, takes nothing back, and is stale between a gap and
  a snapshot. Work: unsaved work goes only by a matching save or an acknowledged discard. Session: one subscription writes at a time.
  Review and facade: over all interleavings the plan that is submitted is the plan that was prepared for what is shown, and a disposed facade is silent.
  Screens: proposals are about what is open, late answers write nothing, summaries disclose no reference.
\<close>

section \<open>Not modelled\<close>

text \<open>
  The generated \<^verbatim>\<open>protocol.ts\<close> (types only) and \<^verbatim>\<open>validators.mjs\<close> (machine-written from the schemas, a parameter).
  \<^verbatim>\<open>presentProgress\<close>, which divides floating-point numbers. The Svelte components and the start of the page, which are markup and
  wiring. The scripted sessions of development and the gallery. The scripts under \<^verbatim>\<open>scripts/next/\<close> and the
  plan checker: builds, drivers of browsers and native binaries, evidence files; they are input and output throughout. The Rust
  crates and the .NET launcher, which are other languages.

  Within what is modelled: the promise that reports the end of a reconciled save to its caller is left out, since only its settling has an
  effect; \<^verbatim>\<open>subscribe\<close> of a screen controller is the page's own registration and stands as the one listener function.
\<close>

end
